(* ===== verification/Eyenet_Prelude.thy ===== *)
theory Eyenet_Prelude
  imports Main "HOL-Library.Word" "HOL-Library.Sublist" "HOL-Library.Product_Lexorder"
begin

text \<open>
  Shared vocabulary of the development: the value types of the program (UUIDs, instants,
  bytes, JSON payload values), the exceptions its storage layer raises, and tables as
  lists of rows in insertion order with the four statements the storage layer issues on
  them (\<open>session.get\<close>, \<open>INSERT\<close>, \<open>session.add\<close> of a loaded row, conditional
  \<open>UPDATE\<close>). Every component builds on these and on their lemmas.
\<close>

section \<open>Collections of facts\<close>

named_theorems op_defs \<open>definitions of the operations of a component\<close>
named_theorems row_simps \<open>projections that an operation leaves unchanged\<close>

section \<open>Values\<close>

text \<open>
  A UUID is the integer \<open>UUID.int\<close>; comparing UUIDs compares these integers. An aware
  \<open>datetime\<close> is its instant, in microseconds since the epoch, and a \<open>timedelta\<close> a
  number of microseconds. A \<open>str\<close> is a list of characters (code points below 256).
\<close>

type_synonym uuid = nat
type_synonym time = int
type_synonym byte = "8 word"
type_synonym bytes = "8 word list"

definition seconds :: "int \<Rightarrow> int" where
  "seconds n = n * 1000000"

definition days :: "int \<Rightarrow> int" where
  "days n = seconds (n * 86400)"

text \<open>JSON values of the audit payloads; \<open>str(uuid)\<close> and \<open>isoformat\<close> are kept symbolic, a float is its text.\<close>

datatype jval =
    JNull
  | JBool bool
  | JInt int
  | JNum string
  | JStr string
  | JUuid uuid
  | JTime time
  | JList "jval list"
  | JObj "(string \<times> jval) list"

definition jopt :: "('a \<Rightarrow> jval) \<Rightarrow> 'a option \<Rightarrow> jval" where
  "jopt f x = (case x of None \<Rightarrow> JNull | Some v \<Rightarrow> f v)"

section \<open>Exceptions\<close>

text \<open>
  The exceptions the modelled code raises. The string is the literal head of the message;
  identifiers interpolated into it are carried as arguments where the handlers read them.
\<close>

datatype exn =
    ValueError string
  | RuntimeError string
  | KeyError string
  | OverflowError
  | IntegrityError string
  | ClearanceGrantError string
  | CaseError string
  | ReclassifyDemotionError uuid
  | SourceCanonicalUrlError string uuid
  | SourceDomainOverlapError uuid string
  | ResourceInUseError string "(string \<times> nat) list"
  | FileAccessJournalError string
  | AuditAppendError
  | ScopeForbidden string
  | AuthError string
  | ResourceNotFound string
  | ConflictError string
  | UnprocessableError string
  | ServiceUnavailableError string
  | JwtError string
  | RequestValidationError string
  | SigningKeyRegistrationError string
  | OSError

text \<open>An operation returns the exception or the value, and the new state.\<close>

type_synonym ('a, 's) outcome = "(exn + 'a) \<times> 's"

section \<open>Tables\<close>

definition tbl_get :: "('r \<Rightarrow> 'k) \<Rightarrow> 'k \<Rightarrow> 'r list \<Rightarrow> 'r option" where
  "tbl_get pk k rows = find (\<lambda>r. pk r = k) rows"

definition tbl_has :: "('r \<Rightarrow> 'k) \<Rightarrow> 'k \<Rightarrow> 'r list \<Rightarrow> bool" where
  "tbl_has pk k rows = (k \<in> pk ` set rows)"

definition tbl_save :: "('r \<Rightarrow> 'k) \<Rightarrow> 'r \<Rightarrow> 'r list \<Rightarrow> 'r list" where
  "tbl_save pk x rows = map (\<lambda>r. if pk r = pk x then x else r) rows"

definition tbl_update :: "('r \<Rightarrow> bool) \<Rightarrow> ('r \<Rightarrow> 'r) \<Rightarrow> 'r list \<Rightarrow> 'r list" where
  "tbl_update P f rows = map (\<lambda>r. if P r then f r else r) rows"

definition tbl_delete :: "('r \<Rightarrow> 'k) \<Rightarrow> 'k \<Rightarrow> 'r list \<Rightarrow> 'r list" where
  "tbl_delete pk k rows = filter (\<lambda>r. pk r \<noteq> k) rows"

text \<open>\<open>rowcount\<close> of a conditional \<open>UPDATE\<close>: the rows its \<open>WHERE\<close> selects.\<close>

definition rowcount :: "('r \<Rightarrow> bool) \<Rightarrow> 'r list \<Rightarrow> nat" where
  "rowcount P rows = length (filter P rows)"

text \<open>\<open>OFFSET\<close> and \<open>LIMIT\<close>.\<close>

definition page :: "nat \<Rightarrow> nat \<Rightarrow> 'r list \<Rightarrow> 'r list" where
  "page off limit rows = take limit (drop off rows)"

text \<open>\<open>ORDER BY key ASC\<close> and \<open>ORDER BY key DESC\<close>.\<close>

definition order_asc :: "('r \<Rightarrow> 'k::linorder) \<Rightarrow> 'r list \<Rightarrow> 'r list" where
  "order_asc f rows = sort_key f rows"

definition order_desc :: "('r \<Rightarrow> 'k::linorder) \<Rightarrow> 'r list \<Rightarrow> 'r list" where
  "order_desc f rows = rev (sort_key f (rev rows))"

text \<open>Primary key: no two rows of a table have the same key.\<close>

definition keyed :: "('r \<Rightarrow> 'k) \<Rightarrow> 'r list \<Rightarrow> bool" where
  "keyed pk rows = distinct (map pk rows)"

lemma keyed_Nil [simp]: "keyed pk []"
  by (simp add: keyed_def)

lemma keyed_Cons [simp]: "keyed pk (r # rows) \<longleftrightarrow> pk r \<notin> pk ` set rows \<and> keyed pk rows"
  by (simp add: keyed_def)

lemma keyed_snoc [simp]: "keyed pk (rows @ [r]) \<longleftrightarrow> keyed pk rows \<and> \<not> tbl_has pk (pk r) rows"
  by (auto simp: keyed_def tbl_has_def)

lemma tbl_get_Nil [simp]: "tbl_get pk k [] = None"
  by (simp add: tbl_get_def)

lemma tbl_get_Cons [simp]:
  "tbl_get pk k (r # rows) = (if pk r = k then Some r else tbl_get pk k rows)"
  by (simp add: tbl_get_def)

lemma tbl_get_append:
  "tbl_get pk k (xs @ ys) = (case tbl_get pk k xs of None \<Rightarrow> tbl_get pk k ys | Some r \<Rightarrow> Some r)"
  by (induction xs) auto

lemma tbl_get_SomeD: "tbl_get pk k rows = Some r \<Longrightarrow> r \<in> set rows \<and> pk r = k"
  by (induction rows) (auto split: if_splits)

lemma tbl_get_None_iff: "tbl_get pk k rows = None \<longleftrightarrow> \<not> tbl_has pk k rows"
  by (induction rows) (auto simp: tbl_has_def)

lemma tbl_get_Some_has: "tbl_get pk k rows = Some r \<Longrightarrow> tbl_has pk k rows"
  using tbl_get_None_iff [of pk k rows] by simp

lemma tbl_get_keyed: "keyed pk rows \<Longrightarrow> r \<in> set rows \<Longrightarrow> tbl_get pk (pk r) rows = Some r"
  by (induction rows) (auto simp: image_iff)

lemma tbl_get_keyed_iff:
  "keyed pk rows \<Longrightarrow> tbl_get pk k rows = Some r \<longleftrightarrow> r \<in> set rows \<and> pk r = k"
  using tbl_get_SomeD tbl_get_keyed by fastforce

lemma map_pk_tbl_save [simp]: "map pk (tbl_save pk x rows) = map pk rows"
  by (simp add: tbl_save_def)

lemma length_tbl_save [simp]: "length (tbl_save pk x rows) = length rows"
  by (simp add: tbl_save_def)

lemma keyed_tbl_save [simp]: "keyed pk (tbl_save pk x rows) = keyed pk rows"
  by (simp add: keyed_def)

lemma set_tbl_save:
  "set (tbl_save pk x rows)
     = {r \<in> set rows. pk r \<noteq> pk x} \<union> (if tbl_has pk (pk x) rows then {x} else {})"
  unfolding tbl_save_def tbl_has_def by (auto simp: image_iff)

lemma set_tbl_save_sub: "r \<in> set (tbl_save pk x rows) \<Longrightarrow> r = x \<or> r \<in> set rows"
  by (auto simp: tbl_save_def)

lemma tbl_get_tbl_save:
  "tbl_get pk k (tbl_save pk x rows)
     = (if k = pk x \<and> tbl_has pk k rows then Some x else tbl_get pk k rows)"
  by (induction rows) (auto simp: tbl_save_def tbl_has_def tbl_get_None_iff)

lemma tbl_save_absent: "\<not> tbl_has pk (pk x) rows \<Longrightarrow> tbl_save pk x rows = rows"
  by (induction rows) (auto simp: tbl_save_def tbl_has_def)

lemma map_pk_tbl_update [simp]:
  "(\<And>r. pk (f r) = pk r) \<Longrightarrow> map pk (tbl_update P f rows) = map pk rows"
  by (simp add: tbl_update_def)

lemma keyed_tbl_update [simp]:
  "(\<And>r. pk (f r) = pk r) \<Longrightarrow> keyed pk (tbl_update P f rows) = keyed pk rows"
  by (simp add: keyed_def)

lemma set_tbl_update:
  "set (tbl_update P f rows) = {r \<in> set rows. \<not> P r} \<union> f ` {r \<in> set rows. P r}"
  by (auto simp: tbl_update_def)

lemma tbl_get_tbl_update:
  assumes "\<And>r. pk (f r) = pk r"
  shows "tbl_get pk k (tbl_update P f rows)
     = map_option (\<lambda>r. if P r then f r else r) (tbl_get pk k rows)"
  using assms by (induction rows) (auto simp: tbl_update_def)

lemma keyed_tbl_delete [simp]: "keyed pk rows \<Longrightarrow> keyed pk (tbl_delete pk k rows)"
  by (simp add: keyed_def tbl_delete_def distinct_map_filter)

lemma tbl_get_tbl_delete:
  "tbl_get pk k' (tbl_delete pk k rows) = (if k' = k then None else tbl_get pk k' rows)"
  by (induction rows) (auto simp: tbl_delete_def)

lemma tbl_has_tbl_save [simp]: "tbl_has pk k (tbl_save pk x rows) = tbl_has pk k rows"
  by (metis map_pk_tbl_save set_map tbl_has_def)

lemma set_order_asc [simp]: "set (order_asc f rows) = set rows"
  by (simp add: order_asc_def)

lemma set_order_desc [simp]: "set (order_desc f rows) = set rows"
  by (simp add: order_desc_def)

lemma length_order_desc [simp]: "length (order_desc f rows) = length rows"
  by (simp add: order_desc_def)

lemma order_asc_sorted_id: "sorted (map f rows) \<Longrightarrow> order_asc f rows = rows"
  unfolding order_asc_def by (induction rows) (auto simp: insort_is_Cons)

lemma order_desc_sorted: "sorted (map f (rev (order_desc f rows)))"
  by (simp add: order_desc_def)

lemma length_page_eq: "length (page off limit rows) = min limit (length rows - off)"
  by (simp add: page_def min.commute)

text \<open>Consecutive pages of one listing concatenate to the listing.\<close>

lemma page_append: "page off limit rows @ page (off + limit) limit' rows = page off (limit + limit') rows"
  by (simp add: page_def take_add add.commute)

lemma set_page_subset: "set (page off limit rows) \<subseteq> set rows"
  using set_take_subset set_drop_subset unfolding page_def by fast

lemma length_page: "length (page off limit rows) \<le> limit"
  by (simp add: page_def)

text \<open>On a keyed table, a condition that pins the key selects at most one row.\<close>

lemma rowcount_keyed:
  assumes "keyed pk rows"
  shows "rowcount (\<lambda>r. pk r = k \<and> P r) rows
     = (case tbl_get pk k rows of None \<Rightarrow> 0 | Some r \<Rightarrow> if P r then 1 else 0)"
  using assms
proof (induction rows)
  case Nil
  then show ?case by (simp add: rowcount_def)
next
  case (Cons x xs)
  have none: "pk x = k \<Longrightarrow> filter (\<lambda>r. pk r = k \<and> P r) xs = []"
    using Cons.prems by (auto simp: filter_empty_conv) (metis image_eqI)
  from Cons show ?case
    by (cases "pk x = k") (auto simp: rowcount_def none split: option.split)
qed

lemma keyed_eq: "keyed pk rows \<Longrightarrow> r \<in> set rows \<Longrightarrow> s \<in> set rows \<Longrightarrow> pk r = pk s \<Longrightarrow> r = s"
  by (metis option.inject tbl_get_keyed)

text \<open>A conditional \<open>UPDATE\<close> that pins the key reports one row iff that row meets its condition.\<close>

lemma rowcount_one_iff:
  assumes "keyed pk rows"
  shows "rowcount (\<lambda>r. pk r = k \<and> P r) rows = Suc 0 \<longleftrightarrow> (\<exists>r\<in>set rows. pk r = k \<and> P r)"
  unfolding rowcount_keyed [OF assms]
  by (auto simp: tbl_get_keyed_iff [OF assms] tbl_get_None_iff tbl_has_def
      dest: keyed_eq [OF assms] split: option.splits)

section \<open>Finding the first match\<close>

lemma find_SomeD: "find P xs = Some x \<Longrightarrow> x \<in> set xs \<and> P x"
  by (induction xs) (auto split: if_splits)

lemma find_None_iff_all: "find P xs = None \<longleftrightarrow> (\<forall>x\<in>set xs. \<not> P x)"
  by (induction xs) auto

lemma find_append:
  "find P (xs @ ys) = (case find P xs of None \<Rightarrow> find P ys | Some x \<Rightarrow> Some x)"
  by (induction xs) auto

section \<open>Set comprehensions that Python builds with dict and set literals\<close>

text \<open>\<open>len({f(x) for x in xs})\<close>.\<close>

definition distinct_count :: "('a \<Rightarrow> 'b) \<Rightarrow> 'a list \<Rightarrow> nat" where
  "distinct_count f xs = length (remdups (map f xs))"

lemma distinct_count_card: "distinct_count f xs = card (f ` set xs)"
  by (simp add: distinct_count_def length_remdups_card_conv)

lemma distinct_count_mono: "distinct_count f xs \<le> distinct_count f (xs @ ys)"
  unfolding distinct_count_card by (rule card_mono) auto

text \<open>\<open>min(xs, key=f)\<close>: the first element with the least key.\<close>

fun min_on :: "('a \<Rightarrow> 'b::linorder) \<Rightarrow> 'a list \<Rightarrow> 'a option" where
  "min_on f [] = None"
| "min_on f (x # xs) =
     (case min_on f xs of None \<Rightarrow> Some x | Some y \<Rightarrow> if f x \<le> f y then Some x else Some y)"

lemma min_on_None [simp]: "min_on f xs = None \<longleftrightarrow> xs = []"
  by (cases xs) (auto split: option.splits)

lemma min_on_SomeD: "min_on f xs = Some m \<Longrightarrow> m \<in> set xs \<and> (\<forall>x\<in>set xs. f m \<le> f x)"
proof (induction xs arbitrary: m)
  case Nil
  then show ?case by simp
next
  case (Cons x xs)
  show ?case
  proof (cases "min_on f xs")
    case None
    with Cons.prems show ?thesis by simp
  next
    case (Some y)
    with Cons.IH have "y \<in> set xs" and "\<forall>z\<in>set xs. f y \<le> f z" by auto
    with Some Cons.prems show ?thesis by (fastforce split: if_splits)
  qed
qed

text \<open>\<open>max(xs, key=f)\<close>: the first element with the greatest key.\<close>

fun max_on :: "('a \<Rightarrow> 'b::linorder) \<Rightarrow> 'a list \<Rightarrow> 'a option" where
  "max_on f [] = None"
| "max_on f (x # xs) =
     (case max_on f xs of None \<Rightarrow> Some x | Some y \<Rightarrow> if f y \<le> f x then Some x else Some y)"

lemma max_on_None [simp]: "max_on f xs = None \<longleftrightarrow> xs = []"
  by (cases xs) (auto split: option.splits)

lemma max_on_SomeD: "max_on f xs = Some m \<Longrightarrow> m \<in> set xs \<and> (\<forall>x\<in>set xs. f x \<le> f m)"
proof (induction xs arbitrary: m)
  case Nil
  then show ?case by simp
next
  case (Cons x xs)
  show ?case
  proof (cases "max_on f xs")
    case None
    with Cons.prems show ?thesis by simp
  next
    case (Some y)
    with Cons.IH have "y \<in> set xs" and "\<forall>z\<in>set xs. f z \<le> f y" by auto
    with Some Cons.prems show ?thesis by (fastforce split: if_splits)
  qed
qed

lemma max_on_snoc_greatest:
  "\<forall>x\<in>set xs. f x < (f y :: 'b::linorder) \<Longrightarrow> max_on f (xs @ [y]) = Some y"
  by (induction xs) auto

text \<open>On a table whose sequence column counts from 1, the greatest is the last row.\<close>

lemma max_on_seq:
  assumes "map f xs = [1..<Suc (length xs)]"
  shows "max_on f xs = (if xs = [] then None else Some (last xs))"
proof (cases xs rule: rev_cases)
  case Nil
  then show ?thesis by simp
next
  case (snoc ts t)
  have "f t = Suc (length ts)" and ts: "map f ts = [1..<Suc (length ts)]"
    using assms snoc by simp_all
  moreover have "f x < Suc (length ts)" if "x \<in> set ts" for x
  proof -
    have "f x \<in> set (map f ts)" using that by simp
    then show ?thesis unfolding ts by auto
  qed
  ultimately show ?thesis using snoc by (simp add: max_on_snoc_greatest)
qed

lemma find_tbl_update:
  assumes "\<And>r. Q (f r) = Q r"
  shows "find Q (tbl_update P f rows) = map_option (\<lambda>r. if P r then f r else r) (find Q rows)"
  using assms by (induction rows) (auto simp: tbl_update_def)

text \<open>What follows the last row of a page, in a listing sorted by a key.\<close>

lemma sorted_split:
  assumes "sorted (map f s)" and "distinct (map f s)" and "0 < k" and "k \<le> length s"
  shows "filter (\<lambda>r. f (last (take k s)) < f r) s = drop k s"
proof -
  have "take k s \<noteq> []" using assms(3,4) by auto
  then obtain ys y where t: "take k s = ys @ [y]" by (cases "take k s" rule: rev_cases) auto
  have s: "s = (ys @ [y]) @ drop k s" unfolding t [symmetric] by (rule append_take_drop_id [symmetric])
  define zs where "zs = drop k s"
  have s': "s = (ys @ [y]) @ zs" unfolding zs_def by (rule s)
  have "\<forall>x\<in>set ys. f x \<le> f y" and "\<forall>x\<in>set zs. f y \<le> f x \<and> f y \<noteq> f x"
    using assms(1,2) unfolding s' by (auto simp: sorted_append image_iff)
  then have "filter (\<lambda>r. f y < f r) (ys @ [y]) = []" and "filter (\<lambda>r. f y < f r) zs = zs"
    by (auto simp: filter_empty_conv not_less filter_id_conv order_less_le)
  then have "filter (\<lambda>r. f y < f r) s = zs" unfolding s' by (simp only: filter_append append_Nil)
  then have "filter (\<lambda>r. f y < f r) s = drop k s" unfolding zs_def .
  then show ?thesis by (simp add: t)
qed

end
