(* ===== verification/Enums.thy ===== *)
theory Enums
  imports Eyenet_Prelude
begin

text \<open>
  The enumerations of \<open>contracts/enums.py\<close> that the modelled components use, one datatype per
  \<open>StrEnum\<close> with the source's members (prefixed where two enumerations share a member name)
  and, for each, the string a member is stored and serialised as. The sensitivity tiers carry
  the order of \<open>TIER_RANK\<close>, as an instance of \<open>linorder\<close>.
\<close>

section \<open>StrEnums\<close>

datatype source_kind =
    Src_TELEGRAM
  | Src_MATRIX
  | Src_IRC
  | Src_DISCORD
  | Src_FORUM
  | Src_RSS
  | Src_XMPP

primrec source_kind_value :: "source_kind \<Rightarrow> string" where
  "source_kind_value Src_TELEGRAM = ''telegram''"
| "source_kind_value Src_MATRIX = ''matrix''"
| "source_kind_value Src_IRC = ''irc''"
| "source_kind_value Src_DISCORD = ''discord''"
| "source_kind_value Src_FORUM = ''forum''"
| "source_kind_value Src_RSS = ''rss''"
| "source_kind_value Src_XMPP = ''xmpp''"

datatype group_kind =
    Grp_CHAT
  | Grp_CHANNEL
  | Grp_DM
  | Grp_FORUM_CATEGORY
  | Grp_FORUM_THREAD
  | Grp_IRC_CHANNEL
  | Grp_MATRIX_ROOM

primrec group_kind_value :: "group_kind \<Rightarrow> string" where
  "group_kind_value Grp_CHAT = ''chat''"
| "group_kind_value Grp_CHANNEL = ''channel''"
| "group_kind_value Grp_DM = ''dm''"
| "group_kind_value Grp_FORUM_CATEGORY = ''forum_category''"
| "group_kind_value Grp_FORUM_THREAD = ''forum_thread''"
| "group_kind_value Grp_IRC_CHANNEL = ''irc_channel''"
| "group_kind_value Grp_MATRIX_ROOM = ''matrix_room''"

datatype identity_state =
    Idn_AVAILABLE
  | Idn_IN_USE
  | Idn_COOLING
  | Idn_FROZEN
  | Idn_BURNED

primrec identity_state_value :: "identity_state \<Rightarrow> string" where
  "identity_state_value Idn_AVAILABLE = ''available''"
| "identity_state_value Idn_IN_USE = ''in_use''"
| "identity_state_value Idn_COOLING = ''cooling''"
| "identity_state_value Idn_FROZEN = ''frozen''"
| "identity_state_value Idn_BURNED = ''burned''"

datatype linkage_state =
    Lnk_PROPOSED
  | Lnk_SUSPECTED
  | Lnk_CONFIRMED
  | Lnk_REJECTED
  | Lnk_SUPERSEDED

primrec linkage_state_value :: "linkage_state \<Rightarrow> string" where
  "linkage_state_value Lnk_PROPOSED = ''proposed''"
| "linkage_state_value Lnk_SUSPECTED = ''suspected''"
| "linkage_state_value Lnk_CONFIRMED = ''confirmed''"
| "linkage_state_value Lnk_REJECTED = ''rejected''"
| "linkage_state_value Lnk_SUPERSEDED = ''superseded''"

datatype case_status =
    Case_OPEN
  | Case_CLOSED
  | Case_ARCHIVED

primrec case_status_value :: "case_status \<Rightarrow> string" where
  "case_status_value Case_OPEN = ''open''"
| "case_status_value Case_CLOSED = ''closed''"
| "case_status_value Case_ARCHIVED = ''archived''"

datatype case_subject_kind =
    Subj_OBSERVATION
  | Subj_ATTACHMENT
  | Subj_MESSAGE
  | Subj_ACTOR
  | Subj_PERSONA
  | Subj_LINKAGE

primrec case_subject_kind_value :: "case_subject_kind \<Rightarrow> string" where
  "case_subject_kind_value Subj_OBSERVATION = ''observation''"
| "case_subject_kind_value Subj_ATTACHMENT = ''attachment''"
| "case_subject_kind_value Subj_MESSAGE = ''message''"
| "case_subject_kind_value Subj_ACTOR = ''actor''"
| "case_subject_kind_value Subj_PERSONA = ''persona''"
| "case_subject_kind_value Subj_LINKAGE = ''linkage''"

datatype case_role_on_case =
    Role_OWNER
  | Role_ANALYST
  | Role_REVIEWER

primrec case_role_on_case_value :: "case_role_on_case \<Rightarrow> string" where
  "case_role_on_case_value Role_OWNER = ''owner''"
| "case_role_on_case_value Role_ANALYST = ''analyst''"
| "case_role_on_case_value Role_REVIEWER = ''reviewer''"

datatype redundancy_policy =
    PREFER_SINGLE
  | PREFER_DUAL
  | REQUIRED_DUAL

primrec redundancy_policy_value :: "redundancy_policy \<Rightarrow> string" where
  "redundancy_policy_value PREFER_SINGLE = ''prefer_single''"
| "redundancy_policy_value PREFER_DUAL = ''prefer_dual''"
| "redundancy_policy_value REQUIRED_DUAL = ''required_dual''"

datatype auto_join_policy =
    Auto_DISABLED
  | Auto_SCORE_THRESHOLD
  | Auto_SCORE_THRESHOLD_WITH_ROLE_GATE

primrec auto_join_policy_value :: "auto_join_policy \<Rightarrow> string" where
  "auto_join_policy_value Auto_DISABLED = ''disabled''"
| "auto_join_policy_value Auto_SCORE_THRESHOLD = ''score_threshold''"
| "auto_join_policy_value Auto_SCORE_THRESHOLD_WITH_ROLE_GATE = ''score_threshold_with_role_gate''"

datatype sensitivity_tier =
    NORMAL
  | RESTRICTED
  | CLASSIFIED

primrec sensitivity_tier_value :: "sensitivity_tier \<Rightarrow> string" where
  "sensitivity_tier_value NORMAL = ''normal''"
| "sensitivity_tier_value RESTRICTED = ''restricted''"
| "sensitivity_tier_value CLASSIFIED = ''classified''"

datatype clearance_scope =
    READ_RESTRICTED
  | READ_CLASSIFIED
  | ADMIN_RECLASSIFY
  | ADMIN_CASE

primrec clearance_scope_value :: "clearance_scope \<Rightarrow> string" where
  "clearance_scope_value READ_RESTRICTED = ''read:restricted''"
| "clearance_scope_value READ_CLASSIFIED = ''read:classified''"
| "clearance_scope_value ADMIN_RECLASSIFY = ''admin:reclassify''"
| "clearance_scope_value ADMIN_CASE = ''admin:case''"

datatype reclassification_subject_kind =
    Recl_OBSERVATION
  | Recl_ATTACHMENT
  | Recl_DOCUMENT

primrec reclassification_subject_kind_value :: "reclassification_subject_kind \<Rightarrow> string" where
  "reclassification_subject_kind_value Recl_OBSERVATION = ''observation''"
| "reclassification_subject_kind_value Recl_ATTACHMENT = ''attachment''"
| "reclassification_subject_kind_value Recl_DOCUMENT = ''document''"

datatype file_served_via =
    INLINE_JSON
  | ATTACHMENT_STREAM
  | THUMBNAIL_ONLY

primrec file_served_via_value :: "file_served_via \<Rightarrow> string" where
  "file_served_via_value INLINE_JSON = ''inline_json''"
| "file_served_via_value ATTACHMENT_STREAM = ''attachment_stream''"
| "file_served_via_value THUMBNAIL_ONLY = ''thumbnail_only''"

datatype system_user_role =
    User_ADMIN
  | User_ANALYST
  | User_VIEWER

primrec system_user_role_value :: "system_user_role \<Rightarrow> string" where
  "system_user_role_value User_ADMIN = ''admin''"
| "system_user_role_value User_ANALYST = ''analyst''"
| "system_user_role_value User_VIEWER = ''viewer''"

datatype system_log_level =
    Log_WARN
  | Log_ERROR
  | Log_LIFECYCLE
  | Log_NOTICE

primrec system_log_level_value :: "system_log_level \<Rightarrow> string" where
  "system_log_level_value Log_WARN = ''warn''"
| "system_log_level_value Log_ERROR = ''error''"
| "system_log_level_value Log_LIFECYCLE = ''lifecycle''"
| "system_log_level_value Log_NOTICE = ''notice''"

datatype infrastructure_kind =
    Infra_WALLET_BTC
  | Infra_WALLET_XMR
  | Infra_WALLET_ETH
  | Infra_PGP_KEY
  | Infra_DOMAIN
  | Infra_ONION
  | Infra_EMAIL
  | Infra_PHONE
  | Infra_HANDLE_OTHER_PLATFORM
  | Infra_PASTE_URL

primrec infrastructure_kind_value :: "infrastructure_kind \<Rightarrow> string" where
  "infrastructure_kind_value Infra_WALLET_BTC = ''wallet_btc''"
| "infrastructure_kind_value Infra_WALLET_XMR = ''wallet_xmr''"
| "infrastructure_kind_value Infra_WALLET_ETH = ''wallet_eth''"
| "infrastructure_kind_value Infra_PGP_KEY = ''pgp_key''"
| "infrastructure_kind_value Infra_DOMAIN = ''domain''"
| "infrastructure_kind_value Infra_ONION = ''onion''"
| "infrastructure_kind_value Infra_EMAIL = ''email''"
| "infrastructure_kind_value Infra_PHONE = ''phone''"
| "infrastructure_kind_value Infra_HANDLE_OTHER_PLATFORM = ''handle_other_platform''"
| "infrastructure_kind_value Infra_PASTE_URL = ''paste_url''"

datatype source_domain_pattern_kind =
    EXACT
  | SUBDOMAIN_WILDCARD
  | SUFFIX_MATCH

primrec source_domain_pattern_kind_value :: "source_domain_pattern_kind \<Rightarrow> string" where
  "source_domain_pattern_kind_value EXACT = ''exact''"
| "source_domain_pattern_kind_value SUBDOMAIN_WILDCARD = ''subdomain_wildcard''"
| "source_domain_pattern_kind_value SUFFIX_MATCH = ''suffix_match''"

datatype collector_desired_state =
    Want_RUNNING
  | Want_STOPPED
  | Want_DISABLED

primrec collector_desired_state_value :: "collector_desired_state \<Rightarrow> string" where
  "collector_desired_state_value Want_RUNNING = ''running''"
| "collector_desired_state_value Want_STOPPED = ''stopped''"
| "collector_desired_state_value Want_DISABLED = ''disabled''"

datatype collector_observed_state =
    Obs_STOPPED
  | Obs_STARTING
  | Obs_RUNNING
  | Obs_COOLING
  | Obs_CRASHED

primrec collector_observed_state_value :: "collector_observed_state \<Rightarrow> string" where
  "collector_observed_state_value Obs_STOPPED = ''stopped''"
| "collector_observed_state_value Obs_STARTING = ''starting''"
| "collector_observed_state_value Obs_RUNNING = ''running''"
| "collector_observed_state_value Obs_COOLING = ''cooling''"
| "collector_observed_state_value Obs_CRASHED = ''crashed''"

datatype identity_role =
    IRole_MONITOR
  | IRole_SCOUT
  | IRole_QUARANTINE

primrec identity_role_value :: "identity_role \<Rightarrow> string" where
  "identity_role_value IRole_MONITOR = ''monitor''"
| "identity_role_value IRole_SCOUT = ''scout''"
| "identity_role_value IRole_QUARANTINE = ''quarantine''"

datatype candidate_state =
    DISCOVERED
  | QUEUED
  | APPROVED
  | JOINING
  | JOINED
  | REQUESTED
  | REJECTED
  | FAILED
  | PARKED

primrec candidate_state_value :: "candidate_state \<Rightarrow> string" where
  "candidate_state_value DISCOVERED = ''discovered''"
| "candidate_state_value QUEUED = ''queued''"
| "candidate_state_value APPROVED = ''approved''"
| "candidate_state_value JOINING = ''joining''"
| "candidate_state_value JOINED = ''joined''"
| "candidate_state_value REQUESTED = ''requested''"
| "candidate_state_value REJECTED = ''rejected''"
| "candidate_state_value FAILED = ''failed''"
| "candidate_state_value PARKED = ''parked''"

datatype mention_kind =
    Men_INVITE_LINK
  | Men_USERNAME_MENTION
  | Men_FORWARD_ORIGIN
  | Men_LINK_PREVIEW
  | Men_BIO_LINK
  | Men_OTHER

primrec mention_kind_value :: "mention_kind \<Rightarrow> string" where
  "mention_kind_value Men_INVITE_LINK = ''invite_link''"
| "mention_kind_value Men_USERNAME_MENTION = ''username_mention''"
| "mention_kind_value Men_FORWARD_ORIGIN = ''forward_origin''"
| "mention_kind_value Men_LINK_PREVIEW = ''link_preview''"
| "mention_kind_value Men_BIO_LINK = ''bio_link''"
| "mention_kind_value Men_OTHER = ''other''"

datatype resolution_state =
    Res_UNRESOLVED
  | Res_RESOLVED
  | Res_AMBIGUOUS
  | Res_NOT_APPLICABLE

primrec resolution_state_value :: "resolution_state \<Rightarrow> string" where
  "resolution_state_value Res_UNRESOLVED = ''unresolved''"
| "resolution_state_value Res_RESOLVED = ''resolved''"
| "resolution_state_value Res_AMBIGUOUS = ''ambiguous''"
| "resolution_state_value Res_NOT_APPLICABLE = ''not_applicable''"

datatype artifact_subject_kind =
    Art_GROUP
  | Art_CANDIDATE

primrec artifact_subject_kind_value :: "artifact_subject_kind \<Rightarrow> string" where
  "artifact_subject_kind_value Art_GROUP = ''group''"
| "artifact_subject_kind_value Art_CANDIDATE = ''candidate''"

datatype group_access_kind =
    Acc_PUBLIC_IDENTIFIER
  | Acc_INVITE_LINK
  | Acc_QR_CODE
  | Acc_DIRECT_INVITE
  | Acc_PAID_SUBSCRIPTION
  | Acc_ACCESS_BLOCKED
  | Acc_RESTRICTED_OTHER

primrec group_access_kind_value :: "group_access_kind \<Rightarrow> string" where
  "group_access_kind_value Acc_PUBLIC_IDENTIFIER = ''public_identifier''"
| "group_access_kind_value Acc_INVITE_LINK = ''invite_link''"
| "group_access_kind_value Acc_QR_CODE = ''qr_code''"
| "group_access_kind_value Acc_DIRECT_INVITE = ''direct_invite''"
| "group_access_kind_value Acc_PAID_SUBSCRIPTION = ''paid_subscription''"
| "group_access_kind_value Acc_ACCESS_BLOCKED = ''access_blocked''"
| "group_access_kind_value Acc_RESTRICTED_OTHER = ''restricted_other''"

datatype artifact_validation_state =
    Val_UNVERIFIED
  | Val_VALID
  | Val_EXPIRED
  | Val_REVOKED
  | Val_USAGE_EXHAUSTED
  | Val_BLOCKED_FOR_OUR_IDENTITY
  | Val_UNKNOWN_FAILURE

primrec artifact_validation_state_value :: "artifact_validation_state \<Rightarrow> string" where
  "artifact_validation_state_value Val_UNVERIFIED = ''unverified''"
| "artifact_validation_state_value Val_VALID = ''valid''"
| "artifact_validation_state_value Val_EXPIRED = ''expired''"
| "artifact_validation_state_value Val_REVOKED = ''revoked''"
| "artifact_validation_state_value Val_USAGE_EXHAUSTED = ''usage_exhausted''"
| "artifact_validation_state_value Val_BLOCKED_FOR_OUR_IDENTITY = ''blocked_for_our_identity''"
| "artifact_validation_state_value Val_UNKNOWN_FAILURE = ''unknown_failure''"

datatype joined_via =
    Via_SEED
  | Via_CANDIDATE
  | Via_MANUAL
  | Via_RESTORED

primrec joined_via_value :: "joined_via \<Rightarrow> string" where
  "joined_via_value Via_SEED = ''seed''"
| "joined_via_value Via_CANDIDATE = ''candidate''"
| "joined_via_value Via_MANUAL = ''manual''"
| "joined_via_value Via_RESTORED = ''restored''"

section \<open>Tier order\<close>

text \<open>\<open>TIER_RANK\<close> and \<open>RANK_TIER\<close> of \<open>storage/sqlmodel_repo/_helpers.py\<close>.\<close>

primrec TIER_RANK :: "sensitivity_tier \<Rightarrow> nat" where
  "TIER_RANK NORMAL = 0"
| "TIER_RANK RESTRICTED = 1"
| "TIER_RANK CLASSIFIED = 2"

definition RANK_TIER :: "nat \<Rightarrow> sensitivity_tier option" where
  "RANK_TIER r = (if r = 0 then Some NORMAL else if r = 1 then Some RESTRICTED
     else if r = 2 then Some CLASSIFIED else None)"

lemma RANK_TIER_TIER_RANK [simp]: "RANK_TIER (TIER_RANK t) = Some t"
  by (cases t) (simp_all add: RANK_TIER_def)

lemma TIER_RANK_inject [simp]: "TIER_RANK s = TIER_RANK t \<longleftrightarrow> s = t"
  by (cases s; cases t) simp_all

lemma TIER_RANK_le_2 [simp]: "TIER_RANK t \<le> 2"
  by (cases t) simp_all

lemma RANK_TIER_SomeD: "RANK_TIER r = Some t \<Longrightarrow> r = TIER_RANK t"
  by (auto simp: RANK_TIER_def split: if_splits)

instantiation sensitivity_tier :: linorder
begin

definition less_eq_sensitivity_tier :: "sensitivity_tier \<Rightarrow> sensitivity_tier \<Rightarrow> bool" where
  "s \<le> t \<longleftrightarrow> TIER_RANK s \<le> TIER_RANK t"

definition less_sensitivity_tier :: "sensitivity_tier \<Rightarrow> sensitivity_tier \<Rightarrow> bool" where
  "s < t \<longleftrightarrow> TIER_RANK s < TIER_RANK t"

instance
  by standard (auto simp: less_eq_sensitivity_tier_def less_sensitivity_tier_def)

end

lemma NORMAL_le [simp]: "NORMAL \<le> t"
  by (simp add: less_eq_sensitivity_tier_def)

lemma le_CLASSIFIED [simp]: "t \<le> CLASSIFIED"
  by (simp add: less_eq_sensitivity_tier_def)

lemma tier_rank_mono: "s \<le> t \<longleftrightarrow> TIER_RANK s \<le> TIER_RANK t"
  by (simp add: less_eq_sensitivity_tier_def)

lemma tier_rank_less: "s < t \<longleftrightarrow> TIER_RANK s < TIER_RANK t"
  by (simp add: less_sensitivity_tier_def)

lemma tier_le_simps [simp]:
  "RESTRICTED \<le> t \<longleftrightarrow> t \<noteq> NORMAL" "CLASSIFIED \<le> t \<longleftrightarrow> t = CLASSIFIED"
  "t \<le> NORMAL \<longleftrightarrow> t = NORMAL" "t \<le> RESTRICTED \<longleftrightarrow> t \<noteq> CLASSIFIED"
  by (cases t; simp add: less_eq_sensitivity_tier_def)+

end
