(* ===== verification/Hash_Chain.thy ===== *)
theory Hash_Chain
  imports Eyenet_Prelude
begin

text \<open>
  The contract the two hash-chained stores share (the audit log and the file-access journal):
  a row carries the hash of its predecessor and the hash of its own content, and a walk over
  the rows accepts exactly the chains built by appending. The locale derives from that
  contract what a chain is for: an accepted chain determines its rows, given its head.
\<close>

definition chain_tip :: "('r \<Rightarrow> 'h) \<Rightarrow> 'h \<Rightarrow> 'r list \<Rightarrow> 'h" where
  "chain_tip self genesis rows = (if rows = [] then genesis else self (last rows))"

lemma chain_tip_Nil [simp]: "chain_tip self g [] = g"
  by (simp add: chain_tip_def)

lemma chain_tip_snoc [simp]: "chain_tip self g (rows @ [r]) = self r"
  by (simp add: chain_tip_def)

lemma chain_tip_Cons: "chain_tip self g (r # rows) = chain_tip self (self r) rows"
  by (simp add: chain_tip_def)

text \<open>
  \<open>ok\<close> is the verifier, \<open>prev\<close> and \<open>self\<close> the two hashes a row carries, \<open>pre\<close> the bytes that are
  hashed, \<open>H\<close> the hash function. The bytes determine the row's content and its \<open>prev\<close>; the row
  is determined by them together with its \<open>self\<close>.
\<close>

locale hash_chain =
  fixes ok :: "'r list \<Rightarrow> bool"
    and prev :: "'r \<Rightarrow> 'h"
    and self :: "'r \<Rightarrow> 'h"
    and pre :: "'r \<Rightarrow> 'b"
    and H :: "'b \<Rightarrow> 'h"
    and genesis :: 'h
  assumes ok_Nil: "ok []"
    and ok_snoc: "ok (rows @ [r])
          \<longleftrightarrow> ok rows \<and> prev r = chain_tip self genesis rows \<and> self r = H (pre r)"
begin

lemma ok_prefix: "ok (xs @ ys) \<Longrightarrow> ok xs"
proof (induction ys rule: rev_induct)
  case Nil
  then show ?case by simp
next
  case (snoc y ys)
  then show ?case using ok_snoc [of "xs @ ys" y] by simp
qed

lemma ok_take: "ok xs \<Longrightarrow> ok (take n xs)"
  using ok_prefix [of "take n xs" "drop n xs"] by simp

lemma ok_nth:
  assumes "ok rows" and "i < length rows"
  shows "prev (rows ! i) = chain_tip self genesis (take i rows)
       \<and> self (rows ! i) = H (pre (rows ! i))"
proof -
  have "ok (take (Suc i) rows)" using assms(1) by (rule ok_take)
  with assms(2) show ?thesis by (simp add: take_Suc_conv_app_nth ok_snoc)
qed

lemma ok_mem: "ok rows \<Longrightarrow> r \<in> set rows \<Longrightarrow> self r = H (pre r)"
  using ok_nth by (metis in_set_conv_nth)

lemma ok_iff_nth:
  "ok rows \<longleftrightarrow> (\<forall>i<length rows. prev (rows ! i) = chain_tip self genesis (take i rows)
                              \<and> self (rows ! i) = H (pre (rows ! i)))"
proof (induction rows rule: rev_induct)
  case Nil
  then show ?case by (simp add: ok_Nil)
next
  case (snoc r rows)
  then show ?case by (auto simp: ok_snoc nth_append less_Suc_eq)
qed

text \<open>
  Two accepted chains with the same head are the same chain, if the hash function has no
  collision among the rows of the two chains and no row hashes to the genesis marker.
\<close>

lemma same_tip_same_chain:
  assumes "ok xs" and "ok ys" and "set xs \<subseteq> R" and "set ys \<subseteq> R"
    and tip: "chain_tip self genesis xs = chain_tip self genesis ys"
    and inj: "inj_on H (pre ` R)"
    and gen: "genesis \<notin> H ` pre ` R"
    and pre_prev: "\<And>r s. r \<in> R \<Longrightarrow> s \<in> R \<Longrightarrow> pre r = pre s \<Longrightarrow> prev r = prev s"
    and pre_self: "\<And>r s. r \<in> R \<Longrightarrow> s \<in> R \<Longrightarrow> pre r = pre s \<Longrightarrow> self r = self s \<Longrightarrow> r = s"
  shows "xs = ys"
  using assms(1-5)
proof (induction xs arbitrary: ys rule: rev_induct)
  case Nil
  show ?case
  proof (cases ys rule: rev_cases)
    case (snoc ys' y)
    with Nil have "genesis = H (pre y)" "y \<in> R" by (simp_all add: ok_snoc)
    with gen show ?thesis by blast
  qed simp
next
  case (snoc x xs)
  show ?case
  proof (cases ys rule: rev_cases)
    case Nil
    with snoc.prems have "genesis = H (pre x)" "x \<in> R" by (simp_all add: ok_snoc)
    with gen show ?thesis by blast
  next
    case (snoc ys' y)
    note ys = this
    have heads: "self x = self y" and mem: "x \<in> R" "y \<in> R"
      using snoc.prems ys by simp_all
    have hx: "self x = H (pre x)" "self y = H (pre y)" "ok xs" "ok ys'"
      "prev x = chain_tip self genesis xs" "prev y = chain_tip self genesis ys'"
      using snoc.prems(1,2) ys by (auto simp: ok_snoc)
    have eq: "pre x = pre y"
      using inj_onD [OF inj, of "pre x" "pre y"] heads hx(1,2) mem by auto
    then have "x = y" using heads pre_self mem by blast
    moreover have "xs = ys'"
      using snoc.IH [of ys'] snoc.prems(3,4) ys hx(3-6) pre_prev [OF mem eq] by simp
    ultimately show ?thesis using ys by simp
  qed
qed

end

end
