(* ===== verification/Audit_Chain.thy ===== *)
theory Audit_Chain
  imports Enums Hash_Chain
begin

text \<open>
  The audit log: \<open>contracts/audit.py\<close> (row hash, chain verifier), the serialised append of
  \<open>sqlite_repo/repository.py\<close>, the readers of \<open>sqlmodel_repo/audit.py\<close> and the helpers of
  \<open>sqlmodel_repo/_helpers.py\<close> through which every other component writes its audit row after
  its own commit. The JSON canonicalisation of a row (pydantic and \<open>json\<close>) and SHA-256 are
  the fields of \<open>audit_env\<close>, parameters of the model.
\<close>

section \<open>Rows and stores\<close>

record audit_row =
  ar_id :: uuid
  ar_event :: string
  ar_service :: string
  ar_instance_id :: string
  ar_system_user_id :: "uuid option"
  ar_subject_kind :: string
  ar_subject_id :: "uuid option"
  ar_evidence_ref :: "string option"
  ar_trace_id :: "string option"
  ar_span_id :: "string option"
  ar_payload :: "(string \<times> jval) list"
  ar_at :: time

text \<open>\<open>AuditLogRow\<close>: the row data with its two hashes; the table adds \<open>seq\<close>.\<close>

record audit_log_row =
  al_row :: audit_row
  al_prev_hash :: string
  al_self_hash :: string

record audit_log_table =
  at_seq :: nat
  at_log :: audit_log_row

record syslog_row =
  sl_level :: system_log_level
  sl_service :: string
  sl_instance_id :: string
  sl_event :: string
  sl_helper :: string
  sl_audit_event :: string
  sl_audit_id :: uuid
  sl_domain_id :: "uuid option"
  sl_subject_kind :: string
  sl_subject_id :: "uuid option"

text \<open>
  \<open>audit_ok\<close> and \<open>syslog_ok\<close> tell whether the two databases accept a write at this moment;
  \<open>ndjson\<close> is the mirror file, when one is configured.
\<close>

record audit_store =
  audit_log :: "audit_log_table list"
  syslog :: "syslog_row list"
  ndjson :: "audit_log_row list option"
  audit_ok :: bool
  syslog_ok :: bool

record audit_env =
  ae_canon :: "audit_row \<Rightarrow> string \<Rightarrow> bytes"
  ae_sha256_hex :: "bytes \<Rightarrow> string"

text \<open>The \<open>service\<close>, \<open>instance_id\<close>, \<open>trace_id\<close>, \<open>span_id\<close> arguments of every write helper.\<close>

record audit_ctx =
  cx_service :: string
  cx_instance_id :: string
  cx_trace_id :: "string option"
  cx_span_id :: "string option"

section \<open>Row hash and verifier\<close>

definition GENESIS_PREV_HASH :: string where
  "GENESIS_PREV_HASH = replicate 64 (CHR ''0'')"

definition canonicalize_for_hash :: "audit_env \<Rightarrow> audit_log_row \<Rightarrow> bytes" where
  "canonicalize_for_hash E r = ae_canon E (al_row r) (al_prev_hash r)"

definition compute_self_hash :: "audit_env \<Rightarrow> audit_log_row \<Rightarrow> string" where
  "compute_self_hash E r = ae_sha256_hex E (canonicalize_for_hash E r)"

fun verify_loop :: "audit_env \<Rightarrow> string \<Rightarrow> nat \<Rightarrow> audit_log_row list \<Rightarrow> bool \<times> nat option" where
  "verify_loop E expected_prev idx [] = (True, None)"
| "verify_loop E expected_prev idx (row # rows) =
     (if al_prev_hash row \<noteq> expected_prev then (False, Some idx)
      else if al_self_hash row \<noteq> compute_self_hash E row then (False, Some idx)
      else verify_loop E (al_self_hash row) (Suc idx) rows)"

definition verify_chain :: "audit_env \<Rightarrow> audit_log_row list \<Rightarrow> bool \<times> nat option" where
  "verify_chain E rows = verify_loop E GENESIS_PREV_HASH 0 rows"

section \<open>Append\<close>

definition audit_head :: "audit_store \<Rightarrow> audit_log_table option" where
  "audit_head A = max_on at_seq (audit_log A)"

text \<open>
  \<open>_append_chain\<close> with \<open>_append_audit_locked\<close>: head read, hash, INSERT (primary key \<open>id\<close>,
  UNIQUE \<open>self_hash\<close>) and COMMIT are one serialised transaction, rolled back on any error.
\<close>

definition chain_next :: "audit_env \<Rightarrow> audit_row \<Rightarrow> audit_store \<Rightarrow> audit_log_table" where
  "chain_next E row A =
     (let last = audit_head A;
          next_seq = (case last of None \<Rightarrow> 1 | Some l \<Rightarrow> at_seq l + 1);
          prev = (case last of None \<Rightarrow> GENESIS_PREV_HASH | Some l \<Rightarrow> al_self_hash (at_log l));
          r0 = \<lparr>al_row = row, al_prev_hash = prev, al_self_hash = replicate 64 (CHR ''0'')\<rparr>
      in \<lparr>at_seq = next_seq, at_log = r0\<lparr>al_self_hash := compute_self_hash E r0\<rparr>\<rparr>)"

definition append_audit :: "audit_env \<Rightarrow> audit_row \<Rightarrow> audit_store \<Rightarrow> (audit_log_row, audit_store) outcome" where
  "append_audit E row A =
     (if \<not> audit_ok A then (Inl AuditAppendError, A)
      else
        let t = chain_next E row A; r = at_log t
        in if tbl_has (\<lambda>t. ar_id (al_row (at_log t))) (ar_id row) (audit_log A)
              \<or> tbl_has (\<lambda>t. al_self_hash (at_log t)) (al_self_hash r) (audit_log A)
           then (Inl (IntegrityError ''audit_log''), A)
           else (Inr r, A\<lparr>audit_log := audit_log A @ [t],
                          ndjson := map_option (\<lambda>f. f @ [r]) (ndjson A)\<rparr>))"

definition build_audit_row ::
  "uuid \<Rightarrow> string \<Rightarrow> uuid option \<Rightarrow> string \<Rightarrow> uuid option \<Rightarrow> (string \<times> jval) list \<Rightarrow> time
   \<Rightarrow> audit_ctx \<Rightarrow> audit_row" where
  "build_audit_row aid event actor subject_kind subject_id payload at cx =
     \<lparr>ar_id = aid, ar_event = event, ar_service = cx_service cx, ar_instance_id = cx_instance_id cx,
      ar_system_user_id = actor, ar_subject_kind = subject_kind, ar_subject_id = subject_id,
      ar_evidence_ref = None, ar_trace_id = cx_trace_id cx, ar_span_id = cx_span_id cx,
      ar_payload = payload, ar_at = at\<rparr>"

text \<open>
  \<open>append_syslog\<close> at level WARN, its failure suppressed (\<open>contextlib.suppress\<close>). The time
  stamp and the rendered message of the row are left out.
\<close>

definition syslog_warn :: "string \<Rightarrow> uuid option \<Rightarrow> audit_row \<Rightarrow> audit_store \<Rightarrow> audit_store" where
  "syslog_warn helper domain_id row A =
     (if syslog_ok A
      then A\<lparr>syslog := syslog A @
             [\<lparr>sl_level = Log_WARN, sl_service = ar_service row, sl_instance_id = ar_instance_id row,
               sl_event = ''audit.append_failed'', sl_helper = helper,
               sl_audit_event = ar_event row, sl_audit_id = ar_id row, sl_domain_id = domain_id,
               sl_subject_kind = ar_subject_kind row, sl_subject_id = ar_subject_id row\<rparr>]\<rparr>
      else A)"

definition audit_or_warn ::
  "audit_env \<Rightarrow> string \<Rightarrow> uuid option \<Rightarrow> audit_row \<Rightarrow> audit_store \<Rightarrow> (unit, audit_store) outcome" where
  "audit_or_warn E helper domain_id row A =
     (case append_audit E row A of
        (Inr r, A') \<Rightarrow> (Inr (), A')
      | (Inl e, A') \<Rightarrow> (Inl e, syslog_warn helper domain_id row A'))"

section \<open>Readers\<close>

definition all_audit :: "audit_store \<Rightarrow> audit_log_row list" where
  "all_audit A = map at_log (order_asc at_seq (audit_log A))"

record audit_query =
  aq_since :: "time option"
  aq_until :: "time option"
  aq_user :: "uuid option"
  aq_subject :: "string option"
  aq_subject_id :: "uuid option"

definition audit_filters :: "audit_query \<Rightarrow> audit_log_table \<Rightarrow> bool" where
  "audit_filters q t = (let r = al_row (at_log t) in
     (case aq_since q of None \<Rightarrow> True | Some s \<Rightarrow> s \<le> ar_at r)
     \<and> (case aq_until q of None \<Rightarrow> True | Some u \<Rightarrow> ar_at r < u)
     \<and> (case aq_user q of None \<Rightarrow> True | Some u \<Rightarrow> ar_system_user_id r = Some u)
     \<and> (case aq_subject q of None \<Rightarrow> True | Some e \<Rightarrow> ar_event r = e)
     \<and> (case aq_subject_id q of None \<Rightarrow> True | Some i \<Rightarrow> ar_subject_id r = Some i))"

definition list_audit :: "audit_query \<Rightarrow> nat \<Rightarrow> nat \<Rightarrow> audit_store \<Rightarrow> audit_log_row list" where
  "list_audit q limit offset A =
     map at_log (page offset limit
       (order_desc (\<lambda>t. (ar_at (al_row (at_log t)), ar_id (al_row (at_log t))))
         (filter (audit_filters q) (audit_log A))))"

definition count_audit :: "audit_query \<Rightarrow> audit_store \<Rightarrow> nat" where
  "count_audit q A = length (filter (audit_filters q) (audit_log A))"


section \<open>The verifier is the chain contract\<close>

lemma verify_loop_index: "verify_loop E p k rows = (False, Some i) \<Longrightarrow> k \<le> i \<and> i < k + length rows"
  by (induction rows arbitrary: p k) (force split: if_splits)+

lemma verify_loop_cases: "verify_loop E p k rows = (True, None) \<or> (\<exists>i. verify_loop E p k rows = (False, Some i))"
  by (induction rows arbitrary: p k) auto

lemma verify_loop_snoc:
  "verify_loop E p k (rows @ [r]) = (True, None)
     \<longleftrightarrow> verify_loop E p k rows = (True, None)
       \<and> al_prev_hash r = chain_tip al_self_hash p rows \<and> al_self_hash r = compute_self_hash E r"
  by (induction rows arbitrary: p k) (auto simp: chain_tip_Cons)

interpretation audit: hash_chain "\<lambda>rows. verify_chain E rows = (True, None)"
  al_prev_hash al_self_hash "canonicalize_for_hash E" "ae_sha256_hex E" GENESIS_PREV_HASH for E
  by unfold_locales
    (auto simp: verify_chain_def verify_loop_snoc compute_self_hash_def)

lemma verify_loop_shift:
  "verify_loop E p (Suc k) rows
     = (case verify_loop E p k rows of (b, i) \<Rightarrow> (b, map_option Suc i))"
  by (induction rows arbitrary: p k) auto

text \<open>The index the verifier returns is that of the first row that breaks the chain.\<close>

lemma verify_loop_broken:
  "verify_loop E p k rows = (False, Some i) \<longleftrightarrow>
     k \<le> i \<and> i < k + length rows \<and> verify_loop E p k (take (i - k) rows) = (True, None)
     \<and> (al_prev_hash (rows ! (i - k)) \<noteq> chain_tip al_self_hash p (take (i - k) rows)
        \<or> al_self_hash (rows ! (i - k)) \<noteq> compute_self_hash E (rows ! (i - k)))"
proof (induction rows arbitrary: p k)
  case Nil
  then show ?case by simp
next
  case (Cons r rows)
  show ?case
  proof (cases "i \<le> k")
    case True
    then show ?thesis
      using verify_loop_index [of E "al_self_hash r" "Suc k" rows i] by auto
  next
    case False
    then have "i - k = Suc (i - Suc k)" by simp
    with False show ?thesis
      by (auto simp: Cons.IH chain_tip_Cons)
  qed
qed

section \<open>The stored log\<close>

text \<open>
  \<open>seq\<close> counts the rows from 1, the primary key and the UNIQUE column hold, and the rows in
  table order verify.
\<close>

definition audit_wf :: "audit_env \<Rightarrow> audit_store \<Rightarrow> bool" where
  "audit_wf E A \<longleftrightarrow> map at_seq (audit_log A) = [1..<Suc (length (audit_log A))]
     \<and> distinct (map (\<lambda>t. ar_id (al_row (at_log t))) (audit_log A))
     \<and> verify_chain E (map at_log (audit_log A)) = (True, None)"

lemma audit_head_last:
  assumes "map at_seq (audit_log A) = [1..<Suc (length (audit_log A))]"
  shows "audit_head A = (if audit_log A = [] then None else Some (last (audit_log A)))"
  unfolding audit_head_def by (rule max_on_seq [OF assms])

lemma audit_head_tip:
  assumes "audit_wf E A"
  shows "(case audit_head A of None \<Rightarrow> GENESIS_PREV_HASH | Some l \<Rightarrow> al_self_hash (at_log l))
     = chain_tip al_self_hash GENESIS_PREV_HASH (map at_log (audit_log A))"
    and "(case audit_head A of None \<Rightarrow> 1 | Some l \<Rightarrow> at_seq l + 1) = Suc (length (audit_log A))"
proof -
  have seqs: "map at_seq (audit_log A) = [1..<Suc (length (audit_log A))]"
    using assms by (simp add: audit_wf_def)
  note head = audit_head_last [OF seqs]
  show "(case audit_head A of None \<Rightarrow> GENESIS_PREV_HASH | Some l \<Rightarrow> al_self_hash (at_log l))
     = chain_tip al_self_hash GENESIS_PREV_HASH (map at_log (audit_log A))"
    by (auto simp: head chain_tip_def last_map)
  show "(case audit_head A of None \<Rightarrow> 1 | Some l \<Rightarrow> at_seq l + 1) = Suc (length (audit_log A))"
    using seqs by (cases "audit_log A" rule: rev_cases) (simp_all add: head)
qed


lemma chain_next_simps [simp]:
  "al_row (at_log (chain_next E row A)) = row"
  "al_self_hash (at_log (chain_next E row A)) = compute_self_hash E (at_log (chain_next E row A))"
  by (simp_all add: chain_next_def Let_def compute_self_hash_def canonicalize_for_hash_def)

lemma chain_next_wf:
  assumes "audit_wf E A"
  shows "al_prev_hash (at_log (chain_next E row A))
       = chain_tip al_self_hash GENESIS_PREV_HASH (map at_log (audit_log A))"
    and "at_seq (chain_next E row A) = Suc (length (audit_log A))"
  using audit_head_tip [OF assms] by (simp_all add: chain_next_def Let_def)

lemma append_audit_disj:
  "(\<exists>e. append_audit E row A = (Inl e, A))
   \<or> (\<exists>t. append_audit E row A = (Inr (at_log t),
        A\<lparr>audit_log := audit_log A @ [t], ndjson := map_option (\<lambda>f. f @ [at_log t]) (ndjson A)\<rparr>)
      \<and> t = chain_next E row A \<and> \<not> tbl_has (\<lambda>t. ar_id (al_row (at_log t))) (ar_id row) (audit_log A))"
  by (simp add: append_audit_def Let_def)

lemma append_audit_cases:
  obtains (failed) e where "append_audit E row A = (Inl e, A)"
  | (appended) t where "append_audit E row A = (Inr (at_log t),
        A\<lparr>audit_log := audit_log A @ [t], ndjson := map_option (\<lambda>f. f @ [at_log t]) (ndjson A)\<rparr>)"
      "t = chain_next E row A" "\<not> tbl_has (\<lambda>t. ar_id (al_row (at_log t))) (ar_id row) (audit_log A)"
  using append_audit_disj [of E row A] by blast

lemma append_audit_row:
  "append_audit E row A = (Inr e, A') \<Longrightarrow> \<exists>t. audit_log A' = audit_log A @ [t] \<and> al_row (at_log t) = row"
  by (auto simp: append_audit_def chain_next_def Let_def split: if_splits)

lemma append_audit_fails: "append_audit E row A = (Inl e, A') \<Longrightarrow> A' = A"
  by (auto simp: append_audit_def Let_def split: if_splits)

lemma append_audit_wf:
  assumes "audit_wf E A"
  shows "audit_wf E (snd (append_audit E row A))"
proof (cases rule: append_audit_cases [of E row A])
  case (failed e)
  with assms show ?thesis by simp
next
  case (appended t)
  with assms chain_next_wf [OF assms, of row] show ?thesis
    by (simp add: audit_wf_def audit.ok_snoc compute_self_hash_def [symmetric])
      (simp add: tbl_has_def image_iff)
qed

lemma append_audit_log:
  "audit_log (snd (append_audit E row A)) = audit_log A
   \<or> (\<exists>t. audit_log (snd (append_audit E row A)) = audit_log A @ [t] \<and> al_row (at_log t) = row)"
  by (cases rule: append_audit_cases [of E row A]) auto

lemma syslog_warn_log [simp]: "audit_log (syslog_warn h d row A) = audit_log A"
  by (simp add: syslog_warn_def)

lemma syslog_warn_wf [simp]: "audit_wf E (syslog_warn h d row A) = audit_wf E A"
  by (simp add: audit_wf_def)

lemma audit_or_warn_wf [intro]:
  "audit_wf E A \<Longrightarrow> audit_wf E (snd (audit_or_warn E h d row A))"
  using append_audit_wf [of E A row] by (auto simp: audit_or_warn_def split: prod.splits sum.splits)

text \<open>
  \<open>audit_or_warn\<close> either records the row, or leaves the log as it was, returns the error and
  (when the syslog takes the write) leaves the breadcrumb.
\<close>

lemma audit_or_warn_cases:
  obtains (ok) t where "fst (audit_or_warn E h d row A) = Inr ()"
      "audit_log (snd (audit_or_warn E h d row A)) = audit_log A @ [t]" "al_row (at_log t) = row"
      "syslog (snd (audit_or_warn E h d row A)) = syslog A"
  | (failed) e where "fst (audit_or_warn E h d row A) = Inl e"
      "snd (audit_or_warn E h d row A) = syslog_warn h d row A"
  by (cases rule: append_audit_cases [of E row A]) (auto simp: audit_or_warn_def)

lemma audit_or_warn_append_only:
  "prefix (audit_log A) (audit_log (snd (audit_or_warn E h d row A)))"
  by (cases rule: audit_or_warn_cases [of E h d row A]) auto

lemma all_audit_wf:
  assumes "audit_wf E A"
  shows "all_audit A = map at_log (audit_log A)"
proof -
  have "sorted (map at_seq (audit_log A))"
    using assms by (simp add: audit_wf_def del: upt_Suc)
  then show ?thesis by (simp add: all_audit_def order_asc_sorted_id)
qed

text \<open>The audit logs that appends, outages and recoveries can produce from the empty one.\<close>

inductive audit_reach :: "audit_env \<Rightarrow> audit_store \<Rightarrow> bool" for E where
  init: "audit_log A = [] \<Longrightarrow> audit_reach E A"
| append: "audit_reach E A \<Longrightarrow> audit_reach E (snd (append_audit E row A))"
| append_or_warn: "audit_reach E A \<Longrightarrow> audit_reach E (snd (audit_or_warn E h d row A))"
| outage: "audit_reach E A \<Longrightarrow> audit_reach E (A\<lparr>audit_ok := b, syslog_ok := c\<rparr>)"

lemma audit_reach_wf: "audit_reach E A \<Longrightarrow> audit_wf E A"
proof (induction rule: audit_reach.induct)
  case (init A)
  then show ?case by (simp add: audit_wf_def verify_chain_def)
next
  case (outage A b c)
  then show ?case by (simp add: audit_wf_def)
qed (auto intro: append_audit_wf)

section \<open>Properties\<close>

text \<open>C1: whatever sequence of audit writes, failed writes, outages and recoveries produced the
  log, the full-chain reader returns rows that the verifier accepts.\<close>

theorem audit_trail_verifies:
  assumes "audit_reach E A"
  shows "verify_chain E (all_audit A) = (True, None)"
  using audit_reach_wf [OF assms] by (simp add: all_audit_wf) (simp add: audit_wf_def)

text \<open>The verifier is exact. It accepts iff every row links to its predecessor and carries
  its own hash; otherwise the index it returns is that of the first row that does not.\<close>

lemma verify_chain_exact:
  "(verify_chain E rows = (True, None) \<longleftrightarrow>
     (\<forall>i<length rows. al_prev_hash (rows ! i)
            = (if i = 0 then GENESIS_PREV_HASH else al_self_hash (rows ! (i - 1)))
        \<and> al_self_hash (rows ! i) = compute_self_hash E (rows ! i)))
   \<and> (verify_chain E rows = (False, Some k) \<longleftrightarrow>
     k < length rows \<and> verify_chain E (take k rows) = (True, None)
     \<and> (al_prev_hash (rows ! k)
            \<noteq> (if k = 0 then GENESIS_PREV_HASH else al_self_hash (rows ! (k - 1)))
        \<or> al_self_hash (rows ! k) \<noteq> compute_self_hash E (rows ! k)))"
proof (intro conjI)
  have tip: "chain_tip al_self_hash GENESIS_PREV_HASH (take i rows)
      = (if i = 0 then GENESIS_PREV_HASH else al_self_hash (rows ! (i - 1)))"
    if "i < length rows" for i
    using that by (cases i) (auto simp: chain_tip_def take_Suc_conv_app_nth)
  show "verify_chain E rows = (True, None) \<longleftrightarrow>
     (\<forall>i<length rows. al_prev_hash (rows ! i)
            = (if i = 0 then GENESIS_PREV_HASH else al_self_hash (rows ! (i - 1)))
        \<and> al_self_hash (rows ! i) = compute_self_hash E (rows ! i))"
    using audit.ok_iff_nth [of E rows] tip by (simp add: compute_self_hash_def)
  show "verify_chain E rows = (False, Some k) \<longleftrightarrow>
     k < length rows \<and> verify_chain E (take k rows) = (True, None)
     \<and> (al_prev_hash (rows ! k)
            \<noteq> (if k = 0 then GENESIS_PREV_HASH else al_self_hash (rows ! (k - 1)))
        \<or> al_self_hash (rows ! k) \<noteq> compute_self_hash E (rows ! k))"
    using tip by (auto simp: verify_chain_def verify_loop_broken [where k = 0 and i = k])
qed


text \<open>C2: tamper evidence. Two accepted chains that end in the same \<open>self_hash\<close> are the same
  rows in the same order, as long as SHA-256 has no collision among their rows, no row hashes
  to the genesis marker and the canonical JSON separates rows of different content.\<close>

theorem audit_tamper_evident:
  assumes "verify_chain E xs = (True, None)" and "verify_chain E ys = (True, None)"
    and "chain_tip al_self_hash GENESIS_PREV_HASH xs = chain_tip al_self_hash GENESIS_PREV_HASH ys"
    and sha: "inj_on (ae_sha256_hex E) (canonicalize_for_hash E ` (set xs \<union> set ys))"
    and gen: "GENESIS_PREV_HASH \<notin> compute_self_hash E ` (set xs \<union> set ys)"
    and json: "\<And>r s. r \<in> set xs \<union> set ys \<Longrightarrow> s \<in> set xs \<union> set ys
        \<Longrightarrow> canonicalize_for_hash E r = canonicalize_for_hash E s
        \<Longrightarrow> al_row r = al_row s \<and> al_prev_hash r = al_prev_hash s"
  shows "xs = ys"
proof (rule audit.same_tip_same_chain [OF assms(1,2) _ _ assms(3) sha])
  show "GENESIS_PREV_HASH \<notin> ae_sha256_hex E ` canonicalize_for_hash E ` (set xs \<union> set ys)"
    using gen by (auto simp: compute_self_hash_def)
  show "al_prev_hash r = al_prev_hash s" if "r \<in> set xs \<union> set ys" "s \<in> set xs \<union> set ys"
    "canonicalize_for_hash E r = canonicalize_for_hash E s" for r s
    using json [OF that] by simp
  show "r = s" if "r \<in> set xs \<union> set ys" "s \<in> set xs \<union> set ys"
    "canonicalize_for_hash E r = canonicalize_for_hash E s" "al_self_hash r = al_self_hash s" for r s
    using json [OF that(1-3)] that(4) by (cases r; cases s) simp
qed simp_all

text \<open>The walk alone cannot see a cut at the end. Every prefix of a genuine log verifies, so
  deleting the newest rows is found only against a head kept elsewhere.\<close>

lemma truncated_log_verifies:
  assumes "audit_reach E A"
  shows "verify_chain E (take n (all_audit A)) = (True, None)"
  using audit.ok_take audit_reach_wf [OF assms] by (simp add: all_audit_wf) (simp add: audit_wf_def)

text \<open>The browse reader pages one listing of exactly the rows the counter counts, newest
  first, and consecutive pages continue one another.\<close>

lemma list_audit_pages:
  "length (list_audit q limit off A) = min limit (count_audit q A - off)
   \<and> list_audit q l1 off A @ list_audit q l2 (off + l1) A = list_audit q (l1 + l2) off A
   \<and> sorted (map (\<lambda>r. (ar_at (al_row r), ar_id (al_row r))) (rev (list_audit q limit 0 A)))"
proof (intro conjI)
  show "length (list_audit q limit off A) = min limit (count_audit q A - off)"
    by (simp add: list_audit_def count_audit_def length_page_eq)
  show "list_audit q l1 off A @ list_audit q l2 (off + l1) A = list_audit q (l1 + l2) off A"
    by (simp add: list_audit_def page_append flip: map_append)
  have "sorted (map f (rev (take n (order_desc f xs))))" for f :: "audit_log_table \<Rightarrow> int \<times> nat" and n xs
    using order_desc_sorted [of f xs]
    by (simp add: rev_map [symmetric] take_map [symmetric] sorted_wrt_rev sorted_wrt_take)
  then show "sorted (map (\<lambda>r. (ar_at (al_row r), ar_id (al_row r))) (rev (list_audit q limit 0 A)))"
    by (simp add: list_audit_def page_def rev_map comp_def)
qed


section \<open>Witnesses\<close>

definition example_env :: audit_env where
  "example_env = \<lparr>ae_canon = (\<lambda>r p. replicate (ar_id r) 0),
     ae_sha256_hex = (\<lambda>b. replicate (length b) (CHR ''a''))\<rparr>"

definition example_ctx :: audit_ctx where
  "example_ctx = \<lparr>cx_service = ''api'', cx_instance_id = ''api-1'', cx_trace_id = None, cx_span_id = None\<rparr>"

definition example_audit0 :: audit_store where
  "example_audit0 = \<lparr>audit_log = [], syslog = [], ndjson = None, audit_ok = True, syslog_ok = True\<rparr>"

definition example_row :: "uuid \<Rightarrow> audit_row" where
  "example_row i = build_audit_row i ''eyenet.audit.case.closed'' (Some 7) ''case'' (Some 9) [] 5 example_ctx"

definition example_audit2 :: audit_store where
  "example_audit2 = snd (append_audit example_env (example_row 2)
     (snd (append_audit example_env (example_row 1) example_audit0)))"

lemmas example_audit_defs = example_env_def example_ctx_def example_audit0_def example_row_def
  example_audit2_def build_audit_row_def append_audit_def chain_next_def audit_head_def
  compute_self_hash_def canonicalize_for_hash_def tbl_has_def

lemma example_audit2_reach: "audit_reach example_env example_audit2"
  unfolding example_audit2_def
  by (intro audit_reach.append audit_reach.init) (simp add: example_audit0_def)

lemma example_audit2_rows:
  "length (all_audit example_audit2) = 2"
  "map (\<lambda>r. ar_id (al_row r)) (all_audit example_audit2) = [1, 2]"
  "map al_self_hash (all_audit example_audit2) = [''a'', ''aa'']"
  by (simp_all add: all_audit_def order_asc_def example_audit_defs Let_def eval_nat_numeral)

theorem audit_trail_verifies_witness:
  "verify_chain example_env (all_audit example_audit2) = (True, None)
   \<and> length (all_audit example_audit2) = 2"
  using audit_trail_verifies [OF example_audit2_reach] example_audit2_rows by simp

definition example_chain :: "audit_log_row list" where
  "example_chain = [\<lparr>al_row = example_row 1, al_prev_hash = GENESIS_PREV_HASH, al_self_hash = ''a''\<rparr>,
                    \<lparr>al_row = example_row 2, al_prev_hash = ''a'', al_self_hash = ''aa''\<rparr>]"

lemma example_chain_ok: "verify_chain example_env example_chain = (True, None)"
  by (simp add: verify_chain_def example_chain_def example_audit_defs eval_nat_numeral)

lemma example_audit2_ids:
  "r \<in> set (all_audit example_audit2) \<union> set example_chain \<Longrightarrow>
     (al_row r = example_row 1 \<and> al_prev_hash r = GENESIS_PREV_HASH)
     \<or> (al_row r = example_row 2 \<and> al_prev_hash r = ''a'')"
  by (auto simp: all_audit_def order_asc_def example_chain_def example_audit_defs Let_def eval_nat_numeral)

text \<open>The log the appends wrote and the chain written down above, told equal by their heads.\<close>

theorem audit_tamper_evident_witness:
  "chain_tip al_self_hash GENESIS_PREV_HASH (all_audit example_audit2) = ''aa''
   \<and> all_audit example_audit2 = example_chain"
proof
  show tip: "chain_tip al_self_hash GENESIS_PREV_HASH (all_audit example_audit2) = ''aa''"
    by (simp add: chain_tip_def all_audit_def order_asc_def example_audit_defs Let_def eval_nat_numeral)
  let ?R = "set (all_audit example_audit2) \<union> set example_chain"
  have canon: "canonicalize_for_hash example_env r = [0] \<and> al_row r = example_row 1 \<and> al_prev_hash r = GENESIS_PREV_HASH
      \<or> canonicalize_for_hash example_env r = [0, 0] \<and> al_row r = example_row 2 \<and> al_prev_hash r = ''a''"
    if "r \<in> ?R" for r
    using example_audit2_ids [OF that]
    by (auto simp: canonicalize_for_hash_def example_env_def example_row_def build_audit_row_def eval_nat_numeral)
  have ok: "verify_chain example_env (all_audit example_audit2) = (True, None)"
    using audit_reach_wf [OF example_audit2_reach] by (simp add: all_audit_wf) (simp add: audit_wf_def)
  have tips: "chain_tip al_self_hash GENESIS_PREV_HASH (all_audit example_audit2)
      = chain_tip al_self_hash GENESIS_PREV_HASH example_chain"
    using tip by (simp add: chain_tip_def example_chain_def)
  have sha: "inj_on (ae_sha256_hex example_env) (canonicalize_for_hash example_env ` ?R)"
  proof (rule inj_on_subset)
    show "inj_on (ae_sha256_hex example_env) {[0], [0, 0]}"
      by (simp add: example_env_def)
  qed (use canon in blast)
  have gen: "GENESIS_PREV_HASH \<notin> compute_self_hash example_env ` ?R"
  proof
    assume "GENESIS_PREV_HASH \<in> compute_self_hash example_env ` ?R"
    then obtain r where "r \<in> ?R" and "GENESIS_PREV_HASH = ae_sha256_hex example_env (canonicalize_for_hash example_env r)"
      by (auto simp: compute_self_hash_def)
    then show False
      using canon [OF \<open>r \<in> ?R\<close>]
      by (elim disjE) (simp_all add: GENESIS_PREV_HASH_def example_env_def eval_nat_numeral)
  qed
  have json: "al_row r = al_row s \<and> al_prev_hash r = al_prev_hash s" if "r \<in> ?R" "s \<in> ?R"
    "canonicalize_for_hash example_env r = canonicalize_for_hash example_env s" for r s
    using canon [OF that(1)] canon [OF that(2)] that(3) by (elim disjE) simp_all
  show "all_audit example_audit2 = example_chain"
    by (rule audit_tamper_evident [OF ok example_chain_ok tips sha gen json])
qed

end
