(* ===== verification/Clearance.thy ===== *)
theory Clearance
  imports Audit_Chain
begin

text \<open>
  Clearance grants (\<open>sqlmodel_repo/clearance.py\<close>, \<open>models/clearance.py\<close>) and the gate that
  reads them (\<open>api/v1/_clearance.py\<close>): grant, revoke, the expiry sweep that writes one audit
  event per lapsed grant, the readers, and the resolution of the grant that unlocks a tier.
\<close>

section \<open>Grants\<close>

record grant_row =
  gr_id :: uuid
  gr_user_id :: uuid
  gr_scope :: clearance_scope
  gr_granted_by :: uuid
  gr_reason :: string
  gr_granted_at :: time
  gr_expires_at :: time
  gr_revoked_at :: "time option"
  gr_revoked_by :: "uuid option"
  gr_revocation_reason :: "string option"

record clearance_store =
  grants :: "grant_row list"
  cl_audit :: audit_store

definition MIN_REASON_LEN :: nat where "MIN_REASON_LEN = 16"
definition MAX_GRANT_DURATION :: int where "MAX_GRANT_DURATION = days 90"

text \<open>The CHECK constraints of the table.\<close>

definition grant_checks :: "grant_row \<Rightarrow> bool" where
  "grant_checks g \<longleftrightarrow>
     (case gr_revoked_at g of None \<Rightarrow> True | Some t \<Rightarrow> gr_granted_at g \<le> t)
     \<and> MIN_REASON_LEN \<le> length (gr_reason g)
     \<and> (gr_revoked_at g = None) = (gr_revoked_by g = None)
     \<and> (gr_revoked_at g = None) = (gr_revocation_reason g = None)"

text \<open>The audit write that follows the commit of a grant operation.\<close>

definition clearance_audit ::
  "audit_env \<Rightarrow> string \<Rightarrow> uuid \<Rightarrow> audit_row \<Rightarrow> 'a \<Rightarrow> clearance_store \<Rightarrow> ('a, clearance_store) outcome" where
  "clearance_audit E helper domain_id row v S =
     (case audit_or_warn E helper (Some domain_id) row (cl_audit S) of
        (Inl e, A) \<Rightarrow> (Inl e, S\<lparr>cl_audit := A\<rparr>)
      | (Inr _, A) \<Rightarrow> (Inr v, S\<lparr>cl_audit := A\<rparr>))"

definition grant_clearance ::
  "audit_env \<Rightarrow> uuid \<Rightarrow> uuid \<Rightarrow> uuid \<Rightarrow> uuid \<Rightarrow> clearance_scope \<Rightarrow> string \<Rightarrow> time \<Rightarrow> time \<Rightarrow> audit_ctx
   \<Rightarrow> clearance_store \<Rightarrow> (grant_row, clearance_store) outcome" where
  "grant_clearance E new_id audit_id grantee granter scope reason expires_at granted_at cx S =
     (if expires_at \<le> granted_at
      then (Inl (ClearanceGrantError ''expires_at must be strictly after granted_at''), S)
      else if MAX_GRANT_DURATION < expires_at - granted_at
      then (Inl (ClearanceGrantError ''grant duration exceeds 90-day cap''), S)
      else if length reason < MIN_REASON_LEN
      then (Inl (ClearanceGrantError ''reason must be at least 16 characters''), S)
      else
        let row = \<lparr>gr_id = new_id, gr_user_id = grantee, gr_scope = scope, gr_granted_by = granter,
                   gr_reason = reason, gr_granted_at = granted_at, gr_expires_at = expires_at,
                   gr_revoked_at = None, gr_revoked_by = None, gr_revocation_reason = None\<rparr>
        in if tbl_has gr_id new_id (grants S) \<or> \<not> grant_checks row
           then (Inl (IntegrityError ''system_user_clearance_grant''), S)
           else clearance_audit E ''clearance.grant'' new_id
             (build_audit_row audit_id ''eyenet.audit.clearance.granted'' (Some granter) ''system_user''
                (Some grantee)
                [(''grant_id'', JUuid new_id), (''scope'', JStr (clearance_scope_value scope)),
                 (''expires_at'', JTime expires_at), (''granted_by_user_id'', JUuid granter),
                 (''reason'', JStr reason)] granted_at cx)
             row (S\<lparr>grants := grants S @ [row]\<rparr>))"

definition revoke_clearance ::
  "audit_env \<Rightarrow> uuid \<Rightarrow> uuid \<Rightarrow> uuid \<Rightarrow> string \<Rightarrow> time \<Rightarrow> audit_ctx
   \<Rightarrow> clearance_store \<Rightarrow> (grant_row, clearance_store) outcome" where
  "revoke_clearance E audit_id grant_id revoker reason revoked_at cx S =
     (if length reason < MIN_REASON_LEN
      then (Inl (ClearanceGrantError ''revocation reason must be at least 16 characters''), S)
      else (case tbl_get gr_id grant_id (grants S) of
              None \<Rightarrow> (Inl (ClearanceGrantError ''grant not found''), S)
            | Some g \<Rightarrow>
                if gr_revoked_at g \<noteq> None then (Inr g, S)
                else if gr_expires_at g \<le> revoked_at
                then (Inl (ClearanceGrantError ''grant has already expired''), S)
                else
                  let g' = g\<lparr>gr_revoked_at := Some revoked_at, gr_revoked_by := Some revoker,
                            gr_revocation_reason := Some reason\<rparr>
                  in if \<not> grant_checks g'
                     then (Inl (IntegrityError ''system_user_clearance_grant''), S)
                     else clearance_audit E ''clearance.revoke'' grant_id
                       (build_audit_row audit_id ''eyenet.audit.clearance.revoked'' (Some revoker) ''system_user''
                          (Some (gr_user_id g'))
                          [(''grant_id'', JUuid grant_id), (''scope'', JStr (clearance_scope_value (gr_scope g'))),
                           (''revoked_by_user_id'', JUuid revoker), (''revocation_reason'', JStr reason)]
                          revoked_at cx)
                       g' (S\<lparr>grants := tbl_save gr_id g' (grants S)\<rparr>)))"

section \<open>The expiry sweep\<close>

definition CLEARANCE_EXPIRED :: string where
  "CLEARANCE_EXPIRED = ''eyenet.audit.clearance.expired''"

text \<open>\<open>_already_expired_grant_ids\<close>: the grants named by the expiry events of the audit log.\<close>

definition expired_event_grant :: "audit_log_table \<Rightarrow> uuid option" where
  "expired_event_grant t =
     (let r = al_row (at_log t) in
      if ar_event r = CLEARANCE_EXPIRED
      then (case map_of (ar_payload r) ''grant_id'' of Some (JUuid g) \<Rightarrow> Some g | _ \<Rightarrow> None)
      else None)"

definition already_expired_grant_ids :: "clearance_store \<Rightarrow> uuid list" where
  "already_expired_grant_ids S = List.map_filter expired_event_grant (audit_log (cl_audit S))"

definition expired_event_row :: "uuid \<Rightarrow> grant_row \<Rightarrow> time \<Rightarrow> string \<Rightarrow> string \<Rightarrow> audit_row" where
  "expired_event_row audit_id g cutoff service instance_id =
     build_audit_row audit_id CLEARANCE_EXPIRED None ''system_user'' (Some (gr_user_id g))
       [(''grant_id'', JUuid (gr_id g)), (''scope'', JStr (clearance_scope_value (gr_scope g))),
        (''expired_at'', JTime (gr_expires_at g))] cutoff
       \<lparr>cx_service = service, cx_instance_id = instance_id, cx_trace_id = None, cx_span_id = None\<rparr>"

text \<open>The loop over the due grants; \<open>fresh\<close> gives the audit id minted for each.\<close>

fun expire_loop ::
  "audit_env \<Rightarrow> (uuid \<Rightarrow> uuid) \<Rightarrow> uuid list \<Rightarrow> time \<Rightarrow> string \<Rightarrow> string \<Rightarrow> grant_row list \<Rightarrow> uuid list
   \<Rightarrow> clearance_store \<Rightarrow> (uuid list, clearance_store) outcome" where
  "expire_loop E fresh already cutoff service instance_id [] emitted S = (Inr emitted, S)"
| "expire_loop E fresh already cutoff service instance_id (g # gs) emitted S =
     (if gr_id g \<in> set already
      then expire_loop E fresh already cutoff service instance_id gs emitted S
      else (case clearance_audit E ''clearance.expire_due'' (gr_id g)
                   (expired_event_row (fresh (gr_id g)) g cutoff service instance_id) () S of
              (Inl e, S') \<Rightarrow> (Inl e, S')
            | (Inr _, S') \<Rightarrow>
                expire_loop E fresh already cutoff service instance_id gs (emitted @ [gr_id g]) S'))"

definition due_grants :: "time \<Rightarrow> clearance_store \<Rightarrow> grant_row list" where
  "due_grants cutoff S = filter (\<lambda>g. gr_expires_at g \<le> cutoff \<and> gr_revoked_at g = None) (grants S)"

definition expire_due_clearances ::
  "audit_env \<Rightarrow> (uuid \<Rightarrow> uuid) \<Rightarrow> time \<Rightarrow> string \<Rightarrow> string \<Rightarrow> clearance_store
   \<Rightarrow> (uuid list, clearance_store) outcome" where
  "expire_due_clearances E fresh cutoff service instance_id S =
     expire_loop E fresh (already_expired_grant_ids S) cutoff service instance_id (due_grants cutoff S) [] S"

section \<open>Readers\<close>

definition grant_active_at :: "time \<Rightarrow> grant_row \<Rightarrow> bool" where
  "grant_active_at at g \<longleftrightarrow> gr_revoked_at g = None \<and> at < gr_expires_at g"

definition active_clearance_grants_for :: "uuid \<Rightarrow> time \<Rightarrow> clearance_store \<Rightarrow> grant_row list" where
  "active_clearance_grants_for user_id at S =
     filter (\<lambda>g. gr_user_id g = user_id \<and> grant_active_at at g) (grants S)"

definition effective_clearance_scopes :: "uuid \<Rightarrow> time \<Rightarrow> clearance_store \<Rightarrow> clearance_scope set" where
  "effective_clearance_scopes user_id at S = gr_scope ` set (active_clearance_grants_for user_id at S)"

definition get_clearance_grant :: "uuid \<Rightarrow> clearance_store \<Rightarrow> grant_row option" where
  "get_clearance_grant grant_id S = tbl_get gr_id grant_id (grants S)"

definition grant_filters ::
  "uuid option \<Rightarrow> clearance_scope option \<Rightarrow> bool \<Rightarrow> time \<Rightarrow> grant_row \<Rightarrow> bool" where
  "grant_filters user_id scope active_only at g \<longleftrightarrow>
     (case user_id of None \<Rightarrow> True | Some u \<Rightarrow> gr_user_id g = u)
     \<and> (case scope of None \<Rightarrow> True | Some s \<Rightarrow> gr_scope g = s)
     \<and> (active_only \<longrightarrow> gr_revoked_at g = None \<and> at < gr_expires_at g \<and> gr_granted_at g \<le> at)"

definition list_clearance_grants ::
  "uuid option \<Rightarrow> clearance_scope option \<Rightarrow> bool \<Rightarrow> time \<Rightarrow> nat \<Rightarrow> nat \<Rightarrow> clearance_store \<Rightarrow> grant_row list" where
  "list_clearance_grants user_id scope active_only at limit offset S =
     page offset limit (order_desc (\<lambda>g. (gr_granted_at g, gr_id g))
       (filter (grant_filters user_id scope active_only at) (grants S)))"

definition count_clearance_grants ::
  "uuid option \<Rightarrow> clearance_scope option \<Rightarrow> bool \<Rightarrow> time \<Rightarrow> clearance_store \<Rightarrow> nat" where
  "count_clearance_grants user_id scope active_only at S =
     length (filter (grant_filters user_id scope active_only at) (grants S))"

section \<open>The gate\<close>

text \<open>The fields of \<open>CurrentUser\<close> the gate reads; its scopes come from a cache.\<close>

record current_user =
  cu_user_id :: uuid
  cu_effective_scopes :: "string set"

primrec required_clearance_scope :: "sensitivity_tier \<Rightarrow> clearance_scope option" where
  "required_clearance_scope NORMAL = None"
| "required_clearance_scope RESTRICTED = Some READ_RESTRICTED"
| "required_clearance_scope CLASSIFIED = Some READ_CLASSIFIED"

definition enforce_tier_clearance :: "current_user \<Rightarrow> sensitivity_tier \<Rightarrow> exn + unit" where
  "enforce_tier_clearance cu tier =
     (case required_clearance_scope tier of
        None \<Rightarrow> Inr ()
      | Some needed \<Rightarrow>
          if clearance_scope_value needed \<notin> cu_effective_scopes cu
          then Inl (ScopeForbidden (clearance_scope_value needed)) else Inr ())"

definition longest_grant :: "uuid \<Rightarrow> clearance_scope \<Rightarrow> time \<Rightarrow> clearance_store \<Rightarrow> uuid option" where
  "longest_grant user_id scope now S =
     map_option gr_id (max_on gr_expires_at
       (filter (\<lambda>g. gr_scope g = scope) (active_clearance_grants_for user_id now S)))"

definition resolve_tier_grant ::
  "current_user \<Rightarrow> sensitivity_tier \<Rightarrow> time \<Rightarrow> clearance_store \<Rightarrow> exn + uuid option" where
  "resolve_tier_grant cu tier now S =
     (case required_clearance_scope tier of
        None \<Rightarrow> Inr None
      | Some needed \<Rightarrow>
          if clearance_scope_value needed \<notin> cu_effective_scopes cu
          then Inl (ScopeForbidden (clearance_scope_value needed))
          else (case longest_grant (cu_user_id cu) needed now S of
                  None \<Rightarrow> Inl (ScopeForbidden (clearance_scope_value needed))
                | Some gid \<Rightarrow> Inr (Some gid)))"

definition resolve_scope_grant :: "current_user \<Rightarrow> clearance_scope \<Rightarrow> time \<Rightarrow> clearance_store \<Rightarrow> uuid option" where
  "resolve_scope_grant cu scope now S = longest_grant (cu_user_id cu) scope now S"

section \<open>Invariant\<close>

lemma clearance_audit_cases:
  obtains (ok) t where "fst (clearance_audit E h d row v S) = Inr v"
      "grants (snd (clearance_audit E h d row v S)) = grants S"
      "audit_log (cl_audit (snd (clearance_audit E h d row v S))) = audit_log (cl_audit S) @ [t]"
      "al_row (at_log t) = row"
  | (failed) e where "fst (clearance_audit E h d row v S) = Inl e"
      "grants (snd (clearance_audit E h d row v S)) = grants S"
      "audit_log (cl_audit (snd (clearance_audit E h d row v S))) = audit_log (cl_audit S)"
proof (cases rule: audit_or_warn_cases [of E h "Some d" row "cl_audit S"])
  case (ok t)
  then show ?thesis by (intro that(1) [of t]) (auto simp: clearance_audit_def split: prod.splits sum.splits)
next
  case (failed e)
  then show ?thesis by (intro that(2) [of e]) (auto simp: clearance_audit_def split: prod.splits sum.splits)
qed

lemma clearance_audit_wf:
  "audit_wf E (cl_audit S) \<Longrightarrow> audit_wf E (cl_audit (snd (clearance_audit E h d row v S)))"
  using audit_or_warn_wf [of E "cl_audit S" h "Some d" row]
  by (auto simp: clearance_audit_def split: prod.splits sum.splits)

lemma clearance_audit_grants [simp]: "grants (snd (clearance_audit E h d row v S)) = grants S"
  by (cases rule: clearance_audit_cases [of E h d row v S]) auto

definition grant_wf :: "grant_row \<Rightarrow> bool" where
  "grant_wf g \<longleftrightarrow> grant_checks g \<and> gr_granted_at g < gr_expires_at g
     \<and> gr_expires_at g - gr_granted_at g \<le> MAX_GRANT_DURATION"

definition clearance_wf :: "audit_env \<Rightarrow> clearance_store \<Rightarrow> bool" where
  "clearance_wf E S \<longleftrightarrow> keyed gr_id (grants S) \<and> (\<forall>g\<in>set (grants S). grant_wf g)
     \<and> audit_wf E (cl_audit S) \<and> distinct (already_expired_grant_ids S)"

lemma already_expired_snoc:
  assumes "audit_log (cl_audit S') = audit_log (cl_audit S) @ [t]"
  shows "already_expired_grant_ids S'
    = already_expired_grant_ids S @ (case expired_event_grant t of None \<Rightarrow> [] | Some g \<Rightarrow> [g])"
  using assms by (simp add: already_expired_grant_ids_def List.map_filter_def split: option.split)

lemma already_expired_same:
  "audit_log (cl_audit S') = audit_log (cl_audit S) \<Longrightarrow> already_expired_grant_ids S' = already_expired_grant_ids S"
  by (simp add: already_expired_grant_ids_def)

lemma expired_event_row_grant:
  "al_row (at_log t) = expired_event_row i g c s n \<Longrightarrow> expired_event_grant t = Some (gr_id g)"
  by (simp add: expired_event_grant_def expired_event_row_def build_audit_row_def)

lemma other_event_grant: "ar_event (al_row (at_log t)) \<noteq> CLEARANCE_EXPIRED \<Longrightarrow> expired_event_grant t = None"
  by (simp add: expired_event_grant_def Let_def)

text \<open>An audit write of another event leaves the set of announced grants alone.\<close>

lemma clearance_audit_expired:
  assumes "ar_event row \<noteq> CLEARANCE_EXPIRED"
  shows "already_expired_grant_ids (snd (clearance_audit E h d row v S)) = already_expired_grant_ids S"
proof (cases rule: clearance_audit_cases [of E h d row v S])
  case (ok t)
  with assms show ?thesis by (simp add: already_expired_snoc [OF ok(3)] other_event_grant)
next
  case (failed e)
  then show ?thesis by (intro already_expired_same) simp
qed

lemma clearance_audit_keeps_wf:
  assumes "clearance_wf E S" and "ar_event row \<noteq> CLEARANCE_EXPIRED"
  shows "clearance_wf E (snd (clearance_audit E h d row v S))"
  using assms unfolding clearance_wf_def by (simp add: clearance_audit_wf clearance_audit_expired)

lemma already_expired_grants_update [simp]:
  "already_expired_grant_ids (S\<lparr>grants := gs\<rparr>) = already_expired_grant_ids S"
  by (simp add: already_expired_grant_ids_def)

lemma grant_events [simp]:
  "ar_event (build_audit_row a e u k sid p t cx) = e"
  "''eyenet.audit.clearance.granted'' \<noteq> CLEARANCE_EXPIRED"
  "''eyenet.audit.clearance.revoked'' \<noteq> CLEARANCE_EXPIRED"
  by (simp_all add: build_audit_row_def CLEARANCE_EXPIRED_def)

lemma grant_clearance_wf:
  assumes "clearance_wf E S"
  shows "clearance_wf E (snd (grant_clearance E i a u w sc r x t cx S))"
proof -
  have "clearance_wf E (S\<lparr>grants := grants S @ [row]\<rparr>)"
    if "\<not> tbl_has gr_id (gr_id row) (grants S)" "grant_wf row" for row
    using assms that by (simp add: clearance_wf_def)
  with assms show ?thesis
    by (auto simp: grant_clearance_def Let_def grant_wf_def intro!: clearance_audit_keeps_wf)
qed

lemma revoke_clearance_wf:
  assumes "clearance_wf E S"
  shows "clearance_wf E (snd (revoke_clearance E a i u r t cx S))"
proof (cases "tbl_get gr_id i (grants S)")
  case None
  with assms show ?thesis by (simp add: revoke_clearance_def)
next
  case (Some g)
  then have "g \<in> set (grants S)" using tbl_get_SomeD by fast
  then have g: "grant_wf g" using assms by (simp add: clearance_wf_def)
  have "clearance_wf E (S\<lparr>grants := tbl_save gr_id g' (grants S)\<rparr>)" if "grant_wf g'" for g'
    using assms that by (auto simp: clearance_wf_def dest!: set_tbl_save_sub)
  with assms g show ?thesis
    by (auto simp: revoke_clearance_def Some Let_def grant_wf_def intro!: clearance_audit_keeps_wf)
qed

section \<open>The sweep\<close>

text \<open>
  What the loop does: it announces the grants of its list that were not announced, in order,
  and stops at the first audit write that fails.
\<close>

definition sweep_spec ::
  "audit_env \<Rightarrow> uuid list \<Rightarrow> grant_row list \<Rightarrow> uuid list \<Rightarrow> clearance_store
   \<Rightarrow> (uuid list, clearance_store) outcome \<Rightarrow> bool" where
  "sweep_spec E already gs emitted S R \<longleftrightarrow>
     grants (snd R) = grants S \<and> audit_wf E (cl_audit (snd R))
    \<and> distinct (already_expired_grant_ids (snd R))
    \<and> set (already_expired_grant_ids S) \<subseteq> set (already_expired_grant_ids (snd R))
    \<and> set (already_expired_grant_ids (snd R)) \<subseteq> set (already_expired_grant_ids S) \<union> gr_id ` set gs
    \<and> (\<forall>ids. fst R = Inr ids \<longrightarrow>
          ids = emitted @ filter (\<lambda>i. i \<notin> set already) (map gr_id gs)
          \<and> set (already_expired_grant_ids (snd R)) = set (already_expired_grant_ids S) \<union> gr_id ` set gs)"

lemma expire_loop_spec:
  assumes "audit_wf E (cl_audit S)" and "distinct (map gr_id gs)"
    and "set already \<inter> gr_id ` set gs = set (already_expired_grant_ids S) \<inter> gr_id ` set gs"
    and "distinct (already_expired_grant_ids S)"
  shows "sweep_spec E already gs emitted S (expire_loop E fresh already cutoff sv inst gs emitted S)"
  using assms
proof (induction gs arbitrary: S emitted)
  case Nil
  then show ?case by (simp add: sweep_spec_def)
next
  case (Cons g gs)
  show ?case
  proof (cases "gr_id g \<in> set already")
    case True
    then have g: "gr_id g \<in> set (already_expired_grant_ids S)" using Cons.prems(3) by auto
    have "set already \<inter> gr_id ` set gs = set (already_expired_grant_ids S) \<inter> gr_id ` set gs"
      using Cons.prems(2,3) by auto
    with Cons have "sweep_spec E already gs emitted S (expire_loop E fresh already cutoff sv inst gs emitted S)"
      by simp
    with True g show ?thesis unfolding sweep_spec_def by (simp add: insert_absorb)
  next
    case False
    then have ng: "gr_id g \<notin> set (already_expired_grant_ids S)" using Cons.prems(3) by auto
    define row where "row = expired_event_row (fresh (gr_id g)) g cutoff sv inst"
    define C where "C = clearance_audit E ''clearance.expire_due'' (gr_id g) row () S"
    have step: "expire_loop E fresh already cutoff sv inst (g # gs) emitted S
        = (case C of (Inl e, S') \<Rightarrow> (Inl e, S')
           | (Inr _, S') \<Rightarrow> expire_loop E fresh already cutoff sv inst gs (emitted @ [gr_id g]) S')"
      using False by (simp add: C_def row_def)
    have wf: "audit_wf E (cl_audit (snd C))" "grants (snd C) = grants S"
      unfolding C_def using clearance_audit_wf Cons.prems(1) by simp_all
    show ?thesis
    proof (cases rule: clearance_audit_cases [of E "''clearance.expire_due''" "gr_id g" row "()" S])
      case (failed e)
      then have "fst C = Inl e" and same: "already_expired_grant_ids (snd C) = already_expired_grant_ids S"
        unfolding C_def by (auto intro: already_expired_same)
      then have "expire_loop E fresh already cutoff sv inst (g # gs) emitted S = (Inl e, snd C)"
        unfolding step by (cases C) auto
      then show ?thesis using wf same Cons.prems(4) by (auto simp: sweep_spec_def)
    next
      case (ok t)
      have ids: "already_expired_grant_ids (snd C) = already_expired_grant_ids S @ [gr_id g]"
        using ok(3,4) already_expired_snoc [of "snd C" S t] expired_event_row_grant [of t]
        by (simp add: C_def row_def)
      have cont: "expire_loop E fresh already cutoff sv inst (g # gs) emitted S
          = expire_loop E fresh already cutoff sv inst gs (emitted @ [gr_id g]) (snd C)"
        unfolding step using ok(1) by (cases C) (auto simp: C_def)
      have "set already \<inter> gr_id ` set gs = set (already_expired_grant_ids (snd C)) \<inter> gr_id ` set gs"
        using Cons.prems(2,3) ids by auto
      with Cons.IH [of "snd C" "emitted @ [gr_id g]"] wf ids ng Cons.prems(2,4)
      have "sweep_spec E already gs (emitted @ [gr_id g]) (snd C)
          (expire_loop E fresh already cutoff sv inst (g # gs) emitted S)"
        by (simp only: cont) simp
      then show ?thesis using ids wf(2) False unfolding sweep_spec_def by simp
    qed
  qed
qed

lemma sweep:
  assumes "clearance_wf E S"
  shows "sweep_spec E (already_expired_grant_ids S) (due_grants cutoff S) [] S
    (expire_due_clearances E fresh cutoff sv inst S)"
  unfolding expire_due_clearances_def
proof (rule expire_loop_spec)
  show "distinct (map gr_id (due_grants cutoff S))"
    using assms by (simp add: clearance_wf_def due_grants_def keyed_def distinct_map_filter)
qed (use assms in \<open>auto simp: clearance_wf_def\<close>)

lemma expire_due_wf:
  "clearance_wf E S \<Longrightarrow> clearance_wf E (snd (expire_due_clearances E fresh cutoff sv inst S))"
  using sweep [of E S] by (simp add: clearance_wf_def sweep_spec_def)

datatype clearance_op =
    Grant uuid uuid uuid uuid clearance_scope string time time audit_ctx
  | Revoke uuid uuid uuid string time audit_ctx
  | Expire_Due "uuid \<Rightarrow> uuid" time string string
  | Audit_Outage bool bool

primrec clearance_exec :: "audit_env \<Rightarrow> clearance_op \<Rightarrow> clearance_store \<Rightarrow> clearance_store" where
  "clearance_exec E (Grant i a u w sc r x t cx) S = snd (grant_clearance E i a u w sc r x t cx S)"
| "clearance_exec E (Revoke a i u r t cx) S = snd (revoke_clearance E a i u r t cx S)"
| "clearance_exec E (Expire_Due f t sv n) S = snd (expire_due_clearances E f t sv n S)"
| "clearance_exec E (Audit_Outage b c) S = S\<lparr>cl_audit := (cl_audit S)\<lparr>audit_ok := b, syslog_ok := c\<rparr>\<rparr>"

definition empty_clearance :: clearance_store where
  "empty_clearance = \<lparr>grants = [], cl_audit = example_audit0\<rparr>"

lemma empty_clearance_wf: "clearance_wf E empty_clearance"
  by (simp add: clearance_wf_def empty_clearance_def already_expired_grant_ids_def example_audit0_def
      audit_wf_def verify_chain_def List.map_filter_def)

lemma clearance_exec_wf: "clearance_wf E S \<Longrightarrow> clearance_wf E (clearance_exec E op S)"
  by (cases op)
    (auto simp: grant_clearance_wf revoke_clearance_wf expire_due_wf,
      auto simp: clearance_wf_def already_expired_grant_ids_def audit_wf_def)

lemma clearance_run_wf: "clearance_wf E (fold (clearance_exec E) ops empty_clearance)"
proof -
  have "clearance_wf E S \<Longrightarrow> clearance_wf E (fold (clearance_exec E) ops S)" for S
    by (induction ops arbitrary: S) (auto simp: clearance_exec_wf)
  then show ?thesis using empty_clearance_wf by blast
qed

lemma longest_grant_SomeD:
  assumes "longest_grant u sc now S = Some gid"
  shows "\<exists>g\<in>set (grants S). gr_id g = gid \<and> gr_user_id g = u \<and> gr_scope g = sc \<and> grant_active_at now g
    \<and> (\<forall>h\<in>set (grants S). gr_user_id h = u \<and> gr_scope h = sc \<and> grant_active_at now h
          \<longrightarrow> gr_expires_at h \<le> gr_expires_at g)"
proof -
  obtain g where g: "max_on gr_expires_at
       (filter (\<lambda>g. gr_scope g = sc) (active_clearance_grants_for u now S)) = Some g" "gr_id g = gid"
    using assms by (auto simp: longest_grant_def)
  show ?thesis
    using max_on_SomeD [OF g(1)] g(2) by (auto simp: active_clearance_grants_for_def)
qed

lemma longest_grant_None_iff:
  "longest_grant u sc now S = None \<longleftrightarrow>
     \<not> (\<exists>g\<in>set (grants S). gr_user_id g = u \<and> gr_scope g = sc \<and> grant_active_at now g)"
  by (auto simp: longest_grant_def active_clearance_grants_for_def filter_empty_conv)

section \<open>Properties\<close>

text \<open>After any operations and audit outages every grant lasts a positive time of at most
  90 days, has a reason of at least 16 characters, and is revoked, if at all, with revoker and
  reason and not before it was granted; and no grant was announced as expired twice.\<close>

lemma clearance_invariant:
  "let S = fold (clearance_exec E) ops empty_clearance in
     (\<forall>g\<in>set (grants S). gr_granted_at g < gr_expires_at g \<and> gr_expires_at g \<le> gr_granted_at g + days 90
        \<and> 16 \<le> length (gr_reason g)
        \<and> (gr_revoked_at g = None) = (gr_revoked_by g = None)
        \<and> (gr_revoked_at g = None) = (gr_revocation_reason g = None)
        \<and> (\<forall>t. gr_revoked_at g = Some t \<longrightarrow> gr_granted_at g \<le> t))
     \<and> distinct (already_expired_grant_ids S)"
  using clearance_run_wf [of E ops]
  by (auto simp: Let_def clearance_wf_def grant_wf_def grant_checks_def MAX_GRANT_DURATION_def
      MIN_REASON_LEN_def split: option.splits)

text \<open>C10: the gate fails closed and is exact. Above NORMAL it resolves a grant iff the caller's
  cached scopes name the tier's scope and the store now holds an unrevoked, unexpired grant of
  that scope for the caller; the grant it names is one of those, of the latest expiry.\<close>

theorem tier_gate_exact:
  "(resolve_tier_grant cu NORMAL now S = Inr None)
   \<and> (required_clearance_scope tier = Some sc \<longrightarrow>
        ((\<exists>v. resolve_tier_grant cu tier now S = Inr v)
          \<longleftrightarrow> clearance_scope_value sc \<in> cu_effective_scopes cu
            \<and> (\<exists>g\<in>set (grants S). gr_user_id g = cu_user_id cu \<and> gr_scope g = sc \<and> grant_active_at now g))
        \<and> (\<forall>v. resolve_tier_grant cu tier now S = Inr v \<longrightarrow>
            (\<exists>g\<in>set (grants S). v = Some (gr_id g) \<and> gr_user_id g = cu_user_id cu \<and> gr_scope g = sc
               \<and> grant_active_at now g
               \<and> (\<forall>h\<in>set (grants S). gr_user_id h = cu_user_id cu \<and> gr_scope h = sc \<and> grant_active_at now h
                    \<longrightarrow> gr_expires_at h \<le> gr_expires_at g))))"
proof (intro conjI impI)
  show "resolve_tier_grant cu NORMAL now S = Inr None" by (simp add: resolve_tier_grant_def)
  assume sc: "required_clearance_scope tier = Some sc"
  show "(\<exists>v. resolve_tier_grant cu tier now S = Inr v)
          \<longleftrightarrow> clearance_scope_value sc \<in> cu_effective_scopes cu
            \<and> (\<exists>g\<in>set (grants S). gr_user_id g = cu_user_id cu \<and> gr_scope g = sc \<and> grant_active_at now g)"
    using longest_grant_None_iff [of "cu_user_id cu" sc now S]
    by (auto simp: resolve_tier_grant_def sc split: option.splits)
  show "\<forall>v. resolve_tier_grant cu tier now S = Inr v \<longrightarrow>
      (\<exists>g\<in>set (grants S). v = Some (gr_id g) \<and> gr_user_id g = cu_user_id cu \<and> gr_scope g = sc
         \<and> grant_active_at now g
         \<and> (\<forall>h\<in>set (grants S). gr_user_id h = cu_user_id cu \<and> gr_scope h = sc \<and> grant_active_at now h
              \<longrightarrow> gr_expires_at h \<le> gr_expires_at g))"
  proof (intro allI impI)
    fix v
    assume "resolve_tier_grant cu tier now S = Inr v"
    then obtain gid where gid: "longest_grant (cu_user_id cu) sc now S = Some gid" and v: "v = Some gid"
      by (auto simp: resolve_tier_grant_def sc split: option.splits if_splits)
    show "\<exists>g\<in>set (grants S). v = Some (gr_id g) \<and> gr_user_id g = cu_user_id cu \<and> gr_scope g = sc
         \<and> grant_active_at now g
         \<and> (\<forall>h\<in>set (grants S). gr_user_id h = cu_user_id cu \<and> gr_scope h = sc \<and> grant_active_at now h
              \<longrightarrow> gr_expires_at h \<le> gr_expires_at g)"
      using longest_grant_SomeD [OF gid] unfolding v by blast
  qed
qed

text \<open>A revocation takes effect at once. Whether or not the audit write that follows it
  succeeds, the grant is resolved for no tier and at no later instant any more.\<close>

lemma revoked_grant_never_resolves:
  assumes "clearance_wf E S" and "tbl_get gr_id i (grants S) = Some g"
    and "gr_revoked_at g = None" and "t < gr_expires_at g" and "gr_granted_at g \<le> t"
    and "16 \<le> length r"
  shows "resolve_tier_grant cu tier now (snd (revoke_clearance E a i u r t cx S)) \<noteq> Inr (Some i)"
proof
  let ?S' = "snd (revoke_clearance E a i u r t cx S)"
  assume "resolve_tier_grant cu tier now ?S' = Inr (Some i)"
  then obtain h where h: "h \<in> set (grants ?S')" "gr_id h = i" "grant_active_at now h"
    using longest_grant_SomeD
    by (fastforce simp: resolve_tier_grant_def split: option.splits if_splits)
  have "g \<in> set (grants S)" "gr_id g = i" using assms(2) tbl_get_SomeD by fast+
  then have gw: "grant_wf g" using assms(1) by (simp add: clearance_wf_def)
  define g' where "g' = g\<lparr>gr_revoked_at := Some t, gr_revoked_by := Some u, gr_revocation_reason := Some r\<rparr>"
  have ok: "grant_checks g'"
    using gw assms(5) by (simp add: g'_def grant_wf_def grant_checks_def)
  have "grants ?S' = tbl_save gr_id g' (grants S)"
    using assms(2-4,6) ok by (simp add: revoke_clearance_def g'_def MIN_REASON_LEN_def Let_def not_le not_less)
  moreover have "gr_id g' = i" using \<open>gr_id g = i\<close> by (simp add: g'_def)
  ultimately have "h = g'"
    using h(1,2) by (auto simp: tbl_save_def split: if_splits)
  with h(3) show False by (simp add: grant_active_at_def g'_def)
qed

text \<open>The sweep announces each lapsed grant exactly once. When it returns, it has announced
  the due grants not yet announced, in table order, each due grant is now on record, and a
  second sweep at the same instant announces nothing and writes nothing.\<close>

lemma expiry_sweep_once:
  assumes "clearance_wf E S" and "expire_due_clearances E fresh cutoff sv n S = (Inr ids, S')"
  shows "ids = filter (\<lambda>i. i \<notin> set (already_expired_grant_ids S)) (map gr_id (due_grants cutoff S))
    \<and> (\<forall>g\<in>set (grants S). gr_expires_at g \<le> cutoff \<and> gr_revoked_at g = None
          \<longrightarrow> gr_id g \<in> set (already_expired_grant_ids S'))
    \<and> distinct (already_expired_grant_ids S') \<and> grants S' = grants S
    \<and> expire_due_clearances E fresh' cutoff sv' n' S' = (Inr [], S')"
proof -
  have sp: "grants S' = grants S" "distinct (already_expired_grant_ids S')"
    "ids = filter (\<lambda>i. i \<notin> set (already_expired_grant_ids S)) (map gr_id (due_grants cutoff S))"
    "set (already_expired_grant_ids S') = set (already_expired_grant_ids S) \<union> gr_id ` set (due_grants cutoff S)"
    using sweep [OF assms(1), of cutoff fresh sv n] assms(2) by (simp_all add: sweep_spec_def)
  have skip: "expire_loop E fresh' (already_expired_grant_ids S') cutoff sv' n' gs [] S' = (Inr [], S')"
    if "gr_id ` set gs \<subseteq> set (already_expired_grant_ids S')" for gs
    using that by (induction gs) auto
  have "due_grants cutoff S' = due_grants cutoff S" by (simp add: due_grants_def sp(1))
  then have "expire_due_clearances E fresh' cutoff sv' n' S' = (Inr [], S')"
    using skip [of "due_grants cutoff S"] sp(4) by (simp add: expire_due_clearances_def)
  with sp show ?thesis by (auto simp: due_grants_def)
qed

section \<open>Witnesses\<close>

definition example_grant :: grant_row where
  "example_grant = \<lparr>gr_id = 5, gr_user_id = 100, gr_scope = READ_RESTRICTED, gr_granted_by = 200,
     gr_reason = ''incident response'', gr_granted_at = 0, gr_expires_at = 1000,
     gr_revoked_at = None, gr_revoked_by = None, gr_revocation_reason = None\<rparr>"

definition example_clearance_ops :: "clearance_op list" where
  "example_clearance_ops =
     [Grant 5 1 100 200 READ_RESTRICTED ''incident response'' 1000 0 example_ctx,
      Grant 6 2 100 200 READ_CLASSIFIED ''short'' 1000 0 example_ctx]"

definition example_clearance :: clearance_store where
  "example_clearance = fold (clearance_exec example_env) example_clearance_ops empty_clearance"

lemmas example_clearance_simps = clearance_audit_def audit_or_warn_def example_audit_defs
  grant_clearance_def empty_clearance_def MAX_GRANT_DURATION_def MIN_REASON_LEN_def days_def seconds_def
  grant_checks_def

lemma example_clearance_grants: "grants example_clearance = [example_grant]"
  by (simp add: example_clearance_def example_clearance_ops_def example_clearance_simps example_grant_def Let_def)

lemma example_clearance_wf: "clearance_wf example_env example_clearance"
  unfolding example_clearance_def by (rule clearance_run_wf)

theorem tier_gate_exact_witness:
  "resolve_tier_grant \<lparr>cu_user_id = 100, cu_effective_scopes = {''read:restricted''}\<rparr> RESTRICTED 7 example_clearance
     = Inr (Some 5)"
proof -
  let ?cu = "\<lparr>cu_user_id = 100, cu_effective_scopes = {''read:restricted''}\<rparr>"
  obtain v where "resolve_tier_grant ?cu RESTRICTED 7 example_clearance = Inr v"
    using tier_gate_exact [of ?cu 7 example_clearance RESTRICTED READ_RESTRICTED]
    by (auto simp: example_clearance_grants example_grant_def grant_active_at_def)
  moreover from this have "v = Some 5"
    using tier_gate_exact [of ?cu 7 example_clearance RESTRICTED READ_RESTRICTED]
    by (auto simp: example_clearance_grants example_grant_def)
  ultimately show ?thesis by simp
qed

end
