(* ===== verification/Crypto_Framing.thy ===== *)
theory Crypto_Framing
  imports Enums
begin

text \<open>
  The byte strings that operators sign and that the journal hashes
  (\<open>crypto/_file_access_signing.py\<close>): length-prefixed frames of UTF-8 fields behind a framed
  scheme tag. A frame is a code word that is never a proper prefix of another, and the locale
  of such codes gives what the module promises: concatenated frames read back one way only.
\<close>

section \<open>Code words\<close>

text \<open>\<open>enc x = None\<close> is an encoder that raises. Sequences concatenate the words.\<close>

fun enc_all :: "('a \<Rightarrow> 'b list option) \<Rightarrow> 'a list \<Rightarrow> 'b list option" where
  "enc_all enc [] = Some []"
| "enc_all enc (x # xs) =
     (case enc x of None \<Rightarrow> None
      | Some w \<Rightarrow> (case enc_all enc xs of None \<Rightarrow> None | Some ws \<Rightarrow> Some (w @ ws)))"

locale prefix_code =
  fixes enc :: "'a \<Rightarrow> 'b list option"
  assumes nonempty: "enc x \<noteq> Some []"
    and prefix_free: "enc x = Some v \<Longrightarrow> enc y = Some w \<Longrightarrow> v @ r = w @ s \<Longrightarrow> x = y \<and> r = s"
begin

text \<open>Sequences of the same number of words are again prefix free.\<close>

lemma enc_all_prefix_free:
  "enc_all enc xs = Some v \<Longrightarrow> enc_all enc ys = Some w \<Longrightarrow> length xs = length ys
     \<Longrightarrow> v @ r = w @ s \<Longrightarrow> xs = ys \<and> r = s"
proof (induction xs arbitrary: ys v w)
  case Nil
  then show ?case by simp
next
  case (Cons x xs)
  then obtain y ys' where ys: "ys = y # ys'" by (cases ys) auto
  from Cons.prems(1) obtain a v' where a: "enc x = Some a" "enc_all enc xs = Some v'" "v = a @ v'"
    by (auto split: option.splits)
  from Cons.prems(2) ys obtain b w' where b: "enc y = Some b" "enc_all enc ys' = Some w'" "w = b @ w'"
    by (auto split: option.splits)
  have "x = y \<and> v' @ r = w' @ s"
    using prefix_free [OF a(1) b(1), of "v' @ r" "w' @ s"] Cons.prems(4) a(3) b(3) by simp
  with Cons.IH [OF a(2) b(2)] Cons.prems(3) ys show ?case by simp
qed

lemma enc_all_Nil_iff: "enc_all enc xs = Some [] \<longleftrightarrow> xs = []"
  using nonempty by (cases xs) (auto split: option.splits)

text \<open>Sequences of any length are injective, because no word is empty.\<close>

lemma enc_all_inj:
  "enc_all enc xs = Some v \<Longrightarrow> enc_all enc ys = Some v \<Longrightarrow> xs = ys"
proof (induction xs arbitrary: ys v)
  case Nil
  then show ?case using enc_all_Nil_iff [of ys] by simp
next
  case (Cons x xs)
  from Cons.prems(1) obtain a v' where a: "enc x = Some a" "enc_all enc xs = Some v'" "v = a @ v'"
    by (auto split: option.splits)
  show ?case
  proof (cases ys)
    case Nil
    with Cons.prems a have "enc x = Some []" by simp
    then show ?thesis using nonempty by simp
  next
    case (Cons y ys')
    then obtain b w' where b: "enc y = Some b" "enc_all enc ys' = Some w'" "v = b @ w'"
      using Cons.prems(2) by (auto split: option.splits)
    have "a @ v' = b @ w'"
      using a(3) b(3) by metis
    then have "x = y \<and> v' = w'"
      by (rule prefix_free [OF a(1) b(1)])
    with Cons.IH [OF a(2)] b(2) Cons show ?thesis by simp
  qed
qed

end

section \<open>Numbers as bytes and digits\<close>

definition byte_of :: "nat \<Rightarrow> byte" where
  "byte_of n = of_nat n"

lemma byte_of_eq: "byte_of a = byte_of b \<longleftrightarrow> a mod 256 = b mod 256"
  by (simp add: byte_of_def of_nat_eq_iff word_unat_eq_iff unat_of_nat)

lemma byte_of_inj [simp]: "a < 256 \<Longrightarrow> b < 256 \<Longrightarrow> byte_of a = byte_of b \<longleftrightarrow> a = b"
  by (simp add: byte_of_eq)

text \<open>\<open>u.to_bytes(n, "big")\<close> for \<open>u < 256 ^ n\<close>; \<open>UUID.bytes\<close> is the case of 16.\<close>

fun be_bytes :: "nat \<Rightarrow> nat \<Rightarrow> bytes" where
  "be_bytes 0 u = []"
| "be_bytes (Suc n) u = be_bytes n (u div 256) @ [byte_of (u mod 256)]"

lemma length_be_bytes [simp]: "length (be_bytes n u) = n"
  by (induction n arbitrary: u) auto

lemma be_bytes_Nil_iff [simp]: "be_bytes n u = [] \<longleftrightarrow> n = 0" "[] = be_bytes n u \<longleftrightarrow> n = 0"
  by (metis length_be_bytes length_0_conv)+

lemma be_bytes_inj:
  "be_bytes n u = be_bytes n v \<Longrightarrow> u < 256 ^ n \<Longrightarrow> v < 256 ^ n \<Longrightarrow> u = v"
proof (induction n arbitrary: u v)
  case 0
  then show ?case by simp
next
  case (Suc n)
  have "u div 256 < 256 ^ n" "v div 256 < 256 ^ n"
    using Suc.prems(2,3) by (auto simp: less_mult_imp_div_less)
  with Suc have "u div 256 = v div 256" by simp
  moreover have "u mod 256 = v mod 256"
    using Suc.prems(1) by simp
  ultimately show ?case by (metis mult_div_mod_eq)
qed

text \<open>\<open>str(n)\<close>.\<close>

fun nat_str :: "nat \<Rightarrow> string" where
  "nat_str n = (if n < 10 then [char_of (48 + n)] else nat_str (n div 10) @ [char_of (48 + n mod 10)])"

declare nat_str.simps [simp del]

definition int_str :: "int \<Rightarrow> string" where
  "int_str i = (if i < 0 then CHR ''-'' # nat_str (nat (- i)) else nat_str (nat i))"

lemma digit_char_inj: "a < 10 \<Longrightarrow> b < 10 \<Longrightarrow> char_of (48 + a :: nat) = char_of (48 + b) \<Longrightarrow> a = b"
  by (simp add: char_of_eq_iff take_bit_eq_mod)

lemma nat_str_nonempty [simp]: "nat_str n \<noteq> []" "[] \<noteq> nat_str n"
  by (subst nat_str.simps, simp)+

lemma nat_str_inj: "nat_str m = nat_str n \<Longrightarrow> m = n"
proof (induction m arbitrary: n rule: nat_str.induct)
  case (1 m)
  note eq = "1.prems" [unfolded nat_str.simps [of m] nat_str.simps [of n]]
  show ?case
  proof (cases "m < 10"; cases "n < 10")
    assume "\<not> m < 10" "\<not> n < 10"
    with eq have "nat_str (m div 10) = nat_str (n div 10)"
      and "char_of (48 + m mod 10) = (char_of (48 + n mod 10) :: char)" by auto
    then have "m div 10 = n div 10" and "m mod 10 = n mod 10"
      using "1.IH" \<open>\<not> m < 10\<close> digit_char_inj [of "m mod 10" "n mod 10"] by auto
    then show "m = n" by (metis mult_div_mod_eq)
  qed (use eq digit_char_inj [of m n] in auto)
qed

lemma nat_str_digits: "c \<in> set (nat_str n) \<Longrightarrow> c \<noteq> CHR ''-''"
proof (induction n rule: nat_str.induct)
  case (1 n)
  have no: "char_of (48 + k :: nat) \<noteq> CHR ''-''" if "k < 10" for k
    using that by (simp add: char_of_eq_iff take_bit_eq_mod)
  have "n mod 10 < 10" by simp
  with 1 no [of n] no [of "n mod 10"] show ?case
    by (subst (asm) (2) nat_str.simps) (auto split: if_splits)
qed

lemma int_str_inj: "int_str i = int_str j \<Longrightarrow> i = j"
proof -
  assume eq: "int_str i = int_str j"
  have no: "nat_str n \<noteq> CHR ''-'' # s" for n s
    using nat_str_digits [of "CHR ''-''" n] by fastforce
  have no': "CHR ''-'' # s \<noteq> nat_str n" for n s
    using no by metis
  show ?thesis
    using eq no no' by (auto simp: int_str_def split: if_splits dest!: nat_str_inj)
qed

section \<open>UTF-8\<close>

text \<open>\<open>str.encode("utf-8")\<close> for code points below 256: one byte below 128, else two.\<close>

definition utf8_char :: "char \<Rightarrow> bytes option" where
  "utf8_char c = (let n = of_char c :: nat in
     Some (if n < 128 then [byte_of n] else [byte_of (192 + n div 64), byte_of (128 + n mod 64)]))"

definition utf8 :: "string \<Rightarrow> bytes" where
  "utf8 s = concat (map (\<lambda>c. the (utf8_char c)) s)"

lemma of_char_nat_less: "(of_char c :: nat) < 256"
  using of_char_mod_256 [of c, where 'a = nat] by (metis mod_less_divisor zero_less_numeral)

interpretation utf8: prefix_code utf8_char
proof
  show "utf8_char x \<noteq> Some []" for x
    by (simp add: utf8_char_def Let_def)
  show "x = y \<and> r = s"
    if "utf8_char x = Some v" "utf8_char y = Some w" "v @ r = w @ s" for x y v w r s
  proof -
    let ?m = "of_char x :: nat" and ?n = "of_char y :: nat"
    have b: "?m < 256" "?n < 256" by (rule of_char_nat_less)+
    have d: "?m div 64 < 4" "?n div 64 < 4" "?m mod 64 < 64" "?n mod 64 < 64"
      using b by (simp_all add: less_mult_imp_div_less)
    have "?m = ?n \<and> r = s"
    proof (cases "?m < 128"; cases "?n < 128")
      assume "\<not> ?m < 128" "\<not> ?n < 128"
      with that d have "?m div 64 = ?n div 64" "?m mod 64 = ?n mod 64" "r = s"
        by (auto simp: utf8_char_def Let_def)
      then show ?thesis by (metis mult_div_mod_eq)
    qed (use that b d in \<open>auto simp: utf8_char_def Let_def\<close>)
    then show ?thesis by simp
  qed
qed

lemma enc_all_utf8: "enc_all utf8_char s = Some (utf8 s)"
  by (induction s) (simp_all add: utf8_def utf8_char_def Let_def)

lemma utf8_inj: "utf8 s = utf8 t \<Longrightarrow> s = t"
  using utf8.enc_all_inj [of s "utf8 s" t] by (simp add: enc_all_utf8)

section \<open>Frames\<close>

text \<open>\<open>_frame_bytes\<close>; \<open>len(raw).to_bytes(4, "big")\<close> raises OverflowError from \<open>2 ^ 32\<close> on.\<close>

definition frame_bytes :: "bytes \<Rightarrow> bytes option" where
  "frame_bytes raw = (if length raw < 2 ^ 32 then Some (be_bytes 4 (length raw) @ raw) else None)"

definition frame :: "string \<Rightarrow> bytes option" where
  "frame field = frame_bytes (utf8 field)"

interpretation frame: prefix_code frame_bytes
proof
  show "frame_bytes x \<noteq> Some []" for x
    by (auto simp: frame_bytes_def split: if_splits)
  show "x = y \<and> r = s"
    if "frame_bytes x = Some v" "frame_bytes y = Some w" "v @ r = w @ s" for x y v w r s
  proof -
    have eq: "be_bytes 4 (length x) @ x @ r = be_bytes 4 (length y) @ y @ s"
      and lens: "length x < 2 ^ 32" "length y < 2 ^ 32"
      using that by (auto simp: frame_bytes_def split: if_splits)
    have "be_bytes 4 (length x) = be_bytes 4 (length y)" "x @ r = y @ s"
      using eq by simp_all
    moreover from this have "length x = length y"
      using be_bytes_inj [of 4 "length x" "length y"] lens by simp
    ultimately show ?thesis by simp
  qed
qed

section \<open>The three canonical serialisations\<close>

definition SIG_SCHEME :: bytes where
  "SIG_SCHEME = utf8 ''EYENET-SIG-v1''"

definition JOURNAL_ROW_SCHEME :: bytes where
  "JOURNAL_ROW_SCHEME = utf8 ''EYENET-FAJ-v1''"

definition SIGNING_KEY_CHALLENGE_SCHEME :: bytes where
  "SIGNING_KEY_CHALLENGE_SCHEME = utf8 ''EYENET-SIGNING-KEY-CHALLENGE-v1''"

text \<open>Each returns \<open>None\<close> when a field is too long to frame.\<close>

definition build_canonical ::
  "string \<Rightarrow> string \<Rightarrow> string \<Rightarrow> string \<Rightarrow> string \<Rightarrow> string \<Rightarrow> bytes option" where
  "build_canonical meth url request_id timestamp body_hash content_hash =
     enc_all frame_bytes (SIG_SCHEME #
       map utf8 [meth, url, request_id, timestamp, body_hash, content_hash])"

definition build_journal_row_canonical ::
  "bytes \<Rightarrow> bytes \<Rightarrow> bytes \<Rightarrow> bytes \<Rightarrow> bytes \<Rightarrow> int \<Rightarrow> string \<Rightarrow> string \<Rightarrow> string \<Rightarrow> string
   \<Rightarrow> bytes \<Rightarrow> bytes \<Rightarrow> string \<Rightarrow> bytes option" where
  "build_journal_row_canonical access_id audit_event_id user_id grant_id content_hash content_size
     content_mime tier served_at served_via acknowledgment_id operator_signature fp =
   enc_all frame_bytes
     [JOURNAL_ROW_SCHEME, access_id, audit_event_id, user_id, grant_id, content_hash,
      utf8 (int_str content_size), utf8 content_mime, utf8 tier, utf8 served_at, utf8 served_via,
      acknowledgment_id, operator_signature, utf8 fp]"

definition build_signing_key_challenge_canonical :: "string \<Rightarrow> bytes \<Rightarrow> bytes option" where
  "build_signing_key_challenge_canonical nonce public_key_bytes =
     enc_all frame_bytes [SIGNING_KEY_CHALLENGE_SCHEME, utf8 nonce, public_key_bytes]"

lemma schemes_distinct:
  "SIG_SCHEME \<noteq> JOURNAL_ROW_SCHEME"
  "SIG_SCHEME \<noteq> SIGNING_KEY_CHALLENGE_SCHEME"
  "JOURNAL_ROW_SCHEME \<noteq> SIGNING_KEY_CHALLENGE_SCHEME"
  unfolding SIG_SCHEME_def JOURNAL_ROW_SCHEME_def SIGNING_KEY_CHALLENGE_SCHEME_def
  by (auto dest: utf8_inj)

text \<open>Every serialisation begins with its framed tag, so two of different tags never agree.\<close>

lemma enc_all_tag:
  "enc_all frame_bytes (t # xs) = Some v \<Longrightarrow> enc_all frame_bytes (u # ys) = Some v \<Longrightarrow> t = u \<and> xs = ys"
  using frame.enc_all_inj by blast

text \<open>The journal serialisation is even a prefix code: what follows it can be read off.\<close>

lemma journal_canonical_prefix_free:
  assumes "build_journal_row_canonical a1 a2 a3 a4 a5 a6 a7 a8 a9 a10 a11 a12 a13 = Some v"
    and "build_journal_row_canonical b1 b2 b3 b4 b5 b6 b7 b8 b9 b10 b11 b12 b13 = Some w"
    and "v @ r = w @ s"
  shows "a1 = b1 \<and> a2 = b2 \<and> a3 = b3 \<and> a4 = b4 \<and> a5 = b5 \<and> a6 = b6 \<and> a7 = b7 \<and> a8 = b8 \<and> a9 = b9
       \<and> a10 = b10 \<and> a11 = b11 \<and> a12 = b12 \<and> a13 = b13 \<and> r = s"
  using frame.enc_all_prefix_free [OF assms(1) [unfolded build_journal_row_canonical_def]
      assms(2) [unfolded build_journal_row_canonical_def] _ assms(3)]
  by (auto dest!: utf8_inj int_str_inj)

section \<open>Properties\<close>

text \<open>The request canonical is injective: two requests that yield the same bytes agree in
  every field, whatever separators a field contains.\<close>

lemma build_canonical_inj:
  assumes "build_canonical m u i t b c = Some v" and "build_canonical m' u' i' t' b' c' = Some v"
  shows "m = m' \<and> u = u' \<and> i = i' \<and> t = t' \<and> b = b' \<and> c = c'"
  using enc_all_tag [OF assms(1) [unfolded build_canonical_def] assms(2) [unfolded build_canonical_def]]
  by (auto dest!: utf8_inj)

text \<open>Domain separation. Bytes of one scheme are never bytes of another, so a signature over
  a request, a registration challenge and the preimage of a row hash cannot stand in for each other.\<close>

lemma canonical_domains_disjoint:
  "\<not> (build_canonical m u i t b c = Some v
       \<and> build_signing_key_challenge_canonical nonce pk = Some v)
   \<and> \<not> (build_canonical m u i t b c = Some v
       \<and> build_journal_row_canonical a1 a2 a3 a4 a5 a6 a7 a8 a9 a10 a11 a12 a13 = Some v)
   \<and> \<not> (build_signing_key_challenge_canonical nonce pk = Some v
       \<and> build_journal_row_canonical a1 a2 a3 a4 a5 a6 a7 a8 a9 a10 a11 a12 a13 = Some v)"
  unfolding build_canonical_def build_journal_row_canonical_def build_signing_key_challenge_canonical_def
  using enc_all_tag schemes_distinct by metis

section \<open>Hexadecimal\<close>

text \<open>\<open>bytes.hex()\<close>: two lower-case digits per byte.\<close>

definition hex_digit :: "nat \<Rightarrow> char" where
  "hex_digit n = (if n < 10 then char_of (48 + n) else char_of (87 + n))"

definition hex_byte :: "byte \<Rightarrow> string" where
  "hex_byte b = [hex_digit (unat b div 16), hex_digit (unat b mod 16)]"

definition bytes_hex :: "bytes \<Rightarrow> string" where
  "bytes_hex bs = concat (map hex_byte bs)"

lemma hex_digit_inj: "m < 16 \<Longrightarrow> n < 16 \<Longrightarrow> hex_digit m = hex_digit n \<Longrightarrow> m = n"
  by (auto simp: hex_digit_def char_of_eq_iff take_bit_eq_mod split: if_splits)

lemma hex_byte_inj: "hex_byte a = hex_byte b \<Longrightarrow> a = b"
proof -
  assume eq: "hex_byte a = hex_byte b"
  have "unat a < 256" "unat b < 256" using unsigned_less [of a] unsigned_less [of b] by auto
  then have "unat a div 16 = unat b div 16" and "unat a mod 16 = unat b mod 16"
    using eq hex_digit_inj by (auto simp: hex_byte_def less_mult_imp_div_less)
  then have "unat a = unat b" by (metis mult_div_mod_eq)
  then show "a = b" by (simp only: word_unat_eq_iff)
qed

lemma bytes_hex_inj: "bytes_hex a = bytes_hex b \<Longrightarrow> a = b"
proof (induction a arbitrary: b)
  case Nil
  then show ?case by (cases b) (auto simp: bytes_hex_def hex_byte_def)
next
  case (Cons x a)
  then obtain y b' where "b = y # b'" by (cases b) (auto simp: bytes_hex_def hex_byte_def)
  moreover from this have "hex_byte x = hex_byte y" "bytes_hex a = bytes_hex b'"
    using Cons.prems by (auto simp: bytes_hex_def hex_byte_def)
  ultimately show ?case using Cons.IH hex_byte_inj by blast
qed

section \<open>Lengths\<close>

text \<open>A serialisation raises exactly when one of its fields has \<open>2 ^ 32\<close> bytes or more.\<close>

lemma frame_all_None_iff: "enc_all frame_bytes xs = None \<longleftrightarrow> (\<exists>x\<in>set xs. 2 ^ 32 \<le> length x)"
  by (induction xs) (auto simp: frame_bytes_def not_less split: option.splits)

lemma frame_all_Some_iff: "(\<exists>v. enc_all frame_bytes xs = Some v) \<longleftrightarrow> (\<forall>x\<in>set xs. length x < 4294967296)"
  using frame_all_None_iff [of xs] by (auto simp: not_le)

lemma length_frame_all:
  "enc_all frame_bytes xs = Some v \<Longrightarrow> length v = sum_list (map (\<lambda>x. 4 + length x) xs)"
  by (induction xs arbitrary: v) (auto simp: frame_bytes_def split: option.splits if_splits)

lemma length_utf8_le: "length (utf8 s) \<le> 2 * length s"
  by (induction s) (auto simp: utf8_def utf8_char_def Let_def)

lemma length_bytes_hex [simp]: "length (bytes_hex b) = 2 * length b"
  by (induction b) (simp_all add: bytes_hex_def hex_byte_def)

section \<open>A hash for the examples\<close>

text \<open>One character per byte: a hash without collisions, at which the properties that assume one are evaluated.\<close>

definition example_hash :: "bytes \<Rightarrow> string" where
  "example_hash b = map (\<lambda>x. char_of (unat x)) b"

lemma example_hash_inj: "inj example_hash"
proof (rule injI)
  have "x = y" if "char_of (unat x) = (char_of (unat y) :: char)" for x y :: byte
  proof -
    have "unat x mod 256 = unat y mod 256" using that by (metis of_char_of)
    moreover have "unat z < 256" for z :: byte using unsigned_less [of z, where ?'a = nat] by simp
    ultimately show ?thesis by (simp add: word_unat_eq_iff)
  qed
  then have "inj (\<lambda>x :: byte. char_of (unat x) :: char)" by (rule injI)
  then show "b = b'" if "example_hash b = example_hash b'" for b b' using that injD [OF inj_mapI] unfolding example_hash_def by blast
qed

end
