(* ===== verification/Run_Contracts.thy ===== *)
theory Run_Contracts
  imports Eyenet_Prelude
begin

text \<open>
  Contracts on runs of operations that several components meet. Tokens that a conditional
  UPDATE spends (acknowledgment nonces, signing-key challenges, candidate claims): the update
  that succeeds marks the row, and a marked row never satisfies the condition again, so no run
  uses a token twice. Levels that no operation lowers (tiers, counters): they never fall over a
  run. Life cycles (cases, candidates, identities): every operation moves an object along an
  edge of its graph or leaves it, so a terminal state is kept and every run walks a path.
\<close>

section \<open>Single-use tokens\<close>

text \<open>How many operations of a run use the token \<open>k\<close>.\<close>

fun use_count :: "('k \<Rightarrow> 'op \<Rightarrow> 's \<Rightarrow> bool) \<Rightarrow> ('op \<Rightarrow> 's \<Rightarrow> 's) \<Rightarrow> 'k \<Rightarrow> 'op list \<Rightarrow> 's \<Rightarrow> nat" where
  "use_count uses exec k [] s = 0"
| "use_count uses exec k (a # as) s =
     (if uses k a s then 1 else 0) + use_count uses exec k as (exec a s)"

locale single_use =
  fixes inv :: "'s \<Rightarrow> bool"
    and spent :: "'k \<Rightarrow> 's \<Rightarrow> bool"
    and uses :: "'k \<Rightarrow> 'op \<Rightarrow> 's \<Rightarrow> bool"
    and exec :: "'op \<Rightarrow> 's \<Rightarrow> 's"
  assumes exec_inv: "inv s \<Longrightarrow> inv (exec a s)"
    and use_spends: "inv s \<Longrightarrow> uses k a s \<Longrightarrow> \<not> spent k s \<and> spent k (exec a s)"
    and spent_stays: "inv s \<Longrightarrow> spent k s \<Longrightarrow> spent k (exec a s)"
begin

lemma fold_inv: "inv s \<Longrightarrow> inv (fold exec as s)"
  by (induction as arbitrary: s) (auto simp: exec_inv)

lemma spent_never_used: "inv s \<Longrightarrow> spent k s \<Longrightarrow> use_count uses exec k as s = 0"
proof (induction as arbitrary: s)
  case Nil
  then show ?case by simp
next
  case (Cons a as)
  then have "use_count uses exec k as (exec a s) = 0"
    using exec_inv spent_stays by blast
  moreover have "\<not> uses k a s" using Cons.prems use_spends by blast
  ultimately show ?case by simp
qed

lemma used_at_most_once: "inv s \<Longrightarrow> use_count uses exec k as s \<le> 1"
proof (induction as arbitrary: s)
  case Nil
  then show ?case by simp
next
  case (Cons a as)
  show ?case
  proof (cases "uses k a s")
    case True
    with Cons.prems have "use_count uses exec k as (exec a s) = 0"
      using exec_inv use_spends spent_never_used by blast
    with True show ?thesis by simp
  next
    case False
    with Cons exec_inv show ?thesis by simp
  qed
qed

end

section \<open>Levels that never fall\<close>

locale monotone_run =
  fixes inv :: "'s \<Rightarrow> bool"
    and exec :: "'op \<Rightarrow> 's \<Rightarrow> 's"
    and level :: "'k \<Rightarrow> 's \<Rightarrow> 'l::preorder"
  assumes exec_inv: "inv s \<Longrightarrow> inv (exec a s)"
    and exec_level: "inv s \<Longrightarrow> level k s \<le> level k (exec a s)"
begin

lemma run_inv: "inv s \<Longrightarrow> inv (fold exec as s)"
  by (induction as arbitrary: s) (auto simp: exec_inv)

lemma run_level: "inv s \<Longrightarrow> level k s \<le> level k (fold exec as s)"
proof (induction as arbitrary: s)
  case Nil
  then show ?case by simp
next
  case (Cons a as)
  then have "level k (exec a s) \<le> level k (fold exec as (exec a s))"
    using exec_inv by blast
  from order_trans [OF exec_level [OF Cons.prems] this] show ?case by simp
qed

end

section \<open>Life cycles\<close>

text \<open>
  \<open>state k s\<close> is the state of the object \<open>k\<close> (\<open>None\<close> before it exists or after it is deleted),
  \<open>edge\<close> the legal moves, \<open>initial\<close> the states objects are created in.
\<close>

locale lifecycle =
  fixes inv :: "'s \<Rightarrow> bool"
    and exec :: "'op \<Rightarrow> 's \<Rightarrow> 's"
    and state :: "'k \<Rightarrow> 's \<Rightarrow> 'q option"
    and edge :: "'q \<Rightarrow> 'q \<Rightarrow> bool"
    and initial :: "'q \<Rightarrow> bool"
  assumes exec_inv: "inv s \<Longrightarrow> inv (exec a s)"
    and exec_edge: "inv s \<Longrightarrow> state k s = Some q \<Longrightarrow>
          (\<exists>q'. state k (exec a s) = Some q' \<and> edge\<^sup>*\<^sup>* q q')"
    and exec_new: "inv s \<Longrightarrow> state k s = None \<Longrightarrow> state k (exec a s) = Some q \<Longrightarrow> initial q"
begin

lemma run_inv: "inv s \<Longrightarrow> inv (fold exec as s)"
  by (induction as arbitrary: s) (auto simp: exec_inv)

lemma run_path:
  "inv s \<Longrightarrow> state k s = Some q \<Longrightarrow> \<exists>q'. state k (fold exec as s) = Some q' \<and> edge\<^sup>*\<^sup>* q q'"
proof (induction as arbitrary: s q)
  case Nil
  then show ?case by simp
next
  case (Cons a as)
  then obtain q' where q': "state k (exec a s) = Some q'" "edge\<^sup>*\<^sup>* q q'"
    using exec_edge by blast
  with Cons exec_inv obtain q'' where "state k (fold exec as (exec a s)) = Some q''" "edge\<^sup>*\<^sup>* q' q''"
    by blast
  with q'(2) show ?case by auto
qed

lemma terminal_kept:
  assumes "inv s" and "state k s = Some q" and "\<And>q'. \<not> edge q q'"
  shows "state k (fold exec as s) = Some q"
proof -
  from run_path [OF assms(1,2)] obtain q' where "state k (fold exec as s) = Some q'" "edge\<^sup>*\<^sup>* q q'"
    by blast
  then show ?thesis using assms(3) by (metis converse_rtranclpE)
qed

text \<open>An object that appears in a run is in a state reachable from an initial one.\<close>

lemma run_from_initial:
  "inv s \<Longrightarrow> state k s = None \<Longrightarrow> state k (fold exec as s) = Some q \<Longrightarrow> \<exists>q0. initial q0 \<and> edge\<^sup>*\<^sup>* q0 q"
proof (induction as arbitrary: s)
  case Nil
  then show ?case by simp
next
  case (Cons a as)
  show ?case
  proof (cases "state k (exec a s)")
    case None
    with Cons exec_inv show ?thesis by auto
  next
    case (Some q0)
    with Cons.prems exec_new have "initial q0" by blast
    moreover obtain q' where "state k (fold exec as (exec a s)) = Some q'" "edge\<^sup>*\<^sup>* q0 q'"
      using run_path Some Cons.prems(1) exec_inv by blast
    ultimately show ?thesis using Cons.prems(3) by auto
  qed
qed

end

end
