(* ===== verification/File_Access.thy ===== *)
theory File_Access
  imports Audit_Chain Crypto_Framing Run_Contracts
begin

text \<open>
  The file-access journal and its single-use tokens: \<open>sqlmodel_repo/file_access.py\<close>, the
  serialised append of \<open>sqlite_repo/repository.py\<close> and the tables of
  \<open>models/file_access.py\<close>. SHA-256, the DER encoding of a key, Ed25519 verification and the
  ISO rendering and parsing of instants are the fields of \<open>fa_env\<close>.
\<close>

section \<open>Tables\<close>

record fa_env =
  fe_sha256 :: "bytes \<Rightarrow> bytes"
  fe_der_spki :: "bytes \<Rightarrow> bytes"
  fe_verify :: "bytes \<Rightarrow> bytes \<Rightarrow> bytes \<Rightarrow> bool"
  fe_isoformat :: "time \<Rightarrow> string"
  fe_fromisoformat :: "string \<Rightarrow> time option"

record key_row =
  kh_id :: uuid
  kh_user_id :: uuid
  kh_verifying_key :: bytes
  kh_fingerprint :: string
  kh_set_at :: time
  kh_retired_at :: "time option"

record ack_row =
  ack_nonce :: uuid
  ack_user_id :: uuid
  ack_content_hash :: string
  ack_issued_at :: time
  ack_expires_at :: time
  ack_consumed_at :: "time option"

record challenge_row =
  ch_nonce :: uuid
  ch_user_id :: uuid
  ch_expires_at :: time
  ch_consumed_at :: "time option"

text \<open>\<open>_PreparedJournalRow\<close>; the table adds \<open>seq\<close> and the two hashes.\<close>

record prepared_row =
  pj_access_id :: uuid
  pj_audit_event_id :: "uuid option"
  pj_user_id :: uuid
  pj_grant_id :: "uuid option"
  pj_content_hash :: bytes
  pj_content_size :: int
  pj_content_mime :: string
  pj_tier :: sensitivity_tier
  pj_served_at :: time
  pj_served_via :: file_served_via
  pj_acknowledgment_id :: "uuid option"
  pj_operator_signature :: bytes
  pj_fingerprint :: string

record journal_row =
  jr_seq :: nat
  jr_row :: prepared_row
  jr_prev_hash :: bytes
  jr_self_hash :: bytes

text \<open>\<open>fa_ok\<close>: whether the database completes an INSERT and COMMIT at this moment.\<close>

record fa_store =
  signing_keys :: "key_row list"
  acks :: "ack_row list"
  challenges :: "challenge_row list"
  journal :: "journal_row list"
  fa_ok :: bool

definition ACK_TTL :: int where "ACK_TTL = seconds 60"
definition SIGNING_KEY_CHALLENGE_TTL :: int where "SIGNING_KEY_CHALLENGE_TTL = seconds 60"
definition DEFAULT_FRESHNESS_WINDOW :: int where "DEFAULT_FRESHNESS_WINDOW = seconds 300"
definition GENESIS_JOURNAL_HASH :: bytes where "GENESIS_JOURNAL_HASH = replicate 32 0"

section \<open>Row serialisation\<close>

definition uuid_bytes :: "uuid \<Rightarrow> bytes" where
  "uuid_bytes u = be_bytes 16 u"

definition uuid_opt_bytes :: "uuid option \<Rightarrow> bytes" where
  "uuid_opt_bytes v = (case v of None \<Rightarrow> [] | Some u \<Rightarrow> uuid_bytes u)"

primrec tier_name :: "sensitivity_tier \<Rightarrow> string" where
  "tier_name NORMAL = ''NORMAL''"
| "tier_name RESTRICTED = ''RESTRICTED''"
| "tier_name CLASSIFIED = ''CLASSIFIED''"

primrec served_via_name :: "file_served_via \<Rightarrow> string" where
  "served_via_name INLINE_JSON = ''INLINE_JSON''"
| "served_via_name ATTACHMENT_STREAM = ''ATTACHMENT_STREAM''"
| "served_via_name THUMBNAIL_ONLY = ''THUMBNAIL_ONLY''"

definition prepared_canonical :: "fa_env \<Rightarrow> prepared_row \<Rightarrow> bytes option" where
  "prepared_canonical E p = build_journal_row_canonical
     (uuid_bytes (pj_access_id p)) (uuid_opt_bytes (pj_audit_event_id p))
     (uuid_bytes (pj_user_id p)) (uuid_opt_bytes (pj_grant_id p))
     (pj_content_hash p) (pj_content_size p) (pj_content_mime p) (tier_name (pj_tier p))
     (fe_isoformat E (pj_served_at p)) (served_via_name (pj_served_via p))
     (uuid_opt_bytes (pj_acknowledgment_id p)) (pj_operator_signature p) (pj_fingerprint p)"

definition prepared_self_hash :: "fa_env \<Rightarrow> prepared_row \<Rightarrow> bytes \<Rightarrow> bytes option" where
  "prepared_self_hash E p prev = map_option (\<lambda>c. fe_sha256 E (c @ prev)) (prepared_canonical E p)"

section \<open>Signing keys\<close>

definition fingerprint :: "fa_env \<Rightarrow> bytes \<Rightarrow> string" where
  "fingerprint E key = bytes_hex (take 8 (fe_sha256 E (fe_der_spki E key)))"

text \<open>\<open>from_public_bytes\<close> raises ValueError unless the key has 32 bytes.\<close>

definition fingerprint_of :: "fa_env \<Rightarrow> bytes \<Rightarrow> exn + string" where
  "fingerprint_of E key =
     (if length key = 32 then Inr (fingerprint E key)
      else Inl (ValueError ''An Ed25519 public key is 32 bytes long''))"

text \<open>
  Retire, insert, commit: one transaction. The insert meets the primary key, the UNIQUE
  \<open>(user_id, fingerprint)\<close> and the partial UNIQUE index on the active rows of a user.
\<close>

definition record_signing_key ::
  "fa_env \<Rightarrow> uuid \<Rightarrow> uuid \<Rightarrow> bytes \<Rightarrow> time \<Rightarrow> fa_store \<Rightarrow> (string, fa_store) outcome" where
  "record_signing_key E new_id user_id key set_at S =
     (case fingerprint_of E key of
        Inl e \<Rightarrow> (Inl e, S)
      | Inr fp \<Rightarrow>
          let retired = tbl_update (\<lambda>r. kh_user_id r = user_id \<and> kh_retired_at r = None)
                          (\<lambda>r. r\<lparr>kh_retired_at := Some set_at\<rparr>) (signing_keys S);
              row = \<lparr>kh_id = new_id, kh_user_id = user_id, kh_verifying_key = key,
                     kh_fingerprint = fp, kh_set_at = set_at, kh_retired_at = None\<rparr>
          in if \<not> fa_ok S \<or> tbl_has kh_id new_id retired
                \<or> tbl_has (\<lambda>r. (kh_user_id r, kh_fingerprint r)) (user_id, fp) retired
                \<or> (\<exists>r\<in>set retired. kh_user_id r = user_id \<and> kh_retired_at r = None)
             then (Inl (IntegrityError ''system_user_signing_pubkey_history''), S)
             else (Inr fp, S\<lparr>signing_keys := retired @ [row]\<rparr>))"

definition lookup_key_for_user :: "uuid \<Rightarrow> string \<Rightarrow> fa_store \<Rightarrow> (bytes \<times> bool) option" where
  "lookup_key_for_user user_id fp S =
     map_option (\<lambda>r. (kh_verifying_key r, kh_retired_at r \<noteq> None))
       (find (\<lambda>r. kh_user_id r = user_id \<and> kh_fingerprint r = fp) (signing_keys S))"

definition active_signing_key_for :: "uuid \<Rightarrow> fa_store \<Rightarrow> bytes option" where
  "active_signing_key_for user_id S =
     (case order_desc (\<lambda>r. (kh_set_at r, kh_id r))
             (filter (\<lambda>r. kh_user_id r = user_id \<and> kh_retired_at r = None) (signing_keys S)) of
        [] \<Rightarrow> None
      | r # _ \<Rightarrow> Some (kh_verifying_key r))"

section \<open>Single-use tokens\<close>

definition record_acknowledgment ::
  "uuid \<Rightarrow> uuid \<Rightarrow> string \<Rightarrow> time \<Rightarrow> fa_store \<Rightarrow> (uuid, fa_store) outcome" where
  "record_acknowledgment nonce user_id content_hash now S =
     (if \<not> fa_ok S \<or> tbl_has ack_nonce nonce (acks S)
      then (Inl (IntegrityError ''file_access_acknowledgment''), S)
      else (Inr nonce, S\<lparr>acks := acks S @
             [\<lparr>ack_nonce = nonce, ack_user_id = user_id, ack_content_hash = content_hash,
               ack_issued_at = now, ack_expires_at = now + ACK_TTL, ack_consumed_at = None\<rparr>]\<rparr>))"

definition ack_live :: "uuid \<Rightarrow> time \<Rightarrow> ack_row \<Rightarrow> bool" where
  "ack_live nonce now r \<longleftrightarrow> ack_nonce r = nonce \<and> ack_consumed_at r = None \<and> now < ack_expires_at r"

definition consume_acknowledgment :: "uuid \<Rightarrow> time \<Rightarrow> fa_store \<Rightarrow> bool \<times> fa_store" where
  "consume_acknowledgment nonce now S =
     (rowcount (ack_live nonce now) (acks S) = 1,
      S\<lparr>acks := tbl_update (ack_live nonce now) (\<lambda>r. r\<lparr>ack_consumed_at := Some now\<rparr>) (acks S)\<rparr>)"

definition mint_signing_key_challenge ::
  "uuid \<Rightarrow> uuid \<Rightarrow> time \<Rightarrow> fa_store \<Rightarrow> (uuid, fa_store) outcome" where
  "mint_signing_key_challenge nonce user_id now S =
     (if \<not> fa_ok S \<or> tbl_has ch_nonce nonce (challenges S)
      then (Inl (IntegrityError ''signing_key_challenge''), S)
      else (Inr nonce, S\<lparr>challenges := challenges S @
             [\<lparr>ch_nonce = nonce, ch_user_id = user_id,
               ch_expires_at = now + SIGNING_KEY_CHALLENGE_TTL, ch_consumed_at = None\<rparr>]\<rparr>))"

definition challenge_live :: "uuid \<Rightarrow> uuid \<Rightarrow> time \<Rightarrow> challenge_row \<Rightarrow> bool" where
  "challenge_live nonce user_id now r \<longleftrightarrow>
     ch_nonce r = nonce \<and> ch_user_id r = user_id \<and> ch_consumed_at r = None \<and> now < ch_expires_at r"

definition consume_signing_key_challenge ::
  "uuid \<Rightarrow> uuid \<Rightarrow> time \<Rightarrow> fa_store \<Rightarrow> bool \<times> fa_store" where
  "consume_signing_key_challenge nonce user_id now S =
     (rowcount (challenge_live nonce user_id now) (challenges S) = 1,
      S\<lparr>challenges := tbl_update (challenge_live nonce user_id now)
                        (\<lambda>r. r\<lparr>ch_consumed_at := Some now\<rparr>) (challenges S)\<rparr>)"

section \<open>The journal\<close>

definition journal_head :: "fa_store \<Rightarrow> journal_row option" where
  "journal_head S = max_on jr_seq (journal S)"

definition file_access_journal_head :: "fa_store \<Rightarrow> bytes" where
  "file_access_journal_head S =
     (case journal_head S of None \<Rightarrow> GENESIS_JOURNAL_HASH | Some r \<Rightarrow> jr_self_hash r)"

text \<open>\<open>_consume_nonce_locked\<close>: the consume of the token, on the cursor of the open transaction.\<close>

definition consume_nonce_locked :: "uuid option \<Rightarrow> time \<Rightarrow> fa_store \<Rightarrow> (unit, fa_store) outcome" where
  "consume_nonce_locked nonce now S =
     (case nonce of
        None \<Rightarrow> (Inl (FileAccessJournalError ''nonce required but acknowledgment_id is None''), S)
      | Some n \<Rightarrow>
          (case consume_acknowledgment n now S of (won, S1) \<Rightarrow>
             if won then (Inr (), S1)
             else (Inl (FileAccessJournalError ''acknowledgment nonce is used, expired, or unknown''), S1)))"

text \<open>The CHECK of the journal table: a non-normal access carries its grant and its token.\<close>

definition tier_requires_grant_and_ack :: "prepared_row \<Rightarrow> bool" where
  "tier_requires_grant_and_ack p \<longleftrightarrow>
     pj_tier p = NORMAL \<or> (pj_grant_id p \<noteq> None \<and> pj_acknowledgment_id p \<noteq> None)"

text \<open>
  \<open>_append_file_access_chain\<close>: BEGIN IMMEDIATE, consume, read head, hash, INSERT, COMMIT;
  any error rolls everything back to the state at BEGIN.
\<close>

definition append_file_access ::
  "fa_env \<Rightarrow> prepared_row \<Rightarrow> bool \<Rightarrow> time \<Rightarrow> fa_store \<Rightarrow> (uuid, fa_store) outcome" where
  "append_file_access E p require_nonce now S =
     (case (if require_nonce then consume_nonce_locked (pj_acknowledgment_id p) now S else (Inr (), S)) of
        (Inl e, _) \<Rightarrow> (Inl e, S)
      | (Inr _, S1) \<Rightarrow>
          let next_seq = (case journal_head S1 of None \<Rightarrow> 1 | Some r \<Rightarrow> jr_seq r + 1);
              prev = (case journal_head S1 of None \<Rightarrow> GENESIS_JOURNAL_HASH | Some r \<Rightarrow> jr_self_hash r)
          in (case prepared_self_hash E p prev of
                None \<Rightarrow> (Inl OverflowError, S)
              | Some h \<Rightarrow>
                  if \<not> fa_ok S1 \<or> \<not> tier_requires_grant_and_ack p
                     \<or> tbl_has (\<lambda>r. pj_access_id (jr_row r)) (pj_access_id p) (journal S1)
                  then (Inl (IntegrityError ''file_access_journal''), S)
                  else (Inr (pj_access_id p),
                        S1\<lparr>journal := journal S1 @
                             [\<lparr>jr_seq = next_seq, jr_row = p, jr_prev_hash = prev, jr_self_hash = h\<rparr>]\<rparr>)))"

section \<open>Recording an access\<close>

text \<open>The keyword arguments of \<open>record_access\<close>.\<close>

record access_request =
  rq_user_id :: uuid
  rq_audit_event_id :: "uuid option"
  rq_grant_id :: "uuid option"
  rq_acknowledgment_id :: "uuid option"
  rq_content_hash :: bytes
  rq_content_size :: int
  rq_content_mime :: string
  rq_tier :: sensitivity_tier
  rq_served_via :: file_served_via
  rq_fingerprint :: string
  rq_operator_signature :: bytes
  rq_sig_method :: string
  rq_sig_url :: string
  rq_sig_request_id :: string
  rq_sig_timestamp :: string
  rq_sig_body_hash :: string

definition request_canonical :: "access_request \<Rightarrow> bytes option" where
  "request_canonical q = build_canonical (rq_sig_method q) (rq_sig_url q) (rq_sig_request_id q)
     (rq_sig_timestamp q) (rq_sig_body_hash q) (bytes_hex (rq_content_hash q))"

definition request_prepared :: "access_request \<Rightarrow> uuid \<Rightarrow> time \<Rightarrow> prepared_row" where
  "request_prepared q access_id at =
     \<lparr>pj_access_id = access_id, pj_audit_event_id = rq_audit_event_id q, pj_user_id = rq_user_id q,
      pj_grant_id = rq_grant_id q, pj_content_hash = rq_content_hash q,
      pj_content_size = rq_content_size q, pj_content_mime = rq_content_mime q,
      pj_tier = rq_tier q, pj_served_at = at, pj_served_via = rq_served_via q,
      pj_acknowledgment_id = rq_acknowledgment_id q,
      pj_operator_signature = rq_operator_signature q, pj_fingerprint = rq_fingerprint q\<rparr>"

definition record_access ::
  "fa_env \<Rightarrow> access_request \<Rightarrow> uuid \<Rightarrow> time \<Rightarrow> int \<Rightarrow> fa_store \<Rightarrow> (uuid, fa_store) outcome" where
  "record_access E q access_id at freshness_window S =
     (case lookup_key_for_user (rq_user_id q) (rq_fingerprint q) S of
        None \<Rightarrow> (Inl (FileAccessJournalError ''no signing key for user''), S)
      | Some (key, retired) \<Rightarrow>
        if length key \<noteq> 32 then (Inl (ValueError ''An Ed25519 public key is 32 bytes long''), S)
        else
        (case request_canonical q of
           None \<Rightarrow> (Inl OverflowError, S)
         | Some canonical \<Rightarrow>
           if \<not> fe_verify E key canonical (rq_operator_signature q)
           then (Inl (FileAccessJournalError ''operator signature failed verification''), S)
           else
           (case fe_fromisoformat E (rq_sig_timestamp q) of
              None \<Rightarrow> (Inl (FileAccessJournalError ''sig_timestamp is not parseable ISO-8601''), S)
            | Some parsed_ts \<Rightarrow>
              if freshness_window < \<bar>at - parsed_ts\<bar>
              then (Inl (FileAccessJournalError ''sig_timestamp is outside the freshness window''), S)
              else if rq_tier q \<noteq> NORMAL \<and> (rq_grant_id q = None \<or> rq_acknowledgment_id q = None)
              then (Inl (FileAccessJournalError ''tier access requires both grant_id and acknowledgment_id''), S)
              else append_file_access E (request_prepared q access_id at)
                     (rq_acknowledgment_id q \<noteq> None) at S)))"

section \<open>Readers\<close>

text \<open>\<open>verify_file_access_chain\<close>; a stored field too long to frame would raise.\<close>

fun verify_journal_loop :: "fa_env \<Rightarrow> bytes \<Rightarrow> journal_row list \<Rightarrow> exn + bool" where
  "verify_journal_loop E expected_prev [] = Inr True"
| "verify_journal_loop E expected_prev (row # rows) =
     (if jr_prev_hash row \<noteq> expected_prev then Inr False
      else (case prepared_self_hash E (jr_row row) expected_prev of
              None \<Rightarrow> Inl OverflowError
            | Some h \<Rightarrow> if h \<noteq> jr_self_hash row then Inr False
                        else verify_journal_loop E (jr_self_hash row) rows))"

definition verify_file_access_chain :: "fa_env \<Rightarrow> fa_store \<Rightarrow> exn + bool" where
  "verify_file_access_chain E S =
     verify_journal_loop E GENESIS_JOURNAL_HASH (order_asc jr_seq (journal S))"

definition list_file_access_by_content_hash :: "bytes \<Rightarrow> fa_store \<Rightarrow> prepared_row list" where
  "list_file_access_by_content_hash h S =
     map jr_row (order_asc jr_seq (filter (\<lambda>r. pj_content_hash (jr_row r) = h) (journal S)))"

definition list_file_access_by_user ::
  "uuid \<Rightarrow> time option \<Rightarrow> time option \<Rightarrow> fa_store \<Rightarrow> prepared_row list" where
  "list_file_access_by_user u since until S =
     map jr_row (order_asc jr_seq (filter (\<lambda>r. pj_user_id (jr_row r) = u
        \<and> (case since of None \<Rightarrow> True | Some t \<Rightarrow> t \<le> pj_served_at (jr_row r))
        \<and> (case until of None \<Rightarrow> True | Some t \<Rightarrow> pj_served_at (jr_row r) \<le> t)) (journal S)))"

section \<open>Runs of the store\<close>

datatype fa_op =
    Record_Signing_Key uuid uuid bytes time
  | Record_Acknowledgment uuid uuid string time
  | Consume_Acknowledgment uuid time
  | Mint_Challenge uuid uuid time
  | Consume_Challenge uuid uuid time
  | Record_Access access_request uuid time int
  | Outage bool

primrec fa_exec :: "fa_env \<Rightarrow> fa_op \<Rightarrow> fa_store \<Rightarrow> fa_store" where
  "fa_exec E (Record_Signing_Key i u k t) S = snd (record_signing_key E i u k t S)"
| "fa_exec E (Record_Acknowledgment n u h t) S = snd (record_acknowledgment n u h t S)"
| "fa_exec E (Consume_Acknowledgment n t) S = snd (consume_acknowledgment n t S)"
| "fa_exec E (Mint_Challenge n u t) S = snd (mint_signing_key_challenge n u t S)"
| "fa_exec E (Consume_Challenge n u t) S = snd (consume_signing_key_challenge n u t S)"
| "fa_exec E (Record_Access q i t w) S = snd (record_access E q i t w S)"
| "fa_exec E (Outage b) S = S\<lparr>fa_ok := b\<rparr>"

definition empty_fa_store :: fa_store where
  "empty_fa_store = \<lparr>signing_keys = [], acks = [], challenges = [], journal = [], fa_ok = True\<rparr>"

section \<open>Branches of the append\<close>

lemma consume_acknowledgment_frame [row_simps]:
  "journal (snd (consume_acknowledgment n t S)) = journal S"
  "signing_keys (snd (consume_acknowledgment n t S)) = signing_keys S"
  "challenges (snd (consume_acknowledgment n t S)) = challenges S"
  "fa_ok (snd (consume_acknowledgment n t S)) = fa_ok S"
  by (simp_all add: consume_acknowledgment_def)

text \<open>What the append does, said once: it fails and changes nothing, or spends the token it
  was given (if any) and adds one linked row.\<close>

definition journal_link :: "fa_env \<Rightarrow> prepared_row \<Rightarrow> fa_store \<Rightarrow> journal_row \<Rightarrow> bool" where
  "journal_link E p S r \<longleftrightarrow> jr_row r = p
     \<and> jr_seq r = (case journal_head S of None \<Rightarrow> 1 | Some l \<Rightarrow> jr_seq l + 1)
     \<and> jr_prev_hash r = file_access_journal_head S
     \<and> prepared_self_hash E p (jr_prev_hash r) = Some (jr_self_hash r)
     \<and> tier_requires_grant_and_ack p
     \<and> \<not> tbl_has (\<lambda>r. pj_access_id (jr_row r)) (pj_access_id p) (journal S)"

definition spend_opt :: "uuid option \<Rightarrow> time \<Rightarrow> fa_store \<Rightarrow> fa_store" where
  "spend_opt nonce now S =
     (case nonce of None \<Rightarrow> S | Some n \<Rightarrow> snd (consume_acknowledgment n now S))"

lemma spend_opt_frame [simp]:
  "journal (spend_opt v now S) = journal S" "signing_keys (spend_opt v now S) = signing_keys S"
  "challenges (spend_opt v now S) = challenges S" "fa_ok (spend_opt v now S) = fa_ok S"
  "journal_head (spend_opt v now S) = journal_head S"
  by (auto simp: spend_opt_def row_simps journal_head_def split: option.splits)

lemma append_file_access_disj:
  assumes "need \<longleftrightarrow> pj_acknowledgment_id p \<noteq> None"
  shows "(\<exists>e. append_file_access E p need now S = (Inl e, S))
   \<or> (\<exists>r. append_file_access E p need now S
           = (Inr (pj_access_id p), (spend_opt (pj_acknowledgment_id p) now S)\<lparr>journal := journal S @ [r]\<rparr>)
        \<and> journal_link E p S r
        \<and> (\<forall>n. pj_acknowledgment_id p = Some n \<longrightarrow> fst (consume_acknowledgment n now S)))"
proof (cases "pj_acknowledgment_id p")
  case None
  with assms have n: "pj_acknowledgment_id p = None" "need = False" by simp_all
  show ?thesis
    by (cases "prepared_self_hash E p (file_access_journal_head S)")
      (auto simp: append_file_access_def n spend_opt_def file_access_journal_head_def journal_link_def)
next
  case (Some n)
  with assms have n: "pj_acknowledgment_id p = Some n" "need = True" by simp_all
  obtain won S1 where c: "consume_acknowledgment n now S = (won, S1)" by fastforce
  then have f: "journal S1 = journal S" "fa_ok S1 = fa_ok S" "journal_head S1 = journal_head S"
    using consume_acknowledgment_frame [of n now S] by (simp_all add: journal_head_def)
  show ?thesis
    by (cases "prepared_self_hash E p (file_access_journal_head S)")
      (auto simp: append_file_access_def consume_nonce_locked_def n c f spend_opt_def
         file_access_journal_head_def journal_link_def)
qed

lemma append_file_access_cases:
  assumes "need \<longleftrightarrow> pj_acknowledgment_id p \<noteq> None"
  obtains (failed) e where "append_file_access E p need now S = (Inl e, S)"
  | (appended) r where "append_file_access E p need now S
           = (Inr (pj_access_id p), (spend_opt (pj_acknowledgment_id p) now S)\<lparr>journal := journal S @ [r]\<rparr>)"
      "journal_link E p S r"
      "\<And>n. pj_acknowledgment_id p = Some n \<Longrightarrow> fst (consume_acknowledgment n now S)"
  using append_file_access_disj [OF assms, of E now S] by blast

text \<open>The gates a request has passed when its access is recorded.\<close>

definition access_gates :: "fa_env \<Rightarrow> access_request \<Rightarrow> time \<Rightarrow> int \<Rightarrow> fa_store \<Rightarrow> bool" where
  "access_gates E q at w S \<longleftrightarrow>
     (\<exists>key retired canonical ts.
        lookup_key_for_user (rq_user_id q) (rq_fingerprint q) S = Some (key, retired)
        \<and> length key = 32 \<and> request_canonical q = Some canonical
        \<and> fe_verify E key canonical (rq_operator_signature q)
        \<and> fe_fromisoformat E (rq_sig_timestamp q) = Some ts \<and> \<bar>at - ts\<bar> \<le> w)
     \<and> (rq_tier q = NORMAL \<or> rq_grant_id q \<noteq> None \<and> rq_acknowledgment_id q \<noteq> None)"

lemma record_access_gate_disj:
  "(\<exists>e. record_access E q i at w S = (Inl e, S) \<and> \<not> access_gates E q at w S)
   \<or> (record_access E q i at w S
        = append_file_access E (request_prepared q i at) (rq_acknowledgment_id q \<noteq> None) at S
      \<and> access_gates E q at w S)"
  by (auto simp: record_access_def access_gates_def not_le split: option.splits)

lemma record_access_cases:
  obtains (failed) e where "record_access E q i at w S = (Inl e, S)"
  | (recorded) r where "record_access E q i at w S
        = (Inr i, (spend_opt (rq_acknowledgment_id q) at S)\<lparr>journal := journal S @ [r]\<rparr>)"
      "access_gates E q at w S" "journal_link E (request_prepared q i at) S r"
      "\<And>n. rq_acknowledgment_id q = Some n \<Longrightarrow> fst (consume_acknowledgment n at S)"
proof -
  have need: "(rq_acknowledgment_id q \<noteq> None) \<longleftrightarrow> pj_acknowledgment_id (request_prepared q i at) \<noteq> None"
    by (simp add: request_prepared_def)
  show thesis
    using record_access_gate_disj [of E q i at w S] append_file_access_disj [OF need, of E at S] failed recorded
    by (auto simp: request_prepared_def)
qed

section \<open>The journal is a hash chain\<close>

definition journal_pre :: "fa_env \<Rightarrow> journal_row \<Rightarrow> bytes option" where
  "journal_pre E r = map_option (\<lambda>c. c @ jr_prev_hash r) (prepared_canonical E (jr_row r))"

lemma verify_journal_loop_snoc:
  "verify_journal_loop E p (rows @ [r]) = Inr True
     \<longleftrightarrow> verify_journal_loop E p rows = Inr True
       \<and> jr_prev_hash r = chain_tip jr_self_hash p rows
       \<and> prepared_self_hash E (jr_row r) (jr_prev_hash r) = Some (jr_self_hash r)"
  by (induction rows arbitrary: p) (auto simp: chain_tip_Cons split: option.splits)

lemma chain_tip_Some: "chain_tip (\<lambda>r. Some (f r)) (Some g) rows = Some (chain_tip f g rows)"
  by (simp add: chain_tip_def)

interpretation journal: hash_chain "\<lambda>rows. verify_journal_loop E GENESIS_JOURNAL_HASH rows = Inr True"
  "\<lambda>r. Some (jr_prev_hash r)" "\<lambda>r. Some (jr_self_hash r)" "journal_pre E"
  "map_option (fe_sha256 E)" "Some GENESIS_JOURNAL_HASH" for E
proof
  show "verify_journal_loop E GENESIS_JOURNAL_HASH [] = Inr True" by simp
  show "(verify_journal_loop E GENESIS_JOURNAL_HASH (rows @ [r]) = Inr True) \<longleftrightarrow>
      verify_journal_loop E GENESIS_JOURNAL_HASH rows = Inr True
      \<and> Some (jr_prev_hash r) = chain_tip (\<lambda>r. Some (jr_self_hash r)) (Some GENESIS_JOURNAL_HASH) rows
      \<and> Some (jr_self_hash r) = map_option (fe_sha256 E) (journal_pre E r)" for rows r
    by (cases "prepared_canonical E (jr_row r)")
      (auto simp: verify_journal_loop_snoc chain_tip_Some prepared_self_hash_def journal_pre_def)
qed

section \<open>Invariant\<close>

definition nonce_spent :: "uuid \<Rightarrow> fa_store \<Rightarrow> bool" where
  "nonce_spent n S \<longleftrightarrow> (\<exists>r\<in>set (acks S). ack_nonce r = n \<and> ack_consumed_at r \<noteq> None)"

definition challenge_spent :: "uuid \<Rightarrow> fa_store \<Rightarrow> bool" where
  "challenge_spent n S \<longleftrightarrow> (\<exists>r\<in>set (challenges S). ch_nonce r = n \<and> ch_consumed_at r \<noteq> None)"

definition active_key :: "uuid \<Rightarrow> key_row \<Rightarrow> bool" where
  "active_key u r \<longleftrightarrow> kh_user_id r = u \<and> kh_retired_at r = None"

definition keys_wf :: "key_row list \<Rightarrow> bool" where
  "keys_wf ks \<longleftrightarrow> keyed kh_id ks \<and> keyed (\<lambda>r. (kh_user_id r, kh_fingerprint r)) ks
     \<and> (\<forall>u. length (filter (active_key u) ks) \<le> 1)"

definition journal_wf :: "fa_env \<Rightarrow> journal_row list \<Rightarrow> bool" where
  "journal_wf E js \<longleftrightarrow> map jr_seq js = [1..<Suc (length js)]
     \<and> keyed (\<lambda>r. pj_access_id (jr_row r)) js
     \<and> (\<forall>r\<in>set js. tier_requires_grant_and_ack (jr_row r))
     \<and> verify_journal_loop E GENESIS_JOURNAL_HASH js = Inr True"

definition journal_nonces :: "journal_row list \<Rightarrow> uuid list" where
  "journal_nonces js = List.map_filter (\<lambda>r. pj_acknowledgment_id (jr_row r)) js"

definition fa_wf :: "fa_env \<Rightarrow> fa_store \<Rightarrow> bool" where
  "fa_wf E S \<longleftrightarrow> keys_wf (signing_keys S) \<and> keyed ack_nonce (acks S) \<and> keyed ch_nonce (challenges S)
     \<and> journal_wf E (journal S) \<and> distinct (journal_nonces (journal S))
     \<and> (\<forall>n\<in>set (journal_nonces (journal S)). nonce_spent n S)"

lemma keyed_challenges_consume [simp]:
  "keyed ch_nonce (challenges (snd (consume_signing_key_challenge n u t S))) = keyed ch_nonce (challenges S)"
  by (simp add: consume_signing_key_challenge_def)

lemma keyed_acks_consume [simp]:
  "keyed ack_nonce (acks (snd (consume_acknowledgment n t S))) = keyed ack_nonce (acks S)"
  by (simp add: consume_acknowledgment_def)

lemma nonce_spent_consume:
  "nonce_spent m S \<Longrightarrow> nonce_spent m (snd (consume_acknowledgment n t S))"
  by (force simp: nonce_spent_def consume_acknowledgment_def set_tbl_update ack_live_def)

text \<open>The consume wins exactly on a row that is there, unspent and unexpired.\<close>

lemma consume_acknowledgment_won:
  assumes "keyed ack_nonce (acks S)"
  shows "fst (consume_acknowledgment n t S) \<longleftrightarrow>
     (\<exists>r\<in>set (acks S). ack_nonce r = n \<and> ack_consumed_at r = None \<and> t < ack_expires_at r)"
proof -
  have live: "ack_live n t = (\<lambda>r. ack_nonce r = n \<and> (ack_consumed_at r = None \<and> t < ack_expires_at r))"
    by (auto simp: ack_live_def)
  show ?thesis
    unfolding consume_acknowledgment_def live by (simp add: rowcount_one_iff [OF assms])
qed

lemma consume_acknowledgment_use:
  assumes "keyed ack_nonce (acks S)" and "fst (consume_acknowledgment n t S)"
  shows "\<not> nonce_spent n S \<and> nonce_spent n (snd (consume_acknowledgment n t S))"
proof -
  from assms(2) obtain r where r: "r \<in> set (acks S)" "ack_nonce r = n"
    "ack_consumed_at r = None" "t < ack_expires_at r"
    using consume_acknowledgment_won [OF assms(1)] by auto
  have "\<not> nonce_spent n S"
    unfolding nonce_spent_def using r keyed_eq [OF assms(1) r(1)] by metis
  moreover have "nonce_spent n (snd (consume_acknowledgment n t S))"
    unfolding nonce_spent_def
  proof (rule bexI)
    show "r\<lparr>ack_consumed_at := Some t\<rparr> \<in> set (acks (snd (consume_acknowledgment n t S)))"
      using r by (simp add: consume_acknowledgment_def set_tbl_update ack_live_def)
  qed (simp add: r)
  ultimately show ?thesis ..
qed

lemma challenge_spent_consume:
  "challenge_spent m S \<Longrightarrow> challenge_spent m (snd (consume_signing_key_challenge n u t S))"
  by (force simp: challenge_spent_def consume_signing_key_challenge_def set_tbl_update challenge_live_def)

lemma consume_challenge_won:
  assumes "keyed ch_nonce (challenges S)"
  shows "fst (consume_signing_key_challenge n u t S) \<longleftrightarrow>
     (\<exists>r\<in>set (challenges S). ch_nonce r = n \<and> ch_user_id r = u \<and> ch_consumed_at r = None \<and> t < ch_expires_at r)"
proof -
  have live: "challenge_live n u t
      = (\<lambda>r. ch_nonce r = n \<and> (ch_user_id r = u \<and> ch_consumed_at r = None \<and> t < ch_expires_at r))"
    by (auto simp: challenge_live_def)
  show ?thesis
    unfolding consume_signing_key_challenge_def live by (simp add: rowcount_one_iff [OF assms])
qed

lemma consume_challenge_use:
  assumes "keyed ch_nonce (challenges S)" and "fst (consume_signing_key_challenge n u t S)"
  shows "\<not> challenge_spent n S \<and> challenge_spent n (snd (consume_signing_key_challenge n u t S))"
proof -
  from assms(2) obtain r where r: "r \<in> set (challenges S)" "ch_nonce r = n" "ch_user_id r = u"
    "ch_consumed_at r = None" "t < ch_expires_at r"
    using consume_challenge_won [OF assms(1)] by auto
  have "\<not> challenge_spent n S"
    unfolding challenge_spent_def using r keyed_eq [OF assms(1) r(1)] by metis
  moreover have "challenge_spent n (snd (consume_signing_key_challenge n u t S))"
    unfolding challenge_spent_def
  proof (rule bexI)
    show "r\<lparr>ch_consumed_at := Some t\<rparr> \<in> set (challenges (snd (consume_signing_key_challenge n u t S)))"
      using r by (simp add: consume_signing_key_challenge_def set_tbl_update challenge_live_def)
  qed (simp add: r)
  ultimately show ?thesis ..
qed

lemma journal_head_last:
  assumes "journal_wf E (journal S)"
  shows "journal_head S = (if journal S = [] then None else Some (last (journal S)))"
  using assms max_on_seq [of jr_seq "journal S"] by (simp add: journal_wf_def journal_head_def del: upt_Suc)

lemma journal_head_tip:
  assumes "journal_wf E (journal S)"
  shows "file_access_journal_head S = chain_tip jr_self_hash GENESIS_JOURNAL_HASH (journal S)"
    and "(case journal_head S of None \<Rightarrow> 1 | Some l \<Rightarrow> jr_seq l + 1) = Suc (length (journal S))"
proof -
  show "file_access_journal_head S = chain_tip jr_self_hash GENESIS_JOURNAL_HASH (journal S)"
    by (simp add: file_access_journal_head_def journal_head_last [OF assms] chain_tip_def)
  have "map jr_seq (journal S) = [1..<Suc (length (journal S))]"
    using assms by (simp add: journal_wf_def)
  then show "(case journal_head S of None \<Rightarrow> 1 | Some l \<Rightarrow> jr_seq l + 1) = Suc (length (journal S))"
    by (cases "journal S" rule: rev_cases) (simp_all add: journal_head_last [OF assms])
qed

lemma journal_wf_append:
  assumes "journal_wf E (journal S)" and "journal_link E p S r"
  shows "journal_wf E (journal S @ [r])"
  using assms unfolding journal_link_def
  by (auto simp: journal_wf_def journal_head_tip [OF assms(1)] verify_journal_loop_snoc
      upt_Suc_append [symmetric] simp del: upt_Suc)

lemma journal_nonces_append [simp]:
  "journal_nonces (js @ [r])
     = journal_nonces js @ (case pj_acknowledgment_id (jr_row r) of None \<Rightarrow> [] | Some n \<Rightarrow> [n])"
  by (simp add: journal_nonces_def List.map_filter_def split: option.splits)

lemma retire_none_active:
  "filter (active_key u) (tbl_update (active_key u) (\<lambda>r. r\<lparr>kh_retired_at := Some t\<rparr>) ks) = []"
  unfolding tbl_update_def by (induction ks) (simp_all add: active_key_def)

lemma keys_wf_insert:
  assumes "keys_wf ks" and "\<not> tbl_has kh_id (kh_id row) ks'"
    and "\<not> tbl_has (\<lambda>r. (kh_user_id r, kh_fingerprint r)) (kh_user_id row, kh_fingerprint row) ks'"
    and ks': "ks' = tbl_update (active_key (kh_user_id row)) (\<lambda>r. r\<lparr>kh_retired_at := Some t\<rparr>) ks"
  shows "keys_wf (ks' @ [row])"
proof -
  have "keyed kh_id ks'" "keyed (\<lambda>r. (kh_user_id r, kh_fingerprint r)) ks'"
    using assms(1) by (simp_all add: ks' keys_wf_def)
  moreover have "length (filter (active_key u) (ks' @ [row])) \<le> 1" for u
  proof (cases "u = kh_user_id row")
    case True
    then have "filter (active_key u) ks' = []"
      by (simp add: ks' retire_none_active)
    then show ?thesis by simp
  next
    case False
    then have "filter (active_key u) ks' = filter (active_key u) ks"
      unfolding ks' tbl_update_def by (induction ks) (auto simp: active_key_def)
    with False assms(1) show ?thesis by (auto simp: keys_wf_def active_key_def)
  qed
  ultimately show ?thesis using assms(2,3) by (simp add: keys_wf_def)
qed

lemma record_signing_key_disj:
  "(\<exists>e. record_signing_key E i u k t S = (Inl e, S))
   \<or> (\<exists>ks' row. record_signing_key E i u k t S = (Inr (fingerprint E k), S\<lparr>signing_keys := ks' @ [row]\<rparr>)
        \<and> ks' = tbl_update (active_key (kh_user_id row)) (\<lambda>r. r\<lparr>kh_retired_at := Some t\<rparr>) (signing_keys S)
        \<and> row = \<lparr>kh_id = i, kh_user_id = u, kh_verifying_key = k, kh_fingerprint = fingerprint E k,
                 kh_set_at = t, kh_retired_at = None\<rparr>
        \<and> length k = 32 \<and> \<not> tbl_has kh_id (kh_id row) ks'
        \<and> \<not> tbl_has (\<lambda>r. (kh_user_id r, kh_fingerprint r)) (kh_user_id row, kh_fingerprint row) ks')"
  by (simp add: record_signing_key_def fingerprint_of_def Let_def active_key_def [abs_def])

lemma record_signing_key_cases:
  obtains (failed) e where "record_signing_key E i u k t S = (Inl e, S)"
  | (registered) ks' row where
      "record_signing_key E i u k t S = (Inr (fingerprint E k), S\<lparr>signing_keys := ks' @ [row]\<rparr>)"
      "ks' = tbl_update (active_key (kh_user_id row)) (\<lambda>r. r\<lparr>kh_retired_at := Some t\<rparr>) (signing_keys S)"
      "row = \<lparr>kh_id = i, kh_user_id = u, kh_verifying_key = k, kh_fingerprint = fingerprint E k,
               kh_set_at = t, kh_retired_at = None\<rparr>"
      "length k = 32" "\<not> tbl_has kh_id (kh_id row) ks'"
      "\<not> tbl_has (\<lambda>r. (kh_user_id r, kh_fingerprint r)) (kh_user_id row, kh_fingerprint row) ks'"
  using record_signing_key_disj [of E i u k t S] by blast

lemma fa_exec_wf:
  assumes "fa_wf E S"
  shows "fa_wf E (fa_exec E op S)"
proof (cases op)
  case (Record_Signing_Key i u k t)
  show ?thesis
  proof (cases rule: record_signing_key_cases [of E i u k t S])
    case (failed e)
    with assms show ?thesis by (simp add: Record_Signing_Key)
  next
    case (registered ks' row)
    have "keys_wf (ks' @ [row])"
      by (rule keys_wf_insert [OF _ registered(5,6,2)]) (use assms in \<open>simp add: fa_wf_def\<close>)
    with assms registered(1) show ?thesis
      by (simp add: Record_Signing_Key fa_wf_def nonce_spent_def)
  qed
next
  case (Record_Acknowledgment n u h t)
  then show ?thesis
    using assms by (auto simp: fa_wf_def record_acknowledgment_def nonce_spent_def)
next
  case (Consume_Acknowledgment n t)
  then show ?thesis
    using assms nonce_spent_consume by (simp add: fa_wf_def row_simps)
next
  case (Mint_Challenge n u t)
  then show ?thesis
    using assms by (auto simp: fa_wf_def mint_signing_key_challenge_def nonce_spent_def)
next
  case (Consume_Challenge n u t)
  then show ?thesis
    using assms keyed_challenges_consume [of n u t S]
    by (simp add: fa_wf_def consume_signing_key_challenge_def nonce_spent_def)
next
  case (Record_Access q i t w)
  show ?thesis
  proof (cases rule: record_access_cases [of E q i t w S])
    case (failed e)
    with assms show ?thesis by (simp add: Record_Access)
  next
    case (recorded r)
    have "journal_wf E (journal S @ [r])"
      using assms recorded(3) journal_wf_append by (simp add: fa_wf_def)
    moreover have "pj_acknowledgment_id (jr_row r) = rq_acknowledgment_id q"
      using recorded(3) by (simp add: journal_link_def request_prepared_def)
    ultimately show ?thesis
      using assms recorded(1,4) consume_acknowledgment_use nonce_spent_consume
      by (cases "rq_acknowledgment_id q")
        (auto simp: Record_Access fa_wf_def spend_opt_def nonce_spent_def row_simps)
  qed
next
  case (Outage b)
  then show ?thesis using assms by (simp add: fa_wf_def nonce_spent_def)
qed

lemma empty_fa_store_wf: "fa_wf E empty_fa_store"
  by (simp add: fa_wf_def empty_fa_store_def keys_wf_def journal_wf_def journal_nonces_def List.map_filter_def)

section \<open>Tokens are single-use\<close>

definition nonce_use :: "fa_env \<Rightarrow> uuid \<Rightarrow> fa_op \<Rightarrow> fa_store \<Rightarrow> bool" where
  "nonce_use E n op S \<longleftrightarrow>
     (case op of
        Consume_Acknowledgment m t \<Rightarrow> m = n \<and> fst (consume_acknowledgment m t S)
      | Record_Access q i t w \<Rightarrow>
          rq_acknowledgment_id q = Some n \<and> fst (record_access E q i t w S) = Inr i
      | _ \<Rightarrow> False)"

definition challenge_use :: "uuid \<Rightarrow> fa_op \<Rightarrow> fa_store \<Rightarrow> bool" where
  "challenge_use n op S \<longleftrightarrow>
     (case op of Consume_Challenge m u t \<Rightarrow> m = n \<and> fst (consume_signing_key_challenge m u t S)
      | _ \<Rightarrow> False)"

lemma nonce_spent_ext: "acks S' = acks S \<Longrightarrow> nonce_spent n S' = nonce_spent n S"
  by (simp add: nonce_spent_def)

lemma nonce_spent_exec:
  assumes "nonce_spent n S"
  shows "nonce_spent n (fa_exec E op S)"
proof (cases op)
  case (Record_Signing_Key i u k t)
  then show ?thesis
    by (cases rule: record_signing_key_cases [of E i u k t S])
      (use assms in \<open>simp_all add: nonce_spent_def\<close>)
next
  case (Record_Acknowledgment m u h t)
  then show ?thesis using assms by (auto simp: record_acknowledgment_def nonce_spent_def)
next
  case (Consume_Acknowledgment m t)
  then show ?thesis using assms nonce_spent_consume by simp
next
  case (Record_Access q i t w)
  show ?thesis
  proof (cases rule: record_access_cases [of E q i t w S])
    case (recorded r)
    then show ?thesis
      using assms nonce_spent_consume [OF assms]
      by (cases "rq_acknowledgment_id q") (auto simp: Record_Access spend_opt_def nonce_spent_def)
  qed (use assms in \<open>simp add: Record_Access\<close>)
qed (use assms in \<open>auto simp: nonce_spent_def mint_signing_key_challenge_def consume_signing_key_challenge_def\<close>)

lemma nonce_use_spends:
  assumes "fa_wf E S" and "nonce_use E n op S"
  shows "\<not> nonce_spent n S \<and> nonce_spent n (fa_exec E op S)"
proof -
  have k: "keyed ack_nonce (acks S)" using assms(1) by (simp add: fa_wf_def)
  show ?thesis
  proof (cases op)
    case (Consume_Acknowledgment m t)
    then show ?thesis using assms(2) consume_acknowledgment_use [OF k] by (auto simp: nonce_use_def)
  next
    case (Record_Access q i t w)
    then have use: "rq_acknowledgment_id q = Some n" "fst (record_access E q i t w S) = Inr i"
      using assms(2) by (auto simp: nonce_use_def)
    show ?thesis
    proof (cases rule: record_access_cases [of E q i t w S])
      case (failed e)
      with use show ?thesis by simp
    next
      case (recorded r)
      have "\<not> nonce_spent n S \<and> nonce_spent n (snd (consume_acknowledgment n t S))"
        using consume_acknowledgment_use [OF k] recorded(4) use(1) by simp
      then show ?thesis
        using recorded(1) use(1) by (simp add: Record_Access spend_opt_def nonce_spent_def)
    qed
  qed (use assms(2) in \<open>auto simp: nonce_use_def\<close>)
qed

interpretation nonce: single_use "fa_wf E" nonce_spent "nonce_use E" "fa_exec E" for E
  by unfold_locales (auto dest: nonce_use_spends simp: fa_exec_wf nonce_spent_exec)

lemma challenge_spent_exec:
  assumes "challenge_spent n S"
  shows "challenge_spent n (fa_exec E op S)"
proof (cases op)
  case (Record_Signing_Key i u k t)
  then show ?thesis
    by (cases rule: record_signing_key_cases [of E i u k t S])
      (use assms in \<open>simp_all add: challenge_spent_def\<close>)
next
  case (Consume_Challenge m u t)
  then show ?thesis using assms challenge_spent_consume by simp
next
  case (Record_Access q i t w)
  then show ?thesis
    by (cases rule: record_access_cases [of E q i t w S])
      (use assms in \<open>simp_all add: challenge_spent_def\<close>)
qed (use assms in \<open>auto simp: challenge_spent_def mint_signing_key_challenge_def consume_acknowledgment_def
      record_acknowledgment_def\<close>)

interpretation challenge: single_use "fa_wf E" challenge_spent challenge_use "fa_exec E" for E
proof
  show "\<not> challenge_spent k s \<and> challenge_spent k (fa_exec E a s)"
    if "fa_wf E s" "challenge_use k a s" for s k a
    using that consume_challenge_use by (auto simp: challenge_use_def fa_wf_def split: fa_op.splits)
qed (auto simp: fa_exec_wf challenge_spent_exec)

section \<open>The serialisation separates rows\<close>

definition uuid_ok :: "uuid \<Rightarrow> bool" where
  "uuid_ok u \<longleftrightarrow> u < 2 ^ 128"

definition prepared_uuids_ok :: "prepared_row \<Rightarrow> bool" where
  "prepared_uuids_ok p \<longleftrightarrow> uuid_ok (pj_access_id p) \<and> uuid_ok (pj_user_id p)
     \<and> pred_option uuid_ok (pj_audit_event_id p) \<and> pred_option uuid_ok (pj_grant_id p)
     \<and> pred_option uuid_ok (pj_acknowledgment_id p)"

lemma uuid_bytes_inj: "uuid_bytes u = uuid_bytes v \<Longrightarrow> uuid_ok u \<Longrightarrow> uuid_ok v \<Longrightarrow> u = v"
  using be_bytes_inj [of 16 u v] by (simp add: uuid_bytes_def uuid_ok_def)

lemma uuid_opt_bytes_inj:
  "uuid_opt_bytes u = uuid_opt_bytes v \<Longrightarrow> pred_option uuid_ok u \<Longrightarrow> pred_option uuid_ok v \<Longrightarrow> u = v"
  by (cases u; cases v) (auto simp: uuid_opt_bytes_def uuid_bytes_def dest: uuid_bytes_inj [unfolded uuid_bytes_def])

lemma tier_name_inj: "tier_name a = tier_name b \<Longrightarrow> a = b"
  by (cases a; cases b) simp_all

lemma served_via_name_inj: "served_via_name a = served_via_name b \<Longrightarrow> a = b"
  by (cases a; cases b) simp_all

lemma prepared_canonical_prefix_free:
  assumes "prepared_canonical E p = Some v" and "prepared_canonical E q = Some w" and "v @ r = w @ s"
    and "prepared_uuids_ok p" and "prepared_uuids_ok q"
    and "fe_isoformat E (pj_served_at p) = fe_isoformat E (pj_served_at q) \<Longrightarrow> pj_served_at p = pj_served_at q"
  shows "p = q \<and> r = s"
proof -
  note sep = journal_canonical_prefix_free [OF assms(1,2) [unfolded prepared_canonical_def] assms(3)]
  have "pj_access_id p = pj_access_id q" "pj_user_id p = pj_user_id q"
    "pj_audit_event_id p = pj_audit_event_id q" "pj_grant_id p = pj_grant_id q"
    "pj_acknowledgment_id p = pj_acknowledgment_id q"
    using sep assms(4,5) uuid_bytes_inj uuid_opt_bytes_inj unfolding prepared_uuids_ok_def by blast+
  moreover have "pj_tier p = pj_tier q" "pj_served_via p = pj_served_via q" "pj_served_at p = pj_served_at q"
    using sep assms(6) tier_name_inj served_via_name_inj by blast+
  ultimately show ?thesis using sep by (cases p; cases q) simp
qed

lemma record_access_completes:
  assumes "fa_wf E S" and "access_gates E q at w S" and "fa_ok S"
    and "\<not> tbl_has (\<lambda>r. pj_access_id (jr_row r)) i (journal S)"
    and "prepared_canonical E (request_prepared q i at) \<noteq> None"
    and "\<And>n. rq_acknowledgment_id q = Some n \<Longrightarrow>
           \<exists>r\<in>set (acks S). ack_nonce r = n \<and> ack_consumed_at r = None \<and> at < ack_expires_at r"
  shows "fst (record_access E q i at w S) = Inr i"
proof -
  have p: "pj_acknowledgment_id (request_prepared q i at) = rq_acknowledgment_id q"
    "pj_access_id (request_prepared q i at) = i"
    by (simp_all add: request_prepared_def)
  have tier: "tier_requires_grant_and_ack (request_prepared q i at)"
    using assms(2) by (auto simp: access_gates_def tier_requires_grant_and_ack_def request_prepared_def)
  have to_append: "record_access E q i at w S
      = append_file_access E (request_prepared q i at) (rq_acknowledgment_id q \<noteq> None) at S"
    using record_access_gate_disj assms(2) by blast
  obtain c where c: "prepared_canonical E (request_prepared q i at) = Some c"
    using assms(5) by blast
  have won: "fst (consume_acknowledgment n at S)" if "rq_acknowledgment_id q = Some n" for n
    using assms(1,6) that consume_acknowledgment_won by (auto simp: fa_wf_def)
  show ?thesis
  proof (cases "rq_acknowledgment_id q")
    case None
    then show ?thesis
      using assms(3,4) tier p c
      by (simp add: to_append append_file_access_def prepared_self_hash_def Let_def)
  next
    case (Some n)
    obtain S1 where S1: "consume_acknowledgment n at S = (True, S1)"
      using won [OF Some] by (metis (full_types) prod.collapse)
    then have "journal S1 = journal S" "fa_ok S1 = fa_ok S"
      using consume_acknowledgment_frame [of n at S] by simp_all
    then show ?thesis
      using Some S1 assms(3,4) tier p c
      by (simp add: to_append append_file_access_def consume_nonce_locked_def prepared_self_hash_def Let_def)
  qed
qed

section \<open>Properties\<close>

text \<open>C3: a recording is all or nothing. Either it raises and the store is as before, or the key
  was registered to this user, the signature over the rebuilt request verified, the timestamp
  was fresh and the tier had its grant and token; then exactly one row was added, holding the
  request and linked to the head, and exactly the token it named was spent.\<close>

theorem record_access_all_or_nothing:
  "(\<exists>e. record_access E q i at w S = (Inl e, S))
   \<or> (\<exists>r. record_access E q i at w S
          = (Inr i, (spend_opt (rq_acknowledgment_id q) at S)\<lparr>journal := journal S @ [r]\<rparr>)
        \<and> access_gates E q at w S
        \<and> journal_link E (request_prepared q i at) S r
        \<and> (\<forall>n. rq_acknowledgment_id q = Some n \<longrightarrow> fst (consume_acknowledgment n at S)))"
  by (cases rule: record_access_cases [of E q i at w S]) blast+

text \<open>C7: and it does record. In a well-formed store whose database accepts writes, a request that passes the gates,
  has a fresh access id, fits the length-prefixed frames of the canonical form and names a live token (or needs none) is
  journalled: the call returns its id, exactly one row is appended, the row holds the request and is linked to the head of
  the journal, the named token is spent and nothing else changes.\<close>

theorem record_access_succeeds:
  assumes "fa_wf E S" and "access_gates E q at w S" and "fa_ok S"
    and "\<not> tbl_has (\<lambda>r. pj_access_id (jr_row r)) i (journal S)"
    and "prepared_canonical E (request_prepared q i at) \<noteq> None"
    and "\<And>n. rq_acknowledgment_id q = Some n \<Longrightarrow>
           \<exists>r\<in>set (acks S). ack_nonce r = n \<and> ack_consumed_at r = None \<and> at < ack_expires_at r"
  shows "\<exists>r. record_access E q i at w S
        = (Inr i, (spend_opt (rq_acknowledgment_id q) at S)\<lparr>journal := journal S @ [r]\<rparr>)
      \<and> jr_row r = request_prepared q i at \<and> jr_prev_hash r = file_access_journal_head S
      \<and> prepared_self_hash E (request_prepared q i at) (jr_prev_hash r) = Some (jr_self_hash r)
      \<and> (\<forall>n. rq_acknowledgment_id q = Some n \<longrightarrow> fst (consume_acknowledgment n at S))"
proof (cases rule: record_access_cases [of E q i at w S])
  case (failed e)
  then show ?thesis using record_access_completes [OF assms] by simp
next
  case (recorded r)
  note l = recorded(3) [unfolded journal_link_def]
  show ?thesis by (intro exI [of _ r] conjI allI impI recorded(1,4)) (use l in blast)+
qed

text \<open>C4: whatever operations run, in whatever order, the journal verifies, no two of its rows
  carry the same token, every restricted or classified row names its grant and its token, and
  every user has at most one active key.\<close>

theorem file_access_invariant:
  "let S = fold (fa_exec E) ops empty_fa_store in
     verify_file_access_chain E S = Inr True
     \<and> distinct (journal_nonces (journal S))
     \<and> (\<forall>r\<in>set (journal S). pj_tier (jr_row r) = NORMAL
           \<or> pj_grant_id (jr_row r) \<noteq> None \<and> pj_acknowledgment_id (jr_row r) \<noteq> None)
     \<and> (\<forall>u. length (filter (\<lambda>r. kh_user_id r = u \<and> kh_retired_at r = None) (signing_keys S)) \<le> 1)"
proof -
  define S where "S = fold (fa_exec E) ops empty_fa_store"
  have wf: "fa_wf E S"
    unfolding S_def by (rule nonce.fold_inv [OF empty_fa_store_wf])
  then have j: "journal_wf E (journal S)" by (simp add: fa_wf_def)
  then have "sorted (map jr_seq (journal S))" by (simp add: journal_wf_def del: upt_Suc)
  with j have "verify_file_access_chain E S = Inr True"
    by (simp add: verify_file_access_chain_def order_asc_sorted_id) (simp add: journal_wf_def)
  with wf show ?thesis
    by (simp add: S_def [symmetric] Let_def fa_wf_def journal_wf_def keys_wf_def active_key_def [abs_def]
        tier_requires_grant_and_ack_def)
qed

text \<open>C5: an acknowledgment nonce is used at most once over any run, counting the direct consume
  and the recording of an access together; the same holds of a registration challenge.\<close>

theorem tokens_single_use:
  "use_count (nonce_use E) (fa_exec E) n ops (fold (fa_exec E) before empty_fa_store) \<le> 1
   \<and> use_count challenge_use (fa_exec E) n ops (fold (fa_exec E) before empty_fa_store) \<le> 1"
  using nonce.used_at_most_once challenge.used_at_most_once nonce.fold_inv [OF empty_fa_store_wf]
  by blast

text \<open>Rotation. After a key is registered it is the user's active key, every key the user
  held before still resolves and is now retired, and no other user's keys change.\<close>

lemma signing_key_rotation:
  assumes "fa_wf E S" and "fst (record_signing_key E i u k t S) = Inr fp"
  defines "S' \<equiv> snd (record_signing_key E i u k t S)"
  shows "active_signing_key_for u S' = Some k
    \<and> lookup_key_for_user u fp S' = Some (k, False)
    \<and> (\<forall>fp0 k0 b. lookup_key_for_user u fp0 S = Some (k0, b) \<longrightarrow> lookup_key_for_user u fp0 S' = Some (k0, True))
    \<and> (\<forall>v fp0. v \<noteq> u \<longrightarrow> lookup_key_for_user v fp0 S' = lookup_key_for_user v fp0 S)"
proof -
  obtain ks' row where reg: "record_signing_key E i u k t S = (Inr (fingerprint E k), S\<lparr>signing_keys := ks' @ [row]\<rparr>)"
    and ks': "ks' = tbl_update (active_key u) (\<lambda>r. r\<lparr>kh_retired_at := Some t\<rparr>) (signing_keys S)"
    and row: "row = \<lparr>kh_id = i, kh_user_id = u, kh_verifying_key = k, kh_fingerprint = fingerprint E k,
               kh_set_at = t, kh_retired_at = None\<rparr>"
    and fresh: "\<not> tbl_has (\<lambda>r. (kh_user_id r, kh_fingerprint r)) (u, fingerprint E k) ks'"
  proof (cases rule: record_signing_key_cases [of E i u k t S])
    case (failed e)
    with assms(2) show ?thesis by simp
  next
    case (registered ks' row)
    then have "kh_user_id row = u" "kh_fingerprint row = fingerprint E k" by simp_all
    with registered that show ?thesis by metis
  qed
  have fp: "fp = fingerprint E k" using assms(2) reg by simp
  have S': "signing_keys S' = ks' @ [row]" by (simp add: S'_def reg)
  have "filter (\<lambda>r. kh_user_id r = u \<and> kh_retired_at r = None) ks' = []"
    using retire_none_active [of u t "signing_keys S"] by (simp add: ks' active_key_def [abs_def])
  then have active: "active_signing_key_for u S' = Some k"
    by (simp add: active_signing_key_for_def S' row order_desc_def)
  have "find (\<lambda>r. kh_user_id r = u \<and> kh_fingerprint r = fingerprint E k) ks' = None"
    using fresh unfolding find_None_iff_all tbl_has_def image_iff prod.inject by metis
  then have new: "lookup_key_for_user u fp S' = Some (k, False)"
    by (simp add: lookup_key_for_user_def S' find_append row fp)
  have find': "find (\<lambda>r. kh_user_id r = v \<and> kh_fingerprint r = fp0) ks'
     = map_option (\<lambda>r. if active_key u r then r\<lparr>kh_retired_at := Some t\<rparr> else r)
         (find (\<lambda>r. kh_user_id r = v \<and> kh_fingerprint r = fp0) (signing_keys S))" for v fp0
    unfolding ks' by (rule find_tbl_update) simp
  have old: "lookup_key_for_user u fp0 S' = Some (k0, True)"
    if "lookup_key_for_user u fp0 S = Some (k0, b)" for fp0 k0 b
  proof -
    from that obtain r where r: "find (\<lambda>r. kh_user_id r = u \<and> kh_fingerprint r = fp0) (signing_keys S) = Some r"
      and k0: "kh_verifying_key r = k0" by (auto simp: lookup_key_for_user_def)
    then have "kh_user_id r = u" using find_SomeD by fastforce
    with r k0 show ?thesis
      by (simp add: lookup_key_for_user_def S' find_append find' active_key_def)
  qed
  have other: "lookup_key_for_user v fp0 S' = lookup_key_for_user v fp0 S" if "v \<noteq> u" for v fp0
  proof (cases "find (\<lambda>r. kh_user_id r = v \<and> kh_fingerprint r = fp0) (signing_keys S)")
    case None
    with that show ?thesis by (simp add: lookup_key_for_user_def S' find_append find' row)
  next
    case (Some r)
    then have "kh_user_id r = v" using find_SomeD by fastforce
    with that Some show ?thesis
      by (simp add: lookup_key_for_user_def S' find_append find' active_key_def)
  qed
  show ?thesis using active new old other by blast
qed

definition walked :: "fa_store \<Rightarrow> journal_row list" where
  "walked S = order_asc jr_seq (journal S)"

definition no_seq :: "journal_row \<Rightarrow> journal_row" where
  "no_seq r = r\<lparr>jr_seq := 0\<rparr>"

lemma no_seq_simps [simp]:
  "jr_row (no_seq r) = jr_row r" "jr_prev_hash (no_seq r) = jr_prev_hash r"
  "jr_self_hash (no_seq r) = jr_self_hash r" "journal_pre E (no_seq r) = journal_pre E r"
  by (simp_all add: no_seq_def journal_pre_def)

lemma verify_journal_loop_no_seq: "verify_journal_loop E p (map no_seq rows) = verify_journal_loop E p rows"
  by (induction rows arbitrary: p) (auto split: option.split)

lemma chain_tip_no_seq: "chain_tip jr_self_hash g (map no_seq rows) = chain_tip jr_self_hash g rows"
  by (simp add: chain_tip_def last_map)

text \<open>C6: tamper evidence of the journal. Two journals that verify and end in the same hash hold
  the same accesses in the same order, if SHA-256 has no collision among their preimages and
  none of them hashes to the genesis seed. That different rows have different preimages is
  not assumed: the framing proves it, for 128-bit identifiers and a faithful \<open>isoformat\<close>.\<close>

theorem journal_tamper_evident:
  assumes "verify_file_access_chain E S = Inr True" and "verify_file_access_chain E S' = Inr True"
    and tip: "chain_tip jr_self_hash GENESIS_JOURNAL_HASH (walked S)
            = chain_tip jr_self_hash GENESIS_JOURNAL_HASH (walked S')"
    and sha: "inj_on (fe_sha256 E) {b. Some b \<in> journal_pre E ` (set (journal S) \<union> set (journal S'))}"
    and gen: "\<And>b. Some b \<in> journal_pre E ` (set (journal S) \<union> set (journal S')) \<Longrightarrow> fe_sha256 E b \<noteq> GENESIS_JOURNAL_HASH"
    and uuids: "\<And>r. r \<in> set (journal S) \<union> set (journal S') \<Longrightarrow> prepared_uuids_ok (jr_row r)"
    and iso: "\<And>s t. fe_isoformat E s = fe_isoformat E t \<Longrightarrow> s = t"
  shows "map jr_row (walked S) = map jr_row (walked S')"
proof -
  let ?N = "no_seq ` (set (journal S) \<union> set (journal S'))"
  have ok: "verify_journal_loop E GENESIS_JOURNAL_HASH (map no_seq (walked S)) = Inr True"
    "verify_journal_loop E GENESIS_JOURNAL_HASH (map no_seq (walked S')) = Inr True"
    using assms(1,2) by (simp_all add: verify_journal_loop_no_seq verify_file_access_chain_def walked_def)
  have pre: "journal_pre E ` ?N = journal_pre E ` (set (journal S) \<union> set (journal S'))"
    by (simp add: image_comp comp_def)
  \<comment> \<open>a row whose canonical form cannot be framed is in no verified journal\<close>
  have framed: "\<exists>c. prepared_canonical E (jr_row r) = Some c" if "r \<in> ?N" for r
  proof -
    from that have "r \<in> set (map no_seq (walked S)) \<union> set (map no_seq (walked S'))"
      by (auto simp: walked_def)
    then have "Some (jr_self_hash r) = map_option (fe_sha256 E) (journal_pre E r)"
      using journal.ok_mem [OF ok(1)] journal.ok_mem [OF ok(2)] by blast
    then show ?thesis by (cases "prepared_canonical E (jr_row r)") (auto simp: journal_pre_def)
  qed
  have sep: "jr_row r = jr_row s \<and> jr_prev_hash r = jr_prev_hash s"
    if rs: "r \<in> ?N" "s \<in> ?N" "journal_pre E r = journal_pre E s" for r s
  proof -
    obtain c where c: "prepared_canonical E (jr_row r) = Some c" using framed [OF rs(1)] by blast
    obtain d where d: "prepared_canonical E (jr_row s) = Some d" using framed [OF rs(2)] by blast
    have "c @ jr_prev_hash r = d @ jr_prev_hash s" using rs(3) c d by (simp add: journal_pre_def)
    moreover have "prepared_uuids_ok (jr_row r)" "prepared_uuids_ok (jr_row s)" using rs(1,2) uuids by auto
    ultimately show ?thesis using prepared_canonical_prefix_free [OF c d] iso by blast
  qed
  have "map no_seq (walked S) = map no_seq (walked S')"
  proof (rule journal.same_tip_same_chain [OF ok, where R = ?N])
    show "set (map no_seq (walked S)) \<subseteq> ?N" "set (map no_seq (walked S')) \<subseteq> ?N"
      by (auto simp: walked_def)
    show "chain_tip (\<lambda>r. Some (jr_self_hash r)) (Some GENESIS_JOURNAL_HASH) (map no_seq (walked S))
        = chain_tip (\<lambda>r. Some (jr_self_hash r)) (Some GENESIS_JOURNAL_HASH) (map no_seq (walked S'))"
      by (simp add: chain_tip_Some chain_tip_no_seq tip)
    show "inj_on (map_option (fe_sha256 E)) (journal_pre E ` ?N)"
    proof (rule inj_onI)
      fix x y
      assume xy: "x \<in> journal_pre E ` ?N" "y \<in> journal_pre E ` ?N"
        and eq: "map_option (fe_sha256 E) x = map_option (fe_sha256 E) y"
      show "x = y"
        using xy eq inj_onD [OF sha] unfolding pre by (cases x; cases y) auto
    qed
    show "Some GENESIS_JOURNAL_HASH \<notin> map_option (fe_sha256 E) ` journal_pre E ` ?N"
    proof
      assume "Some GENESIS_JOURNAL_HASH \<in> map_option (fe_sha256 E) ` journal_pre E ` ?N"
      then obtain x where x: "x \<in> journal_pre E ` ?N" "Some GENESIS_JOURNAL_HASH = map_option (fe_sha256 E) x"
        by blast
      then obtain b where "x = Some b" "GENESIS_JOURNAL_HASH = fe_sha256 E b" by (cases x) auto
      with x(1) gen show False unfolding pre by metis
    qed
    show "Some (jr_prev_hash r) = Some (jr_prev_hash s)"
      if "r \<in> ?N" "s \<in> ?N" "journal_pre E r = journal_pre E s" for r s
      using sep [OF that] by simp
    show "r = s" if "r \<in> ?N" "s \<in> ?N" "journal_pre E r = journal_pre E s"
      "Some (jr_self_hash r) = Some (jr_self_hash s)" for r s
    proof -
      have "jr_seq r = 0" "jr_seq s = 0" using that(1,2) by (auto simp: no_seq_def)
      with sep [OF that(1-3)] that(4) show ?thesis by (cases r; cases s) simp
    qed
  qed
  then have "map jr_row (map no_seq (walked S)) = map jr_row (map no_seq (walked S'))" by (rule arg_cong)
  then show ?thesis by (simp add: comp_def)
qed

section \<open>Witnesses\<close>

text \<open>
  A registered key, a minted nonce and two signed accesses, one of them classified. The hash
  prefixes a byte, a signature is the canonical form itself.
\<close>

definition example_fa_env :: fa_env where
  "example_fa_env = \<lparr>fe_sha256 = (\<lambda>b. 1 # b), fe_der_spki = (\<lambda>k. k),
     fe_verify = (\<lambda>k c s. s = k @ c), fe_isoformat = int_str,
     fe_fromisoformat = (\<lambda>s. if s = ''5'' then Some 5 else None)\<rparr>"

definition example_key :: bytes where
  "example_key = replicate 32 7"

definition example_request :: "sensitivity_tier \<Rightarrow> uuid option \<Rightarrow> access_request" where
  "example_request tier ack =
     \<lparr>rq_user_id = 1, rq_audit_event_id = None, rq_grant_id = Some 4, rq_acknowledgment_id = ack,
      rq_content_hash = [1, 2], rq_content_size = 2, rq_content_mime = ''a'', rq_tier = tier,
      rq_served_via = INLINE_JSON, rq_fingerprint = bytes_hex (1 # replicate 7 7),
      rq_operator_signature = example_key @ the (build_canonical ''P'' ''u'' ''r'' ''5'' ''b'' (bytes_hex [1, 2])),
      rq_sig_method = ''P'', rq_sig_url = ''u'', rq_sig_request_id = ''r'', rq_sig_timestamp = ''5'',
      rq_sig_body_hash = ''b''\<rparr>"

definition example_fa_ops :: "fa_op list" where
  "example_fa_ops = [Record_Signing_Key 3 1 example_key 0, Record_Acknowledgment 11 1 ''0102'' 0]"

definition example_fa_store :: fa_store where
  "example_fa_store = fold (fa_exec example_fa_env) example_fa_ops empty_fa_store"

lemma example_fa_store_eq:
  "example_fa_store =
     \<lparr>signing_keys = [\<lparr>kh_id = 3, kh_user_id = 1, kh_verifying_key = example_key,
        kh_fingerprint = bytes_hex (1 # replicate 7 7), kh_set_at = 0, kh_retired_at = None\<rparr>],
      acks = [\<lparr>ack_nonce = 11, ack_user_id = 1, ack_content_hash = ''0102'', ack_issued_at = 0,
        ack_expires_at = 60000000, ack_consumed_at = None\<rparr>],
      challenges = [], journal = [], fa_ok = True\<rparr>"
  by (simp add: example_fa_store_def example_fa_ops_def empty_fa_store_def record_signing_key_def
      fingerprint_of_def fingerprint_def example_key_def example_fa_env_def tbl_has_def tbl_update_def
      record_acknowledgment_def ACK_TTL_def seconds_def Let_def eval_nat_numeral)

lemma example_fa_store_wf: "fa_wf example_fa_env example_fa_store"
  unfolding example_fa_store_def by (rule nonce.fold_inv [OF empty_fa_store_wf])

lemma utf8_short: "length s < 100 \<Longrightarrow> length (utf8 s) < 4294967296"
  using length_utf8_le [of s] by simp

lemma example_canonical: "request_canonical (example_request tier ack) \<noteq> None"
  by (simp add: request_canonical_def build_canonical_def frame_all_Some_iff SIG_SCHEME_def
      example_request_def utf8_short del: enc_all.simps)

lemma example_canonical_length:
  assumes "build_canonical ''P'' ''u'' ''r'' ''5'' ''b'' (bytes_hex [1, 2]) = Some c"
  shows "length c < 200"
  using length_frame_all [OF assms [unfolded build_canonical_def]]
    length_utf8_le [of "''P''"] length_utf8_le [of "''u''"] length_utf8_le [of "''r''"]
    length_utf8_le [of "''5''"] length_utf8_le [of "''b''"] length_utf8_le [of "bytes_hex [1, 2]"]
    length_utf8_le [of "''EYENET-SIG-v1''"]
  by (simp add: SIG_SCHEME_def)

lemma example_gates: "access_gates example_fa_env (example_request CLASSIFIED (Some 11)) 6 9 example_fa_store"
proof -
  obtain c where c: "request_canonical (example_request CLASSIFIED (Some 11)) = Some c"
    using example_canonical by blast
  then have b: "build_canonical ''P'' ''u'' ''r'' ''5'' ''b'' (bytes_hex [1, 2]) = Some c"
    by (simp add: request_canonical_def example_request_def)
  have look: "lookup_key_for_user (rq_user_id (example_request CLASSIFIED (Some 11)))
      (rq_fingerprint (example_request CLASSIFIED (Some 11))) example_fa_store = Some (example_key, False)"
    by (simp add: lookup_key_for_user_def example_fa_store_eq example_request_def)
  show ?thesis
    unfolding access_gates_def
    by (rule conjI, intro exI conjI, rule look, (rule c | simp add: example_request_def example_fa_env_def example_key_def b)+)
qed

lemma example_prepared:
  "prepared_canonical example_fa_env (request_prepared (example_request CLASSIFIED (Some 11)) 21 6) \<noteq> None"
proof -
  obtain c where "request_canonical (example_request CLASSIFIED (Some 11)) = Some c"
    using example_canonical by blast
  then have b: "build_canonical ''P'' ''u'' ''r'' ''5'' ''b'' (bytes_hex [1, 2]) = Some c"
    by (simp add: request_canonical_def example_request_def)
  show ?thesis
    using example_canonical_length [OF b]
    by (simp add: prepared_canonical_def request_prepared_def build_journal_row_canonical_def
        frame_all_Some_iff example_request_def b example_key_def example_fa_env_def uuid_bytes_def
        uuid_opt_bytes_def JOURNAL_ROW_SCHEME_def int_str_def nat_str.simps utf8_short del: enc_all.simps)
qed

lemma example_live:
  "rq_acknowledgment_id (example_request CLASSIFIED (Some 11)) = Some n \<Longrightarrow>
     \<exists>r\<in>set (acks example_fa_store). ack_nonce r = n \<and> ack_consumed_at r = None \<and> 6 < ack_expires_at r"
  by (simp add: example_fa_store_eq example_request_def)

lemma example_rest:
  "fa_ok example_fa_store" "\<not> tbl_has (\<lambda>r. pj_access_id (jr_row r)) 21 (journal example_fa_store)"
  by (simp_all add: example_fa_store_eq tbl_has_def)

lemmas example_access =
  record_access_completes [OF example_fa_store_wf example_gates example_rest example_prepared example_live]

theorem record_access_succeeds_witness:
  "\<exists>r. record_access example_fa_env (example_request CLASSIFIED (Some 11)) 21 6 9 example_fa_store
      = (Inr 21, (spend_opt (Some 11) 6 example_fa_store)\<lparr>journal := [r]\<rparr>)
    \<and> jr_row r = request_prepared (example_request CLASSIFIED (Some 11)) 21 6"
proof -
  have j: "journal example_fa_store = []" and n: "rq_acknowledgment_id (example_request CLASSIFIED (Some 11)) = Some 11"
    by (simp_all add: example_request_def example_fa_store_eq)
  show ?thesis
    using record_access_succeeds [OF example_fa_store_wf example_gates example_rest example_prepared example_live]
    unfolding n j append_Nil by blast
qed

theorem record_access_all_or_nothing_witness:
  "\<exists>r. record_access example_fa_env (example_request CLASSIFIED (Some 11)) 21 6 9 example_fa_store
      = (Inr 21, (spend_opt (Some 11) 6 example_fa_store)\<lparr>journal := [r]\<rparr>)
    \<and> pj_tier (jr_row r) = CLASSIFIED \<and> jr_prev_hash r = GENESIS_JOURNAL_HASH"
  using record_access_all_or_nothing
      [of example_fa_env "example_request CLASSIFIED (Some 11)" 21 6 9 example_fa_store] example_access
  by (auto simp: journal_link_def request_prepared_def example_request_def example_fa_store_eq
      file_access_journal_head_def journal_head_def)

definition example_fa_run :: "fa_op list" where
  "example_fa_run = example_fa_ops @ [Record_Access (example_request CLASSIFIED (Some 11)) 21 6 9]"

lemma example_fa_run_journal:
  "length (journal (fold (fa_exec example_fa_env) example_fa_run empty_fa_store)) = 1"
proof (cases rule: record_access_cases [of example_fa_env "example_request CLASSIFIED (Some 11)" 21 6 9 example_fa_store])
  case (failed e)
  with example_access show ?thesis by simp
next
  case (recorded r)
  then show ?thesis
    by (simp add: example_fa_run_def example_fa_store_def [symmetric] example_fa_store_eq)
qed

theorem file_access_invariant_witness:
  "verify_file_access_chain example_fa_env (fold (fa_exec example_fa_env) example_fa_run empty_fa_store) = Inr True
   \<and> length (journal (fold (fa_exec example_fa_env) example_fa_run empty_fa_store)) = 1"
  using file_access_invariant [of example_fa_env example_fa_run] example_fa_run_journal
  by (simp add: Let_def)

text \<open>Two journals built by different runs, told equal by their head.\<close>

definition example_other_run :: "fa_op list" where
  "example_other_run = example_fa_ops @ [Outage True, Record_Access (example_request CLASSIFIED (Some 11)) 21 6 9]"

theorem journal_tamper_evident_witness:
  "let S = fold (fa_exec example_fa_env) example_fa_run empty_fa_store;
       S' = (fold (fa_exec example_fa_env) example_other_run empty_fa_store)\<lparr>acks := []\<rparr>
   in S \<noteq> S' \<and> map jr_row (walked S) = map jr_row (walked S')"
proof -
  define S where "S = fold (fa_exec example_fa_env) example_fa_run empty_fa_store"
  define S' where "S' = (fold (fa_exec example_fa_env) example_other_run empty_fa_store)\<lparr>acks := []\<rparr>"
  have same: "fold (fa_exec example_fa_env) example_other_run empty_fa_store = S"
    by (simp add: S_def example_fa_run_def example_other_run_def example_fa_store_def [symmetric] example_fa_store_eq)
  have wf: "fa_wf example_fa_env S" unfolding S_def by (rule nonce.fold_inv [OF empty_fa_store_wf])
  then have j: "journal_wf example_fa_env (journal S)" by (simp add: fa_wf_def)
  then have sorted: "sorted (map jr_seq (journal S))" by (simp add: journal_wf_def del: upt_Suc)
  with j have ok: "verify_file_access_chain example_fa_env S = Inr True"
    by (simp add: verify_file_access_chain_def order_asc_sorted_id) (simp add: journal_wf_def)
  have js: "journal S' = journal S" by (simp add: S'_def same)
  obtain r where r: "journal S = [r]" and row: "jr_row r = request_prepared (example_request CLASSIFIED (Some 11)) 21 6"
    and acks: "acks S \<noteq> []"
  proof (cases rule: record_access_cases [of example_fa_env "example_request CLASSIFIED (Some 11)" 21 6 9 example_fa_store])
    case (failed e)
    with example_access show ?thesis by simp
  next
    case (recorded r)
    then have "jr_row r = request_prepared (example_request CLASSIFIED (Some 11)) 21 6" by (simp add: journal_link_def)
    with recorded(1) that [of r] show ?thesis
      by (simp add: S_def example_fa_run_def example_fa_store_def [symmetric] example_fa_store_eq
          spend_opt_def example_request_def consume_acknowledgment_def tbl_update_def)
  qed
  have "map jr_row (walked S) = map jr_row (walked S')"
  proof (rule journal_tamper_evident [where E = example_fa_env])
    show "prepared_uuids_ok (jr_row x)" if "x \<in> set (journal S) \<union> set (journal S')" for x
      using that by (simp add: js r row prepared_uuids_ok_def request_prepared_def example_request_def uuid_ok_def)
    show "verify_file_access_chain example_fa_env S' = Inr True"
      using ok by (simp add: verify_file_access_chain_def js)
    show "fe_sha256 example_fa_env b \<noteq> GENESIS_JOURNAL_HASH" for b
      by (simp add: example_fa_env_def GENESIS_JOURNAL_HASH_def eval_nat_numeral)
  qed (use ok int_str_inj in \<open>auto simp: walked_def js example_fa_env_def\<close>)
  moreover have "S \<noteq> S'" using acks by (auto simp: S'_def)
  ultimately show ?thesis by (simp add: S_def S'_def Let_def)
qed

end
