(* ===== verification/Reclassify.thy ===== *)
theory Reclassify
  imports Clearance File_Access
begin

text \<open>
  Operator reclassification of evidence: the monotone promotion of
  \<open>sqlmodel_repo/observations.py\<close>, \<open>attachments.py\<close> and \<open>documents.py\<close>, the classifier's own
  tier writes, and the handler core \<open>api/v1/reclassify/_common.py\<close> that demands a live grant
  and an operator signature. Of the rows only the tier columns and the content hash are kept.
\<close>

section \<open>Rows\<close>

record tier_row =
  tr_id :: uuid
  tr_sha256 :: string
  tr_classifier_tier :: sensitivity_tier
  tr_override :: "sensitivity_tier option"

record reclass_store =
  rc_observations :: "tier_row list"
  rc_attachments :: "tier_row list"
  rc_documents :: "tier_row list"
  rc_audit :: audit_store

definition effective_tier :: "tier_row \<Rightarrow> sensitivity_tier" where
  "effective_tier r = (case tr_override r of None \<Rightarrow> tr_classifier_tier r | Some t \<Rightarrow> t)"

text \<open>\<open>TIER_MONOTONE_CK\<close>, the CHECK of the three tables.\<close>

definition tier_monotone_ck :: "tier_row \<Rightarrow> bool" where
  "tier_monotone_ck r \<longleftrightarrow>
     (case tr_override r of None \<Rightarrow> True | Some t \<Rightarrow> TIER_RANK (tr_classifier_tier r) \<le> TIER_RANK t)"

primrec rc_table :: "reclassification_subject_kind \<Rightarrow> reclass_store \<Rightarrow> tier_row list" where
  "rc_table Recl_OBSERVATION S = rc_observations S"
| "rc_table Recl_ATTACHMENT S = rc_attachments S"
| "rc_table Recl_DOCUMENT S = rc_documents S"

primrec rc_put :: "reclassification_subject_kind \<Rightarrow> tier_row list \<Rightarrow> reclass_store \<Rightarrow> reclass_store" where
  "rc_put Recl_OBSERVATION rows S = S\<lparr>rc_observations := rows\<rparr>"
| "rc_put Recl_ATTACHMENT rows S = S\<lparr>rc_attachments := rows\<rparr>"
| "rc_put Recl_DOCUMENT rows S = S\<lparr>rc_documents := rows\<rparr>"

section \<open>The promotion\<close>

record reclass_args =
  ra_subject_id :: uuid
  ra_new_tier :: sensitivity_tier
  ra_user_id :: uuid
  ra_reason :: string
  ra_grant_id :: uuid
  ra_fingerprint :: string
  ra_viewing_context :: "string option"
  ra_case_refs :: "uuid list"

record reclass_outcome =
  ro_prior_effective_tier :: sensitivity_tier
  ro_classifier_tier :: sensitivity_tier
  ro_override :: "sensitivity_tier option"
  ro_effective_tier :: sensitivity_tier
  ro_reclassified_at :: time
  ro_audit_event_id :: "uuid option"

definition hash_field :: "reclassification_subject_kind \<Rightarrow> tier_row \<Rightarrow> (string \<times> jval) list" where
  "hash_field kind row =
     (if kind = Recl_OBSERVATION then [] else [(''content_hash'', JStr (tr_sha256 row))])"

definition rejection_payload ::
  "reclassification_subject_kind \<Rightarrow> reclass_args \<Rightarrow> tier_row \<Rightarrow> (string \<times> jval) list" where
  "rejection_payload kind q row =
     [(''subject_id'', JUuid (ra_subject_id q)),
      (''subject_kind'', JStr (reclassification_subject_kind_value kind))]
     @ hash_field kind row
     @ [(''attempted_tier'', JStr (sensitivity_tier_value (ra_new_tier q))),
        (''current_effective_tier'', JStr (sensitivity_tier_value (effective_tier row))),
        (''rejection_reason'', JStr ''would_demote''), (''user_id'', JUuid (ra_user_id q)),
        (''grant_id'', JUuid (ra_grant_id q)), (''reason'', JStr (ra_reason q))]"

primrec subject_id_key :: "reclassification_subject_kind \<Rightarrow> string" where
  "subject_id_key Recl_OBSERVATION = ''observation_id''"
| "subject_id_key Recl_ATTACHMENT = ''blob_id''"
| "subject_id_key Recl_DOCUMENT = ''document_id''"

definition success_payload ::
  "reclassification_subject_kind \<Rightarrow> reclass_args \<Rightarrow> tier_row \<Rightarrow> (string \<times> jval) list" where
  "success_payload kind q row =
     [(subject_id_key kind, JUuid (ra_subject_id q))] @ hash_field kind row
     @ [(''user_id'', JUuid (ra_user_id q)), (''grant_id'', JUuid (ra_grant_id q)),
        (''prior_effective_tier'', JStr (sensitivity_tier_value (effective_tier row))),
        (''new_tier'', JStr (sensitivity_tier_value (ra_new_tier q))),
        (''classifier_tier'', JStr (sensitivity_tier_value (tr_classifier_tier row))),
        (''reason'', JStr (ra_reason q)), (''viewing_context'', jopt JStr (ra_viewing_context q)),
        (''operator_signature_pubkey_fingerprint'', JStr (ra_fingerprint q)),
        (''case_refs'', JList (map JUuid (ra_case_refs q)))]"

primrec reclassify_event :: "reclassification_subject_kind \<Rightarrow> string" where
  "reclassify_event Recl_OBSERVATION = ''eyenet.audit.reclassify.observation''"
| "reclassify_event Recl_ATTACHMENT = ''eyenet.audit.reclassify.attachment''"
| "reclassify_event Recl_DOCUMENT = ''eyenet.audit.reclassify.document''"

primrec reclassify_helper :: "reclassification_subject_kind \<Rightarrow> string" where
  "reclassify_helper Recl_OBSERVATION = ''observations.reclassify''"
| "reclassify_helper Recl_ATTACHMENT = ''attachments.reclassify''"
| "reclassify_helper Recl_DOCUMENT = ''documents.reclassify''"

definition RECLASSIFY_REJECTED :: string where
  "RECLASSIFY_REJECTED = ''eyenet.audit.reclassify.rejected''"

text \<open>
  The three methods are one body up to the table, the payload keys and the event. A demotion
  is audited and raised; an equal tier writes nothing; a promotion is committed, then audited.
\<close>

definition reclassify ::
  "audit_env \<Rightarrow> reclassification_subject_kind \<Rightarrow> reclass_args \<Rightarrow> uuid \<Rightarrow> time \<Rightarrow> audit_ctx \<Rightarrow> reclass_store
   \<Rightarrow> (reclass_outcome, reclass_store) outcome" where
  "reclassify E kind q audit_id at cx S =
     (if length (ra_reason q) < 16
      then (Inl (ValueError ''reclassify reason must be at least 16 characters''), S)
      else (case tbl_get tr_id (ra_subject_id q) (rc_table kind S) of
        None \<Rightarrow> (Inl (ValueError ''not found''), S)
      | Some row \<Rightarrow>
        let prior = effective_tier row;
            audit = (\<lambda>ev payload. audit_or_warn E (reclassify_helper kind) (Some (ra_subject_id q))
               (build_audit_row audit_id ev (Some (ra_user_id q)) (reclassification_subject_kind_value kind)
                  (Some (ra_subject_id q)) payload at cx));
            out = (\<lambda>ov ev. \<lparr>ro_prior_effective_tier = prior, ro_classifier_tier = tr_classifier_tier row,
               ro_override = ov,
               ro_effective_tier = (case ov of None \<Rightarrow> tr_classifier_tier row | Some t \<Rightarrow> t),
               ro_reclassified_at = at, ro_audit_event_id = ev\<rparr>)
        in if TIER_RANK (ra_new_tier q) < TIER_RANK prior
           then (case audit RECLASSIFY_REJECTED (rejection_payload kind q row) (rc_audit S) of
                   (Inl e, A) \<Rightarrow> (Inl e, S\<lparr>rc_audit := A\<rparr>)
                 | (Inr _, A) \<Rightarrow> (Inl (ReclassifyDemotionError (ra_subject_id q)), S\<lparr>rc_audit := A\<rparr>))
           else if ra_new_tier q = prior then (Inr (out (tr_override row) None), S)
           else
             let row' = row\<lparr>tr_override := Some (ra_new_tier q)\<rparr>
             in if \<not> tier_monotone_ck row' then (Inl (IntegrityError ''tier_monotone''), S)
                else let S1 = rc_put kind (tbl_save tr_id row' (rc_table kind S)) S
                     in (case audit (reclassify_event kind) (success_payload kind q row) (rc_audit S1) of
                           (Inl e, A) \<Rightarrow> (Inl e, S1\<lparr>rc_audit := A\<rparr>)
                         | (Inr _, A) \<Rightarrow> (Inr (out (Some (ra_new_tier q)) (Some audit_id)), S1\<lparr>rc_audit := A\<rparr>))))"

definition reclassify_observation where
  "reclassify_observation E = reclassify E Recl_OBSERVATION"

definition reclassify_attachment where
  "reclassify_attachment E = reclassify E Recl_ATTACHMENT"

definition reclassify_document where
  "reclassify_document E = reclassify E Recl_DOCUMENT"

section \<open>The classifier's writes\<close>

definition set_classifier_tier ::
  "reclassification_subject_kind \<Rightarrow> uuid \<Rightarrow> sensitivity_tier \<Rightarrow> reclass_store \<Rightarrow> (unit, reclass_store) outcome" where
  "set_classifier_tier kind i tier S =
     (case tbl_get tr_id i (rc_table kind S) of
        None \<Rightarrow> (Inl (ValueError ''not found''), S)
      | Some row \<Rightarrow>
          let row' = row\<lparr>tr_classifier_tier := tier\<rparr>
          in if \<not> tier_monotone_ck row' then (Inl (IntegrityError ''tier_monotone''), S)
             else (Inr (), rc_put kind (tbl_save tr_id row' (rc_table kind S)) S))"

definition set_attachment_classification where
  "set_attachment_classification = set_classifier_tier Recl_ATTACHMENT"

text \<open>The tier column of \<open>settle_document_classification\<close>; its other columns are not modelled.\<close>

definition settle_document_tier where
  "settle_document_tier = set_classifier_tier Recl_DOCUMENT"

text \<open>INSERT of a freshly ingested row.\<close>

definition put_tier_row ::
  "reclassification_subject_kind \<Rightarrow> tier_row \<Rightarrow> reclass_store \<Rightarrow> (unit, reclass_store) outcome" where
  "put_tier_row kind row S =
     (if tbl_has tr_id (tr_id row) (rc_table kind S) \<or> \<not> tier_monotone_ck row
      then (Inl (IntegrityError ''insert''), S)
      else (Inr (), rc_put kind (rc_table kind S @ [row]) S))"

section \<open>The handler\<close>

record reclass_request =
  rr_new_tier :: sensitivity_tier
  rr_reason :: string
  rr_operator_signature :: string
  rr_viewing_context :: "string option"
  rr_case_refs :: "uuid list"

text \<open>
  Parameters of the handler: loading a raw key, the urlsafe base64 decoder and the hash of the
  request body. \<open>he_bus_ok\<close> tells whether the audit publish on the bus succeeds.
\<close>

record handler_env =
  he_fa :: fa_env
  he_load_key :: "bytes \<Rightarrow> bool"
  he_b64decode :: "string \<Rightarrow> bytes option"
  he_body_hash :: "reclass_request \<Rightarrow> string"
  he_bus_ok :: bool

definition decode_operator_signature :: "handler_env \<Rightarrow> string \<Rightarrow> exn + bytes" where
  "decode_operator_signature H s =
     (if take 8 s \<noteq> ''ed25519:'' then Inl (AuthError ''operator_signature_malformed_prefix'')
      else (case he_b64decode H (drop 8 s) of
              None \<Rightarrow> Inl (AuthError ''operator_signature_b64_invalid'')
            | Some raw \<Rightarrow> if length raw \<noteq> 64 then Inl (AuthError ''operator_signature_length_invalid'')
                          else Inr raw))"

definition build_reclassify_canonical :: "string \<Rightarrow> string \<Rightarrow> string \<Rightarrow> bytes option" where
  "build_reclassify_canonical url body_hash content_hash =
     build_canonical ''POST'' url [] [] body_hash content_hash"

text \<open>\<open>AuditEmitter.emit\<close>: publish, then append; a failure of either is raised.\<close>

definition emit_rejected ::
  "audit_env \<Rightarrow> handler_env \<Rightarrow> reclassification_subject_kind \<Rightarrow> uuid \<Rightarrow> sensitivity_tier \<Rightarrow> string \<Rightarrow> uuid
   \<Rightarrow> uuid option \<Rightarrow> uuid \<Rightarrow> time \<Rightarrow> audit_ctx \<Rightarrow> reclass_store \<Rightarrow> (unit, reclass_store) outcome" where
  "emit_rejected E H kind i tier why user grant audit_id at cx S =
     (if \<not> he_bus_ok H then (Inl (RuntimeError ''audit publish failed''), S)
      else (case append_audit E (build_audit_row audit_id RECLASSIFY_REJECTED (Some user)
                    (reclassification_subject_kind_value kind) (Some i)
                    ([(''subject_id'', JUuid i), (''subject_kind'', JStr (reclassification_subject_kind_value kind)),
                      (''attempted_tier'', JStr (sensitivity_tier_value tier)),
                      (''rejection_reason'', JStr why), (''user_id'', JUuid user)]
                     @ (case grant of None \<Rightarrow> [] | Some g \<Rightarrow> [(''grant_id'', JUuid g)])) at cx) (rc_audit S) of
              (Inl e, A) \<Rightarrow> (Inl e, S\<lparr>rc_audit := A\<rparr>)
            | (Inr _, A) \<Rightarrow> (Inr (), S\<lparr>rc_audit := A\<rparr>)))"

text \<open>A refusal: emit, then raise \<open>e\<close>; when the emit fails its error is raised instead.\<close>

definition refuse :: "exn \<Rightarrow> (unit, reclass_store) outcome \<Rightarrow> ('a, reclass_store) outcome" where
  "refuse e r = (case r of (Inl e', S) \<Rightarrow> (Inl e', S) | (Inr _, S) \<Rightarrow> (Inl e, S))"

definition ADMIN_RECLASSIFY_SCOPE :: exn where
  "ADMIN_RECLASSIFY_SCOPE = ScopeForbidden (clearance_scope_value ADMIN_RECLASSIFY)"

definition perform_reclassify ::
  "audit_env \<Rightarrow> handler_env \<Rightarrow> reclassification_subject_kind \<Rightarrow> uuid \<Rightarrow> string \<Rightarrow> reclass_request \<Rightarrow> string
   \<Rightarrow> current_user \<Rightarrow> uuid \<Rightarrow> time \<Rightarrow> audit_ctx \<Rightarrow> clearance_store \<Rightarrow> fa_store \<Rightarrow> reclass_store
   \<Rightarrow> (reclass_outcome, reclass_store) outcome" where
  "perform_reclassify E H kind i content_hash body url cu audit_id at cx C F S =
     (let reject = (\<lambda>why grant e T. refuse e
            (emit_rejected E H kind i (rr_new_tier body) why (cu_user_id cu) grant audit_id at cx T))
      in (case resolve_scope_grant cu ADMIN_RECLASSIFY at C of
            None \<Rightarrow> reject ''no_active_grant'' None ADMIN_RECLASSIFY_SCOPE S
          | Some gid \<Rightarrow>
            (case active_signing_key_for (cu_user_id cu) F of
               None \<Rightarrow> (Inl (AuthError ''no_active_signing_key''), S)
             | Some key \<Rightarrow>
               if \<not> he_load_key H key then (Inl (AuthError ''active_signing_key_unloadable''), S)
               else
               (case decode_operator_signature H (rr_operator_signature body) of
                  Inl e \<Rightarrow> (Inl e, S)
                | Inr sig \<Rightarrow>
                  (case build_reclassify_canonical url (he_body_hash H body) content_hash of
                     None \<Rightarrow> (Inl OverflowError, S)
                   | Some canonical \<Rightarrow>
                     if \<not> fe_verify (he_fa H) key canonical sig
                     then reject ''bad_signature'' (Some gid) ADMIN_RECLASSIFY_SCOPE S
                     else
                     (case reclassify E kind
                         \<lparr>ra_subject_id = i, ra_new_tier = rr_new_tier body, ra_user_id = cu_user_id cu,
                          ra_reason = rr_reason body, ra_grant_id = gid,
                          ra_fingerprint = fingerprint (he_fa H) key,
                          ra_viewing_context = rr_viewing_context body, ra_case_refs = rr_case_refs body\<rparr>
                         audit_id at cx S of
                        (Inl (ReclassifyDemotionError r), S') \<Rightarrow> (Inl (UnprocessableError ''would_demote''), S')
                      | (Inl (ValueError m), S') \<Rightarrow> (Inl (ResourceNotFound m), S')
                      | (Inl e, S') \<Rightarrow> (Inl e, S')
                      | (Inr out, S') \<Rightarrow>
                          if ro_audit_event_id out = None \<or> ro_override out = None
                          then reject ''no_change'' (Some gid) (UnprocessableError ''no_change'') S'
                          else (Inr out, S')))))))"

text \<open>
  The routes: \<open>RequireScope\<close>, then for an attachment or a document the row (its hash binds the
  signature), then the core. An observation has no content hash and is looked up by storage.
\<close>

definition reclassify_route ::
  "audit_env \<Rightarrow> handler_env \<Rightarrow> reclassification_subject_kind \<Rightarrow> uuid \<Rightarrow> reclass_request \<Rightarrow> string
   \<Rightarrow> current_user \<Rightarrow> uuid \<Rightarrow> time \<Rightarrow> audit_ctx \<Rightarrow> clearance_store \<Rightarrow> fa_store \<Rightarrow> reclass_store
   \<Rightarrow> (reclass_outcome, reclass_store) outcome" where
  "reclassify_route E H kind i body url cu audit_id at cx C F S =
     (if clearance_scope_value ADMIN_RECLASSIFY \<notin> cu_effective_scopes cu
      then (Inl ADMIN_RECLASSIFY_SCOPE, S)
      else if kind = Recl_OBSERVATION
      then perform_reclassify E H kind i [] body url cu audit_id at cx C F S
      else (case tbl_get tr_id i (rc_table kind S) of
              None \<Rightarrow> (Inl (ResourceNotFound (reclassification_subject_kind_value kind)), S)
            | Some row \<Rightarrow>
                perform_reclassify E H kind i (tr_sha256 row) body url cu audit_id at cx C F S))"

section \<open>What the operations change\<close>

lemma rc_table_put [simp]: "rc_table k (rc_put k' rows S) = (if k = k' then rows else rc_table k S)"
  by (cases k; cases k') simp_all

lemma rc_audit_put [simp]: "rc_audit (rc_put k rows S) = rc_audit S"
  by (cases k) simp_all

lemma rc_table_audit [simp]: "rc_table k (S\<lparr>rc_audit := A\<rparr>) = rc_table k S"
  by (cases k) simp_all

text \<open>A promotion of one row, by an amount the ranks order strictly.\<close>

definition promoted ::
  "reclassification_subject_kind \<Rightarrow> uuid \<Rightarrow> sensitivity_tier \<Rightarrow> reclass_store \<Rightarrow> reclass_store \<Rightarrow> bool" where
  "promoted kind i t S S' \<longleftrightarrow>
     (\<exists>row. tbl_get tr_id i (rc_table kind S) = Some row \<and> effective_tier row < t
        \<and> (\<forall>k. rc_table k S' = (if k = kind
              then tbl_save tr_id (row\<lparr>tr_override := Some t\<rparr>) (rc_table k S) else rc_table k S)))"

definition same_rows :: "reclass_store \<Rightarrow> reclass_store \<Rightarrow> bool" where
  "same_rows S S' \<longleftrightarrow> (\<forall>k. rc_table k S' = rc_table k S)"

lemma same_rows_refl [simp]: "same_rows S S" "same_rows S (S\<lparr>rc_audit := A\<rparr>)"
  by (simp_all add: same_rows_def)

text \<open>The three ways a call ends: refused or failed without effect on the rows, a no-op on an
  equal tier, or a promotion (whose audit write may still fail).\<close>

lemma reclassify_cases:
  obtains (refused) e where "fst (reclassify E kind q a at cx S) = Inl e"
      "same_rows S (snd (reclassify E kind q a at cx S))"
  | (noop) out where "reclassify E kind q a at cx S = (Inr out, S)" "ro_audit_event_id out = None"
  | (promoted_ok) out row t where "fst (reclassify E kind q a at cx S) = Inr out"
      "promoted kind (ra_subject_id q) (ra_new_tier q) S (snd (reclassify E kind q a at cx S))"
      "audit_log (rc_audit (snd (reclassify E kind q a at cx S))) = audit_log (rc_audit S) @ [t]"
      "ar_event (al_row (at_log t)) = reclassify_event kind" "ar_system_user_id (al_row (at_log t)) = Some (ra_user_id q)"
      "ar_subject_id (al_row (at_log t)) = Some (ra_subject_id q)" "ro_audit_event_id out = Some a"
      "ar_id (al_row (at_log t)) = a"
      "tbl_get tr_id (ra_subject_id q) (rc_table kind S) = Some row"
      "ro_prior_effective_tier out = effective_tier row" "ro_override out = Some (ra_new_tier q)"
      "ro_effective_tier out = ra_new_tier q"
  | (promoted_unaudited) e where "fst (reclassify E kind q a at cx S) = Inl e"
      "promoted kind (ra_subject_id q) (ra_new_tier q) S (snd (reclassify E kind q a at cx S))"
      "audit_log (rc_audit (snd (reclassify E kind q a at cx S))) = audit_log (rc_audit S)"
proof (cases "length (ra_reason q) < 16 \<or> tbl_get tr_id (ra_subject_id q) (rc_table kind S) = None")
  case True
  then obtain e where "reclassify E kind q a at cx S = (Inl e, S)"
    by (cases "length (ra_reason q) < 16") (auto simp: reclassify_def)
  then show thesis by (intro refused [of e]) simp_all
next
  case False
  then obtain row where row: "tbl_get tr_id (ra_subject_id q) (rc_table kind S) = Some row" by auto
  show thesis
  proof (cases "TIER_RANK (ra_new_tier q) < TIER_RANK (effective_tier row)")
    case True
    then have "\<exists>e. fst (reclassify E kind q a at cx S) = Inl e \<and> same_rows S (snd (reclassify E kind q a at cx S))"
      using False row by (auto simp: reclassify_def Let_def split: prod.splits sum.splits)
    then show thesis using refused by blast
  next
    case up: False
    show thesis
    proof (cases "ra_new_tier q = effective_tier row")
      case True
      then show thesis using False row by (intro noop) (auto simp: reclassify_def Let_def)
    next
      case neq: False
      then have less: "effective_tier row < ra_new_tier q" using up by (metis linorder_neqE_nat TIER_RANK_inject tier_rank_less)
      define row' where "row' = row\<lparr>tr_override := Some (ra_new_tier q)\<rparr>"
      show thesis
      proof (cases "tier_monotone_ck row'")
        case False
        then show thesis using \<open>\<not> (length _ < _ \<or> _)\<close> row up neq
          by (intro refused) (auto simp: reclassify_def Let_def row'_def [symmetric])
      next
        case ck: True
        let ?S1 = "rc_put kind (tbl_save tr_id row' (rc_table kind S)) S"
        let ?row = "build_audit_row a (reclassify_event kind) (Some (ra_user_id q))
             (reclassification_subject_kind_value kind) (Some (ra_subject_id q)) (success_payload kind q row) at cx"
        let ?A = "audit_or_warn E (reclassify_helper kind) (Some (ra_subject_id q)) ?row (rc_audit S)"
        have R: "reclassify E kind q a at cx S = (case ?A of
              (Inl e, A) \<Rightarrow> (Inl e, ?S1\<lparr>rc_audit := A\<rparr>)
            | (Inr _, A) \<Rightarrow> (Inr \<lparr>ro_prior_effective_tier = effective_tier row,
                ro_classifier_tier = tr_classifier_tier row, ro_override = Some (ra_new_tier q),
                ro_effective_tier = ra_new_tier q, ro_reclassified_at = at, ro_audit_event_id = Some a\<rparr>,
                ?S1\<lparr>rc_audit := A\<rparr>))"
          using False row up neq ck
          by (simp add: reclassify_def Let_def row'_def split: prod.split sum.split)
        have prom: "promoted kind (ra_subject_id q) (ra_new_tier q) S (?S1\<lparr>rc_audit := A\<rparr>)" for A
          using row less by (simp add: promoted_def row'_def)
        show thesis
        proof (cases rule: audit_or_warn_cases [of E "reclassify_helper kind" "Some (ra_subject_id q)" ?row "rc_audit S"])
          case (ok t)
          then obtain A where A: "?A = (Inr (), A)" by (cases ?A) auto
          show thesis
            by (rule promoted_ok [of "\<lparr>ro_prior_effective_tier = effective_tier row,
                ro_classifier_tier = tr_classifier_tier row, ro_override = Some (ra_new_tier q),
                ro_effective_tier = ra_new_tier q, ro_reclassified_at = at, ro_audit_event_id = Some a\<rparr>" t row])
              (use ok A R prom row in \<open>simp_all add: build_audit_row_def\<close>)
        next
          case (failed e)
          then obtain A where A: "?A = (Inl e, A)" "audit_log A = audit_log (rc_audit S)" by (cases ?A) auto
          show thesis
            by (rule promoted_unaudited [of e]) (use A R prom in simp_all)
        qed
      qed
    qed
  qed
qed

section \<open>Runs\<close>

datatype reclass_op =
    Op_Reclassify reclassification_subject_kind reclass_args uuid time audit_ctx
  | Op_Classify reclassification_subject_kind uuid sensitivity_tier
  | Op_Put reclassification_subject_kind tier_row
  | Op_Outage bool bool

primrec reclass_exec :: "audit_env \<Rightarrow> reclass_op \<Rightarrow> reclass_store \<Rightarrow> reclass_store" where
  "reclass_exec E (Op_Reclassify k q a t cx) S = snd (reclassify E k q a t cx S)"
| "reclass_exec E (Op_Classify k i t) S = snd (set_classifier_tier k i t S)"
| "reclass_exec E (Op_Put k row) S = snd (put_tier_row k row S)"
| "reclass_exec E (Op_Outage b c) S = S\<lparr>rc_audit := (rc_audit S)\<lparr>audit_ok := b, syslog_ok := c\<rparr>\<rparr>"

definition reclass_wf :: "reclass_store \<Rightarrow> bool" where
  "reclass_wf S \<longleftrightarrow> (\<forall>k. keyed tr_id (rc_table k S) \<and> (\<forall>r\<in>set (rc_table k S). tier_monotone_ck r))"

text \<open>The rank of a row's override, counted from 1; 0 while there is none.\<close>

definition override_level :: "reclassification_subject_kind \<times> uuid \<Rightarrow> reclass_store \<Rightarrow> nat" where
  "override_level ki S = (case tbl_get tr_id (snd ki) (rc_table (fst ki) S) of
     None \<Rightarrow> 0 | Some row \<Rightarrow> (case tr_override row of None \<Rightarrow> 0 | Some t \<Rightarrow> Suc (TIER_RANK t)))"

lemma same_rows_level: "same_rows S S' \<Longrightarrow> override_level ki S' = override_level ki S"
  by (simp add: same_rows_def override_level_def)

lemma same_rows_wf: "same_rows S S' \<Longrightarrow> reclass_wf S \<Longrightarrow> reclass_wf S'"
  by (simp add: same_rows_def reclass_wf_def)

lemma override_effective: "tr_override row = Some t \<Longrightarrow> effective_tier row = t"
  by (simp add: effective_tier_def)

lemma promoted_level:
  assumes "promoted kind i t S S'"
  shows "override_level ki S \<le> override_level ki S'"
proof -
  obtain row where row: "tbl_get tr_id i (rc_table kind S) = Some row" "effective_tier row < t"
    and tab: "\<And>k. rc_table k S' = (if k = kind
              then tbl_save tr_id (row\<lparr>tr_override := Some t\<rparr>) (rc_table k S) else rc_table k S)"
    using assms by (auto simp: promoted_def)
  have id: "tr_id row = i" using row(1) tbl_get_SomeD by fast
  show ?thesis
  proof (cases "ki = (kind, i)")
    case True
    have "tbl_has tr_id i (rc_table kind S)" using row(1) by (rule tbl_get_Some_has)
    with row id True show ?thesis
      by (auto simp: override_level_def tab tbl_get_tbl_save effective_tier_def tier_rank_less
          split: option.splits)
  next
    case False
    with id show ?thesis by (cases ki) (auto simp: override_level_def tab tbl_get_tbl_save)
  qed
qed

lemma promoted_wf:
  assumes "promoted kind i t S S'" and "reclass_wf S"
  shows "reclass_wf S'"
proof -
  obtain row where row: "tbl_get tr_id i (rc_table kind S) = Some row" "effective_tier row < t"
    and tab: "\<And>k. rc_table k S' = (if k = kind
              then tbl_save tr_id (row\<lparr>tr_override := Some t\<rparr>) (rc_table k S) else rc_table k S)"
    using assms by (auto simp: promoted_def)
  have "row \<in> set (rc_table kind S)" using row(1) tbl_get_SomeD by fast
  then have "tier_monotone_ck row" using assms(2) by (simp add: reclass_wf_def)
  then have "tier_monotone_ck (row\<lparr>tr_override := Some t\<rparr>)"
    using row(2) by (auto simp: tier_monotone_ck_def effective_tier_def tier_rank_less split: option.splits)
  then show ?thesis
    using assms(2) by (auto simp: reclass_wf_def tab dest!: set_tbl_save_sub)
qed

lemma classify_level:
  "override_level ki (snd (set_classifier_tier k i t S)) = override_level ki S"
proof (cases "tbl_get tr_id i (rc_table k S)")
  case None
  then show ?thesis by (simp add: set_classifier_tier_def)
next
  case (Some row)
  then have "tr_id row = i" "tbl_has tr_id i (rc_table k S)"
    using tbl_get_SomeD tbl_get_Some_has by fast+
  with Some show ?thesis
    by (cases ki) (auto simp: set_classifier_tier_def Let_def override_level_def tbl_get_tbl_save)
qed

lemma classify_wf: "reclass_wf S \<Longrightarrow> reclass_wf (snd (set_classifier_tier k i t S))"
  by (auto simp: set_classifier_tier_def Let_def reclass_wf_def split: option.splits dest!: set_tbl_save_sub)

lemma put_level: "override_level ki S \<le> override_level ki (snd (put_tier_row k row S))"
proof (cases "tbl_get tr_id (snd ki) (rc_table (fst ki) S)")
  case None
  then show ?thesis by (simp add: override_level_def)
next
  case (Some r)
  then have "tbl_get tr_id (snd ki) (rc_table (fst ki) (snd (put_tier_row k row S))) = Some r"
    by (auto simp: put_tier_row_def tbl_get_append)
  with Some show ?thesis by (simp add: override_level_def)
qed

lemma put_wf: "reclass_wf S \<Longrightarrow> reclass_wf (snd (put_tier_row k row S))"
  by (auto simp: put_tier_row_def reclass_wf_def)

lemma reclassify_step:
  "reclass_wf S \<Longrightarrow> reclass_wf (snd (reclassify E k q a t cx S))
     \<and> override_level ki S \<le> override_level ki (snd (reclassify E k q a t cx S))"
  by (cases rule: reclassify_cases [of E k q a t cx S])
    (auto simp: same_rows_level intro: same_rows_wf promoted_wf promoted_level)

interpretation override: monotone_run reclass_wf "reclass_exec E" override_level for E
proof
  show "reclass_wf (reclass_exec E a s)" if "reclass_wf s" for s a
    using that by (cases a) (auto simp: reclassify_step classify_wf put_wf, simp add: reclass_wf_def)
  show "override_level k s \<le> override_level k (reclass_exec E a s)" if "reclass_wf s" for s k a
    using that by (cases a) (auto simp: reclassify_step classify_level put_level, simp add: override_level_def)
qed

definition empty_reclass :: reclass_store where
  "empty_reclass = \<lparr>rc_observations = [], rc_attachments = [], rc_documents = [], rc_audit = example_audit0\<rparr>"

lemma empty_reclass_wf: "reclass_wf empty_reclass"
  unfolding reclass_wf_def
proof
  show "keyed tr_id (rc_table k empty_reclass) \<and> (\<forall>r\<in>set (rc_table k empty_reclass). tier_monotone_ck r)" for k
    by (cases k) (simp_all add: empty_reclass_def)
qed

section \<open>Properties\<close>

text \<open>C9: a tier an operator set is a floor for ever. Over any run of promotions, classifier
  writes, ingests and audit outages a row's override is never lowered or removed, and the
  effective tier stays at or above it; the CHECK keeps the classifier's tier below it.\<close>

theorem operator_tier_is_floor:
  assumes "tbl_get tr_id i (rc_table kind (fold (reclass_exec E) before empty_reclass)) = Some row"
    and "tr_override row = Some t"
  shows "\<exists>row' t'. tbl_get tr_id i (rc_table kind (fold (reclass_exec E) (before @ after) empty_reclass)) = Some row'
     \<and> tr_override row' = Some t' \<and> t \<le> t' \<and> effective_tier row' = t' \<and> tr_classifier_tier row' \<le> t'"
proof -
  let ?S = "fold (reclass_exec E) before empty_reclass"
  let ?S' = "fold (reclass_exec E) after ?S"
  have wf: "reclass_wf ?S" "reclass_wf ?S'" by (intro override.run_inv empty_reclass_wf)+
  have "Suc (TIER_RANK t) \<le> override_level (kind, i) ?S'"
    using override.run_level [OF wf(1), of "(kind, i)" E after] assms by (simp add: override_level_def)
  then obtain row' t' where r: "tbl_get tr_id i (rc_table kind ?S') = Some row'" "tr_override row' = Some t'"
    "TIER_RANK t \<le> TIER_RANK t'"
    by (auto simp: override_level_def split: option.splits)
  then have "tier_monotone_ck row'" using wf(2) tbl_get_SomeD unfolding reclass_wf_def by fastforce
  with r show ?thesis by (auto simp: tier_monotone_ck_def effective_tier_def tier_rank_mono)
qed

text \<open>An operator call never lowers the effective tier of any row, and it raises it exactly
  when it reports an audit event: then the row's tier is the requested one, strictly above the
  old, and the audit log ends with the promotion's event. A call that raises leaves the tiers
  as they were, save when the audit write itself failed after the commit.\<close>

lemma reclassify_monotone:
  assumes "reclass_wf S"
  shows "(\<forall>k i row. tbl_get tr_id i (rc_table k S) = Some row \<longrightarrow>
        (\<exists>row'. tbl_get tr_id i (rc_table k (snd (reclassify E kind q a at cx S))) = Some row'
            \<and> effective_tier row \<le> effective_tier row'))
   \<and> (\<forall>out. fst (reclassify E kind q a at cx S) = Inr out \<and> ro_audit_event_id out \<noteq> None \<longrightarrow>
        ro_prior_effective_tier out < ra_new_tier q
        \<and> (\<exists>row'. tbl_get tr_id (ra_subject_id q) (rc_table kind (snd (reclassify E kind q a at cx S))) = Some row'
              \<and> effective_tier row' = ra_new_tier q)
        \<and> (\<exists>t. audit_log (rc_audit (snd (reclassify E kind q a at cx S))) = audit_log (rc_audit S) @ [t]
              \<and> ar_event (al_row (at_log t)) = reclassify_event kind
              \<and> ar_system_user_id (al_row (at_log t)) = Some (ra_user_id q)
              \<and> ar_subject_id (al_row (at_log t)) = Some (ra_subject_id q)))
   \<and> (\<forall>e. fst (reclassify E kind q a at cx S) = Inl e \<longrightarrow>
        same_rows S (snd (reclassify E kind q a at cx S))
        \<or> audit_log (rc_audit (snd (reclassify E kind q a at cx S))) = audit_log (rc_audit S))"
proof -
  have up: "\<exists>row'. tbl_get tr_id i (rc_table k S') = Some row' \<and> effective_tier row \<le> effective_tier row'"
    if p: "promoted kind j t S S'" and old: "tbl_get tr_id i (rc_table k S) = Some row" for j t S' k i row
  proof -
    obtain r where r: "tbl_get tr_id j (rc_table kind S) = Some r" "effective_tier r < t"
      and tab: "rc_table k S' = (if k = kind
              then tbl_save tr_id (r\<lparr>tr_override := Some t\<rparr>) (rc_table k S) else rc_table k S)"
      using p unfolding promoted_def by blast
    have "tr_id r = j" using r(1) tbl_get_SomeD by fast
    with old r tbl_get_Some_has [OF old] show ?thesis
      by (auto simp: tab tbl_get_tbl_save effective_tier_def intro: less_imp_le)
  qed
  have new: "\<exists>row'. tbl_get tr_id j (rc_table kind S') = Some row' \<and> effective_tier row' = t"
    if p: "promoted kind j t S S'" for j t S'
  proof -
    obtain r where r: "tbl_get tr_id j (rc_table kind S) = Some r"
      and tab: "rc_table kind S' = tbl_save tr_id (r\<lparr>tr_override := Some t\<rparr>) (rc_table kind S)"
      using p unfolding promoted_def by auto
    have "tr_id r = j" using r(1) tbl_get_SomeD by fast
    with r tbl_get_Some_has [OF r] show ?thesis
      by (simp add: tab tbl_get_tbl_save effective_tier_def)
  qed
  have less: "effective_tier row < t" if "promoted kind j t S S'" "tbl_get tr_id j (rc_table kind S) = Some row" for j t S' row
    using that by (auto simp: promoted_def)
  show ?thesis
  proof (cases rule: reclassify_cases [of E kind q a at cx S])
    case (refused e)
    then show ?thesis by (auto simp: same_rows_def)
  next
    case (noop out)
    then show ?thesis by auto
  next
    case (promoted_ok out row t)
    then show ?thesis using up [OF promoted_ok(2)] new [OF promoted_ok(2)] less [OF promoted_ok(2,9)] by auto
  next
    case (promoted_unaudited e)
    then show ?thesis using up [OF promoted_unaudited(2)] by auto
  qed
qed

text \<open>C8: two-key rule. The route returns a result only to a caller with the cached scope, a
  live \<open>admin:reclassify\<close> grant in the store, and a signature by the caller's active key over
  the request path, the body hash and the stored content hash; and then the row was promoted
  to the requested tier, strictly above its old one.\<close>

theorem reclassify_needs_grant_and_signature:
  assumes "fst (reclassify_route E H kind i body url cu a at cx C F S) = Inr out"
  shows "clearance_scope_value ADMIN_RECLASSIFY \<in> cu_effective_scopes cu
    \<and> (\<exists>g\<in>set (grants C). gr_user_id g = cu_user_id cu \<and> gr_scope g = ADMIN_RECLASSIFY \<and> grant_active_at at g)
    \<and> (\<exists>key sig canonical row. active_signing_key_for (cu_user_id cu) F = Some key \<and> he_load_key H key
         \<and> decode_operator_signature H (rr_operator_signature body) = Inr sig
         \<and> tbl_get tr_id i (rc_table kind S) = Some row
         \<and> build_reclassify_canonical url (he_body_hash H body)
              (if kind = Recl_OBSERVATION then [] else tr_sha256 row) = Some canonical
         \<and> fe_verify (he_fa H) key canonical sig)
    \<and> ro_prior_effective_tier out < rr_new_tier body \<and> ro_override out = Some (rr_new_tier body)
    \<and> promoted kind i (rr_new_tier body) S (snd (reclassify_route E H kind i body url cu a at cx C F S))"
proof -
  define ch where "ch = (case tbl_get tr_id i (rc_table kind S) of
     Some row \<Rightarrow> if kind = Recl_OBSERVATION then [] else tr_sha256 row | None \<Rightarrow> [])"
  have scope: "clearance_scope_value ADMIN_RECLASSIFY \<in> cu_effective_scopes cu"
    and route: "reclassify_route E H kind i body url cu a at cx C F S
      = perform_reclassify E H kind i ch body url cu a at cx C F S"
    using assms by (auto simp: reclassify_route_def ch_def split: if_splits option.splits)
  have no: "fst (refuse e r) \<noteq> Inr out" for e and r :: "(unit, reclass_store) outcome"
    by (auto simp: refuse_def split: prod.splits sum.splits)
  obtain gid where gid: "resolve_scope_grant cu ADMIN_RECLASSIFY at C = Some gid"
    using assms no unfolding route by (auto simp: perform_reclassify_def Let_def split: option.splits)
  obtain key where key: "active_signing_key_for (cu_user_id cu) F = Some key" "he_load_key H key"
    using assms unfolding route
    by (auto simp: perform_reclassify_def Let_def gid split: option.splits if_splits)
  obtain sig where sig: "decode_operator_signature H (rr_operator_signature body) = Inr sig"
    using assms unfolding route
    by (auto simp: perform_reclassify_def Let_def gid key split: sum.splits)
  obtain canonical where can: "build_reclassify_canonical url (he_body_hash H body) ch = Some canonical"
    using assms unfolding route
    by (auto simp: perform_reclassify_def Let_def gid key sig split: option.splits)
  have ver: "fe_verify (he_fa H) key canonical sig"
    using assms no unfolding route
    by (auto simp: perform_reclassify_def Let_def gid key sig can split: if_splits)
  define q where "q = \<lparr>ra_subject_id = i, ra_new_tier = rr_new_tier body, ra_user_id = cu_user_id cu,
     ra_reason = rr_reason body, ra_grant_id = gid, ra_fingerprint = fingerprint (he_fa H) key,
     ra_viewing_context = rr_viewing_context body, ra_case_refs = rr_case_refs body\<rparr>"
  have q: "ra_subject_id q = i" "ra_new_tier q = rr_new_tier body" by (simp_all add: q_def)
  obtain S' where inner: "reclassify E kind q a at cx S = (Inr out, S')" and ev: "ro_audit_event_id out \<noteq> None"
    and snd_eq: "snd (reclassify_route E H kind i body url cu a at cx C F S) = S'"
    using assms no unfolding route
    by (auto simp: perform_reclassify_def Let_def gid key sig can ver q_def
        split: prod.splits sum.splits exn.splits if_splits)
  have grant: "\<exists>g\<in>set (grants C). gr_user_id g = cu_user_id cu \<and> gr_scope g = ADMIN_RECLASSIFY \<and> grant_active_at at g"
    using longest_grant_SomeD gid unfolding resolve_scope_grant_def by blast
  show ?thesis
  proof (cases rule: reclassify_cases [of E kind q a at cx S])
    case (promoted_ok out' row t)
    then have "out' = out" and p: "promoted kind i (rr_new_tier body) S S'" using inner q by simp_all
    moreover have "tbl_get tr_id i (rc_table kind S) = Some row" using promoted_ok q by simp
    moreover have "ro_prior_effective_tier out < rr_new_tier body"
      using p promoted_ok(9,10) \<open>out' = out\<close> q by (auto simp: promoted_def)
    ultimately show ?thesis
      using scope grant key sig can ver snd_eq promoted_ok(11) q ch_def by auto
  qed (use inner ev in auto)
qed

text \<open>Refusals that leave no trace. A caller with a grant but no active key, or whose
  signature does not decode, is refused before anything is written: the store, the audit log
  included, is as before, though the module announces a rejection event for every refusal.\<close>

lemma unaudited_refusals:
  assumes "resolve_scope_grant cu ADMIN_RECLASSIFY at C = Some gid"
    and "active_signing_key_for (cu_user_id cu) F = None
      \<or> (\<exists>e. decode_operator_signature H (rr_operator_signature body) = Inl e)"
  shows "\<exists>e. perform_reclassify E H kind i ch body url cu a at cx C F S = (Inl e, S)"
  using assms by (auto simp: perform_reclassify_def Let_def split: option.splits)

section \<open>Witnesses\<close>

definition example_reclass_args :: "sensitivity_tier \<Rightarrow> reclass_args" where
  "example_reclass_args t = \<lparr>ra_subject_id = 8, ra_new_tier = t, ra_user_id = 1, ra_reason = ''sixteen letters!'',
     ra_grant_id = 5, ra_fingerprint = ''f'', ra_viewing_context = None, ra_case_refs = []\<rparr>"

definition example_doc :: tier_row where
  "example_doc = \<lparr>tr_id = 8, tr_sha256 = ''ab'', tr_classifier_tier = NORMAL, tr_override = None\<rparr>"

definition example_reclass_ops :: "reclass_op list" where
  "example_reclass_ops = [Op_Put Recl_DOCUMENT example_doc,
     Op_Reclassify Recl_DOCUMENT (example_reclass_args RESTRICTED) 1 3 example_ctx]"

lemmas example_reclass_simps = example_reclass_ops_def example_doc_def example_reclass_args_def
  put_tier_row_def empty_reclass_def reclassify_def effective_tier_def tier_monotone_ck_def
  audit_or_warn_def example_audit_defs tbl_save_def

lemma example_reclass_docs:
  "rc_documents (fold (reclass_exec example_env) example_reclass_ops empty_reclass)
     = [example_doc\<lparr>tr_override := Some RESTRICTED\<rparr>]"
  by (simp add: example_reclass_simps Let_def)

theorem operator_tier_is_floor_witness:
  "\<exists>row' t'. tbl_get tr_id 8 (rc_table Recl_DOCUMENT (fold (reclass_exec example_env)
        (example_reclass_ops @ [Op_Classify Recl_DOCUMENT 8 NORMAL,
           Op_Reclassify Recl_DOCUMENT (example_reclass_args NORMAL) 2 4 example_ctx]) empty_reclass)) = Some row'
     \<and> tr_override row' = Some t' \<and> RESTRICTED \<le> t' \<and> effective_tier row' = t' \<and> tr_classifier_tier row' \<le> t'"
proof (rule operator_tier_is_floor)
  show "tbl_get tr_id 8 (rc_table Recl_DOCUMENT (fold (reclass_exec example_env) example_reclass_ops empty_reclass))
      = Some (example_doc\<lparr>tr_override := Some RESTRICTED\<rparr>)"
    unfolding rc_table.simps example_reclass_docs by (simp add: example_doc_def)
qed simp

definition example_reclass :: reclass_store where
  "example_reclass = \<lparr>rc_observations = [], rc_attachments = [], rc_documents = [example_doc], rc_audit = example_audit0\<rparr>"

lemma example_reclass_wf: "reclass_wf example_reclass"
  unfolding reclass_wf_def
proof
  show "keyed tr_id (rc_table k example_reclass) \<and> (\<forall>r\<in>set (rc_table k example_reclass). tier_monotone_ck r)" for k
    by (cases k) (simp_all add: example_reclass_def example_doc_def tier_monotone_ck_def tbl_has_def)
qed

definition example_body :: reclass_request where
  "example_body = \<lparr>rr_new_tier = CLASSIFIED, rr_reason = ''sixteen letters!'', rr_operator_signature = ''ed25519:s'',
     rr_viewing_context = None, rr_case_refs = []\<rparr>"

definition example_handler :: handler_env where
  "example_handler = \<lparr>he_fa = example_fa_env\<lparr>fe_verify := (\<lambda>k c s. s = replicate 64 1)\<rparr>, he_load_key = (\<lambda>_. True),
     he_b64decode = (\<lambda>s. if s = ''s'' then Some (replicate 64 1) else None), he_body_hash = (\<lambda>_. ''h''), he_bus_ok = True\<rparr>"

definition example_admin :: clearance_store where
  "example_admin = \<lparr>grants = [example_grant\<lparr>gr_user_id := 1, gr_scope := ADMIN_RECLASSIFY\<rparr>], cl_audit = example_audit0\<rparr>"

definition example_cu :: current_user where
  "example_cu = \<lparr>cu_user_id = 1, cu_effective_scopes = {''admin:reclassify''}\<rparr>"

lemma example_route:
  "\<exists>out. fst (reclassify_route example_env example_handler Recl_DOCUMENT 8 example_body ''/d/8'' example_cu 1 3
     example_ctx example_admin example_fa_store example_reclass) = Inr out"
proof -
  have "build_canonical ''POST'' ''/d/8'' [] [] ''h'' ''ab'' \<noteq> None"
    by (simp add: build_canonical_def frame_all_Some_iff SIG_SCHEME_def utf8_short del: enc_all.simps)
  then obtain c where c: "build_canonical ''POST'' ''/d/8'' [] [] ''h'' ''ab'' = Some c" by blast
  have g: "resolve_scope_grant example_cu ADMIN_RECLASSIFY 3 example_admin = Some 5"
    by (simp add: resolve_scope_grant_def longest_grant_def active_clearance_grants_for_def example_admin_def
        example_cu_def example_grant_def grant_active_at_def)
  have k: "active_signing_key_for (cu_user_id example_cu) example_fa_store = Some example_key"
    by (simp add: active_signing_key_for_def example_fa_store_eq example_cu_def order_desc_def)
  have s: "decode_operator_signature example_handler ''ed25519:s'' = Inr (replicate 64 1)"
    by (simp add: decode_operator_signature_def example_handler_def)
  show ?thesis
    by (simp add: reclassify_route_def perform_reclassify_def Let_def g k build_reclassify_canonical_def
        example_reclass_def example_body_def s)
      (simp add: example_handler_def c example_cu_def example_reclass_simps Let_def)
qed

theorem reclassify_needs_grant_and_signature_witness:
  "promoted Recl_DOCUMENT 8 CLASSIFIED example_reclass
     (snd (reclassify_route example_env example_handler Recl_DOCUMENT 8 example_body ''/d/8'' example_cu 1 3
        example_ctx example_admin example_fa_store example_reclass))"
proof -
  obtain out where out: "fst (reclassify_route example_env example_handler Recl_DOCUMENT 8 example_body ''/d/8'' example_cu 1 3
     example_ctx example_admin example_fa_store example_reclass) = Inr out"
    using example_route by blast
  show ?thesis using reclassify_needs_grant_and_signature [OF out] by (simp add: example_body_def)
qed

end
