(* ===== verification/Cases.thy ===== *)
theory Cases
  imports Complex_Main Reclassify
begin

text \<open>
  Investigation cases (\<open>sqlmodel_repo/cases.py\<close>, \<open>models/case.py\<close>): the open / closed / archived
  life cycle, evidence members, collaborators, the materialised effective tier and the
  resolution of the case that claims a discovery candidate. The evidence tables and the audit
  log are those of \<open>Reclassify\<close>.
\<close>

section \<open>Tables\<close>

record case_row =
  ca_id :: uuid
  ca_title :: string
  ca_description :: "string option"
  ca_status :: case_status
  ca_crew_key :: "string option"
  ca_effective_tier :: sensitivity_tier
  ca_created_by :: uuid
  ca_created_at :: time
  ca_closed_at :: "time option"
  ca_closed_by :: "uuid option"
  ca_close_reason :: "string option"
  ca_archived_at :: "time option"
  ca_archived_by :: "uuid option"
  ca_archive_reason :: "string option"
  ca_parent_case_id :: "uuid option"
  ca_seed_roots :: "uuid list"
  ca_redundancy :: redundancy_policy
  ca_auto_join :: auto_join_policy
  ca_score_threshold :: "rat option"

record member_row =
  me_id :: uuid
  me_case_id :: uuid
  me_subject_kind :: case_subject_kind
  me_subject_id :: uuid
  me_added_by :: uuid
  me_added_at :: time
  me_add_reason :: string
  me_removed_at :: "time option"
  me_removed_by :: "uuid option"
  me_removal_reason :: "string option"

record collab_row =
  co_id :: uuid
  co_case_id :: uuid
  co_user_id :: uuid
  co_role :: case_role_on_case
  co_granted_by :: uuid
  co_granted_at :: time
  co_revoked_at :: "time option"
  co_revoked_by :: "uuid option"
  co_revocation_reason :: "string option"

record cases_store =
  cs_cases :: "case_row list"
  cs_members :: "member_row list"
  cs_collabs :: "collab_row list"
  cs_evidence :: reclass_store

text \<open>The CHECK constraints: all of a triplet or none, and the minimal title.\<close>

definition triplet :: "'a option \<Rightarrow> 'b option \<Rightarrow> 'c option \<Rightarrow> bool" where
  "triplet a b c \<longleftrightarrow> (a = None \<and> b = None \<and> c = None) \<or> (a \<noteq> None \<and> b \<noteq> None \<and> c \<noteq> None)"

definition case_checks :: "case_row \<Rightarrow> bool" where
  "case_checks c \<longleftrightarrow> triplet (ca_closed_at c) (ca_closed_by c) (ca_close_reason c)
     \<and> triplet (ca_archived_at c) (ca_archived_by c) (ca_archive_reason c) \<and> 3 \<le> length (ca_title c)"

definition member_checks :: "member_row \<Rightarrow> bool" where
  "member_checks m \<longleftrightarrow> triplet (me_removed_at m) (me_removed_by m) (me_removal_reason m)
     \<and> 16 \<le> length (me_add_reason m)"

definition member_active :: "uuid \<Rightarrow> case_subject_kind \<Rightarrow> uuid \<Rightarrow> member_row \<Rightarrow> bool" where
  "member_active c k i m \<longleftrightarrow>
     me_case_id m = c \<and> me_subject_kind m = k \<and> me_subject_id m = i \<and> me_removed_at m = None"

definition collab_active :: "uuid \<Rightarrow> uuid \<Rightarrow> collab_row \<Rightarrow> bool" where
  "collab_active c u r \<longleftrightarrow> co_case_id r = c \<and> co_user_id r = u \<and> co_revoked_at r = None"

section \<open>Audit\<close>

text \<open>\<open>_emit_case_audit\<close>, after which the helper returns \<open>v\<close>.\<close>

definition emit_case_audit ::
  "audit_env \<Rightarrow> string \<Rightarrow> string \<Rightarrow> uuid \<Rightarrow> uuid option \<Rightarrow> uuid \<Rightarrow> (string \<times> jval) list \<Rightarrow> time \<Rightarrow> audit_ctx
   \<Rightarrow> 'a \<Rightarrow> cases_store \<Rightarrow> ('a, cases_store) outcome" where
  "emit_case_audit E event helper audit_id actor case_id payload now cx v S =
     (case audit_or_warn E helper (Some case_id)
             (build_audit_row audit_id event actor ''case'' (Some case_id) payload now cx)
             (rc_audit (cs_evidence S)) of
        (Inl e, A) \<Rightarrow> (Inl e, S\<lparr>cs_evidence := (cs_evidence S)\<lparr>rc_audit := A\<rparr>\<rparr>)
      | (Inr _, A) \<Rightarrow> (Inr v, S\<lparr>cs_evidence := (cs_evidence S)\<lparr>rc_audit := A\<rparr>\<rparr>))"

section \<open>Life cycle\<close>

definition create_case ::
  "audit_env \<Rightarrow> uuid \<Rightarrow> uuid \<Rightarrow> string \<Rightarrow> string option \<Rightarrow> uuid \<Rightarrow> string option \<Rightarrow> time \<Rightarrow> audit_ctx \<Rightarrow> cases_store
   \<Rightarrow> (case_row, cases_store) outcome" where
  "create_case E new_id audit_id title description opened_by crew_key created_at cx S =
     (if length title < 3 then (Inl (CaseError ''title must be at least 3 characters''), S)
      else
        let c = \<lparr>ca_id = new_id, ca_title = title, ca_description = description, ca_status = Case_OPEN,
                 ca_crew_key = crew_key, ca_effective_tier = NORMAL, ca_created_by = opened_by,
                 ca_created_at = created_at, ca_closed_at = None, ca_closed_by = None, ca_close_reason = None,
                 ca_archived_at = None, ca_archived_by = None, ca_archive_reason = None,
                 ca_parent_case_id = None, ca_seed_roots = [], ca_redundancy = PREFER_SINGLE,
                 ca_auto_join = Auto_DISABLED, ca_score_threshold = None\<rparr>
        in if tbl_has ca_id new_id (cs_cases S) \<or> \<not> case_checks c
           then (Inl (IntegrityError ''case_v2''), S)
           else emit_case_audit E ''eyenet.audit.case.created'' ''cases.case_created'' audit_id (Some opened_by) new_id
                  [(''title'', JStr title), (''created_at'', JTime created_at)] created_at cx c
                  (S\<lparr>cs_cases := cs_cases S @ [c]\<rparr>))"

text \<open>
  The shape the updating helpers share: fetch (\<open>_require_case\<close>), guard, write the row under its
  CHECKs, audit. \<open>guard\<close> is the refusal of the helper's own precondition.
\<close>

definition change_case ::
  "uuid \<Rightarrow> (case_row \<Rightarrow> string option) \<Rightarrow> (case_row \<Rightarrow> case_row)
   \<Rightarrow> (case_row \<Rightarrow> cases_store \<Rightarrow> (case_row, cases_store) outcome) \<Rightarrow> cases_store
   \<Rightarrow> (case_row, cases_store) outcome" where
  "change_case case_id guard upd audit S =
     (case tbl_get ca_id case_id (cs_cases S) of
        None \<Rightarrow> (Inl (CaseError ''case not found''), S)
      | Some c \<Rightarrow>
          (case guard c of
             Some msg \<Rightarrow> (Inl (CaseError msg), S)
           | None \<Rightarrow>
               let c' = upd c
               in if \<not> case_checks c' then (Inl (IntegrityError ''case_v2''), S)
                  else audit c' (S\<lparr>cs_cases := tbl_save ca_id c' (cs_cases S)\<rparr>)))"

definition update_case ::
  "audit_env \<Rightarrow> uuid \<Rightarrow> uuid \<Rightarrow> string option \<Rightarrow> string option \<Rightarrow> uuid \<Rightarrow> time \<Rightarrow> audit_ctx \<Rightarrow> cases_store
   \<Rightarrow> (case_row, cases_store) outcome" where
  "update_case E audit_id case_id title description editor now cx S =
     (case tbl_get ca_id case_id (cs_cases S) of
        None \<Rightarrow> (Inl (CaseError ''case not found''), S)
      | Some c \<Rightarrow>
        let new_title = (title \<noteq> None \<and> title \<noteq> Some (ca_title c));
            new_desc = (description \<noteq> None \<and> description \<noteq> ca_description c)
        in if ca_status c = Case_ARCHIVED then (Inl (CaseError ''archived cases cannot be updated''), S)
           else if new_title \<and> length (the title) < 3
           then (Inl (CaseError ''title must be at least 3 characters''), S)
           else if \<not> new_title \<and> \<not> new_desc then (Inr c, S)
           else change_case case_id (\<lambda>_. None)
                  (\<lambda>c. c\<lparr>ca_title := (if new_title then the title else ca_title c),
                         ca_description := (if new_desc then description else ca_description c)\<rparr>)
                  (\<lambda>c'. emit_case_audit E ''eyenet.audit.case.updated'' ''cases.case_updated'' audit_id (Some editor) case_id
                     [(''changes'', JObj
                        ((if new_title then [(''title'', JObj [(''from'', JStr (ca_title c)), (''to'', JStr (ca_title c'))])] else [])
                         @ (if new_desc then [(''description'', JObj [(''from'', jopt JStr (ca_description c)),
                                (''to'', jopt JStr (ca_description c'))])] else [])))] now cx c') S)"

definition close_case ::
  "audit_env \<Rightarrow> uuid \<Rightarrow> uuid \<Rightarrow> uuid \<Rightarrow> string \<Rightarrow> time \<Rightarrow> audit_ctx \<Rightarrow> cases_store
   \<Rightarrow> (case_row, cases_store) outcome" where
  "close_case E audit_id case_id closer reason now cx S =
     (if length reason < 16 then (Inl (CaseError ''close reason must be at least 16 characters''), S)
      else change_case case_id
        (\<lambda>c. if ca_status c \<noteq> Case_OPEN then Some ''cannot close case'' else None)
        (\<lambda>c. c\<lparr>ca_status := Case_CLOSED, ca_closed_at := Some now, ca_closed_by := Some closer,
               ca_close_reason := Some reason\<rparr>)
        (\<lambda>c. emit_case_audit E ''eyenet.audit.case.closed'' ''cases.case_closed'' audit_id (Some closer) case_id
           [(''reason'', JStr reason)] now cx c) S)"

definition reopen_case ::
  "audit_env \<Rightarrow> uuid \<Rightarrow> uuid \<Rightarrow> uuid \<Rightarrow> time \<Rightarrow> audit_ctx \<Rightarrow> cases_store \<Rightarrow> (case_row, cases_store) outcome" where
  "reopen_case E audit_id case_id reopener now cx S =
     change_case case_id
       (\<lambda>c. if ca_status c \<noteq> Case_CLOSED then Some ''only CLOSED cases can be reopened'' else None)
       (\<lambda>c. c\<lparr>ca_status := Case_OPEN, ca_closed_at := None, ca_closed_by := None, ca_close_reason := None\<rparr>)
       (\<lambda>c. emit_case_audit E ''eyenet.audit.case.reopened'' ''cases.case_reopened'' audit_id (Some reopener) case_id
          [] now cx c) S"

definition archive_case ::
  "audit_env \<Rightarrow> uuid \<Rightarrow> uuid \<Rightarrow> uuid \<Rightarrow> string \<Rightarrow> time \<Rightarrow> audit_ctx \<Rightarrow> cases_store
   \<Rightarrow> (case_row, cases_store) outcome" where
  "archive_case E audit_id case_id archiver reason now cx S =
     (if length reason < 16 then (Inl (CaseError ''archive reason must be at least 16 characters''), S)
      else change_case case_id
        (\<lambda>c. if ca_status c \<noteq> Case_CLOSED then Some ''only CLOSED cases can be archived'' else None)
        (\<lambda>c. c\<lparr>ca_status := Case_ARCHIVED, ca_archived_at := Some now, ca_archived_by := Some archiver,
               ca_archive_reason := Some reason\<rparr>)
        (\<lambda>c. emit_case_audit E ''eyenet.audit.case.archived'' ''cases.case_archived'' audit_id (Some archiver) case_id
           [(''reason'', JStr reason)] now cx c) S)"

text \<open>The successor of an archived case; its predecessor's row is only read.\<close>

definition reopen_archived_case ::
  "audit_env \<Rightarrow> uuid \<Rightarrow> uuid \<Rightarrow> uuid \<Rightarrow> uuid \<Rightarrow> string \<Rightarrow> time \<Rightarrow> audit_ctx \<Rightarrow> cases_store
   \<Rightarrow> (case_row, cases_store) outcome" where
  "reopen_archived_case E new_id audit_id case_id reopener reason now cx S =
     (if length reason < 16 then (Inl (CaseError ''reopen reason must be at least 16 characters''), S)
      else (case tbl_get ca_id case_id (cs_cases S) of
              None \<Rightarrow> (Inl (CaseError ''case not found''), S)
            | Some c \<Rightarrow>
                if ca_status c \<noteq> Case_ARCHIVED
                then (Inl (CaseError ''only ARCHIVED cases reopen into a successor''), S)
                else
                  let s = \<lparr>ca_id = new_id, ca_title = ca_title c, ca_description = ca_description c,
                      ca_status = Case_OPEN, ca_crew_key = None, ca_effective_tier = NORMAL,
                      ca_created_by = reopener, ca_created_at = now, ca_closed_at = None, ca_closed_by = None,
                      ca_close_reason = None, ca_archived_at = None, ca_archived_by = None,
                      ca_archive_reason = None, ca_parent_case_id = Some (ca_id c),
                      ca_seed_roots = ca_seed_roots c, ca_redundancy = ca_redundancy c,
                      ca_auto_join = ca_auto_join c, ca_score_threshold = ca_score_threshold c\<rparr>
                  in if tbl_has ca_id new_id (cs_cases S) \<or> \<not> case_checks s
                     then (Inl (IntegrityError ''case_v2''), S)
                     else emit_case_audit E ''eyenet.audit.case.reopened'' ''cases.case_reopened'' audit_id (Some reopener)
                            new_id [(''parent_case_id'', JUuid case_id), (''reason'', JStr reason)] now cx s
                            (S\<lparr>cs_cases := cs_cases S @ [s]\<rparr>)))"

definition update_case_discovery_policy ::
  "audit_env \<Rightarrow> uuid \<Rightarrow> uuid \<Rightarrow> uuid list option \<Rightarrow> redundancy_policy option \<Rightarrow> auto_join_policy option
   \<Rightarrow> rat option \<Rightarrow> bool \<Rightarrow> uuid \<Rightarrow> time \<Rightarrow> audit_ctx \<Rightarrow> cases_store \<Rightarrow> (case_row, cases_store) outcome" where
  "update_case_discovery_policy E audit_id case_id roots red auto thr clear_thr editor now cx S =
     (case tbl_get ca_id case_id (cs_cases S) of
        None \<Rightarrow> (Inl (CaseError ''case not found''), S)
      | Some c0 \<Rightarrow>
        change_case case_id
          (\<lambda>c. if ca_status c = Case_ARCHIVED then Some ''archived cases cannot be updated'' else None)
          (\<lambda>c. c\<lparr>ca_seed_roots := (case roots of None \<Rightarrow> ca_seed_roots c | Some r \<Rightarrow> r),
                 ca_redundancy := (case red of None \<Rightarrow> ca_redundancy c | Some r \<Rightarrow> r),
                 ca_auto_join := (case auto of None \<Rightarrow> ca_auto_join c | Some a \<Rightarrow> a),
                 ca_score_threshold := (if clear_thr then None
                    else (case thr of None \<Rightarrow> ca_score_threshold c | Some t \<Rightarrow> Some t))\<rparr>)
          (\<lambda>c. if roots \<noteq> None \<and> roots \<noteq> Some (ca_seed_roots c0)
               then emit_case_audit E ''eyenet.audit.case.seed_roots_changed'' ''cases.case_seed_roots_changed'' audit_id
                      (Some editor) case_id
                      [(''from'', JList (map JUuid (ca_seed_roots c0))), (''to'', JList (map JUuid (ca_seed_roots c)))]
                      now cx c
               else (\<lambda>S. (Inr c, S))) S)"

section \<open>Reads\<close>

definition get_case :: "uuid \<Rightarrow> cases_store \<Rightarrow> case_row option" where
  "get_case case_id S = tbl_get ca_id case_id (cs_cases S)"

definition get_case_by_crew_key :: "string \<Rightarrow> cases_store \<Rightarrow> case_row option" where
  "get_case_by_crew_key key S = find (\<lambda>c. ca_crew_key c = Some key) (cs_cases S)"

record case_query =
  cq_status :: "case_status option"
  cq_since :: "time option"
  cq_until :: "time option"
  cq_collaborator :: "uuid option"

definition cases_filtered :: "case_query \<Rightarrow> cases_store \<Rightarrow> case_row list" where
  "cases_filtered q S = filter (\<lambda>c.
       (case cq_status q of None \<Rightarrow> True | Some s \<Rightarrow> ca_status c = s)
     \<and> (case cq_since q of None \<Rightarrow> True | Some t \<Rightarrow> t \<le> ca_created_at c)
     \<and> (case cq_until q of None \<Rightarrow> True | Some t \<Rightarrow> ca_created_at c < t)
     \<and> (case cq_collaborator q of None \<Rightarrow> True
        | Some u \<Rightarrow> ca_id c \<in> co_case_id ` set (filter (\<lambda>r. co_user_id r = u \<and> co_revoked_at r = None) (cs_collabs S))))
     (cs_cases S)"

definition list_cases :: "case_query \<Rightarrow> nat \<Rightarrow> nat \<Rightarrow> cases_store \<Rightarrow> case_row list" where
  "list_cases q limit offset S = page offset limit (order_desc ca_created_at (cases_filtered q S))"

definition count_cases :: "case_query \<Rightarrow> cases_store \<Rightarrow> nat" where
  "count_cases q S = length (cases_filtered q S)"

text \<open>
  \<open>mention_roots\<close>: the \<open>seed_root_id\<close> column of the candidate's mentions. Rows with equal
  \<open>created_at\<close> are met in table order.
\<close>

definition resolve_case_for_candidate :: "uuid option list \<Rightarrow> cases_store \<Rightarrow> case_row option" where
  "resolve_case_for_candidate mention_roots S =
     (let seed_roots = map the (filter (\<lambda>r. r \<noteq> None) mention_roots)
      in if seed_roots = [] then None
         else find (\<lambda>c. \<exists>r\<in>set seed_roots. r \<in> set (ca_seed_roots c)) (order_asc ca_created_at (cs_cases S)))"

definition list_case_members :: "uuid \<Rightarrow> cases_store \<Rightarrow> member_row list" where
  "list_case_members case_id S = filter (\<lambda>m. me_case_id m = case_id \<and> me_removed_at m = None) (cs_members S)"

definition list_case_collaborators :: "uuid \<Rightarrow> cases_store \<Rightarrow> collab_row list" where
  "list_case_collaborators case_id S =
     filter (\<lambda>r. co_case_id r = case_id \<and> co_revoked_at r = None) (cs_collabs S)"

section \<open>Effective tier\<close>

definition member_rank :: "reclass_store \<Rightarrow> member_row \<Rightarrow> nat" where
  "member_rank R m =
     (case me_subject_kind m of
        Subj_OBSERVATION \<Rightarrow> (case tbl_get tr_id (me_subject_id m) (rc_observations R) of
            None \<Rightarrow> 0 | Some row \<Rightarrow> TIER_RANK (effective_tier row))
      | Subj_ATTACHMENT \<Rightarrow> (case tbl_get tr_id (me_subject_id m) (rc_attachments R) of
            None \<Rightarrow> 0 | Some row \<Rightarrow> TIER_RANK (effective_tier row))
      | _ \<Rightarrow> 0)"

definition recompute_effective_tier :: "uuid \<Rightarrow> cases_store \<Rightarrow> sensitivity_tier" where
  "recompute_effective_tier case_id S =
     the (RANK_TIER (fold (\<lambda>m r. max r (member_rank (cs_evidence S) m)) (list_case_members case_id S) 0))"

definition maybe_emit_tier_change ::
  "audit_env \<Rightarrow> uuid \<Rightarrow> uuid \<Rightarrow> uuid \<Rightarrow> time \<Rightarrow> audit_ctx \<Rightarrow> 'a \<Rightarrow> cases_store \<Rightarrow> ('a, cases_store) outcome" where
  "maybe_emit_tier_change E audit_id case_id actor now cx v S =
     (case tbl_get ca_id case_id (cs_cases S) of
        None \<Rightarrow> (Inr v, S)
      | Some c \<Rightarrow>
          let new_tier = recompute_effective_tier case_id S
          in if new_tier = ca_effective_tier c then (Inr v, S)
             else emit_case_audit E ''eyenet.audit.case.tier_changed'' ''cases.case_tier_changed'' audit_id (Some actor) case_id
                    [(''from'', JStr (sensitivity_tier_value (ca_effective_tier c))),
                     (''to'', JStr (sensitivity_tier_value new_tier))] now cx v
                    (S\<lparr>cs_cases := tbl_save ca_id (c\<lparr>ca_effective_tier := new_tier\<rparr>) (cs_cases S)\<rparr>))"

section \<open>Members and collaborators\<close>

text \<open>A call audits, and when that raises the tier is not recomputed.\<close>

definition audit_then_tier ::
  "('a, cases_store) outcome \<Rightarrow> ('a \<Rightarrow> cases_store \<Rightarrow> ('a, cases_store) outcome) \<Rightarrow> ('a, cases_store) outcome" where
  "audit_then_tier r k = (case r of (Inl e, S) \<Rightarrow> (Inl e, S) | (Inr v, S) \<Rightarrow> k v S)"

definition add_case_member ::
  "audit_env \<Rightarrow> uuid \<Rightarrow> uuid \<Rightarrow> uuid \<Rightarrow> uuid \<Rightarrow> case_subject_kind \<Rightarrow> uuid \<Rightarrow> uuid \<Rightarrow> string \<Rightarrow> time \<Rightarrow> audit_ctx
   \<Rightarrow> cases_store \<Rightarrow> (member_row, cases_store) outcome" where
  "add_case_member E new_id audit_id tier_audit_id case_id kind subject added_by reason now cx S =
     (if length reason < 16 then (Inl (CaseError ''add_reason must be at least 16 characters''), S)
      else (case tbl_get ca_id case_id (cs_cases S) of
        None \<Rightarrow> (Inl (CaseError ''case not found''), S)
      | Some c \<Rightarrow>
        if ca_status c = Case_ARCHIVED then (Inl (CaseError ''cannot add members to an archived case''), S)
        else if find (member_active case_id kind subject) (cs_members S) \<noteq> None
        then (Inl (CaseError ''already an active member''), S)
        else
          let m = \<lparr>me_id = new_id, me_case_id = case_id, me_subject_kind = kind, me_subject_id = subject,
                   me_added_by = added_by, me_added_at = now, me_add_reason = reason, me_removed_at = None,
                   me_removed_by = None, me_removal_reason = None\<rparr>
          in if tbl_has me_id new_id (cs_members S) then (Inl (IntegrityError ''case_member''), S)
             else audit_then_tier
               (emit_case_audit E ''eyenet.audit.case.member_added'' ''cases.case_member_added'' audit_id (Some added_by)
                  case_id [(''member_id'', JUuid new_id), (''subject_kind'', JStr (case_subject_kind_value kind)),
                     (''subject_id'', JUuid subject), (''reason'', JStr reason)] now cx m
                  (S\<lparr>cs_members := cs_members S @ [m]\<rparr>))
               (maybe_emit_tier_change E tier_audit_id case_id added_by now cx)))"

definition remove_case_member ::
  "audit_env \<Rightarrow> uuid \<Rightarrow> uuid \<Rightarrow> uuid \<Rightarrow> uuid \<Rightarrow> string \<Rightarrow> time \<Rightarrow> audit_ctx
   \<Rightarrow> cases_store \<Rightarrow> (member_row, cases_store) outcome" where
  "remove_case_member E audit_id tier_audit_id member_id remover reason now cx S =
     (if length reason < 16 then (Inl (CaseError ''removal reason must be at least 16 characters''), S)
      else (case tbl_get me_id member_id (cs_members S) of
        None \<Rightarrow> (Inl (CaseError ''member not found''), S)
      | Some m \<Rightarrow>
        if me_removed_at m \<noteq> None then (Inl (CaseError ''member already removed''), S)
        else
          let m' = m\<lparr>me_removed_at := Some now, me_removed_by := Some remover, me_removal_reason := Some reason\<rparr>
          in audit_then_tier
               (emit_case_audit E ''eyenet.audit.case.member_removed'' ''cases.case_member_removed'' audit_id (Some remover)
                  (me_case_id m) [(''member_id'', JUuid (me_id m)),
                     (''subject_kind'', JStr (case_subject_kind_value (me_subject_kind m))),
                     (''subject_id'', JUuid (me_subject_id m)), (''reason'', JStr reason)] now cx m'
                  (S\<lparr>cs_members := tbl_save me_id m' (cs_members S)\<rparr>))
               (maybe_emit_tier_change E tier_audit_id (me_case_id m) remover now cx)))"

definition add_case_collaborator ::
  "audit_env \<Rightarrow> uuid \<Rightarrow> uuid \<Rightarrow> uuid \<Rightarrow> uuid \<Rightarrow> case_role_on_case \<Rightarrow> uuid \<Rightarrow> time \<Rightarrow> audit_ctx
   \<Rightarrow> cases_store \<Rightarrow> (collab_row, cases_store) outcome" where
  "add_case_collaborator E new_id audit_id case_id user role granted_by now cx S =
     (case tbl_get ca_id case_id (cs_cases S) of
        None \<Rightarrow> (Inl (CaseError ''case not found''), S)
      | Some c \<Rightarrow>
        if ca_status c = Case_ARCHIVED then (Inl (CaseError ''cannot add collaborators to an archived case''), S)
        else if find (collab_active case_id user) (cs_collabs S) \<noteq> None
        then (Inl (CaseError ''already an active collaborator''), S)
        else
          let r = \<lparr>co_id = new_id, co_case_id = case_id, co_user_id = user, co_role = role,
                   co_granted_by = granted_by, co_granted_at = now, co_revoked_at = None, co_revoked_by = None,
                   co_revocation_reason = None\<rparr>
          in if tbl_has co_id new_id (cs_collabs S) then (Inl (IntegrityError ''case_collaborator''), S)
             else emit_case_audit E ''eyenet.audit.case.collaborator_added'' ''cases.case_collaborator_added'' audit_id
                    (Some granted_by) case_id [(''collaborator_id'', JUuid new_id), (''user_id'', JUuid user),
                       (''role'', JStr (case_role_on_case_value role))] now cx r
                    (S\<lparr>cs_collabs := cs_collabs S @ [r]\<rparr>))"

definition revoke_case_collaborator ::
  "audit_env \<Rightarrow> uuid \<Rightarrow> uuid \<Rightarrow> uuid \<Rightarrow> string \<Rightarrow> time \<Rightarrow> audit_ctx
   \<Rightarrow> cases_store \<Rightarrow> (collab_row, cases_store) outcome" where
  "revoke_case_collaborator E audit_id collab_id revoker reason now cx S =
     (if length reason < 16 then (Inl (CaseError ''revocation reason must be at least 16 characters''), S)
      else (case tbl_get co_id collab_id (cs_collabs S) of
        None \<Rightarrow> (Inl (CaseError ''collaborator not found''), S)
      | Some r \<Rightarrow>
        if co_revoked_at r \<noteq> None then (Inl (CaseError ''collaborator already revoked''), S)
        else
          let r' = r\<lparr>co_revoked_at := Some now, co_revoked_by := Some revoker, co_revocation_reason := Some reason\<rparr>
          in emit_case_audit E ''eyenet.audit.case.collaborator_revoked'' ''cases.case_collaborator_revoked'' audit_id
               (Some revoker) (co_case_id r) [(''collaborator_id'', JUuid (co_id r)),
                  (''user_id'', JUuid (co_user_id r)), (''reason'', JStr reason)] now cx r'
               (S\<lparr>cs_collabs := tbl_save co_id r' (cs_collabs S)\<rparr>)))"

definition emit_case_access_denied ::
  "audit_env \<Rightarrow> uuid \<Rightarrow> uuid \<Rightarrow> uuid \<Rightarrow> string \<Rightarrow> time \<Rightarrow> audit_ctx \<Rightarrow> cases_store \<Rightarrow> (unit, cases_store) outcome" where
  "emit_case_access_denied E audit_id case_id user reason now cx S =
     emit_case_audit E ''eyenet.audit.case.access_denied'' ''cases.case_access_denied'' audit_id (Some user) case_id
       [(''reason'', JStr reason)] now cx () S"

section \<open>What a call does to the tables\<close>

inductive status_edge :: "case_status \<Rightarrow> case_status \<Rightarrow> bool" where
  close: "status_edge Case_OPEN Case_CLOSED"
| reopen: "status_edge Case_CLOSED Case_OPEN"
| archive: "status_edge Case_CLOSED Case_ARCHIVED"

inductive_simps status_edge_simps: "status_edge s t"

lemma archived_no_edge [simp]: "\<not> status_edge Case_ARCHIVED t"
  by (simp add: status_edge_simps)

text \<open>The closing and archiving columns say what the status says.\<close>

definition case_consistent :: "case_row \<Rightarrow> bool" where
  "case_consistent c \<longleftrightarrow> (ca_status c = Case_OPEN \<longleftrightarrow> ca_closed_at c = None)
     \<and> (ca_status c = Case_ARCHIVED \<longleftrightarrow> ca_archived_at c \<noteq> None)"

text \<open>An edit or a move of a case that is not archived; what never changes is kept.\<close>

definition case_edge :: "case_row \<Rightarrow> case_row \<Rightarrow> bool" where
  "case_edge c c' \<longleftrightarrow> ca_status c \<noteq> Case_ARCHIVED
     \<and> (ca_status c' = ca_status c \<or> status_edge (ca_status c) (ca_status c'))
     \<and> ca_id c' = ca_id c \<and> ca_created_by c' = ca_created_by c \<and> ca_created_at c' = ca_created_at c
     \<and> ca_parent_case_id c' = ca_parent_case_id c \<and> ca_crew_key c' = ca_crew_key c
     \<and> (case_consistent c \<longrightarrow> case_consistent c')"

inductive case_prim :: "cases_store \<Rightarrow> cases_store \<Rightarrow> bool" where
  evidence: "case_prim S (S\<lparr>cs_evidence := R\<rparr>)"
| opened: "ca_status c = Case_OPEN \<Longrightarrow> case_consistent c \<Longrightarrow> case_checks c \<Longrightarrow> \<not> tbl_has ca_id (ca_id c) (cs_cases S)
    \<Longrightarrow> case_prim S (S\<lparr>cs_cases := cs_cases S @ [c]\<rparr>)"
| moved: "tbl_get ca_id (ca_id c') (cs_cases S) = Some c \<Longrightarrow> case_edge c c' \<Longrightarrow> case_checks c'
    \<Longrightarrow> case_prim S (S\<lparr>cs_cases := tbl_save ca_id c' (cs_cases S)\<rparr>)"
| retiered: "tbl_get ca_id i (cs_cases S) = Some c
    \<Longrightarrow> case_prim S (S\<lparr>cs_cases := tbl_save ca_id (c\<lparr>ca_effective_tier := t\<rparr>) (cs_cases S)\<rparr>)"
| joined: "tbl_get ca_id (me_case_id m) (cs_cases S) = Some c \<Longrightarrow> ca_status c \<noteq> Case_ARCHIVED
    \<Longrightarrow> find (member_active (me_case_id m) (me_subject_kind m) (me_subject_id m)) (cs_members S) = None
    \<Longrightarrow> member_checks m \<Longrightarrow> \<not> tbl_has me_id (me_id m) (cs_members S)
    \<Longrightarrow> case_prim S (S\<lparr>cs_members := cs_members S @ [m]\<rparr>)"
| left: "tbl_get me_id i (cs_members S) = Some m
    \<Longrightarrow> case_prim S (S\<lparr>cs_members := tbl_save me_id
          (m\<lparr>me_removed_at := Some now, me_removed_by := Some u, me_removal_reason := Some r\<rparr>) (cs_members S)\<rparr>)"
| granted: "tbl_get ca_id (co_case_id m) (cs_cases S) = Some c \<Longrightarrow> ca_status c \<noteq> Case_ARCHIVED
    \<Longrightarrow> find (collab_active (co_case_id m) (co_user_id m)) (cs_collabs S) = None
    \<Longrightarrow> \<not> tbl_has co_id (co_id m) (cs_collabs S) \<Longrightarrow> co_revoked_at m = None
    \<Longrightarrow> case_prim S (S\<lparr>cs_collabs := cs_collabs S @ [m]\<rparr>)"
| withdrawn: "tbl_get co_id i (cs_collabs S) = Some m
    \<Longrightarrow> case_prim S (S\<lparr>cs_collabs := tbl_save co_id
          (m\<lparr>co_revoked_at := Some now, co_revoked_by := Some u, co_revocation_reason := Some r\<rparr>) (cs_collabs S)\<rparr>)"

lemma emit_store:
  "\<exists>A. snd (emit_case_audit E ev h a u c p now cx v S) = S\<lparr>cs_evidence := (cs_evidence S)\<lparr>rc_audit := A\<rparr>\<rparr>"
  by (auto simp: emit_case_audit_def split: prod.splits sum.splits)

lemma emit_fields [simp]:
  "cs_cases (snd (emit_case_audit E ev h a u c p now cx v S)) = cs_cases S"
  "cs_members (snd (emit_case_audit E ev h a u c p now cx v S)) = cs_members S"
  "cs_collabs (snd (emit_case_audit E ev h a u c p now cx v S)) = cs_collabs S"
  "rc_observations (cs_evidence (snd (emit_case_audit E ev h a u c p now cx v S))) = rc_observations (cs_evidence S)"
  "rc_attachments (cs_evidence (snd (emit_case_audit E ev h a u c p now cx v S))) = rc_attachments (cs_evidence S)"
  using emit_store [of E ev h a u c p now cx v S] by auto

lemma emit_value: "fst (emit_case_audit E ev h a u c p now cx v S) = Inr w \<Longrightarrow> w = v"
  by (auto simp: emit_case_audit_def split: prod.splits sum.splits)

lemma emit_prim: "case_prim S (snd (emit_case_audit E ev h a u c p now cx v S))"
  using emit_store [of E ev h a u c p now cx v S] evidence by metis

lemma emit_prims: "case_prim\<^sup>*\<^sup>* S (snd (emit_case_audit E ev h a u c p now cx v S))"
  by (rule r_into_rtranclp [of case_prim, OF emit_prim])

lemma then_emit: "case_prim S T \<Longrightarrow> case_prim\<^sup>*\<^sup>* S (snd (emit_case_audit E ev h a u c p now cx v T))"
  using emit_prim by (meson r_into_rtranclp rtranclp.rtrancl_into_rtrancl)

lemma change_case_prim:
  assumes "\<And>c. tbl_get ca_id i (cs_cases S) = Some c \<Longrightarrow> guard c = None \<Longrightarrow> case_edge c (upd c)"
    and "\<And>c T. case_prim\<^sup>*\<^sup>* T (snd (audit c T))"
  shows "case_prim\<^sup>*\<^sup>* S (snd (change_case i guard upd audit S))"
proof (cases "tbl_get ca_id i (cs_cases S)")
  case None
  then show ?thesis by (simp add: change_case_def)
next
  case (Some c)
  show ?thesis
  proof (cases "guard c = None \<and> case_checks (upd c)")
    case True
    then have e: "case_edge c (upd c)" using assms(1) Some by blast
    moreover have "tbl_get ca_id (ca_id (upd c)) (cs_cases S) = Some c"
      using e Some tbl_get_SomeD unfolding case_edge_def by metis
    ultimately have "case_prim S (S\<lparr>cs_cases := tbl_save ca_id (upd c) (cs_cases S)\<rparr>)"
      using True moved by blast
    then show ?thesis
      using assms(2) True Some
      by (auto simp: change_case_def Let_def intro: converse_rtranclp_into_rtranclp)
  next
    case False
    with Some show ?thesis by (auto simp: change_case_def Let_def split: option.splits)
  qed
qed

lemma create_case_prim: "case_prim\<^sup>*\<^sup>* S (snd (create_case E n a title d u k now cx S))"
  by (auto simp: create_case_def Let_def intro!: then_emit opened)
    (auto simp: case_consistent_def)

lemma update_case_prim: "case_prim\<^sup>*\<^sup>* S (snd (update_case E a i title d u now cx S))"
  by (cases "tbl_get ca_id i (cs_cases S)")
    (auto simp: update_case_def Let_def case_edge_def case_consistent_def intro!: change_case_prim emit_prims)

lemma close_case_prim: "case_prim\<^sup>*\<^sup>* S (snd (close_case E a i u r now cx S))"
  by (auto simp: close_case_def case_edge_def case_consistent_def status_edge_simps
      split: if_splits intro!: change_case_prim emit_prims)

lemma reopen_case_prim: "case_prim\<^sup>*\<^sup>* S (snd (reopen_case E a i u now cx S))"
  by (auto simp: reopen_case_def case_edge_def case_consistent_def status_edge_simps
      split: if_splits intro!: change_case_prim emit_prims)

lemma archive_case_prim: "case_prim\<^sup>*\<^sup>* S (snd (archive_case E a i u r now cx S))"
  by (auto simp: archive_case_def case_edge_def case_consistent_def status_edge_simps
      split: if_splits intro!: change_case_prim emit_prims)

lemma policy_prim: "case_prim\<^sup>*\<^sup>* S (snd (update_case_discovery_policy E a i rs rd au th cl u now cx S))"
  by (auto simp: update_case_discovery_policy_def case_edge_def case_consistent_def
      split: if_splits option.splits intro!: change_case_prim emit_prims)

lemma reopen_archived_prim: "case_prim\<^sup>*\<^sup>* S (snd (reopen_archived_case E n a i u r now cx S))"
  by (auto simp: reopen_archived_case_def Let_def split: option.splits intro!: then_emit opened)
    (auto simp: case_consistent_def)


lemma tier_change_prim: "case_prim\<^sup>*\<^sup>* S (snd (maybe_emit_tier_change E a i u now cx v S))"
  by (auto simp: maybe_emit_tier_change_def Let_def split: option.splits intro: then_emit retiered)

lemma audit_then_prim:
  assumes "case_prim\<^sup>*\<^sup>* S (snd r)" and "\<And>v T. case_prim\<^sup>*\<^sup>* T (snd (k v T))"
  shows "case_prim\<^sup>*\<^sup>* S (snd (audit_then_tier r k))"
  using assms by (auto simp: audit_then_tier_def split: prod.splits sum.splits intro: rtranclp_trans)

lemma add_member_prim:
  "case_prim\<^sup>*\<^sup>* S (snd (add_case_member E n a a2 i k s u r now cx S))"
  by (auto simp: add_case_member_def Let_def split: option.splits
      intro!: audit_then_prim tier_change_prim then_emit joined)
    (auto simp: member_checks_def triplet_def)

lemma remove_member_prim:
  "case_prim\<^sup>*\<^sup>* S (snd (remove_case_member E a a2 i u r now cx S))"
  by (auto simp: remove_case_member_def Let_def split: option.splits
      intro!: audit_then_prim tier_change_prim then_emit left)

lemma add_collab_prim:
  "case_prim\<^sup>*\<^sup>* S (snd (add_case_collaborator E n a i s ro u now cx S))"
  by (auto simp: add_case_collaborator_def Let_def split: option.splits intro!: then_emit granted)

lemma revoke_collab_prim:
  "case_prim\<^sup>*\<^sup>* S (snd (revoke_case_collaborator E a i u r now cx S))"
  by (auto simp: revoke_case_collaborator_def Let_def split: option.splits intro!: then_emit withdrawn)

section \<open>Invariant and life cycle\<close>

definition cases_wf :: "cases_store \<Rightarrow> bool" where
  "cases_wf S \<longleftrightarrow>
     keyed ca_id (cs_cases S) \<and> keyed me_id (cs_members S) \<and> keyed co_id (cs_collabs S)
   \<and> (\<forall>c\<in>set (cs_cases S). case_checks c \<and> case_consistent c)
   \<and> (\<forall>m\<in>set (cs_members S). member_checks m \<and> tbl_has ca_id (me_case_id m) (cs_cases S))
   \<and> (\<forall>r\<in>set (cs_collabs S). tbl_has ca_id (co_case_id r) (cs_cases S))
   \<and> distinct (map (\<lambda>m. (me_case_id m, me_subject_kind m, me_subject_id m))
                   (filter (\<lambda>m. me_removed_at m = None) (cs_members S)))
   \<and> distinct (map (\<lambda>r. (co_case_id r, co_user_id r)) (filter (\<lambda>r. co_revoked_at r = None) (cs_collabs S)))"

lemma distinct_filter_save:
  assumes "distinct (map f (filter P rows))" and "\<not> P x"
  shows "distinct (map f (filter P (tbl_save pk x rows)))"
proof -
  have "filter P (tbl_save pk x rows) = filter (\<lambda>r. pk r \<noteq> pk x) (filter P rows)"
    using assms(2) by (induction rows) (auto simp: tbl_save_def)
  then show ?thesis using assms(1) by (simp add: distinct_map_filter del: filter_filter)
qed

lemma tbl_has_snoc [simp]: "tbl_has pk k (rows @ [r]) \<longleftrightarrow> tbl_has pk k rows \<or> k = pk r"
  by (auto simp: tbl_has_def)

lemma case_prim_wf: "case_prim S T \<Longrightarrow> cases_wf S \<Longrightarrow> cases_wf T"
proof (induction rule: case_prim.induct)
  case (evidence S R)
  then show ?case by (simp add: cases_wf_def)
next
  case (opened c S)
  then show ?case by (auto simp: cases_wf_def)
next
  case (moved c' S c)
  then have "c \<in> set (cs_cases S)" using tbl_get_SomeD by fast
  with moved show ?case
    by (auto simp: cases_wf_def case_edge_def dest!: set_tbl_save_sub)
next
  case (retiered i S c t)
  then have "c \<in> set (cs_cases S)" using tbl_get_SomeD by fast
  then have "case_checks c" "case_consistent c" using retiered(2) by (auto simp: cases_wf_def)
  then have "case_checks (c\<lparr>ca_effective_tier := t\<rparr>)" "case_consistent (c\<lparr>ca_effective_tier := t\<rparr>)"
    by (simp_all add: case_checks_def case_consistent_def)
  with retiered show ?case by (auto simp: cases_wf_def dest!: set_tbl_save_sub)
next
  case (joined m S c)
  have "tbl_has ca_id (me_case_id m) (cs_cases S)" using joined(1) by (rule tbl_get_Some_has)
  with joined show ?case
    by (auto simp: cases_wf_def find_None_iff_all member_active_def)
next
  case (left i S m r u now)
  then have m: "m \<in> set (cs_members S)" using tbl_get_SomeD by fast
  let ?m = "m\<lparr>me_removed_at := Some now, me_removed_by := Some u, me_removal_reason := Some r\<rparr>"
  have "member_checks ?m" "tbl_has ca_id (me_case_id ?m) (cs_cases S)"
    using m left(2) by (auto simp: cases_wf_def member_checks_def triplet_def)
  with left m show ?case
    by (auto simp: cases_wf_def distinct_filter_save dest!: set_tbl_save_sub)
next
  case (granted m S c)
  have "tbl_has ca_id (co_case_id m) (cs_cases S)" using granted(1) by (rule tbl_get_Some_has)
  with granted show ?case
    by (auto simp: cases_wf_def find_None_iff_all collab_active_def)
next
  case (withdrawn i S m r u now)
  then have m: "m \<in> set (cs_collabs S)" using tbl_get_SomeD by fast
  then have "tbl_has ca_id (co_case_id m) (cs_cases S)" using withdrawn(2) by (simp add: cases_wf_def)
  with withdrawn m show ?case
    by (auto simp: cases_wf_def distinct_filter_save dest!: set_tbl_save_sub)
qed

lemma case_prims_wf: "case_prim\<^sup>*\<^sup>* S T \<Longrightarrow> cases_wf S \<Longrightarrow> cases_wf T"
  by (induction rule: rtranclp_induct) (auto intro: case_prim_wf)


datatype case_op =
    Co_Create uuid uuid string "string option" uuid "string option" time audit_ctx
  | Co_Update uuid uuid "string option" "string option" uuid time audit_ctx
  | Co_Close uuid uuid uuid string time audit_ctx
  | Co_Reopen uuid uuid uuid time audit_ctx
  | Co_Archive uuid uuid uuid string time audit_ctx
  | Co_Successor uuid uuid uuid uuid string time audit_ctx
  | Co_Policy uuid uuid "uuid list option" "redundancy_policy option" "auto_join_policy option" "rat option" bool
      uuid time audit_ctx
  | Co_AddMember uuid uuid uuid uuid case_subject_kind uuid uuid string time audit_ctx
  | Co_RemoveMember uuid uuid uuid uuid string time audit_ctx
  | Co_AddCollab uuid uuid uuid uuid case_role_on_case uuid time audit_ctx
  | Co_RevokeCollab uuid uuid uuid string time audit_ctx
  | Co_Denied uuid uuid uuid string time audit_ctx
  | Co_Evidence reclass_op

primrec case_exec :: "audit_env \<Rightarrow> case_op \<Rightarrow> cases_store \<Rightarrow> cases_store" where
  "case_exec E (Co_Create n a t d u k now cx) S = snd (create_case E n a t d u k now cx S)"
| "case_exec E (Co_Update a i t d u now cx) S = snd (update_case E a i t d u now cx S)"
| "case_exec E (Co_Close a i u r now cx) S = snd (close_case E a i u r now cx S)"
| "case_exec E (Co_Reopen a i u now cx) S = snd (reopen_case E a i u now cx S)"
| "case_exec E (Co_Archive a i u r now cx) S = snd (archive_case E a i u r now cx S)"
| "case_exec E (Co_Successor n a i u r now cx) S = snd (reopen_archived_case E n a i u r now cx S)"
| "case_exec E (Co_Policy a i rs rd au th cl u now cx) S =
     snd (update_case_discovery_policy E a i rs rd au th cl u now cx S)"
| "case_exec E (Co_AddMember n a a2 i k s u r now cx) S = snd (add_case_member E n a a2 i k s u r now cx S)"
| "case_exec E (Co_RemoveMember a a2 i u r now cx) S = snd (remove_case_member E a a2 i u r now cx S)"
| "case_exec E (Co_AddCollab n a i s ro u now cx) S = snd (add_case_collaborator E n a i s ro u now cx S)"
| "case_exec E (Co_RevokeCollab a i u r now cx) S = snd (revoke_case_collaborator E a i u r now cx S)"
| "case_exec E (Co_Denied a i u r now cx) S = snd (emit_case_access_denied E a i u r now cx S)"
| "case_exec E (Co_Evidence p) S = S\<lparr>cs_evidence := reclass_exec E p (cs_evidence S)\<rparr>"

lemmas case_op_prims = create_case_prim update_case_prim close_case_prim reopen_case_prim archive_case_prim
  reopen_archived_prim policy_prim add_member_prim remove_member_prim add_collab_prim revoke_collab_prim

lemma case_exec_prims: "case_prim\<^sup>*\<^sup>* S (case_exec E p S)"
  by (cases p) (simp_all add: case_op_prims emit_case_access_denied_def emit_prims
      r_into_rtranclp [of case_prim, OF evidence])

lemma case_run_prims: "case_prim\<^sup>*\<^sup>* S (fold (case_exec E) ps S)"
  by (induction ps arbitrary: S) (auto intro: rtranclp_trans case_exec_prims)

text \<open>A case up to its materialised tier, which evidence may move even after archiving.\<close>

definition frozen :: "case_row \<Rightarrow> case_row" where
  "frozen c = c\<lparr>ca_effective_tier := NORMAL\<rparr>"

definition case_state :: "uuid \<Rightarrow> cases_store \<Rightarrow> case_row option" where
  "case_state i S = map_option frozen (tbl_get ca_id i (cs_cases S))"

lemma frozen_edge [simp]: "case_edge (frozen c) (frozen c') = case_edge c c'"
  by (simp add: case_edge_def frozen_def case_consistent_def)

lemma case_prim_edge:
  "case_prim S T \<Longrightarrow> case_state i S = Some q \<Longrightarrow> \<exists>q'. case_state i T = Some q' \<and> case_edge\<^sup>*\<^sup>* q q'"
proof (induction rule: case_prim.induct)
  case (moved c' S c)
  show ?case
  proof (cases "i = ca_id c'")
    case True
    then have "case_state i (S\<lparr>cs_cases := tbl_save ca_id c' (cs_cases S)\<rparr>) = Some (frozen c')"
      and "q = frozen c"
      using moved tbl_get_Some_has [OF moved(1)] by (auto simp: case_state_def tbl_get_tbl_save)
    moreover have "case_edge (frozen c) (frozen c')" using moved(2) by simp
    ultimately show ?thesis by blast
  next
    case False
    then show ?thesis using moved by (auto simp: case_state_def tbl_get_tbl_save)
  qed
next
  case (retiered j S c t)
  then show ?case
    using tbl_get_SomeD [OF retiered(1)] tbl_get_Some_has [OF retiered(1)]
    by (auto simp: case_state_def tbl_get_tbl_save frozen_def)
qed (auto simp: case_state_def tbl_get_append)

lemma case_prims_edge:
  "case_prim\<^sup>*\<^sup>* S T \<Longrightarrow> case_state i S = Some q \<Longrightarrow> \<exists>q'. case_state i T = Some q' \<and> case_edge\<^sup>*\<^sup>* q q'"
proof (induction arbitrary: q rule: converse_rtranclp_induct)
  case base
  then show ?case by auto
next
  case (step S S')
  obtain q' where "case_state i S' = Some q'" "case_edge\<^sup>*\<^sup>* q q'"
    using case_prim_edge [OF step(1,4)] by blast
  with step(3) show ?case by (meson rtranclp_trans)
qed

text \<open>What one operation does to the cases: each keeps its row up to the tier, is opened, or makes one legal move.\<close>

definition one_move :: "cases_store \<Rightarrow> cases_store \<Rightarrow> bool" where
  "one_move S T \<longleftrightarrow> (\<forall>i. case_state i T = case_state i S
     \<or> (\<exists>q. case_state i T = Some q \<and> (case case_state i S of None \<Rightarrow> ca_status q = Case_OPEN | Some q0 \<Rightarrow> case_edge q0 q)))"

lemma one_move_same: "cs_cases T = cs_cases S \<Longrightarrow> one_move S T"
  by (simp add: one_move_def case_state_def)

lemma one_move_opened:
  assumes "cs_cases T = cs_cases S @ [c]" and "ca_status c = Case_OPEN"
  shows "one_move S T"
  using assms by (auto simp: one_move_def case_state_def tbl_get_append frozen_def split: option.split)

lemma one_move_saved:
  assumes "tbl_get ca_id i (cs_cases S) = Some c" and "case_edge c c'" and "cs_cases T = tbl_save ca_id c' (cs_cases S)"
  shows "one_move S T"
proof -
  have i: "ca_id c' = i" using assms(1,2) tbl_get_SomeD by (fastforce simp: case_edge_def)
  show ?thesis
    using assms tbl_get_Some_has [OF assms(1)] by (auto simp: one_move_def case_state_def tbl_get_tbl_save i split: option.split)
qed

lemma one_move_change:
  assumes "\<And>c. tbl_get ca_id i (cs_cases S) = Some c \<Longrightarrow> guard c = None \<Longrightarrow> case_edge c (upd c)"
    and "\<And>c T. cs_cases (snd (audit c T)) = cs_cases T"
  shows "one_move S (snd (change_case i guard upd audit S))"
proof (cases "\<exists>c. tbl_get ca_id i (cs_cases S) = Some c \<and> guard c = None \<and> case_checks (upd c)")
  case True
  then obtain c where c: "tbl_get ca_id i (cs_cases S) = Some c" "guard c = None" "case_checks (upd c)" by blast
  then show ?thesis
    by (intro one_move_saved [OF c(1) assms(1) [OF c(1,2)]]) (simp add: change_case_def Let_def assms(2))
next
  case False
  then show ?thesis by (intro one_move_same) (auto simp: change_case_def Let_def split: option.split)
qed

lemma tier_change_state: "case_state i (snd (maybe_emit_tier_change E a j u now cx v S)) = case_state i S"
proof (cases "tbl_get ca_id j (cs_cases S)")
  case (Some c)
  have c: "ca_id c = j" "tbl_has ca_id j (cs_cases S)" using tbl_get_SomeD [OF Some] tbl_get_Some_has [OF Some] by simp_all
  then have "tbl_get ca_id i (tbl_save ca_id (c\<lparr>ca_effective_tier := t\<rparr>) (cs_cases S))
      = (if i = j then Some (c\<lparr>ca_effective_tier := t\<rparr>) else tbl_get ca_id i (cs_cases S))" for t
    by (simp add: tbl_get_tbl_save)
  then show ?thesis using Some by (simp add: maybe_emit_tier_change_def Let_def case_state_def frozen_def)
qed (simp add: maybe_emit_tier_change_def)

lemma one_move_cong: "(\<And>i. case_state i T' = case_state i T) \<Longrightarrow> one_move S T' = one_move S T"
  by (simp add: one_move_def)

lemma audit_then_move:
  assumes "cs_cases (snd r) = cs_cases S"
  shows "one_move S (snd (audit_then_tier r (maybe_emit_tier_change E a j u now cx)))"
proof -
  have "case_state i (snd (audit_then_tier r (maybe_emit_tier_change E a j u now cx))) = case_state i (snd r)" for i
    by (simp add: audit_then_tier_def tier_change_state split: prod.split sum.split)
  then have "one_move S (snd (audit_then_tier r (maybe_emit_tier_change E a j u now cx))) = one_move S (snd r)" by (rule one_move_cong)
  then show ?thesis using one_move_same [OF assms] by simp
qed

lemma case_op_moves:
  "one_move S (snd (create_case E n a t d u k now cx S))"
  "one_move S (snd (update_case E a i ti d u now cx S))"
  "one_move S (snd (close_case E a i u r now cx S))"
  "one_move S (snd (reopen_case E a i u now cx S))"
  "one_move S (snd (archive_case E a i u r now cx S))"
  "one_move S (snd (reopen_archived_case E n a i u r now cx S))"
  "one_move S (snd (update_case_discovery_policy E a i rs rd au th cl u now cx S))"
  "one_move S (snd (add_case_member E n a a2 i ks s u r now cx S))"
  "one_move S (snd (remove_case_member E a a2 i u r now cx S))"
  "one_move S (snd (add_case_collaborator E n a i s ro u now cx S))"
  "one_move S (snd (revoke_case_collaborator E a i u r now cx S))"
proof -
  show "one_move S (snd (create_case E n a t d u k now cx S))"
    by (auto simp: create_case_def Let_def intro: one_move_opened one_move_same)
  show "one_move S (snd (update_case E a i ti d u now cx S))"
    by (cases "tbl_get ca_id i (cs_cases S)")
      (auto simp: update_case_def Let_def case_edge_def case_consistent_def intro!: one_move_change intro: one_move_same)
  show "one_move S (snd (close_case E a i u r now cx S))"
    by (auto simp: close_case_def case_edge_def case_consistent_def status_edge_simps
      split: if_splits intro!: one_move_change intro: one_move_same)
  show "one_move S (snd (reopen_case E a i u now cx S))"
    by (auto simp: reopen_case_def case_edge_def case_consistent_def status_edge_simps
      split: if_splits intro!: one_move_change intro: one_move_same)
  show "one_move S (snd (archive_case E a i u r now cx S))"
    by (auto simp: archive_case_def case_edge_def case_consistent_def status_edge_simps
      split: if_splits intro!: one_move_change intro: one_move_same)
  show "one_move S (snd (reopen_archived_case E n a i u r now cx S))"
    by (auto simp: reopen_archived_case_def Let_def intro: one_move_opened one_move_same split: option.split)
  show "one_move S (snd (update_case_discovery_policy E a i rs rd au th cl u now cx S))"
    by (auto simp: update_case_discovery_policy_def case_edge_def case_consistent_def
      split: if_splits option.splits intro!: one_move_change intro: one_move_same)
  show "one_move S (snd (add_case_member E n a a2 i ks s u r now cx S))"
    by (auto simp: add_case_member_def Let_def split: option.split intro!: audit_then_move intro: one_move_same)
  show "one_move S (snd (remove_case_member E a a2 i u r now cx S))"
    by (auto simp: remove_case_member_def Let_def split: option.split intro!: audit_then_move intro: one_move_same)
  show "one_move S (snd (add_case_collaborator E n a i s ro u now cx S))"
    by (auto simp: add_case_collaborator_def Let_def split: option.split intro!: one_move_same)
  show "one_move S (snd (revoke_case_collaborator E a i u r now cx S))"
    by (auto simp: revoke_case_collaborator_def Let_def split: option.split intro!: one_move_same)
qed

lemma case_edge_moves:
  assumes "case_edge q0 q"
  shows "(ca_status q0, ca_status q) \<in> {(Case_OPEN, Case_OPEN), (Case_CLOSED, Case_CLOSED), (Case_OPEN, Case_CLOSED),
      (Case_CLOSED, Case_OPEN), (Case_CLOSED, Case_ARCHIVED)}"
    and "ca_id q = ca_id q0 \<and> ca_created_by q = ca_created_by q0 \<and> ca_created_at q = ca_created_at q0
      \<and> ca_parent_case_id q = ca_parent_case_id q0 \<and> ca_crew_key q = ca_crew_key q0"
  using assms by (cases "ca_status q0"; cases "ca_status q"; simp add: case_edge_def status_edge_simps)+

lemma case_exec_move: "one_move S (case_exec E p S)"
  by (cases p) (simp_all add: case_op_moves emit_case_access_denied_def one_move_same)

interpretation case_life: lifecycle cases_wf "case_exec E" case_state case_edge "\<lambda>q. ca_status q = Case_OPEN" for E
proof
  show "cases_wf (case_exec E p S)" if "cases_wf S" for p S
    using case_prims_wf [OF case_exec_prims that] .
  show "\<exists>q'. case_state k (case_exec E p S) = Some q' \<and> case_edge\<^sup>*\<^sup>* q q'"
    if "case_state k S = Some q" for p S k q
    using case_prims_edge [OF case_exec_prims that] .
  show "ca_status q = Case_OPEN" if "case_state k S = None" "case_state k (case_exec E p S) = Some q" for p S k q
    using case_exec_move [of S E p, unfolded one_move_def, THEN spec, of k] unfolding that by simp
qed

definition no_cases :: cases_store where
  "no_cases = \<lparr>cs_cases = [], cs_members = [], cs_collabs = [], cs_evidence = empty_reclass\<rparr>"

lemma no_cases_wf: "cases_wf no_cases"
  by (simp add: cases_wf_def no_cases_def)

text \<open>An archived case keeps its row; no call adds a member or a collaborator to it.\<close>

lemma archived_prim:
  assumes "case_prim S T" and "case_state i S = Some q" and "ca_status q = Case_ARCHIVED"
  shows "case_state i T = Some q \<and> set (list_case_members i T) \<subseteq> set (list_case_members i S)
    \<and> set (list_case_collaborators i T) \<subseteq> set (list_case_collaborators i S)"
proof -
  obtain q' where "case_state i T = Some q'" "case_edge\<^sup>*\<^sup>* q q'"
    using case_prim_edge [OF assms(1,2)] by blast
  moreover have "\<not> case_edge q r" for r using assms(3) by (simp add: case_edge_def)
  ultimately have "case_state i T = Some q" by (metis converse_rtranclpE)
  moreover have st: "j \<noteq> i" if "tbl_get ca_id j (cs_cases S) = Some c" "ca_status c \<noteq> Case_ARCHIVED" for c j
    using assms(2,3) that by (auto simp: case_state_def frozen_def)
  from assms(1) have "set (list_case_members i T) \<subseteq> set (list_case_members i S)
      \<and> set (list_case_collaborators i T) \<subseteq> set (list_case_collaborators i S)"
    by cases (auto simp: list_case_members_def list_case_collaborators_def dest: st dest!: set_tbl_save_sub)
  ultimately show ?thesis by blast
qed

lemma archived_prims:
  assumes "case_prim\<^sup>*\<^sup>* S T" and "case_state i S = Some q" and "ca_status q = Case_ARCHIVED"
  shows "case_state i T = Some q \<and> set (list_case_members i T) \<subseteq> set (list_case_members i S)
    \<and> set (list_case_collaborators i T) \<subseteq> set (list_case_collaborators i S)"
  using assms
proof (induction rule: rtranclp_induct)
  case base
  then show ?case by simp
next
  case (step T U)
  then show ?case using archived_prim [OF step(2)] by blast
qed

section \<open>The effective tier\<close>

lemma member_rank_le: "member_rank R m \<le> 2"
  by (auto simp: member_rank_def split: case_subject_kind.split option.split)

lemma fold_max: "fold (\<lambda>m r. max r (f m)) ms (a :: nat) = Max (insert a (f ` set ms))"
proof (induction ms arbitrary: a)
  case Nil
  then show ?case by simp
next
  case (Cons m ms)
  have "insert (max a (f m)) (f ` set ms) \<noteq> {}" by simp
  show ?case using Cons by (cases "ms = []") (simp_all add: insert_commute max.assoc)
qed

lemma recompute_rank:
  "TIER_RANK (recompute_effective_tier i S) = Max (insert 0 (member_rank (cs_evidence S) ` set (list_case_members i S)))"
proof -
  let ?m = "Max (insert 0 (member_rank (cs_evidence S) ` set (list_case_members i S)))"
  have "?m \<le> 2" using member_rank_le by (auto simp: Max_le_iff)
  then have "?m = TIER_RANK NORMAL \<or> ?m = TIER_RANK RESTRICTED \<or> ?m = TIER_RANK CLASSIFIED"
    unfolding TIER_RANK.simps by linarith
  then obtain t where "?m = TIER_RANK t" by blast
  then show ?thesis by (simp add: recompute_effective_tier_def fold_max)
qed


lemma recompute_cong:
  "cs_members T = cs_members S \<Longrightarrow> rc_observations (cs_evidence T) = rc_observations (cs_evidence S)
   \<Longrightarrow> rc_attachments (cs_evidence T) = rc_attachments (cs_evidence S)
   \<Longrightarrow> recompute_effective_tier i T = recompute_effective_tier i S"
proof -
  assume a: "cs_members T = cs_members S" "rc_observations (cs_evidence T) = rc_observations (cs_evidence S)"
    "rc_attachments (cs_evidence T) = rc_attachments (cs_evidence S)"
  then have "member_rank (cs_evidence T) = member_rank (cs_evidence S)"
    by (auto simp: member_rank_def fun_eq_iff split: case_subject_kind.split)
  then show ?thesis using a by (simp add: recompute_effective_tier_def list_case_members_def)
qed

text \<open>\<open>_maybe_emit_tier_change\<close>, when it returns, leaves the tier it computed.\<close>

lemma tier_change_result:
  assumes "fst (maybe_emit_tier_change E a i u now cx v S) = Inr w"
    and "tbl_has ca_id i (cs_cases S)"
  shows "w = v \<and> cs_members (snd (maybe_emit_tier_change E a i u now cx v S)) = cs_members S
    \<and> (\<exists>c. tbl_get ca_id i (cs_cases (snd (maybe_emit_tier_change E a i u now cx v S))) = Some c
        \<and> ca_effective_tier c = recompute_effective_tier i (snd (maybe_emit_tier_change E a i u now cx v S)))"
proof -
  obtain c where c: "tbl_get ca_id i (cs_cases S) = Some c"
    using assms(2) by (metis not_None_eq tbl_get_None_iff)
  have id: "ca_id c = i" using c tbl_get_SomeD by fast
  show ?thesis
  proof (cases "recompute_effective_tier i S = ca_effective_tier c")
    case True
    then show ?thesis using assms(1) c by (simp add: maybe_emit_tier_change_def)
  next
    case False
    let ?S = "S\<lparr>cs_cases := tbl_save ca_id (c\<lparr>ca_effective_tier := recompute_effective_tier i S\<rparr>) (cs_cases S)\<rparr>"
    obtain p where R: "maybe_emit_tier_change E a i u now cx v S
        = emit_case_audit E ''eyenet.audit.case.tier_changed'' ''cases.case_tier_changed'' a (Some u) i p now cx v ?S"
      using c False by (simp add: maybe_emit_tier_change_def Let_def)
    let ?T = "snd (maybe_emit_tier_change E a i u now cx v S)"
    have "recompute_effective_tier i ?T = recompute_effective_tier i S"
      unfolding R by (rule recompute_cong) simp_all
    then show ?thesis
      using assms id emit_value by (auto simp: R tbl_get_tbl_save)
  qed
qed

lemma audit_then_result:
  assumes "audit_then_tier (emit_case_audit E ev h a u c p now cx v S)
      (maybe_emit_tier_change E a2 i w now cx) = (Inr r, T)" and "tbl_has ca_id i (cs_cases S)"
  shows "r = v \<and> cs_members T = cs_members S
    \<and> (\<exists>ca. tbl_get ca_id i (cs_cases T) = Some ca \<and> ca_effective_tier ca = recompute_effective_tier i T)"
proof (cases "emit_case_audit E ev h a u c p now cx v S")
  case (Pair x U)
  then have x: "x = Inr v" using assms(1) emit_value [of E ev h a u c p now cx v S]
    by (cases x) (auto simp: audit_then_tier_def)
  have "cs_cases U = cs_cases S" "cs_members U = cs_members S"
    using emit_fields [of E ev h a u c p now cx v S] Pair by simp_all
  then show ?thesis
    using tier_change_result [of E a2 i w now cx v U r] assms Pair x by (simp add: audit_then_tier_def)
qed

lemma audit_then_members:
  "cs_members (snd (audit_then_tier (emit_case_audit E ev h a u c p now cx v S)
      (maybe_emit_tier_change E a2 i w now cx))) = cs_members S"
proof (cases "emit_case_audit E ev h a u c p now cx v S")
  case (Pair x T)
  have "cs_members (snd (maybe_emit_tier_change E a2 i w now cx y T)) = cs_members T" for y :: 'a
    by (auto simp: maybe_emit_tier_change_def Let_def split: option.split)
  moreover have "cs_members T = cs_members S"
    using emit_fields(2) [of E ev h a u c p now cx v S] Pair by simp
  ultimately show ?thesis using Pair by (simp add: audit_then_tier_def split: sum.split)
qed

section \<open>Properties\<close>

text \<open>C12: tables of the case component. Whatever operations ran (cases, members, collaborators,
  evidence reclassification, audit outages), keys are unique, the closing, archiving and removal
  columns are complete and agree with the status, no subject is twice an active member of a case
  and no user twice an active collaborator, every member and collaborator row has its case; and
  whichever operation runs next, no case disappears, a case that appears is OPEN, and every other case keeps its row (up to
  its materialised tier) or makes one legal move: it was not ARCHIVED, it stays in its status or goes from OPEN to CLOSED, from
  CLOSED to OPEN or from CLOSED to ARCHIVED, and its id, its creator and time of creation, its parent and its crew stay.\<close>

theorem case_invariant:
  "let S = fold (case_exec E) ps no_cases; T = case_exec E p S in
     cases_wf S \<and> (\<forall>i. case_state i T = case_state i S
       \<or> (\<exists>q. case_state i T = Some q \<and>
           (case case_state i S of
              None \<Rightarrow> ca_status q = Case_OPEN
            | Some q0 \<Rightarrow> (ca_status q0, ca_status q) \<in> {(Case_OPEN, Case_OPEN), (Case_CLOSED, Case_CLOSED), (Case_OPEN, Case_CLOSED),
                   (Case_CLOSED, Case_OPEN), (Case_CLOSED, Case_ARCHIVED)}
                \<and> ca_id q = ca_id q0 \<and> ca_created_by q = ca_created_by q0 \<and> ca_created_at q = ca_created_at q0
                \<and> ca_parent_case_id q = ca_parent_case_id q0 \<and> ca_crew_key q = ca_crew_key q0)))"
proof -
  define S where "S = fold (case_exec E) ps no_cases"
  define T where "T = case_exec E p S"
  have wf: "cases_wf S" unfolding S_def by (rule case_life.run_inv [OF no_cases_wf])
  have m: "case_state i T = case_state i S
       \<or> (\<exists>q. case_state i T = Some q \<and> (case case_state i S of None \<Rightarrow> ca_status q = Case_OPEN | Some q0 \<Rightarrow> case_edge q0 q))" for i
    using case_exec_move [of S E p] unfolding T_def one_move_def by blast
  have "case_state i T = case_state i S
       \<or> (\<exists>q. case_state i T = Some q \<and> (case case_state i S of None \<Rightarrow> ca_status q = Case_OPEN
            | Some q0 \<Rightarrow> (ca_status q0, ca_status q) \<in> {(Case_OPEN, Case_OPEN), (Case_CLOSED, Case_CLOSED), (Case_OPEN, Case_CLOSED),
                   (Case_CLOSED, Case_OPEN), (Case_CLOSED, Case_ARCHIVED)}
                \<and> ca_id q = ca_id q0 \<and> ca_created_by q = ca_created_by q0 \<and> ca_created_at q = ca_created_at q0
                \<and> ca_parent_case_id q = ca_parent_case_id q0 \<and> ca_crew_key q = ca_crew_key q0))" for i
  proof (cases "case_state i S")
    case None
    then show ?thesis using m [of i] by simp
  next
    case (Some q0)
    then show ?thesis using m [of i] case_edge_moves [of q0] by auto
  qed
  then show ?thesis using wf unfolding S_def [symmetric] T_def [symmetric] Let_def by blast
qed

text \<open>C11: archiving is final. Once a case is ARCHIVED every later run keeps its row as it is,
  apart from the effective tier, and adds no active member and no active collaborator to it.\<close>

theorem archived_case_frozen:
  assumes "tbl_get ca_id i (cs_cases S) = Some c" and "ca_status c = Case_ARCHIVED"
  shows "(\<exists>t. tbl_get ca_id i (cs_cases (fold (case_exec E) ps S)) = Some (c\<lparr>ca_effective_tier := t\<rparr>))
    \<and> set (list_case_members i (fold (case_exec E) ps S)) \<subseteq> set (list_case_members i S)
    \<and> set (list_case_collaborators i (fold (case_exec E) ps S)) \<subseteq> set (list_case_collaborators i S)"
proof -
  have s: "case_state i S = Some (frozen c)" using assms by (simp add: case_state_def)
  have f: "ca_status (frozen c) = Case_ARCHIVED" using assms by (simp add: frozen_def)
  obtain c' where c': "tbl_get ca_id i (cs_cases (fold (case_exec E) ps S)) = Some c'" "frozen c' = frozen c"
    using archived_prims [OF case_run_prims s f, of E ps] by (auto simp: case_state_def)
  then have "c' = c\<lparr>ca_effective_tier := ca_effective_tier c'\<rparr>"
    by (cases c; cases c') (simp add: frozen_def)
  with c' archived_prims [OF case_run_prims s f, of E ps] show ?thesis by metis
qed

lemma add_member_tier:
  assumes "add_case_member E n a a2 i k s u r now cx S = (Inr m, T)"
  shows "me_case_id m = i \<and> me_removed_at m = None \<and> cs_members T = cs_members S @ [m]
    \<and> (\<exists>c. tbl_get ca_id i (cs_cases T) = Some c \<and> ca_effective_tier c = recompute_effective_tier i T)"
proof -
  let ?m = "\<lparr>me_id = n, me_case_id = i, me_subject_kind = k, me_subject_id = s, me_added_by = u, me_added_at = now,
     me_add_reason = r, me_removed_at = None, me_removed_by = None, me_removal_reason = None\<rparr>"
  obtain ev h p where R: "audit_then_tier
      (emit_case_audit E ev h a (Some u) i p now cx ?m (S\<lparr>cs_members := cs_members S @ [?m]\<rparr>))
      (maybe_emit_tier_change E a2 i u now cx) = (Inr m, T)" and has: "tbl_has ca_id i (cs_cases S)"
    using assms by (auto simp: add_case_member_def Let_def dest: tbl_get_Some_has split: if_splits option.splits)
  from audit_then_result [OF R] has show ?thesis by simp
qed

lemma remove_member_tier:
  assumes "remove_case_member E a a2 j u r now cx S = (Inr m, T)" and "cases_wf S"
  shows "me_id m = j \<and> me_removed_at m = Some now \<and> cs_members T = tbl_save me_id m (cs_members S)
    \<and> (\<exists>c. tbl_get ca_id (me_case_id m) (cs_cases T) = Some c
          \<and> ca_effective_tier c = recompute_effective_tier (me_case_id m) T)"
proof -
  obtain m0 where m0: "tbl_get me_id j (cs_members S) = Some m0"
    using assms by (auto simp: remove_case_member_def split: if_splits option.splits)
  let ?m = "m0\<lparr>me_removed_at := Some now, me_removed_by := Some u, me_removal_reason := Some r\<rparr>"
  obtain ev h p where R: "audit_then_tier
      (emit_case_audit E ev h a (Some u) (me_case_id m0) p now cx ?m (S\<lparr>cs_members := tbl_save me_id ?m (cs_members S)\<rparr>))
      (maybe_emit_tier_change E a2 (me_case_id m0) u now cx) = (Inr m, T)"
    using assms m0 by (auto simp: remove_case_member_def Let_def split: if_splits)
  have "m0 \<in> set (cs_members S)" "me_id m0 = j" using m0 tbl_get_SomeD by fast+
  then have "tbl_has ca_id (me_case_id m0) (cs_cases S)" using assms by (simp add: cases_wf_def)
  with audit_then_result [OF R] \<open>me_id m0 = j\<close> show ?thesis by auto
qed

text \<open>The effective tier of a case. When adding or removing a member returns, the tier of
  the case is the greatest effective tier of the observations and attachments that are its
  active members (NORMAL when there is none), and the row \<open>m\<close> returned is among its active
  members exactly after an addition.\<close>

lemma case_tier_is_max:
  assumes "cases_wf S"
    and "add_case_member E n a a2 i k s u r now cx S = (Inr m, T)
      \<or> remove_case_member E a a2 j u r now cx S = (Inr m, T)"
  shows "(\<exists>c. tbl_get ca_id (me_case_id m) (cs_cases T) = Some c
       \<and> TIER_RANK (ca_effective_tier c)
           = Max (insert 0 (member_rank (cs_evidence T) ` set (list_case_members (me_case_id m) T))))
    \<and> (m \<in> set (list_case_members (me_case_id m) T) \<longleftrightarrow> me_removed_at m = None)"
  using assms(2)
proof
  assume "add_case_member E n a a2 i k s u r now cx S = (Inr m, T)"
  note add_member_tier [OF this]
  then show ?thesis by (auto simp: list_case_members_def recompute_rank)
next
  assume "remove_case_member E a a2 j u r now cx S = (Inr m, T)"
  note remove_member_tier [OF this assms(1)]
  then show ?thesis by (auto simp: list_case_members_def recompute_rank)
qed


text \<open>What may join a case. A call adds a member row exactly when the reason has 16
  characters, the case exists and is not archived, the subject is not already an active member
  and the row id is new; in particular a CLOSED case takes new members.\<close>

lemma members_change_exactly:
  "cs_members (snd (add_case_member E n a a2 i k s u r now cx S)) \<noteq> cs_members S
   \<longleftrightarrow> 16 \<le> length r \<and> \<not> tbl_has me_id n (cs_members S)
     \<and> (\<exists>c. tbl_get ca_id i (cs_cases S) = Some c \<and> (ca_status c = Case_OPEN \<or> ca_status c = Case_CLOSED))
     \<and> (\<nexists>m. m \<in> set (cs_members S) \<and> member_active i k s m)"
proof -
  have st: "ca_status c = Case_OPEN \<or> ca_status c = Case_CLOSED \<longleftrightarrow> ca_status c \<noteq> Case_ARCHIVED" for c
    by (cases "ca_status c") simp_all
  have "find (member_active i k s) (cs_members S) = None
      \<longleftrightarrow> (\<nexists>m. m \<in> set (cs_members S) \<and> member_active i k s m)"
    by (auto simp: find_None_iff_all)
  then show ?thesis
    unfolding st by (auto simp: add_case_member_def Let_def audit_then_members split: option.split)
qed

lemma find_sorted_least:
  assumes "sorted (map f xs)" and "find P xs = Some x" and "y \<in> set xs" and "P y"
  shows "f x \<le> f y"
  using assms by (induction xs) (auto split: if_splits)

text \<open>A reopened case does not take candidates over. The successor of an archived case
  copies its seed roots, but the resolution takes the oldest case with a matching root whatever
  its status, so no candidate resolves to the successor while the archived predecessor is there.\<close>

lemma successor_is_shadowed:
  assumes "reopen_archived_case E n a i u r now cx S = (Inr s, T)"
    and "tbl_get ca_id i (cs_cases S) = Some c" and "ca_created_at c < now"
  shows "resolve_case_for_candidate roots T \<noteq> Some s"
proof
  let ?P = "\<lambda>c. \<exists>r\<in>set (map the (filter (\<lambda>r. r \<noteq> None) roots)). r \<in> set (ca_seed_roots c)"
  assume "resolve_case_for_candidate roots T = Some s"
  then have f: "find ?P (order_asc ca_created_at (cs_cases T)) = Some s"
    by (auto simp: resolve_case_for_candidate_def Let_def split: if_splits)
  obtain ev h p x where R: "emit_case_audit E ev h a (Some u) n p now cx x (S\<lparr>cs_cases := cs_cases S @ [x]\<rparr>) = (Inr s, T)"
    and x: "ca_created_at x = now" "ca_seed_roots x = ca_seed_roots c"
    using assms(1,2) by (fastforce simp: reopen_archived_case_def Let_def split: if_splits)
  have s: "s = x" using emit_value [of E ev h a "Some u" n p now cx x] R by (metis fst_conv)
  have T: "cs_cases T = cs_cases S @ [x]"
    using emit_fields(1) [of E ev h a "Some u" n p now cx x "S\<lparr>cs_cases := cs_cases S @ [x]\<rparr>"] R by simp
  have "?P c" using find_SomeD [OF f] s x by simp
  moreover have "c \<in> set (order_asc ca_created_at (cs_cases T))"
    using tbl_get_SomeD [OF assms(2)] T by simp
  moreover have "sorted (map ca_created_at (order_asc ca_created_at (cs_cases T)))"
    by (simp add: order_asc_def)
  ultimately have "ca_created_at s \<le> ca_created_at c" using find_sorted_least [OF _ f] by blast
  then show False using assms(3) s x by simp
qed


section \<open>Witnesses\<close>

definition example_case :: "case_status \<Rightarrow> case_row" where
  "example_case s = \<lparr>ca_id = 20, ca_title = ''crew'', ca_description = None, ca_status = s,
      ca_crew_key = None, ca_effective_tier = NORMAL, ca_created_by = 7, ca_created_at = 1,
      ca_closed_at = (if s = Case_OPEN then None else Some 4), ca_closed_by = (if s = Case_OPEN then None else Some 7),
      ca_close_reason = (if s = Case_OPEN then None else Some ''r''),
      ca_archived_at = (if s = Case_ARCHIVED then Some 5 else None),
      ca_archived_by = (if s = Case_ARCHIVED then Some 7 else None),
      ca_archive_reason = (if s = Case_ARCHIVED then Some ''r'' else None), ca_parent_case_id = None,
      ca_seed_roots = [55], ca_redundancy = PREFER_SINGLE, ca_auto_join = Auto_DISABLED, ca_score_threshold = None\<rparr>"

definition example_cases :: "case_status \<Rightarrow> cases_store" where
  "example_cases s = \<lparr>cs_cases = [example_case s], cs_members = [], cs_collabs = [],
     cs_evidence = \<lparr>rc_observations = [example_doc\<lparr>tr_classifier_tier := RESTRICTED\<rparr>], rc_attachments = [],
       rc_documents = [], rc_audit = example_audit0\<rparr>\<rparr>"

lemma example_cases_wf: "cases_wf (example_cases s)"
  by (cases s) (simp_all add: cases_wf_def example_cases_def example_case_def case_checks_def triplet_def
      case_consistent_def tbl_has_def)

lemmas example_case_simps = create_case_def reopen_archived_case_def add_case_member_def audit_then_tier_def
  maybe_emit_tier_change_def recompute_effective_tier_def list_case_members_def member_rank_def
  emit_case_audit_def case_checks_def triplet_def RANK_TIER_def
  effective_tier_def example_doc_def audit_or_warn_def tbl_save_def

lemma example_opened:
  "map_option ca_status (case_state 20 (fold (case_exec example_env) [Co_Create 20 1 ''crew'' None 7 None 1 example_ctx] no_cases)) = Some Case_OPEN"
  by (simp add: case_state_def create_case_def case_checks_def triplet_def no_cases_def tbl_has_def Let_def frozen_def)

theorem case_invariant_witness:
  "\<exists>q. case_state 20 (case_exec example_env (Co_Close 2 20 7 ''crew arrested'' 6 example_ctx)
        (fold (case_exec example_env) [Co_Create 20 1 ''crew'' None 7 None 1 example_ctx] no_cases)) = Some q
     \<and> ca_status q \<in> {Case_OPEN, Case_CLOSED}"
proof -
  define S where "S = fold (case_exec example_env) [Co_Create 20 1 ''crew'' None 7 None 1 example_ctx] no_cases"
  obtain q0 where "case_state 20 S = Some q0" "ca_status q0 = Case_OPEN" using example_opened unfolding S_def [symmetric] by auto
  then show ?thesis
    using conjunct2 [OF case_invariant [of example_env "[Co_Create 20 1 ''crew'' None 7 None 1 example_ctx]"
        "Co_Close 2 20 7 ''crew arrested'' 6 example_ctx", folded S_def, unfolded Let_def], THEN spec, of 20]
    unfolding S_def [symmetric] by auto
qed

theorem archived_case_frozen_witness:
  "\<exists>t. tbl_get ca_id 20 (cs_cases (fold (case_exec example_env)
       [Co_Reopen 1 20 7 6 example_ctx, Co_Update 2 20 (Some ''other'') None 7 7 example_ctx]
       (example_cases Case_ARCHIVED))) = Some ((example_case Case_ARCHIVED)\<lparr>ca_effective_tier := t\<rparr>)"
  using archived_case_frozen [of 20 "example_cases Case_ARCHIVED" "example_case Case_ARCHIVED" example_env
      "[Co_Reopen 1 20 7 6 example_ctx, Co_Update 2 20 (Some ''other'') None 7 7 example_ctx]"]
  by (simp add: example_cases_def example_case_def)

lemma example_add:
  "\<exists>m T. add_case_member example_env 30 3 4 20 Subj_OBSERVATION 8 7 ''sixteen letters!'' 6 example_ctx
      (example_cases Case_CLOSED) = (Inr m, T) \<and> me_case_id m = 20"
  by (simp add: example_cases_def example_case_def example_case_simps example_audit_defs tbl_has_def Let_def)

lemma example_successor:
  "\<exists>s T. reopen_archived_case example_env 21 3 20 7 ''sixteen letters!'' 6 example_ctx
      (example_cases Case_ARCHIVED) = (Inr s, T)"
  by (simp add: example_cases_def example_case_def example_case_simps example_audit_defs tbl_has_def Let_def)

end
