(* ===== verification/Discovery_Store.thy ===== *)
theory Discovery_Store
  imports Cases "HOL-Library.List_Lexorder" "HOL-Library.Char_ord"
begin

text \<open>
  The tables of the discovery loop in \<open>main.db\<close> (\<open>models/identity.py\<close>, \<open>collector.py\<close>,
  \<open>membership.py\<close>, \<open>group.py\<close>, \<open>candidates.py\<close>, \<open>access_artifact.py\<close>) with their CHECK
  constraints and the foreign keys SQLite enforces (\<open>PRAGMA foreign_keys = ON\<close>). Of the tables
  \<open>message\<close>, \<open>actor\<close> and \<open>system_user\<close>, which these only reference, the keys are kept. Cases and the
  audit log come with the component \<open>Cases\<close>.
\<close>

section \<open>Rows\<close>

record source_row =
  so_id :: uuid
  so_kind :: source_kind
  so_display_name :: string
  so_canonical_url :: "string option"
  so_created_at :: time
  so_notes :: "string option"

record identity_row =
  id_id :: uuid
  id_name :: string
  id_source_id :: uuid
  id_session_path :: string
  id_proxy_uri :: "string option"
  id_cooldown_seconds :: int
  id_last_used_at :: "time option"
  id_state :: identity_state
  id_role :: identity_role
  id_graduated_at :: "time option"
  id_notes :: "string option"
  id_source_config :: "(string \<times> jval) list"

record collector_row =
  cr_id :: uuid
  cr_instance_name :: string
  cr_kind :: source_kind
  cr_source_id :: uuid
  cr_identity_id :: uuid
  cr_config :: "(string \<times> jval) list"
  cr_desired :: collector_desired_state
  cr_observed :: collector_observed_state
  cr_restart_count :: int
  cr_last_heartbeat_at :: "time option"
  cr_last_error_type :: "string option"
  cr_last_error_message :: "string option"
  cr_created_at :: time
  cr_created_by :: uuid
  cr_notes :: "string option"

record membership_row =
  mb_id :: uuid
  mb_collector_id :: uuid
  mb_group_id :: uuid
  mb_joined_at :: time
  mb_joined_via :: joined_via
  mb_candidate_id :: "uuid option"
  mb_left_at :: "time option"
  mb_left_reason :: "string option"

record sighting_row =
  sg_message_id :: uuid
  sg_collector_id :: uuid
  sg_observed_at :: time
  sg_first :: bool

record group_row =
  gp_id :: uuid
  gp_source_id :: uuid
  gp_platform_groupid :: string
  gp_kind :: group_kind
  gp_title :: "string option"
  gp_first_seen :: time
  gp_last_observed :: time

record candidate_row =
  gc_id :: uuid
  gc_source_id :: uuid
  gc_platform_groupid :: string
  gc_kind_hint :: "group_kind option"
  gc_display_name :: "string option"
  gc_state :: candidate_state
  gc_score :: rat
  gc_score_breakdown :: "(string \<times> jval) list"
  gc_score_version :: int
  gc_first_observed :: time
  gc_last_observed :: time
  gc_reviewed_at :: "time option"
  gc_reviewed_by :: "string option"
  gc_rejection_reason :: "string option"
  gc_collector_id :: "uuid option"
  gc_group_id :: "uuid option"
  gc_member_dialog :: bool

record mention_row =
  mn_id :: uuid
  mn_candidate_id :: uuid
  mn_collector_id :: uuid
  mn_group_id :: uuid
  mn_seed_root :: "uuid option"
  mn_depth :: int
  mn_evidence_ref :: string
  mn_kind :: mention_kind
  mn_at_source :: time
  mn_at_ingest :: time
  mn_actor_id :: uuid
  mn_role_signal :: "string option"

record access_row =
  ac_id :: uuid
  ac_subject_kind :: artifact_subject_kind
  ac_group_id :: "uuid option"
  ac_candidate_id :: "uuid option"
  ac_kind :: group_access_kind
  ac_value :: "string option"
  ac_details :: "(string \<times> jval) list"
  ac_mention_id :: "uuid option"
  ac_discovered_at :: time
  ac_last_validated_at :: "time option"
  ac_validation :: artifact_validation_state
  ac_needs_approval :: bool
  ac_expires_at :: "time option"

record disc_store =
  ds_sources :: "source_row list"
  ds_messages :: "uuid list"
  ds_actors :: "uuid list"
  ds_users :: "uuid list"
  ds_identities :: "identity_row list"
  ds_collectors :: "collector_row list"
  ds_memberships :: "membership_row list"
  ds_sightings :: "sighting_row list"
  ds_groups :: "group_row list"
  ds_candidates :: "candidate_row list"
  ds_mentions :: "mention_row list"
  ds_access :: "access_row list"
  ds_cases :: cases_store

section \<open>Constraints\<close>

definition collector_checks :: "collector_row \<Rightarrow> bool" where
  "collector_checks c \<longleftrightarrow> 0 \<le> cr_restart_count c \<and> 3 \<le> length (cr_instance_name c)
     \<and> (cr_last_error_type c = None \<longleftrightarrow> cr_last_error_message c = None)"

definition membership_checks :: "membership_row \<Rightarrow> bool" where
  "membership_checks m \<longleftrightarrow> (mb_joined_via m = Via_CANDIDATE \<longleftrightarrow> mb_candidate_id m \<noteq> None)"

definition candidate_checks :: "candidate_row \<Rightarrow> bool" where
  "candidate_checks c \<longleftrightarrow> 0 \<le> gc_score c \<and> 1 \<le> gc_score_version c"

definition mention_checks :: "mention_row \<Rightarrow> bool" where
  "mention_checks m \<longleftrightarrow> 0 \<le> mn_depth m"

definition access_checks :: "access_row \<Rightarrow> bool" where
  "access_checks a \<longleftrightarrow> (ac_group_id a \<noteq> None) \<noteq> (ac_candidate_id a \<noteq> None)
     \<and> ((ac_subject_kind a = Art_GROUP \<and> ac_group_id a \<noteq> None)
        \<or> (ac_subject_kind a = Art_CANDIDATE \<and> ac_candidate_id a \<noteq> None))"

text \<open>A nullable foreign key.\<close>

definition fk_opt :: "('r \<Rightarrow> uuid) \<Rightarrow> uuid option \<Rightarrow> 'r list \<Rightarrow> bool" where
  "fk_opt pk k rows = (case k of None \<Rightarrow> True | Some i \<Rightarrow> tbl_has pk i rows)"

definition identity_fks :: "identity_row \<Rightarrow> disc_store \<Rightarrow> bool" where
  "identity_fks r D \<longleftrightarrow> tbl_has so_id (id_source_id r) (ds_sources D)"

definition collector_fks :: "collector_row \<Rightarrow> disc_store \<Rightarrow> bool" where
  "collector_fks r D \<longleftrightarrow> tbl_has so_id (cr_source_id r) (ds_sources D)
     \<and> tbl_has id_id (cr_identity_id r) (ds_identities D) \<and> cr_created_by r \<in> set (ds_users D)"

definition membership_fks :: "membership_row \<Rightarrow> disc_store \<Rightarrow> bool" where
  "membership_fks r D \<longleftrightarrow> tbl_has cr_id (mb_collector_id r) (ds_collectors D)
     \<and> tbl_has gp_id (mb_group_id r) (ds_groups D) \<and> fk_opt gc_id (mb_candidate_id r) (ds_candidates D)"

definition sighting_fks :: "sighting_row \<Rightarrow> disc_store \<Rightarrow> bool" where
  "sighting_fks r D \<longleftrightarrow> sg_message_id r \<in> set (ds_messages D) \<and> tbl_has cr_id (sg_collector_id r) (ds_collectors D)"

definition group_fks :: "group_row \<Rightarrow> disc_store \<Rightarrow> bool" where
  "group_fks r D \<longleftrightarrow> tbl_has so_id (gp_source_id r) (ds_sources D)"

definition candidate_fks :: "candidate_row \<Rightarrow> disc_store \<Rightarrow> bool" where
  "candidate_fks r D \<longleftrightarrow> tbl_has so_id (gc_source_id r) (ds_sources D)
     \<and> fk_opt cr_id (gc_collector_id r) (ds_collectors D) \<and> fk_opt gp_id (gc_group_id r) (ds_groups D)"

definition mention_fks :: "mention_row \<Rightarrow> disc_store \<Rightarrow> bool" where
  "mention_fks r D \<longleftrightarrow> tbl_has gc_id (mn_candidate_id r) (ds_candidates D)
     \<and> tbl_has cr_id (mn_collector_id r) (ds_collectors D) \<and> tbl_has gp_id (mn_group_id r) (ds_groups D)
     \<and> fk_opt gp_id (mn_seed_root r) (ds_groups D) \<and> mn_actor_id r \<in> set (ds_actors D)"

definition access_fks :: "access_row \<Rightarrow> disc_store \<Rightarrow> bool" where
  "access_fks r D \<longleftrightarrow> fk_opt gp_id (ac_group_id r) (ds_groups D) \<and> fk_opt gc_id (ac_candidate_id r) (ds_candidates D)
     \<and> fk_opt mn_id (ac_mention_id r) (ds_mentions D)"

text \<open>The rows that reference a collector, which a delete must not leave dangling.\<close>

definition collector_referenced :: "uuid \<Rightarrow> disc_store \<Rightarrow> bool" where
  "collector_referenced i D \<longleftrightarrow>
     (\<exists>m\<in>set (ds_memberships D). mb_collector_id m = i) \<or> (\<exists>s\<in>set (ds_sightings D). sg_collector_id s = i)
   \<or> (\<exists>c\<in>set (ds_candidates D). gc_collector_id c = Some i) \<or> (\<exists>m\<in>set (ds_mentions D). mn_collector_id m = i)"

section \<open>Update of one row by its key\<close>

text \<open>
  \<open>session.get\<close>, raise \<open>ValueError\<close> when the row is missing, change it, commit. \<open>ok\<close> holds the
  CHECKs and foreign keys of the new row.
\<close>

definition change_row ::
  "('s \<Rightarrow> 'r list) \<Rightarrow> ('r list \<Rightarrow> 's \<Rightarrow> 's) \<Rightarrow> ('r \<Rightarrow> uuid) \<Rightarrow> string \<Rightarrow> ('r \<Rightarrow> 's \<Rightarrow> bool) \<Rightarrow> uuid \<Rightarrow> ('r \<Rightarrow> 'r)
   \<Rightarrow> 's \<Rightarrow> ('r, 's) outcome" where
  "change_row get put pk msg ok i f D =
     (case tbl_get pk i (get D) of
        None \<Rightarrow> (Inl (ValueError msg), D)
      | Some r \<Rightarrow>
          let r' = f r
          in if \<not> ok r' D then (Inl (IntegrityError msg), D)
             else (Inr r', put (tbl_save pk r' (get D)) D))"

lemma change_row_disj:
  "(\<exists>e. change_row get put pk msg ok i f D = (Inl e, D)
       \<and> (tbl_get pk i (get D) = None \<or> (\<exists>r. tbl_get pk i (get D) = Some r \<and> \<not> ok (f r) D)))
   \<or> (\<exists>r. tbl_get pk i (get D) = Some r \<and> ok (f r) D
        \<and> change_row get put pk msg ok i f D = (Inr (f r), put (tbl_save pk (f r) (get D)) D))"
  by (auto simp: change_row_def Let_def split: option.split)

lemma change_row_cases:
  obtains (failed) e where "change_row get put pk msg ok i f D = (Inl e, D)"
  | (changed) r where "tbl_get pk i (get D) = Some r" "ok (f r) D"
      "change_row get put pk msg ok i f D = (Inr (f r), put (tbl_save pk (f r) (get D)) D)"
  using change_row_disj [of get put pk msg ok i f D] by blast

end
