(* ===== verification/Fleet.thy ===== *)
theory Fleet
  imports Discovery_Store
begin

text \<open>
  Operator identities and collectors: \<open>sqlmodel_repo/identities.py\<close>, \<open>sqlmodel_repo/collectors.py\<close>,
  and the database identity pool
  \<open>identity_pool/db.py\<close>. The pool's \<open>claim\<close> is a read and a write in two
  transactions, kept apart here so that runs can interleave them.
\<close>

section \<open>Identities\<close>

definition put_identities :: "identity_row list \<Rightarrow> disc_store \<Rightarrow> disc_store" where
  "put_identities rows D = D\<lparr>ds_identities := rows\<rparr>"

abbreviation change_identity :: "uuid \<Rightarrow> (identity_row \<Rightarrow> identity_row) \<Rightarrow> disc_store \<Rightarrow> (identity_row, disc_store) outcome" where
  "change_identity \<equiv> change_row ds_identities put_identities id_id ''identity not found'' identity_fks"

definition create_identity ::
  "uuid \<Rightarrow> string \<Rightarrow> uuid \<Rightarrow> string \<Rightarrow> identity_role \<Rightarrow> identity_state \<Rightarrow> string option \<Rightarrow> int \<Rightarrow> string option
   \<Rightarrow> (string \<times> jval) list \<Rightarrow> disc_store \<Rightarrow> (identity_row, disc_store) outcome" where
  "create_identity new_id name source session_path role state proxy cooldown notes config D =
     (let r = \<lparr>id_id = new_id, id_name = name, id_source_id = source, id_session_path = session_path,
               id_proxy_uri = proxy, id_cooldown_seconds = cooldown, id_last_used_at = None, id_state = state,
               id_role = role, id_graduated_at = None, id_notes = notes, id_source_config = config\<rparr>
      in if tbl_has id_id new_id (ds_identities D) \<or> tbl_has id_name name (ds_identities D) \<or> \<not> identity_fks r D
         then (Inl (IntegrityError ''identity''), D)
         else (Inr r, put_identities (ds_identities D @ [r]) D))"

definition get_identity :: "uuid \<Rightarrow> disc_store \<Rightarrow> identity_row option" where
  "get_identity i D = tbl_get id_id i (ds_identities D)"

definition get_identity_by_name :: "string \<Rightarrow> disc_store \<Rightarrow> identity_row option" where
  "get_identity_by_name name D = tbl_get id_name name (ds_identities D)"

definition list_identities ::
  "uuid option \<Rightarrow> identity_role option \<Rightarrow> identity_state option \<Rightarrow> disc_store \<Rightarrow> identity_row list" where
  "list_identities source role state D = order_asc id_name (filter (\<lambda>r.
       (case source of None \<Rightarrow> True | Some s \<Rightarrow> id_source_id r = s)
     \<and> (case role of None \<Rightarrow> True | Some x \<Rightarrow> id_role r = x)
     \<and> (case state of None \<Rightarrow> True | Some x \<Rightarrow> id_state r = x)) (ds_identities D))"

definition set_identity_role :: "uuid \<Rightarrow> identity_role \<Rightarrow> disc_store \<Rightarrow> (identity_row, disc_store) outcome" where
  "set_identity_role i role D = change_identity i (\<lambda>r. r\<lparr>id_role := role\<rparr>) D"

definition set_identity_state ::
  "uuid \<Rightarrow> identity_state \<Rightarrow> time option \<Rightarrow> disc_store \<Rightarrow> (identity_row, disc_store) outcome" where
  "set_identity_state i state used D = change_identity i
     (\<lambda>r. r\<lparr>id_state := state, id_last_used_at := (case used of None \<Rightarrow> id_last_used_at r | Some t \<Rightarrow> Some t)\<rparr>) D"

definition graduate_identity :: "uuid \<Rightarrow> time \<Rightarrow> disc_store \<Rightarrow> (identity_row, disc_store) outcome" where
  "graduate_identity i now D = change_identity i (\<lambda>r. r\<lparr>id_role := IRole_MONITOR, id_graduated_at := Some now\<rparr>) D"

definition burn_identity :: "uuid \<Rightarrow> disc_store \<Rightarrow> (identity_row, disc_store) outcome" where
  "burn_identity i D = change_identity i (\<lambda>r. r\<lparr>id_state := Idn_BURNED, id_role := IRole_QUARANTINE\<rparr>) D"

definition delete_identity :: "uuid \<Rightarrow> disc_store \<Rightarrow> (unit, disc_store) outcome" where
  "delete_identity i D =
     (if \<not> tbl_has id_id i (ds_identities D) then (Inl (ValueError ''identity not found''), D)
      else
        let bound = length (filter (\<lambda>c. cr_identity_id c = i) (ds_collectors D))
        in if bound > 0 then (Inl (ResourceInUseError ''identity'' [(''collector'', bound)]), D)
           else (Inr (), put_identities (tbl_delete id_id i (ds_identities D)) D))"

definition freezable :: "uuid option \<Rightarrow> identity_row \<Rightarrow> bool" where
  "freezable source r \<longleftrightarrow> id_state r \<noteq> Idn_FROZEN \<and> id_state r \<noteq> Idn_BURNED \<and> id_role r \<noteq> IRole_QUARANTINE
     \<and> (case source of None \<Rightarrow> True | Some s \<Rightarrow> id_source_id r = s)"

definition freeze_all_identities :: "uuid option \<Rightarrow> disc_store \<Rightarrow> uuid list \<times> disc_store" where
  "freeze_all_identities source D =
     (map id_id (filter (freezable source) (ds_identities D)),
      put_identities (tbl_update (freezable source) (\<lambda>r. r\<lparr>id_state := Idn_FROZEN\<rparr>) (ds_identities D)) D)"

definition available_scouts :: "uuid \<Rightarrow> disc_store \<Rightarrow> identity_row list" where
  "available_scouts source D = order_asc id_name (filter (\<lambda>r. id_source_id r = source \<and> id_role r = IRole_SCOUT
     \<and> id_state r = Idn_AVAILABLE) (ds_identities D))"

definition find_available_scout :: "uuid \<Rightarrow> disc_store \<Rightarrow> identity_row option" where
  "find_available_scout source D = (case available_scouts source D of [] \<Rightarrow> None | r # _ \<Rightarrow> Some r)"

definition has_available_scout :: "uuid \<Rightarrow> disc_store \<Rightarrow> bool" where
  "has_available_scout source D \<longleftrightarrow> length (available_scouts source D) > 0"

text \<open>One transaction: read the first available scout, mark it \<open>IN_USE\<close>.\<close>

definition lease_scout :: "uuid \<Rightarrow> disc_store \<Rightarrow> identity_row option \<times> disc_store" where
  "lease_scout source D =
     (case available_scouts source D of
        [] \<Rightarrow> (None, D)
      | r # _ \<Rightarrow> let r' = r\<lparr>id_state := Idn_IN_USE\<rparr>
                 in (Some r', put_identities (tbl_save id_id r' (ds_identities D)) D))"

text \<open>The three-table join; \<open>DISTINCT\<close> keeps each id once.\<close>

definition list_graduating_scouts :: "time \<Rightarrow> disc_store \<Rightarrow> uuid list" where
  "list_graduating_scouts joined_before D = remdups (map id_id (filter (\<lambda>r. id_role r = IRole_SCOUT
     \<and> (\<exists>c\<in>set (ds_collectors D). cr_identity_id c = id_id r
          \<and> (\<exists>m\<in>set (ds_memberships D). mb_collector_id m = cr_id c \<and> mb_left_at m = None
               \<and> mb_joined_at m \<le> joined_before))) (ds_identities D)))"

section \<open>The identity pool\<close>

definition cooldown_elapsed :: "time \<Rightarrow> identity_row \<Rightarrow> bool" where
  "cooldown_elapsed now r = (case id_last_used_at r of None \<Rightarrow> True
     | Some t \<Rightarrow> seconds (id_cooldown_seconds r) \<le> now - t)"

definition require_identity :: "string \<Rightarrow> disc_store \<Rightarrow> exn + identity_row" where
  "require_identity name D = (case get_identity_by_name name D of
     None \<Rightarrow> Inl (KeyError ''unknown identity'') | Some r \<Rightarrow> Inr r)"

text \<open>The read half of \<open>claim\<close>: the row, when its state admits a claim at \<open>now\<close>.\<close>

definition claim_read :: "string \<Rightarrow> time \<Rightarrow> disc_store \<Rightarrow> exn + identity_row" where
  "claim_read name now D =
     (case require_identity name D of
        Inl e \<Rightarrow> Inl e
      | Inr r \<Rightarrow>
          if id_state r = Idn_IN_USE then Inl (RuntimeError ''already in use'')
          else if id_state r = Idn_FROZEN \<or> id_state r = Idn_BURNED then Inl (RuntimeError ''frozen or burned'')
          else if id_state r = Idn_COOLING \<and> \<not> cooldown_elapsed now r then Inl (RuntimeError ''still cooling'')
          else Inr r)"

definition claim_write :: "identity_row \<Rightarrow> time \<Rightarrow> disc_store \<Rightarrow> (identity_row, disc_store) outcome" where
  "claim_write r now D = set_identity_state (id_id r) Idn_IN_USE (Some now) D"

text \<open>\<open>claim\<close> run alone; building the returned entry needs the source row.\<close>

definition claim :: "string \<Rightarrow> time \<Rightarrow> disc_store \<Rightarrow> (identity_row, disc_store) outcome" where
  "claim name now D =
     (case claim_read name now D of
        Inl e \<Rightarrow> (Inl e, D)
      | Inr r \<Rightarrow> (case claim_write r now D of
           (Inl e, D') \<Rightarrow> (Inl e, D')
         | (Inr r', D') \<Rightarrow> if \<not> tbl_has so_id (id_source_id r') (ds_sources D')
              then (Inl (RuntimeError ''unknown source''), D') else (Inr r', D')))"

definition release :: "string \<Rightarrow> identity_state \<Rightarrow> time \<Rightarrow> disc_store \<Rightarrow> (unit, disc_store) outcome" where
  "release name new_state now D =
     (case require_identity name D of
        Inl e \<Rightarrow> (Inl e, D)
      | Inr r \<Rightarrow> (case set_identity_state (id_id r) new_state (Some now) D of
           (Inl e, D') \<Rightarrow> (Inl e, D') | (Inr _, D') \<Rightarrow> (Inr (), D')))"

definition freeze_all :: "disc_store \<Rightarrow> disc_store" where
  "freeze_all D = snd (freeze_all_identities None D)"

section \<open>Collectors\<close>

definition put_collectors :: "collector_row list \<Rightarrow> disc_store \<Rightarrow> disc_store" where
  "put_collectors rows D = D\<lparr>ds_collectors := rows\<rparr>"

text \<open>CHECKs, UNIQUE columns and foreign keys of the row when it replaces the one of its id.\<close>

definition collector_ok :: "collector_row \<Rightarrow> disc_store \<Rightarrow> bool" where
  "collector_ok r D \<longleftrightarrow> collector_checks r \<and> collector_fks r D
     \<and> (\<forall>c\<in>set (ds_collectors D). cr_id c \<noteq> cr_id r
          \<longrightarrow> cr_identity_id c \<noteq> cr_identity_id r \<and> cr_instance_name c \<noteq> cr_instance_name r)"

abbreviation change_collector :: "uuid \<Rightarrow> (collector_row \<Rightarrow> collector_row) \<Rightarrow> disc_store \<Rightarrow> (collector_row, disc_store) outcome" where
  "change_collector \<equiv> change_row ds_collectors put_collectors cr_id ''collector not found'' collector_ok"

definition create_collector ::
  "uuid \<Rightarrow> string \<Rightarrow> source_kind \<Rightarrow> uuid \<Rightarrow> uuid \<Rightarrow> (string \<times> jval) list \<Rightarrow> time \<Rightarrow> uuid \<Rightarrow> string option
   \<Rightarrow> disc_store \<Rightarrow> (collector_row, disc_store) outcome" where
  "create_collector new_id name kind source identity config created_at created_by notes D =
     (let r = \<lparr>cr_id = new_id, cr_instance_name = name, cr_kind = kind, cr_source_id = source,
               cr_identity_id = identity, cr_config = config, cr_desired = Want_STOPPED, cr_observed = Obs_STOPPED,
               cr_restart_count = 0, cr_last_heartbeat_at = None, cr_last_error_type = None,
               cr_last_error_message = None, cr_created_at = created_at, cr_created_by = created_by, cr_notes = notes\<rparr>
      in if tbl_has cr_id new_id (ds_collectors D) \<or> \<not> collector_ok r D
         then (Inl (IntegrityError ''collector''), D)
         else (Inr r, put_collectors (ds_collectors D @ [r]) D))"

definition get_collector :: "uuid \<Rightarrow> disc_store \<Rightarrow> collector_row option" where
  "get_collector i D = tbl_get cr_id i (ds_collectors D)"

definition compute_instance_id :: "(bytes \<Rightarrow> string) \<Rightarrow> string \<Rightarrow> source_kind \<Rightarrow> string" where
  "compute_instance_id sha_hex name kind = take 8 (sha_hex (utf8 (name @ ''::'' @ source_kind_value kind)))"

definition resolve_collector_by_instance_id ::
  "(bytes \<Rightarrow> string) \<Rightarrow> string \<Rightarrow> disc_store \<Rightarrow> collector_row option" where
  "resolve_collector_by_instance_id sha_hex instance_id D =
     find (\<lambda>c. case tbl_get id_id (cr_identity_id c) (ds_identities D) of None \<Rightarrow> False
       | Some r \<Rightarrow> compute_instance_id sha_hex (id_name r) (cr_kind c) = instance_id) (ds_collectors D)"

definition list_collectors :: "disc_store \<Rightarrow> collector_row list" where
  "list_collectors D = order_asc cr_created_at (ds_collectors D)"

definition list_collectors_page :: "nat \<Rightarrow> nat \<Rightarrow> disc_store \<Rightarrow> collector_row list" where
  "list_collectors_page limit offset D = page offset limit (list_collectors D)"

definition count_collectors :: "disc_store \<Rightarrow> nat" where
  "count_collectors D = length (ds_collectors D)"

definition update_collector ::
  "uuid \<Rightarrow> (string \<times> jval) list option \<Rightarrow> string option \<Rightarrow> string option \<Rightarrow> disc_store
   \<Rightarrow> (collector_row, disc_store) outcome" where
  "update_collector i config name notes D = change_collector i
     (\<lambda>r. r\<lparr>cr_config := (case config of None \<Rightarrow> cr_config r | Some c \<Rightarrow> c),
            cr_instance_name := (case name of None \<Rightarrow> cr_instance_name r | Some n \<Rightarrow> n),
            cr_notes := (case notes of None \<Rightarrow> cr_notes r | Some n \<Rightarrow> Some n)\<rparr>) D"

definition bind_collector_source :: "uuid \<Rightarrow> uuid \<Rightarrow> disc_store \<Rightarrow> (collector_row, disc_store) outcome" where
  "bind_collector_source i source D =
     (case tbl_get cr_id i (ds_collectors D) of
        None \<Rightarrow> (Inl (ValueError ''collector not found''), D)
      | Some r \<Rightarrow> if cr_source_id r = source then (Inr r, D)
                  else change_collector i (\<lambda>r. r\<lparr>cr_source_id := source\<rparr>) D)"

definition set_collector_desired_state ::
  "uuid \<Rightarrow> collector_desired_state \<Rightarrow> disc_store \<Rightarrow> (collector_row, disc_store) outcome" where
  "set_collector_desired_state i s D = change_collector i (\<lambda>r. r\<lparr>cr_desired := s\<rparr>) D"

definition observed_row ::
  "collector_observed_state \<Rightarrow> time option \<Rightarrow> string option \<Rightarrow> string option \<Rightarrow> int option
   \<Rightarrow> collector_row \<Rightarrow> collector_row" where
  "observed_row s beat etype emsg restarts r =
     r\<lparr>cr_observed := s,
       cr_last_heartbeat_at := (case beat of None \<Rightarrow> cr_last_heartbeat_at r | Some t \<Rightarrow> Some t),
       cr_restart_count := (case restarts of None \<Rightarrow> cr_restart_count r | Some n \<Rightarrow> n),
       cr_last_error_type := etype, cr_last_error_message := emsg\<rparr>"

definition record_collector_observed_state ::
  "uuid \<Rightarrow> collector_observed_state \<Rightarrow> time option \<Rightarrow> string option \<Rightarrow> string option \<Rightarrow> int option \<Rightarrow> disc_store
   \<Rightarrow> (collector_row, disc_store) outcome" where
  "record_collector_observed_state i s beat etype emsg restarts D =
     (if \<not> tbl_has cr_id i (ds_collectors D) then (Inl (ValueError ''collector not found''), D)
      else if s = Obs_CRASHED \<and> (etype = None \<or> emsg = None)
      then (Inl (ValueError ''CRASHED transition requires both last_error_type and last_error_message''), D)
      else if (etype = None) \<noteq> (emsg = None)
      then (Inl (ValueError ''last_error_type and last_error_message must be set together''), D)
      else change_collector i (observed_row s beat etype emsg restarts) D)"

text \<open>The foreign keys that point at the row are checked by the \<open>DELETE\<close> itself.\<close>

definition delete_collector :: "uuid \<Rightarrow> disc_store \<Rightarrow> (unit, disc_store) outcome" where
  "delete_collector i D =
     (if \<not> tbl_has cr_id i (ds_collectors D) then (Inl (ValueError ''collector not found''), D)
      else if collector_referenced i D then (Inl (IntegrityError ''collector''), D)
      else (Inr (), put_collectors (tbl_delete cr_id i (ds_collectors D)) D))"

record fleet_health =
  fh_total :: nat
  fh_counts :: "collector_observed_state \<Rightarrow> nat"
  fh_oldest_heartbeat :: "time option"
  fh_storm_leader :: "uuid option"
  fh_max_restarts :: int

text \<open>The loop of \<open>collector_fleet_health\<close>; absent keys of its count dictionary read as 0.\<close>

fun fleet_loop :: "collector_row list \<Rightarrow> fleet_health \<Rightarrow> fleet_health" where
  "fleet_loop [] h = h"
| "fleet_loop (r # rs) h =
     (let h1 = h\<lparr>fh_counts := (fh_counts h)(cr_observed r := Suc (fh_counts h (cr_observed r)))\<rparr>;
          h2 = (case cr_last_heartbeat_at r of
                  Some t \<Rightarrow> if cr_observed r \<noteq> Obs_STOPPED
                             \<and> (case fh_oldest_heartbeat h1 of None \<Rightarrow> True | Some o' \<Rightarrow> t < o')
                           then h1\<lparr>fh_oldest_heartbeat := Some t\<rparr> else h1
                | None \<Rightarrow> h1);
          h3 = (if cr_restart_count r > fh_max_restarts h2
                then h2\<lparr>fh_max_restarts := cr_restart_count r, fh_storm_leader := Some (cr_id r)\<rparr> else h2)
      in fleet_loop rs h3)"

definition collector_fleet_health :: "disc_store \<Rightarrow> fleet_health" where
  "collector_fleet_health D =
     (let h = fleet_loop (ds_collectors D) \<lparr>fh_total = length (ds_collectors D), fh_counts = (\<lambda>_. 0),
                fh_oldest_heartbeat = None, fh_storm_leader = None, fh_max_restarts = 0\<rparr>
      in h\<lparr>fh_storm_leader := (if fh_max_restarts h > 0 then fh_storm_leader h else None)\<rparr>)"


text \<open>
  \<open>shutdown\<close> of a collector (\<open>telegram/real.py\<close>, \<open>matrix/real.py\<close>): release to \<open>AVAILABLE\<close>,
  errors logged and dropped.
\<close>

definition collector_shutdown :: "bool \<Rightarrow> string \<Rightarrow> time \<Rightarrow> disc_store \<Rightarrow> disc_store" where
  "collector_shutdown claimed name now D =
     (if claimed then snd (release name Idn_AVAILABLE now D) else D)"

end
