(* ===== verification/Memberships.thy ===== *)
theory Memberships
  imports Fleet
begin

text \<open>
  Which collector is in which group and which collector saw which message
  (\<open>sqlmodel_repo/memberships.py\<close>), the groups themselves (\<open>upsert_group\<close> of
  \<open>sqlmodel_repo/actors.py\<close>) and the access artifacts of a candidate
  (\<open>sqlmodel_repo/artifacts.py\<close>).
\<close>

section \<open>Groups\<close>

text \<open>\<open>title or row.current_title\<close>: the empty string keeps the old title.\<close>

definition or_str :: "string option \<Rightarrow> string option \<Rightarrow> string option" where
  "or_str a b = (case a of None \<Rightarrow> b | Some s \<Rightarrow> if s = [] then b else Some s)"

definition upsert_group ::
  "uuid \<Rightarrow> uuid \<Rightarrow> string \<Rightarrow> group_kind \<Rightarrow> string option \<Rightarrow> time \<Rightarrow> disc_store \<Rightarrow> (uuid, disc_store) outcome" where
  "upsert_group new_id source gid kind title seen_at D =
     (case find (\<lambda>g. gp_source_id g = source \<and> gp_platform_groupid g = gid) (ds_groups D) of
        None \<Rightarrow>
          (let g = \<lparr>gp_id = new_id, gp_source_id = source, gp_platform_groupid = gid, gp_kind = kind,
                    gp_title = title, gp_first_seen = seen_at, gp_last_observed = seen_at\<rparr>
           in if tbl_has gp_id new_id (ds_groups D) \<or> \<not> group_fks g D then (Inl (IntegrityError ''group_''), D)
              else (Inr new_id, D\<lparr>ds_groups := ds_groups D @ [g]\<rparr>))
      | Some g \<Rightarrow>
          (Inr (gp_id g), D\<lparr>ds_groups := tbl_save gp_id
             (g\<lparr>gp_title := or_str title (gp_title g), gp_last_observed := max (gp_last_observed g) seen_at\<rparr>)
             (ds_groups D)\<rparr>))"

definition get_group :: "uuid \<Rightarrow> disc_store \<Rightarrow> group_row option" where
  "get_group i D = tbl_get gp_id i (ds_groups D)"

section \<open>Memberships\<close>

definition membership_active :: "uuid \<Rightarrow> uuid \<Rightarrow> membership_row \<Rightarrow> bool" where
  "membership_active c g m \<longleftrightarrow> mb_collector_id m = c \<and> mb_group_id m = g \<and> mb_left_at m = None"

text \<open>\<open>one_or_none\<close>: a second match raises \<open>MultipleResultsFound\<close>.\<close>

definition one_or_none :: "'r list \<Rightarrow> exn + 'r option" where
  "one_or_none rows = (case rows of [] \<Rightarrow> Inr None | [r] \<Rightarrow> Inr (Some r) | _ \<Rightarrow> Inl (RuntimeError ''MultipleResultsFound''))"

definition open_membership ::
  "uuid \<Rightarrow> uuid \<Rightarrow> uuid \<Rightarrow> time \<Rightarrow> joined_via \<Rightarrow> uuid option \<Rightarrow> disc_store \<Rightarrow> (membership_row, disc_store) outcome" where
  "open_membership new_id collector grp joined_at via cand D =
     (case one_or_none (filter (membership_active collector grp) (ds_memberships D)) of
        Inl e \<Rightarrow> (Inl e, D)
      | Inr (Some _) \<Rightarrow> (Inl (ValueError ''already has an active membership''), D)
      | Inr None \<Rightarrow>
          let m = \<lparr>mb_id = new_id, mb_collector_id = collector, mb_group_id = grp, mb_joined_at = joined_at,
                   mb_joined_via = via, mb_candidate_id = cand, mb_left_at = None, mb_left_reason = None\<rparr>
          in if tbl_has mb_id new_id (ds_memberships D) \<or> \<not> membership_checks m \<or> \<not> membership_fks m D
             then (Inl (IntegrityError ''collector_group_membership''), D)
             else (Inr m, D\<lparr>ds_memberships := ds_memberships D @ [m]\<rparr>))"

definition close_membership ::
  "uuid \<Rightarrow> uuid \<Rightarrow> time \<Rightarrow> string \<Rightarrow> disc_store \<Rightarrow> (membership_row, disc_store) outcome" where
  "close_membership collector grp left_at reason D =
     (case one_or_none (filter (membership_active collector grp) (ds_memberships D)) of
        Inl e \<Rightarrow> (Inl e, D)
      | Inr None \<Rightarrow> (Inl (ValueError ''no active membership''), D)
      | Inr (Some m) \<Rightarrow>
          let m' = m\<lparr>mb_left_at := Some left_at, mb_left_reason := Some reason\<rparr>
          in (Inr m', D\<lparr>ds_memberships := tbl_save mb_id m' (ds_memberships D)\<rparr>))"

definition list_active_memberships :: "uuid option \<Rightarrow> uuid option \<Rightarrow> disc_store \<Rightarrow> membership_row list" where
  "list_active_memberships collector grp D = order_asc mb_joined_at (filter (\<lambda>m. mb_left_at m = None
     \<and> (case collector of None \<Rightarrow> True | Some c \<Rightarrow> mb_collector_id m = c)
     \<and> (case grp of None \<Rightarrow> True | Some g \<Rightarrow> mb_group_id m = g)) (ds_memberships D))"

section \<open>Sightings of messages\<close>

text \<open>
  \<open>INSERT\<close> of a sighting: primary key (message, collector), UNIQUE on the generated column that
  carries the message id of first sightings, foreign keys.
\<close>

definition insert_sighting :: "sighting_row \<Rightarrow> disc_store \<Rightarrow> (unit, disc_store) outcome" where
  "insert_sighting s D =
     (if (\<exists>t\<in>set (ds_sightings D). sg_message_id t = sg_message_id s
            \<and> (sg_collector_id t = sg_collector_id s \<or> (sg_first t \<and> sg_first s)))
         \<or> \<not> sighting_fks s D
      then (Inl (IntegrityError ''message_observation''), D)
      else (Inr (), D\<lparr>ds_sightings := ds_sightings D @ [s]\<rparr>))"

definition extant_sighting :: "uuid \<Rightarrow> uuid \<Rightarrow> disc_store \<Rightarrow> sighting_row option" where
  "extant_sighting msg collector D =
     find (\<lambda>s. sg_message_id s = msg \<and> sg_collector_id s = collector) (ds_sightings D)"

text \<open>The insertion half of \<open>record_observation\<close>, after its first transaction found no row.\<close>

definition claim_sighting :: "uuid \<Rightarrow> uuid \<Rightarrow> time \<Rightarrow> disc_store \<Rightarrow> (sighting_row, disc_store) outcome" where
  "claim_sighting msg collector at_ingest D =
     (let row = (\<lambda>b. \<lparr>sg_message_id = msg, sg_collector_id = collector, sg_observed_at = at_ingest, sg_first = b\<rparr>)
      in case insert_sighting (row True) D of
           (Inr _, D') \<Rightarrow> (Inr (row True), D')
         | (Inl _, D') \<Rightarrow> (case insert_sighting (row False) D' of
              (Inr _, D'') \<Rightarrow> (Inr (row False), D'') | (Inl e, D'') \<Rightarrow> (Inl e, D'')))"

definition record_observation :: "uuid \<Rightarrow> uuid \<Rightarrow> time \<Rightarrow> disc_store \<Rightarrow> (sighting_row, disc_store) outcome" where
  "record_observation msg collector at_ingest D =
     (case extant_sighting msg collector D of
        Some s \<Rightarrow> (Inr s, D)
      | None \<Rightarrow> claim_sighting msg collector at_ingest D)"

section \<open>Access artifacts\<close>

definition add_group_access_artifact ::
  "access_row \<Rightarrow> disc_store \<Rightarrow> (access_row, disc_store) outcome" where
  "add_group_access_artifact a D =
     (if tbl_has ac_id (ac_id a) (ds_access D) \<or> \<not> access_checks a \<or> \<not> access_fks a D
      then (Inl (IntegrityError ''group_access_artifact''), D)
      else (Inr a, D\<lparr>ds_access := ds_access D @ [a]\<rparr>))"

definition get_group_access_artifact :: "uuid \<Rightarrow> disc_store \<Rightarrow> access_row option" where
  "get_group_access_artifact i D = tbl_get ac_id i (ds_access D)"

definition list_group_access_artifacts_for_candidate :: "uuid \<Rightarrow> disc_store \<Rightarrow> access_row list" where
  "list_group_access_artifacts_for_candidate i D = filter (\<lambda>a. ac_candidate_id a = Some i) (ds_access D)"

definition set_artifact_validation_state ::
  "uuid \<Rightarrow> artifact_validation_state \<Rightarrow> time \<Rightarrow> disc_store \<Rightarrow> access_row option \<times> disc_store" where
  "set_artifact_validation_state i v t D =
     (case tbl_get ac_id i (ds_access D) of
        None \<Rightarrow> (None, D)
      | Some a \<Rightarrow> let a' = a\<lparr>ac_validation := v, ac_last_validated_at := Some t\<rparr>
                  in (Some a', D\<lparr>ds_access := tbl_save ac_id a' (ds_access D)\<rparr>))"

end
