(* ===== verification/Candidates.thy ===== *)
theory Candidates
  imports Memberships "HOL-Library.AList"
begin

text \<open>
  Group candidates and the mentions that led to them (\<open>sqlmodel_repo/candidates.py\<close>): the state
  machine with its legal edges, the compare-and-swap claim, idempotent recording, the frozen
  score and the lineage reads that eligibility rests on.
\<close>

section \<open>State machine\<close>

primrec ALLOWED :: "candidate_state \<Rightarrow> candidate_state list" where
  "ALLOWED DISCOVERED = [QUEUED, REJECTED]"
| "ALLOWED QUEUED = [APPROVED, REJECTED]"
| "ALLOWED APPROVED = [JOINING, REJECTED]"
| "ALLOWED JOINING = [JOINED, FAILED, REQUESTED]"
| "ALLOWED JOINED = [PARKED]"
| "ALLOWED REQUESTED = [JOINED, FAILED, PARKED]"
| "ALLOWED FAILED = [PARKED, QUEUED]"
| "ALLOWED REJECTED = [PARKED]"
| "ALLOWED PARKED = [APPROVED]"

definition put_candidates :: "candidate_row list \<Rightarrow> disc_store \<Rightarrow> disc_store" where
  "put_candidates rows D = D\<lparr>ds_candidates := rows\<rparr>"

definition set_opt :: "'a option \<Rightarrow> 'a option \<Rightarrow> 'a option" where
  "set_opt new old = (case new of None \<Rightarrow> old | Some v \<Rightarrow> Some v)"

record transition_args =
  ta_reviewed_by :: "string option"
  ta_reviewed_at :: "time option"
  ta_reason :: "string option"
  ta_collector :: "uuid option"
  ta_group :: "uuid option"

definition no_args :: transition_args where
  "no_args = \<lparr>ta_reviewed_by = None, ta_reviewed_at = None, ta_reason = None, ta_collector = None, ta_group = None\<rparr>"

definition transition_row :: "candidate_state \<Rightarrow> transition_args \<Rightarrow> candidate_row \<Rightarrow> candidate_row" where
  "transition_row to_state a c = c\<lparr>gc_state := to_state,
     gc_reviewed_by := set_opt (ta_reviewed_by a) (gc_reviewed_by c),
     gc_reviewed_at := set_opt (ta_reviewed_at a) (gc_reviewed_at c),
     gc_rejection_reason := set_opt (ta_reason a) (gc_rejection_reason c),
     gc_collector_id := set_opt (ta_collector a) (gc_collector_id c),
     gc_group_id := set_opt (ta_group a) (gc_group_id c)\<rparr>"

definition transition_candidate ::
  "uuid \<Rightarrow> candidate_state \<Rightarrow> transition_args \<Rightarrow> disc_store \<Rightarrow> (candidate_row, disc_store) outcome" where
  "transition_candidate i to_state a D =
     (case tbl_get gc_id i (ds_candidates D) of
        None \<Rightarrow> (Inl (ValueError ''candidate not found''), D)
      | Some c \<Rightarrow>
          if to_state \<notin> set (ALLOWED (gc_state c)) then (Inl (ValueError ''illegal candidate transition''), D)
          else
            let c' = transition_row to_state a c
            in if \<not> candidate_fks c' D then (Inl (IntegrityError ''group_candidate''), D)
               else (Inr c', put_candidates (tbl_save gc_id c' (ds_candidates D)) D))"

text \<open>One conditional \<open>UPDATE\<close>; \<open>True\<close> iff it changed exactly one row.\<close>

definition claim_where :: "uuid \<Rightarrow> candidate_state \<Rightarrow> candidate_row \<Rightarrow> bool" where
  "claim_where i from_state c \<longleftrightarrow> gc_id c = i \<and> gc_state c = from_state"

definition claim_row :: "candidate_state \<Rightarrow> uuid option \<Rightarrow> time option \<Rightarrow> candidate_row \<Rightarrow> candidate_row" where
  "claim_row to_state grp reviewed c = c\<lparr>gc_state := to_state, gc_group_id := set_opt grp (gc_group_id c),
     gc_reviewed_at := set_opt reviewed (gc_reviewed_at c)\<rparr>"

definition claim_candidate_transition ::
  "uuid \<Rightarrow> candidate_state \<Rightarrow> candidate_state \<Rightarrow> uuid option \<Rightarrow> time option \<Rightarrow> disc_store
   \<Rightarrow> (bool, disc_store) outcome" where
  "claim_candidate_transition i from_state to_state grp reviewed D =
     (if rowcount (claim_where i from_state) (ds_candidates D) > 0 \<and> \<not> fk_opt gp_id grp (ds_groups D)
      then (Inl (IntegrityError ''group_candidate''), D)
      else (Inr (rowcount (claim_where i from_state) (ds_candidates D) = 1),
            put_candidates (tbl_update (claim_where i from_state) (claim_row to_state grp reviewed) (ds_candidates D)) D))"

section \<open>Recording\<close>

definition find_candidate :: "uuid \<Rightarrow> string \<Rightarrow> disc_store \<Rightarrow> candidate_row option" where
  "find_candidate source gid D = find (\<lambda>c. gc_source_id c = source \<and> gc_platform_groupid c = gid) (ds_candidates D)"

definition new_candidate ::
  "uuid \<Rightarrow> uuid \<Rightarrow> string \<Rightarrow> group_kind option \<Rightarrow> string option \<Rightarrow> time \<Rightarrow> bool \<Rightarrow> candidate_row" where
  "new_candidate new_id source gid kind name seen dialog =
     \<lparr>gc_id = new_id, gc_source_id = source, gc_platform_groupid = gid, gc_kind_hint = kind, gc_display_name = name,
      gc_state = DISCOVERED, gc_score = 0, gc_score_breakdown = [], gc_score_version = 1, gc_first_observed = seen,
      gc_last_observed = seen, gc_reviewed_at = None, gc_reviewed_by = None, gc_rejection_reason = None,
      gc_collector_id = None, gc_group_id = None, gc_member_dialog = dialog\<rparr>"

definition insert_candidate :: "candidate_row \<Rightarrow> disc_store \<Rightarrow> (candidate_row, disc_store) outcome" where
  "insert_candidate c D =
     (if tbl_has gc_id (gc_id c) (ds_candidates D) \<or> \<not> candidate_fks c D
      then (Inl (IntegrityError ''group_candidate''), D)
      else (Inr c, put_candidates (ds_candidates D @ [c]) D))"

record mention_args =
  ma_source :: uuid
  ma_gid :: string
  ma_collector :: uuid
  ma_group :: uuid
  ma_seed_root :: "uuid option"
  ma_depth :: int
  ma_ref :: string
  ma_kind :: mention_kind
  ma_at_source :: time
  ma_at_ingest :: time
  ma_actor :: uuid
  ma_role_signal :: "string option"
  ma_kind_hint :: "group_kind option"
  ma_name_hint :: "string option"

definition mention_of :: "uuid \<Rightarrow> uuid \<Rightarrow> mention_args \<Rightarrow> mention_row" where
  "mention_of new_id cand a = \<lparr>mn_id = new_id, mn_candidate_id = cand, mn_collector_id = ma_collector a,
     mn_group_id = ma_group a, mn_seed_root = ma_seed_root a, mn_depth = ma_depth a, mn_evidence_ref = ma_ref a,
     mn_kind = ma_kind a, mn_at_source = ma_at_source a, mn_at_ingest = ma_at_ingest a, mn_actor_id = ma_actor a,
     mn_role_signal = ma_role_signal a\<rparr>"

text \<open>
  One transaction: find or create the candidate (or bump its last observation), find or append
  the mention; any failure rolls all of it back.
\<close>

definition candidate_for :: "uuid \<Rightarrow> mention_args \<Rightarrow> disc_store \<Rightarrow> (candidate_row, disc_store) outcome" where
  "candidate_for new_id a D =
     (case find_candidate (ma_source a) (ma_gid a) D of
        None \<Rightarrow> insert_candidate (new_candidate new_id (ma_source a) (ma_gid a) (ma_kind_hint a)
                  (ma_name_hint a) (ma_at_ingest a) False) D
      | Some c \<Rightarrow>
          let c' = (if ma_at_ingest a > gc_last_observed c then c\<lparr>gc_last_observed := ma_at_ingest a\<rparr> else c)
          in (Inr c', put_candidates (tbl_save gc_id c' (ds_candidates D)) D))"

definition attach_mention ::
  "uuid \<Rightarrow> mention_args \<Rightarrow> candidate_row \<Rightarrow> disc_store \<Rightarrow> (candidate_row \<times> mention_row, disc_store) outcome" where
  "attach_mention new_id a c D =
     (case find (\<lambda>m. mn_candidate_id m = gc_id c \<and> mn_evidence_ref m = ma_ref a) (ds_mentions D) of
        Some m \<Rightarrow> (Inr (c, m), D)
      | None \<Rightarrow>
          let m = mention_of new_id (gc_id c) a
          in if tbl_has mn_id new_id (ds_mentions D) \<or> \<not> mention_checks m \<or> \<not> mention_fks m D
             then (Inl (IntegrityError ''group_candidate_mention''), D)
             else (Inr (c, m), D\<lparr>ds_mentions := ds_mentions D @ [m]\<rparr>))"

definition record_candidate_mention ::
  "uuid \<Rightarrow> uuid \<Rightarrow> mention_args \<Rightarrow> disc_store \<Rightarrow> (candidate_row \<times> mention_row, disc_store) outcome" where
  "record_candidate_mention new_cid new_mid a D =
     (case candidate_for new_cid a D of
        (Inl e, _) \<Rightarrow> (Inl e, D)
      | (Inr c, D1) \<Rightarrow>
          (case attach_mention new_mid a c D1 of (Inl e, _) \<Rightarrow> (Inl e, D) | (Inr x, D2) \<Rightarrow> (Inr x, D2)))"

definition ensure_candidate ::
  "uuid \<Rightarrow> uuid \<Rightarrow> string \<Rightarrow> time \<Rightarrow> group_kind option \<Rightarrow> string option \<Rightarrow> bool \<Rightarrow> disc_store
   \<Rightarrow> (candidate_row, disc_store) outcome" where
  "ensure_candidate new_id source gid seen kind title dialog D =
     (case find_candidate source gid D of
        None \<Rightarrow> insert_candidate (new_candidate new_id source gid kind title seen dialog) D
      | Some c \<Rightarrow>
          let c' = c\<lparr>gc_display_name := or_str title (gc_display_name c), gc_kind_hint := set_opt kind (gc_kind_hint c),
                     gc_member_dialog := (dialog \<or> gc_member_dialog c),
                     gc_last_observed := (if seen > gc_last_observed c then seen else gc_last_observed c)\<rparr>
          in (Inr c', put_candidates (tbl_save gc_id c' (ds_candidates D)) D))"

section \<open>Reads\<close>

definition get_candidate :: "uuid \<Rightarrow> disc_store \<Rightarrow> candidate_row option" where
  "get_candidate i D = tbl_get gc_id i (ds_candidates D)"

definition list_queued_candidates :: "uuid option \<Rightarrow> disc_store \<Rightarrow> candidate_row list" where
  "list_queued_candidates source D = order_desc gc_score (filter (\<lambda>c. gc_state c = QUEUED
     \<and> (case source of None \<Rightarrow> True | Some s \<Rightarrow> gc_source_id c = s)) (ds_candidates D))"

definition requested_candidates_for_collector :: "uuid \<Rightarrow> disc_store \<Rightarrow> candidate_row list" where
  "requested_candidates_for_collector k D =
     filter (\<lambda>c. gc_state c = REQUESTED \<and> gc_collector_id c = Some k) (ds_candidates D)"

definition requested_candidate_for_group :: "uuid \<Rightarrow> string \<Rightarrow> disc_store \<Rightarrow> candidate_row option" where
  "requested_candidate_for_group k gid D =
     find (\<lambda>c. gc_state c = REQUESTED \<and> gc_collector_id c = Some k \<and> gc_platform_groupid c = gid) (ds_candidates D)"

text \<open>
  \<open>str.lower\<close> on code points below 256, SQLite's \<open>LOWER\<close> (ASCII only), and SQLite's \<open>LIKE\<close>
  (\<open>%\<close> any run, \<open>_\<close> any character, ASCII case ignored).
\<close>

definition py_lower_char :: "char \<Rightarrow> char" where
  "py_lower_char c = (let n = of_char c :: nat in
     if (65 \<le> n \<and> n \<le> 90) \<or> (192 \<le> n \<and> n \<le> 222 \<and> n \<noteq> 215) then char_of (n + 32) else c)"

definition sql_lower_char :: "char \<Rightarrow> char" where
  "sql_lower_char c = (let n = of_char c :: nat in if 65 \<le> n \<and> n \<le> 90 then char_of (n + 32) else c)"

definition py_lower :: "string \<Rightarrow> string" where
  "py_lower s = map py_lower_char s"

definition sql_lower :: "string \<Rightarrow> string" where
  "sql_lower s = map sql_lower_char s"

fun sql_like :: "string \<Rightarrow> string \<Rightarrow> bool" where
  "sql_like [] s = (s = [])"
| "sql_like (p # ps) [] = (p = CHR ''%'' \<and> sql_like ps [])"
| "sql_like (p # ps) (c # cs) =
     (if p = CHR ''%'' then sql_like ps (c # cs) \<or> sql_like (p # ps) cs
      else (p = CHR ''_'' \<or> sql_lower_char p = sql_lower_char c) \<and> sql_like ps cs)"

record candidate_query =
  kq_state :: "candidate_state option"
  kq_source :: "uuid option"
  kq_min_score :: "rat option"
  kq_states :: "candidate_state list option"
  kq_dialog :: "bool option"
  kq_q :: "string option"

definition search_clause :: "string \<Rightarrow> candidate_row \<Rightarrow> bool" where
  "search_clause q c = (let pattern = ''%'' @ py_lower q @ ''%'' in
     (case gc_display_name c of None \<Rightarrow> False | Some n \<Rightarrow> sql_like pattern (sql_lower n))
     \<or> sql_like pattern (sql_lower (gc_platform_groupid c)))"

definition filtered_candidates :: "candidate_query \<Rightarrow> disc_store \<Rightarrow> candidate_row list" where
  "filtered_candidates q D = filter (\<lambda>c.
       (case kq_state q of None \<Rightarrow> True | Some s \<Rightarrow> gc_state c = s)
     \<and> (case kq_states q of None \<Rightarrow> True | Some ss \<Rightarrow> gc_state c \<in> set ss)
     \<and> (case kq_source q of None \<Rightarrow> True | Some s \<Rightarrow> gc_source_id c = s)
     \<and> (case kq_min_score q of None \<Rightarrow> True | Some m \<Rightarrow> m \<le> gc_score c)
     \<and> (case kq_dialog q of None \<Rightarrow> True | Some b \<Rightarrow> gc_member_dialog c = b)
     \<and> (case kq_q q of None \<Rightarrow> True | Some t \<Rightarrow> t = [] \<or> search_clause t c)) (ds_candidates D)"

definition list_candidates :: "candidate_query \<Rightarrow> nat \<Rightarrow> nat \<Rightarrow> disc_store \<Rightarrow> candidate_row list" where
  "list_candidates q limit offset D =
     page offset limit (order_desc (\<lambda>c. (gc_score c, gc_last_observed c)) (filtered_candidates q D))"

definition count_candidates :: "candidate_query \<Rightarrow> disc_store \<Rightarrow> nat" where
  "count_candidates q D = length (filtered_candidates q D)"

section \<open>Score, lineage and eligibility inputs\<close>

text \<open>The doubles nearest to 0.3 and 0.2; \<open>fl\<close> rounds a sum or product to a double.\<close>

definition W_GROUPS :: rat where
  "W_GROUPS = 5404319552844595 / 18014398509481984"

definition W_ACTORS :: rat where
  "W_ACTORS = 3602879701896397 / 18014398509481984"

definition score_value :: "(rat \<Rightarrow> rat) \<Rightarrow> nat \<Rightarrow> nat \<Rightarrow> rat" where
  "score_value fl groups actors =
     min 1 (fl (fl (W_GROUPS * of_nat groups) + fl (W_ACTORS * of_nat actors)))"

definition score_breakdown :: "nat \<Rightarrow> nat \<Rightarrow> (string \<times> jval) list" where
  "score_breakdown groups actors = [(''distinct_mentioning_groups'', JInt (int groups)),
     (''distinct_mentioning_actors'', JInt (int actors)), (''score_function_version'', JInt 1)]"

definition mentions_of :: "uuid \<Rightarrow> disc_store \<Rightarrow> mention_row list" where
  "mentions_of i D = filter (\<lambda>m. mn_candidate_id m = i) (ds_mentions D)"

definition scored_row :: "(rat \<Rightarrow> rat) \<Rightarrow> mention_row list \<Rightarrow> candidate_row \<Rightarrow> candidate_row" where
  "scored_row fl ms c =
     (let g = distinct_count mn_group_id ms; a = distinct_count mn_actor_id ms
      in c\<lparr>gc_score := score_value fl g a, gc_score_breakdown := score_breakdown g a, gc_score_version := 1\<rparr>)"

definition resolve_candidate_case :: "uuid \<Rightarrow> disc_store \<Rightarrow> case_row option" where
  "resolve_candidate_case i D = resolve_case_for_candidate (map mn_seed_root (mentions_of i D)) (ds_cases D)"

definition score_candidate :: "(rat \<Rightarrow> rat) \<Rightarrow> uuid \<Rightarrow> disc_store \<Rightarrow> (candidate_row, disc_store) outcome" where
  "score_candidate fl i D =
     (case tbl_get gc_id i (ds_candidates D) of
        None \<Rightarrow> (Inl (ValueError ''candidate not found''), D)
      | Some c0 \<Rightarrow>
          let c = scored_row fl (mentions_of i D) c0
          in if \<not> candidate_checks c then (Inl (IntegrityError ''group_candidate''), D)
             else
               let D1 = put_candidates (tbl_save gc_id c (ds_candidates D)) D
               in if gc_state c \<noteq> DISCOVERED then (Inr c, D1)
                  else (case resolve_candidate_case i D1 of
                          None \<Rightarrow> (Inr c, D1)
                        | Some ca \<Rightarrow>
                            (case ca_score_threshold ca of
                               None \<Rightarrow> (Inr c, D1)
                             | Some t \<Rightarrow> if t \<le> gc_score c then transition_candidate i QUEUED no_args D1
                                         else (Inr c, D1))))"

definition group_lineage :: "uuid \<Rightarrow> disc_store \<Rightarrow> uuid option \<times> int" where
  "group_lineage g D =
     (if \<exists>c\<in>set (cs_cases (ds_cases D)). g \<in> set (ca_seed_roots c) then (Some g, 0)
      else (case find (\<lambda>c. gc_group_id c = Some g) (ds_candidates D) of
              None \<Rightarrow> (None, 0)
            | Some c \<Rightarrow>
                (case min_on mn_depth (filter (\<lambda>m. mn_seed_root m \<noteq> None) (mentions_of (gc_id c) D)) of
                   None \<Rightarrow> (None, 0)
                 | Some m \<Rightarrow> (mn_seed_root m, mn_depth m))))"

definition reachable_roots_for_collector :: "uuid \<Rightarrow> disc_store \<Rightarrow> uuid set" where
  "reachable_roots_for_collector k D =
     set (List.map_filter mn_seed_root (filter (\<lambda>m. mn_collector_id m = k) (ds_mentions D)))
     \<union> set (filter (\<lambda>g. \<exists>c\<in>set (cs_cases (ds_cases D)). g \<in> set (ca_seed_roots c))
            (map mb_group_id (filter (\<lambda>m. mb_collector_id m = k \<and> mb_left_at m = None) (ds_memberships D))))"

record eligibility_inputs =
  ei_candidate :: candidate_row
  ei_mentions :: "mention_row list"
  ei_min_depth :: "(uuid \<times> int) list"

text \<open>The dictionary \<open>min_depth\<close>, keys in order of first insertion.\<close>

fun min_depths :: "mention_row list \<Rightarrow> (uuid \<times> int) list \<Rightarrow> (uuid \<times> int) list" where
  "min_depths [] d = d"
| "min_depths (m # ms) d = min_depths ms (AList.update (mn_collector_id m)
     (min (case map_of d (mn_collector_id m) of None \<Rightarrow> mn_depth m | Some x \<Rightarrow> x) (mn_depth m)) d)"

definition compute_eligibility_inputs :: "uuid \<Rightarrow> disc_store \<Rightarrow> exn + eligibility_inputs" where
  "compute_eligibility_inputs i D =
     (case tbl_get gc_id i (ds_candidates D) of
        None \<Rightarrow> Inl (ValueError ''candidate not found'')
      | Some c \<Rightarrow> Inr \<lparr>ei_candidate = c, ei_mentions = mentions_of i D, ei_min_depth = min_depths (mentions_of i D) []\<rparr>)"

end
