(* ===== verification/Join_Flow.thy ===== *)
theory Join_Flow
  imports Candidates
begin

text \<open>
  From an approved candidate to a joined group: the eligibility predicate
  (\<open>services/discovery/eligibility.py\<close>), the burn path of \<open>scout_graduation.py\<close> and the
  telethon-free core of the join, \<open>collectors/telegram/_join.py\<close>, with its compare-and-swap and
  its compensation. Log lines are left out; the reason strings of verdicts too.
\<close>

section \<open>Eligibility\<close>

datatype eligibility = El_OK | El_SKIP_DUAL_COVER | El_NO_REACHABLE_ROOT | El_OVER_DEPTH
  | El_NO_SCOUT_AVAILABLE | El_DEFERRED_TO_RUNTIME

text \<open>\<open>int(str)\<close>: surrounding white space, a sign, digits with single underscores between.\<close>

definition is_digit :: "char \<Rightarrow> bool" where
  "is_digit c \<longleftrightarrow> (let n = of_char c :: nat in 48 \<le> n \<and> n \<le> 57)"

definition is_space :: "char \<Rightarrow> bool" where
  "is_space c \<longleftrightarrow> (let n = of_char c :: nat in (9 \<le> n \<and> n \<le> 13) \<or> (28 \<le> n \<and> n \<le> 32) \<or> n = 133 \<or> n = 160)"

fun digits_val :: "nat \<Rightarrow> bool \<Rightarrow> string \<Rightarrow> nat option" where
  "digits_val acc ok [] = (if ok then Some acc else None)"
| "digits_val acc ok (c # cs) =
     (if is_digit c then digits_val (10 * acc + (of_char c - 48)) True cs
      else if c = CHR ''_'' \<and> ok then digits_val acc False cs else None)"

definition py_strip :: "string \<Rightarrow> string" where
  "py_strip s = rev (dropWhile is_space (rev (dropWhile is_space s)))"

definition py_int :: "string \<Rightarrow> int option" where
  "py_int s = (case py_strip s of
      [] \<Rightarrow> None
    | c # cs \<Rightarrow> if c = CHR ''-'' then map_option (\<lambda>n. - int n) (digits_val 0 False cs)
                else if c = CHR ''+'' then map_option int (digits_val 0 False cs)
                else map_option int (digits_val 0 False (c # cs)))"

definition max_auto_join_depth :: "collector_row \<Rightarrow> int" where
  "max_auto_join_depth c = (case map_of (cr_config c) ''max_auto_join_depth'' of
      None \<Rightarrow> 2
    | Some (JInt n) \<Rightarrow> n
    | Some (JBool b) \<Rightarrow> (if b then 1 else 0)
    | Some (JStr s) \<Rightarrow> (case py_int s of None \<Rightarrow> 2 | Some n \<Rightarrow> n)
    | Some _ \<Rightarrow> 2)"

definition reachable_depths :: "uuid set \<Rightarrow> mention_row list \<Rightarrow> int list" where
  "reachable_depths roots ms = map mn_depth (filter (\<lambda>m. case mn_seed_root m of None \<Rightarrow> False | Some r \<Rightarrow> r \<in> roots) ms)"

definition evaluate :: "eligibility_inputs \<Rightarrow> collector_row \<Rightarrow> case_row option \<Rightarrow> nat \<Rightarrow> uuid set \<Rightarrow> eligibility" where
  "evaluate inputs collector cas active roots =
     (let policy = (case cas of None \<Rightarrow> PREFER_SINGLE | Some c \<Rightarrow> ca_redundancy c)
      in if active > 0 \<and> policy = PREFER_SINGLE then El_SKIP_DUAL_COVER
         else if active > 0 \<and> policy = PREFER_DUAL \<and> active \<ge> 2 then El_SKIP_DUAL_COVER
         else
           let depths = reachable_depths roots (ei_mentions inputs)
           in if depths = [] then El_NO_REACHABLE_ROOT
              else if max_auto_join_depth collector \<le> Min (set depths) then El_OVER_DEPTH
              else El_OK)"

definition active_coverage :: "candidate_row \<Rightarrow> disc_store \<Rightarrow> nat" where
  "active_coverage c D = (case gc_group_id c of None \<Rightarrow> 0 | Some g \<Rightarrow> length (list_active_memberships None (Some g) D))"

definition with_scout :: "bool \<Rightarrow> eligibility \<Rightarrow> eligibility" where
  "with_scout has_scout v = (if v = El_OK \<and> \<not> has_scout then El_NO_SCOUT_AVAILABLE else v)"

definition collector_eligibility :: "uuid \<Rightarrow> uuid \<Rightarrow> disc_store \<Rightarrow> exn + eligibility" where
  "collector_eligibility i k D =
     (case compute_eligibility_inputs i D of
        Inl e \<Rightarrow> Inl e
      | Inr inputs \<Rightarrow>
          (case get_collector k D of
             None \<Rightarrow> Inl (ValueError ''collector not found'')
           | Some collector \<Rightarrow>
               Inr (with_scout (has_available_scout (gc_source_id (ei_candidate inputs)) D)
                 (evaluate inputs collector (resolve_candidate_case i D)
                    (active_coverage (ei_candidate inputs) D) (reachable_roots_for_collector k D)))))"

definition eligibility_for_candidate :: "uuid \<Rightarrow> disc_store \<Rightarrow> exn + (uuid \<times> eligibility) list" where
  "eligibility_for_candidate i D =
     (case compute_eligibility_inputs i D of
        Inl e \<Rightarrow> Inl e
      | Inr inputs \<Rightarrow> Inr (map (\<lambda>c. (cr_id c,
            with_scout (has_available_scout (gc_source_id (ei_candidate inputs)) D)
              (evaluate inputs c (resolve_candidate_case i D)
                 (active_coverage (ei_candidate inputs) D) (reachable_roots_for_collector (cr_id c) D))))
          (list_collectors D)))"

section \<open>Join outcomes and identifiers\<close>

datatype join_outcome = Out_FAILED | Out_BANNED | Out_REQUESTED

datatype join_action = Act_PUBLIC | Act_INVITE_HASH | Act_UNSUPPORTED

definition classify_join_error :: "string \<Rightarrow> join_outcome" where
  "classify_join_error name =
     (if name = ''UserBannedInChannelError'' then Out_BANNED
      else if name = ''InviteRequestSentError'' then Out_REQUESTED else Out_FAILED)"

definition select_join_action :: "group_access_kind \<Rightarrow> join_action" where
  "select_join_action k = (if k = Acc_PUBLIC_IDENTIFIER then Act_PUBLIC
     else if k = Acc_INVITE_LINK then Act_INVITE_HASH else Act_UNSUPPORTED)"

definition artifact_state_for_error :: "string \<Rightarrow> artifact_validation_state option" where
  "artifact_state_for_error name = map_of
     [(''InviteHashExpiredError'', Val_EXPIRED), (''InviteHashInvalidError'', Val_REVOKED)] name"

text \<open>The token class \<open>[A-Za-z0-9_-]\<close> and the search for the first marker with a token.\<close>

definition token_char :: "char \<Rightarrow> bool" where
  "token_char c \<longleftrightarrow> (let n = of_char c :: nat in (65 \<le> n \<and> n \<le> 90) \<or> (97 \<le> n \<and> n \<le> 122) \<or> (48 \<le> n \<and> n \<le> 57)
     \<or> n = 95 \<or> n = 45)"

definition token_after :: "string \<Rightarrow> string \<Rightarrow> string option" where
  "token_after marker s =
     (if take (length marker) s = marker
      then (case takeWhile token_char (drop (length marker) s) of [] \<Rightarrow> None | t \<Rightarrow> Some t) else None)"

definition invite_here :: "string \<Rightarrow> string option" where
  "invite_here s = (case token_after ''joinchat/'' s of Some t \<Rightarrow> Some t
     | None \<Rightarrow> (case token_after ''invite='' s of Some t \<Rightarrow> Some t | None \<Rightarrow> token_after ''+'' s))"

fun invite_search :: "string \<Rightarrow> string option" where
  "invite_search [] = None"
| "invite_search (c # cs) = (case invite_here (c # cs) of Some t \<Rightarrow> Some t | None \<Rightarrow> invite_search cs)"

definition parse_invite_hash :: "string option \<Rightarrow> string option" where
  "parse_invite_hash v = (case v of None \<Rightarrow> None | Some s \<Rightarrow> if s = [] then None else invite_search s)"

text \<open>\<open>int(s)\<close> on a string of digits.\<close>

definition digits_nat :: "string \<Rightarrow> nat" where
  "digits_nat s = foldl (\<lambda>a c. 10 * a + (of_char c - 48)) 0 s"

definition strip_marked_peer_prefix :: "int \<Rightarrow> int" where
  "strip_marked_peer_prefix n =
     (let a = \<bar>n\<bar>; s = int_str a
      in if take 3 s = ''100'' \<and> length s > 3 then int (digits_nat (drop 3 s)) else a)"

definition dedup_first :: "'a list \<Rightarrow> 'a list" where
  "dedup_first xs = rev (remdups (rev xs))"

definition candidate_match_forms :: "int \<Rightarrow> string option \<Rightarrow> string list" where
  "candidate_match_forms chat_id username = dedup_first
     ([int_str chat_id, int_str (strip_marked_peer_prefix chat_id)]
      @ (case username of None \<Rightarrow> [] | Some u \<Rightarrow>
           if u = [] then [] else [''@'' @ py_lower u, py_lower u]))"

section \<open>Audit emission\<close>

text \<open>
  \<open>AuditEmitter.emit\<close> (\<open>telemetry/audit.py\<close>): publish on the bus, then append to the log; either
  failure is raised. \<open>bus_ok\<close> tells whether the publish succeeds.
\<close>

definition disc_audit :: "disc_store \<Rightarrow> audit_store" where
  "disc_audit D = rc_audit (cs_evidence (ds_cases D))"

definition put_audit :: "audit_store \<Rightarrow> disc_store \<Rightarrow> disc_store" where
  "put_audit A D = D\<lparr>ds_cases := (ds_cases D)\<lparr>cs_evidence := (cs_evidence (ds_cases D))\<lparr>rc_audit := A\<rparr>\<rparr>\<rparr>"

record emit_env =
  em_env :: audit_env
  em_bus_ok :: bool
  em_ctx :: audit_ctx

definition emit_as ::
  "emit_env \<Rightarrow> uuid option \<Rightarrow> uuid \<Rightarrow> string \<Rightarrow> string \<Rightarrow> uuid \<Rightarrow> (string \<times> jval) list \<Rightarrow> time \<Rightarrow> disc_store
   \<Rightarrow> (unit, disc_store) outcome" where
  "emit_as M user audit_id event kind subject payload now D =
     (if \<not> em_bus_ok M then (Inl (RuntimeError ''audit publish failed''), D)
      else (case append_audit (em_env M)
               (build_audit_row audit_id event user kind (Some subject) payload now (em_ctx M)) (disc_audit D) of
              (Inl e, A) \<Rightarrow> (Inl e, put_audit A D)
            | (Inr _, A) \<Rightarrow> (Inr (), put_audit A D)))"

abbreviation emit ::
  "emit_env \<Rightarrow> uuid \<Rightarrow> string \<Rightarrow> string \<Rightarrow> uuid \<Rightarrow> (string \<times> jval) list \<Rightarrow> time \<Rightarrow> disc_store
   \<Rightarrow> (unit, disc_store) outcome" where
  "emit M \<equiv> emit_as M None"

text \<open>Sequencing: an error of \<open>r\<close> is raised, else \<open>k\<close> runs on its value.\<close>

definition and_then :: "('a, 's) outcome \<Rightarrow> ('a \<Rightarrow> 's \<Rightarrow> ('b, 's) outcome) \<Rightarrow> ('b, 's) outcome" where
  "and_then r k = (case r of (Inl e, S) \<Rightarrow> (Inl e, S) | (Inr v, S) \<Rightarrow> k v S)"

section \<open>Graduation of scouts\<close>

fun graduate_loop :: "emit_env \<Rightarrow> time \<Rightarrow> (uuid \<times> uuid) list \<Rightarrow> disc_store \<Rightarrow> (unit, disc_store) outcome" where
  "graduate_loop M now [] D = (Inr (), D)"
| "graduate_loop M now ((i, audit_id) # rest) D =
     and_then (graduate_identity i now D) (\<lambda>_ D1.
     and_then (emit M audit_id ''eyenet.audit.identity.graduated'' ''identity'' i
          [(''graduated_at'', JTime now), (''from_role'', JStr ''scout'')] now D1) (\<lambda>_ D2.
       graduate_loop M now rest D2))"

text \<open>\<open>audit_ids\<close>: a fresh id for each row to come.\<close>

definition graduate_due :: "emit_env \<Rightarrow> (nat \<Rightarrow> uuid) \<Rightarrow> int \<Rightarrow> time \<Rightarrow> disc_store \<Rightarrow> (nat, disc_store) outcome" where
  "graduate_due M audit_ids window_days now D =
     (let ids = list_graduating_scouts (now - days window_days) D
      in and_then (graduate_loop M now (zip ids (map audit_ids [0..<length ids])) D) (\<lambda>_ D1. (Inr (length ids), D1)))"

section \<open>The join handler\<close>

record join_command =
  jc_candidate :: uuid
  jc_gid :: string
  jc_scout :: uuid
  jc_artifact :: "uuid option"

record fresh_ids =
  fi_group :: uuid
  fi_membership :: uuid
  fi_audit :: uuid

definition open_joined_membership ::
  "emit_env \<Rightarrow> fresh_ids \<Rightarrow> uuid \<Rightarrow> candidate_state \<Rightarrow> uuid \<Rightarrow> uuid \<Rightarrow> string \<Rightarrow> group_kind \<Rightarrow> string option
   \<Rightarrow> uuid option \<Rightarrow> time \<Rightarrow> disc_store \<Rightarrow> (uuid option, disc_store) outcome" where
  "open_joined_membership M F i from_state source collector gid kind title scout now D =
     and_then (upsert_group (fi_group F) source gid kind title now D) (\<lambda>group_id D1.
     and_then (claim_candidate_transition i from_state JOINED (Some group_id) None D1) (\<lambda>won D2.
       if \<not> won then (Inr None, D2)
       else
         (case open_membership (fi_membership F) collector group_id now Via_CANDIDATE (Some i) D2 of
            (Inl e, D3) \<Rightarrow>
              (case claim_candidate_transition i JOINED from_state None None D3 of
                 (Inl e', D4) \<Rightarrow> (Inl e', D4) | (Inr _, D4) \<Rightarrow> (Inl e, D4))
          | (Inr _, D3) \<Rightarrow>
              and_then (emit M (fi_audit F) ''eyenet.audit.candidate.joined'' ''candidate'' i
                   [(''group_id'', JUuid group_id), (''scout_identity_id'', jopt JUuid scout)] now D3)
                (\<lambda>_ D4. (Inr (Some group_id), D4)))))"

definition finalize_joined ::
  "emit_env \<Rightarrow> fresh_ids \<Rightarrow> join_command \<Rightarrow> uuid \<Rightarrow> uuid \<Rightarrow> group_kind \<Rightarrow> string option \<Rightarrow> time \<Rightarrow> disc_store
   \<Rightarrow> (uuid option, disc_store) outcome" where
  "finalize_joined M F cmd source collector kind title now D =
     open_joined_membership M F (jc_candidate cmd) JOINING source collector (jc_gid cmd) kind title
       (Some (jc_scout cmd)) now D"

definition confirm_requested_membership ::
  "emit_env \<Rightarrow> fresh_ids \<Rightarrow> uuid \<Rightarrow> group_kind option \<Rightarrow> string option \<Rightarrow> uuid option \<Rightarrow> string option \<Rightarrow> time
   \<Rightarrow> disc_store \<Rightarrow> (bool, disc_store) outcome" where
  "confirm_requested_membership M F i kind title scout resolved now D =
     (case get_candidate i D of
        None \<Rightarrow> (Inr False, D)
      | Some c \<Rightarrow>
          if gc_state c \<noteq> REQUESTED then (Inr False, D)
          else (case gc_collector_id c of
             None \<Rightarrow> (Inl (RuntimeError ''REQUESTED but has no assigned_collector_id''), D)
           | Some k \<Rightarrow>
               and_then (open_joined_membership M F i REQUESTED (gc_source_id c) k
                   (case resolved of None \<Rightarrow> gc_platform_groupid c | Some g \<Rightarrow> g)
                   (case kind of Some x \<Rightarrow> x | None \<Rightarrow> (case gc_kind_hint c of Some x \<Rightarrow> x | None \<Rightarrow> Grp_CHANNEL))
                   (case title of Some t \<Rightarrow> Some t | None \<Rightarrow> gc_display_name c) scout now D)
                 (\<lambda>g D1. (Inr (g \<noteq> None), D1))))"

definition fail_candidate ::
  "emit_env \<Rightarrow> uuid \<Rightarrow> join_command \<Rightarrow> string \<Rightarrow> time \<Rightarrow> disc_store \<Rightarrow> (unit, disc_store) outcome" where
  "fail_candidate M audit_id cmd reason now D =
     and_then (transition_candidate (jc_candidate cmd) FAILED (no_args\<lparr>ta_reason := Some reason\<rparr>) D)
       (\<lambda>_ D1. emit M audit_id ''eyenet.audit.candidate.failed'' ''candidate'' (jc_candidate cmd)
          [(''reason'', JStr reason)] now D1)"

definition mark_join_requested ::
  "emit_env \<Rightarrow> uuid \<Rightarrow> join_command \<Rightarrow> string \<Rightarrow> time \<Rightarrow> disc_store \<Rightarrow> (unit, disc_store) outcome" where
  "mark_join_requested M audit_id cmd reason now D =
     and_then (transition_candidate (jc_candidate cmd) REQUESTED (no_args\<lparr>ta_reason := Some reason\<rparr>) D)
       (\<lambda>_ D1. emit M audit_id ''eyenet.audit.candidate.join_requested'' ''candidate'' (jc_candidate cmd)
          [(''reason'', JStr reason), (''scout_identity_id'', JUuid (jc_scout cmd))] now D1)"

definition record_artifact_validation :: "uuid \<Rightarrow> string \<Rightarrow> time \<Rightarrow> disc_store \<Rightarrow> disc_store" where
  "record_artifact_validation artifact exc_name now D =
     (case artifact_state_for_error exc_name of None \<Rightarrow> D
      | Some v \<Rightarrow> snd (set_artifact_validation_state artifact v now D))"

definition quarantine_scout ::
  "emit_env \<Rightarrow> uuid \<Rightarrow> uuid \<Rightarrow> string \<Rightarrow> uuid option \<Rightarrow> time \<Rightarrow> disc_store \<Rightarrow> (unit, disc_store) outcome" where
  "quarantine_scout M audit_id identity reason cand now D =
     and_then (burn_identity identity D) (\<lambda>_ D1.
     and_then (case cand of
          None \<Rightarrow> (Inr (), D1)
        | Some i \<Rightarrow> (case get_candidate i D1 of
             None \<Rightarrow> (Inr (), D1)
           | Some c \<Rightarrow> if gc_state c = JOINED
                then and_then (transition_candidate i PARKED (no_args\<lparr>ta_reason := Some reason\<rparr>) D1) (\<lambda>_ D2. (Inr (), D2))
                else (Inr (), D1)))
       (\<lambda>_ D2. emit M audit_id ''eyenet.audit.identity.burned'' ''identity'' identity
          [(''reason'', JStr reason), (''candidate_id'', jopt JUuid cand)] now D2))"

text \<open>\<open>identity_name\<close>: the name the handler was built with; only \<open>KeyError\<close> is caught.\<close>

definition quarantine_on_ban ::
  "emit_env \<Rightarrow> uuid \<Rightarrow> uuid \<Rightarrow> string \<Rightarrow> join_command \<Rightarrow> string \<Rightarrow> time \<Rightarrow> disc_store \<Rightarrow> (unit, disc_store) outcome" where
  "quarantine_on_ban M audit1 audit2 identity_name cmd reason now D =
     and_then (fail_candidate M audit1 cmd reason now D) (\<lambda>_ D1.
     and_then (quarantine_scout M audit2 (jc_scout cmd) reason (Some (jc_candidate cmd)) now D1) (\<lambda>_ D2.
       (case release identity_name Idn_BURNED now D2 of
          (Inl (KeyError m), D3) \<Rightarrow> (Inr (), D3)
        | r \<Rightarrow> r)))"

end
