(* ===== verification/Supervisor.thy ===== *)
theory Supervisor
  imports Join_Flow
begin

text \<open>
  \<open>services/collector_supervisor.py\<close>: one tick drives every collector toward its desired state
  and dispatches approved candidates and backfills. The child processes are the map
  \<open>su_procs\<close> (\<open>None\<close> while the child runs, its exit code afterwards), the monotonic clock a
  rational number of seconds, and the bus the list of the commands published.
\<close>

section \<open>State\<close>

datatype bus_command =
    Bus_Join string join_command
  | Bus_Backfill string
  | Bus_Leave string uuid string

record sup_store =
  su_procs :: "uuid \<Rightarrow> int option option"
  su_cooling :: "uuid \<Rightarrow> rat option"
  su_bus :: "bus_command list"
  su_disc :: disc_store

text \<open>
  What a tick meets outside: audit and bus, SHA-256 for the channel names, the two clocks, the
  operating system's answer to a spawn, and fresh audit ids per subject.
\<close>

record sup_env =
  se_emit :: emit_env
  se_sha_hex :: "bytes \<Rightarrow> string"
  se_mono :: rat
  se_wall :: time
  se_spawn_ok :: "uuid \<Rightarrow> bool"
  se_audit_id :: "uuid \<Rightarrow> uuid"

definition collector_alive :: "uuid \<Rightarrow> sup_store \<Rightarrow> bool" where
  "collector_alive k S \<longleftrightarrow> su_procs S k = Some None"

text \<open>A storage or audit step of the supervisor.\<close>

definition on_disc :: "('a, disc_store) outcome \<Rightarrow> sup_store \<Rightarrow> ('a, sup_store) outcome" where
  "on_disc r S = (case r of (x, D) \<Rightarrow> (x, S\<lparr>su_disc := D\<rparr>))"

section \<open>Reconciling collectors\<close>

definition set_observed ::
  "sup_env \<Rightarrow> collector_row \<Rightarrow> collector_observed_state \<Rightarrow> int option \<Rightarrow> string option \<Rightarrow> string option
   \<Rightarrow> time option \<Rightarrow> disc_store \<Rightarrow> (unit, disc_store) outcome" where
  "set_observed V c new_state restarts etype emsg beat D =
     (if cr_observed c = new_state \<and> (restarts = None \<or> restarts = Some (cr_restart_count c)) then (Inr (), D)
      else and_then (record_collector_observed_state (cr_id c) new_state beat etype emsg restarts D) (\<lambda>_ D1.
        emit (se_emit V) (se_audit_id V (cr_id c)) ''eyenet.audit.collector.reconciled'' ''collector'' (cr_id c)
          [(''from'', JStr (collector_observed_state_value (cr_observed c))),
           (''to'', JStr (collector_observed_state_value new_state)),
           (''desired'', JStr (collector_desired_state_value (cr_desired c)))] (se_wall V) D1))"

definition heartbeat :: "sup_env \<Rightarrow> collector_row \<Rightarrow> disc_store \<Rightarrow> (unit, disc_store) outcome" where
  "heartbeat V c D =
     (if cr_observed c \<noteq> Obs_RUNNING then set_observed V c Obs_RUNNING None None None (Some (se_wall V)) D
      else and_then (record_collector_observed_state (cr_id c) Obs_RUNNING (Some (se_wall V)) None None None D)
             (\<lambda>_ D1. (Inr (), D1)))"

text \<open>\<open>_spawn\<close>: \<open>True\<close> when a child was started.\<close>

definition spawn :: "sup_env \<Rightarrow> collector_row \<Rightarrow> disc_store \<Rightarrow> (bool, disc_store) outcome" where
  "spawn V c D =
     (case get_identity (cr_identity_id c) D of
        None \<Rightarrow> (Inr False, D)
      | Some r \<Rightarrow>
          and_then (if id_state r = Idn_IN_USE then set_identity_state (id_id r) Idn_AVAILABLE None D else (Inr r, D))
            (\<lambda>_ D1. (Inr (se_spawn_ok V (cr_id c)), D1)))"

text \<open>\<open>min(2.0 ** rc, 600.0)\<close>: the power of two is exact below \<open>2 ^ 1024\<close> and raises from there on.\<close>

definition cooling_seconds :: "int \<Rightarrow> exn + rat" where
  "cooling_seconds rc = (if rc \<ge> 1024 then Inl OverflowError else Inr (min (2 ^ nat rc) 600))"

definition crash ::
  "sup_env \<Rightarrow> collector_row \<Rightarrow> string \<Rightarrow> string \<Rightarrow> sup_store \<Rightarrow> (unit, sup_store) outcome" where
  "crash V c etype emsg S =
     (case cooling_seconds (cr_restart_count c + 1) of
        Inl e \<Rightarrow> (Inl e, S)
      | Inr w \<Rightarrow>
          let S1 = S\<lparr>su_cooling := (su_cooling S)(cr_id c := Some (se_mono V + w))\<rparr>
          in on_disc (set_observed V c Obs_CRASHED (Some (cr_restart_count c + 1)) (Some etype) (Some emsg) None (su_disc S1)) S1)"

text \<open>Launch a child, or record the failed spawn as a crash.\<close>

definition start_collector :: "sup_env \<Rightarrow> collector_row \<Rightarrow> sup_store \<Rightarrow> (unit, sup_store) outcome" where
  "start_collector V c S =
     (case spawn V c (su_disc S) of
        (Inl e, D) \<Rightarrow> (Inl e, S\<lparr>su_disc := D\<rparr>)
      | (Inr True, D) \<Rightarrow>
          on_disc (set_observed V c Obs_RUNNING None None None (Some (se_wall V)) D)
            (S\<lparr>su_disc := D, su_procs := (su_procs S)(cr_id c := Some None)\<rparr>)
      | (Inr False, D) \<Rightarrow>
          crash V c ''spawn_failed'' ''spawn failed: missing identity or OS refused the process'' (S\<lparr>su_disc := D\<rparr>))"

text \<open>One iteration of \<open>reconcile_collectors\<close> on the row \<open>c\<close> of the listing.\<close>

definition reconcile_one :: "sup_env \<Rightarrow> collector_row \<Rightarrow> sup_store \<Rightarrow> (unit, sup_store) outcome" where
  "reconcile_one V c S =
     (let k = cr_id c;
          exited = (case su_procs S k of Some (Some _) \<Rightarrow> True | _ \<Rightarrow> False);
          S1 = (if exited then S\<lparr>su_procs := (su_procs S)(k := None)\<rparr> else S)
      in if exited \<and> cr_desired c = Want_RUNNING
         then crash V c ''process_exit'' ''collector process exited'' S1
         else if cr_desired c = Want_STOPPED \<or> cr_desired c = Want_DISABLED
         then on_disc (set_observed V c Obs_STOPPED None None None None (su_disc S1))
                (S1\<lparr>su_procs := (su_procs S1)(k := None), su_cooling := (su_cooling S1)(k := None)\<rparr>)
         else if su_procs S k = Some None then on_disc (heartbeat V c (su_disc S1)) S1
         else if (case su_cooling S1 k of None \<Rightarrow> False | Some t \<Rightarrow> se_mono V < t)
         then on_disc (set_observed V c Obs_COOLING None None None None (su_disc S1)) S1
         else start_collector V c (S1\<lparr>su_cooling := (su_cooling S1)(k := None)\<rparr>))"

fun reconcile_loop :: "sup_env \<Rightarrow> collector_row list \<Rightarrow> sup_store \<Rightarrow> (unit, sup_store) outcome" where
  "reconcile_loop V [] S = (Inr (), S)"
| "reconcile_loop V (c # cs) S = and_then (reconcile_one V c S) (\<lambda>_ S1. reconcile_loop V cs S1)"

definition reconcile_collectors :: "sup_env \<Rightarrow> sup_store \<Rightarrow> (unit, sup_store) outcome" where
  "reconcile_collectors V S = reconcile_loop V (list_collectors (su_disc S)) S"

section \<open>Dispatching joins\<close>

definition KIND_PREFERENCE :: "group_access_kind list" where
  "KIND_PREFERENCE = [Acc_PUBLIC_IDENTIFIER, Acc_INVITE_LINK]"

primrec index_of :: "'a \<Rightarrow> 'a list \<Rightarrow> nat" where
  "index_of x [] = 0"
| "index_of x (y # ys) = (if x = y then 0 else Suc (index_of x ys))"

definition usable_artifact :: "access_row \<Rightarrow> bool" where
  "usable_artifact a \<longleftrightarrow> (ac_validation a = Val_VALID \<or> ac_validation a = Val_UNVERIFIED)
     \<and> \<not> ac_needs_approval a \<and> ac_kind a \<in> set KIND_PREFERENCE"

definition select_access_artifact :: "access_row list \<Rightarrow> access_row option" where
  "select_access_artifact as = min_on (\<lambda>a. (index_of (ac_kind a) KIND_PREFERENCE, ac_id a)) (filter usable_artifact as)"

definition command_subject_for :: "string \<Rightarrow> string" where
  "command_subject_for instance_id = ''eyenet.control.collector.'' @ instance_id @ ''.command''"

definition publish :: "sup_env \<Rightarrow> bus_command \<Rightarrow> sup_store \<Rightarrow> (unit, sup_store) outcome" where
  "publish V m S = (if em_bus_ok (se_emit V) then (Inr (), S\<lparr>su_bus := su_bus S @ [m]\<rparr>)
     else (Inl (RuntimeError ''publish failed''), S))"

definition publish_join_command :: "sup_env \<Rightarrow> identity_row \<Rightarrow> join_command \<Rightarrow> sup_store \<Rightarrow> (unit, sup_store) outcome" where
  "publish_join_command V scout cmd S =
     (case tbl_get so_id (id_source_id scout) (ds_sources (su_disc S)) of
        None \<Rightarrow> (Inr (), S)
      | Some src \<Rightarrow> publish V (Bus_Join (command_subject_for
            (compute_instance_id (se_sha_hex V) (id_name scout) (so_kind src))) cmd) S)"

definition join_command_for :: "candidate_row \<Rightarrow> identity_row \<Rightarrow> disc_store \<Rightarrow> join_command" where
  "join_command_for c ident D = \<lparr>jc_candidate = gc_id c, jc_gid = gc_platform_groupid c, jc_scout = id_id ident,
     jc_artifact = map_option ac_id (select_access_artifact (list_group_access_artifacts_for_candidate (gc_id c) D))\<rparr>"

text \<open>\<open>APPROVED \<rightarrow> JOINING\<close> and its audit row.\<close>

definition mark_joining :: "sup_env \<Rightarrow> candidate_row \<Rightarrow> (string \<times> jval) list \<Rightarrow> disc_store \<Rightarrow> (unit, disc_store) outcome" where
  "mark_joining V c payload D =
     and_then (transition_candidate (gc_id c) JOINING no_args D) (\<lambda>_ D1.
       emit (se_emit V) (se_audit_id V (gc_id c)) ''eyenet.audit.candidate.joining'' ''candidate'' (gc_id c)
         payload (se_wall V) D1)"

definition command_json :: "join_command \<Rightarrow> jval" where
  "command_json j = JObj [(''kind'', JStr ''join_group''), (''candidate_id'', JUuid (jc_candidate j)),
     (''platform_groupid'', JStr (jc_gid j)), (''scout_identity_id'', JUuid (jc_scout j)),
     (''access_artifact_id'', jopt JUuid (jc_artifact j))]"

definition dispatch_operator_join :: "sup_env \<Rightarrow> candidate_row \<Rightarrow> uuid \<Rightarrow> sup_store \<Rightarrow> (unit, sup_store) outcome" where
  "dispatch_operator_join V c k S =
     (case get_collector k (su_disc S) of
        None \<Rightarrow> (Inr (), S)
      | Some collector \<Rightarrow>
          (case get_identity (cr_identity_id collector) (su_disc S) of
             None \<Rightarrow> (Inr (), S)
           | Some ident \<Rightarrow>
               let cmd = join_command_for c ident (su_disc S)
               in and_then (if gc_state c = APPROVED
                     then on_disc (mark_joining V c [(''command'', command_json cmd),
                            (''assigned_collector_id'', JUuid k), (''operator_initiated'', JBool True)] (su_disc S)) S
                     else (Inr (), S))
                    (\<lambda>_ S1. publish_join_command V ident cmd S1)))"

definition dispatch_candidate :: "sup_env \<Rightarrow> candidate_state \<Rightarrow> candidate_row \<Rightarrow> sup_store \<Rightarrow> (unit, sup_store) outcome" where
  "dispatch_candidate V st c S =
     (case gc_collector_id c of
        None \<Rightarrow> (Inr (), S)
      | Some k \<Rightarrow>
          (case compute_eligibility_inputs (gc_id c) (su_disc S) of
             Inl e \<Rightarrow> (Inl e, S)
           | Inr inputs \<Rightarrow>
               if ei_mentions inputs = []
               then if collector_alive k S then dispatch_operator_join V c k S else (Inr (), S)
               else if st \<noteq> APPROVED then (Inr (), S)
               else
                 (case collector_eligibility (gc_id c) k (su_disc S) of
                    Inl e \<Rightarrow> (Inl e, S)
                  | Inr v \<Rightarrow>
                      if v \<noteq> El_OK then (Inr (), S)
                      else
                        (case lease_scout (gc_source_id c) (su_disc S) of
                           (None, D) \<Rightarrow> (Inr (), S\<lparr>su_disc := D\<rparr>)
                         | (Some scout, D) \<Rightarrow>
                             let cmd = join_command_for c scout D
                             in and_then (on_disc (mark_joining V c [(''command'', command_json cmd),
                                  (''assigned_collector_id'', JUuid k), (''scout_identity_id'', JUuid (id_id scout))] D)
                                  (S\<lparr>su_disc := D\<rparr>))
                                (\<lambda>_ S1. publish_join_command V scout cmd S1)))))"

fun dispatch_loop :: "sup_env \<Rightarrow> candidate_state \<Rightarrow> candidate_row list \<Rightarrow> sup_store \<Rightarrow> (unit, sup_store) outcome" where
  "dispatch_loop V st [] S = (Inr (), S)"
| "dispatch_loop V st (c # cs) S = and_then (dispatch_candidate V st c S) (\<lambda>_ S1. dispatch_loop V st cs S1)"

definition state_query :: "candidate_state \<Rightarrow> candidate_query" where
  "state_query st = \<lparr>kq_state = Some st, kq_source = None, kq_min_score = None, kq_states = None, kq_dialog = None, kq_q = None\<rparr>"

definition dispatch_approved :: "sup_env \<Rightarrow> sup_store \<Rightarrow> (unit, sup_store) outcome" where
  "dispatch_approved V S =
     (let approved = list_candidates (state_query APPROVED) 1000 0 (su_disc S);
          joining = list_candidates (state_query JOINING) 1000 0 (su_disc S)
      in and_then (dispatch_loop V APPROVED approved S) (\<lambda>_ S1. dispatch_loop V JOINING joining S1))"

section \<open>Dispatching backfills\<close>

primrec jtruthy :: "jval \<Rightarrow> bool" where
  "jtruthy JNull = False"
| "jtruthy (JBool b) = b"
| "jtruthy (JInt n) = (n \<noteq> 0)"
| "jtruthy (JStr s) = (s \<noteq> [])"
| "jtruthy (JUuid u) = True"
| "jtruthy (JTime t) = True"
| "jtruthy (JList xs) = (xs \<noteq> [])"
| "jtruthy (JObj kvs) = (kvs \<noteq> [])"

definition backfill_pending :: "collector_row \<Rightarrow> bool" where
  "backfill_pending c \<longleftrightarrow> (case map_of (cr_config c) ''_backfill_pending'' of None \<Rightarrow> False | Some j \<Rightarrow> jtruthy j)"

definition backfill_one :: "sup_env \<Rightarrow> collector_row \<Rightarrow> sup_store \<Rightarrow> (unit, sup_store) outcome" where
  "backfill_one V c S =
     (if \<not> backfill_pending c \<or> \<not> collector_alive (cr_id c) S then (Inr (), S)
      else (case get_identity (cr_identity_id c) (su_disc S) of
              None \<Rightarrow> (Inr (), S)
            | Some r \<Rightarrow>
                and_then (publish V (Bus_Backfill (command_subject_for
                    (compute_instance_id (se_sha_hex V) (id_name r) (cr_kind c)))) S) (\<lambda>_ S1.
                and_then (on_disc (update_collector (cr_id c)
                    (Some (filter (\<lambda>kv. fst kv \<noteq> ''_backfill_pending'') (cr_config c))) None None (su_disc S1)) S1)
                  (\<lambda>_ S2. (Inr (), S2)))))"

fun backfill_loop :: "sup_env \<Rightarrow> collector_row list \<Rightarrow> sup_store \<Rightarrow> (unit, sup_store) outcome" where
  "backfill_loop V [] S = (Inr (), S)"
| "backfill_loop V (c # cs) S = and_then (backfill_one V c S) (\<lambda>_ S1. backfill_loop V cs S1)"

definition dispatch_backfills :: "sup_env \<Rightarrow> sup_store \<Rightarrow> (unit, sup_store) outcome" where
  "dispatch_backfills V S = backfill_loop V (list_collectors (su_disc S)) S"

definition tick :: "sup_env \<Rightarrow> sup_store \<Rightarrow> (unit, sup_store) outcome" where
  "tick V S = and_then (reconcile_collectors V S) (\<lambda>_ S1.
     and_then (dispatch_approved V S1) (\<lambda>_ S2. dispatch_backfills V S2))"

end
