(* ===== verification/Operator_Actions.thy ===== *)
theory Operator_Actions
  imports Supervisor
begin

text \<open>
  What operators and collectors do to candidates: the review handlers
  (\<open>api/v1/candidates/\<close>), joining and leaving a group at will (\<open>api/v1/groups/\<close>), the scan of
  visible groups (\<open>collectors/base/skeleton.py\<close>) and the recording half of the channel reference
  extractor (\<open>sensor/discovery/channel_reference_extraction.py\<close>; the regular expressions and the
  SQL parser that find the references are a parameter: the list of references). Responses are the
  candidate row; scopes are checked by the routes and are arguments of no definition here.
\<close>

section \<open>Reviewing candidates\<close>

text \<open>Who acts, when, and the fresh ids of the request.\<close>

record op_env =
  oe_emit :: emit_env
  oe_user :: uuid
  oe_now :: time
  oe_audit_id :: uuid
  oe_new_id :: uuid
  oe_new_id2 :: uuid

text \<open>\<open>str(UUID)\<close>: 32 lower-case hexadecimal digits in groups of 8, 4, 4, 4 and 12.\<close>

primrec hex_digits :: "nat \<Rightarrow> nat \<Rightarrow> string" where
  "hex_digits 0 n = []"
| "hex_digits (Suc k) n = hex_digits k (n div 16) @ [hex_digit (n mod 16)]"

definition uuid_str :: "uuid \<Rightarrow> string" where
  "uuid_str u = (let h = hex_digits 32 u in
     take 8 h @ ''-'' @ take 4 (drop 8 h) @ ''-'' @ take 4 (drop 12 h) @ ''-'' @ take 4 (drop 16 h) @ ''-'' @ drop 20 h)"

definition operator_tag :: "op_env \<Rightarrow> string" where
  "operator_tag V = ''operator:'' @ uuid_str (oe_user V)"

text \<open>\<open>except ValueError as exc: raise ConflictError\<close>.\<close>

definition as_conflict :: "('a, 's) outcome \<Rightarrow> ('a, 's) outcome" where
  "as_conflict r = (case r of (Inl (ValueError m), S) \<Rightarrow> (Inl (ConflictError m), S) | _ \<Rightarrow> r)"

text \<open>The shared tail of the four review handlers: transition, then audit.\<close>

definition review_candidate ::
  "op_env \<Rightarrow> uuid \<Rightarrow> candidate_state \<Rightarrow> transition_args \<Rightarrow> string \<Rightarrow> (string \<times> jval) list \<Rightarrow> disc_store
   \<Rightarrow> (unit, disc_store) outcome" where
  "review_candidate V i to_state a event payload D =
     and_then (as_conflict (transition_candidate i to_state
         (a\<lparr>ta_reviewed_by := Some (operator_tag V), ta_reviewed_at := Some (oe_now V)\<rparr>) D)) (\<lambda>_ D1.
       emit_as (oe_emit V) (Some (oe_user V)) (oe_audit_id V) event ''candidate'' i payload (oe_now V) D1)"

definition candidates_approve :: "op_env \<Rightarrow> uuid \<Rightarrow> uuid \<Rightarrow> disc_store \<Rightarrow> (unit, disc_store) outcome" where
  "candidates_approve V i collector D =
     (if get_candidate i D = None then (Inl (ResourceNotFound ''candidate''), D)
      else if get_collector collector D = None then (Inl (UnprocessableError ''collector not found''), D)
      else review_candidate V i APPROVED (no_args\<lparr>ta_collector := Some collector\<rparr>) ''eyenet.audit.candidate.approved''
             [(''assigned_collector_id'', JUuid collector)] D)"

definition candidates_reject :: "op_env \<Rightarrow> uuid \<Rightarrow> string \<Rightarrow> disc_store \<Rightarrow> (unit, disc_store) outcome" where
  "candidates_reject V i reason D =
     (if get_candidate i D = None then (Inl (ResourceNotFound ''candidate''), D)
      else review_candidate V i REJECTED (no_args\<lparr>ta_reason := Some reason\<rparr>) ''eyenet.audit.candidate.rejected''
             [(''reason'', JStr reason)] D)"

definition candidates_park :: "op_env \<Rightarrow> uuid \<Rightarrow> string \<Rightarrow> disc_store \<Rightarrow> (unit, disc_store) outcome" where
  "candidates_park V i reason D =
     (if get_candidate i D = None then (Inl (ResourceNotFound ''candidate''), D)
      else review_candidate V i PARKED no_args ''eyenet.audit.candidate.parked'' [(''reason'', JStr reason)] D)"

definition candidates_retry :: "op_env \<Rightarrow> uuid \<Rightarrow> disc_store \<Rightarrow> (unit, disc_store) outcome" where
  "candidates_retry V i D =
     (if get_candidate i D = None then (Inl (ResourceNotFound ''candidate''), D)
      else review_candidate V i QUEUED no_args ''eyenet.audit.candidate.retry'' [] D)"

section \<open>Joining at will\<close>

text \<open>\<open>JoinGroupRequest\<close>; its validator asks for a candidate or for a source and a platform id.\<close>

record join_request =
  jr_collector :: uuid
  jr_candidate :: "uuid option"
  jr_source :: "uuid option"
  jr_gid :: "string option"
  jr_kind :: "group_kind option"

definition resolve_target :: "op_env \<Rightarrow> join_request \<Rightarrow> disc_store \<Rightarrow> (candidate_row, disc_store) outcome" where
  "resolve_target V b D =
     (case jr_candidate b of
        Some i \<Rightarrow> (case get_candidate i D of None \<Rightarrow> (Inl (ResourceNotFound ''group''), D) | Some c \<Rightarrow> (Inr c, D))
      | None \<Rightarrow>
          (case (jr_source b, jr_gid b) of
             (Some s, Some g) \<Rightarrow> ensure_candidate (oe_new_id V) s g (oe_now V) (jr_kind b) None False D
           | _ \<Rightarrow> (Inl (ResourceNotFound ''group''), D)))"

definition JOINABLE_FROM :: "candidate_state set" where
  "JOINABLE_FROM = {DISCOVERED, QUEUED, PARKED}"

definition FORUM_WALK :: "candidate_state list" where
  "FORUM_WALK = [QUEUED, APPROVED, JOINING, JOINED]"

definition FORUM_WALK_FROM :: "candidate_state \<Rightarrow> nat option" where
  "FORUM_WALK_FROM q = map_of [(DISCOVERED, 0), (QUEUED, 1), (APPROVED, 2), (JOINING, 3)] q"

definition walk_args :: "op_env \<Rightarrow> uuid \<Rightarrow> uuid \<Rightarrow> candidate_state \<Rightarrow> transition_args" where
  "walk_args V collector grp q =
     (if q = APPROVED then no_args\<lparr>ta_reviewed_by := Some (operator_tag V), ta_reviewed_at := Some (oe_now V),
                                   ta_collector := Some collector\<rparr>
      else if q = JOINED then no_args\<lparr>ta_group := Some grp\<rparr> else no_args)"

fun forum_walk :: "op_env \<Rightarrow> uuid \<Rightarrow> uuid \<Rightarrow> uuid \<Rightarrow> candidate_state list \<Rightarrow> disc_store \<Rightarrow> (unit, disc_store) outcome" where
  "forum_walk V i collector grp [] D = (Inr (), D)"
| "forum_walk V i collector grp (q # qs) D =
     and_then (transition_candidate i q (walk_args V collector grp q) D)
       (\<lambda>_ D1. forum_walk V i collector grp qs D1)"

definition monitor_forum_category ::
  "op_env \<Rightarrow> candidate_row \<Rightarrow> uuid \<Rightarrow> disc_store \<Rightarrow> (unit, disc_store) outcome" where
  "monitor_forum_category V c collector D =
     and_then (upsert_group (oe_new_id2 V) (gc_source_id c) (gc_platform_groupid c) Grp_FORUM_CATEGORY
         (gc_display_name c) (oe_now V) D) (\<lambda>grp D1.
     and_then (if gc_state c = JOINED then (Inr (), D1)
         else (case FORUM_WALK_FROM (gc_state c) of
                 None \<Rightarrow> (Inl (ConflictError ''cannot monitor from here''), D1)
               | Some start \<Rightarrow> forum_walk V (gc_id c) collector grp (drop start FORUM_WALK) D1)) (\<lambda>_ D2.
     and_then (if list_active_memberships (Some collector) (Some grp) D2 = []
         then and_then (open_membership (oe_new_id V) collector grp (oe_now V) Via_CANDIDATE (Some (gc_id c)) D2)
                (\<lambda>_ D3. (Inr (), D3))
         else (Inr (), D2)) (\<lambda>_ D3.
       emit_as (oe_emit V) (Some (oe_user V)) (oe_audit_id V) ''eyenet.audit.group.category_monitored'' ''candidate''
         (gc_id c) [(''collector_id'', JUuid collector), (''platform_groupid'', JStr (gc_platform_groupid c))]
         (oe_now V) D3)))"

definition groups_join :: "op_env \<Rightarrow> join_request \<Rightarrow> disc_store \<Rightarrow> (unit, disc_store) outcome" where
  "groups_join V b D =
     (if get_collector (jr_collector b) D = None then (Inl (UnprocessableError ''collector not found''), D)
      else and_then (resolve_target V b D) (\<lambda>c D1.
        if set_opt (gc_kind_hint c) (jr_kind b) = Some Grp_FORUM_CATEGORY
        then monitor_forum_category V c (jr_collector b) D1
        else if gc_state c \<notin> JOINABLE_FROM then (Inl (ConflictError ''cannot start a join from here''), D1)
        else
          and_then (if gc_state c = DISCOVERED
              then and_then (transition_candidate (gc_id c) QUEUED no_args D1) (\<lambda>_ D2. (Inr (), D2))
              else (Inr (), D1)) (\<lambda>_ D2.
          and_then (as_conflict (transition_candidate (gc_id c) APPROVED
              (no_args\<lparr>ta_reviewed_by := Some (operator_tag V), ta_reviewed_at := Some (oe_now V),
                       ta_collector := Some (jr_collector b)\<rparr>) D2)) (\<lambda>_ D3.
            emit_as (oe_emit V) (Some (oe_user V)) (oe_audit_id V) ''eyenet.audit.group.join_requested'' ''candidate''
              (gc_id c) [(''collector_id'', JUuid (jr_collector b)),
                         (''platform_groupid'', JStr (gc_platform_groupid c))] (oe_now V) D3))))"

section \<open>Leaving\<close>

text \<open>
  The loop of \<open>groups_leave\<close> over the listed memberships. The state is the bus and the tables;
  \<open>bus_ok\<close> answers for the publish of the n-th membership still to come.
\<close>

type_synonym leave_state = "bus_command list \<times> disc_store"

fun leave_loop ::
  "(bytes \<Rightarrow> string) \<Rightarrow> (nat \<Rightarrow> bool) \<Rightarrow> uuid \<Rightarrow> string \<Rightarrow> time \<Rightarrow> membership_row list \<Rightarrow> leave_state
   \<Rightarrow> (unit, leave_state) outcome" where
  "leave_loop sha_hex bus_ok g reason now [] S = (Inr (), S)"
| "leave_loop sha_hex bus_ok g reason now (m # ms) (B, D) =
     (case close_membership (mb_collector_id m) g now reason D of
        (Inl e, D1) \<Rightarrow> (Inl e, (B, D1))
      | (Inr _, D1) \<Rightarrow>
          (case get_collector (mb_collector_id m) D1 of
             None \<Rightarrow> leave_loop sha_hex bus_ok g reason now ms (B, D1)
           | Some collector \<Rightarrow>
               (case get_identity (cr_identity_id collector) D1 of
                  None \<Rightarrow> leave_loop sha_hex bus_ok g reason now ms (B, D1)
                | Some r \<Rightarrow>
                    if bus_ok (length ms)
                    then leave_loop sha_hex bus_ok g reason now ms
                      (B @ [Bus_Leave (command_subject_for (compute_instance_id sha_hex (id_name r) (cr_kind collector))) g reason],
                       D1)
                    else (Inl (RuntimeError ''publish failed''), (B, D1)))))"

definition groups_leave ::
  "op_env \<Rightarrow> (bytes \<Rightarrow> string) \<Rightarrow> (nat \<Rightarrow> bool) \<Rightarrow> uuid \<Rightarrow> string \<Rightarrow> leave_state \<Rightarrow> (unit, leave_state) outcome" where
  "groups_leave V sha_hex bus_ok i reason S =
     (case get_candidate i (snd S) of
        None \<Rightarrow> (Inl (ResourceNotFound ''group''), S)
      | Some c \<Rightarrow>
          (case gc_group_id c of
             None \<Rightarrow> (Inl (ConflictError ''only a monitored group can be left''), S)
           | Some g \<Rightarrow>
               if gc_state c \<noteq> JOINED then (Inl (ConflictError ''only a monitored group can be left''), S)
               else
                 and_then (leave_loop sha_hex bus_ok g reason (oe_now V) (list_active_memberships None (Some g) (snd S)) S)
                   (\<lambda>_ S1. case and_then (transition_candidate i PARKED
                        (no_args\<lparr>ta_reviewed_by := Some (operator_tag V), ta_reviewed_at := Some (oe_now V)\<rparr>) (snd S1))
                        (\<lambda>_ D2. emit_as (oe_emit V) (Some (oe_user V)) (oe_audit_id V) ''eyenet.audit.group.left''
                           ''candidate'' i [(''group_id'', JUuid g), (''reason'', JStr reason)] (oe_now V) D2)
                     of (x, D3) \<Rightarrow> (x, (fst S1, D3)))))"

section \<open>What collectors and sensors record\<close>

record visible_group =
  vg_gid :: string
  vg_kind :: group_kind
  vg_title :: "string option"
  vg_member :: bool

text \<open>\<open>scan_visible_groups\<close>; the fresh ids are paired with the groups.\<close>

fun scan_loop :: "uuid \<Rightarrow> time \<Rightarrow> (uuid \<times> visible_group) list \<Rightarrow> disc_store \<Rightarrow> (unit, disc_store) outcome" where
  "scan_loop source now [] D = (Inr (), D)"
| "scan_loop source now ((n, g) # gs) D =
     and_then (ensure_candidate n source (vg_gid g) now (Some (vg_kind g)) (vg_title g) (vg_member g) D)
       (\<lambda>_ D1. scan_loop source now gs D1)"

definition scan_visible_groups ::
  "uuid \<Rightarrow> time \<Rightarrow> (uuid \<times> visible_group) list \<Rightarrow> disc_store \<Rightarrow> (nat, disc_store) outcome" where
  "scan_visible_groups source now groups D =
     and_then (scan_loop source now groups D) (\<lambda>_ D1. (Inr (length groups), D1))"

record message_context =
  mc_source :: uuid
  mc_collector :: uuid
  mc_group :: uuid
  mc_seed_root :: "uuid option"
  mc_depth :: int
  mc_actor :: uuid
  mc_ref :: string
  mc_sent_at :: time
  mc_collected_at :: time

record reference =
  rf_gid :: string
  rf_kind :: mention_kind

definition mention_for :: "message_context \<Rightarrow> reference \<Rightarrow> mention_args" where
  "mention_for cx r = \<lparr>ma_source = mc_source cx, ma_gid = rf_gid r, ma_collector = mc_collector cx, ma_group = mc_group cx,
     ma_seed_root = mc_seed_root cx, ma_depth = mc_depth cx + 1, ma_ref = mc_ref cx @ ''#'' @ rf_gid r,
     ma_kind = rf_kind r, ma_at_source = mc_sent_at cx, ma_at_ingest = mc_collected_at cx, ma_actor = mc_actor cx,
     ma_role_signal = None, ma_kind_hint = None, ma_name_hint = None\<rparr>"

fun extract_loop ::
  "(rat \<Rightarrow> rat) \<Rightarrow> message_context \<Rightarrow> (uuid \<times> uuid \<times> reference) list \<Rightarrow> nat \<Rightarrow> disc_store \<Rightarrow> (nat, disc_store) outcome" where
  "extract_loop fl cx [] n D = (Inr n, D)"
| "extract_loop fl cx ((ci, mi, r) # rs) n D =
     (if rf_gid r = uuid_str (mc_group cx) then extract_loop fl cx rs n D
      else and_then (record_candidate_mention ci mi (mention_for cx r) D) (\<lambda>cm D1.
           and_then (score_candidate fl (gc_id (fst cm)) D1) (\<lambda>_ D2.
             extract_loop fl cx rs (Suc n) D2)))"

end
