(* ===== verification/Discovery_Invariant.thy ===== *)
theory Discovery_Invariant
  imports Operator_Actions
begin

text \<open>
  The table invariant \<open>disc_wf\<close> of the discovery loop, and the effects of the operations of \<open>Fleet\<close>,
  \<open>Memberships\<close> and \<open>Candidates\<close>: each is a sequence of the primitive steps \<open>disc_prim\<close>, every one
  of which keeps \<open>disc_wf\<close>, and none but a transition to \<open>APPROVED\<close> takes a candidate past
  approval (\<open>drive\<close>).
\<close>

section \<open>The table invariant\<close>

definition active_pairs :: "disc_store \<Rightarrow> (uuid \<times> uuid) list" where
  "active_pairs D = map (\<lambda>m. (mb_collector_id m, mb_group_id m)) (filter (\<lambda>m. mb_left_at m = None) (ds_memberships D))"

definition wf_fleet :: "disc_store \<Rightarrow> bool" where
  "wf_fleet D \<longleftrightarrow> keyed id_id (ds_identities D) \<and> keyed id_name (ds_identities D)
     \<and> keyed cr_id (ds_collectors D) \<and> keyed cr_identity_id (ds_collectors D) \<and> keyed cr_instance_name (ds_collectors D)
     \<and> (\<forall>r\<in>set (ds_identities D). identity_fks r D)
     \<and> (\<forall>r\<in>set (ds_collectors D). collector_checks r \<and> collector_fks r D)"

definition wf_members :: "disc_store \<Rightarrow> bool" where
  "wf_members D \<longleftrightarrow> keyed mb_id (ds_memberships D) \<and> distinct (active_pairs D)
     \<and> (\<forall>r\<in>set (ds_memberships D). membership_checks r \<and> membership_fks r D)
     \<and> keyed gp_id (ds_groups D) \<and> keyed (\<lambda>g. (gp_source_id g, gp_platform_groupid g)) (ds_groups D)
     \<and> (\<forall>r\<in>set (ds_groups D). group_fks r D)"

definition wf_sightings :: "disc_store \<Rightarrow> bool" where
  "wf_sightings D \<longleftrightarrow> keyed (\<lambda>s. (sg_message_id s, sg_collector_id s)) (ds_sightings D)
     \<and> distinct (map sg_message_id (filter sg_first (ds_sightings D)))
     \<and> (\<forall>r\<in>set (ds_sightings D). sighting_fks r D)"

text \<open>
  A candidate past approval names the operator who approved it and the collector assigned to it;
  a candidate before approval may carry neither.
\<close>

definition pre_approval :: "candidate_state set" where
  "pre_approval = {DISCOVERED, QUEUED, REJECTED, PARKED}"

definition vetted :: "candidate_row \<Rightarrow> bool" where
  "vetted c \<longleftrightarrow> gc_state c \<in> pre_approval \<or> (gc_reviewed_by c \<noteq> None \<and> gc_collector_id c \<noteq> None)"

definition wf_candidates :: "disc_store \<Rightarrow> bool" where
  "wf_candidates D \<longleftrightarrow> keyed gc_id (ds_candidates D)
     \<and> keyed (\<lambda>c. (gc_source_id c, gc_platform_groupid c)) (ds_candidates D)
     \<and> (\<forall>r\<in>set (ds_candidates D). candidate_checks r \<and> candidate_fks r D \<and> vetted r)
     \<and> keyed mn_id (ds_mentions D) \<and> keyed (\<lambda>m. (mn_candidate_id m, mn_evidence_ref m)) (ds_mentions D)
     \<and> (\<forall>r\<in>set (ds_mentions D). mention_checks r \<and> mention_fks r D)
     \<and> keyed ac_id (ds_access D) \<and> (\<forall>r\<in>set (ds_access D). access_checks r \<and> access_fks r D)"

definition disc_wf :: "disc_store \<Rightarrow> bool" where
  "disc_wf D \<longleftrightarrow> wf_fleet D \<and> wf_members D \<and> wf_sightings D \<and> wf_candidates D"

lemmas disc_wf_defs = disc_wf_def wf_fleet_def wf_members_def wf_sightings_def wf_candidates_def

lemmas fks_defs = identity_fks_def collector_fks_def membership_fks_def sighting_fks_def group_fks_def
  candidate_fks_def mention_fks_def access_fks_def fk_opt_def

lemma keyed_save_other:
  assumes "keyed pk rows" and "tbl_get pk (pk r') rows = Some r" and "f r' = f r" and "keyed f rows"
  shows "keyed f (tbl_save pk r' rows)"
proof -
  have "map f (tbl_save pk r' rows) = map f rows"
    using tbl_get_keyed_iff [OF assms(1)] assms(2,3) unfolding tbl_save_def
    by (auto simp: dest: keyed_eq [OF assms(1)])
  then show ?thesis using assms(4) by (simp add: keyed_def)
qed

section \<open>Primitive steps\<close>

text \<open>A rewrite of a candidate keeps its keys.\<close>

definition candidate_edit :: "candidate_row \<Rightarrow> candidate_row \<Rightarrow> bool" where
  "candidate_edit c c' \<longleftrightarrow> gc_id c' = gc_id c \<and> gc_source_id c' = gc_source_id c
     \<and> gc_platform_groupid c' = gc_platform_groupid c"

inductive disc_prim :: "disc_store \<Rightarrow> disc_store \<Rightarrow> bool" where
  audit: "disc_prim D (put_audit A D)"
| identity_new: "\<not> tbl_has id_id (id_id r) (ds_identities D) \<Longrightarrow> \<not> tbl_has id_name (id_name r) (ds_identities D)
    \<Longrightarrow> identity_fks r D \<Longrightarrow> disc_prim D (D\<lparr>ds_identities := ds_identities D @ [r]\<rparr>)"
| identity_save: "tbl_get id_id (id_id r') (ds_identities D) = Some r \<Longrightarrow> id_name r' = id_name r \<Longrightarrow> identity_fks r' D
    \<Longrightarrow> disc_prim D (D\<lparr>ds_identities := tbl_save id_id r' (ds_identities D)\<rparr>)"
| identity_freeze: "disc_prim D (D\<lparr>ds_identities := tbl_update P (\<lambda>r. r\<lparr>id_state := Idn_FROZEN\<rparr>) (ds_identities D)\<rparr>)"
| identity_delete: "\<forall>c\<in>set (ds_collectors D). cr_identity_id c \<noteq> i
    \<Longrightarrow> disc_prim D (D\<lparr>ds_identities := tbl_delete id_id i (ds_identities D)\<rparr>)"
| collector_new: "\<not> tbl_has cr_id (cr_id r) (ds_collectors D) \<Longrightarrow> collector_ok r D
    \<Longrightarrow> disc_prim D (D\<lparr>ds_collectors := ds_collectors D @ [r]\<rparr>)"
| collector_save: "tbl_get cr_id (cr_id r') (ds_collectors D) = Some r \<Longrightarrow> collector_ok r' D
    \<Longrightarrow> disc_prim D (D\<lparr>ds_collectors := tbl_save cr_id r' (ds_collectors D)\<rparr>)"
| collector_delete: "\<not> collector_referenced i D
    \<Longrightarrow> disc_prim D (D\<lparr>ds_collectors := tbl_delete cr_id i (ds_collectors D)\<rparr>)"
| group_new: "\<not> tbl_has gp_id (gp_id g) (ds_groups D)
    \<Longrightarrow> \<not> tbl_has (\<lambda>g. (gp_source_id g, gp_platform_groupid g)) (gp_source_id g, gp_platform_groupid g) (ds_groups D)
    \<Longrightarrow> group_fks g D \<Longrightarrow> disc_prim D (D\<lparr>ds_groups := ds_groups D @ [g]\<rparr>)"
| group_save: "tbl_get gp_id (gp_id g') (ds_groups D) = Some g \<Longrightarrow> gp_source_id g' = gp_source_id g
    \<Longrightarrow> gp_platform_groupid g' = gp_platform_groupid g \<Longrightarrow> disc_prim D (D\<lparr>ds_groups := tbl_save gp_id g' (ds_groups D)\<rparr>)"
| member_new: "\<not> tbl_has mb_id (mb_id m) (ds_memberships D) \<Longrightarrow> (mb_collector_id m, mb_group_id m) \<notin> set (active_pairs D)
    \<Longrightarrow> membership_checks m \<Longrightarrow> membership_fks m D \<Longrightarrow> disc_prim D (D\<lparr>ds_memberships := ds_memberships D @ [m]\<rparr>)"
| member_left: "m \<in> set (ds_memberships D)
    \<Longrightarrow> disc_prim D (D\<lparr>ds_memberships := tbl_save mb_id (m\<lparr>mb_left_at := Some t, mb_left_reason := Some w\<rparr>) (ds_memberships D)\<rparr>)"
| sighting_new: "\<not> tbl_has (\<lambda>s. (sg_message_id s, sg_collector_id s)) (sg_message_id s, sg_collector_id s) (ds_sightings D)
    \<Longrightarrow> (sg_first s \<Longrightarrow> \<forall>t\<in>set (ds_sightings D). sg_message_id t = sg_message_id s \<longrightarrow> \<not> sg_first t)
    \<Longrightarrow> sighting_fks s D \<Longrightarrow> disc_prim D (D\<lparr>ds_sightings := ds_sightings D @ [s]\<rparr>)"
| candidate_new: "\<not> tbl_has gc_id (gc_id c) (ds_candidates D)
    \<Longrightarrow> \<not> tbl_has (\<lambda>c. (gc_source_id c, gc_platform_groupid c)) (gc_source_id c, gc_platform_groupid c) (ds_candidates D)
    \<Longrightarrow> candidate_checks c \<Longrightarrow> candidate_fks c D \<Longrightarrow> vetted c
    \<Longrightarrow> disc_prim D (put_candidates (ds_candidates D @ [c]) D)"
| candidate_save: "tbl_get gc_id (gc_id c') (ds_candidates D) = Some c \<Longrightarrow> candidate_edit c c'
    \<Longrightarrow> candidate_checks c' \<Longrightarrow> candidate_fks c' D \<Longrightarrow> vetted c'
    \<Longrightarrow> disc_prim D (put_candidates (tbl_save gc_id c' (ds_candidates D)) D)"
| mention_new: "\<not> tbl_has mn_id (mn_id m) (ds_mentions D)
    \<Longrightarrow> \<not> tbl_has (\<lambda>m. (mn_candidate_id m, mn_evidence_ref m)) (mn_candidate_id m, mn_evidence_ref m) (ds_mentions D)
    \<Longrightarrow> mention_checks m \<Longrightarrow> mention_fks m D \<Longrightarrow> disc_prim D (D\<lparr>ds_mentions := ds_mentions D @ [m]\<rparr>)"
| access_new: "\<not> tbl_has ac_id (ac_id a) (ds_access D) \<Longrightarrow> access_checks a \<Longrightarrow> access_fks a D
    \<Longrightarrow> disc_prim D (D\<lparr>ds_access := ds_access D @ [a]\<rparr>)"
| access_save: "a \<in> set (ds_access D)
    \<Longrightarrow> disc_prim D (D\<lparr>ds_access := tbl_save ac_id (a\<lparr>ac_validation := v, ac_last_validated_at := Some t\<rparr>) (ds_access D)\<rparr>)"

lemma put_audit_fields [simp]:
  "ds_sources (put_audit A D) = ds_sources D" "ds_messages (put_audit A D) = ds_messages D"
  "ds_actors (put_audit A D) = ds_actors D" "ds_users (put_audit A D) = ds_users D"
  "ds_identities (put_audit A D) = ds_identities D" "ds_collectors (put_audit A D) = ds_collectors D"
  "ds_memberships (put_audit A D) = ds_memberships D" "ds_sightings (put_audit A D) = ds_sightings D"
  "ds_groups (put_audit A D) = ds_groups D" "ds_candidates (put_audit A D) = ds_candidates D"
  "ds_mentions (put_audit A D) = ds_mentions D" "ds_access (put_audit A D) = ds_access D"
  by (simp_all add: put_audit_def)

lemma put_candidates_fields [simp]:
  "ds_sources (put_candidates x D) = ds_sources D" "ds_messages (put_candidates x D) = ds_messages D"
  "ds_actors (put_candidates x D) = ds_actors D" "ds_users (put_candidates x D) = ds_users D"
  "ds_identities (put_candidates x D) = ds_identities D" "ds_collectors (put_candidates x D) = ds_collectors D"
  "ds_memberships (put_candidates x D) = ds_memberships D" "ds_sightings (put_candidates x D) = ds_sightings D"
  "ds_groups (put_candidates x D) = ds_groups D" "ds_candidates (put_candidates x D) = x"
  "ds_mentions (put_candidates x D) = ds_mentions D" "ds_access (put_candidates x D) = ds_access D"
  by (simp_all add: put_candidates_def)

text \<open>Growing key sets keep every foreign key.\<close>

definition keys_le :: "disc_store \<Rightarrow> disc_store \<Rightarrow> bool" where
  "keys_le D D' \<longleftrightarrow> ds_sources D' = ds_sources D \<and> ds_messages D' = ds_messages D \<and> ds_actors D' = ds_actors D
     \<and> ds_users D' = ds_users D
     \<and> (\<forall>i. tbl_has id_id i (ds_identities D) \<longrightarrow> tbl_has id_id i (ds_identities D'))
     \<and> (\<forall>i. tbl_has cr_id i (ds_collectors D) \<longrightarrow> tbl_has cr_id i (ds_collectors D'))
     \<and> (\<forall>i. tbl_has gp_id i (ds_groups D) \<longrightarrow> tbl_has gp_id i (ds_groups D'))
     \<and> (\<forall>i. tbl_has gc_id i (ds_candidates D) \<longrightarrow> tbl_has gc_id i (ds_candidates D'))
     \<and> (\<forall>i. tbl_has mn_id i (ds_mentions D) \<longrightarrow> tbl_has mn_id i (ds_mentions D'))"

lemma fks_mono:
  assumes "keys_le D D'"
  shows "identity_fks a D \<Longrightarrow> identity_fks a D'" "collector_fks b D \<Longrightarrow> collector_fks b D'"
    "membership_fks c D \<Longrightarrow> membership_fks c D'" "sighting_fks s D \<Longrightarrow> sighting_fks s D'"
    "group_fks g D \<Longrightarrow> group_fks g D'" "candidate_fks k D \<Longrightarrow> candidate_fks k D'"
    "mention_fks m D \<Longrightarrow> mention_fks m D'" "access_fks x D \<Longrightarrow> access_fks x D'"
  using assms by (auto simp: keys_le_def fks_defs split: option.splits)

lemma keyed_save_fresh:
  assumes "keyed pk rows" and "keyed f rows" and "\<forall>c\<in>set rows. pk c \<noteq> pk x \<longrightarrow> f c \<noteq> f x"
  shows "keyed f (tbl_save pk x rows)"
  using assms
proof (induction rows)
  case Nil
  then show ?case by (simp add: tbl_save_def)
next
  case (Cons y ys)
  show ?case
  proof (cases "pk y = pk x")
    case True
    then have "\<not> tbl_has pk (pk x) ys" using Cons.prems(1) by (simp add: tbl_has_def)
    then have "tbl_save pk x (y # ys) = x # ys"
      using True tbl_save_absent [of pk x ys] by (simp add: tbl_save_def)
    moreover have "f c \<noteq> f x" if "c \<in> set ys" for c
      using Cons.prems(3) \<open>\<not> tbl_has pk (pk x) ys\<close> that by (metis image_eqI list.set_intros(2) tbl_has_def)
    then have "f x \<notin> f ` set ys" by force
    ultimately show ?thesis using Cons.prems(2) by simp
  next
    case False
    then have "tbl_save pk x (y # ys) = y # tbl_save pk x ys" by (simp add: tbl_save_def)
    moreover have "f y \<noteq> f c" if "c \<in> set (tbl_save pk x ys)" for c
      using Cons.prems(2,3) False set_tbl_save_sub [OF that] by auto
    then have "f y \<notin> f ` set (tbl_save pk x ys)" by blast
    ultimately show ?thesis using Cons by simp
  qed
qed

lemma tbl_has_delete [simp]: "tbl_has pk k (tbl_delete pk i rows) \<longleftrightarrow> k \<noteq> i \<and> tbl_has pk k rows"
  by (auto simp: tbl_has_def tbl_delete_def)

lemma set_tbl_delete: "set (tbl_delete pk i rows) = {r \<in> set rows. pk r \<noteq> i}"
  by (auto simp: tbl_delete_def)

lemma keyed_delete_other: "keyed f rows \<Longrightarrow> keyed f (tbl_delete pk i rows)"
  by (simp add: keyed_def tbl_delete_def distinct_map_filter)

lemma tbl_has_update [simp]: "(\<And>r. pk (f r) = pk r) \<Longrightarrow> tbl_has pk k (tbl_update P f rows) = tbl_has pk k rows"
  by (metis map_pk_tbl_update set_map tbl_has_def)

lemma identity_prim_wf:
  assumes "disc_wf D" and "keys_le D (D\<lparr>ds_identities := rows\<rparr>)"
    and "keyed id_id rows" "keyed id_name rows" "\<forall>r\<in>set rows. id_source_id r \<in> so_id ` set (ds_sources D)"
  shows "disc_wf (D\<lparr>ds_identities := rows\<rparr>)"
  using assms fks_mono [OF assms(2)]
  by (simp add: disc_wf_defs active_pairs_def) (simp add: identity_fks_def tbl_has_def)

lemma collector_prim_wf:
  assumes "disc_wf D" and "keys_le D (D\<lparr>ds_collectors := rows\<rparr>)"
    and "keyed cr_id rows" "keyed cr_identity_id rows" "keyed cr_instance_name rows"
    and "\<forall>r\<in>set rows. collector_checks r \<and> collector_fks r D"
  shows "disc_wf (D\<lparr>ds_collectors := rows\<rparr>)"
  using assms fks_mono [OF assms(2)]
  by (simp add: disc_wf_defs active_pairs_def)

lemma group_prim_wf:
  assumes "disc_wf D" and "keys_le D (D\<lparr>ds_groups := rows\<rparr>)"
    and "keyed gp_id rows" "keyed (\<lambda>g. (gp_source_id g, gp_platform_groupid g)) rows" "\<forall>r\<in>set rows. group_fks r D"
  shows "disc_wf (D\<lparr>ds_groups := rows\<rparr>)"
  using assms fks_mono [OF assms(2)]
  by (simp add: disc_wf_defs active_pairs_def)

lemma member_prim_wf:
  assumes "disc_wf D" and "keyed mb_id rows" and "distinct (active_pairs (D\<lparr>ds_memberships := rows\<rparr>))"
    and "\<forall>r\<in>set rows. membership_checks r \<and> membership_fks r D"
  shows "disc_wf (D\<lparr>ds_memberships := rows\<rparr>)"
  using assms by (simp add: disc_wf_defs fks_defs)

lemma sighting_prim_wf:
  assumes "disc_wf D" and "keyed (\<lambda>s. (sg_message_id s, sg_collector_id s)) rows"
    and "distinct (map sg_message_id (filter sg_first rows))" and "\<forall>r\<in>set rows. sighting_fks r D"
  shows "disc_wf (D\<lparr>ds_sightings := rows\<rparr>)"
  using assms by (simp add: disc_wf_defs fks_defs active_pairs_def)

lemma candidate_prim_wf:
  assumes "disc_wf D" and "keys_le D (put_candidates rows D)"
    and "keyed gc_id rows" "keyed (\<lambda>c. (gc_source_id c, gc_platform_groupid c)) rows"
    and "\<forall>r\<in>set rows. candidate_checks r \<and> candidate_fks r D \<and> vetted r"
  shows "disc_wf (put_candidates rows D)"
  using assms fks_mono [OF assms(2)]
  by (simp add: disc_wf_defs active_pairs_def)

lemma mention_prim_wf:
  assumes "disc_wf D" and "keys_le D (D\<lparr>ds_mentions := rows\<rparr>)"
    and "keyed mn_id rows" "keyed (\<lambda>m. (mn_candidate_id m, mn_evidence_ref m)) rows"
    and "\<forall>r\<in>set rows. mention_checks r \<and> mention_fks r D"
  shows "disc_wf (D\<lparr>ds_mentions := rows\<rparr>)"
  using assms fks_mono [OF assms(2)]
  by (simp add: disc_wf_defs active_pairs_def)

lemma access_prim_wf:
  assumes "disc_wf D" and "keyed ac_id rows" and "\<forall>r\<in>set rows. access_checks r \<and> access_fks r D"
  shows "disc_wf (D\<lparr>ds_access := rows\<rparr>)"
  using assms by (simp add: disc_wf_defs fks_defs active_pairs_def)


lemma disc_prim_wf: "disc_prim D D' \<Longrightarrow> disc_wf D \<Longrightarrow> disc_wf D'"
proof (induction rule: disc_prim.induct)
  case (audit D A)
  then show ?case by (simp add: disc_wf_defs active_pairs_def fks_defs)
next
  case (identity_new r D)
  then show ?case
    by (intro identity_prim_wf) (auto simp: disc_wf_defs keys_le_def identity_fks_def tbl_has_def)
next
  case (identity_save r' D r)
  then have "keyed id_name (tbl_save id_id r' (ds_identities D))"
    by (intro keyed_save_other [of id_id _ _ r]) (simp_all add: disc_wf_defs)
  with identity_save show ?case
    by (intro identity_prim_wf)
      (auto simp: disc_wf_defs keys_le_def identity_fks_def tbl_has_def [of so_id] dest!: set_tbl_save_sub)
next
  case (identity_freeze D P)
  then show ?case
    by (intro identity_prim_wf)
      (auto simp: disc_wf_defs keys_le_def identity_fks_def tbl_has_def [of so_id] set_tbl_update)
next
  case (identity_delete D i)
  then show ?case
    by (auto simp: disc_wf_defs active_pairs_def fks_defs keyed_delete_other set_tbl_delete split: option.splits)
next
  case (collector_new r D)
  then have "\<forall>c\<in>set (ds_collectors D). cr_id c \<noteq> cr_id r" by (metis image_eqI tbl_has_def)
  with collector_new show ?case
    by (intro collector_prim_wf) (auto simp: disc_wf_defs keys_le_def collector_ok_def tbl_has_def [of cr_identity_id] tbl_has_def [of cr_instance_name])
next
  case (collector_save r' D r)
  then have "keyed cr_identity_id (tbl_save cr_id r' (ds_collectors D))"
    "keyed cr_instance_name (tbl_save cr_id r' (ds_collectors D))"
    by (auto simp: disc_wf_defs collector_ok_def intro!: keyed_save_fresh)
  with collector_save show ?case
    by (intro collector_prim_wf) (auto simp: disc_wf_defs keys_le_def collector_ok_def dest!: set_tbl_save_sub)
next
  case (collector_delete i D)
  let ?D = "D\<lparr>ds_collectors := tbl_delete cr_id i (ds_collectors D)\<rparr>"
  have same: "identity_fks a ?D = identity_fks a D" "group_fks g ?D = group_fks g D" "access_fks x ?D = access_fks x D"
    "collector_fks c ?D = collector_fks c D" for a g x c
    by (simp_all add: identity_fks_def group_fks_def access_fks_def collector_fks_def)
  have "membership_fks m ?D" if "m \<in> set (ds_memberships D)" for m
    using that collector_delete by (auto simp: disc_wf_defs membership_fks_def collector_referenced_def)
  moreover have "sighting_fks s ?D" if "s \<in> set (ds_sightings D)" for s
    using that collector_delete by (auto simp: disc_wf_defs sighting_fks_def collector_referenced_def)
  moreover have "mention_fks m ?D" if "m \<in> set (ds_mentions D)" for m
    using that collector_delete by (auto simp: disc_wf_defs mention_fks_def collector_referenced_def)
  moreover have "candidate_fks c ?D" if "c \<in> set (ds_candidates D)" for c
    using that collector_delete
    by (cases "gc_collector_id c") (auto simp: disc_wf_defs candidate_fks_def fk_opt_def collector_referenced_def)
  ultimately show ?case
    using collector_delete(2)
    by (simp add: disc_wf_defs active_pairs_def same keyed_delete_other set_tbl_delete)
next
  case (group_new g D)
  then show ?case by (intro group_prim_wf) (auto simp: disc_wf_defs keys_le_def)
next
  case (group_save g' D g)
  then have "keyed (\<lambda>g. (gp_source_id g, gp_platform_groupid g)) (tbl_save gp_id g' (ds_groups D))"
    by (intro keyed_save_other [of gp_id _ _ g]) (simp_all add: disc_wf_defs)
  moreover have "group_fks g D" using group_save tbl_get_SomeD [OF group_save(1)] by (simp add: disc_wf_defs)
  ultimately show ?case using group_save
    by (intro group_prim_wf) (auto simp: disc_wf_defs keys_le_def group_fks_def dest!: set_tbl_save_sub)
next
  case (member_new m D)
  then show ?case by (intro member_prim_wf) (auto simp: disc_wf_defs active_pairs_def)
next
  case (member_left m D w t)
  let ?m = "m\<lparr>mb_left_at := Some t, mb_left_reason := Some w\<rparr>"
  have "membership_checks ?m" "membership_fks ?m D"
    using member_left by (auto simp: disc_wf_defs membership_checks_def membership_fks_def)
  moreover have "distinct (active_pairs (D\<lparr>ds_memberships := tbl_save mb_id ?m (ds_memberships D)\<rparr>))"
    using member_left by (simp add: active_pairs_def distinct_filter_save disc_wf_defs)
  ultimately show ?case using member_left
    by (intro member_prim_wf) (auto simp: disc_wf_defs dest!: set_tbl_save_sub)
next
  case (sighting_new s D)
  then show ?case by (intro sighting_prim_wf) (auto simp: disc_wf_defs)
next
  case (candidate_new c D)
  then show ?case by (intro candidate_prim_wf) (auto simp: disc_wf_defs keys_le_def)
next
  case (candidate_save c' D c)
  then have "keyed (\<lambda>c. (gc_source_id c, gc_platform_groupid c)) (tbl_save gc_id c' (ds_candidates D))"
    by (intro keyed_save_other [of gc_id _ _ c]) (simp_all add: disc_wf_defs candidate_edit_def)
  with candidate_save show ?case
    by (intro candidate_prim_wf) (auto simp: disc_wf_defs keys_le_def dest!: set_tbl_save_sub)
next
  case (mention_new m D)
  then show ?case by (intro mention_prim_wf) (auto simp: disc_wf_defs keys_le_def)
next
  case (access_new a D)
  then show ?case by (intro access_prim_wf) (auto simp: disc_wf_defs)
next
  case (access_save a D t v)
  let ?a = "a\<lparr>ac_validation := v, ac_last_validated_at := Some t\<rparr>"
  have "access_checks ?a" "access_fks ?a D"
    using access_save by (auto simp: disc_wf_defs access_checks_def access_fks_def)
  with access_save show ?case
    by (intro access_prim_wf) (auto simp: disc_wf_defs dest!: set_tbl_save_sub)
qed

lemma disc_prims_wf: "disc_prim\<^sup>*\<^sup>* D D' \<Longrightarrow> disc_wf D \<Longrightarrow> disc_wf D'"
  by (induction rule: rtranclp_induct) (auto intro: disc_prim_wf)

section \<open>The operations are primitive steps\<close>

text \<open>
  Effects of an operation: primitive steps, and (when \<open>b\<close>) no candidate passes approval.
\<close>

definition unapproved :: "uuid \<Rightarrow> disc_store \<Rightarrow> bool" where
  "unapproved i D \<longleftrightarrow> (\<forall>c. tbl_get gc_id i (ds_candidates D) = Some c \<longrightarrow> gc_state c \<in> pre_approval)"

definition drive :: "bool \<Rightarrow> disc_store \<Rightarrow> disc_store \<Rightarrow> bool" where
  "drive b D D' \<longleftrightarrow> disc_prim\<^sup>*\<^sup>* D D' \<and> (b \<longrightarrow> (\<forall>i. unapproved i D \<longrightarrow> unapproved i D'))"

lemma drive_refl [simp]: "drive b D D"
  by (simp add: drive_def)

lemma drive_trans: "drive b D D' \<Longrightarrow> drive b D' D'' \<Longrightarrow> drive b D D''"
  by (auto simp: drive_def)

lemma drive_wf: "drive b D D' \<Longrightarrow> disc_wf D \<Longrightarrow> disc_wf D'"
  using disc_prims_wf drive_def by blast

lemma drive_weaken: "drive True D D' \<Longrightarrow> drive b D D'"
  by (simp add: drive_def)

lemma one_prim: "disc_prim D D' \<Longrightarrow> ds_candidates D' = ds_candidates D \<Longrightarrow> drive b D D'"
  by (auto simp: drive_def unapproved_def)

lemma and_then_prims:
  assumes "disc_wf D" and "drive b D (snd r)"
    and "\<And>v D'. disc_wf D' \<Longrightarrow> drive b D' (snd (k v D'))"
  shows "drive b D (snd (and_then r k))"
proof (cases r)
  case (Pair x D')
  have "disc_wf D'" using drive_wf assms(1,2) Pair by simp
  then show ?thesis
    using assms(2) assms(3) [of D'] Pair by (auto simp: and_then_def split: sum.split intro: drive_trans)
qed

lemma emit_prims_disc: "drive b D (snd (emit_as M u a ev k s p now D))"
  by (auto simp: emit_as_def split: prod.splits sum.splits intro: one_prim audit)

lemma change_identity_prims:
  assumes "\<And>r. id_id (f r) = id_id r \<and> id_name (f r) = id_name r"
  shows "drive b D (snd (change_identity i f D))"
proof (cases rule: change_row_cases [of ds_identities put_identities id_id "''identity not found''" identity_fks i f D])
  case (failed e)
  then show ?thesis by simp
next
  case (changed r)
  then have "tbl_get id_id (id_id (f r)) (ds_identities D) = Some r"
    using assms tbl_get_SomeD by metis
  then have "disc_prim D (D\<lparr>ds_identities := tbl_save id_id (f r) (ds_identities D)\<rparr>)"
    using changed assms identity_save by blast
  then show ?thesis using changed by (simp add: put_identities_def one_prim)
qed

lemma identity_op_prims:
  "drive b D (snd (set_identity_role i role D))" "drive b D (snd (set_identity_state i st u D))"
  "drive b D (snd (graduate_identity i now D))" "drive b D (snd (burn_identity i D))"
  by (auto simp: set_identity_role_def set_identity_state_def graduate_identity_def burn_identity_def
      intro!: change_identity_prims)

lemma create_identity_prims: "drive b D (snd (create_identity n nm s sp ro st px cd nt cf D))"
  by (auto simp: create_identity_def Let_def put_identities_def intro!: one_prim identity_new)

lemma delete_identity_prims: "drive b D (snd (delete_identity i D))"
  by (auto simp: delete_identity_def Let_def put_identities_def filter_empty_conv intro!: one_prim identity_delete)

lemma freeze_prims: "drive b D (snd (freeze_all_identities s D))"
  by (auto simp: freeze_all_identities_def put_identities_def intro!: one_prim identity_freeze)

lemma available_scouts_SomeD:
  "available_scouts s D = r # rs \<Longrightarrow> r \<in> set (ds_identities D) \<and> id_source_id r = s \<and> id_role r = IRole_SCOUT \<and> id_state r = Idn_AVAILABLE"
proof -
  assume "available_scouts s D = r # rs"
  then have "r \<in> set (available_scouts s D)" by simp
  then show ?thesis by (auto simp: available_scouts_def)
qed

lemma lease_prims:
  assumes "disc_wf D"
  shows "drive b D (snd (lease_scout s D))"
proof (cases "available_scouts s D")
  case Nil
  then show ?thesis by (simp add: lease_scout_def)
next
  case (Cons r rs)
  then have "tbl_get id_id (id_id r) (ds_identities D) = Some r" "identity_fks r D"
    using available_scouts_SomeD [OF Cons] assms by (auto simp: disc_wf_defs tbl_get_keyed_iff)
  then have "disc_prim D (D\<lparr>ds_identities := tbl_save id_id (r\<lparr>id_state := Idn_IN_USE\<rparr>) (ds_identities D)\<rparr>)"
    by (intro identity_save) (simp_all add: identity_fks_def)
  then show ?thesis using Cons by (simp add: lease_scout_def put_identities_def Let_def one_prim)
qed

lemma release_prims: "drive b D (snd (release nm st now D))"
  using identity_op_prims(2) by (auto simp: release_def split: prod.splits sum.splits) (metis snd_conv)+

lemma claim_write_prims: "drive b D (snd (claim_write r now D))"
  by (simp add: claim_write_def identity_op_prims)

lemma claim_prims: "drive b D (snd (claim nm now D))"
  using claim_write_prims by (auto simp: claim_def split: prod.splits sum.splits) (metis snd_conv)+

lemma shutdown_prims: "drive b D (collector_shutdown b nm now D)"
  by (simp add: collector_shutdown_def release_prims)

lemma change_collector_prims:
  assumes "\<And>r. cr_id (f r) = cr_id r"
  shows "drive b D (snd (change_collector i f D))"
proof (cases rule: change_row_cases [of ds_collectors put_collectors cr_id "''collector not found''" collector_ok i f D])
  case (failed e)
  then show ?thesis by simp
next
  case (changed r)
  then have "tbl_get cr_id (cr_id (f r)) (ds_collectors D) = Some r"
    using assms tbl_get_SomeD by metis
  then have "disc_prim D (D\<lparr>ds_collectors := tbl_save cr_id (f r) (ds_collectors D)\<rparr>)"
    using changed collector_save by blast
  then show ?thesis using changed by (simp add: put_collectors_def one_prim)
qed

lemma collector_op_prims:
  "drive b D (snd (create_collector n nm kd s i cf ca cb nt D))"
  "drive b D (snd (update_collector i co na no D))"
  "drive b D (snd (bind_collector_source i s D))"
  "drive b D (snd (set_collector_desired_state i ds D))"
  "drive b D (snd (record_collector_observed_state i os be et em re D))"
  "drive b D (snd (delete_collector i D))"
proof -
  have change: "drive b D (snd (change_collector i f D))" if "\<And>r. cr_id (f r) = cr_id r" for i f
    using change_collector_prims that by blast
  show "drive b D (snd (update_collector i co na no D))"
    "drive b D (snd (bind_collector_source i s D))"
    "drive b D (snd (set_collector_desired_state i ds D))"
    "drive b D (snd (record_collector_observed_state i os be et em re D))"
    by (auto simp: update_collector_def bind_collector_source_def set_collector_desired_state_def
        record_collector_observed_state_def observed_row_def split: option.split intro!: change)
  show "drive b D (snd (create_collector n nm kd s i cf ca cb nt D))"
    by (auto simp: create_collector_def Let_def put_collectors_def intro!: one_prim collector_new)
  show "drive b D (snd (delete_collector i D))"
    by (auto simp: delete_collector_def put_collectors_def intro!: one_prim collector_delete)
qed

lemma find_keyed_get:
  assumes "keyed pk rows" and "find P rows = Some r"
  shows "tbl_get pk (pk r) rows = Some r \<and> P r"
  using find_SomeD [OF assms(2)] tbl_get_keyed [OF assms(1)] by blast

lemma upsert_group_prims:
  assumes "disc_wf D"
  shows "drive b D (snd (upsert_group n s g k t now D))"
proof (cases "find (\<lambda>x. gp_source_id x = s \<and> gp_platform_groupid x = g) (ds_groups D)")
  case None
  then have "\<not> tbl_has (\<lambda>x. (gp_source_id x, gp_platform_groupid x)) (s, g) (ds_groups D)"
    by (auto simp: find_None_iff_all tbl_has_def)
  then show ?thesis by (auto simp: upsert_group_def None Let_def intro!: one_prim group_new)
next
  case (Some x)
  have "keyed gp_id (ds_groups D)" using assms by (simp add: disc_wf_defs)
  from find_keyed_get [OF this Some] show ?thesis
    by (auto simp: upsert_group_def Some intro!: one_prim group_save)
qed

lemma one_or_none_None: "one_or_none rows = Inr None \<longleftrightarrow> rows = []"
  by (auto simp: one_or_none_def split: list.split)

lemma one_or_none_Some: "one_or_none rows = Inr (Some r) \<longleftrightarrow> rows = [r]"
  by (auto simp: one_or_none_def split: list.split)

lemma open_membership_prims: "drive b D (snd (open_membership n c g t v i D))"
proof -
  have "(c, g) \<notin> set (active_pairs D)" if "one_or_none (filter (membership_active c g) (ds_memberships D)) = Inr None"
    using that by (auto simp: one_or_none_None active_pairs_def filter_empty_conv membership_active_def)
  then show ?thesis
    by (auto simp: open_membership_def Let_def split: sum.split option.split intro!: one_prim member_new)
qed

lemma close_membership_prims: "drive b D (snd (close_membership c g t w D))"
proof -
  have "m \<in> set (ds_memberships D)"
    if "one_or_none (filter (membership_active c g) (ds_memberships D)) = Inr (Some m)" for m
  proof -
    have "m \<in> set (filter (membership_active c g) (ds_memberships D))"
      using that by (simp add: one_or_none_Some)
    then show ?thesis by simp
  qed
  then show ?thesis
    by (auto simp: close_membership_def Let_def split: sum.split option.split intro!: one_prim member_left)
qed

lemma insert_sighting_prims: "drive b D (snd (insert_sighting s D))"
proof (cases "fst (insert_sighting s D)")
  case (Inl e)
  then show ?thesis by (auto simp: insert_sighting_def split: if_splits)
next
  case (Inr u)
  then have "disc_prim D (D\<lparr>ds_sightings := ds_sightings D @ [s]\<rparr>)"
    by (intro sighting_new) (auto simp: insert_sighting_def tbl_has_def split: if_splits)
  then show ?thesis using Inr by (auto simp: insert_sighting_def one_prim split: if_splits)
qed

lemma record_observation_prims: "drive b D (snd (record_observation m c t D))"
proof -
  have step: "drive b D D'" if "insert_sighting s D = (x, D')" for s x D' D
    using insert_sighting_prims [of b D s] that by simp
  then show ?thesis
    unfolding record_observation_def claim_sighting_def Let_def
    by (auto split: prod.splits sum.splits option.split) (meson drive_trans step)+
qed

lemma access_prims:
  "drive b D (snd (add_group_access_artifact a D))"
  "drive b D (snd (set_artifact_validation_state i v t D))"
  "drive b D (record_artifact_validation i ex t D)"
  by (auto simp: add_group_access_artifact_def set_artifact_validation_state_def record_artifact_validation_def Let_def
      dest: tbl_get_SomeD split: option.split intro!: one_prim access_new access_save)


section \<open>Candidate operations\<close>

lemma tbl_update_pinned:
  assumes "keyed pk rows" and "\<And>r. pk (f r) = pk r"
  shows "tbl_update (\<lambda>r. pk r = k \<and> P r) f rows
     = (case tbl_get pk k rows of None \<Rightarrow> rows | Some r \<Rightarrow> if P r then tbl_save pk (f r) rows else rows)"
  using assms(1)
proof (induction rows)
  case Nil
  then show ?case by (simp add: tbl_update_def)
next
  case (Cons x xs)
  show ?case
  proof (cases "pk x = k")
    case True
    then have "\<forall>r\<in>set xs. pk r \<noteq> k" using Cons.prems by (metis image_eqI keyed_Cons)
    then show ?thesis using True assms(2)
      by (simp add: tbl_update_def tbl_save_def map_idI)
  next
    case False
    then have "tbl_save pk y (x # xs) = x # tbl_save pk y xs" if "pk y = k" for y
      using that by (simp add: tbl_save_def)
    then show ?thesis using False Cons tbl_get_SomeD [of pk k xs] assms(2)
      by (auto simp: tbl_update_def split: option.splits)
  qed
qed

lemma claim_row_key [simp]: "gc_id (claim_row q g t c) = gc_id c"
  by (simp add: claim_row_def)

lemma cas_disj:
  assumes "disc_wf D"
  shows "(\<exists>e. claim_candidate_transition i q q' g t D = (Inl e, D) \<and> \<not> fk_opt gp_id g (ds_groups D))
    \<or> (claim_candidate_transition i q q' g t D = (Inr False, D)
         \<and> (\<forall>c. tbl_get gc_id i (ds_candidates D) = Some c \<longrightarrow> gc_state c \<noteq> q))
    \<or> (\<exists>c. tbl_get gc_id i (ds_candidates D) = Some c \<and> gc_state c = q \<and> fk_opt gp_id g (ds_groups D)
         \<and> claim_candidate_transition i q q' g t D
           = (Inr True, put_candidates (tbl_save gc_id (claim_row q' g t c) (ds_candidates D)) D))"
proof -
  have k: "keyed gc_id (ds_candidates D)" using assms by (simp add: disc_wf_defs)
  have same: "put_candidates (ds_candidates D) D = D" by (simp add: put_candidates_def)
  show ?thesis
    unfolding claim_candidate_transition_def claim_where_def
    by (cases "tbl_get gc_id i (ds_candidates D)")
      (simp_all add: rowcount_keyed [OF k] tbl_update_pinned [OF k] same)
qed

lemma cas_cases:
  assumes "disc_wf D"
  obtains (failed) e where "claim_candidate_transition i q q' g t D = (Inl e, D)" "\<not> fk_opt gp_id g (ds_groups D)"
  | (lost) "claim_candidate_transition i q q' g t D = (Inr False, D)"
      "\<forall>c. tbl_get gc_id i (ds_candidates D) = Some c \<longrightarrow> gc_state c \<noteq> q"
  | (won) c where "tbl_get gc_id i (ds_candidates D) = Some c" "gc_state c = q" "fk_opt gp_id g (ds_groups D)"
      "claim_candidate_transition i q q' g t D
         = (Inr True, put_candidates (tbl_save gc_id (claim_row q' g t c) (ds_candidates D)) D)"
  using cas_disj [OF assms, of i q q' g t] by blast

lemma candidate_get_ok:
  assumes "disc_wf D" and "tbl_get gc_id i (ds_candidates D) = Some c"
  shows "candidate_checks c" "candidate_fks c D" "gc_id c = i" "vetted c"
  using assms tbl_get_SomeD [OF assms(2)] by (simp_all add: disc_wf_defs)

lemma save_candidate_drive:
  assumes "disc_wf D" and "tbl_get gc_id i (ds_candidates D) = Some c" and "candidate_edit c c'"
    and "candidate_checks c'" and "candidate_fks c' D" and "vetted c'"
    and "b \<Longrightarrow> gc_state c \<in> pre_approval \<Longrightarrow> gc_state c' \<in> pre_approval"
  shows "drive b D (put_candidates (tbl_save gc_id c' (ds_candidates D)) D)"
proof -
  have i: "gc_id c' = i" using assms(3) candidate_get_ok [OF assms(1,2)] by (simp add: candidate_edit_def)
  then have "disc_prim D (put_candidates (tbl_save gc_id c' (ds_candidates D)) D)"
    using assms by (intro candidate_save [of c' D c]) simp_all
  moreover have "unapproved j (put_candidates (tbl_save gc_id c' (ds_candidates D)) D)" if b and "unapproved j D" for j
    using that assms(2,7) i by (auto simp: unapproved_def tbl_get_tbl_save)
  ultimately show ?thesis by (simp add: drive_def r_into_rtranclp)
qed

lemma claim_row_fields [simp]:
  "gc_state (claim_row q g t c) = q" "candidate_checks (claim_row q g t c) = candidate_checks c"
  "candidate_edit c (claim_row q g t c)"
  by (simp_all add: claim_row_def candidate_checks_def candidate_edit_def)

lemma cas_drive:
  assumes "disc_wf D" and "q \<notin> pre_approval"
  shows "drive b D (snd (claim_candidate_transition i q q' g t D))"
  using assms(1)
proof (cases rule: cas_cases [of D i q q' g t])
  case (won c)
  note c = candidate_get_ok [OF assms(1) won(1)]
  have "candidate_fks (claim_row q' g t c) D"
    using c won(3) by (auto simp: candidate_fks_def claim_row_def set_opt_def split: option.split)
  moreover have "vetted (claim_row q' g t c)"
    using c won(2) assms(2) by (simp add: vetted_def claim_row_def)
  ultimately show ?thesis
    using save_candidate_drive [OF assms(1) won(1), of "claim_row q' g t c" b] c won assms(2) by simp
qed simp_all

lemma transition_disj:
  "(\<exists>e. transition_candidate i q a D = (Inl e, D))
   \<or> (\<exists>c. tbl_get gc_id i (ds_candidates D) = Some c \<and> q \<in> set (ALLOWED (gc_state c))
        \<and> candidate_fks (transition_row q a c) D
        \<and> transition_candidate i q a D = (Inr (transition_row q a c),
             put_candidates (tbl_save gc_id (transition_row q a c) (ds_candidates D)) D))"
  by (auto simp: transition_candidate_def Let_def split: option.split)

lemma transition_cases:
  obtains (failed) e where "transition_candidate i q a D = (Inl e, D)"
  | (moved) c where "tbl_get gc_id i (ds_candidates D) = Some c" "q \<in> set (ALLOWED (gc_state c))"
      "candidate_fks (transition_row q a c) D"
      "transition_candidate i q a D = (Inr (transition_row q a c),
         put_candidates (tbl_save gc_id (transition_row q a c) (ds_candidates D)) D)"
  using transition_disj [of i q a D] by blast

lemma transition_row_fields [simp]:
  "gc_id (transition_row q a c) = gc_id c" "gc_state (transition_row q a c) = q"
  "gc_source_id (transition_row q a c) = gc_source_id c"
  "gc_platform_groupid (transition_row q a c) = gc_platform_groupid c"
  "candidate_checks (transition_row q a c) = candidate_checks c"
  by (simp_all add: transition_row_def candidate_checks_def)

lemma allowed_pre_approval: "q \<in> set (ALLOWED p) \<Longrightarrow> p \<in> pre_approval \<Longrightarrow> q \<noteq> APPROVED \<Longrightarrow> q \<in> pre_approval"
  by (cases p) (auto simp: pre_approval_def)

definition approving_args :: "transition_args \<Rightarrow> bool" where
  "approving_args a \<longleftrightarrow> ta_reviewed_by a \<noteq> None \<and> ta_collector a \<noteq> None"

lemma transition_drive:
  assumes "disc_wf D" and "q = APPROVED \<Longrightarrow> approving_args a \<and> \<not> b"
  shows "drive b D (snd (transition_candidate i q a D))"
proof (cases rule: transition_cases [of i q a D])
  case (moved c)
  note c = candidate_get_ok [OF assms(1) moved(1)]
  have "vetted (transition_row q a c)"
    using c(4) assms(2) allowed_pre_approval [OF moved(2)]
    by (cases "q = APPROVED") (auto simp: vetted_def transition_row_def set_opt_def approving_args_def split: option.split)
  moreover have "candidate_edit c (transition_row q a c)" by (simp add: candidate_edit_def)
  ultimately show ?thesis
    using save_candidate_drive [OF assms(1) moved(1), of "transition_row q a c" b] c moved
      allowed_pre_approval [OF moved(2)] assms(2) by auto
qed simp


lemma insert_candidate_drive:
  assumes "disc_wf D" and "c = new_candidate n s g k t now d"
    and "find_candidate s g D = None"
  shows "drive b D (snd (insert_candidate c D))"
proof (cases "tbl_has gc_id (gc_id c) (ds_candidates D) \<or> \<not> candidate_fks c D")
  case True
  then show ?thesis by (simp add: insert_candidate_def)
next
  case False
  have "\<not> tbl_has (\<lambda>c. (gc_source_id c, gc_platform_groupid c)) (gc_source_id c, gc_platform_groupid c) (ds_candidates D)"
    using assms(2,3) by (auto simp: find_candidate_def find_None_iff_all tbl_has_def new_candidate_def)
  then have "disc_prim D (put_candidates (ds_candidates D @ [c]) D)"
    using False assms(2)
    by (intro candidate_new) (simp_all add: new_candidate_def candidate_checks_def vetted_def pre_approval_def)
  moreover have "unapproved j (put_candidates (ds_candidates D @ [c]) D)" if "unapproved j D" for j
    using that assms(2) by (auto simp: unapproved_def tbl_get_append new_candidate_def pre_approval_def split: option.splits)
  ultimately show ?thesis using False by (simp add: insert_candidate_def drive_def r_into_rtranclp)
qed

lemma find_candidate_get:
  assumes "disc_wf D" and "find_candidate s g D = Some c"
  shows "tbl_get gc_id (gc_id c) (ds_candidates D) = Some c" "gc_source_id c = s" "gc_platform_groupid c = g"
proof -
  have "keyed gc_id (ds_candidates D)" using assms(1) by (simp add: disc_wf_defs)
  from find_keyed_get [OF this assms(2) [unfolded find_candidate_def]]
  show "tbl_get gc_id (gc_id c) (ds_candidates D) = Some c" "gc_source_id c = s" "gc_platform_groupid c = g" by simp_all
qed

text \<open>A save that keeps the state, the keys and the columns with constraints.\<close>

lemma touch_candidate_drive:
  assumes "disc_wf D" and "tbl_get gc_id i (ds_candidates D) = Some c" and "candidate_edit c c'"
    and "gc_state c' = gc_state c" and "gc_reviewed_by c' = gc_reviewed_by c"
    and "gc_collector_id c' = gc_collector_id c" and "gc_group_id c' = gc_group_id c" and "candidate_checks c'"
  shows "drive b D (put_candidates (tbl_save gc_id c' (ds_candidates D)) D)"
proof -
  note c = candidate_get_ok [OF assms(1,2)]
  have "vetted c'" using c assms by (simp add: vetted_def)
  moreover have "candidate_fks c' D" using c assms by (simp add: candidate_fks_def candidate_edit_def)
  ultimately show ?thesis
    using save_candidate_drive [OF assms(1,2,3,8), of b] assms(4) by simp
qed

lemma ensure_candidate_drive:
  assumes "disc_wf D"
  shows "drive b D (snd (ensure_candidate n s g t k ti d D))"
proof (cases "find_candidate s g D")
  case None
  then show ?thesis using insert_candidate_drive [OF assms refl None] by (simp add: ensure_candidate_def)
next
  case (Some c)
  let ?c = "c\<lparr>gc_display_name := or_str ti (gc_display_name c), gc_kind_hint := set_opt k (gc_kind_hint c),
    gc_member_dialog := (d \<or> gc_member_dialog c), gc_last_observed := (if t > gc_last_observed c then t else gc_last_observed c)\<rparr>"
  note g = find_candidate_get [OF assms Some]
  have "drive b D (put_candidates (tbl_save gc_id ?c (ds_candidates D)) D)"
    by (rule touch_candidate_drive [OF assms g(1)])
      (use candidate_get_ok [OF assms g(1)] in \<open>simp_all add: candidate_edit_def candidate_checks_def\<close>)
  then show ?thesis by (simp add: ensure_candidate_def Some Let_def split del: if_split)
qed

lemma candidate_for_drive:
  assumes "disc_wf D"
  shows "drive b D (snd (candidate_for n a D))"
proof (cases "find_candidate (ma_source a) (ma_gid a) D")
  case None
  then show ?thesis using insert_candidate_drive [OF assms refl None] by (simp add: candidate_for_def)
next
  case (Some c)
  let ?c = "if ma_at_ingest a > gc_last_observed c then c\<lparr>gc_last_observed := ma_at_ingest a\<rparr> else c"
  note g = find_candidate_get [OF assms Some]
  have "drive b D (put_candidates (tbl_save gc_id ?c (ds_candidates D)) D)"
    by (rule touch_candidate_drive [OF assms g(1)])
      (use candidate_get_ok [OF assms g(1)] in \<open>simp_all add: candidate_edit_def candidate_checks_def\<close>)
  then show ?thesis by (simp add: candidate_for_def Some Let_def split del: if_split)
qed

lemma attach_mention_drive: "drive b D (snd (attach_mention n a c D))"
proof (cases "find (\<lambda>m. mn_candidate_id m = gc_id c \<and> mn_evidence_ref m = ma_ref a) (ds_mentions D)")
  case None
  then have "\<not> tbl_has (\<lambda>m. (mn_candidate_id m, mn_evidence_ref m)) (gc_id c, ma_ref a) (ds_mentions D)"
    by (auto simp: find_None_iff_all tbl_has_def)
  then show ?thesis
    by (auto simp: attach_mention_def None Let_def mention_of_def intro!: one_prim mention_new)
qed (simp add: attach_mention_def)

lemma record_mention_drive:
  assumes "disc_wf D"
  shows "drive b D (snd (record_candidate_mention ci mi a D))"
proof -
  have "drive b D D1" if "candidate_for ci a D = (x, D1)" for x D1
    using candidate_for_drive [OF assms, of b ci a] that by simp
  moreover have "drive b D1 D2" if "attach_mention mi a c D1 = (x, D2)" for x c D1 D2
    using attach_mention_drive [of b D1 mi a c] that by simp
  ultimately show ?thesis
    by (auto simp: record_candidate_mention_def split: prod.split sum.split intro: drive_trans)
qed

lemma scored_row_fields [simp]:
  "gc_id (scored_row fl ms c) = gc_id c" "gc_state (scored_row fl ms c) = gc_state c"
  "gc_reviewed_by (scored_row fl ms c) = gc_reviewed_by c" "gc_collector_id (scored_row fl ms c) = gc_collector_id c"
  "gc_group_id (scored_row fl ms c) = gc_group_id c" "candidate_edit c (scored_row fl ms c)"
  by (simp_all add: scored_row_def Let_def candidate_edit_def)

lemma score_drive:
  assumes "disc_wf D"
  shows "drive b D (snd (score_candidate fl i D))"
proof (cases "tbl_get gc_id i (ds_candidates D)")
  case None
  then show ?thesis by (simp add: score_candidate_def)
next
  case (Some c)
  let ?c = "scored_row fl (mentions_of i D) c"
  let ?D = "put_candidates (tbl_save gc_id ?c (ds_candidates D)) D"
  have d: "drive b D ?D" if "candidate_checks ?c"
    using touch_candidate_drive [OF assms Some, of ?c b] that by simp
  have "drive b D (snd (transition_candidate i QUEUED no_args ?D))" if "candidate_checks ?c"
    by (rule drive_trans [OF d [OF that] transition_drive [OF drive_wf [OF d [OF that] assms]]]) simp
  then show ?thesis using d by (auto simp: score_candidate_def Some Let_def split: option.split)
qed


end
