(* ===== verification/Discovery_Runs.thy ===== *)
theory Discovery_Runs
  imports Discovery_Invariant
begin

text \<open>
  Runs of the discovery loop: arbitrary sequences of the operations of \<open>Fleet\<close>, \<open>Memberships\<close>,
  \<open>Candidates\<close>, \<open>Join_Flow\<close>, \<open>Supervisor\<close> and \<open>Operator_Actions\<close>, failed ones included, and
  what holds over all of them.
\<close>

section \<open>The composed operations\<close>

lemma and_then_drive:
  assumes "disc_wf D" and "drive b D (snd r)"
    and "\<And>v D'. disc_wf D' \<Longrightarrow> drive b D' (snd (k v D'))"
  shows "drive b D (snd (and_then r k))"
  using and_then_prims [OF assms] .

lemma disc_wf_drives: "disc_wf D \<Longrightarrow> drive b D D' \<Longrightarrow> (disc_wf D' \<Longrightarrow> drive b D' D'') \<Longrightarrow> drive b D D''"
  using drive_trans drive_wf by blast

lemma return_drive [simp]: "drive b D (snd (Inr v, D))" "drive b D (snd (Inl e, D))"
  by simp_all

lemma graduate_loop_drive: "disc_wf D \<Longrightarrow> drive b D (snd (graduate_loop M now ps D))"
proof (induction ps arbitrary: D)
  case (Cons p ps)
  obtain i a where "p = (i, a)" by force
  then show ?case using Cons
    by (auto intro!: and_then_drive identity_op_prims emit_prims_disc)
qed simp

lemma graduate_due_drive: "disc_wf D \<Longrightarrow> drive b D (snd (graduate_due M ids w now D))"
  unfolding graduate_due_def Let_def by (intro and_then_drive graduate_loop_drive) simp_all

lemma open_joined_drive:
  assumes "disc_wf D" and "q \<notin> pre_approval"
  shows "drive b D (snd (open_joined_membership M F i q s k g kd ti sc now D))"
proof -
  have J: "JOINED \<notin> pre_approval" by (simp add: pre_approval_def)
  have after: "drive b D2 (snd (case open_membership (fi_membership F) k grp now Via_CANDIDATE (Some i) D2 of
            (Inl e, D3) \<Rightarrow>
              (case claim_candidate_transition i JOINED q None None D3 of
                 (Inl e', D4) \<Rightarrow> (Inl e', D4) | (Inr _, D4) \<Rightarrow> (Inl e, D4))
          | (Inr _, D3) \<Rightarrow>
              and_then (emit M (fi_audit F) ''eyenet.audit.candidate.joined'' ''candidate'' i
                   [(''group_id'', JUuid grp), (''scout_identity_id'', jopt JUuid sc)] now D3)
                (\<lambda>_ D4. (Inr (Some grp), D4))))" if "disc_wf D2" for D2 grp
  proof -
    obtain x D3 where o: "open_membership (fi_membership F) k grp now Via_CANDIDATE (Some i) D2 = (x, D3)" by force
    have d3: "drive b D2 D3" using open_membership_prims [of b D2] o by (metis snd_conv)
    then have w3: "disc_wf D3" using drive_wf that by blast
    show ?thesis
    proof (cases x)
      case (Inl e)
      have "drive b D3 (snd (claim_candidate_transition i JOINED q None None D3))" by (rule cas_drive [OF w3 J])
      then show ?thesis using o Inl d3
        by (auto simp: split: prod.split sum.split intro: drive_trans)
    next
      case (Inr m)
      have "drive b D3 (snd (and_then (emit M (fi_audit F) ''eyenet.audit.candidate.joined'' ''candidate'' i
                   [(''group_id'', JUuid grp), (''scout_identity_id'', jopt JUuid sc)] now D3)
                (\<lambda>_ D4. (Inr (Some grp), D4))))"
        by (intro and_then_drive w3 emit_prims_disc) simp
      then show ?thesis using o Inr drive_trans [OF d3] by simp
    qed
  qed
  show ?thesis
    unfolding open_joined_membership_def
    by (intro and_then_drive assms(1) upsert_group_prims cas_drive assms(2))
      (simp_all add: after)
qed

lemma finalize_drive: "disc_wf D \<Longrightarrow> drive b D (snd (finalize_joined M F cmd s k kd ti now D))"
  unfolding finalize_joined_def by (rule open_joined_drive) (simp_all add: pre_approval_def)

lemma confirm_drive: "disc_wf D \<Longrightarrow> drive b D (snd (confirm_requested_membership M F i kd ti sc gid now D))"
  unfolding confirm_requested_membership_def
  by (auto split: option.split intro!: and_then_drive open_joined_drive simp: pre_approval_def)

lemma fail_drive: "disc_wf D \<Longrightarrow> drive b D (snd (fail_candidate M a cmd r now D))"
  unfolding fail_candidate_def by (intro and_then_drive transition_drive emit_prims_disc) simp_all

lemma mark_requested_drive: "disc_wf D \<Longrightarrow> drive b D (snd (mark_join_requested M a cmd r now D))"
  unfolding mark_join_requested_def by (intro and_then_drive transition_drive emit_prims_disc) simp_all

lemma quarantine_scout_drive: "disc_wf D \<Longrightarrow> drive b D (snd (quarantine_scout M a i r c now D))"
  unfolding quarantine_scout_def
  by (intro and_then_drive identity_op_prims emit_prims_disc)
    (auto split: option.split intro!: and_then_drive transition_drive)

lemma quarantine_on_ban_drive:
  assumes "disc_wf D"
  shows "drive b D (snd (quarantine_on_ban M a1 a2 nm cmd r now D))"
proof -
  have "drive b D2 (snd (case release nm Idn_BURNED now D2 of (Inl (KeyError m), D3) \<Rightarrow> (Inr (), D3) | r \<Rightarrow> r))" for D2
  proof -
    obtain x D3 where "release nm Idn_BURNED now D2 = (x, D3)" by force
    moreover have "drive b D2 D3" using release_prims [of b D2 nm Idn_BURNED now] calculation by simp
    ultimately show ?thesis by (auto split: sum.split exn.split)
  qed
  then show ?thesis
    unfolding quarantine_on_ban_def
    by (intro and_then_drive assms fail_drive quarantine_scout_drive) simp_all
qed


section \<open>Operator actions\<close>

lemma as_conflict_snd [simp]: "snd (as_conflict r) = snd r"
  by (auto simp: as_conflict_def split: prod.split sum.split exn.split)

lemma review_drive:
  assumes "disc_wf D" and "q = APPROVED \<Longrightarrow> ta_collector a \<noteq> None \<and> \<not> b"
  shows "drive b D (snd (review_candidate V i q a ev p D))"
  unfolding review_candidate_def
  by (intro and_then_drive emit_prims_disc assms(1))
    (use assms in \<open>auto intro!: transition_drive simp: approving_args_def\<close>)

lemma review_op_drives:
  assumes "disc_wf D"
  shows "drive False D (snd (candidates_approve V i k D))" "drive b D (snd (candidates_reject V i r D))"
    "drive b D (snd (candidates_park V i r D))" "drive b D (snd (candidates_retry V i D))"
  by (auto simp: candidates_approve_def candidates_reject_def candidates_park_def candidates_retry_def
      intro!: review_drive assms)

lemma resolve_target_drive: "disc_wf D \<Longrightarrow> drive b D (snd (resolve_target V r D))"
  by (auto simp: resolve_target_def split: option.split intro!: ensure_candidate_drive)

lemma walk_args_approving: "approving_args (walk_args V k g APPROVED)"
  by (simp add: walk_args_def approving_args_def)

lemma forum_walk_drive: "disc_wf D \<Longrightarrow> drive False D (snd (forum_walk V i k g qs D))"
  by (induction qs arbitrary: D)
    (auto intro!: and_then_drive transition_drive simp: walk_args_approving)

lemma monitor_drive:
  assumes "disc_wf D"
  shows "drive False D (snd (monitor_forum_category V c k D))"
  unfolding monitor_forum_category_def
  by (intro and_then_drive assms upsert_group_prims emit_prims_disc)
    (auto split: option.split intro!: forum_walk_drive and_then_drive open_membership_prims)

lemma groups_join_drive:
  assumes "disc_wf D"
  shows "drive False D (snd (groups_join V r D))"
  unfolding groups_join_def
  by (auto intro!: and_then_drive assms resolve_target_drive monitor_drive transition_drive emit_prims_disc
      simp: approving_args_def)

lemma leave_loop_drive: "drive b D (snd (snd (leave_loop h ok g r now ms (B, D))))"
proof (induction ms arbitrary: B D)
  case (Cons m ms)
  obtain x D1 where c: "close_membership (mb_collector_id m) g now r D = (x, D1)" by force
  have "drive b D D1" using close_membership_prims [of b D] c by (metis snd_conv)
  then show ?case using c Cons drive_trans
    by (auto split: sum.split option.split)
qed simp

lemma groups_leave_drive:
  assumes "disc_wf (snd S)"
  shows "drive b (snd S) (snd (snd (groups_leave V h ok i r S)))"
proof -
  have loop: "drive b (snd S) D1" if "leave_loop h ok g r now ms S = (x, (B1, D1))" for g now ms x B1 D1
    using leave_loop_drive [of b "snd S" h ok g r now ms "fst S"] that by simp
  have tail: "drive b (snd S) (snd (and_then (transition_candidate i PARKED a D1)
         (\<lambda>_ D2. emit_as M u ai ev k i p t D2)))" if "drive b (snd S) D1" for D1 a M u ai ev k p t
    by (rule drive_trans [OF that]) (intro and_then_drive transition_drive emit_prims_disc drive_wf [OF that assms], simp_all)
  show ?thesis
    unfolding groups_leave_def and_then_def [of "leave_loop _ _ _ _ _ _ _"]
    by (auto split: option.split prod.split sum.split dest!: loop) (metis snd_conv tail)+
qed

lemma scan_loop_drive: "disc_wf D \<Longrightarrow> drive b D (snd (scan_loop s now gs D))"
  by (induction gs arbitrary: D) (auto intro!: and_then_drive ensure_candidate_drive)

lemma scan_drive: "disc_wf D \<Longrightarrow> drive b D (snd (scan_visible_groups s now gs D))"
  unfolding scan_visible_groups_def by (intro and_then_drive scan_loop_drive) simp_all

lemma extract_drive: "disc_wf D \<Longrightarrow> drive b D (snd (extract_loop fl cx rs n D))"
  by (induction rs arbitrary: n D) (auto intro!: and_then_drive record_mention_drive score_drive)

section \<open>The supervisor\<close>

lemma and_then_sup:
  assumes "disc_wf (su_disc S)" and "drive b (su_disc S) (su_disc (snd r))"
    and "\<And>v S'. disc_wf (su_disc S') \<Longrightarrow> drive b (su_disc S') (su_disc (snd (k v S')))"
  shows "drive b (su_disc S) (su_disc (snd (and_then r k)))"
proof (cases r)
  case (Pair x S')
  then have "disc_wf (su_disc S')" using drive_wf assms(1,2) by simp
  then show ?thesis using assms(2,3) Pair by (auto simp: and_then_def split: sum.split intro: drive_trans)
qed

lemma on_disc_snd [simp]: "su_disc (snd (on_disc r S)) = snd r"
  by (simp add: on_disc_def split: prod.split)

lemma set_observed_drive: "disc_wf D \<Longrightarrow> drive b D (snd (set_observed V c q n et em be D))"
  by (auto simp: set_observed_def intro!: and_then_drive collector_op_prims emit_prims_disc)

lemma heartbeat_drive: "disc_wf D \<Longrightarrow> drive b D (snd (heartbeat V c D))"
  by (auto simp: heartbeat_def intro!: and_then_drive collector_op_prims set_observed_drive)

lemma spawn_drive: "disc_wf D \<Longrightarrow> drive b D (snd (spawn V c D))"
  by (auto simp: spawn_def split: option.split intro!: and_then_drive identity_op_prims)

lemma crash_drive: "disc_wf (su_disc S) \<Longrightarrow> drive b (su_disc S) (su_disc (snd (crash V c et em S)))"
  by (auto simp: crash_def Let_def split: sum.split intro!: set_observed_drive)

lemma start_drive:
  assumes "disc_wf (su_disc S)"
  shows "drive b (su_disc S) (su_disc (snd (start_collector V c S)))"
proof -
  obtain x D where s: "spawn V c (su_disc S) = (x, D)" by force
  have d: "drive b (su_disc S) D" using spawn_drive [OF assms, of b V c] s by simp
  note w = drive_wf [OF d assms]
  have "drive b D (su_disc (snd (crash V c et em (S\<lparr>su_disc := D\<rparr>))))" for et em
    using crash_drive [of "S\<lparr>su_disc := D\<rparr>" b] w by simp
  then show ?thesis
    unfolding start_collector_def s
    by (auto simp: d split: sum.split bool.split intro!: drive_trans [OF d] set_observed_drive w)
qed

lemma reconcile_one_drive:
  assumes "disc_wf (su_disc S)"
  shows "drive b (su_disc S) (su_disc (snd (reconcile_one V c S)))"
proof -
  have "drive b (su_disc S) (su_disc (snd
      (if P then crash V c et em T
       else if Q then on_disc (set_observed V c Obs_STOPPED None None None None (su_disc T)) U
       else if R then on_disc (heartbeat V c (su_disc T)) T
       else if X then on_disc (set_observed V c Obs_COOLING None None None None (su_disc T)) T
       else start_collector V c W)))" if "su_disc T = su_disc S" "su_disc W = su_disc S" for P Q R X et em T U W
    using that crash_drive [of T b V c et em] start_drive [of W b V c]
    by (simp add: assms set_observed_drive heartbeat_drive)
  then show ?thesis unfolding reconcile_one_def Let_def by simp
qed


lemma reconcile_loop_drive:
  "disc_wf (su_disc S) \<Longrightarrow> drive b (su_disc S) (su_disc (snd (reconcile_loop V cs S)))"
  by (induction cs arbitrary: S) (auto intro!: and_then_sup reconcile_one_drive)

lemma publish_disc [simp]: "su_disc (snd (publish V m S)) = su_disc S"
  by (simp add: publish_def)

lemma publish_join_disc [simp]: "su_disc (snd (publish_join_command V r cmd S)) = su_disc S"
  by (simp add: publish_join_command_def split: option.split)

lemma mark_joining_drive: "disc_wf D \<Longrightarrow> drive b D (snd (mark_joining V c p D))"
  unfolding mark_joining_def by (intro and_then_drive transition_drive emit_prims_disc) simp_all

lemma operator_join_drive:
  "disc_wf (su_disc S) \<Longrightarrow> drive b (su_disc S) (su_disc (snd (dispatch_operator_join V c k S)))"
  unfolding dispatch_operator_join_def Let_def
  by (auto split: option.split intro!: and_then_sup mark_joining_drive)

lemma discovery_join_drive:
  assumes "disc_wf D"
  shows "drive b D (su_disc (snd (and_then (on_disc (mark_joining V c p D) (S\<lparr>su_disc := D\<rparr>))
           (\<lambda>_ S1. publish_join_command V r cmd S1))))"
  using and_then_sup [of "S\<lparr>su_disc := D\<rparr>" b "on_disc (mark_joining V c p D) (S\<lparr>su_disc := D\<rparr>)"
      "\<lambda>_ S1. publish_join_command V r cmd S1"] assms
  by (simp add: mark_joining_drive)

lemma dispatch_candidate_drive:
  assumes "disc_wf (su_disc S)"
  shows "drive b (su_disc S) (su_disc (snd (dispatch_candidate V st c S)))"
proof -
  obtain x D where l: "lease_scout (gc_source_id c) (su_disc S) = (x, D)" by force
  have d: "drive b (su_disc S) D" using lease_prims [OF assms, of b "gc_source_id c"] l by simp
  note w = drive_wf [OF d assms]
  have join: "drive b (su_disc S) (su_disc (snd (and_then (on_disc (mark_joining V c p D) (S\<lparr>su_disc := D\<rparr>))
           (\<lambda>_ S1. publish_join_command V r cmd S1))))" for p r cmd
    by (rule drive_trans [OF d discovery_join_drive [OF w]])
  show ?thesis
    unfolding dispatch_candidate_def Let_def l
    by (auto simp: join d operator_join_drive [OF assms] split: option.split sum.split)
qed

lemma dispatch_loop_drive:
  "disc_wf (su_disc S) \<Longrightarrow> drive b (su_disc S) (su_disc (snd (dispatch_loop V st cs S)))"
  by (induction cs arbitrary: S) (auto intro!: and_then_sup dispatch_candidate_drive)

lemma backfill_one_drive:
  "disc_wf (su_disc S) \<Longrightarrow> drive b (su_disc S) (su_disc (snd (backfill_one V c S)))"
  unfolding backfill_one_def
  by (auto split: option.split intro!: and_then_sup collector_op_prims)

lemma backfill_loop_drive:
  "disc_wf (su_disc S) \<Longrightarrow> drive b (su_disc S) (su_disc (snd (backfill_loop V cs S)))"
  by (induction cs arbitrary: S) (auto intro!: and_then_sup backfill_one_drive)

lemma tick_drive:
  assumes "disc_wf (su_disc S)"
  shows "drive b (su_disc S) (su_disc (snd (tick V S)))"
  unfolding tick_def reconcile_collectors_def dispatch_approved_def dispatch_backfills_def Let_def
  by (intro and_then_sup assms reconcile_loop_drive dispatch_loop_drive backfill_loop_drive)

section \<open>Runs\<close>

text \<open>
  One event of the system, with its environment and arguments: an operation of any component, or
  the exit of a child process. The outcome of an operation is dropped, its effect kept.
\<close>

datatype disc_op =
    Identity_create uuid string uuid string identity_role identity_state "string option" int "string option" "(string \<times> jval) list"
  | Identity_role uuid identity_role
  | Identity_state uuid identity_state "time option"
  | Identity_delete uuid
  | Identity_freeze "uuid option"
  | Pool_claim_write identity_row time
  | Pool_release string identity_state time
  | Collector_create uuid string source_kind uuid uuid "(string \<times> jval) list" time uuid "string option"
  | Collector_update uuid "(string \<times> jval) list option" "string option" "string option"
  | Collector_bind uuid uuid
  | Collector_desire uuid collector_desired_state
  | Collector_observe uuid collector_observed_state "time option" "string option" "string option" "int option"
  | Collector_delete uuid
  | Group_upsert uuid uuid string group_kind "string option" time
  | Member_close uuid uuid time string
  | Message_seen uuid uuid time
  | Artifact_add access_row
  | Artifact_validated uuid string time
  | Scan uuid time "(uuid \<times> visible_group) list"
  | Extract "rat \<Rightarrow> rat" message_context "(uuid \<times> uuid \<times> reference) list"
  | Approve op_env uuid uuid
  | Reject op_env uuid string
  | Park op_env uuid string
  | Retry op_env uuid
  | Join op_env join_request
  | Leave op_env "bytes \<Rightarrow> string" "nat \<Rightarrow> bool" uuid string
  | Graduate emit_env "nat \<Rightarrow> uuid" int time
  | Joined emit_env fresh_ids join_command uuid uuid group_kind "string option" time
  | Confirmed emit_env fresh_ids uuid "group_kind option" "string option" "uuid option" "string option" time
  | Join_failed emit_env uuid join_command string time
  | Join_requested emit_env uuid join_command string time
  | Banned emit_env uuid uuid string join_command string time
  | Tick sup_env
  | Child_exit uuid int

definition on_store :: "(disc_store \<Rightarrow> 'a \<times> disc_store) \<Rightarrow> sup_store \<Rightarrow> sup_store" where
  "on_store f S = S\<lparr>su_disc := snd (f (su_disc S))\<rparr>"

primrec disc_exec :: "disc_op \<Rightarrow> sup_store \<Rightarrow> sup_store" where
  "disc_exec (Identity_create n nm s sp ro st px cd nt cf) S = on_store (create_identity n nm s sp ro st px cd nt cf) S"
| "disc_exec (Identity_role i r) S = on_store (set_identity_role i r) S"
| "disc_exec (Identity_state i st u) S = on_store (set_identity_state i st u) S"
| "disc_exec (Identity_delete i) S = on_store (delete_identity i) S"
| "disc_exec (Identity_freeze s) S = on_store (freeze_all_identities s) S"
| "disc_exec (Pool_claim_write r now) S = on_store (claim_write r now) S"
| "disc_exec (Pool_release nm st now) S = on_store (release nm st now) S"
| "disc_exec (Collector_create n nm kd s i cf ca cb nt) S = on_store (create_collector n nm kd s i cf ca cb nt) S"
| "disc_exec (Collector_update i c n t) S = on_store (update_collector i c n t) S"
| "disc_exec (Collector_bind i s) S = on_store (bind_collector_source i s) S"
| "disc_exec (Collector_desire i d) S = on_store (set_collector_desired_state i d) S"
| "disc_exec (Collector_observe i os be et em re) S = on_store (record_collector_observed_state i os be et em re) S"
| "disc_exec (Collector_delete i) S = on_store (delete_collector i) S"
| "disc_exec (Group_upsert n s g k t now) S = on_store (upsert_group n s g k t now) S"
| "disc_exec (Member_close c g t w) S = on_store (close_membership c g t w) S"
| "disc_exec (Message_seen m c t) S = on_store (record_observation m c t) S"
| "disc_exec (Artifact_add a) S = on_store (add_group_access_artifact a) S"
| "disc_exec (Artifact_validated i e t) S = on_store (\<lambda>D. ((), record_artifact_validation i e t D)) S"
| "disc_exec (Scan s now gs) S = on_store (scan_visible_groups s now gs) S"
| "disc_exec (Extract fl cx rs) S = on_store (extract_loop fl cx rs 0) S"
| "disc_exec (Approve V i k) S = on_store (candidates_approve V i k) S"
| "disc_exec (Reject V i r) S = on_store (candidates_reject V i r) S"
| "disc_exec (Park V i r) S = on_store (candidates_park V i r) S"
| "disc_exec (Retry V i) S = on_store (candidates_retry V i) S"
| "disc_exec (Join V r) S = on_store (groups_join V r) S"
| "disc_exec (Leave V h ok i r) S = (case groups_leave V h ok i r (su_bus S, su_disc S) of
     (_, (B, D)) \<Rightarrow> S\<lparr>su_bus := B, su_disc := D\<rparr>)"
| "disc_exec (Graduate M ids w now) S = on_store (graduate_due M ids w now) S"
| "disc_exec (Joined M F cmd s k kd ti now) S = on_store (finalize_joined M F cmd s k kd ti now) S"
| "disc_exec (Confirmed M F i kd ti sc gid now) S = on_store (confirm_requested_membership M F i kd ti sc gid now) S"
| "disc_exec (Join_failed M a cmd r now) S = on_store (fail_candidate M a cmd r now) S"
| "disc_exec (Join_requested M a cmd r now) S = on_store (mark_join_requested M a cmd r now) S"
| "disc_exec (Banned M a1 a2 nm cmd r now) S = on_store (quarantine_on_ban M a1 a2 nm cmd r now) S"
| "disc_exec (Tick V) S = snd (tick V S)"
| "disc_exec (Child_exit k code) S = S\<lparr>su_procs := (su_procs S)(k := Some (Some code))\<rparr>"

fun disc_run :: "disc_op list \<Rightarrow> sup_store \<Rightarrow> sup_store" where
  "disc_run [] S = S"
| "disc_run (op # ops) S = disc_run ops (disc_exec op S)"

definition operator_decides :: "disc_op \<Rightarrow> bool" where
  "operator_decides op \<longleftrightarrow> (case op of Approve V i k \<Rightarrow> True | Join V r \<Rightarrow> True | _ \<Rightarrow> False)"

lemma disc_exec_drive:
  assumes "disc_wf (su_disc S)"
  shows "drive (\<not> operator_decides op) (su_disc S) (su_disc (disc_exec op S))"
proof (cases op)
  case (Leave V h ok i r)
  have "drive True (su_disc S) (snd (snd (groups_leave V h ok i r (su_bus S, su_disc S))))"
    using groups_leave_drive [of "(su_bus S, su_disc S)" True] assms by simp
  then show ?thesis using Leave by (auto simp: operator_decides_def split: prod.split)
next
  case (Tick V)
  then show ?thesis using tick_drive [OF assms] by (simp add: operator_decides_def)
qed (simp_all add: operator_decides_def on_store_def create_identity_prims identity_op_prims delete_identity_prims freeze_prims
    claim_write_prims release_prims collector_op_prims upsert_group_prims close_membership_prims
    record_observation_prims access_prims scan_drive extract_drive review_op_drives groups_join_drive
    graduate_due_drive finalize_drive confirm_drive fail_drive mark_requested_drive quarantine_on_ban_drive assms)

lemma disc_run_wf: "disc_wf (su_disc S) \<Longrightarrow> disc_wf (su_disc (disc_run ops S))"
  by (induction ops arbitrary: S) (auto dest: drive_wf [OF disc_exec_drive])

lemma disc_run_append [simp]: "disc_run (xs @ ys) S = disc_run ys (disc_run xs S)"
  by (induction xs arbitrary: S) auto

end
