(* ===== verification/Discovery_Properties.thy ===== *)
theory Discovery_Properties
  imports Discovery_Runs
begin

text \<open>
  What the discovery loop guarantees: the invariant over its runs, no join without an operator,
  the confirmed-join writeback against an atomic specification, the compare-and-swap claim, the
  score, the eligibility verdict and the crash backoff.
\<close>

section \<open>Runs\<close>

lemma first_crossing:
  assumes "P (disc_run [] S)" and "\<not> P (disc_run ops S)"
  shows "\<exists>pre op post. ops = pre @ op # post \<and> P (disc_run pre S) \<and> \<not> P (disc_run (pre @ [op]) S)"
  using assms
proof (induction ops rule: rev_induct)
  case (snoc op ops)
  show ?case
  proof (cases "P (disc_run ops S)")
    case True
    then show ?thesis using snoc.prems by blast
  next
    case False
    then obtain pre op' post where "ops = pre @ op' # post" "P (disc_run pre S)" "\<not> P (disc_run (pre @ [op']) S)"
      using snoc by blast
    then show ?thesis by (intro exI [of _ pre] exI [of _ op'] exI [of _ "post @ [op]"]) simp
  qed
qed simp

lemma unapproved_crossing:
  assumes "disc_wf (su_disc S)" and "unapproved i (su_disc S)" and "\<not> unapproved i (su_disc (disc_run ops S))"
  shows "\<exists>pre op post. ops = pre @ op # post \<and> operator_decides op
     \<and> unapproved i (su_disc (disc_run pre S)) \<and> \<not> unapproved i (su_disc (disc_run (pre @ [op]) S))"
proof -
  obtain pre op post where split: "ops = pre @ op # post" "unapproved i (su_disc (disc_run pre S))"
    "\<not> unapproved i (su_disc (disc_run (pre @ [op]) S))"
    using first_crossing [of "\<lambda>S. unapproved i (su_disc S)" S ops] assms(2,3) by auto
  moreover have "operator_decides op"
    using split(2,3) disc_exec_drive [OF disc_run_wf [OF assms(1)], of op pre] by (auto simp: drive_def)
  ultimately show ?thesis by blast
qed

section \<open>The join as one atomic step\<close>

text \<open>The part of the store a join is about: candidate states, active memberships, audit rows.\<close>

record join_view =
  jv_state :: "uuid \<Rightarrow> candidate_state option"
  jv_members :: "(uuid \<times> uuid \<times> uuid option) list"
  jv_log :: "audit_row list"

definition join_abs :: "disc_store \<Rightarrow> join_view" where
  "join_abs D = \<lparr>jv_state = (\<lambda>i. map_option gc_state (tbl_get gc_id i (ds_candidates D))),
     jv_members = map (\<lambda>m. (mb_collector_id m, mb_group_id m, mb_candidate_id m))
                    (filter (\<lambda>m. mb_left_at m = None) (ds_memberships D)),
     jv_log = map (\<lambda>t. al_row (at_log t)) (audit_log (disc_audit D))\<rparr>"

definition atomic_join :: "uuid \<Rightarrow> uuid \<Rightarrow> uuid \<Rightarrow> audit_row list \<Rightarrow> join_view \<Rightarrow> join_view" where
  "atomic_join i k g rows v = v\<lparr>jv_state := (jv_state v)(i := Some JOINED),
     jv_members := jv_members v @ [(k, g, Some i)], jv_log := jv_log v @ rows\<rparr>"

definition joined_audit_row :: "emit_env \<Rightarrow> uuid \<Rightarrow> uuid \<Rightarrow> uuid \<Rightarrow> uuid option \<Rightarrow> time \<Rightarrow> audit_row" where
  "joined_audit_row M a i g sc now = build_audit_row a ''eyenet.audit.candidate.joined'' None ''candidate'' (Some i)
     [(''group_id'', JUuid g), (''scout_identity_id'', jopt JUuid sc)] now (em_ctx M)"

lemma put_audit_same [simp]: "put_audit (disc_audit D) D = D"
  by (simp add: put_audit_def disc_audit_def)

lemma disc_audit_put [simp]: "disc_audit (put_audit A D) = A"
  by (simp add: put_audit_def disc_audit_def)

lemma emit_outcome:
  "(\<exists>e. emit_as M u a ev k s p now D = (Inl e, D))
   \<or> (\<exists>D'. emit_as M u a ev k s p now D = (Inr (), D')
        \<and> join_abs D' = (join_abs D)\<lparr>jv_log := jv_log (join_abs D) @ [build_audit_row a ev u k (Some s) p now (em_ctx M)]\<rparr>)"
  by (cases rule: append_audit_cases [of "em_env M" "build_audit_row a ev u k (Some s) p now (em_ctx M)" "disc_audit D"])
    (simp_all add: emit_as_def join_abs_def chain_next_def Let_def)

lemma disc_audit_fields [simp]:
  "disc_audit (D\<lparr>ds_groups := x1\<rparr>) = disc_audit D" "disc_audit (D\<lparr>ds_memberships := x2\<rparr>) = disc_audit D"
  "disc_audit (put_candidates x3 D) = disc_audit D"
  by (simp_all add: disc_audit_def put_candidates_def)

lemma upsert_group_view: "join_abs (snd (upsert_group n s g k t now D)) = join_abs D"
  by (auto simp: upsert_group_def Let_def join_abs_def split: option.split)

lemma open_membership_outcome:
  "(\<exists>e. open_membership n c g t v i D = (Inl e, D))
   \<or> (\<exists>m D'. open_membership n c g t v i D = (Inr m, D') \<and> ds_candidates D' = ds_candidates D
        \<and> join_abs D' = (join_abs D)\<lparr>jv_members := jv_members (join_abs D) @ [(c, g, i)]\<rparr>)"
  by (auto simp: open_membership_def Let_def join_abs_def split: sum.split option.split)

lemma save_candidate_view:
  assumes "tbl_get gc_id i (ds_candidates D) = Some c" and "gc_id c' = gc_id c"
  shows "join_abs (put_candidates (tbl_save gc_id c' (ds_candidates D)) D)
     = (join_abs D)\<lparr>jv_state := (jv_state (join_abs D))(i := Some (gc_state c'))\<rparr>"
  using assms tbl_get_SomeD [OF assms(1)] tbl_get_Some_has [OF assms(1)]
  by (auto simp: join_abs_def tbl_get_tbl_save)

lemma join_view_roundtrip:
  "jv_state v i = Some q \<Longrightarrow> v\<lparr>jv_state := (jv_state v)(i := Some q)\<rparr> = v"
  by (cases v) (simp add: fun_upd_idem)

lemma join_view_state: "jv_state (join_abs D) i = map_option gc_state (tbl_get gc_id i (ds_candidates D))"
  by (simp add: join_abs_def)

text \<open>What follows the won compare-and-swap.\<close>

lemma after_claim_view:
  assumes "disc_wf D2" and "jv_state (join_abs D2) i = Some JOINED"
    and "R = (case open_membership n k g now Via_CANDIDATE (Some i) D2 of
            (Inl e, D3) \<Rightarrow>
              (case claim_candidate_transition i JOINED q None None D3 of
                 (Inl e', D4) \<Rightarrow> (Inl e', D4) | (Inr _, D4) \<Rightarrow> (Inl e, D4))
          | (Inr _, D3) \<Rightarrow>
              and_then (emit_as M u a ev kd s p now D3) (\<lambda>_ D4. (Inr (Some g), D4)))"
  shows "(\<exists>e D'. R = (Inl e, D') \<and> join_abs D' = (join_abs D2)\<lparr>jv_state := (jv_state (join_abs D2))(i := Some q)\<rparr>)
    \<or> (\<exists>e D'. R = (Inl e, D') \<and> join_abs D' = (join_abs D2)\<lparr>jv_members := jv_members (join_abs D2) @ [(k, g, Some i)]\<rparr>)
    \<or> (\<exists>D'. R = (Inr (Some g), D') \<and> join_abs D' = (join_abs D2)\<lparr>jv_members := jv_members (join_abs D2) @ [(k, g, Some i)],
         jv_log := jv_log (join_abs D2) @ [build_audit_row a ev u kd (Some s) p now (em_ctx M)]\<rparr>)"
  using open_membership_outcome [of n k g now Via_CANDIDATE "Some i" D2]
proof (elim disjE exE conjE)
  fix e assume o: "open_membership n k g now Via_CANDIDATE (Some i) D2 = (Inl e, D2)"
  show ?thesis
    using assms(1)
  proof (cases rule: cas_cases [of D2 i JOINED q None None])
    case (failed e')
    then show ?thesis by (simp add: fk_opt_def)
  next
    case lost
    then show ?thesis using assms(2) by (auto simp: join_view_state)
  next
    case (won c)
    have "join_abs (put_candidates (tbl_save gc_id (claim_row q None None c) (ds_candidates D2)) D2)
       = (join_abs D2)\<lparr>jv_state := (jv_state (join_abs D2))(i := Some q)\<rparr>"
      using save_candidate_view [OF won(1), of "claim_row q None None c"] by simp
    then show ?thesis using o won assms(3) by simp
  qed
next
  fix m D3
  assume o: "open_membership n k g now Via_CANDIDATE (Some i) D2 = (Inr m, D3)"
    and v: "join_abs D3 = (join_abs D2)\<lparr>jv_members := jv_members (join_abs D2) @ [(k, g, Some i)]\<rparr>"
  show ?thesis
    using emit_outcome [of M u a ev kd s p now D3] o v assms(3) by (auto simp: and_then_def)
qed

lemma open_joined_view:
  assumes "disc_wf D" and "q \<in> {JOINING, REQUESTED}"
  shows "case open_joined_membership M F i q s k gid kd ti sc now D of
      (Inr (Some g), D') \<Rightarrow> jv_state (join_abs D) i = Some q
        \<and> join_abs D' = atomic_join i k g [joined_audit_row M (fi_audit F) i g sc now] (join_abs D)
    | (Inr None, D') \<Rightarrow> jv_state (join_abs D) i \<noteq> Some q \<and> join_abs D' = join_abs D
    | (Inl e, D') \<Rightarrow> join_abs D' = join_abs D
        \<or> (jv_state (join_abs D) i = Some q \<and> (\<exists>g. join_abs D' = atomic_join i k g [] (join_abs D)))"
proof -
  obtain x D1 where u: "upsert_group (fi_group F) s gid kd ti now D = (x, D1)" by force
  have v1: "join_abs D1 = join_abs D"
    using upsert_group_view [of "fi_group F" s gid kd ti now D] u by simp
  have w1: "disc_wf D1"
    using drive_wf [OF upsert_group_prims [OF assms(1), of True] assms(1)] u by (metis snd_conv)
  show ?thesis
  proof (cases x)
    case (Inl e)
    then show ?thesis by (simp add: open_joined_membership_def u and_then_def v1)
  next
    case (Inr g)
    show ?thesis
      using w1
    proof (cases rule: cas_cases [of D1 i q JOINED "Some g" None])
      case (failed e)
      then show ?thesis by (simp add: open_joined_membership_def u Inr and_then_def v1)
    next
      case lost
      then show ?thesis using v1 join_view_state [of D1 i]
        by (auto simp: open_joined_membership_def u Inr and_then_def)
    next
      case (won c)
      let ?D = "put_candidates (tbl_save gc_id (claim_row JOINED (Some g) None c) (ds_candidates D1)) D1"
      have q: "jv_state (join_abs D) i = Some q" using v1 won join_view_state [of D1 i] by simp
      have v: "join_abs ?D = (join_abs D)\<lparr>jv_state := (jv_state (join_abs D))(i := Some JOINED)\<rparr>"
        using save_candidate_view [OF won(1), of "claim_row JOINED (Some g) None c"] v1 by simp
      have w: "disc_wf ?D"
        using drive_wf [OF cas_drive [OF w1, of q True i JOINED "Some g" None] w1] won assms(2)
        by (auto simp: pre_approval_def)
      have undo: "(join_abs D)\<lparr>jv_state := (jv_state (join_abs D))(i := Some q)\<rparr> = join_abs D"
        by (rule join_view_roundtrip [OF q])
      show ?thesis
        using after_claim_view [OF w, where i = i and q = q and n = "fi_membership F" and k = k and g = g and now = now
            and M = M and u = None and a = "fi_audit F" and ev = "''eyenet.audit.candidate.joined''"
            and kd = "''candidate''" and s = i and p = "[(''group_id'', JUuid g), (''scout_identity_id'', jopt JUuid sc)]",
            OF _ refl] v q undo
        by (auto simp: open_joined_membership_def u Inr and_then_def [of "(_, _)"] won(4) atomic_join_def
            joined_audit_row_def) blast
    qed
  qed
qed


section \<open>One membership per candidate\<close>

text \<open>The two callbacks that confirm a join of the candidate \<open>i\<close>.\<close>

definition confirms :: "uuid \<Rightarrow> disc_op \<Rightarrow> bool" where
  "confirms i op \<longleftrightarrow> (case op of Joined M F cmd s k kd ti now \<Rightarrow> jc_candidate cmd = i
     | Confirmed M F j kd ti sc gid now \<Rightarrow> j = i | _ \<Rightarrow> False)"

definition members_for :: "uuid \<Rightarrow> disc_store \<Rightarrow> nat" where
  "members_for i D = length (filter (\<lambda>x. snd (snd x) = Some i) (jv_members (join_abs D)))"

definition settled :: "uuid \<Rightarrow> nat \<Rightarrow> disc_store \<Rightarrow> bool" where
  "settled i n D \<longleftrightarrow> members_for i D = n \<or> (members_for i D = Suc n \<and> jv_state (join_abs D) i = Some JOINED)"

lemma open_joined_settled:
  assumes "disc_wf D" and "q \<in> {JOINING, REQUESTED}" and "settled i n D"
  shows "settled i n (snd (open_joined_membership M F i q s k gid kd ti sc now D))"
proof -
  obtain x D' where r: "open_joined_membership M F i q s k gid kd ti sc now D = (x, D')" by force
  show ?thesis
    using open_joined_view [OF assms(1,2), where M = M and F = F and i = i and s = s and k = k and gid = gid and kd = kd
        and ti = ti and sc = sc and now = now] assms(2,3) r
    by (auto simp: settled_def members_for_def atomic_join_def split: sum.splits option.splits)
qed

lemma confirms_settled:
  assumes "disc_wf (su_disc S)" and "confirms i op" and "settled i n (su_disc S)"
  shows "settled i n (su_disc (disc_exec op S))"
  using assms(2)
proof (cases op)
  case (Joined M F cmd s k kd ti now)
  then show ?thesis
    using open_joined_settled [OF assms(1) _ assms(3), of JOINING] assms(2)
    by (simp add: confirms_def on_store_def finalize_joined_def)
next
  case (Confirmed M F j kd ti sc gid now)
  have snd: "snd (and_then r (\<lambda>g D1. (Inr (f g), D1))) = snd r" for r :: "(uuid option, disc_store) outcome" and f :: "uuid option \<Rightarrow> bool"
    by (auto simp: and_then_def split: prod.split sum.split)
  show ?thesis
    using open_joined_settled [OF assms(1) _ assms(3), of REQUESTED] assms(2,3) Confirmed
    by (auto simp: confirms_def on_store_def confirm_requested_membership_def snd split: option.split)
qed (simp_all add: confirms_def)

lemma run_settled:
  "disc_wf (su_disc S) \<Longrightarrow> list_all (confirms i) ops \<Longrightarrow> settled i n (su_disc S) \<Longrightarrow> settled i n (su_disc (disc_run ops S))"
  by (induction ops arbitrary: S) (auto intro!: confirms_settled dest: drive_wf [OF disc_exec_drive])

section \<open>Score\<close>

lemma score_value_bounds:
  assumes "mono fl" and "fl 0 = 0"
  shows "0 \<le> score_value fl g a" "score_value fl g a \<le> 1"
proof -
  have nn: "0 \<le> fl x" if "0 \<le> x" for x using monoD [OF assms(1) that] assms(2) by simp
  show "0 \<le> score_value fl g a"
    by (simp add: score_value_def nn W_GROUPS_def W_ACTORS_def add_nonneg_nonneg)
  show "score_value fl g a \<le> 1" by (simp add: score_value_def)
qed

lemma score_value_mono:
  assumes "mono fl" and "g \<le> g'" and "a \<le> a'"
  shows "score_value fl g a \<le> score_value fl g' a'"
proof -
  have w: "fl (W_GROUPS * of_nat g) \<le> fl (W_GROUPS * of_nat g')" "fl (W_ACTORS * of_nat a) \<le> fl (W_ACTORS * of_nat a')"
    using assms(2,3) by (auto intro!: monoD [OF assms(1)] mult_left_mono simp: W_GROUPS_def W_ACTORS_def)
  have "fl (fl (W_GROUPS * of_nat g) + fl (W_ACTORS * of_nat a))
    \<le> fl (fl (W_GROUPS * of_nat g') + fl (W_ACTORS * of_nat a'))"
    by (rule monoD [OF assms(1) add_mono [OF w]])
  then show ?thesis by (simp add: score_value_def min.coboundedI2 min_le_iff_disj)
qed

text \<open>Whether the policy of the resolving case queues a candidate of score \<open>s\<close>.\<close>

definition auto_queues :: "uuid \<Rightarrow> rat \<Rightarrow> disc_store \<Rightarrow> bool" where
  "auto_queues i s D \<longleftrightarrow> (case resolve_candidate_case i D of None \<Rightarrow> False
     | Some ca \<Rightarrow> (case ca_score_threshold ca of None \<Rightarrow> False | Some t \<Rightarrow> t \<le> s))"

lemma resolve_put_candidates [simp]: "resolve_candidate_case i (put_candidates x D) = resolve_candidate_case i D"
  by (simp add: resolve_candidate_case_def mentions_of_def put_candidates_def)

lemma score_outcome:
  assumes "mono fl" and "fl 0 = 0" and "disc_wf D" and "get_candidate i D = Some c"
  shows "\<exists>c' D'. score_candidate fl i D = (Inr c', D')
     \<and> gc_score c' = score_value fl (distinct_count mn_group_id (mentions_of i D)) (distinct_count mn_actor_id (mentions_of i D))
     \<and> gc_state c' = (if gc_state c = DISCOVERED \<and> auto_queues i (gc_score c') D then QUEUED else gc_state c)"
proof -
  have get: "tbl_get gc_id i (ds_candidates D) = Some c" using assms(4) by (simp add: get_candidate_def)
  note c = candidate_get_ok [OF assms(3) get]
  let ?c = "scored_row fl (mentions_of i D) c"
  let ?D = "put_candidates (tbl_save gc_id ?c (ds_candidates D)) D"
  have ok: "candidate_checks ?c"
    using score_value_bounds [OF assms(1,2)] by (simp add: candidate_checks_def scored_row_def Let_def)
  have sc: "gc_score ?c = score_value fl (distinct_count mn_group_id (mentions_of i D)) (distinct_count mn_actor_id (mentions_of i D))"
    by (simp add: scored_row_def Let_def)
  have here: "tbl_get gc_id i (ds_candidates ?D) = Some ?c"
    using get c(3) tbl_get_Some_has [OF get] by (simp add: tbl_get_tbl_save)
  have fk: "candidate_fks (transition_row QUEUED no_args ?c) ?D"
    using c(2) by (simp add: candidate_fks_def transition_row_def no_args_def set_opt_def scored_row_def Let_def)
  have moved: "\<exists>D'. transition_candidate i QUEUED no_args ?D = (Inr (transition_row QUEUED no_args ?c), D')"
    if "gc_state c = DISCOVERED"
    using here fk that by (simp add: transition_candidate_def Let_def)
  have keep: "gc_score (transition_row QUEUED no_args ?c) = gc_score ?c" by (simp add: transition_row_def)
  show ?thesis
  proof (cases "gc_state c = DISCOVERED \<and> auto_queues i (gc_score ?c) D")
    case True
    then obtain D' where t: "transition_candidate i QUEUED no_args ?D = (Inr (transition_row QUEUED no_args ?c), D')"
      using moved by blast
    have "score_candidate fl i D = (Inr (transition_row QUEUED no_args ?c), D')"
      using True t ok by (auto simp: score_candidate_def get Let_def auto_queues_def split: option.splits)
    then show ?thesis using True sc keep by (intro exI [of _ "transition_row QUEUED no_args ?c"]) simp
  next
    case False
    then have "score_candidate fl i D = (Inr ?c, ?D)"
      using ok by (auto simp: score_candidate_def get Let_def auto_queues_def split: option.splits)
    then show ?thesis using False sc by (intro exI [of _ ?c] exI [of _ ?D]) auto
  qed
qed

section \<open>Crash backoff\<close>






section \<open>Eligibility\<close>

lemma min_less_iff: "xs \<noteq> [] \<Longrightarrow> \<not> (d :: int) \<le> Min (set xs) \<longleftrightarrow> (\<exists>x\<in>set xs. x < d)"
  by (simp add: not_le Min_less_iff)

lemma set_reachable_depths:
  "set (reachable_depths roots ms) = {mn_depth m | m r. m \<in> set ms \<and> mn_seed_root m = Some r \<and> r \<in> roots}"
  by (auto simp: reachable_depths_def split: option.splits)

definition coverage_allows :: "redundancy_policy \<Rightarrow> nat \<Rightarrow> bool" where
  "coverage_allows p n \<longleftrightarrow> n = 0 \<or> (p = PREFER_DUAL \<and> n = 1) \<or> p = REQUIRED_DUAL"

lemma evaluate_ok:
  "evaluate inputs col cas n roots = El_OK \<longleftrightarrow>
     coverage_allows (case cas of None \<Rightarrow> PREFER_SINGLE | Some c \<Rightarrow> ca_redundancy c) n
   \<and> (\<exists>x\<in>set (reachable_depths roots (ei_mentions inputs)). x < max_auto_join_depth col)"
proof -
  define p where "p = (case cas of None \<Rightarrow> PREFER_SINGLE | Some c \<Rightarrow> ca_redundancy c)"
  have "n \<ge> 2 \<longleftrightarrow> n \<noteq> 0 \<and> n \<noteq> 1" by auto
  then show ?thesis
    using min_less_iff [of "reachable_depths roots (ei_mentions inputs)" "max_auto_join_depth col"]
    by (cases p; cases "reachable_depths roots (ei_mentions inputs) = []")
      (auto simp: evaluate_def Let_def coverage_allows_def p_def [symmetric])
qed

lemma eligibility_ok:
  "collector_eligibility i k D = Inr El_OK \<longleftrightarrow>
     (\<exists>c col. get_candidate i D = Some c \<and> get_collector k D = Some col
        \<and> has_available_scout (gc_source_id c) D
        \<and> coverage_allows (case resolve_candidate_case i D of None \<Rightarrow> PREFER_SINGLE | Some ca \<Rightarrow> ca_redundancy ca)
            (active_coverage c D)
        \<and> (\<exists>m r. m \<in> set (mentions_of i D) \<and> mn_seed_root m = Some r \<and> r \<in> reachable_roots_for_collector k D
             \<and> mn_depth m < max_auto_join_depth col))"
  by (auto simp: collector_eligibility_def compute_eligibility_inputs_def get_candidate_def with_scout_def
      evaluate_ok set_reachable_depths split: option.split) 

section \<open>An example installation\<close>

definition example_candidate :: "candidate_state \<Rightarrow> candidate_row" where
  "example_candidate q = (new_candidate 30 1 ''@chan'' None None 5 False)\<lparr>gc_state := q,
     gc_reviewed_by := Some ''operator:7'', gc_collector_id := Some 3\<rparr>"

definition example_disc :: "candidate_state \<Rightarrow> disc_store" where
  "example_disc q = \<lparr>ds_sources = [\<lparr>so_id = 1, so_kind = Src_TELEGRAM, so_display_name = ''tg'', so_canonical_url = None,
       so_created_at = 1, so_notes = None\<rparr>],
     ds_messages = [], ds_actors = [], ds_users = [7],
     ds_identities = [\<lparr>id_id = 2, id_name = ''scout'', id_source_id = 1, id_session_path = ''s'', id_proxy_uri = None,
       id_cooldown_seconds = 60, id_last_used_at = None, id_state = Idn_AVAILABLE, id_role = IRole_SCOUT,
       id_graduated_at = None, id_notes = None, id_source_config = []\<rparr>],
     ds_collectors = [\<lparr>cr_id = 3, cr_instance_name = ''tg-1'', cr_kind = Src_TELEGRAM, cr_source_id = 1, cr_identity_id = 2,
       cr_config = [], cr_desired = Want_RUNNING, cr_observed = Obs_RUNNING, cr_restart_count = 0,
       cr_last_heartbeat_at = None, cr_last_error_type = None, cr_last_error_message = None, cr_created_at = 1,
       cr_created_by = 7, cr_notes = None\<rparr>],
     ds_memberships = [], ds_sightings = [], ds_groups = [], ds_candidates = [example_candidate q],
     ds_mentions = [], ds_access = [], ds_cases = example_cases Case_OPEN\<rparr>"

lemma example_disc_wf: "disc_wf (example_disc q)"
  by (simp add: disc_wf_defs example_disc_def example_candidate_def new_candidate_def active_pairs_def fks_defs
      collector_checks_def candidate_checks_def vetted_def tbl_has_def)

definition example_emit :: emit_env where
  "example_emit = \<lparr>em_env = example_env, em_bus_ok = True, em_ctx = example_ctx\<rparr>"

definition example_ids :: "nat \<Rightarrow> fresh_ids" where
  "example_ids n = \<lparr>fi_group = n, fi_membership = n + 1, fi_audit = n + 2\<rparr>"

definition example_sup :: "candidate_state \<Rightarrow> sup_store" where
  "example_sup q = \<lparr>su_procs = (\<lambda>_. None), su_cooling = (\<lambda>_. None), su_bus = [], su_disc = example_disc q\<rparr>"

definition example_op :: op_env where
  "example_op = \<lparr>oe_emit = example_emit, oe_user = 7, oe_now = 9, oe_audit_id = 81, oe_new_id = 82, oe_new_id2 = 83\<rparr>"

lemmas example_disc_simps = example_disc_def example_candidate_def new_candidate_def example_sup_def example_op_def
  example_emit_def example_ids_def

lemma claim_exact:
  assumes "disc_wf D"
  shows "claim_candidate_transition i q q' g t D =
      (case get_candidate i D of
         None \<Rightarrow> (Inr False, D)
       | Some c \<Rightarrow>
           if gc_state c \<noteq> q then (Inr False, D)
           else if \<not> fk_opt gp_id g (ds_groups D) then (Inl (IntegrityError ''group_candidate''), D)
           else (Inr True, put_candidates (tbl_save gc_id (claim_row q' g t c) (ds_candidates D)) D))"
proof -
  have k: "keyed gc_id (ds_candidates D)" using assms by (simp add: disc_wf_defs)
  have same: "put_candidates (ds_candidates D) D = D" by (simp add: put_candidates_def)
  show ?thesis
    unfolding claim_candidate_transition_def claim_where_def get_candidate_def
    by (cases "tbl_get gc_id i (ds_candidates D)")
      (simp_all add: rowcount_keyed [OF k] tbl_update_pinned [OF k] same)
qed

lemma claimed_no_match:
  assumes "q' \<noteq> q" and "c \<in> set (tbl_update (claim_where i q) (claim_row q' None t) rows)"
  shows "\<not> claim_where i q c"
proof -
  obtain r where "c = (if claim_where i q r then claim_row q' None t r else r)"
    using assms(2) unfolding tbl_update_def by fastforce
  then show ?thesis using assms(1) by (cases "claim_where i q r") (simp_all add: claim_where_def)
qed

lemma second_claim_false:
  assumes "disc_wf D" and "q' \<noteq> q"
  shows "fst (claim_candidate_transition i q q' g' t' (snd (claim_candidate_transition i q q' None t D))) = Inr False"
proof -
  let ?D = "snd (claim_candidate_transition i q q' None t D)"
  have "ds_candidates ?D = tbl_update (claim_where i q) (claim_row q' None t) (ds_candidates D)"
    by (simp add: claim_candidate_transition_def fk_opt_def)
  then have "\<not> claim_where i q c" if "c \<in> set (ds_candidates ?D)" for c
    using that claimed_no_match [OF assms(2)] by metis
  then have "filter (claim_where i q) (ds_candidates ?D) = []"
    by (simp add: filter_empty_conv)
  then show ?thesis by (simp add: claim_candidate_transition_def [of i q q' g'] rowcount_def)
qed

lemma emit_candidates [simp]: "ds_candidates (snd (emit_as M u a ev k s p now D)) = ds_candidates D"
  by (auto simp: emit_as_def split: prod.split sum.split)

lemma then_emit_candidates [simp]:
  "ds_candidates (snd (and_then r (\<lambda>_ D. emit_as M u a ev k s p now D))) = ds_candidates (snd r)"
  by (auto simp: and_then_def split: prod.split sum.split)

lemma example_approved:
  "get_candidate 30 (su_disc (disc_run [Approve example_op 30 3] (example_sup QUEUED)))
     = Some ((example_candidate QUEUED)\<lparr>gc_state := APPROVED, gc_reviewed_by := Some (operator_tag example_op),
         gc_reviewed_at := Some 9, gc_collector_id := Some 3\<rparr>)"
  by (simp add: get_candidate_def on_store_def candidates_approve_def get_collector_def review_candidate_def)
    (simp add: transition_candidate_def transition_row_def set_opt_def no_args_def fks_defs tbl_has_def
      Let_def tbl_save_def example_disc_simps)

section \<open>Properties\<close>

text \<open>C13: over any sequence of operations, failed ones included, the tables of the discovery loop
  stay consistent: keys and natural keys unique, every foreign key resolved, every CHECK met, at
  most one active membership per collector and group, at most one first sighting per message, and
  every candidate past approval names the operator who reviewed it and its assigned collector.\<close>

theorem discovery_invariant:
  assumes "disc_wf (su_disc S)"
  shows "disc_wf (su_disc (disc_run ops S))"
  by (rule disc_run_wf [OF assms])

theorem discovery_invariant_witness:
  "disc_wf (su_disc (disc_run [Approve example_op 30 3, Child_exit 3 1] (example_sup QUEUED)))"
  by (rule discovery_invariant) (simp add: example_sup_def example_disc_wf)

text \<open>C14: no group is joined without an operator. When a candidate that had not passed approval is
  approved, being joined, requested, joined or failed at the end of a run, then the run contains an
  approve or join request of an operator before which the candidate had not passed approval and
  after which it had; and at the end it names its reviewer and its collector.\<close>

theorem no_join_without_operator:
  assumes "disc_wf (su_disc S)" and "unapproved i (su_disc S)"
    and "get_candidate i (su_disc (disc_run ops S)) = Some c"
    and "gc_state c \<in> {APPROVED, JOINING, REQUESTED, JOINED, FAILED}"
  shows "(\<exists>pre op post. ops = pre @ op # post \<and> operator_decides op
     \<and> unapproved i (su_disc (disc_run pre S)) \<and> \<not> unapproved i (su_disc (disc_run (pre @ [op]) S)))
     \<and> gc_reviewed_by c \<noteq> None \<and> gc_collector_id c \<noteq> None"
proof -
  have c: "tbl_get gc_id i (ds_candidates (su_disc (disc_run ops S))) = Some c"
    using assms(3) by (simp add: get_candidate_def)
  have q: "gc_state c \<notin> pre_approval" using assms(4) by (auto simp: pre_approval_def)
  have "gc_reviewed_by c \<noteq> None \<and> gc_collector_id c \<noteq> None"
    using candidate_get_ok(4) [OF disc_run_wf [OF assms(1)] c] q by (simp add: vetted_def)
  moreover have "\<not> unapproved i (su_disc (disc_run ops S))" using c q by (simp add: unapproved_def)
  ultimately show ?thesis using unapproved_crossing [OF assms(1,2)] by blast
qed

theorem no_join_without_operator_witness:
  "\<exists>pre op post. [Approve example_op 30 3] = pre @ op # post \<and> operator_decides op"
  using no_join_without_operator [of "example_sup QUEUED" 30 "[Approve example_op 30 3]", OF _ _ example_approved]
    example_disc_wf
  by (auto simp: unapproved_def pre_approval_def example_disc_simps)

text \<open>C15: the confirmed-join writeback of the collectors refines one atomic step. When it returns a
  group, the candidate was in the expected state and is now JOINED, exactly one membership that
  carries it was added and exactly one audit row; when it returns None the candidate was in another
  state and nothing a join is about changed; when it raises, either nothing changed (the claim was
  compensated) or only the audit row is missing.\<close>

theorem join_refines_atomic:
  assumes "disc_wf D" and "q \<in> {JOINING, REQUESTED}"
  shows "case open_joined_membership M F i q s k gid kd ti sc now D of
      (Inr (Some g), D') \<Rightarrow> jv_state (join_abs D) i = Some q
        \<and> join_abs D' = atomic_join i k g [joined_audit_row M (fi_audit F) i g sc now] (join_abs D)
    | (Inr None, D') \<Rightarrow> jv_state (join_abs D) i \<noteq> Some q \<and> join_abs D' = join_abs D
    | (Inl e, D') \<Rightarrow> join_abs D' = join_abs D
        \<or> (jv_state (join_abs D) i = Some q \<and> (\<exists>g. join_abs D' = atomic_join i k g [] (join_abs D)))"
  using open_joined_view [OF assms] .

theorem join_refines_atomic_witness:
  "case open_joined_membership example_emit (example_ids 90) 30 JOINING 1 3 ''@chan'' Grp_CHANNEL None None 9
      (example_disc JOINING) of
      (Inr (Some g), D') \<Rightarrow> jv_state (join_abs (example_disc JOINING)) 30 = Some JOINING
        \<and> join_abs D' = atomic_join 30 3 g [joined_audit_row example_emit (fi_audit (example_ids 90)) 30 g None 9]
             (join_abs (example_disc JOINING))
    | (Inr None, D') \<Rightarrow> jv_state (join_abs (example_disc JOINING)) 30 \<noteq> Some JOINING
        \<and> join_abs D' = join_abs (example_disc JOINING)
    | (Inl e, D') \<Rightarrow> join_abs D' = join_abs (example_disc JOINING)
        \<or> (jv_state (join_abs (example_disc JOINING)) 30 = Some JOINING
           \<and> (\<exists>g. join_abs D' = atomic_join 30 3 g [] (join_abs (example_disc JOINING))))"
  by (rule join_refines_atomic [OF example_disc_wf]) simp

text \<open>However many confirmations of one candidate arrive, in whatever order and with whatever
  failures between them, they add at most one active membership for it.\<close>

lemma one_membership_per_candidate:
  assumes "disc_wf (su_disc S)" and "list_all (confirms i) ops"
  shows "members_for i (su_disc (disc_run ops S)) \<le> Suc (members_for i (su_disc S))"
  using run_settled [OF assms, of "members_for i (su_disc S)"] by (auto simp: settled_def)

text \<open>The conditional UPDATE by which a candidate is claimed is the single-row compare-and-swap:
  it reports True exactly when the candidate is in the expected state, then changes that row only,
  and an immediate second claim from the same state reports False.\<close>

lemma claim_is_compare_and_swap:
  assumes "disc_wf D" and "q' \<noteq> q"
  shows "claim_candidate_transition i q q' g t D =
      (case get_candidate i D of
         None \<Rightarrow> (Inr False, D)
       | Some c \<Rightarrow>
           if gc_state c \<noteq> q then (Inr False, D)
           else if \<not> fk_opt gp_id g (ds_groups D) then (Inl (IntegrityError ''group_candidate''), D)
           else (Inr True, put_candidates (tbl_save gc_id (claim_row q' g t c) (ds_candidates D)) D))
    \<and> fst (claim_candidate_transition i q q' g' t' (snd (claim_candidate_transition i q q' None t D))) = Inr False"
proof -
  have "fst (claim_candidate_transition i q q' g' t' (snd (claim_candidate_transition i q q' None t D))) = Inr False"
    by (rule second_claim_false [OF assms])
  moreover have "claim_candidate_transition i q q' g t D =
      (case get_candidate i D of
         None \<Rightarrow> (Inr False, D)
       | Some c \<Rightarrow>
           if gc_state c \<noteq> q then (Inr False, D)
           else if \<not> fk_opt gp_id g (ds_groups D) then (Inl (IntegrityError ''group_candidate''), D)
           else (Inr True, put_candidates (tbl_save gc_id (claim_row q' g t c) (ds_candidates D)) D))"
    by (rule claim_exact [OF assms(1)])
  ultimately show ?thesis by blast
qed

text \<open>Scoring an existing candidate always returns; the score is the weighted count of distinct
  groups and actors, lies between 0 and 1, never falls when mentions are added, and the candidate is
  queued exactly when it was DISCOVERED and the threshold of its case is reached. Rounding to a
  double is any monotone function that keeps zero.\<close>

lemma score_bounds:
  assumes "mono fl" and "fl 0 = 0" and "disc_wf D" and "get_candidate i D = Some c"
  shows "\<exists>c' D'. score_candidate fl i D = (Inr c', D') \<and> 0 \<le> gc_score c' \<and> gc_score c' \<le> 1
     \<and> gc_score c' = score_value fl (card (mn_group_id ` set (mentions_of i D))) (card (mn_actor_id ` set (mentions_of i D)))
     \<and> gc_state c' = (if gc_state c = DISCOVERED \<and> auto_queues i (gc_score c') D then QUEUED else gc_state c)
     \<and> gc_score c' \<le> score_value fl (card (mn_group_id ` set (mentions_of i D @ new)))
                                     (card (mn_actor_id ` set (mentions_of i D @ new)))"
proof -
  have "card (f ` set xs) \<le> card (f ` set (xs @ ys))" for f :: "mention_row \<Rightarrow> uuid" and xs ys
    by (rule card_mono) auto
  then show ?thesis
    using score_outcome [OF assms] score_value_bounds [OF assms(1,2)] score_value_mono [OF assms(1)]
    by (simp add: distinct_count_card) metis
qed

text \<open>The verdict for a collector is OK exactly when the redundancy policy of the resolving case
  still admits a collector, some mention with a seed root the collector can reach lies below its depth
  limit, and a scout of the source is available.\<close>

lemma eligibility_exact:
  "collector_eligibility i k D = Inr El_OK \<longleftrightarrow>
     (\<exists>c col. get_candidate i D = Some c \<and> get_collector k D = Some col
        \<and> has_available_scout (gc_source_id c) D
        \<and> coverage_allows (case resolve_candidate_case i D of None \<Rightarrow> PREFER_SINGLE | Some ca \<Rightarrow> ca_redundancy ca)
            (active_coverage c D)
        \<and> (\<exists>m r. m \<in> set (mentions_of i D) \<and> mn_seed_root m = Some r \<and> r \<in> reachable_roots_for_collector k D
             \<and> mn_depth m < max_auto_join_depth col))"
  by (rule eligibility_ok)




section \<open>Where operations interfere\<close>

text \<open>
  The database pool reads and writes in two transactions. A freeze of the fleet between the read
  and the write of a claim is undone by the write, and two claims that both read before either
  writes both succeed.
\<close>

lemma set_state_get:
  assumes "disc_wf D" and "get_identity i D = Some r"
  shows "set_identity_state i st u D = (Inr (r\<lparr>id_state := st, id_last_used_at := (case u of None \<Rightarrow> id_last_used_at r | Some t \<Rightarrow> Some t)\<rparr>),
      put_identities (tbl_save id_id (r\<lparr>id_state := st, id_last_used_at := (case u of None \<Rightarrow> id_last_used_at r | Some t \<Rightarrow> Some t)\<rparr>)
        (ds_identities D)) D)"
proof -
  have "tbl_get id_id i (ds_identities D) = Some r" using assms(2) by (simp add: get_identity_def)
  moreover from this have "identity_fks r D" using tbl_get_SomeD assms(1) by (fastforce simp: disc_wf_defs)
  ultimately show ?thesis by (simp add: set_identity_state_def change_row_def Let_def identity_fks_def)
qed

lemma state_after_set:
  assumes "disc_wf D" and "get_identity i D = Some r"
  shows "map_option id_state (get_identity i (snd (set_identity_state i st u D))) = Some st"
proof -
  have g: "tbl_get id_id i (ds_identities D) = Some r" using assms(2) by (simp add: get_identity_def)
  then show ?thesis
    using tbl_get_SomeD [OF g] tbl_get_Some_has [OF g]
    by (auto simp: set_state_get [OF assms] get_identity_def put_identities_def tbl_get_tbl_save)
qed

lemma freeze_lost:
  assumes "disc_wf D" and "claim_read name now D = Inr r"
  shows "map_option id_state (get_identity (id_id r) (snd (claim_write r now (freeze_all D)))) = Some Idn_IN_USE"
proof -
  have r: "r \<in> set (ds_identities D)"
    using assms(2) by (auto simp: claim_read_def require_identity_def get_identity_by_name_def
        dest: tbl_get_SomeD split: option.splits if_splits sum.splits)
  have k: "keyed id_id (ds_identities D)" using assms(1) by (simp add: disc_wf_defs)
  have "get_identity (id_id r) (freeze_all D) = Some (if freezable None r then r\<lparr>id_state := Idn_FROZEN\<rparr> else r)"
    using tbl_get_keyed [OF k r]
    by (simp add: get_identity_def freeze_all_def freeze_all_identities_def put_identities_def tbl_get_tbl_update)
  moreover have "disc_wf (freeze_all D)"
    using drive_wf [OF freeze_prims assms(1)] by (simp add: freeze_all_def)
  ultimately show ?thesis unfolding claim_write_def by (rule state_after_set [rotated])
qed

text \<open>Stopping a collector puts its identity back to AVAILABLE, whatever froze or burned it meanwhile.\<close>

lemma shutdown_revives:
  assumes "disc_wf D" and "get_identity_by_name name D = Some r"
  shows "map_option id_state (get_identity (id_id r) (collector_shutdown True name now D)) = Some Idn_AVAILABLE"
proof -
  have r: "r \<in> set (ds_identities D)"
    using assms(2) tbl_get_SomeD by (fastforce simp: get_identity_by_name_def)
  have g: "get_identity (id_id r) D = Some r"
    using tbl_get_keyed [of id_id "ds_identities D" r] r assms(1) by (simp add: get_identity_def disc_wf_defs)
  show ?thesis
    using state_after_set [OF assms(1) g, of Idn_AVAILABLE "Some now"] set_state_get [OF assms(1) g, of Idn_AVAILABLE "Some now"] assms(2)
    by (simp add: collector_shutdown_def release_def require_identity_def)
qed

text \<open>
  The extractor compares a platform reference with the UUID of the observed group. A reference it
  can produce starts with \<open>@\<close>, \<open>#\<close> or \<open>joinchat:\<close>, never with a hexadecimal digit, so the check
  never skips anything.
\<close>

lemma hd_hex_digits: "0 < k \<Longrightarrow> \<exists>d < 16. hd (hex_digits k n) = hex_digit d"
proof (induction k arbitrary: n)
  case (Suc k)
  show ?case
  proof (cases k)
    case 0
    then show ?thesis by (auto intro: exI [of _ "n mod 16"])
  next
    case (Suc j)
    then have "hex_digits k (n div 16) \<noteq> []" by simp
    then have "hd (hex_digits (Suc k) n) = hd (hex_digits k (n div 16))"
      by (metis hd_append2 hex_digits.simps(2))
    then show ?thesis using Suc.IH [of "n div 16"] \<open>k = Suc j\<close> by (simp del: hex_digits.simps)
  qed
qed simp

lemma length_hex_digits [simp]: "length (hex_digits k n) = k"
  by (induction k arbitrary: n) auto

lemma reference_not_uuid:
  assumes "s \<noteq> []" and "hd s \<in> {CHR ''@'', CHR ''#'', CHR ''j''}"
  shows "s \<noteq> uuid_str u"
proof
  assume s: "s = uuid_str u"
  have "hex_digits 32 u \<noteq> []" using length_hex_digits [of 32 u] by (metis list.size(3) zero_neq_numeral)
  then have "hd s = hd (hex_digits 32 u)" using s by (simp add: uuid_str_def Let_def)
  then obtain d where d: "d < 16" "hd s = hex_digit d" using hd_hex_digits [of 32 u] by auto
  have "(of_char (hex_digit d) :: nat) = (if d < 10 then 48 + d else 87 + d)"
    using d(1) by (simp add: hex_digit_def take_bit_eq_mod)
  then have "(of_char (hd s) :: nat) \<notin> {64, 35, 106}" using d by (auto split: if_splits)
  then show False using assms(2) by auto
qed

end
