(* ===== verification/Host_Patterns.thy ===== *)
theory Host_Patterns
  imports Join_Flow
begin

text \<open>
  Hostnames and the patterns that bind them to sources (\<open>util/domain.py\<close>), and the part of
  \<open>urllib.parse\<close> it reads a host from. The IDNA package is the parameter \<open>idna\<close> (\<open>None\<close> for an
  \<open>IDNAError\<close>); of the standard library, the check of bracketed IP literals and the NFKC check of
  non-ASCII network locations are the parameter \<open>netloc_ok\<close>.
\<close>

section \<open>Kinds\<close>

definition BRIDGEABLE_KINDS :: "infrastructure_kind set" where
  "BRIDGEABLE_KINDS = {Infra_DOMAIN, Infra_ONION, Infra_PASTE_URL}"

section \<open>Normalisation\<close>

definition endswith :: "string \<Rightarrow> string \<Rightarrow> bool" where
  "endswith s t \<longleftrightarrow> drop (length s - length t) s = t"

fun contains_sub :: "string \<Rightarrow> string \<Rightarrow> bool" where
  "contains_sub t [] = (t = [])"
| "contains_sub t (c # cs) = (take (length t) (c # cs) = t \<or> contains_sub t cs)"

definition normalize_host :: "(string \<Rightarrow> string option) \<Rightarrow> string \<Rightarrow> exn + string" where
  "normalize_host idna value =
     (let s = py_strip value in
      if s = [] then Inl (ValueError ''empty host'')
      else
        let s1 = (if endswith s ''.'' then butlast s else s) in
        if s1 = [] then Inl (ValueError ''empty host after stripping trailing dot'')
        else if contains_sub ''xn--'' (py_lower s1) \<and> (\<exists>c\<in>set s1. (of_char c :: nat) > 127)
        then Inl (ValueError ''ambiguous mixed-form host'')
        else (case idna s1 of None \<Rightarrow> Inl (ValueError ''invalid host'') | Some e \<Rightarrow> Inr (py_lower e)))"

section \<open>Matching\<close>

definition is_strict_subdomain :: "string \<Rightarrow> string \<Rightarrow> bool" where
  "is_strict_subdomain host parent \<longleftrightarrow> endswith host (CHR ''.'' # parent) \<and> host \<noteq> parent"

definition parents_reach_overlap :: "string \<Rightarrow> string \<Rightarrow> bool" where
  "parents_reach_overlap a b \<longleftrightarrow> a = b \<or> is_strict_subdomain a b \<or> is_strict_subdomain b a"

definition pattern_matches_host :: "string \<Rightarrow> source_domain_pattern_kind \<Rightarrow> string \<Rightarrow> bool" where
  "pattern_matches_host pattern k host =
     (case k of
        EXACT \<Rightarrow> host = pattern
      | SUBDOMAIN_WILDCARD \<Rightarrow> is_strict_subdomain host pattern
      | SUFFIX_MATCH \<Rightarrow> host = pattern \<or> is_strict_subdomain host pattern)"

text \<open>
  The rule matrix, after the arguments are put in order of (kind value, pattern). A pair the matrix
  does not list is the \<open>AssertionError\<close>.
\<close>

definition intersect_matrix :: "string \<Rightarrow> source_domain_pattern_kind \<Rightarrow> string \<Rightarrow> source_domain_pattern_kind \<Rightarrow> bool option" where
  "intersect_matrix p1 k1 p2 k2 =
     (if (k1, k2) = (EXACT, EXACT) then Some (p1 = p2)
      else if (k1, k2) = (EXACT, SUBDOMAIN_WILDCARD) then Some (is_strict_subdomain p1 p2)
      else if (k1, k2) = (EXACT, SUFFIX_MATCH) then Some (p1 = p2 \<or> is_strict_subdomain p1 p2)
      else if (k1, k2) = (SUBDOMAIN_WILDCARD, SUBDOMAIN_WILDCARD) then Some (parents_reach_overlap p1 p2)
      else if (k1, k2) = (SUBDOMAIN_WILDCARD, SUFFIX_MATCH) then Some (parents_reach_overlap p1 p2)
      else if (k1, k2) = (SUFFIX_MATCH, SUFFIX_MATCH) then Some (parents_reach_overlap p1 p2)
      else None)"

definition patterns_intersect :: "string \<Rightarrow> source_domain_pattern_kind \<Rightarrow> string \<Rightarrow> source_domain_pattern_kind \<Rightarrow> bool option" where
  "patterns_intersect p1 k1 p2 k2 =
     (if (source_domain_pattern_kind_value k1, p1) > (source_domain_pattern_kind_value k2, p2)
      then intersect_matrix p2 k2 p1 k1 else intersect_matrix p1 k1 p2 k2)"

section \<open>Hosts of artifact values\<close>

text \<open>\<open>str.partition\<close> and \<open>str.rpartition\<close> at a character.\<close>

definition partition_at :: "char \<Rightarrow> string \<Rightarrow> string \<times> bool \<times> string" where
  "partition_at c s = (takeWhile (\<lambda>x. x \<noteq> c) s, c \<in> set s, drop 1 (dropWhile (\<lambda>x. x \<noteq> c) s))"

definition after_last :: "char \<Rightarrow> string \<Rightarrow> string" where
  "after_last c s = rev (takeWhile (\<lambda>x. x \<noteq> c) (rev s))"

definition is_alpha :: "char \<Rightarrow> bool" where
  "is_alpha c \<longleftrightarrow> (let n = of_char c :: nat in (65 \<le> n \<and> n \<le> 90) \<or> (97 \<le> n \<and> n \<le> 122))"

definition scheme_char :: "char \<Rightarrow> bool" where
  "scheme_char c \<longleftrightarrow> is_alpha c \<or> is_digit c \<or> c = CHR ''+'' \<or> c = CHR ''-'' \<or> c = CHR ''.''"

text \<open>What follows the scheme: C0 controls and blanks stripped on the left, tab, CR and LF removed.\<close>

definition after_scheme :: "string \<Rightarrow> string" where
  "after_scheme value =
     (let u = filter (\<lambda>c. (of_char c :: nat) \<notin> {9, 10, 13}) (dropWhile (\<lambda>c. (of_char c :: nat) \<le> 32) value)
      in case partition_at CHR '':'' u of
           (sch, found, rest) \<Rightarrow>
             if found \<and> sch \<noteq> [] \<and> is_alpha (hd sch) \<and> list_all scheme_char sch then rest else u)"

text \<open>\<open>urlparse(value).hostname\<close>, with the empty host as \<open>None\<close>.\<close>

definition url_netloc :: "(string \<Rightarrow> bool) \<Rightarrow> string \<Rightarrow> exn + string" where
  "url_netloc netloc_ok value =
     (let u = after_scheme value in
      if take 2 u \<noteq> ''//'' then Inr []
      else
        let n = takeWhile (\<lambda>c. c \<notin> set ''/?#'') (drop 2 u) in
        if (CHR ''['' \<in> set n) \<noteq> (CHR '']'' \<in> set n) \<or> \<not> netloc_ok n
        then Inl (ValueError ''Invalid URL'') else Inr n)"

definition url_hostname :: "(string \<Rightarrow> bool) \<Rightarrow> string \<Rightarrow> exn + string option" where
  "url_hostname netloc_ok value =
     (case url_netloc netloc_ok value of
        Inl e \<Rightarrow> Inl e
      | Inr n \<Rightarrow>
          let hostinfo = after_last CHR ''@'' n;
              h = (case partition_at CHR ''['' hostinfo of
                     (_, True, bracketed) \<Rightarrow> fst (partition_at CHR '']'' bracketed)
                   | (_, False, _) \<Rightarrow> fst (partition_at CHR '':'' hostinfo))
          in if h = [] then Inr None
             else (case partition_at CHR ''%'' h of
                     (x, found, zone) \<Rightarrow> Inr (Some (py_lower x @ (if found then ''%'' else []) @ zone))))"

record host_env =
  he_idna :: "string \<Rightarrow> string option"
  he_netloc_ok :: "string \<Rightarrow> bool"

text \<open>
  \<open>ValueError\<close> of the normalisation is mapped to \<open>None\<close>; one of \<open>urlparse\<close> is not caught.
\<close>

definition artifact_value_to_host :: "host_env \<Rightarrow> infrastructure_kind \<Rightarrow> string \<Rightarrow> exn + string option" where
  "artifact_value_to_host H k value =
     (let norm = (\<lambda>s. case normalize_host (he_idna H) s of Inl e \<Rightarrow> None | Inr h \<Rightarrow> Some h)
      in if k \<notin> BRIDGEABLE_KINDS then Inr None
         else if k = Infra_PASTE_URL
         then (case url_hostname (he_netloc_ok H) value of
                 Inl e \<Rightarrow> Inl e
               | Inr None \<Rightarrow> Inr None
               | Inr (Some h) \<Rightarrow> Inr (norm h))
         else Inr (norm value))"

section \<open>The matrix decides a common host\<close>

lemma endswith_iff: "endswith s t \<longleftrightarrow> (\<exists>r. s = r @ t)"
proof
  assume "endswith s t"
  then have "s = take (length s - length t) s @ t"
    unfolding endswith_def by (metis append_take_drop_id)
  then show "\<exists>r. s = r @ t" by blast
qed (auto simp: endswith_def)

lemma strict_subdomain_iff: "is_strict_subdomain h p \<longleftrightarrow> (\<exists>r. h = r @ CHR ''.'' # p)"
  by (auto simp: is_strict_subdomain_def endswith_iff)

lemma strict_subdomain_trans: "is_strict_subdomain a b \<Longrightarrow> is_strict_subdomain b c \<Longrightarrow> is_strict_subdomain a c"
  by (auto simp: strict_subdomain_iff)

lemma common_subdomain:
  assumes "is_strict_subdomain h a" and "is_strict_subdomain h b"
  shows "parents_reach_overlap a b"
proof -
  obtain r s where "h = r @ CHR ''.'' # a" "h = s @ CHR ''.'' # b"
    using assms unfolding strict_subdomain_iff by blast
  then have "suffix (CHR ''.'' # a) h" "suffix (CHR ''.'' # b) h" unfolding suffix_def by blast+
  then consider "suffix (CHR ''.'' # a) (CHR ''.'' # b)" | "suffix (CHR ''.'' # b) (CHR ''.'' # a)"
    using suffix_same_cases by blast
  then show ?thesis
    by cases (simp_all add: suffix_Cons, auto simp: parents_reach_overlap_def strict_subdomain_iff suffix_def)
qed

lemma overlap_reached:
  assumes "parents_reach_overlap a b"
  shows "\<exists>h. is_strict_subdomain h a \<and> is_strict_subdomain h b"
proof -
  have below: "is_strict_subdomain (CHR ''x'' # CHR ''.'' # p) p" for p
    by (auto simp: strict_subdomain_iff intro: exI [of _ "''x''"])
  show ?thesis
    using assms below [of a] below [of b] strict_subdomain_trans unfolding parents_reach_overlap_def by blast
qed

lemma kind_value_less:
  "source_domain_pattern_kind_value k1 < source_domain_pattern_kind_value k2 \<longleftrightarrow>
     (k1, k2) \<in> {(EXACT, SUBDOMAIN_WILDCARD), (EXACT, SUFFIX_MATCH), (SUBDOMAIN_WILDCARD, SUFFIX_MATCH)}"
  by (cases k1; cases k2) (simp_all add: less_char_def)

lemma overlap_commute: "parents_reach_overlap a b = parents_reach_overlap b a"
  by (auto simp: parents_reach_overlap_def)

text \<open>The answer of the matrix, for both orders of the arguments.\<close>

definition common_host :: "string \<Rightarrow> source_domain_pattern_kind \<Rightarrow> string \<Rightarrow> source_domain_pattern_kind \<Rightarrow> bool" where
  "common_host p1 k1 p2 k2 \<longleftrightarrow> (\<exists>h. pattern_matches_host p1 k1 h \<and> pattern_matches_host p2 k2 h)"

lemma common_host_commute: "common_host p1 k1 p2 k2 = common_host p2 k2 p1 k1"
  by (auto simp: common_host_def)

lemma matrix_correct:
  assumes "\<not> source_domain_pattern_kind_value k2 < source_domain_pattern_kind_value k1"
  shows "intersect_matrix p1 k1 p2 k2 = Some (common_host p1 k1 p2 k2)"
proof -
  have ws: "parents_reach_overlap p1 p2 \<longleftrightarrow> (\<exists>h. is_strict_subdomain h p1 \<and> (h = p2 \<or> is_strict_subdomain h p2))"
    using common_subdomain overlap_reached unfolding parents_reach_overlap_def by meson
  have ww: "parents_reach_overlap p1 p2 \<longleftrightarrow> (\<exists>h. is_strict_subdomain h p1 \<and> is_strict_subdomain h p2)"
    using common_subdomain overlap_reached by meson
  have ss: "parents_reach_overlap p1 p2 \<longleftrightarrow>
      (\<exists>h. (h = p1 \<or> is_strict_subdomain h p1) \<and> (h = p2 \<or> is_strict_subdomain h p2))"
    using common_subdomain overlap_reached unfolding parents_reach_overlap_def by meson
  show ?thesis
    using assms ws ww ss
    by (cases k1; cases k2) (auto simp: intersect_matrix_def common_host_def pattern_matches_host_def kind_value_less)
qed

lemma patterns_intersect_exact: "patterns_intersect p1 k1 p2 k2 = Some (common_host p1 k1 p2 k2)"
proof (cases "(source_domain_pattern_kind_value k2, p2) < (source_domain_pattern_kind_value k1, p1)")
  case True
  then have "\<not> source_domain_pattern_kind_value k1 < source_domain_pattern_kind_value k2" by auto
  then show ?thesis using True matrix_correct [of k1 k2 p2 p1] common_host_commute
    by (simp add: patterns_intersect_def)
next
  case False
  then have "\<not> source_domain_pattern_kind_value k2 < source_domain_pattern_kind_value k1" by auto
  then show ?thesis unfolding patterns_intersect_def if_not_P [OF False] by (rule matrix_correct)
qed

end
