(* ===== verification/Sources.thy ===== *)
theory Sources
  imports Host_Patterns Operator_Actions
begin

text \<open>
  Sources, the host patterns that belong to them, and the infrastructure artifacts resolved
  through those patterns (\<open>sqlmodel_repo/sources.py\<close>, \<open>upsert_source\<close> of
  \<open>sqlmodel_repo/actors.py\<close>, the infrastructure half of \<open>sqlmodel_repo/artifacts.py\<close>). A transaction
  that raises leaves the store as it was.
\<close>

section \<open>Rows\<close>

record domain_row =
  sd_id :: uuid
  sd_source_id :: uuid
  sd_pattern :: string
  sd_kind :: source_domain_pattern_kind
  sd_is_primary :: bool
  sd_created_at :: time
  sd_created_by :: "uuid option"
  sd_removed_at :: "time option"
  sd_removed_by :: "uuid option"
  sd_notes :: "string option"

record artifact_row =
  ia_id :: uuid
  ia_kind :: infrastructure_kind
  ia_value :: string
  ia_value_hash :: string
  ia_first_seen :: time
  ia_last_seen :: time
  ia_resolved_to :: "uuid option"
  ia_state :: resolution_state

text \<open>
  The tables of this component beside those of the discovery loop; of \<open>message\<close>, \<open>actor\<close> and
  \<open>actor_relation\<close> the column \<open>source_id\<close>.
\<close>

record source_store =
  ss_disc :: disc_store
  ss_domains :: "domain_row list"
  ss_artifacts :: "artifact_row list"
  ss_message_sources :: "uuid list"
  ss_actor_sources :: "uuid list"
  ss_relation_sources :: "uuid list"

definition domain_active :: "domain_row \<Rightarrow> bool" where
  "domain_active d \<longleftrightarrow> sd_removed_at d = None"

definition domain_checks :: "domain_row \<Rightarrow> bool" where
  "domain_checks d \<longleftrightarrow> sd_pattern d \<noteq> [] \<and> sd_pattern d = sql_lower (sd_pattern d) \<and> CHR ''*'' \<notin> set (sd_pattern d)
     \<and> sd_notes d \<noteq> Some [] \<and> (sd_removed_at d = None \<longleftrightarrow> sd_removed_by d = None)"

definition artifact_checks :: "artifact_row \<Rightarrow> bool" where
  "artifact_checks a \<longleftrightarrow> (ia_state a = Res_RESOLVED \<longleftrightarrow> ia_resolved_to a \<noteq> None)"

definition user_fk :: "uuid option \<Rightarrow> source_store \<Rightarrow> bool" where
  "user_fk u S \<longleftrightarrow> (case u of None \<Rightarrow> True | Some i \<Rightarrow> i \<in> set (ds_users (ss_disc S)))"

text \<open>The generated column \<open>active_primary_source_id\<close>.\<close>

definition active_primary :: "domain_row \<Rightarrow> uuid option" where
  "active_primary d = (if sd_is_primary d \<and> sd_removed_at d = None then Some (sd_source_id d) else None)"

definition put_sources :: "source_row list \<Rightarrow> source_store \<Rightarrow> source_store" where
  "put_sources rows S = S\<lparr>ss_disc := (ss_disc S)\<lparr>ds_sources := rows\<rparr>\<rparr>"

definition all_sources :: "source_store \<Rightarrow> source_row list" where
  "all_sources S = ds_sources (ss_disc S)"

section \<open>Sources\<close>

definition upsert_source ::
  "uuid \<Rightarrow> source_kind \<Rightarrow> string \<Rightarrow> time \<Rightarrow> source_store \<Rightarrow> (uuid, source_store) outcome" where
  "upsert_source new_id kind name created_at S =
     (case find (\<lambda>s. so_kind s = kind \<and> so_display_name s = name) (all_sources S) of
        Some s \<Rightarrow> (Inr (so_id s), S)
      | None \<Rightarrow>
          if tbl_has so_id new_id (all_sources S) then (Inl (IntegrityError ''source''), S)
          else (Inr new_id, put_sources (all_sources S @ [\<lparr>so_id = new_id, so_kind = kind, so_display_name = name,
                  so_canonical_url = None, so_created_at = created_at, so_notes = None\<rparr>]) S))"

definition list_sources :: "nat \<Rightarrow> nat \<Rightarrow> source_store \<Rightarrow> source_row list" where
  "list_sources limit offset S = page offset limit (order_asc so_created_at (all_sources S))"

definition count_sources :: "source_store \<Rightarrow> nat" where
  "count_sources S = length (all_sources S)"

definition update_source ::
  "uuid \<Rightarrow> string option \<Rightarrow> string option \<Rightarrow> source_store \<Rightarrow> (source_row, source_store) outcome" where
  "update_source i name notes S =
     (case tbl_get so_id i (all_sources S) of
        None \<Rightarrow> (Inl (ValueError ''source not found''), S)
      | Some s \<Rightarrow>
          let s' = s\<lparr>so_display_name := (case name of None \<Rightarrow> so_display_name s | Some n \<Rightarrow> n), so_notes := set_opt notes (so_notes s)\<rparr>
          in (Inr s', put_sources (tbl_save so_id s' (all_sources S)) S))"

section \<open>Domains\<close>

definition list_source_domains :: "uuid \<Rightarrow> bool \<Rightarrow> source_store \<Rightarrow> domain_row list" where
  "list_source_domains i include_removed S = order_asc sd_created_at
     (filter (\<lambda>d. sd_source_id d = i \<and> (include_removed \<or> domain_active d)) (ss_domains S))"

text \<open>\<open>_detect_overlap_in_session\<close>: the first active row that shares a host.\<close>

definition detect_overlap :: "string \<Rightarrow> source_domain_pattern_kind \<Rightarrow> source_store \<Rightarrow> exn option" where
  "detect_overlap pattern k S =
     map_option (\<lambda>d. SourceDomainOverlapError (sd_id d) (source_domain_pattern_kind_value (sd_kind d)))
       (find (\<lambda>d. patterns_intersect pattern k (sd_pattern d) (sd_kind d) = Some True)
         (filter domain_active (ss_domains S)))"

text \<open>Path B: the sweep over unresolved artifacts when a pattern is added.\<close>

definition sweep_row :: "host_env \<Rightarrow> string \<Rightarrow> source_domain_pattern_kind \<Rightarrow> uuid \<Rightarrow> artifact_row \<Rightarrow> exn + artifact_row" where
  "sweep_row H pattern k source a =
     (if ia_state a \<noteq> Res_UNRESOLVED \<or> ia_kind a \<notin> BRIDGEABLE_KINDS then Inr a
      else (case artifact_value_to_host H (ia_kind a) (ia_value a) of
              Inl e \<Rightarrow> Inl e
            | Inr None \<Rightarrow> Inr a
            | Inr (Some h) \<Rightarrow>
                if pattern_matches_host pattern k h
                then Inr (a\<lparr>ia_state := Res_RESOLVED, ia_resolved_to := Some source\<rparr>) else Inr a))"

fun sweep :: "host_env \<Rightarrow> string \<Rightarrow> source_domain_pattern_kind \<Rightarrow> uuid \<Rightarrow> artifact_row list \<Rightarrow> exn + artifact_row list" where
  "sweep H pattern k source [] = Inr []"
| "sweep H pattern k source (a # as) =
     (case sweep_row H pattern k source a of
        Inl e \<Rightarrow> Inl e
      | Inr a' \<Rightarrow> (case sweep H pattern k source as of Inl e \<Rightarrow> Inl e | Inr as' \<Rightarrow> Inr (a' # as')))"

definition insert_domain :: "domain_row \<Rightarrow> source_store \<Rightarrow> (unit, source_store) outcome" where
  "insert_domain d S =
     (if tbl_has sd_id (sd_id d) (ss_domains S) \<or> \<not> domain_checks d \<or> \<not> tbl_has so_id (sd_source_id d) (all_sources S)
         \<or> \<not> user_fk (sd_created_by d) S
         \<or> (active_primary d \<noteq> None \<and> (\<exists>e\<in>set (ss_domains S). active_primary e = active_primary d))
      then (Inl (IntegrityError ''source_domain''), S)
      else (Inr (), S\<lparr>ss_domains := ss_domains S @ [d]\<rparr>))"

definition add_source_domain ::
  "host_env \<Rightarrow> uuid \<Rightarrow> uuid \<Rightarrow> string \<Rightarrow> source_domain_pattern_kind \<Rightarrow> bool \<Rightarrow> time \<Rightarrow> uuid option \<Rightarrow> string option \<Rightarrow> source_store
   \<Rightarrow> (domain_row, source_store) outcome" where
  "add_source_domain H new_id source pattern k primary created_at created_by notes S =
     (case normalize_host (he_idna H) pattern of
        Inl e \<Rightarrow> (Inl e, S)
      | Inr p \<Rightarrow>
          (case detect_overlap p k S of
             Some e \<Rightarrow> (Inl e, S)
           | None \<Rightarrow>
               let d = \<lparr>sd_id = new_id, sd_source_id = source, sd_pattern = p, sd_kind = k, sd_is_primary = primary,
                        sd_created_at = created_at, sd_created_by = created_by, sd_removed_at = None,
                        sd_removed_by = None, sd_notes = notes\<rparr>
               in (case insert_domain d S of
                     (Inl e, _) \<Rightarrow> (Inl e, S)
                   | (Inr _, S1) \<Rightarrow>
                       (case sweep H p k source (ss_artifacts S1) of
                          Inl e \<Rightarrow> (Inl e, S)
                        | Inr as \<Rightarrow> (Inr d, S1\<lparr>ss_artifacts := as\<rparr>)))))"

definition remove_source_domain ::
  "uuid \<Rightarrow> time \<Rightarrow> uuid \<Rightarrow> source_store \<Rightarrow> (domain_row, source_store) outcome" where
  "remove_source_domain i removed_at removed_by S =
     (case tbl_get sd_id i (ss_domains S) of
        None \<Rightarrow> (Inl (ValueError ''source_domain not found''), S)
      | Some d \<Rightarrow>
          if sd_removed_at d \<noteq> None then (Inl (ValueError ''source_domain already removed''), S)
          else if \<not> user_fk (Some removed_by) S then (Inl (IntegrityError ''source_domain''), S)
          else let d' = d\<lparr>sd_removed_at := Some removed_at, sd_removed_by := Some removed_by\<rparr>
               in (Inr d', S\<lparr>ss_domains := tbl_save sd_id d' (ss_domains S)\<rparr>))"

definition swap_source_domain_primary ::
  "uuid \<Rightarrow> uuid \<Rightarrow> source_store \<Rightarrow> (domain_row, source_store) outcome" where
  "swap_source_domain_primary source i S =
     (case tbl_get sd_id i (ss_domains S) of
        None \<Rightarrow> (Inl (ValueError ''source_domain not found for source''), S)
      | Some t \<Rightarrow>
          if sd_source_id t \<noteq> source then (Inl (ValueError ''source_domain not found for source''), S)
          else if sd_removed_at t \<noteq> None then (Inl (ValueError ''source_domain is removed; cannot be primary''), S)
          else
            let demoted = tbl_update (\<lambda>d. sd_source_id d = source \<and> sd_is_primary d \<and> sd_removed_at d = None \<and> sd_id d \<noteq> i)
                            (\<lambda>d. d\<lparr>sd_is_primary := False\<rparr>) (ss_domains S);
                t' = t\<lparr>sd_is_primary := True\<rparr>
            in (Inr t', S\<lparr>ss_domains := tbl_save sd_id t' demoted\<rparr>))"

definition KIND_SPECIFICITY :: "source_domain_pattern_kind \<Rightarrow> nat" where
  "KIND_SPECIFICITY k = (case k of EXACT \<Rightarrow> 0 | SUBDOMAIN_WILDCARD \<Rightarrow> 1 | SUFFIX_MATCH \<Rightarrow> 2)"

definition domains_for_host :: "string \<Rightarrow> source_store \<Rightarrow> domain_row list" where
  "domains_for_host h S = filter (\<lambda>d. pattern_matches_host (sd_pattern d) (sd_kind d) h) (filter domain_active (ss_domains S))"

definition find_source_for_host :: "host_env \<Rightarrow> string \<Rightarrow> source_store \<Rightarrow> exn + domain_row option" where
  "find_source_for_host H host S =
     (case normalize_host (he_idna H) host of
        Inl e \<Rightarrow> Inl e
      | Inr h \<Rightarrow>
          (case order_asc (\<lambda>d. (KIND_SPECIFICITY (sd_kind d), sd_created_at d)) (domains_for_host h S) of
             [] \<Rightarrow> Inr None
           | d # _ \<Rightarrow> Inr (Some d)))"

section \<open>The canonical URL\<close>

definition validate_url_host :: "host_env \<Rightarrow> string \<Rightarrow> uuid \<Rightarrow> exn + string" where
  "validate_url_host H url source =
     (case url_hostname (he_netloc_ok H) url of
        Inr (Some h) \<Rightarrow> (case normalize_host (he_idna H) h of
             Inl e \<Rightarrow> Inl (SourceCanonicalUrlError ''invalid_url'' source) | Inr h' \<Rightarrow> Inr h')
      | _ \<Rightarrow> Inl (SourceCanonicalUrlError ''invalid_url'' source))"

definition active_primary_domain_for :: "uuid \<Rightarrow> source_store \<Rightarrow> domain_row option" where
  "active_primary_domain_for source S =
     find (\<lambda>d. sd_source_id d = source \<and> sd_is_primary d \<and> sd_removed_at d = None) (ss_domains S)"

definition update_source_canonical_url ::
  "uuid \<Rightarrow> string option \<Rightarrow> source_store \<Rightarrow> (source_row, source_store) outcome" where
  "update_source_canonical_url i url S =
     (case tbl_get so_id i (all_sources S) of
        None \<Rightarrow> (Inl (SourceCanonicalUrlError ''source_not_found'' i), S)
      | Some s \<Rightarrow> let s' = s\<lparr>so_canonical_url := url\<rparr> in (Inr s', put_sources (tbl_save so_id s' (all_sources S)) S))"

definition set_source_canonical_url ::
  "host_env \<Rightarrow> uuid \<Rightarrow> string option \<Rightarrow> source_store \<Rightarrow> (source_row, source_store) outcome" where
  "set_source_canonical_url H i url S =
     (case url of
        None \<Rightarrow> update_source_canonical_url i None S
      | Some u \<Rightarrow>
          (case validate_url_host H u i of
             Inl e \<Rightarrow> (Inl e, S)
           | Inr h \<Rightarrow>
               (case active_primary_domain_for i S of
                  None \<Rightarrow> (Inl (SourceCanonicalUrlError ''no_primary_domain'' i), S)
                | Some d \<Rightarrow>
                    if \<not> pattern_matches_host (sd_pattern d) (sd_kind d) h
                    then (Inl (SourceCanonicalUrlError ''host_not_owned'' i), S)
                    else update_source_canonical_url i (Some u) S)))"

section \<open>Usage and deletion\<close>

text \<open>\<open>_SOURCE_REFS\<close>: each relation's label and its column of source ids.\<close>

definition SOURCE_REFS :: "source_store \<Rightarrow> (string \<times> uuid option list) list" where
  "SOURCE_REFS S = (let D = ss_disc S in
     [(''message'', map Some (ss_message_sources S)), (''group'', map (Some \<circ> gp_source_id) (ds_groups D)),
      (''actor'', map Some (ss_actor_sources S)), (''collector'', map (Some \<circ> cr_source_id) (ds_collectors D)),
      (''identity'', map (Some \<circ> id_source_id) (ds_identities D)),
      (''group_candidate'', map (Some \<circ> gc_source_id) (ds_candidates D)),
      (''actor_relation'', map Some (ss_relation_sources S)),
      (''infrastructure_artifact'', map ia_resolved_to (ss_artifacts S))])"

definition source_usage :: "uuid \<Rightarrow> source_store \<Rightarrow> (string \<times> nat) list" where
  "source_usage i S = filter (\<lambda>c. snd c > 0)
     (map (\<lambda>r. (fst r, length (filter (\<lambda>x. x = Some i) (snd r)))) (SOURCE_REFS S))"

definition delete_source :: "uuid \<Rightarrow> source_store \<Rightarrow> (unit, source_store) outcome" where
  "delete_source i S =
     (if \<not> tbl_has so_id i (all_sources S) then (Inl (ValueError ''source not found''), S)
      else if source_usage i S \<noteq> [] then (Inl (ResourceInUseError ''source'' (source_usage i S)), S)
      else (Inr (), put_sources (tbl_delete so_id i (all_sources S))
             (S\<lparr>ss_domains := filter (\<lambda>d. sd_source_id d \<noteq> i) (ss_domains S)\<rparr>)))"

section \<open>Infrastructure artifacts\<close>

definition resolve_artifact ::
  "host_env \<Rightarrow> infrastructure_kind \<Rightarrow> string \<Rightarrow> source_store \<Rightarrow> exn + (resolution_state \<times> uuid option)" where
  "resolve_artifact H k value S =
     (if k \<notin> BRIDGEABLE_KINDS then Inr (Res_NOT_APPLICABLE, None)
      else (case artifact_value_to_host H k value of
              Inl e \<Rightarrow> Inl e
            | Inr None \<Rightarrow> Inr (Res_UNRESOLVED, None)
            | Inr (Some h) \<Rightarrow>
                (case domains_for_host h S of
                   [] \<Rightarrow> Inr (Res_UNRESOLVED, None)
                 | d # ds \<Rightarrow> if distinct_count sd_source_id (d # ds) = 1
                     then Inr (Res_RESOLVED, Some (sd_source_id d)) else Inr (Res_AMBIGUOUS, None))))"

text \<open>\<open>sha_hex\<close>: SHA-256 of the UTF-8 bytes, in hexadecimal.\<close>

definition put_infrastructure_artifact ::
  "host_env \<Rightarrow> (bytes \<Rightarrow> string) \<Rightarrow> uuid \<Rightarrow> infrastructure_kind \<Rightarrow> string \<Rightarrow> time \<Rightarrow> time \<Rightarrow> source_store
   \<Rightarrow> (artifact_row, source_store) outcome" where
  "put_infrastructure_artifact H sha_hex new_id k value first_seen last_seen S =
     (case one_or_none (filter (\<lambda>a. ia_value_hash a = sha_hex (utf8 value)) (ss_artifacts S)) of
        Inl e \<Rightarrow> (Inl e, S)
      | Inr existing \<Rightarrow>
          (case resolve_artifact H k value S of
             Inl e \<Rightarrow> (Inl e, S)
           | Inr (st, res) \<Rightarrow>
               (case existing of
                  Some a \<Rightarrow>
                    let a' = a\<lparr>ia_last_seen := last_seen, ia_state := st, ia_resolved_to := res\<rparr>
                    in (Inr a', S\<lparr>ss_artifacts := tbl_save ia_id a' (ss_artifacts S)\<rparr>)
                | None \<Rightarrow>
                    let a = \<lparr>ia_id = new_id, ia_kind = k, ia_value = value, ia_value_hash = sha_hex (utf8 value),
                             ia_first_seen = first_seen, ia_last_seen = last_seen, ia_resolved_to = res, ia_state = st\<rparr>
                    in if tbl_has ia_id new_id (ss_artifacts S) then (Inl (IntegrityError ''infrastructure_artifact''), S)
                       else (Inr a, S\<lparr>ss_artifacts := ss_artifacts S @ [a]\<rparr>))))"

definition get_infrastructure_artifact :: "uuid \<Rightarrow> source_store \<Rightarrow> artifact_row option" where
  "get_infrastructure_artifact i S = tbl_get ia_id i (ss_artifacts S)"

definition list_artifacts_for_source :: "uuid \<Rightarrow> source_store \<Rightarrow> artifact_row list" where
  "list_artifacts_for_source i S = filter (\<lambda>a. ia_resolved_to a = Some i) (ss_artifacts S)"

record bridge_summary =
  bs_source_id :: uuid
  bs_resolved :: nat
  bs_unresolved :: nat
  bs_ambiguous :: nat
  bs_not_applicable :: nat

definition source_bridge_summary :: "uuid \<Rightarrow> source_store \<Rightarrow> bridge_summary" where
  "source_bridge_summary i S =
     (let n = (\<lambda>st. length (filter (\<lambda>a. ia_state a = st) (ss_artifacts S)))
      in \<lparr>bs_source_id = i, bs_resolved = length (list_artifacts_for_source i S), bs_unresolved = n Res_UNRESOLVED,
          bs_ambiguous = n Res_AMBIGUOUS, bs_not_applicable = n Res_NOT_APPLICABLE\<rparr>)"


section \<open>Steps and the invariant\<close>

text \<open>
  The writes of this component. The parameter \<open>obs\<close> holds the pairs of a value and a kind that the collectors put
  during the run; with \<open>obs = (\<lambda>_ _. True)\<close> nothing is restricted.
\<close>

inductive source_step ::
  "host_env \<Rightarrow> (bytes \<Rightarrow> string) \<Rightarrow> (string \<Rightarrow> infrastructure_kind \<Rightarrow> bool) \<Rightarrow> source_store \<Rightarrow> source_store \<Rightarrow> bool" for H sha obs where
  upsert: "source_step H sha obs S (snd (upsert_source n k nm t S))"
| update: "source_step H sha obs S (snd (update_source i nm nt S))"
| add: "source_step H sha obs S (snd (add_source_domain H n s p k pr t u nt S))"
| remove: "source_step H sha obs S (snd (remove_source_domain i t u S))"
| swap: "source_step H sha obs S (snd (swap_source_domain_primary s i S))"
| url: "source_step H sha obs S (snd (set_source_canonical_url H i c S))"
| delete: "source_step H sha obs S (snd (delete_source i S))"
| put: "obs v k \<Longrightarrow> source_step H sha obs S (snd (put_infrastructure_artifact H sha n k v t t' S))"

definition disjoint_domains :: "domain_row list \<Rightarrow> bool" where
  "disjoint_domains ds \<longleftrightarrow> (\<forall>d\<in>set ds. \<forall>e\<in>set ds. domain_active d \<longrightarrow> domain_active e \<longrightarrow> sd_id d \<noteq> sd_id e
     \<longrightarrow> \<not> common_host (sd_pattern d) (sd_kind d) (sd_pattern e) (sd_kind e))"

definition one_primary :: "domain_row list \<Rightarrow> bool" where
  "one_primary ds \<longleftrightarrow> (\<forall>d\<in>set ds. \<forall>e\<in>set ds. active_primary d \<noteq> None \<longrightarrow> active_primary d = active_primary e \<longrightarrow> sd_id d = sd_id e)"

text \<open>
  An artifact is \<open>bridged\<close> when its row satisfies the constraints of the table, is not ambiguous and, if it is unresolved, no
  active pattern matches its host. The last part is for the values recorded under one kind: \<open>put\<close> looks rows up by
  the hash of the value alone and resolves an existing row under the kind of the caller.
\<close>

definition one_kind :: "(string \<Rightarrow> infrastructure_kind \<Rightarrow> bool) \<Rightarrow> artifact_row \<Rightarrow> bool" where
  "one_kind obs a \<longleftrightarrow> (\<forall>k. obs (ia_value a) k \<longrightarrow> k = ia_kind a)"

definition unowned :: "host_env \<Rightarrow> infrastructure_kind \<Rightarrow> string \<Rightarrow> source_store \<Rightarrow> bool" where
  "unowned H k v S \<longleftrightarrow> k \<in> BRIDGEABLE_KINDS \<and> (\<forall>h. artifact_value_to_host H k v = Inr (Some h) \<longrightarrow> domains_for_host h S = [])"

definition bridged :: "host_env \<Rightarrow> (bytes \<Rightarrow> string) \<Rightarrow> (string \<Rightarrow> infrastructure_kind \<Rightarrow> bool) \<Rightarrow> source_store \<Rightarrow> artifact_row \<Rightarrow> bool" where
  "bridged H sha obs S a \<longleftrightarrow> artifact_checks a \<and> ia_state a \<noteq> Res_AMBIGUOUS
     \<and> ia_value_hash a = sha (utf8 (ia_value a)) \<and> obs (ia_value a) (ia_kind a)
     \<and> (ia_state a = Res_UNRESOLVED \<longrightarrow> one_kind obs a \<longrightarrow> unowned H (ia_kind a) (ia_value a) S)"

definition source_wf :: "host_env \<Rightarrow> (bytes \<Rightarrow> string) \<Rightarrow> (string \<Rightarrow> infrastructure_kind \<Rightarrow> bool) \<Rightarrow> source_store \<Rightarrow> bool" where
  "source_wf H sha obs S \<longleftrightarrow> keyed sd_id (ss_domains S) \<and> list_all domain_checks (ss_domains S)
     \<and> disjoint_domains (ss_domains S) \<and> one_primary (ss_domains S)
     \<and> keyed ia_id (ss_artifacts S) \<and> list_all (bridged H sha obs S) (ss_artifacts S)"

lemma put_sources_fields [simp]:
  "ss_domains (put_sources x S) = ss_domains S" "ss_artifacts (put_sources x S) = ss_artifacts S"
  by (simp_all add: put_sources_def)

lemma domains_for_host_cong: "ss_domains S' = ss_domains S \<Longrightarrow> domains_for_host h S' = domains_for_host h S"
  by (simp add: domains_for_host_def)

lemma bridged_cong: "ss_domains S' = ss_domains S \<Longrightarrow> bridged H sha obs S' a = bridged H sha obs S a"
  by (simp add: bridged_def unowned_def domains_for_host_def)

lemma source_wf_same:
  assumes "ss_domains S' = ss_domains S" and "ss_artifacts S' = ss_artifacts S" and "source_wf H sha obs S"
  shows "source_wf H sha obs S'"
  using assms bridged_cong [OF assms(1), of H sha obs] by (simp add: source_wf_def list_all_iff)

text \<open>With fewer active patterns every unresolved artifact stays unowned.\<close>

lemma bridged_fewer:
  assumes "\<And>h. domains_for_host h S = [] \<Longrightarrow> domains_for_host h S' = []" and "bridged H sha obs S a"
  shows "bridged H sha obs S' a"
  using assms by (auto simp: bridged_def unowned_def)

text \<open>At most one active pattern matches a host.\<close>

lemma host_domainD:
  assumes "d \<in> set (domains_for_host h S)"
  shows "d \<in> set (ss_domains S)" "domain_active d" "pattern_matches_host (sd_pattern d) (sd_kind d) h"
  using assms by (simp_all add: domains_for_host_def)

lemma single_owner:
  assumes "source_wf H sha obs S" and "d \<in> set (domains_for_host h S)"
  shows "domains_for_host h S = [d]"
proof -
  note d = host_domainD [OF assms(2)]
  have disj: "disjoint_domains (ss_domains S)" and k: "keyed sd_id (ss_domains S)"
    using assms(1) by (simp_all add: source_wf_def)
  have same: "e = d" if "e \<in> set (domains_for_host h S)" for e
  proof -
    note e = host_domainD [OF that]
    have "common_host (sd_pattern e) (sd_kind e) (sd_pattern d) (sd_kind d)"
      unfolding common_host_def using d(3) e(3) by blast
    then have "sd_id e = sd_id d" using disj d e unfolding disjoint_domains_def by blast
    then show ?thesis by (rule keyed_eq [OF k e(1) d(1)])
  qed
  have "distinct (domains_for_host h S)"
    using k by (simp add: domains_for_host_def keyed_def distinct_map)
  then show ?thesis using same assms(2)
    by (cases "domains_for_host h S") (simp, metis distinct.simps(2) list.set_intros neq_Nil_conv)
qed

lemma find_exact:
  assumes "source_wf H sha obs S"
  shows "find_source_for_host H host S = Inr (Some d) \<longleftrightarrow>
    (\<exists>h. normalize_host (he_idna H) host = Inr h \<and> d \<in> set (domains_for_host h S))"
proof (cases "normalize_host (he_idna H) host")
  case (Inl e)
  then show ?thesis by (simp add: find_source_for_host_def)
next
  case (Inr h)
  show ?thesis
  proof (cases "domains_for_host h S")
    case Nil
    then show ?thesis by (simp add: find_source_for_host_def Inr order_asc_def)
  next
    case (Cons e es)
    then have "domains_for_host h S = [e]" using single_owner [OF assms, of e h] by simp
    then show ?thesis by (auto simp: find_source_for_host_def Inr order_asc_def)
  qed
qed


lemma disjoint_subset: "set ds' \<subseteq> set ds \<Longrightarrow> disjoint_domains ds \<Longrightarrow> disjoint_domains ds'"
  unfolding disjoint_domains_def by blast

lemma one_primary_subset: "set ds' \<subseteq> set ds \<Longrightarrow> one_primary ds \<Longrightarrow> one_primary ds'"
  unfolding one_primary_def by blast

lemma no_host_subset:
  assumes "\<And>d. d \<in> set (ss_domains S') \<Longrightarrow> domain_active d \<Longrightarrow> d \<in> set (ss_domains S)" and "domains_for_host h S = []"
  shows "domains_for_host h S' = []"
  using assms unfolding domains_for_host_def filter_empty_conv by auto

lemma upsert_source_same: "ss_domains (snd (upsert_source n k nm t S)) = ss_domains S"
    "ss_artifacts (snd (upsert_source n k nm t S)) = ss_artifacts S"
  by (simp_all add: upsert_source_def split: option.split)

lemma update_source_same: "ss_domains (snd (update_source i nm nt S)) = ss_domains S"
    "ss_artifacts (snd (update_source i nm nt S)) = ss_artifacts S"
  by (simp_all add: update_source_def Let_def split: option.split)

lemma canonical_url_same: "ss_domains (snd (set_source_canonical_url H i c S)) = ss_domains S"
    "ss_artifacts (snd (set_source_canonical_url H i c S)) = ss_artifacts S"
  by (simp_all add: set_source_canonical_url_def update_source_canonical_url_def Let_def split: option.split sum.split)

lemma delete_source_wf:
  assumes "source_wf H sha obs S"
  shows "source_wf H sha obs (snd (delete_source i S))"
proof (cases "tbl_has so_id i (all_sources S) \<and> source_usage i S = []")
  case True
  let ?S = "snd (delete_source i S)"
  have d: "ss_domains ?S = filter (\<lambda>d. sd_source_id d \<noteq> i) (ss_domains S)" and a: "ss_artifacts ?S = ss_artifacts S"
    using True by (simp_all add: delete_source_def)
  have sub: "set (ss_domains ?S) \<subseteq> set (ss_domains S)" using d by auto
  have "domains_for_host h ?S = []" if "domains_for_host h S = []" for h
    by (rule no_host_subset [OF _ that]) (use sub in blast)
  then have "bridged H sha obs ?S x" if "bridged H sha obs S x" for x
    using bridged_fewer that by blast
  then show ?thesis
    using assms disjoint_subset [OF sub] one_primary_subset [OF sub] unfolding source_wf_def a
    by (simp add: list_all_iff d keyed_def distinct_map_filter)
next
  case False
  then show ?thesis using assms by (auto simp: delete_source_def)
qed

lemma remove_domain_wf:
  assumes "source_wf H sha obs S"
  shows "source_wf H sha obs (snd (remove_source_domain i t u S))"
proof (cases "\<exists>d. tbl_get sd_id i (ss_domains S) = Some d \<and> sd_removed_at d = None \<and> user_fk (Some u) S")
  case True
  then obtain d where g: "tbl_get sd_id i (ss_domains S) = Some d" "sd_removed_at d = None" "user_fk (Some u) S" by blast
  let ?S = "snd (remove_source_domain i t u S)"
  let ?d = "d\<lparr>sd_removed_at := Some t, sd_removed_by := Some u\<rparr>"
  have ds: "ss_domains ?S = tbl_save sd_id ?d (ss_domains S)" and a: "ss_artifacts ?S = ss_artifacts S"
    using g by (simp_all add: remove_source_domain_def Let_def)
  have mem: "e = ?d \<or> e \<in> set (ss_domains S)" if "e \<in> set (ss_domains ?S)" for e
    using that set_tbl_save_sub unfolding ds by fast
  have off: "\<not> domain_active ?d" "active_primary ?d = None" by (simp_all add: domain_active_def active_primary_def)
  have "domains_for_host h ?S = []" if "domains_for_host h S = []" for h
    by (rule no_host_subset [OF _ that]) (use mem off(1) in blast)
  then have "bridged H sha obs ?S x" if "bridged H sha obs S x" for x
    using bridged_fewer that by blast
  moreover have "disjoint_domains (ss_domains ?S)"
    using assms mem off(1) unfolding source_wf_def disjoint_domains_def by blast
  moreover have "one_primary (ss_domains ?S)"
    using assms mem off(2) unfolding source_wf_def one_primary_def by metis
  moreover have "domain_checks ?d"
    using assms tbl_get_SomeD [OF g(1)] by (auto simp: source_wf_def list_all_iff domain_checks_def)
  then have "list_all domain_checks (ss_domains ?S)"
    using assms mem by (auto simp: source_wf_def list_all_iff)
  ultimately show ?thesis using assms unfolding source_wf_def a by (simp add: list_all_iff ds)
next
  case False
  then have "snd (remove_source_domain i t u S) = S"
    by (auto simp: remove_source_domain_def split: option.split)
  then show ?thesis using assms by simp
qed

text \<open>A rewrite of the primary flags alone keeps everything but the choice of primary.\<close>

lemma reflag_wf:
  assumes "source_wf H sha obs S" and "S' = S\<lparr>ss_domains := map g (ss_domains S)\<rparr>"
    and "\<And>d. \<exists>b. g d = d\<lparr>sd_is_primary := b\<rparr>" and "one_primary (map g (ss_domains S))"
  shows "source_wf H sha obs S'"
proof -
  have g: "sd_id (g d) = sd_id d" "sd_pattern (g d) = sd_pattern d" "sd_kind (g d) = sd_kind d"
    "domain_active (g d) = domain_active d" "domain_checks (g d) = domain_checks d" for d
    using assms(3) [of d] by (auto simp: domain_active_def domain_checks_def)
  have "domains_for_host h S' = [] \<longleftrightarrow> domains_for_host h S = []" for h
    unfolding domains_for_host_def filter_filter filter_empty_conv assms(2) by (auto simp: g)
  then have b: "bridged H sha obs S' a = bridged H sha obs S a" for a by (simp add: bridged_def unowned_def)
  have "disjoint_domains (map g (ss_domains S)) = disjoint_domains (ss_domains S)"
    unfolding disjoint_domains_def by (simp add: g)
  moreover have "keyed sd_id (map g (ss_domains S)) = keyed sd_id (ss_domains S)"
    unfolding keyed_def by (simp add: comp_def g)
  moreover have "list_all domain_checks (map g (ss_domains S)) = list_all domain_checks (ss_domains S)"
    by (simp add: list_all_iff g)
  ultimately show ?thesis
    using assms(1,4) by (simp add: source_wf_def assms(2) b [unfolded assms(2)] list_all_iff)
qed

lemma swap_primary_wf:
  assumes "source_wf H sha obs S"
  shows "source_wf H sha obs (snd (swap_source_domain_primary s i S))"
proof (cases "\<exists>t. tbl_get sd_id i (ss_domains S) = Some t \<and> sd_source_id t = s \<and> sd_removed_at t = None")
  case True
  then obtain t where t: "tbl_get sd_id i (ss_domains S) = Some t" "sd_source_id t = s" "sd_removed_at t = None" by blast
  have k: "keyed sd_id (ss_domains S)" using assms by (simp add: source_wf_def)
  have t': "t \<in> set (ss_domains S)" "sd_id t = i" using tbl_get_SomeD [OF t(1)] by auto
  define g :: "domain_row \<Rightarrow> domain_row" where "g = (\<lambda>d. if sd_id d = i then d\<lparr>sd_is_primary := True\<rparr>
     else if sd_source_id d = s \<and> sd_is_primary d \<and> sd_removed_at d = None then d\<lparr>sd_is_primary := False\<rparr> else d)"
  have "tbl_save sd_id (t\<lparr>sd_is_primary := True\<rparr>)
      (tbl_update (\<lambda>d. sd_source_id d = s \<and> sd_is_primary d \<and> sd_removed_at d = None \<and> sd_id d \<noteq> i)
        (\<lambda>d. d\<lparr>sd_is_primary := False\<rparr>) (ss_domains S)) = map g (ss_domains S)"
    using t'(2) keyed_eq [OF k _ t'(1)] by (auto simp: tbl_save_def tbl_update_def g_def)
  then have S': "snd (swap_source_domain_primary s i S) = S\<lparr>ss_domains := map g (ss_domains S)\<rparr>"
    using t by (simp add: swap_source_domain_primary_def Let_def)
  have "one_primary (map g (ss_domains S))"
    using assms k t' t(2,3) unfolding one_primary_def source_wf_def
    by (auto simp: g_def active_primary_def dest: keyed_eq [OF k _ t'(1)] split: if_splits) (metis option.distinct(1))
  moreover have "\<exists>b. g d = d\<lparr>sd_is_primary := b\<rparr>" for d
    by (cases d) (auto simp: g_def)
  ultimately show ?thesis by (intro reflag_wf [OF assms S'])
next
  case False
  then have "snd (swap_source_domain_primary s i S) = S"
    by (auto simp: swap_source_domain_primary_def split: option.split)
  then show ?thesis using assms by simp
qed


text \<open>Adding a pattern: the new row meets no active one, and the sweep leaves no owned artifact behind.\<close>

lemma sweep_row_keeps:
  assumes "sweep_row H p k s a = Inr a'"
  shows "ia_id a' = ia_id a" "ia_kind a' = ia_kind a" "ia_value a' = ia_value a" "ia_value_hash a' = ia_value_hash a"
  using assms by (auto simp: sweep_row_def split: if_splits sum.splits option.splits)

lemma sweep_map: "sweep H p k s as = Inr as' \<Longrightarrow> list_all2 (\<lambda>a a'. sweep_row H p k s a = Inr a') as as'"
  by (induction as arbitrary: as') (auto split: sum.splits)

lemma detect_overlap_None:
  "detect_overlap p k S = None \<longleftrightarrow>
    (\<forall>d\<in>set (ss_domains S). domain_active d \<longrightarrow> \<not> common_host p k (sd_pattern d) (sd_kind d))"
  by (auto simp: detect_overlap_def find_None_iff patterns_intersect_exact)

lemma sweep_row_cases:
  assumes "sweep_row H p k s a = Inr a'"
  obtains (other) "a' = a" and "ia_state a \<noteq> Res_UNRESOLVED"
    | (unmatched) "a' = a" and "\<And>h. ia_kind a \<in> BRIDGEABLE_KINDS \<Longrightarrow> artifact_value_to_host H (ia_kind a) (ia_value a) = Inr (Some h)
        \<Longrightarrow> \<not> pattern_matches_host p k h"
    | (swept) "a' = a\<lparr>ia_state := Res_RESOLVED, ia_resolved_to := Some s\<rparr>"
  using assms by (auto simp: sweep_row_def split: if_splits sum.splits option.splits)

lemma sweep_row_bridged:
  assumes "sweep_row H p k s a = Inr a'" and "bridged H sha obs S a"
    and "\<And>h. domains_for_host h S = [] \<Longrightarrow> \<not> pattern_matches_host p k h \<Longrightarrow> domains_for_host h S' = []"
  shows "bridged H sha obs S' a'"
  using assms(1)
proof (cases rule: sweep_row_cases)
  case other
  then show ?thesis using assms(2) by (simp add: bridged_def)
next
  case unmatched
  have "unowned H (ia_kind a) (ia_value a) S'" if u: "unowned H (ia_kind a) (ia_value a) S"
    unfolding unowned_def
  proof (intro conjI allI impI)
    show kind: "ia_kind a \<in> BRIDGEABLE_KINDS" using u by (simp add: unowned_def)
    fix h assume h: "artifact_value_to_host H (ia_kind a) (ia_value a) = Inr (Some h)"
    then have "domains_for_host h S = []" using u by (simp add: unowned_def)
    then show "domains_for_host h S' = []" by (rule assms(3)) (rule unmatched(2) [OF kind h])
  qed
  then show ?thesis using assms(2) unfolding bridged_def unmatched(1) by blast
next
  case swept
  then show ?thesis using assms(2) by (simp add: bridged_def artifact_checks_def)
qed

lemma sweep_keeps:
  assumes "sweep H p k s as = Inr as'"
  shows "keyed ia_id as' = keyed ia_id as"
    and "a' \<in> set as' \<Longrightarrow> \<exists>a\<in>set as. sweep_row H p k s a = Inr a'"
proof -
  note rows = sweep_map [OF assms]
  have "map ia_id as' = map ia_id as"
    using rows by (induction rule: list_all2_induct) (auto dest: sweep_row_keeps)
  then show "keyed ia_id as' = keyed ia_id as" by (simp add: keyed_def)
  show "a' \<in> set as' \<Longrightarrow> \<exists>a\<in>set as. sweep_row H p k s a = Inr a'"
    using rows by (induction rule: list_all2_induct) auto
qed

text \<open>What a successful addition did.\<close>

lemma add_source_domainE:
  assumes "add_source_domain H n s pat k pr t u nt S = (Inr d, T)"
  obtains p as where "normalize_host (he_idna H) pat = Inr p" "detect_overlap p k S = None"
    "sd_id d = n" "sd_pattern d = p" "sd_kind d = k" "insert_domain d S = (Inr (), S\<lparr>ss_domains := ss_domains S @ [d]\<rparr>)"
    "sweep H p k s (ss_artifacts S) = Inr as"
    "T = S\<lparr>ss_domains := ss_domains S @ [d], ss_artifacts := as\<rparr>"
  using assms unfolding add_source_domain_def insert_domain_def Let_def
  by (auto split: sum.splits option.splits prod.splits if_splits)

lemma add_source_domain_fails: "add_source_domain H n s p k pr t u nt S = (Inl e, T) \<Longrightarrow> T = S"
  unfolding add_source_domain_def Let_def by (auto split: sum.splits option.splits prod.splits if_splits)

lemma disjoint_insert:
  assumes "disjoint_domains ds" and "\<And>e. e \<in> set ds \<Longrightarrow> domain_active e \<Longrightarrow>
      \<not> common_host (sd_pattern d) (sd_kind d) (sd_pattern e) (sd_kind e)"
  shows "disjoint_domains (ds @ [d])"
proof -
  have "\<not> common_host (sd_pattern e) (sd_kind e) (sd_pattern d) (sd_kind d)" if "e \<in> set ds" "domain_active e" for e
    using assms(2) [OF that] by (simp only: common_host_commute [of "sd_pattern e"] not_False_eq_True)
  then show ?thesis using assms unfolding disjoint_domains_def by (simp add: ball_Un)
qed

lemma one_primary_insert:
  assumes "one_primary ds" and "active_primary d = None \<or> (\<forall>e\<in>set ds. active_primary e \<noteq> active_primary d)"
  shows "one_primary (ds @ [d])"
  unfolding one_primary_def
proof (intro ballI impI)
  fix x y assume m: "x \<in> set (ds @ [d])" "y \<in> set (ds @ [d])" and e: "active_primary x \<noteq> None" "active_primary x = active_primary y"
  consider "x = d" "y = d" | "x \<in> set ds" "y \<in> set ds" | "x = d" "y \<in> set ds" | "x \<in> set ds" "y = d" using m by auto
  then show "sd_id x = sd_id y"
  proof cases
    case 1 then show ?thesis by simp
  next
    case 2 then show ?thesis using assms(1) e unfolding one_primary_def by blast
  next
    case 3 then show ?thesis using assms(2) e by metis
  next
    case 4 then show ?thesis using assms(2) e by metis
  qed
qed

lemma add_source_domain_wf:
  assumes "source_wf H sha obs S"
  shows "source_wf H sha obs (snd (add_source_domain H n s pat k pr t u nt S))"
proof (cases "fst (add_source_domain H n s pat k pr t u nt S)")
  case (Inl e)
  then show ?thesis using assms add_source_domain_fails by (metis prod.collapse)
next
  case (Inr d)
  define T where "T = snd (add_source_domain H n s pat k pr t u nt S)"
  have eq: "add_source_domain H n s pat k pr t u nt S = (Inr d, T)" using Inr by (simp add: T_def prod_eq_iff)
  from eq obtain p as where "normalize_host (he_idna H) pat = Inr p"
    and a: "detect_overlap p k S = None" "sd_id d = n" "sd_pattern d = p" "sd_kind d = k"
    and ins: "insert_domain d S = (Inr (), S\<lparr>ss_domains := ss_domains S @ [d]\<rparr>)"
    and sw: "sweep H p k s (ss_artifacts S) = Inr as" and T: "T = S\<lparr>ss_domains := ss_domains S @ [d], ss_artifacts := as\<rparr>"
    by (rule add_source_domainE)
  have ok: "\<not> tbl_has sd_id (sd_id d) (ss_domains S)" "domain_checks d"
    "active_primary d = None \<or> (\<forall>e\<in>set (ss_domains S). active_primary e \<noteq> active_primary d)"
    using ins by (auto simp: insert_domain_def split: if_splits)
  have no_host: "domains_for_host h T = []" if "domains_for_host h S = []" "\<not> pattern_matches_host p k h" for h
    using that by (simp add: domains_for_host_def T a)
  have "disjoint_domains (ss_domains S @ [d])"
    using assms a unfolding source_wf_def by (intro disjoint_insert) (auto simp: detect_overlap_None)
  moreover have "one_primary (ss_domains S @ [d])"
    using assms ok(3) by (intro one_primary_insert) (simp_all add: source_wf_def)
  moreover have "keyed sd_id (ss_domains S @ [d])"
    using assms ok(1) by (auto simp: source_wf_def keyed_def tbl_has_def)
  moreover have "bridged H sha obs T x'" if mem: "x' \<in> set as" for x'
  proof -
    obtain x where x: "x \<in> set (ss_artifacts S)" "sweep_row H p k s x = Inr x'"
      using sweep_keeps(2) [OF sw mem] by blast
    then have "bridged H sha obs S x" using assms by (simp add: source_wf_def list_all_iff)
    then show ?thesis by (rule sweep_row_bridged [OF x(2)]) (rule no_host)
  qed
  ultimately show ?thesis
    using assms ok(2) sweep_keeps(1) [OF sw] unfolding T_def [symmetric]
    by (simp add: source_wf_def T list_all_iff)
qed


text \<open>A recorded artifact: the same resolution whether the row is new or seen before.\<close>

lemma distinct_count_single: "distinct_count f [x] = 1"
  by (simp add: distinct_count_def)

lemma resolve_unowned:
  assumes "source_wf H sha obs S" and "resolve_artifact H k v S = Inr (st, res)"
  shows "(st = Res_RESOLVED \<longleftrightarrow> res \<noteq> None) \<and> st \<noteq> Res_AMBIGUOUS \<and> (st = Res_UNRESOLVED \<longrightarrow> unowned H k v S)"
proof -
  have own: "distinct_count sd_source_id (d # ds) = 1" if "domains_for_host h S = d # ds" for h d ds
  proof -
    have "d # ds = [d]" using single_owner [OF assms(1), of d h] that by simp
    then show ?thesis by (simp add: distinct_count_single)
  qed
  show ?thesis
  proof (cases "k \<in> BRIDGEABLE_KINDS")
    case False
    then have "st = Res_NOT_APPLICABLE" "res = None" using assms(2) by (auto simp: resolve_artifact_def)
    then show ?thesis by simp
  next
    case k: True
    show ?thesis
    proof (cases "artifact_value_to_host H k v")
      case (Inl e)
      then show ?thesis using assms(2) k by (simp add: resolve_artifact_def)
    next
      case (Inr host)
      show ?thesis
      proof (cases "\<exists>h d ds. host = Some h \<and> domains_for_host h S = d # ds")
        case True
        then obtain h d ds where h: "host = Some h" "domains_for_host h S = d # ds" by blast
        then have "st = Res_RESOLVED" "res = Some (sd_source_id d)"
          using assms(2) k Inr own [OF h(2)] by (auto simp: resolve_artifact_def)
        then show ?thesis by simp
      next
        case False
        then have free: "domains_for_host h S = []" if "host = Some h" for h using that by (cases "domains_for_host h S") auto
        then have "st = Res_UNRESOLVED \<and> res = None" using assms(2) k Inr by (cases host) (auto simp: resolve_artifact_def)
        moreover have "unowned H k v S" using k Inr free by (simp add: unowned_def)
        ultimately show ?thesis by simp
      qed
    qed
  qed
qed

lemma one_or_none_member: "one_or_none (filter P rows) = Inr (Some r) \<Longrightarrow> r \<in> set rows \<and> P r"
  by (auto simp: one_or_none_def split: list.splits) (metis filter_eq_ConsD in_set_conv_decomp)+

lemma put_artifact_wf:
  assumes "source_wf H sha obs S"
    and obs: "obs v k" and sha: "inj_on sha (utf8 ` {v. \<exists>k. obs v k})"
  shows "source_wf H sha obs (snd (put_infrastructure_artifact H sha n k v t t' S))"
proof -
  let ?T = "snd (put_infrastructure_artifact H sha n k v t t' S)"
  have ds: "ss_domains ?T = ss_domains S"
    by (simp add: put_infrastructure_artifact_def Let_def split: sum.split option.split)
  have wf: "keyed ia_id (ss_artifacts S)" "\<And>a. a \<in> set (ss_artifacts S) \<Longrightarrow> bridged H sha obs S a"
    using assms(1) by (simp_all add: source_wf_def list_all_iff)
  let ?old = "one_or_none (filter (\<lambda>a. ia_value_hash a = sha (utf8 v)) (ss_artifacts S))"
  consider "ss_artifacts ?T = ss_artifacts S"
    | a a' where "a \<in> set (ss_artifacts S)" "ia_id a' = ia_id a" "bridged H sha obs S a'" "ss_artifacts ?T = tbl_save ia_id a' (ss_artifacts S)"
    | a where "bridged H sha obs S a" "\<not> tbl_has ia_id (ia_id a) (ss_artifacts S)" "ss_artifacts ?T = ss_artifacts S @ [a]"
  proof (cases "?old")
    case (Inl e)
    then show ?thesis using that(1) by (simp add: put_infrastructure_artifact_def)
  next
    case old: (Inr existing)
    show ?thesis
    proof (cases "resolve_artifact H k v S")
      case (Inl e)
      then show ?thesis using that(1) by (simp add: put_infrastructure_artifact_def old)
    next
      case (Inr r)
      obtain st res where r: "resolve_artifact H k v S = Inr (st, res)" using Inr by (cases r) simp
      show ?thesis
      proof (cases existing)
        case None
        let ?a = "\<lparr>ia_id = n, ia_kind = k, ia_value = v, ia_value_hash = sha (utf8 v), ia_first_seen = t,
            ia_last_seen = t', ia_resolved_to = res, ia_state = st\<rparr>"
        have "bridged H sha obs S ?a" using resolve_unowned [OF assms(1) r] obs by (simp add: bridged_def artifact_checks_def)
        moreover have "tbl_has ia_id n (ss_artifacts S) \<Longrightarrow> ss_artifacts ?T = ss_artifacts S"
          "\<not> tbl_has ia_id n (ss_artifacts S) \<Longrightarrow> ss_artifacts ?T = ss_artifacts S @ [?a]"
          by (simp_all add: put_infrastructure_artifact_def old r Let_def None)
        ultimately show ?thesis using that(1) that(3) [of ?a] by (cases "tbl_has ia_id n (ss_artifacts S)") simp_all
      next
        case (Some a)
        have m: "a \<in> set (ss_artifacts S)" "ia_value_hash a = sha (utf8 v)"
          using one_or_none_member [OF old [unfolded Some]] by simp_all
        have old_a: "ia_value_hash a = sha (utf8 (ia_value a))" "obs (ia_value a) (ia_kind a)"
          using wf(2) [OF m(1)] by (simp_all add: bridged_def)
        then have "utf8 (ia_value a) = utf8 v" using m(2) obs by (intro inj_onD [OF sha]) auto
        then have v: "ia_value a = v" by (rule utf8_inj)
        let ?a = "a\<lparr>ia_last_seen := t', ia_state := st, ia_resolved_to := res\<rparr>"
        note res = resolve_unowned [OF assms(1) r]
        have u: "unowned H (ia_kind a) (ia_value a) S" if st: "st = Res_UNRESOLVED" and one: "one_kind obs a"
        proof -
          have "k = ia_kind a" using one obs unfolding one_kind_def v by blast
          then show ?thesis using res st v by simp
        qed
        have one: "one_kind obs ?a = one_kind obs a" by (simp add: one_kind_def)
        have checks: "artifact_checks ?a" "st \<noteq> Res_AMBIGUOUS" using res by (simp_all add: artifact_checks_def)
        have "bridged H sha obs S ?a"
          unfolding bridged_def one using checks old_a u by simp
        then show ?thesis using that(2) [OF m(1), of ?a] by (simp add: put_infrastructure_artifact_def old r Let_def Some)
      qed
    qed
  qed
  then have "keyed ia_id (ss_artifacts ?T) \<and> (\<forall>a\<in>set (ss_artifacts ?T). bridged H sha obs S a)"
  proof cases
    case 1 then show ?thesis using wf by simp
  next
    case (2 a a') then show ?thesis using wf set_tbl_save_sub by fastforce
  next
    case (3 a) then show ?thesis using wf by (auto simp: keyed_def tbl_has_def)
  qed
  then show ?thesis
    using assms(1) bridged_cong [OF ds, of H sha obs] by (simp add: source_wf_def ds list_all_iff)
qed

end
