(* ===== verification/Source_Properties.thy ===== *)
theory Source_Properties
  imports Sources
begin

text \<open>
  Properties of host patterns and of the routing of hosts and artifacts to sources.
\<close>

lemma source_step_wf:
  assumes "source_step H sha obs S T" and "source_wf H sha obs S" and "inj_on sha (utf8 ` {v. \<exists>k. obs v k})"
  shows "source_wf H sha obs T"
  using assms
proof (cases rule: source_step.cases)
  case (upsert n k nm t)
  then show ?thesis using source_wf_same [OF _ _ assms(2)] upsert_source_same by simp
next
  case (update i nm nt)
  then show ?thesis using source_wf_same [OF _ _ assms(2)] update_source_same by simp
next
  case (add n s p k pr t u nt)
  then show ?thesis using add_source_domain_wf [OF assms(2)] by simp
next
  case (remove i t u)
  then show ?thesis using remove_domain_wf [OF assms(2)] by simp
next
  case (swap s i)
  then show ?thesis using swap_primary_wf [OF assms(2)] by simp
next
  case (url i c)
  then show ?thesis using source_wf_same [OF _ _ assms(2)] canonical_url_same by simp
next
  case (delete i)
  then show ?thesis using delete_source_wf [OF assms(2)] by simp
next
  case (put v k n t t')
  then show ?thesis using put_artifact_wf [OF assms(2) _ assms(3), of v k n t t'] by blast
qed

lemma source_steps_wf:
  assumes "(source_step H sha obs)\<^sup>*\<^sup>* S T" and "source_wf H sha obs S" and "inj_on sha (utf8 ` {v. \<exists>k. obs v k})"
  shows "source_wf H sha obs T"
  using assms by (induction rule: rtranclp_induct) (auto intro: source_step_wf)

section \<open>Properties\<close>

text \<open>C17: Two patterns are reported as intersecting exactly when some host matches both, for every
  pair of kinds and in either order of the arguments; the assertion is never reached.\<close>

theorem patterns_intersect_iff:
  "patterns_intersect p1 k1 p2 k2 = Some (\<exists>h. pattern_matches_host p1 k1 h \<and> pattern_matches_host p2 k2 h)"
  using patterns_intersect_exact [of p1 k1 p2 k2] by (simp add: common_host_def)

text \<open>C18: Over any sequence of operations on sources, patterns and artifacts that starts from a consistent store, the active
  patterns stay pairwise disjoint with at most one primary per source, no artifact is ambiguous, an artifact is resolved
  exactly when it names a source, and no unresolved artifact has a matching pattern, as long as its value is recorded under
  no second kind (\<open>obs\<close> holds what the run puts). SHA-256 has no collision among the values put.\<close>

theorem source_invariant:
  assumes "(source_step H sha obs)\<^sup>*\<^sup>* S T" and "source_wf H sha obs S" and "inj_on sha (utf8 ` {v. \<exists>k. obs v k})"
  shows "source_wf H sha obs T"
  by (rule source_steps_wf [OF assms])

text \<open>In every store reached from a consistent one, a host is routed to a pattern row exactly when the
  row is active and its pattern matches the normalised host: the order of preference between pattern
  kinds never has to decide.\<close>

lemma routing_exact:
  assumes "(source_step H sha obs)\<^sup>*\<^sup>* S T" and "source_wf H sha obs S" and "inj_on sha (utf8 ` {v. \<exists>k. obs v k})"
  shows "find_source_for_host H host T = Inr (Some d) \<longleftrightarrow>
    (\<exists>h. normalize_host (he_idna H) host = Inr h \<and> d \<in> set (ss_domains T) \<and> sd_removed_at d = None
       \<and> pattern_matches_host (sd_pattern d) (sd_kind d) h)"
  using find_exact [OF source_steps_wf [OF assms], of host d]
  by (simp add: domains_for_host_def domain_active_def)

section \<open>Witnesses\<close>

definition example_hosts :: host_env where
  "example_hosts = \<lparr>he_idna = (\<lambda>s. Some s), he_netloc_ok = (\<lambda>_. True)\<rparr>"

lemma example_hash_inj_on: "inj_on example_hash (utf8 ` {v. \<exists>k. obs v k})"
  by (rule inj_on_subset [OF example_hash_inj subset_UNIV])

text \<open>Every value under one kind.\<close>

definition example_obs :: "string \<Rightarrow> infrastructure_kind \<Rightarrow> bool" where
  "example_obs v k \<longleftrightarrow> k = Infra_DOMAIN"

text \<open>One source, one artifact seen before any pattern, then a wildcard pattern for its host.\<close>

definition example_sources :: source_store where
  "example_sources = \<lparr>ss_disc = \<lparr>ds_sources = [\<lparr>so_id = 1, so_kind = Src_FORUM, so_display_name = ''board'',
        so_canonical_url = None, so_created_at = 0, so_notes = None\<rparr>], ds_messages = [], ds_actors = [], ds_users = [7],
      ds_identities = [], ds_collectors = [], ds_memberships = [], ds_sightings = [], ds_groups = [], ds_candidates = [],
      ds_mentions = [], ds_access = [], ds_cases = example_cases Case_OPEN\<rparr>,
    ss_domains = [], ss_artifacts = [\<lparr>ia_id = 5, ia_kind = Infra_DOMAIN, ia_value = ''A.Ex.org'', ia_value_hash = example_hash (utf8 ''A.Ex.org''),
        ia_first_seen = 0, ia_last_seen = 0, ia_resolved_to = None, ia_state = Res_UNRESOLVED\<rparr>],
    ss_message_sources = [], ss_actor_sources = [], ss_relation_sources = []\<rparr>"

definition example_pattern :: domain_row where
  "example_pattern = \<lparr>sd_id = 9, sd_source_id = 1, sd_pattern = ''ex.org'', sd_kind = SUBDOMAIN_WILDCARD, sd_is_primary = True,
     sd_created_at = 3, sd_created_by = Some 7, sd_removed_at = None, sd_removed_by = None, sd_notes = None\<rparr>"

definition example_routed :: source_store where
  "example_routed = snd (add_source_domain example_hosts 9 1 ''Ex.org'' SUBDOMAIN_WILDCARD True 3 (Some 7) None example_sources)"

lemma example_sources_wf: "obs ''A.Ex.org'' Infra_DOMAIN \<Longrightarrow> source_wf example_hosts example_hash obs example_sources"
  by (simp add: source_wf_def example_sources_def disjoint_domains_def one_primary_def keyed_def bridged_def unowned_def
      artifact_checks_def domains_for_host_def BRIDGEABLE_KINDS_def)

lemma example_normal: "normalize_host (he_idna example_hosts) ''Ex.org'' = Inr ''ex.org''"
  "normalize_host (he_idna example_hosts) ''A.Ex.org'' = Inr ''a.ex.org''"
  by code_simp+

lemma example_routed_eq:
  "add_source_domain example_hosts 9 1 ''Ex.org'' SUBDOMAIN_WILDCARD True 3 (Some 7) None example_sources
    = (Inr example_pattern, example_sources\<lparr>ss_domains := [example_pattern],
        ss_artifacts := map (\<lambda>a. a\<lparr>ia_state := Res_RESOLVED, ia_resolved_to := Some 1\<rparr>) (ss_artifacts example_sources)\<rparr>)"
  by (simp add: add_source_domain_def example_normal detect_overlap_def insert_domain_def sweep_row_def example_pattern_def
      example_sources_def domain_checks_def user_fk_def tbl_has_def active_primary_def BRIDGEABLE_KINDS_def all_sources_def
      artifact_value_to_host_def pattern_matches_host_def is_strict_subdomain_def endswith_def sql_lower_def sql_lower_char_def Let_def)

lemma example_steps: "(source_step example_hosts example_hash obs)\<^sup>*\<^sup>* example_sources example_routed"
  unfolding example_routed_def by (rule r_into_rtranclp, rule source_step.add)

lemma example_routed_rows: "ss_domains example_routed = [example_pattern]"
  "map ia_resolved_to (ss_artifacts example_routed) = [Some 1]"
  unfolding example_routed_def example_routed_eq by (simp_all add: example_sources_def)

theorem source_invariant_witness:
  "source_wf example_hosts example_hash example_obs example_routed \<and> map ia_resolved_to (ss_artifacts example_routed) = [Some 1]"
  using source_invariant [OF example_steps example_sources_wf example_hash_inj_on, of example_obs] example_routed_rows
  by (simp add: example_obs_def)

text \<open>The condition on the kinds is needed. The routed artifact is put again as a paste URL: the row stays a domain, is
  resolved as a URL without a host and loses its source, although the pattern still matches it.\<close>

definition example_reput :: source_store where
  "example_reput = snd (put_infrastructure_artifact example_hosts example_hash 6 Infra_PASTE_URL ''A.Ex.org'' 4 4 example_routed)"

lemma second_kind_unresolves:
  "(source_step example_hosts example_hash (\<lambda>_ _. True))\<^sup>*\<^sup>* example_sources example_reput"
  "map (\<lambda>a. (ia_kind a, ia_value a, ia_state a)) (ss_artifacts example_reput) = [(Infra_DOMAIN, ''A.Ex.org'', Res_UNRESOLVED)]"
  "artifact_value_to_host example_hosts Infra_DOMAIN ''A.Ex.org'' = Inr (Some ''a.ex.org'')"
  "domains_for_host ''a.ex.org'' example_reput = [example_pattern]"
proof -
  have "source_step example_hosts example_hash (\<lambda>_ _. True) example_routed example_reput"
    unfolding example_reput_def by (rule source_step.put) simp
  then show "(source_step example_hosts example_hash (\<lambda>_ _. True))\<^sup>*\<^sup>* example_sources example_reput"
    by (rule rtranclp.rtrancl_into_rtrancl [OF example_steps])
  have host: "artifact_value_to_host example_hosts Infra_PASTE_URL ''A.Ex.org'' = Inr None" by code_simp
  let ?a = "\<lparr>ia_id = 5, ia_kind = Infra_DOMAIN, ia_value = ''A.Ex.org'', ia_value_hash = example_hash (utf8 ''A.Ex.org''),
        ia_first_seen = 0, ia_last_seen = 0, ia_resolved_to = Some 1, ia_state = Res_RESOLVED\<rparr>"
  have rows: "ss_artifacts example_routed = [?a]"
    unfolding example_routed_def example_routed_eq by (simp add: example_sources_def)
  have reput: "ss_artifacts example_reput = [?a\<lparr>ia_last_seen := 4, ia_state := Res_UNRESOLVED, ia_resolved_to := None\<rparr>]"
    "ss_domains example_reput = ss_domains example_routed"
    by (simp_all add: example_reput_def put_infrastructure_artifact_def rows one_or_none_def resolve_artifact_def host BRIDGEABLE_KINDS_def
        tbl_save_def Let_def)
  show "map (\<lambda>a. (ia_kind a, ia_value a, ia_state a)) (ss_artifacts example_reput) = [(Infra_DOMAIN, ''A.Ex.org'', Res_UNRESOLVED)]"
    unfolding reput by simp
  show "artifact_value_to_host example_hosts Infra_DOMAIN ''A.Ex.org'' = Inr (Some ''a.ex.org'')" by code_simp
  show "domains_for_host ''a.ex.org'' example_reput = [example_pattern]"
    unfolding domains_for_host_def reput(2) example_routed_rows(1) by code_simp
qed

end
