(* ===== verification/Crews.thy ===== *)
theory Crews
  imports Complex_Main "HOL-Library.List_Lexorder" "HOL-Library.Char_ord" "HOL-Library.AList" "HOL-Library.Multiset" Eyenet_Prelude
begin

text \<open>
  Crews: the clustering of shared-infrastructure edges by union-find (\<open>linker/crews.py\<close>). The parent
  dictionary is a map; the two loops of \<open>find\<close> may run forever on an arbitrary map, so they are partial
  (\<open>None\<close> is a loop that does not end) and a missing key is the \<open>KeyError\<close>. Scores are finite
  floats, read as reals; \<open>rnd\<close> is \<open>round(_, 4)\<close>.
\<close>

section \<open>Union-find\<close>

type_synonym parents = "uuid \<Rightarrow> uuid option"
type_synonym 'a running = "(exn + 'a) option"

definition then_run :: "'a running \<Rightarrow> ('a \<Rightarrow> 'b running) \<Rightarrow> 'b running" where
  "then_run m f = (case m of None \<Rightarrow> None | Some (Inl e) \<Rightarrow> Some (Inl e) | Some (Inr x) \<Rightarrow> f x)"

text \<open>\<open>while parent[root] != root: root = parent[root]\<close>.\<close>

partial_function (option) root_loop :: "parents \<Rightarrow> uuid \<Rightarrow> uuid running" where
  [code]: "root_loop p x =
     (case p x of
        None \<Rightarrow> Some (Inl (KeyError ''parent''))
      | Some y \<Rightarrow> if y = x then Some (Inr x) else root_loop p y)"

text \<open>\<open>while parent[x] != root: parent[x], x = root, parent[x]\<close>.\<close>

partial_function (option) compress_loop :: "uuid \<Rightarrow> parents \<Rightarrow> uuid \<Rightarrow> parents running" where
  [code]: "compress_loop r p x =
     (case p x of
        None \<Rightarrow> Some (Inl (KeyError ''parent''))
      | Some y \<Rightarrow> if y = r then Some (Inr p) else compress_loop r (p(x \<mapsto> r)) y)"

definition setdefault :: "'k \<Rightarrow> 'v \<Rightarrow> ('k \<Rightarrow> 'v option) \<Rightarrow> 'k \<Rightarrow> 'v option" where
  "setdefault k v m = (if m k = None then m(k \<mapsto> v) else m)"

definition find_root :: "parents \<Rightarrow> uuid \<Rightarrow> (uuid \<times> parents) running" where
  "find_root p x =
     (let p1 = setdefault x x p in
      then_run (root_loop p1 x) (\<lambda>r.
      then_run (compress_loop r p1 x) (\<lambda>p2. Some (Inr (r, p2)))))"

definition union_roots :: "parents \<Rightarrow> uuid \<Rightarrow> uuid \<Rightarrow> parents running" where
  "union_roots p a b =
     then_run (find_root p a) (\<lambda>(ra, p1).
     then_run (find_root p1 b) (\<lambda>(rb, p2).
       Some (Inr (if ra \<noteq> rb then p2(ra \<mapsto> rb) else p2))))"

section \<open>Clustering\<close>

type_synonym crew_edge = "uuid \<times> uuid \<times> real \<times> string list"

fun unite_edges :: "crew_edge list \<Rightarrow> parents \<Rightarrow> parents running" where
  "unite_edges [] p = Some (Inr p)"
| "unite_edges ((a, b, score, shared) # es) p = then_run (union_roots p a b) (unite_edges es)"

record agg =
  ag_members :: "uuid set"
  ag_infra :: "(string \<times> nat) list"
  ag_edges :: nat
  ag_max_score :: real
  ag_links :: "crew_edge list"

definition empty_agg :: agg where
  "empty_agg = \<lparr>ag_members = {}, ag_infra = [], ag_edges = 0, ag_max_score = 0, ag_links = []\<rparr>"

text \<open>A dictionary with its keys in insertion order.\<close>

definition dict_get :: "'v \<Rightarrow> 'k \<Rightarrow> ('k \<times> 'v) list \<Rightarrow> 'v" where
  "dict_get d k al = (case map_of al k of None \<Rightarrow> d | Some v \<Rightarrow> v)"

abbreviation dict_set :: "'k \<Rightarrow> 'v \<Rightarrow> ('k \<times> 'v) list \<Rightarrow> ('k \<times> 'v) list" where
  "dict_set \<equiv> AList.update"

definition count_infra :: "string list \<Rightarrow> (string \<times> nat) list \<Rightarrow> (string \<times> nat) list" where
  "count_infra shared infra = fold (\<lambda>v al. dict_set v (dict_get 0 v al + 1) al) shared infra"

definition agg_edge :: "crew_edge \<Rightarrow> agg \<Rightarrow> agg" where
  "agg_edge e g =
     (case e of (a, b, score, shared) \<Rightarrow>
        \<lparr>ag_members = insert b (insert a (ag_members g)), ag_infra = count_infra shared (ag_infra g),
         ag_edges = ag_edges g + 1, ag_max_score = max (ag_max_score g) score, ag_links = ag_links g @ [e]\<rparr>)"

fun aggregate :: "crew_edge list \<Rightarrow> parents \<Rightarrow> (uuid \<times> agg) list \<Rightarrow> (uuid \<times> agg) list running" where
  "aggregate [] p aggs = Some (Inr aggs)"
| "aggregate (e # es) p aggs =
     then_run (find_root p (fst e)) (\<lambda>(r, p').
       aggregate es p' (dict_set r (agg_edge e (dict_get empty_agg r aggs)) aggs))"

record crew =
  cw_members :: "uuid list"
  cw_top_infra :: "string list"
  cw_edge_count :: nat
  cw_max_score :: real
  cw_links :: "crew_edge list"

definition TOP_INFRA :: nat where
  "TOP_INFRA = 8"

definition crew_of :: "(real \<Rightarrow> real) \<Rightarrow> agg \<Rightarrow> crew" where
  "crew_of rnd g =
     \<lparr>cw_members = sorted_list_of_set (ag_members g),
      cw_top_infra = take TOP_INFRA (map fst (order_asc (\<lambda>(v, n). (- int n, v)) (ag_infra g))),
      cw_edge_count = ag_edges g, cw_max_score = rnd (ag_max_score g),
      cw_links = order_asc (\<lambda>(a, b, score, shared). - score) (ag_links g)\<rparr>"

definition build_crews :: "(real \<Rightarrow> real) \<Rightarrow> crew_edge list \<Rightarrow> crew list running" where
  "build_crews rnd edges =
     then_run (unite_edges edges Map.empty) (\<lambda>p.
     then_run (aggregate edges p []) (\<lambda>aggs.
       Some (Inr (order_desc (\<lambda>c. (length (cw_members c), cw_max_score c))
         (map (crew_of rnd) (filter (\<lambda>g. 2 \<le> card (ag_members g)) (map snd aggs)))))))"

section \<open>Reaching a root\<close>

definition steps_to :: "parents \<Rightarrow> uuid \<Rightarrow> uuid \<Rightarrow> bool" where
  "steps_to p x y \<longleftrightarrow> p x = Some y \<and> y \<noteq> x"

definition rooted :: "parents \<Rightarrow> uuid \<Rightarrow> uuid \<Rightarrow> bool" where
  "rooted p x r \<longleftrightarrow> (steps_to p)\<^sup>*\<^sup>* x r \<and> p r = Some r"

definition forest :: "parents \<Rightarrow> bool" where
  "forest p \<longleftrightarrow> (\<forall>x\<in>dom p. \<exists>r. rooted p x r)"

lemma rooted_refl [simp]: "p r = Some r \<Longrightarrow> rooted p r r"
  by (simp add: rooted_def)

lemma rooted_step: "p x = Some y \<Longrightarrow> y \<noteq> x \<Longrightarrow> rooted p y r \<Longrightarrow> rooted p x r"
  unfolding rooted_def by (auto intro: converse_rtranclp_into_rtranclp simp: steps_to_def)

lemma rooted_root: "rooted p x r \<Longrightarrow> p r = Some r"
  by (simp add: rooted_def)

text \<open>Rule induction along the path to the root.\<close>

lemma rooted_induct [consumes 1, case_names root step]:
  assumes "rooted p x r" and "p r = Some r \<Longrightarrow> P r"
    and "\<And>x y. p x = Some y \<Longrightarrow> y \<noteq> x \<Longrightarrow> x \<noteq> r \<Longrightarrow> rooted p y r \<Longrightarrow> P y \<Longrightarrow> P x"
  shows "P x"
proof -
  have r: "p r = Some r" using assms(1) by (rule rooted_root)
  have "(steps_to p)\<^sup>*\<^sup>* x r" using assms(1) by (simp add: rooted_def)
  then show ?thesis
  proof (induction rule: converse_rtranclp_induct)
    case base
    then show ?case using assms(2) r by blast
  next
    case (step y z)
    then have "rooted p z r" and "p y = Some z" and "z \<noteq> y" using r by (simp_all add: rooted_def steps_to_def)
    moreover have "y \<noteq> r" using \<open>p y = Some z\<close> \<open>z \<noteq> y\<close> r by auto
    ultimately show ?case using assms(3) step.IH by blast
  qed
qed

lemma rooted_unique: "rooted p x r \<Longrightarrow> rooted p x s \<Longrightarrow> r = s"
proof (induction rule: rooted_induct)
  case root
  then show ?case unfolding rooted_def
    by (auto elim: converse_rtranclpE simp: steps_to_def)
next
  case (step x y)
  from step.prems have "rooted p y s" unfolding rooted_def
    by (metis converse_rtranclpE option.inject rooted_def steps_to_def step.hyps(1,2))
  then show ?case by (rule step.IH)
qed

lemma rooted_dom: "rooted p x r \<Longrightarrow> x \<in> dom p"
  by (induction rule: rooted_induct) auto

lemma root_loop_rooted: "rooted p x r \<Longrightarrow> root_loop p x = Some (Inr r)"
  by (induction rule: rooted_induct) (simp_all add: root_loop.simps)


section \<open>Path compression and union\<close>

text \<open>Pointing a node at its own root moves nobody to another root.\<close>

lemma repoint_rooted:
  assumes "rooted p x r" and "rooted p y s"
  shows "rooted (p(x \<mapsto> r)) y s"
  using assms(2)
proof (induction rule: rooted_induct)
  case root
  then have "x = s \<Longrightarrow> r = s" using rooted_unique [OF assms(1), of s] by auto
  then show ?case using root by (intro rooted_refl) auto
next
  case (step y z)
  show ?case
  proof (cases "y = x")
    case True
    then have "r = s" using rooted_unique [OF assms(1)] rooted_step [OF step.hyps(1,2,4)] by simp
    moreover have "(p(x \<mapsto> r)) r = Some r" using rooted_root [OF assms(1)] by simp
    ultimately show ?thesis using True by (cases "x = r") (auto intro: rooted_step)
  next
    case False
    then show ?thesis using step by (intro rooted_step [of _ y z]) auto
  qed
qed

text \<open>The same nodes, each with the root it had.\<close>

definition same_roots :: "parents \<Rightarrow> parents \<Rightarrow> bool" where
  "same_roots p q \<longleftrightarrow> dom q = dom p \<and> (\<forall>y s. rooted p y s \<longrightarrow> rooted q y s)"

lemma same_roots_refl: "same_roots p p"
  by (simp add: same_roots_def)

lemma same_roots_trans: "same_roots p q \<Longrightarrow> same_roots q s \<Longrightarrow> same_roots p s"
  by (simp add: same_roots_def)

lemma same_roots_forest: "same_roots p q \<Longrightarrow> forest p \<Longrightarrow> forest q"
  unfolding same_roots_def forest_def by metis

lemma same_roots_iff:
  assumes "same_roots p q" and "forest p"
  shows "rooted q y s \<longleftrightarrow> rooted p y s"
proof
  assume q: "rooted q y s"
  then obtain t where t: "rooted p y t" using assms rooted_dom unfolding same_roots_def forest_def by metis
  then have "rooted q y t" using assms(1) by (simp add: same_roots_def)
  then show "rooted p y s" using t rooted_unique [OF q] by simp
qed (use assms(1) in \<open>simp add: same_roots_def\<close>)

lemma repoint_same_roots:
  assumes "rooted p x r"
  shows "same_roots p (p(x \<mapsto> r))"
  using repoint_rooted [OF assms] rooted_dom [OF assms] by (auto simp: same_roots_def)

text \<open>A path to a root visits no node twice.\<close>

lemma no_cycle:
  assumes "rooted p y r" and "p x = Some y" and "y \<noteq> x" and "(steps_to p)\<^sup>*\<^sup>* y x"
  shows False
proof -
  have x: "\<exists>z. p w = Some z \<and> z \<noteq> w \<and> (steps_to p)\<^sup>*\<^sup>* z x" if "(steps_to p)\<^sup>*\<^sup>* w x" for w
    using that by (cases rule: converse_rtranclpE) (use assms in \<open>auto simp: steps_to_def\<close>)
  show ?thesis
    using assms(1,4)
  proof (induction rule: rooted_induct)
    case root
    then show ?case using x [of r] by auto
  next
    case (step u v)
    then show ?case using x [of u] by auto
  qed
qed

text \<open>The second loop ends and keeps every root.\<close>

lemma compress_loop_ends:
  assumes "rooted p x r"
  shows "\<exists>q. compress_loop r p x = Some (Inr q) \<and> same_roots p q"
proof -
  have "\<exists>q. compress_loop r p' x = Some (Inr q) \<and> same_roots p' q"
    if "rooted p x r" and "same_roots p p'" and "\<forall>y. (steps_to p)\<^sup>*\<^sup>* x y \<longrightarrow> p' y = p y" for p'
    using that
  proof (induction arbitrary: p' rule: rooted_induct)
    case root
    then have "p' r = Some r" by auto
    then show ?case by (auto simp: compress_loop.simps same_roots_refl)
  next
    case (step x y)
    note px = step.hyps(1)
    have x: "p' x = Some y" using step.prems(2) px by auto
    have reach: "(steps_to p)\<^sup>*\<^sup>* x z" if "(steps_to p)\<^sup>*\<^sup>* y z" for z
      using that px step.hyps(2) by (auto intro: converse_rtranclp_into_rtranclp simp: steps_to_def)
    show ?case
    proof (cases "y = r")
      case True
      then show ?thesis using x by (auto simp: compress_loop.simps same_roots_refl)
    next
      case False
      have xr: "rooted p x r" by (rule rooted_step [OF px step.hyps(2,4)])
      then have "rooted p' x r" using step.prems(1) by (simp add: same_roots_def)
      then have s: "same_roots p' (p'(x \<mapsto> r))" by (rule repoint_same_roots)
      have "z \<noteq> x" if "(steps_to p)\<^sup>*\<^sup>* y z" for z
        using that no_cycle [OF step.hyps(4) px step.hyps(2)] by blast
      then have "\<forall>z. (steps_to p)\<^sup>*\<^sup>* y z \<longrightarrow> (p'(x \<mapsto> r)) z = p z"
        using step.prems(2) reach by simp
      then have "\<exists>q. compress_loop r (p'(x \<mapsto> r)) y = Some (Inr q) \<and> same_roots (p'(x \<mapsto> r)) q"
        by (rule step.IH [OF same_roots_trans [OF step.prems(1) s]])
      then obtain q where "compress_loop r (p'(x \<mapsto> r)) y = Some (Inr q)" "same_roots (p'(x \<mapsto> r)) q" by blast
      then show ?thesis using x False same_roots_trans [OF s] by (auto simp: compress_loop.simps)
    qed
  qed
  then show ?thesis using assms same_roots_refl by blast
qed


text \<open>A node not seen before becomes its own root.\<close>

lemma setdefault_forest:
  assumes "forest p"
  shows "forest (setdefault x x p)" and "dom (setdefault x x p) = insert x (dom p)"
    and "rooted p y s \<Longrightarrow> rooted (setdefault x x p) y s"
proof -
  show dom: "dom (setdefault x x p) = insert x (dom p)" by (auto simp: setdefault_def)
  have keep: "rooted (setdefault x x p) y s" if "rooted p y s" for y s
    using that
  proof (induction rule: rooted_induct)
    case root
    then show ?case by (intro rooted_refl) (auto simp: setdefault_def)
  next
    case (step y z)
    then show ?case by (intro rooted_step [of _ y z]) (auto simp: setdefault_def)
  qed
  then show "rooted p y s \<Longrightarrow> rooted (setdefault x x p) y s" .
  have "\<exists>r. rooted (setdefault x x p) y r" if "y \<in> insert x (dom p)" for y
  proof (cases "y \<in> dom p")
    case True
    then show ?thesis using assms keep unfolding forest_def by blast
  next
    case False
    then have "rooted (setdefault x x p) y y" using that by (intro rooted_refl) (auto simp: setdefault_def)
    then show ?thesis by blast
  qed
  then show "forest (setdefault x x p)" unfolding forest_def dom by blast
qed

text \<open>What one call of \<open>find\<close> does.\<close>

lemma find_root_ends:
  assumes "forest p"
  shows "\<exists>r q. find_root p x = Some (Inr (r, q)) \<and> rooted (setdefault x x p) x r \<and> same_roots (setdefault x x p) q"
proof -
  note p1 = setdefault_forest [OF assms, where x = x]
  obtain r where r: "rooted (setdefault x x p) x r" using p1(1,2) unfolding forest_def by blast
  then show ?thesis
    using compress_loop_ends [OF r] root_loop_rooted [OF r] by (auto simp: find_root_def then_run_def)
qed

text \<open>Two nodes with one root.\<close>

definition united :: "parents \<Rightarrow> uuid \<Rightarrow> uuid \<Rightarrow> bool" where
  "united p x y \<longleftrightarrow> (\<exists>r. rooted p x r \<and> rooted p y r)"

lemma hang_rooted:
  assumes "forest p" and "p ra = Some ra" and "rooted p rb rb" and "ra \<noteq> rb" and "rooted p y s"
  shows "rooted (p(ra \<mapsto> rb)) y (if s = ra then rb else s)"
  using assms(5)
proof (induction rule: rooted_induct)
  case root
  have "(p(ra \<mapsto> rb)) rb = Some rb" using rooted_root [OF assms(3)] assms(4) by simp
  then show ?case using root assms(4) by (auto intro: rooted_step)
next
  case (step y z)
  then have "y \<noteq> ra" using assms(2) by auto
  then show ?case using step by (intro rooted_step [of _ y z]) auto
qed

lemma hang_united:
  assumes "forest p" and "p ra = Some ra" and "p rb = Some rb" and "ra \<noteq> rb"
  shows "forest (p(ra \<mapsto> rb))" and "dom (p(ra \<mapsto> rb)) = dom p"
    and "united (p(ra \<mapsto> rb)) x y \<longleftrightarrow>
      (\<exists>r s. rooted p x r \<and> rooted p y s \<and> (r = s \<or> {r, s} = {ra, rb}))"
proof -
  have "rooted p rb rb" using assms(3) by simp
  note hang = hang_rooted [OF assms(1,2) this assms(4)]
  show dom: "dom (p(ra \<mapsto> rb)) = dom p" using assms(2) by auto
  show "forest (p(ra \<mapsto> rb))" using assms(1) hang unfolding forest_def dom by blast
  have came: "\<exists>t. rooted p z t \<and> s = (if t = ra then rb else t)" if zs: "rooted (p(ra \<mapsto> rb)) z s" for z s
  proof -
    obtain t where "rooted p z t" using assms(1) rooted_dom [OF zs] dom unfolding forest_def by blast
    then show ?thesis using hang rooted_unique [OF zs] by blast
  qed
  show "united (p(ra \<mapsto> rb)) x y \<longleftrightarrow> (\<exists>r s. rooted p x r \<and> rooted p y s \<and> (r = s \<or> {r, s} = {ra, rb}))"
  proof
    assume "united (p(ra \<mapsto> rb)) x y"
    then show "\<exists>r s. rooted p x r \<and> rooted p y s \<and> (r = s \<or> {r, s} = {ra, rb})"
      unfolding united_def using came by (metis doubleton_eq_iff)
  next
    assume "\<exists>r s. rooted p x r \<and> rooted p y s \<and> (r = s \<or> {r, s} = {ra, rb})"
    then obtain r s where rs: "rooted p x r" "rooted p y s" "r = s \<or> {r, s} = {ra, rb}" by blast
    from hang [OF rs(1)] hang [OF rs(2)] show "united (p(ra \<mapsto> rb)) x y"
      using rs(3) unfolding united_def by (auto simp: doubleton_eq_iff split: if_splits)
  qed
qed


section \<open>Connected components\<close>

definition edge_rel :: "crew_edge list \<Rightarrow> (uuid \<times> uuid) set" where
  "edge_rel es = (\<Union>(a, b, _)\<in>set es. {(a, b), (b, a)})"

definition edge_nodes :: "crew_edge list \<Rightarrow> uuid set" where
  "edge_nodes es = (\<Union>(a, b, _)\<in>set es. {a, b})"

text \<open>The classes of a parent map are the components of a relation on its nodes.\<close>

definition classes_of :: "parents \<Rightarrow> (uuid \<times> uuid) set \<Rightarrow> bool" where
  "classes_of p R \<longleftrightarrow> forest p \<and> (\<forall>x y. united p x y \<longleftrightarrow> x \<in> dom p \<and> (x, y) \<in> R\<^sup>*)"

lemma united_same_roots:
  assumes "same_roots p q" and "forest p"
  shows "united q x y \<longleftrightarrow> united p x y"
  using same_roots_iff [OF assms] by (simp add: united_def)

lemma united_setdefault:
  assumes "forest p"
  shows "united (setdefault a a p) x y \<longleftrightarrow> united p x y \<or> (x = a \<and> y = a)"
proof -
  note p1 = setdefault_forest [OF assms, where x = a]
  show ?thesis
  proof (cases "a \<in> dom p")
    case True
    then have "setdefault a a p = p" by (auto simp: setdefault_def)
    moreover have "united p a a" using True assms unfolding forest_def united_def by blast
    ultimately show ?thesis by auto
  next
    case False
    have a: "rooted (setdefault a a p) a a" using False by (intro rooted_refl) (auto simp: setdefault_def)
    have from_p: "\<exists>s. rooted p z s \<and> s \<noteq> a" if "z \<in> dom p" for z
    proof -
      obtain s where s: "rooted p z s" using assms \<open>z \<in> dom p\<close> unfolding forest_def by blast
      then show ?thesis using False rooted_root [OF s] by (auto simp: dom_def)
    qed
    show ?thesis
    proof
      assume "united (setdefault a a p) x y"
      then obtain r where r: "rooted (setdefault a a p) x r" "rooted (setdefault a a p) y r" by (auto simp: united_def)
      then have xy: "x = a \<or> x \<in> dom p" "y = a \<or> y \<in> dom p" using rooted_dom p1(2) by blast+
      have root: "z = a \<and> r = a \<or> rooted p z r \<and> r \<noteq> a" if z: "rooted (setdefault a a p) z r" "z = a \<or> z \<in> dom p" for z
      proof (cases "z = a")
        case True
        then show ?thesis using rooted_unique [OF z(1)] a by blast
      next
        case False
        then obtain s where s: "rooted p z s" "s \<noteq> a" using z(2) from_p by blast
        then show ?thesis using rooted_unique [OF z(1) p1(3) [OF s(1)]] by simp
      qed
      show "united p x y \<or> (x = a \<and> y = a)"
        using root [OF r(1) xy(1)] root [OF r(2) xy(2)] unfolding united_def by blast
    next
      assume "united p x y \<or> (x = a \<and> y = a)"
      then show "united (setdefault a a p) x y" using p1(3) a unfolding united_def by blast
    qed
  qed
qed

text \<open>A call of \<open>find\<close> adds at most the node it is asked about.\<close>

lemma find_root_classes:
  assumes "forest p"
  shows "\<exists>r q. find_root p x = Some (Inr (r, q)) \<and> forest q \<and> dom q = insert x (dom p) \<and> rooted q x r
    \<and> (\<forall>y s. rooted p y s \<longrightarrow> rooted q y s) \<and> (\<forall>y z. united q y z \<longleftrightarrow> united p y z \<or> (y = x \<and> z = x))"
proof -
  note p1 = setdefault_forest [OF assms, where x = x]
  obtain r q where q: "find_root p x = Some (Inr (r, q))" "rooted (setdefault x x p) x r" "same_roots (setdefault x x p) q"
    using find_root_ends [OF assms] by blast
  then have "forest q" "dom q = insert x (dom p)" "rooted q x r"
    using same_roots_forest p1 unfolding same_roots_def by blast+
  moreover have "rooted q y s" if "rooted p y s" for y s
    using p1(3) [OF that] q(3) by (simp add: same_roots_def)
  ultimately show ?thesis using q(1) united_same_roots [OF q(3) p1(1)] united_setdefault [OF assms, of x] by simp
qed

lemma united_sym: "united p x y \<Longrightarrow> united p y x"
  by (auto simp: united_def)

lemma united_trans: "united p x y \<Longrightarrow> united p y z \<Longrightarrow> united p x z"
  unfolding united_def using rooted_unique by blast

lemma united_iff_rooted: "rooted p a r \<Longrightarrow> united p x a \<longleftrightarrow> rooted p x r"
  unfolding united_def using rooted_unique by blast

lemma hang_classes:
  assumes "forest p" and "rooted p a ra" and "rooted p b rb"
    and "q = (if ra \<noteq> rb then p(ra \<mapsto> rb) else p)"
  shows "forest q" and "dom q = dom p"
    and "united q x y \<longleftrightarrow> united p x y \<or> united p x a \<and> united p b y \<or> united p x b \<and> united p a y"
proof -
  note roots = rooted_root [OF assms(2)] rooted_root [OF assms(3)]
  have "forest q \<and> dom q = dom p \<and>
    (united q x y \<longleftrightarrow> united p x y \<or> united p x a \<and> united p b y \<or> united p x b \<and> united p a y)"
  proof (cases "ra = rb")
    case True
    then have "united p a b" using assms(2,3) unfolding united_def by blast
    then show ?thesis using True assms(1,4) united_trans united_sym by (metis (no_types))
  next
    case False
    note h = hang_united [OF assms(1) roots False]
    have "(\<exists>r s. rooted p x r \<and> rooted p y s \<and> (r = s \<or> {r, s} = {ra, rb})) \<longleftrightarrow>
        united p x y \<or> rooted p x ra \<and> rooted p y rb \<or> rooted p x rb \<and> rooted p y ra"
      unfolding united_def doubleton_eq_iff by blast
    moreover have "rooted p x ra = united p x a" "rooted p x rb = united p x b"
      "rooted p y ra = united p a y" "rooted p y rb = united p b y"
      using united_iff_rooted [OF assms(2)] united_iff_rooted [OF assms(3)] united_sym by blast+
    ultimately show ?thesis using False h assms(4) by simp
  qed
  then show "forest q" "dom q = dom p"
    "united q x y \<longleftrightarrow> united p x y \<or> united p x a \<and> united p b y \<or> united p x b \<and> united p a y" by blast+
qed

text \<open>A call of \<open>union\<close> adds one edge to the relation.\<close>

lemma rtrancl_add_edge:
  assumes "sym R"
  shows "(x, y) \<in> ({(a, b), (b, a)} \<union> R)\<^sup>* \<longleftrightarrow>
    (x, y) \<in> R\<^sup>* \<or> (x, a) \<in> R\<^sup>* \<and> (b, y) \<in> R\<^sup>* \<or> (x, b) \<in> R\<^sup>* \<and> (a, y) \<in> R\<^sup>*"
  by (auto simp: rtrancl_insert intro: rtrancl_trans)

lemma union_roots_classes:
  assumes "classes_of p R" and "Field R \<subseteq> dom p" and "sym R"
  shows "\<exists>q. union_roots p a b = Some (Inr q) \<and> dom q = {a, b} \<union> dom p \<and> classes_of q ({(a, b), (b, a)} \<union> R)"
proof -
  have f: "forest p" and u: "\<And>x y. united p x y \<longleftrightarrow> x \<in> dom p \<and> (x, y) \<in> R\<^sup>*"
    using assms(1) by (simp_all add: classes_of_def)
  obtain ra p1 where p1: "find_root p a = Some (Inr (ra, p1))" "forest p1" "dom p1 = insert a (dom p)" "rooted p1 a ra"
    "\<And>y z. united p1 y z \<longleftrightarrow> united p y z \<or> (y = a \<and> z = a)" using find_root_classes [OF f] by metis
  obtain rb p2 where p2: "find_root p1 b = Some (Inr (rb, p2))" "forest p2" "dom p2 = insert b (dom p1)" "rooted p2 b rb"
    "rooted p2 a ra" "\<And>y z. united p2 y z \<longleftrightarrow> united p1 y z \<or> (y = b \<and> z = b)" using find_root_classes [OF p1(2)] p1(4) by metis
  define q where "q = (if ra \<noteq> rb then p2(ra \<mapsto> rb) else p2)"
  note h = hang_classes [OF p2(2,5,4) q_def]
  have out: "(x, y) \<in> R\<^sup>* \<longleftrightarrow> y = x" if "x \<notin> dom p" for x y
    using that assms(2) Not_Domain_rtrancl [of x R y] by (auto simp: Field_def)
  have u2: "united p2 x y \<longleftrightarrow> x \<in> {a, b} \<union> dom p \<and> (x, y) \<in> R\<^sup>*" for x y
    using out u by (auto simp: p2(6) p1(5))
  have "united q x y \<longleftrightarrow> x \<in> {a, b} \<union> dom p \<and> (x, y) \<in> ({(a, b), (b, a)} \<union> R)\<^sup>*" for x y
    unfolding h(3) u2 rtrancl_add_edge [OF assms(3)] by blast
  then have "classes_of q ({(a, b), (b, a)} \<union> R)" using h(1,2) p1(3) p2(3) by (auto simp: classes_of_def)
  moreover have "union_roots p a b = Some (Inr q)" by (simp add: union_roots_def p1(1) p2(1) then_run_def q_def)
  ultimately show ?thesis using h(2) p1(3) p2(3) by auto
qed

lemma edge_rel_Cons: "edge_rel ((a, b, s, i) # es) = {(a, b), (b, a)} \<union> edge_rel es"
  by (auto simp: edge_rel_def)

lemma edge_nodes_Cons: "edge_nodes ((a, b, s, i) # es) = {a, b} \<union> edge_nodes es"
  by (auto simp: edge_nodes_def)

lemma unite_edges_classes:
  assumes "classes_of p R" and "Field R \<subseteq> dom p" and "sym R"
  shows "\<exists>q. unite_edges es p = Some (Inr q) \<and> dom q = edge_nodes es \<union> dom p \<and> classes_of q (edge_rel es \<union> R)"
  using assms
proof (induction es arbitrary: p R)
  case Nil
  then show ?case by (simp add: edge_nodes_def edge_rel_def)
next
  case (Cons e es)
  obtain a b s i where e: "e = (a, b, s, i)" by (cases e) blast
  obtain p1 where p1: "union_roots p a b = Some (Inr p1)" "dom p1 = {a, b} \<union> dom p" "classes_of p1 ({(a, b), (b, a)} \<union> R)"
    using union_roots_classes [OF Cons.prems] by blast
  have "Field ({(a, b), (b, a)} \<union> R) \<subseteq> dom p1" "sym ({(a, b), (b, a)} \<union> R)"
    using Cons.prems(2,3) p1(2) by (auto simp: Field_def sym_def)
  then obtain q where "unite_edges es p1 = Some (Inr q)" "dom q = edge_nodes es \<union> dom p1"
      "classes_of q (edge_rel es \<union> ({(a, b), (b, a)} \<union> R))" using Cons.IH [OF p1(3)] by blast
  then show ?case using p1(1,2) by (simp add: e then_run_def edge_rel_Cons edge_nodes_Cons Un_ac)
qed

lemma unite_all:
  "\<exists>q. unite_edges es Map.empty = Some (Inr q) \<and> dom q = edge_nodes es \<and> classes_of q (edge_rel es)"
proof -
  have "classes_of Map.empty {}" using rooted_dom by (fastforce simp: classes_of_def forest_def united_def)
  then show ?thesis using unite_edges_classes [of Map.empty "{}" es] by (simp add: sym_def)
qed


section \<open>What the aggregation collects\<close>

text \<open>The second pass files every edge under the root of its first actor.\<close>

definition file_edge :: "(uuid \<Rightarrow> uuid) \<Rightarrow> crew_edge \<Rightarrow> (uuid \<times> agg) list \<Rightarrow> (uuid \<times> agg) list" where
  "file_edge \<rho> e al = dict_set (\<rho> (fst e)) (agg_edge e (dict_get empty_agg (\<rho> (fst e)) al)) al"

lemma aggregate_files:
  assumes "forest p" and "\<forall>e\<in>set es. rooted p (fst e) (\<rho> (fst e))"
  shows "aggregate es p al = Some (Inr (fold (file_edge \<rho>) es al))"
  using assms
proof (induction es arbitrary: p al)
  case Nil
  then show ?case by simp
next
  case (Cons e es)
  obtain r q where q: "find_root p (fst e) = Some (Inr (r, q))" "forest q" "rooted q (fst e) r"
      "\<forall>y s. rooted p y s \<longrightarrow> rooted q y s" using find_root_classes [OF Cons.prems(1)] by metis
  have "r = \<rho> (fst e)" using rooted_unique [OF q(3)] q(4) Cons.prems(2) by simp
  moreover have "\<forall>e\<in>set es. rooted q (fst e) (\<rho> (fst e))" using q(4) Cons.prems(2) by simp
  ultimately show ?case using Cons.IH [OF q(2)] q(1) by (simp add: then_run_def file_edge_def)
qed

lemma keys_set_dict_set: "fst ` set (dict_set k v al) = insert k (fst ` set al)"
  by (induction al) auto

lemma dict_get_dict_set: "dict_get d k' (dict_set k v al) = (if k' = k then v else dict_get d k' al)"
  by (simp add: dict_get_def update_conv')

definition gathered :: "(uuid \<Rightarrow> uuid) \<Rightarrow> crew_edge list \<Rightarrow> uuid \<Rightarrow> agg" where
  "gathered \<rho> es r = fold agg_edge (filter (\<lambda>e. \<rho> (fst e) = r) es) empty_agg"

lemma fold_files_get:
  "dict_get empty_agg r (fold (file_edge \<rho>) es al)
    = fold agg_edge (filter (\<lambda>e. \<rho> (fst e) = r) es) (dict_get empty_agg r al)"
  by (induction es arbitrary: al) (simp_all add: file_edge_def dict_get_dict_set)

lemma fold_files_keys:
  assumes "distinct (map fst al)"
  shows "distinct (map fst (fold (file_edge \<rho>) es al))"
    and "fst ` set (fold (file_edge \<rho>) es al) = fst ` set al \<union> \<rho> ` fst ` set es"
proof -
  have "distinct (map fst (fold (file_edge \<rho>) es al)) \<and>
      set (map fst (fold (file_edge \<rho>) es al)) = set (map fst al) \<union> \<rho> ` fst ` set es"
    using assms by (induction es arbitrary: al) (simp_all add: file_edge_def keys_set_dict_set distinct_update)
  then show "distinct (map fst (fold (file_edge \<rho>) es al))"
    "fst ` set (fold (file_edge \<rho>) es al) = fst ` set al \<union> \<rho> ` fst ` set es" by simp_all
qed

text \<open>The groups of the second pass, one per root.\<close>

lemma filed_groups: "map snd (fold (file_edge \<rho>) es []) = map (gathered \<rho> es) (map fst (fold (file_edge \<rho>) es []))"
proof -
  let ?al = "fold (file_edge \<rho>) es []"
  have "snd x = gathered \<rho> es (fst x)" if "x \<in> set ?al" for x
  proof -
    have "map_of ?al (fst x) = Some (snd x)"
      using that fold_files_keys(1) [of "[]"] by (simp add: map_of_is_SomeI)
    then have "snd x = dict_get empty_agg (fst x) ?al" by (simp add: dict_get_def)
    also have "\<dots> = gathered \<rho> es (fst x)" by (simp add: fold_files_get gathered_def) (simp add: dict_get_def)
    finally show ?thesis .
  qed
  then show ?thesis by simp
qed

lemma fold_agg_edge:
  "ag_members (fold agg_edge es g) = ag_members g \<union> edge_nodes es"
  "ag_edges (fold agg_edge es g) = ag_edges g + length es"
  "ag_links (fold agg_edge es g) = ag_links g @ es"
  "ag_max_score (fold agg_edge es g) = fold max (map (\<lambda>(a, b, s, i). s) es) (ag_max_score g)"
  by (induction es arbitrary: g) (auto simp: agg_edge_def edge_nodes_def max.commute split: prod.splits)

section \<open>Crews are the components\<close>

definition component :: "crew_edge list \<Rightarrow> uuid \<Rightarrow> uuid set" where
  "component es x = {y. (x, y) \<in> (edge_rel es)\<^sup>*}"

text \<open>A representative of every node, constant exactly on the components.\<close>

definition represents :: "(uuid \<Rightarrow> uuid) \<Rightarrow> crew_edge list \<Rightarrow> bool" where
  "represents \<rho> es \<longleftrightarrow> (\<forall>x\<in>edge_nodes es. \<forall>y. y \<in> component es x \<longleftrightarrow> y \<in> edge_nodes es \<and> \<rho> y = \<rho> x)"

lemma build_crews_gathered:
  "\<exists>\<rho> rs. represents \<rho> es \<and> distinct rs \<and> set rs = \<rho> ` fst ` set es \<and> build_crews rnd es = Some (Inr
     (order_desc (\<lambda>c. (length (cw_members c), cw_max_score c))
       (map (crew_of rnd) (filter (\<lambda>g. 2 \<le> card (ag_members g)) (map (gathered \<rho> es) rs)))))"
proof -
  obtain q where q: "unite_edges es Map.empty = Some (Inr q)" "dom q = edge_nodes es" "classes_of q (edge_rel es)"
    using unite_all by blast
  define \<rho> where "\<rho> = (\<lambda>x. SOME r. rooted q x r)"
  have f: "forest q" and u: "\<And>x y. united q x y \<longleftrightarrow> x \<in> edge_nodes es \<and> (x, y) \<in> (edge_rel es)\<^sup>*"
    using q(2,3) by (simp_all add: classes_of_def)
  have root: "rooted q x (\<rho> x)" if "x \<in> edge_nodes es" for x
    using f that q(2) unfolding forest_def \<rho>_def by (metis someI_ex)
  have "y \<in> component es x \<longleftrightarrow> y \<in> edge_nodes es \<and> \<rho> y = \<rho> x" if x: "x \<in> edge_nodes es" for x y
  proof -
    have "y \<in> component es x \<longleftrightarrow> united q x y" using u x by (simp add: component_def)
    also have "\<dots> \<longleftrightarrow> rooted q y (\<rho> x)" using united_iff_rooted [OF root [OF x]] united_sym by blast
    also have "\<dots> \<longleftrightarrow> y \<in> edge_nodes es \<and> \<rho> y = \<rho> x" using rooted_dom [of q y] q(2) root [of y] rooted_unique by metis
    finally show ?thesis .
  qed
  then have "represents \<rho> es" by (simp add: represents_def)
  moreover have "aggregate es q [] = Some (Inr (fold (file_edge \<rho>) es []))"
  proof (intro aggregate_files [OF f] ballI)
    fix e assume "e \<in> set es"
    moreover obtain a b s i where "e = (a, b, s, i)" by (rule prod_cases4)
    ultimately have "fst e \<in> edge_nodes es" by (force simp: edge_nodes_def)
    then show "rooted q (fst e) (\<rho> (fst e))" by (rule root)
  qed
  then have "build_crews rnd es = Some (Inr (order_desc (\<lambda>c. (length (cw_members c), cw_max_score c))
      (map (crew_of rnd) (filter (\<lambda>g. 2 \<le> card (ag_members g))
        (map (gathered \<rho> es) (map fst (fold (file_edge \<rho>) es [])))))))"
    unfolding filed_groups [symmetric] by (simp add: build_crews_def q(1) then_run_def)
  moreover have "distinct (map fst (fold (file_edge \<rho>) es []))"
    "set (map fst (fold (file_edge \<rho>) es [])) = \<rho> ` fst ` set es"
    using fold_files_keys [of "[]" \<rho> es] by simp_all
  ultimately show ?thesis by blast
qed

lemma gathered_members:
  assumes "represents \<rho> es" and "x \<in> edge_nodes es"
  shows "ag_members (gathered \<rho> es (\<rho> x)) = component es x"
proof -
  have same: "\<rho> b = \<rho> a" if "(a, b, s, i) \<in> set es" for a b s i
  proof -
    have "a \<in> edge_nodes es" "b \<in> component es a"
      using that by (auto simp: edge_nodes_def component_def edge_rel_def intro!: r_into_rtrancl)
    then show ?thesis using assms(1) unfolding represents_def by blast
  qed
  have "edge_nodes (filter (\<lambda>e. \<rho> (fst e) = \<rho> x) es) = {y \<in> edge_nodes es. \<rho> y = \<rho> x}"
    using same by (fastforce simp: edge_nodes_def)
  also have "\<dots> = component es x" using assms unfolding represents_def by blast
  finally show ?thesis by (simp add: gathered_def fold_agg_edge empty_agg_def)
qed


lemma finite_edge_nodes: "finite (edge_nodes es)"
  by (auto simp: edge_nodes_def)

lemma mset_order_desc: "mset (order_desc f xs) = mset xs"
  by (simp add: order_desc_def)

lemma component_self: "x \<in> component es x"
  by (simp add: component_def)

text \<open>The groups of \<open>build_crews\<close>, one per component.\<close>

lemma group_components:
  assumes "represents \<rho> es" and "distinct rs" and "set rs = \<rho> ` fst ` set es"
  shows "distinct (map (\<lambda>r. sorted_list_of_set (ag_members (gathered \<rho> es r))) rs)"
    and "(\<lambda>r. ag_members (gathered \<rho> es r)) ` set rs = component es ` edge_nodes es"
proof -
  have nodes: "\<rho> ` fst ` set es \<subseteq> \<rho> ` edge_nodes es" by (force simp: edge_nodes_def)
  have first: "\<exists>e\<in>set es. \<rho> (fst e) = \<rho> x" if x: "x \<in> edge_nodes es" for x
  proof -
    obtain a b s i where e: "(a, b, s, i) \<in> set es" "x = a \<or> x = b" using x by (auto simp: edge_nodes_def)
    then have "a \<in> edge_nodes es" "b \<in> component es a"
      by (auto simp: edge_nodes_def component_def edge_rel_def intro!: r_into_rtrancl)
    then have "\<rho> a = \<rho> x" using assms(1) e(2) unfolding represents_def by metis
    then show ?thesis using e(1) by force
  qed
  then have rs: "set rs = \<rho> ` edge_nodes es" using nodes assms(3) by (auto simp: image_iff) (metis)
  show "(\<lambda>r. ag_members (gathered \<rho> es r)) ` set rs = component es ` edge_nodes es"
    unfolding rs image_image using gathered_members [OF assms(1)] by simp
  have fin: "finite (component es x)" if "x \<in> edge_nodes es" for x
    using assms(1) that finite_edge_nodes [of es] unfolding represents_def by (metis finite_subset subsetI)
  have "inj_on (\<lambda>r. sorted_list_of_set (ag_members (gathered \<rho> es r))) (set rs)"
  proof (rule inj_onI)
    fix r s
    assume "r \<in> set rs" "s \<in> set rs"
      and eq: "sorted_list_of_set (ag_members (gathered \<rho> es r)) = sorted_list_of_set (ag_members (gathered \<rho> es s))"
    then obtain x y where xy: "x \<in> edge_nodes es" "y \<in> edge_nodes es" "r = \<rho> x" "s = \<rho> y" unfolding rs by blast
    then have "component es x = component es y"
      using eq fin gathered_members [OF assms(1)] by (metis sorted_list_of_set_inject)
    then show "r = s" using assms(1) xy component_self [of y es] unfolding represents_def by metis
  qed
  then show "distinct (map (\<lambda>r. sorted_list_of_set (ag_members (gathered \<rho> es r))) rs)"
    using assms(2) by (simp add: distinct_map)
qed

lemma component_finite:
  assumes "x \<in> edge_nodes es"
  shows "finite (component es x)"
proof -
  obtain \<rho> where "represents \<rho> es" using build_crews_gathered [of es "\<lambda>x. x"] by blast
  then show ?thesis
    using assms finite_edge_nodes [of es] unfolding represents_def by (metis finite_subset subsetI)
qed

section \<open>Properties\<close>

text \<open>After any list of edges has been united, \<open>find\<close> returns for every actor, neither loop runs on
  and no key is missing; it returns a root of the map it leaves behind, which has the same classes as
  before and at most the asked actor as a new node.\<close>

lemma find_terminates:
  "\<exists>p r q. unite_edges es Map.empty = Some (Inr p) \<and> find_root p x = Some (Inr (r, q)) \<and> q r = Some r
     \<and> united q x r \<and> dom q = insert x (dom p) \<and> (\<forall>y z. united q y z \<longleftrightarrow> united p y z \<or> y = x \<and> z = x)"
proof -
  obtain p where p: "unite_edges es Map.empty = Some (Inr p)" "forest p" using unite_all [of es] by (auto simp: classes_of_def)
  obtain r q where q: "find_root p x = Some (Inr (r, q))" "dom q = insert x (dom p)" "rooted q x r"
      "\<forall>y z. united q y z \<longleftrightarrow> united p y z \<or> y = x \<and> z = x" using find_root_classes [OF p(2)] by metis
  have "q r = Some r" "united q x r" using rooted_root [OF q(3)] q(3) unfolding united_def by (auto intro: exI [of _ r])
  then show ?thesis using p(1) q by blast
qed

text \<open>C19: The clustering returns for every list of edges, and its crews are exactly the connected components
  of the edges that have two members or more, each once, as the ascending list of its actors.\<close>

theorem crews_are_components:
  "\<exists>crews. build_crews rnd es = Some (Inr crews) \<and> distinct (map cw_members crews)
     \<and> set (map cw_members crews) = sorted_list_of_set ` {C \<in> component es ` edge_nodes es. 2 \<le> card C}"
proof -
  obtain \<rho> rs where r: "represents \<rho> es" "distinct rs" "set rs = \<rho> ` fst ` set es"
    and b: "build_crews rnd es = Some (Inr (order_desc (\<lambda>c. (length (cw_members c), cw_max_score c))
       (map (crew_of rnd) (filter (\<lambda>g. 2 \<le> card (ag_members g)) (map (gathered \<rho> es) rs)))))"
    using build_crews_gathered [of es rnd] by (elim exE conjE) (rule that)
  let ?cs = "map (crew_of rnd) (filter (\<lambda>g. 2 \<le> card (ag_members g)) (map (gathered \<rho> es) rs))"
  note g = group_components [OF r]
  have ms: "map cw_members ?cs = map (\<lambda>r. sorted_list_of_set (ag_members (gathered \<rho> es r)))
      (filter (\<lambda>r. 2 \<le> card (ag_members (gathered \<rho> es r))) rs)"
    by (simp add: filter_map comp_def crew_of_def)
  let ?ds = "order_desc (\<lambda>c. (length (cw_members c), cw_max_score c)) ?cs"
  have "mset (map cw_members ?ds) = mset (map cw_members ?cs)" by (simp only: mset_map mset_order_desc)
  note perm = mset_eq_imp_distinct_iff [OF this] mset_eq_setD [OF this]
  have "distinct (map cw_members ?cs)" unfolding ms using g(1) by (simp add: distinct_map_filter)
  moreover have "set (map cw_members ?cs) = sorted_list_of_set ` {C \<in> component es ` edge_nodes es. 2 \<le> card C}"
    unfolding ms g(2) [symmetric] by (force simp: image_iff)
  ultimately have "distinct (map cw_members ?ds) \<and>
      set (map cw_members ?ds) = sorted_list_of_set ` {C \<in> component es ` edge_nodes es. 2 \<le> card C}"
    unfolding perm by blast
  then show ?thesis using b by blast
qed

end
