(* ===== verification/Linkages.thy ===== *)
theory Linkages
  imports Complex_Main Operator_Actions Crews
begin

text \<open>
  Proposed links between actors and what is stored about them: \<open>sqlmodel_repo/linkages.py\<close>,
  \<open>sqlmodel_repo/feedback.py\<close>, \<open>sqlmodel_repo/event_logs.py\<close> and the Hamming search of
  \<open>sqlmodel_repo/vectors.py\<close> with its SQL function. Scores are finite floats read as reals. A transaction that
  raises leaves the store as it was.
\<close>

unbundle bit_operations_syntax

section \<open>Rows\<close>

text \<open>The values the linkers put into the evidence dictionary.\<close>

datatype evidence_value = Ev_STR string | Ev_INT int | Ev_LIST "string list"

type_synonym evidence = "(string \<times> evidence_value) list"

record linkage_row =
  lk_id :: uuid
  lk_actor_a :: uuid
  lk_actor_b :: uuid
  lk_state :: linkage_state
  lk_method :: string
  lk_score :: real
  lk_evidence :: evidence
  lk_proposed_at :: time
  lk_decided_at :: "time option"
  lk_decided_by :: "string option"
  lk_notes :: "string option"

record feedback_row =
  fb_id :: uuid
  fb_linkage_id :: uuid
  fb_actor_a :: uuid
  fb_actor_b :: uuid
  fb_ground_truth :: string
  fb_decided_by :: string
  fb_decided_at :: time
  fb_notes :: "string option"

record verification_result =
  vr_method :: string
  vr_score :: real
  vr_confidence :: real
  vr_skipped :: bool
  vr_skip_reason :: "string option"

record settled_row =
  st_id :: uuid
  st_linkage_id :: uuid
  st_composite :: real
  st_floor :: real
  st_state :: string
  st_results :: "verification_result list"
  st_computed_at :: time

text \<open>The trace headers of an event row are left out.\<close>

record event_row =
  el_parent_id :: uuid
  el_event_seq :: nat
  el_subject :: string
  el_event_id :: uuid
  el_ts :: time
  el_actor :: "string option"

record vector_row =
  vs_actor_id :: uuid
  vs_primitive :: string
  vs_simhash :: int

record persona_row =
  pe_id :: uuid
  pe_label :: "string option"
  pe_members :: "uuid list"
  pe_created_at :: time
  pe_updated_at :: time

record persona_member_row =
  pm_persona_id :: uuid
  pm_actor_id :: uuid
  pm_joined_at :: time
  pm_via_linkage_id :: "uuid option"

datatype node_type = Node_ACTOR | Node_PERSONA | Node_GROUP

datatype edge_type = Edge_LINKED_TO | Edge_BELONGS_TO_PERSONA | Edge_MEMBER_OF

text \<open>Attribute values of the graph.\<close>

datatype attr_value = At_NONE | At_STR string | At_INT int | At_REAL real | At_UUID uuid | At_TIME time

type_synonym attrs = "(string \<times> attr_value) list"

record node_row =
  nd_id :: uuid
  nd_node_id :: uuid
  nd_type :: node_type
  nd_attrs :: attrs
  nd_updated_at :: time

record edge_row =
  ed_id :: uuid
  ed_type :: edge_type
  ed_src :: uuid
  ed_dst :: uuid
  ed_attrs :: attrs
  ed_updated_at :: time

text \<open>Of a message, the columns read here.\<close>

record body_row =
  ms_id :: uuid
  ms_actor_id :: uuid
  ms_body :: "string option"
  ms_sent_at :: time

datatype persona_change = Chg_CREATED | Chg_MEMBERS_ADDED | Chg_MEMBERS_REMOVED | Chg_MERGED_WITH

text \<open>The messages on the attribution subjects, with the event id header when there is one.\<close>

datatype attr_event =
    Ev_PROPOSED uuid uuid uuid string real evidence time
  | Ev_DECIDED linkage_state uuid uuid uuid string time "string option"
  | Ev_PERSONA_UPDATED uuid "uuid list" persona_change "uuid option" time
  | Ev_PERSONA_MERGE uuid uuid string
  | Ev_PERSONA_SPLIT uuid uuid string

record attr_store =
  at_linkages :: "linkage_row list"
  at_feedback :: "feedback_row list"
  at_settled :: "settled_row list"
  at_linkage_events :: "event_row list"
  at_persona_events :: "event_row list"
  at_vectors :: "vector_row list"
  at_personas :: "persona_row list"
  at_members :: "persona_member_row list"
  at_nodes :: "node_row list"
  at_edges :: "edge_row list"
  at_messages :: "body_row list"
  at_audit :: audit_store
  at_bus :: "(attr_event \<times> uuid option) list"

section \<open>Linkages\<close>

primrec LEGAL_TRANSITIONS :: "linkage_state \<Rightarrow> linkage_state set" where
  "LEGAL_TRANSITIONS Lnk_PROPOSED = {Lnk_SUSPECTED, Lnk_CONFIRMED, Lnk_REJECTED, Lnk_SUPERSEDED}"
| "LEGAL_TRANSITIONS Lnk_SUSPECTED = {Lnk_CONFIRMED, Lnk_REJECTED}"
| "LEGAL_TRANSITIONS Lnk_CONFIRMED = {}"
| "LEGAL_TRANSITIONS Lnk_REJECTED = {}"
| "LEGAL_TRANSITIONS Lnk_SUPERSEDED = {}"

definition sorted_pair :: "uuid \<Rightarrow> uuid \<Rightarrow> uuid \<times> uuid" where
  "sorted_pair a b = (if a < b then (a, b) else (b, a))"

text \<open>\<open>linkage_pair_ordered\<close>, the primary key and \<open>uq_linkage_pair_method\<close>.\<close>

definition insert_linkage :: "linkage_row \<Rightarrow> attr_store \<Rightarrow> (linkage_row, attr_store) outcome" where
  "insert_linkage r S =
     (if \<not> lk_actor_a r < lk_actor_b r \<or> tbl_has lk_id (lk_id r) (at_linkages S)
         \<or> tbl_has (\<lambda>x. (lk_actor_a x, lk_actor_b x, lk_method x)) (lk_actor_a r, lk_actor_b r, lk_method r) (at_linkages S)
      then (Inl (IntegrityError ''linkage''), S)
      else (Inr r, S\<lparr>at_linkages := at_linkages S @ [r]\<rparr>))"

definition insert_proposed_linkage ::
  "uuid \<Rightarrow> uuid \<Rightarrow> uuid \<Rightarrow> string \<Rightarrow> real \<Rightarrow> evidence \<Rightarrow> time \<Rightarrow> attr_store \<Rightarrow> (linkage_row, attr_store) outcome" where
  "insert_proposed_linkage new_id actor_a actor_b method score evidence now S =
     (case sorted_pair actor_a actor_b of (a, b) \<Rightarrow>
        (case find (\<lambda>r. lk_actor_a r = a \<and> lk_actor_b r = b \<and> lk_method r = method \<and> lk_state r = Lnk_PROPOSED) (at_linkages S) of
           None \<Rightarrow> insert_linkage \<lparr>lk_id = new_id, lk_actor_a = a, lk_actor_b = b, lk_state = Lnk_PROPOSED,
               lk_method = method, lk_score = score, lk_evidence = evidence, lk_proposed_at = now,
               lk_decided_at = None, lk_decided_by = None, lk_notes = None\<rparr> S
         | Some r \<Rightarrow>
             let r' = r\<lparr>lk_score := max (lk_score r) score, lk_evidence := evidence\<rparr>
             in (Inr r', S\<lparr>at_linkages := tbl_save lk_id r' (at_linkages S)\<rparr>)))"

definition transition_linkage ::
  "uuid \<Rightarrow> linkage_state \<Rightarrow> string \<Rightarrow> string option \<Rightarrow> time \<Rightarrow> attr_store \<Rightarrow> (linkage_row, attr_store) outcome" where
  "transition_linkage i target decided_by notes now S =
     (case tbl_get lk_id i (at_linkages S) of
        None \<Rightarrow> (Inl (ValueError ''linkage not found''), S)
      | Some r \<Rightarrow>
          if target \<notin> LEGAL_TRANSITIONS (lk_state r) then (Inl (ValueError ''cannot transition''), S)
          else let r' = r\<lparr>lk_state := target, lk_decided_at := Some now, lk_decided_by := Some decided_by, lk_notes := notes\<rparr>
               in (Inr r', S\<lparr>at_linkages := tbl_save lk_id r' (at_linkages S)\<rparr>))"

definition get_linkage :: "uuid \<Rightarrow> attr_store \<Rightarrow> linkage_row option" where
  "get_linkage i S = tbl_get lk_id i (at_linkages S)"

record linkage_query =
  lq_actor :: "uuid option"
  lq_state :: "linkage_state option"
  lq_method :: "string option"
  lq_since :: "time option"
  lq_until :: "time option"

definition linkage_filters :: "linkage_query \<Rightarrow> linkage_row \<Rightarrow> bool" where
  "linkage_filters q r \<longleftrightarrow>
     (case lq_actor q of None \<Rightarrow> True | Some i \<Rightarrow> lk_actor_a r = i \<or> lk_actor_b r = i)
     \<and> (case lq_state q of None \<Rightarrow> True | Some s \<Rightarrow> lk_state r = s)
     \<and> (case lq_method q of None \<Rightarrow> True | Some m \<Rightarrow> lk_method r = m)
     \<and> (case lq_since q of None \<Rightarrow> True | Some t \<Rightarrow> t \<le> lk_proposed_at r)
     \<and> (case lq_until q of None \<Rightarrow> True | Some t \<Rightarrow> lk_proposed_at r < t)"

definition list_linkages :: "linkage_query \<Rightarrow> nat \<Rightarrow> nat \<Rightarrow> attr_store \<Rightarrow> linkage_row list" where
  "list_linkages q limit offset S = page offset limit (order_desc lk_proposed_at (filter (linkage_filters q) (at_linkages S)))"

definition count_linkages :: "linkage_query \<Rightarrow> attr_store \<Rightarrow> nat" where
  "count_linkages q S = length (filter (linkage_filters q) (at_linkages S))"

definition confirmed_linkage_pairs :: "attr_store \<Rightarrow> (uuid \<times> uuid) list" where
  "confirmed_linkage_pairs S = map (\<lambda>r. (lk_actor_a r, lk_actor_b r)) (filter (\<lambda>r. lk_state r = Lnk_CONFIRMED) (at_linkages S))"

section \<open>Operator feedback and settled results\<close>

definition VALID_GROUND_TRUTHS :: "string set" where
  "VALID_GROUND_TRUTHS = {''same'', ''diff''}"

definition record_feedback_pair ::
  "uuid \<Rightarrow> uuid \<Rightarrow> uuid \<Rightarrow> uuid \<Rightarrow> string \<Rightarrow> string \<Rightarrow> time \<Rightarrow> string option \<Rightarrow> attr_store \<Rightarrow> (feedback_row, attr_store) outcome" where
  "record_feedback_pair new_id i actor_a actor_b truth decided_by decided_at notes S =
     (if truth \<notin> VALID_GROUND_TRUTHS then (Inl (ValueError ''ground_truth must be one of''), S)
      else (case sorted_pair actor_a actor_b of (a, b) \<Rightarrow>
        (case find (\<lambda>r. fb_linkage_id r = i) (at_feedback S) of
           Some r \<Rightarrow>
             let r' = r\<lparr>fb_ground_truth := truth, fb_decided_by := decided_by, fb_decided_at := decided_at, fb_notes := notes\<rparr>
             in (Inr r', S\<lparr>at_feedback := tbl_save fb_id r' (at_feedback S)\<rparr>)
         | None \<Rightarrow>
             let r = \<lparr>fb_id = new_id, fb_linkage_id = i, fb_actor_a = a, fb_actor_b = b, fb_ground_truth = truth,
                      fb_decided_by = decided_by, fb_decided_at = decided_at, fb_notes = notes\<rparr>
             in if \<not> a < b \<or> \<not> tbl_has lk_id i (at_linkages S) \<or> tbl_has fb_id new_id (at_feedback S)
                then (Inl (IntegrityError ''feedback_pair''), S)
                else (Inr r, S\<lparr>at_feedback := at_feedback S @ [r]\<rparr>))))"

definition get_feedback_pair :: "uuid \<Rightarrow> attr_store \<Rightarrow> feedback_row option" where
  "get_feedback_pair i S = find (\<lambda>r. fb_linkage_id r = i) (at_feedback S)"

definition all_feedback_pairs :: "attr_store \<Rightarrow> (uuid \<times> uuid \<times> string) list" where
  "all_feedback_pairs S = map (\<lambda>r. (fb_actor_a r, fb_actor_b r, fb_ground_truth r)) (at_feedback S)"

text \<open>The foreign key on \<open>linkage.id\<close> is enforced.\<close>

definition record_verifier_result ::
  "uuid \<Rightarrow> uuid \<Rightarrow> real \<Rightarrow> real \<Rightarrow> string \<Rightarrow> verification_result list \<Rightarrow> time \<Rightarrow> attr_store \<Rightarrow> (unit, attr_store) outcome" where
  "record_verifier_result new_id i composite flr state results computed_at S =
     (case find (\<lambda>r. st_linkage_id r = i) (at_settled S) of
        Some r \<Rightarrow>
          (Inr (), S\<lparr>at_settled := tbl_save st_id (r\<lparr>st_composite := composite, st_floor := flr, st_state := state,
              st_results := results, st_computed_at := computed_at\<rparr>) (at_settled S)\<rparr>)
      | None \<Rightarrow>
          if \<not> tbl_has lk_id i (at_linkages S) \<or> tbl_has st_id new_id (at_settled S)
          then (Inl (IntegrityError ''linkage_verifier_result''), S)
          else (Inr (), S\<lparr>at_settled := at_settled S @ [\<lparr>st_id = new_id, st_linkage_id = i, st_composite = composite,
              st_floor = flr, st_state = state, st_results = results, st_computed_at = computed_at\<rparr>]\<rparr>))"

definition get_verifier_result :: "uuid \<Rightarrow> attr_store \<Rightarrow> settled_row option" where
  "get_verifier_result i S = find (\<lambda>r. st_linkage_id r = i) (at_settled S)"

section \<open>Event logs\<close>

text \<open>
  One transaction reads the largest number and inserts the next one. Transactions are serialised, so the retry
  after a lost race is not taken.
\<close>

definition next_event_seq :: "uuid \<Rightarrow> event_row list \<Rightarrow> nat" where
  "next_event_seq parent evs = Suc (fold max (map el_event_seq (filter (\<lambda>r. el_parent_id r = parent) evs)) 0)"

definition append_event :: "uuid \<Rightarrow> string \<Rightarrow> uuid \<Rightarrow> string option \<Rightarrow> time \<Rightarrow> event_row list \<Rightarrow> event_row list" where
  "append_event parent subject event_id actor ts evs =
     evs @ [\<lparr>el_parent_id = parent, el_event_seq = next_event_seq parent evs, el_subject = subject, el_event_id = event_id,
             el_ts = ts, el_actor = actor\<rparr>]"

definition events_for :: "uuid \<Rightarrow> event_row list \<Rightarrow> event_row list" where
  "events_for parent evs = order_asc (\<lambda>r. (el_ts r, el_event_seq r)) (filter (\<lambda>r. el_parent_id r = parent) evs)"

definition events_since :: "uuid option \<Rightarrow> nat \<Rightarrow> event_row list \<Rightarrow> event_row list" where
  "events_since after limit evs =
     take limit (order_asc el_event_id (filter (\<lambda>r. case after of None \<Rightarrow> True | Some e \<Rightarrow> e < el_event_id r) evs))"

section \<open>Simhashes\<close>

text \<open>\<open>int(s, 16)\<close>: surrounding white space, a sign, the prefix, digits with single underscores between.\<close>

definition hex_digit_val :: "char \<Rightarrow> nat option" where
  "hex_digit_val c = (let n = of_char c :: nat in
     if 48 \<le> n \<and> n \<le> 57 then Some (n - 48) else if 97 \<le> n \<and> n \<le> 102 then Some (n - 87)
     else if 65 \<le> n \<and> n \<le> 70 then Some (n - 55) else None)"

fun hex_val :: "nat \<Rightarrow> bool \<Rightarrow> string \<Rightarrow> nat option" where
  "hex_val acc ok [] = (if ok then Some acc else None)"
| "hex_val acc ok (c # cs) =
     (case hex_digit_val c of
        Some d \<Rightarrow> hex_val (16 * acc + d) True cs
      | None \<Rightarrow> if c = CHR ''_'' \<and> ok then hex_val acc False cs else None)"

definition hex_magnitude :: "string \<Rightarrow> nat option" where
  "hex_magnitude s =
     (if take 2 s = ''0x'' \<or> take 2 s = ''0X''
      then (if take 1 (drop 2 s) = ''_'' then hex_val 0 False (drop 3 s) else hex_val 0 False (drop 2 s))
      else hex_val 0 False s)"

definition py_int16 :: "string \<Rightarrow> int option" where
  "py_int16 s = (case py_strip s of
      [] \<Rightarrow> None
    | c # cs \<Rightarrow> if c = CHR ''-'' then map_option (\<lambda>n. - int n) (hex_magnitude cs)
                else if c = CHR ''+'' then map_option int (hex_magnitude cs)
                else map_option int (hex_magnitude (c # cs)))"

fun popcount :: "nat \<Rightarrow> nat" where
  "popcount n = (if n = 0 then 0 else n mod 2 + popcount (n div 2))"

declare popcount.simps [simp del]

text \<open>The comparators' \<open>hamming64\<close> and the SQL function of the same name.\<close>

definition hamming64 :: "string \<Rightarrow> string \<Rightarrow> exn + nat" where
  "hamming64 hex_a hex_b =
     (if length hex_a \<noteq> 16 \<or> length hex_b \<noteq> 16 then Inl (ValueError ''hamming64 requires 16-char hex strings'')
      else (case (py_int16 hex_a, py_int16 hex_b) of
              (Some x, Some y) \<Rightarrow> Inr (popcount (nat \<bar>x XOR y\<bar>))
            | _ \<Rightarrow> Inl (ValueError ''invalid literal for int()'')))"

definition sql_hamming64 :: "int \<Rightarrow> int \<Rightarrow> nat" where
  "sql_hamming64 a b = popcount (nat ((a XOR b) AND mask 64))"

definition hex_to_int :: "string \<Rightarrow> exn + int" where
  "hex_to_int h =
     (case py_int16 h of
        None \<Rightarrow> Inl (ValueError ''invalid literal for int()'')
      | Some u \<Rightarrow> Inr (if u \<ge> 2 ^ 63 then u - 2 ^ 64 else u))"

definition lower_hex_digit :: "nat \<Rightarrow> char" where
  "lower_hex_digit d = (if d < 10 then char_of (48 + d) else char_of (87 + d))"

fun hex_of :: "nat \<Rightarrow> string" where
  "hex_of n = (if n < 16 then [lower_hex_digit n] else hex_of (n div 16) @ [lower_hex_digit (n mod 16)])"

declare hex_of.simps [simp del]

text \<open>\<open>format(n, "016x")\<close>.\<close>

definition int_to_hex :: "int \<Rightarrow> string" where
  "int_to_hex n = (let u = nat (if n < 0 then n + 2 ^ 64 else n); h = hex_of u in replicate (16 - length h) CHR ''0'' @ h)"

text \<open>A bound integer outside 64 bits is refused by the driver.\<close>

definition sqlite_int :: "int \<Rightarrow> exn + int" where
  "sqlite_int n = (if - (2 ^ 63) \<le> n \<and> n < 2 ^ 63 then Inr n else Inl OverflowError)"

definition upsert_simhash :: "uuid \<Rightarrow> string \<Rightarrow> string \<Rightarrow> attr_store \<Rightarrow> (unit, attr_store) outcome" where
  "upsert_simhash actor primitive hex S =
     (case hex_to_int hex of
        Inl e \<Rightarrow> (Inl e, S)
      | Inr u \<Rightarrow>
          (case sqlite_int u of
             Inl e \<Rightarrow> (Inl e, S)
           | Inr n \<Rightarrow>
               let v = \<lparr>vs_actor_id = actor, vs_primitive = primitive, vs_simhash = n\<rparr>; key = (\<lambda>r. (vs_actor_id r, vs_primitive r))
               in (Inr (), S\<lparr>at_vectors := (if tbl_has key (actor, primitive) (at_vectors S)
                     then tbl_save key v (at_vectors S) else at_vectors S @ [v])\<rparr>)))"

record vector_match =
  vm_actor_id :: uuid
  vm_distance :: nat
  vm_simhash_hex :: string

text \<open>Rows at equal distance come in insertion order; SQL leaves their order open.\<close>

definition nearest_simhashes ::
  "string \<Rightarrow> string \<Rightarrow> nat \<Rightarrow> nat \<Rightarrow> uuid option \<Rightarrow> attr_store \<Rightarrow> exn + vector_match list" where
  "nearest_simhashes primitive hex max_distance limit exclude S =
     (case hex_to_int hex of
        Inl e \<Rightarrow> Inl e
      | Inr u \<Rightarrow>
          (case sqlite_int u of
             Inl e \<Rightarrow> Inl e
           | Inr q \<Rightarrow>
               let rows = filter (\<lambda>r. vs_primitive r = primitive \<and> Some (vs_actor_id r) \<noteq> exclude
                            \<and> sql_hamming64 q (vs_simhash r) \<le> max_distance) (at_vectors S)
               in Inr (map (\<lambda>r. \<lparr>vm_actor_id = vs_actor_id r, vm_distance = sql_hamming64 q (vs_simhash r),
                                vm_simhash_hex = int_to_hex (vs_simhash r)\<rparr>)
                        (take limit (order_asc (\<lambda>r. sql_hamming64 q (vs_simhash r)) rows)))))"

end
