(* ===== verification/Personas.thy ===== *)
theory Personas
  imports Linkages
begin

text \<open>
  Personas, the groups of actors that were confirmed to be one (\<open>sqlmodel_repo/personas.py\<close>): the forward list of
  a persona's members and the membership rows, and their refinement of a partition of the actors.
\<close>

section \<open>Operations\<close>

definition persona_membership :: "uuid \<Rightarrow> attr_store \<Rightarrow> persona_member_row option" where
  "persona_membership actor S = find (\<lambda>m. pm_actor_id m = actor) (at_members S)"

definition get_persona :: "uuid \<Rightarrow> attr_store \<Rightarrow> persona_row option" where
  "get_persona i S = tbl_get pe_id i (at_personas S)"

definition persona_for_actor :: "uuid \<Rightarrow> attr_store \<Rightarrow> persona_row option" where
  "persona_for_actor actor S =
     (case persona_membership actor S of None \<Rightarrow> None | Some m \<Rightarrow> get_persona (pm_persona_id m) S)"

text \<open>The primary key, the unique actor and the foreign key of \<open>persona_membership\<close>.\<close>

definition insert_persona_member :: "persona_member_row \<Rightarrow> attr_store \<Rightarrow> (unit, attr_store) outcome" where
  "insert_persona_member m S =
     (if tbl_has pm_actor_id (pm_actor_id m) (at_members S) \<or> \<not> tbl_has pe_id (pm_persona_id m) (at_personas S)
      then (Inl (IntegrityError ''persona_membership''), S)
      else (Inr (), S\<lparr>at_members := at_members S @ [m]\<rparr>))"

definition add_persona_member ::
  "persona_row \<Rightarrow> uuid \<Rightarrow> uuid option \<Rightarrow> time \<Rightarrow> attr_store \<Rightarrow> (persona_row, attr_store) outcome" where
  "add_persona_member p actor via now S =
     (let p' = (if actor \<notin> set (pe_members p) then p\<lparr>pe_members := pe_members p @ [actor], pe_updated_at := now\<rparr> else p);
          m = \<lparr>pm_persona_id = pe_id p, pm_actor_id = actor, pm_joined_at = now, pm_via_linkage_id = via\<rparr>
      in (case insert_persona_member m (S\<lparr>at_personas := tbl_save pe_id p' (at_personas S)\<rparr>) of
            (Inl e, _) \<Rightarrow> (Inl e, S) | (Inr _, S') \<Rightarrow> (Inr p', S')))"

definition create_persona ::
  "uuid \<Rightarrow> uuid \<Rightarrow> uuid \<Rightarrow> uuid option \<Rightarrow> time \<Rightarrow> attr_store \<Rightarrow> (persona_row, attr_store) outcome" where
  "create_persona new_id a b via now S =
     (let p = \<lparr>pe_id = new_id, pe_label = None, pe_members = [a, b], pe_created_at = now, pe_updated_at = now\<rparr>;
          m = (\<lambda>x. \<lparr>pm_persona_id = new_id, pm_actor_id = x, pm_joined_at = now, pm_via_linkage_id = via\<rparr>)
      in if tbl_has pe_id new_id (at_personas S) then (Inl (IntegrityError ''persona''), S)
         else (case insert_persona_member (m a) (S\<lparr>at_personas := at_personas S @ [p]\<rparr>) of
                 (Inl e, _) \<Rightarrow> (Inl e, S)
               | (Inr _, S1) \<Rightarrow> (case insert_persona_member (m b) S1 of
                     (Inl e, _) \<Rightarrow> (Inl e, S) | (Inr _, S2) \<Rightarrow> (Inr p, S2))))"

text \<open>Two personas: the one with the smaller id absorbs the other.\<close>

definition absorb_persona ::
  "uuid \<Rightarrow> uuid \<Rightarrow> time \<Rightarrow> attr_store \<Rightarrow> (persona_row, attr_store) outcome" where
  "absorb_persona kept dropped now S =
     (case (get_persona kept S, get_persona dropped S) of
        (Some k, Some d) \<Rightarrow>
          let k' = k\<lparr>pe_members := dedup_first (pe_members k @ pe_members d), pe_updated_at := now\<rparr>
          in (Inr k', S\<lparr>at_personas := tbl_delete pe_id dropped (tbl_save pe_id k' (at_personas S)),
                        at_members := tbl_update (\<lambda>m. pm_persona_id m = dropped) (\<lambda>m. m\<lparr>pm_persona_id := kept\<rparr>) (at_members S)\<rparr>)
      | _ \<Rightarrow> (Inl (RuntimeError ''merge target missing''), S))"

definition missing_persona :: exn where
  "missing_persona = RuntimeError ''membership references missing persona''"

definition merge_actors_into_persona ::
  "uuid \<Rightarrow> uuid \<Rightarrow> uuid \<Rightarrow> uuid option \<Rightarrow> time \<Rightarrow> attr_store \<Rightarrow> (persona_row, attr_store) outcome" where
  "merge_actors_into_persona new_id a b via now S =
     (case (persona_membership a S, persona_membership b S) of
        (None, None) \<Rightarrow> create_persona new_id a b via now S
      | (Some ma, None) \<Rightarrow>
          (case get_persona (pm_persona_id ma) S of
             None \<Rightarrow> (Inl missing_persona, S) | Some p \<Rightarrow> add_persona_member p b via now S)
      | (None, Some mb) \<Rightarrow>
          (case get_persona (pm_persona_id mb) S of
             None \<Rightarrow> (Inl missing_persona, S) | Some p \<Rightarrow> add_persona_member p a via now S)
      | (Some ma, Some mb) \<Rightarrow>
          if pm_persona_id ma = pm_persona_id mb
          then (case get_persona (pm_persona_id ma) S of None \<Rightarrow> (Inl missing_persona, S) | Some p \<Rightarrow> (Inr p, S))
          else absorb_persona (min (pm_persona_id ma) (pm_persona_id mb)) (max (pm_persona_id ma) (pm_persona_id mb)) now S)"

definition split_actor_from_persona :: "uuid \<Rightarrow> time \<Rightarrow> attr_store \<Rightarrow> persona_row option \<times> attr_store" where
  "split_actor_from_persona actor now S =
     (case persona_membership actor S of
        None \<Rightarrow> (None, S)
      | Some m \<Rightarrow>
          (case get_persona (pm_persona_id m) S of
             None \<Rightarrow> (None, S)
           | Some p \<Rightarrow>
               let p' = p\<lparr>pe_members := filter (\<lambda>x. x \<noteq> actor) (pe_members p), pe_updated_at := now\<rparr>;
                   ms = filter (\<lambda>x. \<not> (pm_persona_id x = pm_persona_id m \<and> pm_actor_id x = actor)) (at_members S)
               in if pe_members p' = []
                  then (None, S\<lparr>at_personas := tbl_delete pe_id (pe_id p) (at_personas S), at_members := ms\<rparr>)
                  else (Some p', S\<lparr>at_personas := tbl_save pe_id p' (at_personas S), at_members := ms\<rparr>)))"

definition persona_members :: "uuid \<Rightarrow> attr_store \<Rightarrow> uuid list" where
  "persona_members i S = map pm_actor_id (filter (\<lambda>m. pm_persona_id m = i) (at_members S))"

definition list_persona_memberships :: "uuid \<Rightarrow> nat \<Rightarrow> nat \<Rightarrow> attr_store \<Rightarrow> persona_member_row list" where
  "list_persona_memberships i limit offset S =
     page offset limit (order_asc (\<lambda>m. (pm_joined_at m, pm_actor_id m)) (filter (\<lambda>m. pm_persona_id m = i) (at_members S)))"

definition count_persona_memberships :: "uuid \<Rightarrow> attr_store \<Rightarrow> nat" where
  "count_persona_memberships i S = length (filter (\<lambda>m. pm_persona_id m = i) (at_members S))"

definition count_personas :: "attr_store \<Rightarrow> nat" where
  "count_personas S = length (at_personas S)"

definition list_personas :: "nat \<Rightarrow> nat \<Rightarrow> attr_store \<Rightarrow> persona_row list" where
  "list_personas limit offset S = page offset limit (order_desc pe_id (at_personas S))"

section \<open>The two views agree\<close>

definition actors_in :: "persona_member_row list \<Rightarrow> uuid \<Rightarrow> uuid set" where
  "actors_in ms i = pm_actor_id ` set (filter (\<lambda>m. pm_persona_id m = i) ms)"

definition persona_wf :: "attr_store \<Rightarrow> bool" where
  "persona_wf S \<longleftrightarrow> keyed pe_id (at_personas S) \<and> keyed pm_actor_id (at_members S)
     \<and> (\<forall>m\<in>set (at_members S). tbl_has pe_id (pm_persona_id m) (at_personas S))
     \<and> (\<forall>p\<in>set (at_personas S). distinct (pe_members p) \<and> pe_members p \<noteq> []
          \<and> set (pe_members p) = actors_in (at_members S) (pe_id p))"

lemma actors_in_simps [simp]:
  "actors_in (ms @ ms') i = actors_in ms i \<union> actors_in ms' i"
  "actors_in [m] i = (if pm_persona_id m = i then {pm_actor_id m} else {})"
  by (auto simp: actors_in_def)

lemma actors_in_iff: "x \<in> actors_in ms i \<longleftrightarrow> (\<exists>m\<in>set ms. pm_persona_id m = i \<and> pm_actor_id m = x)"
  by (auto simp: actors_in_def)

text \<open>The abstract state: the block of each actor in the partition of all actors.\<close>

definition persona_block :: "attr_store \<Rightarrow> uuid \<Rightarrow> uuid set" where
  "persona_block S x = insert x (\<Union>p\<in>{p \<in> set (at_personas S). x \<in> set (pe_members p)}. set (pe_members p))"

definition merge_blocks :: "uuid \<Rightarrow> uuid \<Rightarrow> (uuid \<Rightarrow> uuid set) \<Rightarrow> uuid \<Rightarrow> uuid set" where
  "merge_blocks a b f x = (if x \<in> f a \<union> f b then f a \<union> f b else f x)"

definition split_block :: "uuid \<Rightarrow> (uuid \<Rightarrow> uuid set) \<Rightarrow> uuid \<Rightarrow> uuid set" where
  "split_block a f x = (if x = a then {a} else f x - {a})"

lemma membership_iff:
  assumes "persona_wf S"
  shows "persona_membership x S = Some m \<longleftrightarrow> m \<in> set (at_members S) \<and> pm_actor_id m = x"
    and "persona_membership x S = None \<longleftrightarrow> (\<forall>m\<in>set (at_members S). pm_actor_id m \<noteq> x)"
proof -
  have "persona_membership x S = tbl_get pm_actor_id x (at_members S)" by (simp add: persona_membership_def tbl_get_def)
  then show "persona_membership x S = Some m \<longleftrightarrow> m \<in> set (at_members S) \<and> pm_actor_id m = x"
    "persona_membership x S = None \<longleftrightarrow> (\<forall>m\<in>set (at_members S). pm_actor_id m \<noteq> x)"
    using assms tbl_get_keyed_iff [of pm_actor_id "at_members S" x m]
    by (auto simp: persona_wf_def tbl_get_None_iff tbl_has_def)
qed

text \<open>An actor with a membership is in the list of exactly that persona.\<close>

lemma member_persona:
  assumes "persona_wf S" and "m \<in> set (at_members S)"
  obtains p where "get_persona (pm_persona_id m) S = Some p" "p \<in> set (at_personas S)" "pe_id p = pm_persona_id m"
    "pm_actor_id m \<in> set (pe_members p)"
    "\<forall>q\<in>set (at_personas S). pm_actor_id m \<in> set (pe_members q) \<longrightarrow> q = p"
proof -
  have k: "keyed pe_id (at_personas S)" using assms(1) by (simp add: persona_wf_def)
  have "tbl_has pe_id (pm_persona_id m) (at_personas S)" using assms by (simp add: persona_wf_def)
  then obtain p where p: "get_persona (pm_persona_id m) S = Some p"
    unfolding get_persona_def using tbl_get_None_iff by (metis not_None_eq)
  then have mem: "p \<in> set (at_personas S)" "pe_id p = pm_persona_id m"
    unfolding get_persona_def using tbl_get_SomeD by fast+
  have lists: "set (pe_members q) = actors_in (at_members S) (pe_id q)"
    if "q \<in> set (at_personas S)" for q using assms(1) that by (simp add: persona_wf_def)
  have one: "m' = m" if "m' \<in> set (at_members S)" "pm_actor_id m' = pm_actor_id m" for m'
    using assms that keyed_eq [of pm_actor_id "at_members S" m' m] by (simp add: persona_wf_def)
  show ?thesis
  proof (rule that [OF p mem])
    show "pm_actor_id m \<in> set (pe_members p)" using lists [OF mem(1)] assms(2) mem(2) by (auto simp: actors_in_iff)
    show "\<forall>q\<in>set (at_personas S). pm_actor_id m \<in> set (pe_members q) \<longrightarrow> q = p"
    proof (intro ballI impI)
      fix q assume q: "q \<in> set (at_personas S)" "pm_actor_id m \<in> set (pe_members q)"
      then have "pe_id q = pe_id p" using lists [OF q(1)] mem(2) by (auto simp: actors_in_iff dest: one)
      then show "q = p" using keyed_eq [OF k q(1) mem(1)] by simp
    qed
  qed
qed

lemma block_member:
  assumes "persona_wf S" and "persona_membership x S = Some m"
  obtains p where "get_persona (pm_persona_id m) S = Some p" "p \<in> set (at_personas S)" "pe_id p = pm_persona_id m"
    "x \<in> set (pe_members p)" "persona_block S x = set (pe_members p)"
proof -
  have m: "m \<in> set (at_members S)" "pm_actor_id m = x" using membership_iff(1) [OF assms(1)] assms(2) by simp_all
  obtain p where p: "get_persona (pm_persona_id m) S = Some p" "p \<in> set (at_personas S)" "pe_id p = pm_persona_id m"
      "x \<in> set (pe_members p)" "\<forall>q\<in>set (at_personas S). x \<in> set (pe_members q) \<longrightarrow> q = p"
    using member_persona [OF assms(1) m(1), unfolded m(2)] by blast
  then have "{q \<in> set (at_personas S). x \<in> set (pe_members q)} = {p}" by blast
  then have "persona_block S x = set (pe_members p)" using p(4) by (auto simp: persona_block_def)
  then show ?thesis by (rule that [OF p(1-4)])
qed

lemma block_alone:
  assumes "persona_wf S" and "persona_membership x S = None"
  shows "\<forall>p\<in>set (at_personas S). x \<notin> set (pe_members p)" and "persona_block S x = {x}"
proof -
  show "\<forall>p\<in>set (at_personas S). x \<notin> set (pe_members p)"
    using assms membership_iff(2) [OF assms(1)] by (auto simp: persona_wf_def actors_in_iff)
  then show "persona_block S x = {x}" by (auto simp: persona_block_def)
qed


lemma one_persona:
  assumes "persona_wf S" and "r \<in> set (at_personas S)" "s \<in> set (at_personas S)" "x \<in> set (pe_members r)" "x \<in> set (pe_members s)"
  shows "r = s"
proof -
  obtain m where m: "m \<in> set (at_members S)" "pm_actor_id m = x"
    using assms(1,2,4) by (auto simp: persona_wf_def actors_in_iff)
  show ?thesis using member_persona [OF assms(1) m(1), unfolded m(2)] assms by metis
qed

lemma block_of_rows:
  "{r \<in> set (at_personas S). x \<in> set (pe_members r)} = R \<Longrightarrow> persona_block S x = insert x (\<Union>r\<in>R. set (pe_members r))"
  by (simp add: persona_block_def)

lemma same_block:
  assumes "persona_wf S" and "p \<in> set (at_personas S)" and "x \<in> set (pe_members p)"
  shows "persona_block S x = set (pe_members p)"
proof -
  have "{q \<in> set (at_personas S). x \<in> set (pe_members q)} = {p}" using assms(2,3) one_persona [OF assms(1) _ assms(2) _ assms(3)] by blast
  then show ?thesis using assms(3) by (auto simp: persona_block_def)
qed

section \<open>Merging and splitting are the partition's\<close>

lemma insert_member_ok:
  assumes "\<not> tbl_has pm_actor_id (pm_actor_id m) (at_members S)" and "tbl_has pe_id (pm_persona_id m) (at_personas S)"
  shows "insert_persona_member m S = (Inr (), S\<lparr>at_members := at_members S @ [m]\<rparr>)"
  using assms by (simp add: insert_persona_member_def)

text \<open>What a merge writes.\<close>

definition persona_rows :: "attr_store \<Rightarrow> persona_row list \<times> persona_member_row list" where
  "persona_rows S = (at_personas S, at_members S)"

lemma block_rows: "persona_rows S = persona_rows T \<Longrightarrow> persona_block S = persona_block T"
  by (auto simp: persona_rows_def persona_block_def fun_eq_iff)

lemma wf_rows: "persona_rows S = persona_rows T \<Longrightarrow> persona_wf S = persona_wf T"
  by (simp add: persona_rows_def persona_wf_def)

lemma create_persona_correct:
  assumes "persona_wf S" and "persona_membership a S = None" "persona_membership b S = None" "a \<noteq> b"
    and "\<not> tbl_has pe_id n (at_personas S)"
  shows "\<exists>p T. create_persona n a b via now S = (Inr p, T) \<and> pe_members p = [a, b] \<and> p \<in> set (at_personas T)
    \<and> persona_wf T \<and> persona_block T = merge_blocks a b (persona_block S)"
proof -
  let ?p = "\<lparr>pe_id = n, pe_label = None, pe_members = [a, b], pe_created_at = now, pe_updated_at = now\<rparr>"
  let ?m = "\<lambda>x. \<lparr>pm_persona_id = n, pm_actor_id = x, pm_joined_at = now, pm_via_linkage_id = via\<rparr>"
  let ?T = "S\<lparr>at_personas := at_personas S @ [?p], at_members := (at_members S @ [?m a]) @ [?m b]\<rparr>"
  have out: "\<forall>m\<in>set (at_members S). pm_actor_id m \<noteq> a" "\<forall>m\<in>set (at_members S). pm_actor_id m \<noteq> b"
    using membership_iff(2) [OF assms(1)] assms(2,3) by simp_all
  have new: "\<not> tbl_has pm_actor_id a (at_members S)" "\<not> tbl_has pm_actor_id b (at_members S @ [?m a])"
    using out assms(4) by (auto simp: tbl_has_def)
  have eq: "create_persona n a b via now S = (Inr ?p, ?T)"
    using assms(5) new by (simp add: create_persona_def insert_persona_member_def tbl_has_snoc Let_def)
  have old: "pm_persona_id m \<noteq> n" if "m \<in> set (at_members S)" for m
    using assms(1,5) that by (auto simp: persona_wf_def)
  have fresh: "actors_in (at_members S) n = {}" using old by (auto simp: actors_in_iff)
  have "persona_wf ?T"
    unfolding persona_wf_def
  proof (intro conjI ballI)
    show "keyed pe_id (at_personas ?T)" using assms(1,5) by (simp add: persona_wf_def)
    show "keyed pm_actor_id (at_members ?T)"
    proof -
      have "keyed pm_actor_id (at_members S)" using assms(1) by (simp add: persona_wf_def)
      then have "keyed pm_actor_id ((at_members S @ [?m a]) @ [?m b])" using new by (simp only: keyed_snoc) simp
      then show ?thesis by simp
    qed
    show "tbl_has pe_id (pm_persona_id x) (at_personas ?T)" if "x \<in> set (at_members ?T)" for x
      using that assms(1) by (auto simp: persona_wf_def tbl_has_def)
  next
    fix r assume "r \<in> set (at_personas ?T)"
    then consider "r = ?p" | "r \<in> set (at_personas S)" "pe_id r \<noteq> n" using assms(5) by (auto simp: tbl_has_def)
    then have "distinct (pe_members r) \<and> pe_members r \<noteq> [] \<and> set (pe_members r) = actors_in (at_members ?T) (pe_id r)"
    proof cases
      case 1
      then show ?thesis using assms(4) fresh by (simp add: actors_in_def)
    next
      case 2
      then show ?thesis using assms(1) by (simp add: persona_wf_def actors_in_def)
    qed
    then show "distinct (pe_members r)" "pe_members r \<noteq> []" "set (pe_members r) = actors_in (at_members ?T) (pe_id r)" by blast+
  qed
  moreover have "persona_block ?T x = merge_blocks a b (persona_block S) x" for x
  proof -
    note alone = block_alone [OF assms(1,2)] block_alone [OF assms(1,3)]
    have "{r \<in> set (at_personas ?T). x \<in> set (pe_members r)}
        = (if x \<in> {a, b} then {?p} else {r \<in> set (at_personas S). x \<in> set (pe_members r)})"
      using alone(1,3) by auto
    from block_of_rows [OF this] show ?thesis
      using alone(2,4) by (cases "x \<in> {a, b}") (auto simp: merge_blocks_def persona_block_def [of S x])
  qed
  then have "persona_block ?T = merge_blocks a b (persona_block S)" by (rule ext)
  moreover have "pe_members ?p = [a, b]" "?p \<in> set (at_personas ?T)" by simp_all
  ultimately show ?thesis using eq by (intro exI [of _ ?p] exI [of _ ?T] conjI)
qed

lemma add_member_correct:
  assumes "persona_wf S" and "persona_membership a S = Some m" "persona_membership b S = None"
    and "get_persona (pm_persona_id m) S = Some p"
  shows "\<exists>p' T. add_persona_member p b via now S = (Inr p', T) \<and> set (pe_members p') = persona_block S a \<union> persona_block S b
    \<and> p' \<in> set (at_personas T) \<and> persona_wf T \<and> persona_block T = merge_blocks a b (persona_block S)"
proof -
  obtain q where q: "get_persona (pm_persona_id m) S = Some q" "q \<in> set (at_personas S)" "pe_id q = pm_persona_id m"
      "a \<in> set (pe_members q)" "persona_block S a = set (pe_members q)" by (rule block_member [OF assms(1,2)])
  have qp: "q = p" using q(1) assms(4) by simp
  note alone = block_alone [OF assms(1,3)]
  let ?p = "p\<lparr>pe_members := pe_members p @ [b], pe_updated_at := now\<rparr>"
  let ?m = "\<lparr>pm_persona_id = pe_id p, pm_actor_id = b, pm_joined_at = now, pm_via_linkage_id = via\<rparr>"
  let ?T = "S\<lparr>at_personas := tbl_save pe_id ?p (at_personas S), at_members := at_members S @ [?m]\<rparr>"
  have out: "\<forall>m\<in>set (at_members S). pm_actor_id m \<noteq> b" using membership_iff(2) [OF assms(1)] assms(3) by simp
  have b: "b \<notin> set (pe_members p)" using alone(1) q(2) qp by simp
  have has: "tbl_has pe_id (pe_id p) (at_personas S)" using q(2) qp by (auto simp: tbl_has_def)
  have eq: "add_persona_member p b via now S = (Inr ?p, ?T)"
  proof -
    have "\<not> tbl_has pm_actor_id b (at_members S)" using out by (auto simp: tbl_has_def)
    then show ?thesis using b has by (simp add: add_persona_member_def insert_persona_member_def Let_def)
  qed
  have k: "keyed pe_id (at_personas S)" using assms(1) by (simp add: persona_wf_def)
  have rows: "set (at_personas ?T) = {r \<in> set (at_personas S). pe_id r \<noteq> pe_id p} \<union> {?p}"
    using has by (simp add: set_tbl_save)
  have one: "r = s" if "r \<in> set (at_personas S)" "s \<in> set (at_personas S)" "x \<in> set (pe_members r)" "x \<in> set (pe_members s)" for r s x
    using one_persona [OF assms(1) that] .
  have lists: "set (pe_members r) = actors_in (at_members S) (pe_id r)"
    if "r \<in> set (at_personas S)" for r using assms(1) that by (simp add: persona_wf_def)
  have "persona_wf ?T"
    unfolding persona_wf_def
  proof (intro conjI ballI)
    show "keyed pe_id (at_personas ?T)" using k by simp
    show "keyed pm_actor_id (at_members ?T)" using assms(1) out by (auto simp: persona_wf_def tbl_has_def)
    show "tbl_has pe_id (pm_persona_id x) (at_personas ?T)" if "x \<in> set (at_members ?T)" for x
      using that assms(1) has by (auto simp: persona_wf_def)
  next
    fix r assume "r \<in> set (at_personas ?T)"
    then consider "r = ?p" | "r \<in> set (at_personas S)" "pe_id r \<noteq> pe_id p" unfolding rows by blast
    then show "distinct (pe_members r)" "pe_members r \<noteq> []"
        "set (pe_members r) = actors_in (at_members ?T) (pe_id r)"
      using assms(1) b q(2) qp lists by (cases; auto simp: persona_wf_def)+
  qed
  moreover have "persona_block ?T x = merge_blocks a b (persona_block S) x" for x
  proof -
    have "{r \<in> set (at_personas ?T). x \<in> set (pe_members r)}
        = (if x \<in> insert b (set (pe_members p)) then {?p} else {r \<in> set (at_personas S). x \<in> set (pe_members r)})"
      unfolding rows using alone(1) one [where x = x] q(2) qp keyed_eq [OF k _ q(2)] by auto
    from block_of_rows [OF this] show ?thesis
      using q(5) qp alone(2) by (cases "x \<in> insert b (set (pe_members p))") (auto simp: merge_blocks_def persona_block_def [of S x])
  qed
  ultimately show ?thesis using eq q(5) qp alone(2) rows by auto
qed


lemma set_dedup_first [simp]: "set (dedup_first xs) = set xs" "distinct (dedup_first xs)"
  by (simp_all add: dedup_first_def)

lemma dedup_first_Nil [simp]: "dedup_first xs = [] \<longleftrightarrow> xs = []"
  by (simp add: dedup_first_def)

lemma actors_in_moved:
  "actors_in (tbl_update (\<lambda>m. pm_persona_id m = d) (\<lambda>m. m\<lparr>pm_persona_id := k\<rparr>) ms) i
    = (if i = k then actors_in ms k \<union> actors_in ms d else if i = d then {} else actors_in ms i)"
proof -
  have moved: "x \<in> actors_in (tbl_update (\<lambda>m. pm_persona_id m = d) (\<lambda>m. m\<lparr>pm_persona_id := k\<rparr>) ms) i
      \<longleftrightarrow> (\<exists>m\<in>set ms. (if pm_persona_id m = d then k else pm_persona_id m) = i \<and> pm_actor_id m = x)" for x
    unfolding actors_in_iff tbl_update_def set_map bex_simps by (auto split: if_splits)
  show ?thesis
    by (rule set_eqI, unfold moved) (auto simp: actors_in_iff)
qed

lemma absorb_persona_correct:
  assumes "persona_wf S" and "persona_membership a S = Some ma" "persona_membership b S = Some mb"
    and "{kept, dropped} = {pm_persona_id ma, pm_persona_id mb}" and "kept \<noteq> dropped"
  shows "\<exists>p T. absorb_persona kept dropped now S = (Inr p, T) \<and> set (pe_members p) = persona_block S a \<union> persona_block S b
    \<and> p \<in> set (at_personas T) \<and> persona_wf T \<and> persona_block T = merge_blocks a b (persona_block S)"
proof -
  obtain p where p: "get_persona (pm_persona_id ma) S = Some p" "p \<in> set (at_personas S)" "pe_id p = pm_persona_id ma"
      "a \<in> set (pe_members p)" "persona_block S a = set (pe_members p)" by (rule block_member [OF assms(1,2)])
  obtain q where q: "get_persona (pm_persona_id mb) S = Some q" "q \<in> set (at_personas S)" "pe_id q = pm_persona_id mb"
      "b \<in> set (pe_members q)" "persona_block S b = set (pe_members q)" by (rule block_member [OF assms(1,3)])
  obtain k d where kd: "get_persona kept S = Some k" "get_persona dropped S = Some d" "k \<in> set (at_personas S)" "d \<in> set (at_personas S)"
      "pe_id k = kept" "pe_id d = dropped" "set (pe_members k) \<union> set (pe_members d) = persona_block S a \<union> persona_block S b"
    using assms(4) p q by (auto simp: doubleton_eq_iff Un_commute)
  let ?k = "k\<lparr>pe_members := dedup_first (pe_members k @ pe_members d), pe_updated_at := now\<rparr>"
  let ?T = "S\<lparr>at_personas := tbl_delete pe_id dropped (tbl_save pe_id ?k (at_personas S)),
      at_members := tbl_update (\<lambda>m. pm_persona_id m = dropped) (\<lambda>m. m\<lparr>pm_persona_id := kept\<rparr>) (at_members S)\<rparr>"
  have eq: "absorb_persona kept dropped now S = (Inr ?k, ?T)" by (simp add: absorb_persona_def kd(1,2) Let_def)
  have has: "tbl_has pe_id (pe_id k) (at_personas S)" using kd(3) by (auto simp: tbl_has_def)
  have keys: "keyed pe_id (at_personas S)" using assms(1) by (simp add: persona_wf_def)
  have rows: "set (at_personas ?T) = {r \<in> set (at_personas S). pe_id r \<noteq> kept \<and> pe_id r \<noteq> dropped} \<union> {?k}"
    using has kd(5) assms(5) by (auto simp: tbl_delete_def set_tbl_save)
  have lists: "set (pe_members r) = actors_in (at_members S) (pe_id r)" if "r \<in> set (at_personas S)" for r
    using assms(1) that by (simp add: persona_wf_def)
  have "persona_wf ?T"
    unfolding persona_wf_def
  proof (intro conjI ballI)
    show "keyed pe_id (at_personas ?T)" using keys by simp
    show "keyed pm_actor_id (at_members ?T)" using assms(1) by (simp add: persona_wf_def)
    show "tbl_has pe_id (pm_persona_id x) (at_personas ?T)" if x: "x \<in> set (at_members ?T)" for x
    proof -
      have "pm_persona_id x \<noteq> dropped" "tbl_has pe_id (pm_persona_id x) (at_personas S)"
        using x assms(1,5) kd(5) has by (auto simp: persona_wf_def tbl_update_def split: if_splits)
      then have "tbl_has pe_id (pm_persona_id x) (tbl_save pe_id ?k (at_personas S))" by simp
      then show ?thesis using \<open>pm_persona_id x \<noteq> dropped\<close> by (auto simp: tbl_has_def tbl_delete_def)
    qed
  next
    fix r assume "r \<in> set (at_personas ?T)"
    then consider "r = ?k" | "r \<in> set (at_personas S)" "pe_id r \<noteq> kept" "pe_id r \<noteq> dropped" unfolding rows by blast
    then have "distinct (pe_members r) \<and> pe_members r \<noteq> [] \<and> set (pe_members r) = actors_in (at_members ?T) (pe_id r)"
    proof cases
      case 1
      then have "set (pe_members r) = actors_in (at_members ?T) (pe_id r)"
        using lists [OF kd(3)] lists [OF kd(4)] kd(5,6) by (simp add: actors_in_moved)
      moreover have "pe_members k \<noteq> []" using assms(1) kd(3) by (simp add: persona_wf_def)
      then have "pe_members r \<noteq> []" using 1 by simp
      ultimately show ?thesis using 1 by simp
    next
      case 2
      then show ?thesis using assms(1) by (simp add: persona_wf_def actors_in_moved)
    qed
    then show "distinct (pe_members r)" "pe_members r \<noteq> []" "set (pe_members r) = actors_in (at_members ?T) (pe_id r)" by blast+
  qed
  moreover have "persona_block ?T x = merge_blocks a b (persona_block S) x" for x
  proof -
    have "x \<in> set (pe_members k) \<union> set (pe_members d) \<longleftrightarrow> pe_id r = kept \<or> pe_id r = dropped"
      if r: "r \<in> set (at_personas S)" "x \<in> set (pe_members r)" for r
    proof
      assume "x \<in> set (pe_members k) \<union> set (pe_members d)"
      then have "r = k \<or> r = d" using one_persona [OF assms(1) r(1) kd(3) r(2)] one_persona [OF assms(1) r(1) kd(4) r(2)] by blast
      then show "pe_id r = kept \<or> pe_id r = dropped" using kd(5,6) by blast
    next
      assume "pe_id r = kept \<or> pe_id r = dropped"
      then have "r = k \<or> r = d" using keyed_eq [OF keys r(1) kd(3)] keyed_eq [OF keys r(1) kd(4)] kd(5,6) by auto
      then show "x \<in> set (pe_members k) \<union> set (pe_members d)" using r(2) by blast
    qed
    moreover have "set (pe_members ?k) = set (pe_members k) \<union> set (pe_members d)" by simp
    ultimately have "{r \<in> set (at_personas ?T). x \<in> set (pe_members r)}
        = (if x \<in> set (pe_members k) \<union> set (pe_members d) then {?k} else {r \<in> set (at_personas S). x \<in> set (pe_members r)})"
      unfolding rows by (cases "x \<in> set (pe_members k) \<union> set (pe_members d)"; auto)
    from block_of_rows [OF this] show ?thesis
      using kd(7) by (cases "x \<in> set (pe_members k) \<union> set (pe_members d)") (auto simp: merge_blocks_def persona_block_def [of S x])
  qed
  then have "persona_block ?T = merge_blocks a b (persona_block S)" by (rule ext)
  moreover have "set (pe_members ?k) = persona_block S a \<union> persona_block S b" "?k \<in> set (at_personas ?T)"
    using kd(7) rows by auto
  ultimately show ?thesis using eq by (intro exI [of _ ?k] exI [of _ ?T] conjI)
qed


text \<open>The whole merge.\<close>

lemma merge_actors_correct:
  assumes "persona_wf S" and "a \<noteq> b" and "\<not> tbl_has pe_id n (at_personas S)"
  shows "\<exists>p T. merge_actors_into_persona n a b via now S = (Inr p, T) \<and> set (pe_members p) = persona_block S a \<union> persona_block S b
    \<and> p \<in> set (at_personas T) \<and> persona_wf T \<and> persona_block T = merge_blocks a b (persona_block S)"
proof (cases "persona_membership a S")
  case a: None
  show ?thesis
  proof (cases "persona_membership b S")
    case b: None
    show ?thesis
      using create_persona_correct [OF assms(1) a b assms(2,3), of via now] block_alone(2) [OF assms(1) a] block_alone(2) [OF assms(1) b]
      by (auto simp: merge_actors_into_persona_def a b)
  next
    case b: (Some m)
    obtain p where p: "get_persona (pm_persona_id m) S = Some p" by (rule block_member [OF assms(1) b])
    have sym: "merge_blocks b a f = merge_blocks a b f" for f by (auto simp: merge_blocks_def Un_commute fun_eq_iff)
    show ?thesis using add_member_correct [OF assms(1) b a p, of via now]
      by (simp add: merge_actors_into_persona_def a b p sym Un_commute)
  qed
next
  case a: (Some ma)
  obtain p where p: "get_persona (pm_persona_id ma) S = Some p" "p \<in> set (at_personas S)" "persona_block S a = set (pe_members p)" "a \<in> set (pe_members p)"
    by (rule block_member [OF assms(1) a])
  show ?thesis
  proof (cases "persona_membership b S")
    case b: None
    show ?thesis using add_member_correct [OF assms(1) a b p(1), of via now]
      by (simp add: merge_actors_into_persona_def a b p(1))
  next
    case b: (Some mb)
    obtain q where q: "get_persona (pm_persona_id mb) S = Some q" "q \<in> set (at_personas S)" "persona_block S b = set (pe_members q)" "b \<in> set (pe_members q)"
      by (rule block_member [OF assms(1) b])
    show ?thesis
    proof (cases "pm_persona_id ma = pm_persona_id mb")
      case True
      then have "q = p" using p(1) q(1) by simp
      then have "persona_block S = merge_blocks a b (persona_block S)"
        using p q same_block [OF assms(1) p(2)] by (auto simp: merge_blocks_def fun_eq_iff)
      then show ?thesis using True p q \<open>q = p\<close> assms(1) by (simp add: merge_actors_into_persona_def a b)
    next
      case False
      then have "{min (pm_persona_id ma) (pm_persona_id mb), max (pm_persona_id ma) (pm_persona_id mb)} = {pm_persona_id ma, pm_persona_id mb}"
        "min (pm_persona_id ma) (pm_persona_id mb) \<noteq> max (pm_persona_id ma) (pm_persona_id mb)" by (auto simp: min_def max_def)
      from absorb_persona_correct [OF assms(1) a b this, of now]
      show ?thesis using False by (simp add: merge_actors_into_persona_def a b)
    qed
  qed
qed

lemma split_rows:
  assumes "P = {r \<in> R. pe_id r \<noteq> i} \<union> (if l = [] then {} else {p'})"
    and "\<forall>r\<in>R. x \<in> set (pe_members r) \<longrightarrow> (pe_id r = i) = (x \<in> M)"
    and "set (pe_members p') = set l" and "set l = M - {a}" and "a \<in> M"
  shows "{r \<in> P. x \<in> set (pe_members r)} = (if x \<in> set l then {p'} else if x = a then {} else {r \<in> R. x \<in> set (pe_members r)})"
proof -
  have mem: "r \<in> P \<longleftrightarrow> r \<in> R \<and> pe_id r \<noteq> i \<or> l \<noteq> [] \<and> r = p'" for r unfolding assms(1) by simp
  have l: "x \<in> set l \<longleftrightarrow> x \<in> M \<and> x \<noteq> a" unfolding assms(4) by simp
  have old: "r \<in> R \<Longrightarrow> x \<in> set (pe_members r) \<Longrightarrow> pe_id r = i \<longleftrightarrow> x \<in> M" for r using assms(2) by blast
  have ne: "x \<in> set l \<Longrightarrow> l \<noteq> []" by auto
  have new: "x \<in> set (pe_members p') \<longleftrightarrow> x \<in> set l" unfolding assms(3) ..
  have "r \<in> P \<and> x \<in> set (pe_members r) \<longleftrightarrow>
      (if x \<in> set l then r = p' else x \<noteq> a \<and> r \<in> R \<and> x \<in> set (pe_members r))" for r
  proof (cases "x \<in> set l")
    case True
    then show ?thesis using mem [of r] l old [of r] ne new by metis
  next
    case False
    then show ?thesis using mem [of r] l old [of r] new assms(5) by metis
  qed
  then have "{r \<in> P. x \<in> set (pe_members r)} = {r. if x \<in> set l then r = p' else x \<noteq> a \<and> r \<in> R \<and> x \<in> set (pe_members r)}" by blast
  then show ?thesis by simp
qed

lemma split_actor_correct:
  assumes "persona_wf S"
  shows "persona_wf (snd (split_actor_from_persona a now S)) \<and>
    persona_block (snd (split_actor_from_persona a now S)) = split_block a (persona_block S)"
proof (cases "persona_membership a S")
  case None
  have "{a} = persona_block S a" "\<forall>p\<in>set (at_personas S). a \<notin> set (pe_members p)" using block_alone [OF assms None] by simp_all
  then have "persona_block S = split_block a (persona_block S)"
    by (auto simp: split_block_def fun_eq_iff persona_block_def)
  then show ?thesis using None assms by (simp add: split_actor_from_persona_def)
next
  case (Some m)
  obtain p where p: "get_persona (pm_persona_id m) S = Some p" "p \<in> set (at_personas S)" "pe_id p = pm_persona_id m"
      "a \<in> set (pe_members p)" "persona_block S a = set (pe_members p)" by (rule block_member [OF assms Some])
  have m: "m \<in> set (at_members S)" "pm_actor_id m = a" using membership_iff(1) [OF assms] Some by simp_all
  let ?l = "filter (\<lambda>x. x \<noteq> a) (pe_members p)"
  let ?p = "p\<lparr>pe_members := ?l, pe_updated_at := now\<rparr>"
  let ?ms = "filter (\<lambda>x. \<not> (pm_persona_id x = pm_persona_id m \<and> pm_actor_id x = a)) (at_members S)"
  let ?ps = "if ?l = [] then tbl_delete pe_id (pe_id p) (at_personas S) else tbl_save pe_id ?p (at_personas S)"
  let ?T = "S\<lparr>at_personas := ?ps, at_members := ?ms\<rparr>"
  have T: "snd (split_actor_from_persona a now S) = ?T"
    by (simp add: split_actor_from_persona_def Some p(1) Let_def)
  have has: "tbl_has pe_id (pe_id p) (at_personas S)" using p(2) by (auto simp: tbl_has_def)
  have keys: "keyed pe_id (at_personas S)" "keyed pm_actor_id (at_members S)" using assms by (simp_all add: persona_wf_def)
  have rows: "set ?ps = {r \<in> set (at_personas S). pe_id r \<noteq> pe_id p} \<union> (if ?l = [] then {} else {?p})"
    using has by (simp add: set_tbl_save) (simp add: tbl_delete_def)
  have lists: "set (pe_members r) = actors_in (at_members S) (pe_id r)" if "r \<in> set (at_personas S)" for r
    using assms that by (simp add: persona_wf_def)
  have left: "actors_in ?ms i = (if i = pm_persona_id m then actors_in (at_members S) i - {a} else actors_in (at_members S) i)" for i
    by (auto simp: actors_in_iff)
  have wf: "persona_wf ?T"
    unfolding persona_wf_def
  proof (intro conjI ballI)
    show "keyed pe_id (at_personas ?T)" using keys by simp
    show "keyed pm_actor_id (at_members ?T)" using keys by (simp add: keyed_def distinct_map_filter)
    show "tbl_has pe_id (pm_persona_id x) (at_personas ?T)" if x: "x \<in> set (at_members ?T)" for x
    proof (cases "pm_persona_id x = pe_id p")
      case True
      have "x \<in> set (at_members S)" "pm_actor_id x \<noteq> a" using x True p(3) by auto
      then have "pm_actor_id x \<in> set ?l" using lists [OF p(2)] True by (auto simp: actors_in_iff)
      then have "?l \<noteq> []" by (metis list.set_cases neq_Nil_conv)
      then show ?thesis using has True by simp
    next
      case False
      have "tbl_has pe_id (pm_persona_id x) (at_personas S)" using x assms by (simp add: persona_wf_def)
      then show ?thesis using False by (auto simp: tbl_has_def rows)
    qed
  next
    fix r assume "r \<in> set (at_personas ?T)"
    then have "r \<in> set ?ps" by simp
    then consider "r = ?p" "?l \<noteq> []" | "r \<in> set (at_personas S)" "pe_id r \<noteq> pe_id p" unfolding rows by (auto split: if_splits)
    then have "distinct (pe_members r) \<and> pe_members r \<noteq> [] \<and> set (pe_members r) = actors_in (at_members ?T) (pe_id r)"
    proof cases
      case 1
      then show ?thesis using lists [OF p(2)] p(2,3) assms left by (auto simp: persona_wf_def)
    next
      case 2
      then show ?thesis using assms left p(3) by (simp add: persona_wf_def)
    qed
    then show "distinct (pe_members r)" "pe_members r \<noteq> []" "set (pe_members r) = actors_in (at_members ?T) (pe_id r)" by blast+
  qed
  have "persona_block ?T x = split_block a (persona_block S) x" for x
  proof -
    have same: "pe_id r = pe_id p \<longleftrightarrow> x \<in> set (pe_members p)"
      if r: "r \<in> set (at_personas S)" "x \<in> set (pe_members r)" for r
      using one_persona [OF assms r(1) p(2) r(2)] keyed_eq [OF keys(1) r(1) p(2)] r(2) by blast
    have "{r \<in> set ?ps. x \<in> set (pe_members r)}
        = (if x \<in> set ?l then {?p} else if x = a then {} else {r \<in> set (at_personas S). x \<in> set (pe_members r)})"
    proof (rule split_rows [OF rows])
      show "\<forall>r\<in>set (at_personas S). x \<in> set (pe_members r) \<longrightarrow> (pe_id r = pe_id p) = (x \<in> set (pe_members p))"
        using same by blast
      show "set ?l = set (pe_members p) - {a}" by auto
      show "a \<in> set (pe_members p)" by (rule p(4))
    qed simp
    moreover have "at_personas ?T = ?ps" by simp
    ultimately have rx: "{r \<in> set (at_personas ?T). x \<in> set (pe_members r)}
        = (if x \<in> set ?l then {?p} else if x = a then {} else {r \<in> set (at_personas S). x \<in> set (pe_members r)})"
      by (simp only:)
    consider "x = a" | "x \<noteq> a" "x \<in> set (pe_members p)" | "x \<noteq> a" "x \<notin> set (pe_members p)" by blast
    then show ?thesis
    proof cases
      case 1
      then have "{r \<in> set (at_personas ?T). x \<in> set (pe_members r)} = {}" unfolding rx by simp
      from block_of_rows [OF this] show ?thesis using 1 by (simp add: split_block_def)
    next
      case 2
      then have "{r \<in> set (at_personas ?T). x \<in> set (pe_members r)} = {?p}" unfolding rx by simp
      from block_of_rows [OF this] show ?thesis using 2 same_block [OF assms p(2) 2(2)] by (auto simp: split_block_def)
    next
      case 3
      then have "{r \<in> set (at_personas ?T). x \<in> set (pe_members r)} = {r \<in> set (at_personas S). x \<in> set (pe_members r)}"
        unfolding rx by simp
      from block_of_rows [OF this] have "persona_block ?T x = persona_block S x" by (simp only: persona_block_def)
      moreover have "a \<notin> persona_block S x"
        using 3 one_persona [OF assms _ p(2) _ p(4)] by (auto simp: persona_block_def)
      ultimately show ?thesis using 3 by (simp add: split_block_def)
    qed
  qed
  then have "persona_block ?T = split_block a (persona_block S)" by (rule ext)
  then show ?thesis using wf unfolding T by blast
qed

end
