(* ===== verification/Attribution.thy ===== *)
theory Attribution
  imports Personas
begin

text \<open>
  The services over linkages and personas: the Linker (\<open>linker/linker.py\<close> with its comparators and thresholds), the
  Verifier (\<open>verifier/service.py\<close>), the Graph (\<open>graph/graph.py\<close> over \<open>sqlmodel_repo/graph.py\<close>), the
  operator decisions of \<open>api/v1/linkages/_decide.py\<close> and \<open>api/v1/personas/_persona_write.py\<close> through
  \<open>api/v1/_writes.py\<close>. Spans and log lines are left out. A service reads its messages from the bus in any order.
\<close>

section \<open>Environment\<close>

text \<open>
  \<open>an_publish\<close> tells how a publish on a domain subject ends; \<open>an_round\<close> is \<open>round(_, 4)\<close>, \<open>an_repr\<close> the
  JSON text of a float, \<open>an_fmt3\<close> the format \<open>.3f\<close>.
\<close>

datatype publish_result = Pub_OK | Pub_OSERROR | Pub_OTHER

record attr_env =
  an_emit :: emit_env
  an_publish :: publish_result
  an_round :: "real \<Rightarrow> real"
  an_repr :: "real \<Rightarrow> string"
  an_fmt3 :: "real \<Rightarrow> string"

definition emit_attr ::
  "attr_env \<Rightarrow> uuid option \<Rightarrow> uuid \<Rightarrow> string \<Rightarrow> string \<Rightarrow> uuid option \<Rightarrow> (string \<times> jval) list \<Rightarrow> time \<Rightarrow> attr_store
   \<Rightarrow> (unit, attr_store) outcome" where
  "emit_attr M user audit_id event kind subject payload now S =
     (let E = an_emit M in
      if \<not> em_bus_ok E then (Inl (RuntimeError ''audit publish failed''), S)
      else (case append_audit (em_env E) (build_audit_row audit_id event user kind subject payload now (em_ctx E)) (at_audit S) of
              (Inl e, A) \<Rightarrow> (Inl e, S\<lparr>at_audit := A\<rparr>)
            | (Inr _, A) \<Rightarrow> (Inr (), S\<lparr>at_audit := A\<rparr>)))"

definition publish_attr :: "attr_env \<Rightarrow> attr_event \<Rightarrow> uuid option \<Rightarrow> attr_store \<Rightarrow> (unit, attr_store) outcome" where
  "publish_attr M ev event_id S =
     (case an_publish M of
        Pub_OK \<Rightarrow> (Inr (), S\<lparr>at_bus := at_bus S @ [(ev, event_id)]\<rparr>)
      | Pub_OSERROR \<Rightarrow> (Inl OSError, S)
      | Pub_OTHER \<Rightarrow> (Inl (RuntimeError ''bus publish failed''), S))"

section \<open>Comparators and thresholds\<close>

text \<open>A profile slot: its \<open>value\<close> as \<open>str\<close> renders it, its \<open>language\<close> when that is a string.\<close>

record slot =
  sv_value :: "string option"
  sv_language :: "string option"

record profile_env =
  pv_actor_id :: uuid
  pv_version :: int
  pv_role_signal :: "string option"
  pv_role_confidence :: real
  pv_stylometric :: "(string \<times> slot) list"
  pv_lexical :: "(string \<times> slot) list"
  pv_derived_at :: time

record comparator =
  cp_name :: string
  cp_lexical :: bool
  cp_slot :: string
  cp_language_slot :: string
  cp_primitive :: string

definition FunctionWordSimhashHamming :: comparator where
  "FunctionWordSimhashHamming = \<lparr>cp_name = ''function_word_simhash_hamming'', cp_lexical = False, cp_slot = ''function_word_simhash'',
     cp_language_slot = ''function_word_simhash'', cp_primitive = ''function_word_distribution_top50''\<rparr>"

definition CharNgramSimhashHamming :: comparator where
  "CharNgramSimhashHamming = \<lparr>cp_name = ''char_ngram_simhash_hamming'', cp_lexical = False, cp_slot = ''char_ngram_simhash'',
     cp_language_slot = ''function_word_simhash'', cp_primitive = ''character_ngram_simhash''\<rparr>"

definition PosNgramSimhashHamming :: comparator where
  "PosNgramSimhashHamming = \<lparr>cp_name = ''pos_ngram_simhash_hamming'', cp_lexical = False, cp_slot = ''pos_ngram_signature'',
     cp_language_slot = ''pos_ngram_signature'', cp_primitive = ''pos_ngram_signature''\<rparr>"

definition OptionalGrammarSimhashHamming :: comparator where
  "OptionalGrammarSimhashHamming = \<lparr>cp_name = ''optional_grammar_simhash_hamming'', cp_lexical = True,
     cp_slot = ''optional_grammar_signature'', cp_language_slot = ''optional_grammar_signature'', cp_primitive = ''optional_grammar_signature''\<rparr>"

definition REGISTRY :: "comparator list" where
  "REGISTRY = [FunctionWordSimhashHamming, CharNgramSimhashHamming, PosNgramSimhashHamming, OptionalGrammarSimhashHamming]"

definition profile_section :: "comparator \<Rightarrow> profile_env \<Rightarrow> (string \<times> slot) list" where
  "profile_section cp env = (if cp_lexical cp then pv_lexical env else pv_stylometric env)"

definition slot_value :: "comparator \<Rightarrow> profile_env \<Rightarrow> string option" where
  "slot_value cp env = Option.bind (map_of (profile_section cp env) (cp_slot cp)) sv_value"

definition slot_language :: "comparator \<Rightarrow> profile_env \<Rightarrow> string option" where
  "slot_language cp env = Option.bind (map_of (profile_section cp env) (cp_language_slot cp)) sv_language"

text \<open>The configured fields by name; a name without a field has the default of \<open>getattr\<close>.\<close>

record linker_thresholds =
  lt_default :: "(string \<times> nat) list"
  lt_per_lang :: "(string \<times> (string \<times> nat option) list) list"

definition LinkerThresholds :: linker_thresholds where
  "LinkerThresholds = \<lparr>lt_default = [(''function_word_simhash_hamming'', 8), (''char_ngram_simhash_hamming'', 10),
       (''pos_ngram_simhash_hamming'', 10), (''optional_grammar_simhash_hamming'', 12)],
     lt_per_lang = [(''function_word_simhash_hamming'', [(''es'', None)]), (''char_ngram_simhash_hamming'', [(''es'', None)]),
       (''pos_ngram_simhash_hamming'', [(''es'', None)]), (''optional_grammar_simhash_hamming'', [(''es'', None)])]\<rparr>"

definition for_comparator :: "linker_thresholds \<Rightarrow> string \<Rightarrow> string option \<Rightarrow> nat option" where
  "for_comparator T name language =
     (case Option.bind language (map_of (case map_of (lt_per_lang T) name of None \<Rightarrow> [] | Some d \<Rightarrow> d)) of
        Some v \<Rightarrow> v
      | None \<Rightarrow> Some (case map_of (lt_default T) name of None \<Rightarrow> 8 | Some n \<Rightarrow> n))"

record comparison =
  cmp_method :: string
  cmp_distance :: nat
  cmp_score :: real
  cmp_within :: bool
  cmp_evidence :: evidence

definition compare_simhash :: "(real \<Rightarrow> real) \<Rightarrow> string \<Rightarrow> string \<Rightarrow> string \<Rightarrow> nat \<Rightarrow> exn + comparison" where
  "compare_simhash rnd name value_a value_b threshold =
     (case hamming64 value_a value_b of
        Inl e \<Rightarrow> Inl e
      | Inr d \<Rightarrow>
          let score = (if threshold > 0 then max 0 (1 - real d / real threshold) else if d = 0 then 1 else 0)
          in Inr \<lparr>cmp_method = name, cmp_distance = d, cmp_score = rnd score, cmp_within = (d \<le> threshold),
                  cmp_evidence = [(''hex_a'', Ev_STR value_a), (''hex_b'', Ev_STR value_b), (''threshold'', Ev_INT (int threshold))]\<rparr>)"

section \<open>Linker\<close>

text \<open>\<open>from_pair\<close> with the validators of the envelope.\<close>

definition proposed_envelope ::
  "uuid \<Rightarrow> uuid \<Rightarrow> uuid \<Rightarrow> string \<Rightarrow> real \<Rightarrow> evidence \<Rightarrow> time \<Rightarrow> exn + attr_event" where
  "proposed_envelope i actor_a actor_b method score evidence now =
     (case sorted_pair actor_a actor_b of (a, b) \<Rightarrow>
        if \<not> a < b \<or> score < 0 \<or> 1 < score then Inl (ValueError ''LinkageProposedEnvelope'')
        else Inr (Ev_PROPOSED i a b method score evidence now))"

definition emit_proposal ::
  "attr_env \<Rightarrow> uuid \<Rightarrow> uuid \<Rightarrow> profile_env \<Rightarrow> uuid \<Rightarrow> string \<Rightarrow> comparison \<Rightarrow> string option \<Rightarrow> time \<Rightarrow> attr_store
   \<Rightarrow> (unit, attr_store) outcome" where
  "emit_proposal M linkage_id audit_id env other method result language now S =
     (let evidence = (case language of None \<Rightarrow> cmp_evidence result | Some l \<Rightarrow> dict_set ''language'' (Ev_STR l) (cmp_evidence result))
      in (case proposed_envelope linkage_id (pv_actor_id env) other method (cmp_score result) evidence now of
            Inl e \<Rightarrow> (Inl e, S)
          | Inr ev \<Rightarrow>
              and_then (insert_proposed_linkage linkage_id (pv_actor_id env) other method (cmp_score result) evidence now S) (\<lambda>_ S1.
              and_then (publish_attr M ev None S1) (\<lambda>_ S2.
                emit_attr M None audit_id ''linkage.proposed'' ''linkage'' (Some linkage_id)
                  [(''actor_a'', JUuid (pv_actor_id env)), (''actor_b'', JUuid other), (''method'', JStr method),
                   (''score'', JNum (an_repr M (cmp_score result))), (''distance'', JInt (int (cmp_distance result)))] now S2))))"

text \<open>The matches of one comparator, each with the fresh ids of its proposal.\<close>

fun propose_matches ::
  "attr_env \<Rightarrow> profile_env \<Rightarrow> comparator \<Rightarrow> string \<Rightarrow> nat \<Rightarrow> string option \<Rightarrow> time \<Rightarrow> (vector_match \<times> uuid \<times> uuid) list \<Rightarrow> attr_store
   \<Rightarrow> (unit, attr_store) outcome" where
  "propose_matches M env cp val threshold lang now [] S = (Inr (), S)"
| "propose_matches M env cp val threshold lang now ((m, linkage_id, audit_id) # ms) S =
     (case compare_simhash (an_round M) (cp_name cp) val (vm_simhash_hex m) threshold of
        Inl e \<Rightarrow> (Inl e, S)
      | Inr r \<Rightarrow>
          and_then (emit_proposal M linkage_id audit_id env (vm_actor_id m) (cp_name cp) r lang now S) (\<lambda>_ S1.
            propose_matches M env cp val threshold lang now ms S1))"

definition run_comparator ::
  "attr_env \<Rightarrow> linker_thresholds \<Rightarrow> (nat \<Rightarrow> uuid \<times> uuid) \<Rightarrow> profile_env \<Rightarrow> time \<Rightarrow> comparator \<Rightarrow> attr_store \<Rightarrow> (unit, attr_store) outcome" where
  "run_comparator M T fresh env now cp S =
     (case slot_value cp env of
        None \<Rightarrow> (Inr (), S)
      | Some val \<Rightarrow>
          (case for_comparator T (cp_name cp) (slot_language cp env) of
             None \<Rightarrow> (Inr (), S)
           | Some threshold \<Rightarrow>
               and_then (upsert_simhash (pv_actor_id env) (cp_primitive cp) val S) (\<lambda>_ S1.
                 (case nearest_simhashes (cp_primitive cp) val threshold 50 (Some (pv_actor_id env)) S1 of
                    Inl e \<Rightarrow> (Inl e, S1)
                  | Inr ms \<Rightarrow> propose_matches M env cp val threshold (slot_language cp env) now (zip ms (map fresh [0..<length ms])) S1))))"

text \<open>An error of one comparator is logged; the others still run.\<close>

definition process_profile ::
  "attr_env \<Rightarrow> linker_thresholds \<Rightarrow> (string \<Rightarrow> nat \<Rightarrow> uuid \<times> uuid) \<Rightarrow> profile_env \<Rightarrow> time \<Rightarrow> attr_store \<Rightarrow> attr_store" where
  "process_profile M T fresh env now S = fold (\<lambda>cp S. snd (run_comparator M T (fresh (cp_name cp)) env now cp S)) REGISTRY S"

section \<open>Shared infrastructure\<close>

record infra_edge =
  ie_actor_a :: uuid
  ie_actor_b :: uuid
  ie_score :: real
  ie_shared :: "string list"

definition DEFAULT_MAX_DF :: nat where "DEFAULT_MAX_DF = 15"
definition MIN_DF :: nat where "MIN_DF = 2"

definition idf :: "nat \<Rightarrow> nat \<Rightarrow> real" where
  "idf df n = ln (real (n + 1) / real (df + 1)) + 1"

text \<open>The mapping from actors to indicator sets, its keys in order.\<close>

type_synonym indicators = "(uuid \<times> string set) list"

definition doc_freq :: "indicators \<Rightarrow> string \<Rightarrow> nat" where
  "doc_freq ai v = length (filter (\<lambda>(a, inds). v \<in> inds) ai)"

definition linkable :: "nat \<Rightarrow> indicators \<Rightarrow> string set" where
  "linkable max_df ai = {v \<in> \<Union> (snd ` set ai). MIN_DF \<le> doc_freq ai v \<and> doc_freq ai v \<le> max_df}"

definition indicators_of :: "indicators \<Rightarrow> uuid \<Rightarrow> string set" where
  "indicators_of ai a = (case map_of ai a of None \<Rightarrow> {} | Some inds \<Rightarrow> inds)"

definition infra_score :: "(real \<Rightarrow> real) \<Rightarrow> nat \<Rightarrow> indicators \<Rightarrow> uuid \<Rightarrow> uuid \<Rightarrow> real" where
  "infra_score rnd max_df ai a b =
     (let L = linkable max_df ai; ia = indicators_of ai a \<inter> L; ib = indicators_of ai b \<inter> L;
          num = (\<Sum>v\<in>ia \<inter> ib. idf (doc_freq ai v) (length ai)); den = (\<Sum>v\<in>ia \<union> ib. idf (doc_freq ai v) (length ai))
      in if den > 0 then rnd (num / den) else 0)"

text \<open>
  The pairs that share a linkable indicator. \<open>candidates\<close> is a Python set; the model walks it in ascending
  order, which only matters among edges of equal score.
\<close>

definition candidate_pairs :: "nat \<Rightarrow> indicators \<Rightarrow> (uuid \<times> uuid) list" where
  "candidate_pairs max_df ai =
     (let ids = sort (map fst ai) in
      filter (\<lambda>(a, b). a < b \<and> indicators_of ai a \<inter> indicators_of ai b \<inter> linkable max_df ai \<noteq> {}) (List.product ids ids))"

definition propose_infra_edges :: "(real \<Rightarrow> real) \<Rightarrow> nat \<Rightarrow> real \<Rightarrow> indicators \<Rightarrow> infra_edge list" where
  "propose_infra_edges rnd max_df weight_floor ai =
     (if length ai < MIN_DF then []
      else order_desc ie_score (map (\<lambda>(a, b). \<lparr>ie_actor_a = a, ie_actor_b = b, ie_score = infra_score rnd max_df ai a b,
             ie_shared = sorted_list_of_set (indicators_of ai a \<inter> indicators_of ai b \<inter> linkable max_df ai)\<rparr>)
           (filter (\<lambda>(a, b). weight_floor \<le> infra_score rnd max_df ai a b) (candidate_pairs max_df ai))))"

text \<open>The loop that persists the edges; an error ends the run.\<close>

fun persist_edges :: "(infra_edge \<times> uuid) list \<Rightarrow> time \<Rightarrow> attr_store \<Rightarrow> (unit, attr_store) outcome" where
  "persist_edges [] now S = (Inr (), S)"
| "persist_edges ((e, i) # es) now S =
     and_then (insert_proposed_linkage i (ie_actor_a e) (ie_actor_b e) ''shared_infra'' (ie_score e)
        [(''shared'', Ev_LIST (ie_shared e)), (''shared_count'', Ev_INT (int (length (ie_shared e))))] now S)
       (\<lambda>_ S1. persist_edges es now S1)"

end
