(* ===== verification/Graph_Service.thy ===== *)
theory Graph_Service
  imports Attribution
begin

text \<open>
  The Verifier (\<open>verifier/service.py\<close>), the graph store (\<open>sqlmodel_repo/graph.py\<close>), the Graph service
  (\<open>graph/graph.py\<close>) and the operator writes that command it (\<open>api/v1/_writes.py\<close>,
  \<open>linkages/_decide.py\<close>, \<open>personas/_persona_write.py\<close>). A verifier is a value of the protocol
  \<open>verifiers/_base.py\<close>, passed to the service as in its constructor.
\<close>

section \<open>Verifier\<close>

record verifier =
  vf_name :: string
  vf_requires_language :: bool
  vf_verify :: "string list \<Rightarrow> string list \<Rightarrow> string option \<Rightarrow> exn + verification_result"

record verifier_thresholds =
  vt_default :: "(string \<times> real) list"
  vt_per_lang :: "(string \<times> (string \<times> real option) list) list"
  vt_composite_floor :: real
  vt_window_messages :: nat

definition VerifierThresholds :: verifier_thresholds where
  "VerifierThresholds = \<lparr>vt_default = [(''general_impostors'', 6 / 10), (''compression_distance'', 55 / 100)],
     vt_per_lang = [(''general_impostors'', []), (''compression_distance'', [])], vt_composite_floor = 6 / 10, vt_window_messages = 500\<rparr>"

definition for_verifier :: "verifier_thresholds \<Rightarrow> string \<Rightarrow> string option \<Rightarrow> real option" where
  "for_verifier T name language =
     (case Option.bind language (map_of (case map_of (vt_per_lang T) name of None \<Rightarrow> [] | Some d \<Rightarrow> d)) of
        Some v \<Rightarrow> v
      | None \<Rightarrow> Some (case map_of (vt_default T) name of None \<Rightarrow> 1 / 2 | Some x \<Rightarrow> x))"

definition recent_message_bodies_for_actor :: "uuid \<Rightarrow> nat \<Rightarrow> attr_store \<Rightarrow> string list" where
  "recent_message_bodies_for_actor actor limit S =
     (let rows = take limit (order_desc (\<lambda>m. (ms_sent_at m, ms_id m)) (filter (\<lambda>m. ms_actor_id m = actor) (at_messages S)))
      in filter (\<lambda>b. b \<noteq> []) (List.map_filter ms_body (rev rows)))"

definition extract_language :: "evidence \<Rightarrow> string option" where
  "extract_language ev = (case map_of ev ''language'' of Some (Ev_STR l) \<Rightarrow> Some l | _ \<Rightarrow> None)"

definition evaluated_payload :: "attr_env \<Rightarrow> string option \<Rightarrow> verification_result \<Rightarrow> (string \<times> jval) list" where
  "evaluated_payload M language r =
     [(''verifier'', JStr (vr_method r)), (''score'', JNum (an_repr M (vr_score r))), (''confidence'', JNum (an_repr M (vr_confidence r))),
      (''skipped'', JBool (vr_skipped r)), (''skip_reason'', jopt JStr (vr_skip_reason r)), (''language'', jopt JStr language)]"

text \<open>The verifiers with the fresh id of the audit row each may write.\<close>

fun run_verifiers ::
  "attr_env \<Rightarrow> verifier_thresholds \<Rightarrow> string option \<Rightarrow> uuid \<Rightarrow> string list \<Rightarrow> string list \<Rightarrow> time \<Rightarrow> (verifier \<times> uuid) list
   \<Rightarrow> attr_store \<Rightarrow> (verification_result list, attr_store) outcome" where
  "run_verifiers M T language i ca cb now [] S = (Inr [], S)"
| "run_verifiers M T language i ca cb now ((v, audit_id) # vs) S =
     (if for_verifier T (vf_name v) language = None \<or> (vf_requires_language v \<and> language = None)
      then run_verifiers M T language i ca cb now vs S
      else (case vf_verify v ca cb language of
              Inl _ \<Rightarrow> run_verifiers M T language i ca cb now vs S
            | Inr r \<Rightarrow>
                and_then (emit_attr M None audit_id ''verifier.evaluated'' ''linkage'' (Some i) (evaluated_payload M language r) now S) (\<lambda>_ S1.
                and_then (run_verifiers M T language i ca cb now vs S1) (\<lambda>rs S2. (Inr (r # rs), S2)))))"

text \<open>\<open>LinkageSuspectedEnvelope.from_pair\<close> and its siblings.\<close>

definition decided_envelope ::
  "linkage_state \<Rightarrow> uuid \<Rightarrow> uuid \<Rightarrow> uuid \<Rightarrow> string \<Rightarrow> time \<Rightarrow> string option \<Rightarrow> exn + attr_event" where
  "decided_envelope st i actor_a actor_b decided_by decided_at notes =
     (case sorted_pair actor_a actor_b of (a, b) \<Rightarrow>
        if \<not> a < b then Inl (ValueError ''requires actor_a_id < actor_b_id'')
        else Inr (Ev_DECIDED st i a b decided_by decided_at notes))"

definition promote_to_suspected ::
  "attr_env \<Rightarrow> uuid \<Rightarrow> uuid \<Rightarrow> uuid \<Rightarrow> real \<Rightarrow> verification_result list \<Rightarrow> uuid \<Rightarrow> time \<Rightarrow> attr_store \<Rightarrow> (unit, attr_store) outcome" where
  "promote_to_suspected M i a b composite scored audit_id now S =
     (let notes = Some (''composite='' @ an_fmt3 M composite) in
      case transition_linkage i Lnk_SUSPECTED ''verifier'' notes now S of
        (Inl (ValueError _), S1) \<Rightarrow> (Inr (), S1)
      | (Inl e, S1) \<Rightarrow> (Inl e, S1)
      | (Inr _, S1) \<Rightarrow>
          (case decided_envelope Lnk_SUSPECTED i a b ''verifier'' now notes of
             Inl e \<Rightarrow> (Inl e, S1)
           | Inr ev \<Rightarrow>
               and_then (publish_attr M ev None S1) (\<lambda>_ S2.
                 emit_attr M None audit_id ''linkage.suspected'' ''linkage'' (Some i)
                   [(''actor_a'', JUuid a), (''actor_b'', JUuid b), (''composite'', JNum (an_repr M composite)),
                    (''verifier_scores'', JObj (fold (\<lambda>r. dict_set (vr_method r) (JNum (an_repr M (vr_score r)))) scored [])),
                    (''promoted_by'', JStr ''verifier'')] now S2)))"

record verify_ids =
  vi_result :: uuid
  vi_promotion :: uuid
  vi_audits :: "uuid list"

definition evaluate_pair ::
  "attr_env \<Rightarrow> verifier_thresholds \<Rightarrow> verifier list \<Rightarrow> verify_ids \<Rightarrow> uuid \<Rightarrow> uuid \<Rightarrow> uuid \<Rightarrow> evidence \<Rightarrow> time \<Rightarrow> attr_store
   \<Rightarrow> (unit, attr_store) outcome" where
  "evaluate_pair M T verifiers ids i a b ev now S =
     (let language = extract_language ev;
          ca = recent_message_bodies_for_actor a (vt_window_messages T) S;
          cb = recent_message_bodies_for_actor b (vt_window_messages T) S
      in and_then (run_verifiers M T language i ca cb now (zip verifiers (vi_audits ids)) S) (\<lambda>results S1.
           let scored = filter (\<lambda>r. \<not> vr_skipped r \<and> vr_confidence r > 0) results in
           if scored = [] then (Inr (), S1)
           else
             let composite = sum_list (map vr_score scored) / real (length scored);
                 promoted = (vt_composite_floor T \<le> composite)
             in and_then (record_verifier_result (vi_result ids) i composite (vt_composite_floor T)
                   (if promoted then ''suspected'' else ''below_floor'') results now S1) (\<lambda>_ S2.
                  if \<not> promoted then (Inr (), S2) else promote_to_suspected M i a b composite scored (vi_promotion ids) now S2)))"

section \<open>Graph store\<close>

definition merge_attrs :: "attrs \<Rightarrow> attrs \<Rightarrow> attrs" where
  "merge_attrs old new = fold (\<lambda>(k, v). dict_set k v) new old"

definition upsert_graph_node :: "uuid \<Rightarrow> node_type \<Rightarrow> uuid \<Rightarrow> attrs \<Rightarrow> time \<Rightarrow> attr_store \<Rightarrow> attr_store" where
  "upsert_graph_node new_id t i attrs now S =
     (case find (\<lambda>n. nd_node_id n = i \<and> nd_type n = t) (at_nodes S) of
        None \<Rightarrow> S\<lparr>at_nodes := at_nodes S @ [\<lparr>nd_id = new_id, nd_node_id = i, nd_type = t, nd_attrs = attrs, nd_updated_at = now\<rparr>]\<rparr>
      | Some n \<Rightarrow> S\<lparr>at_nodes := tbl_save nd_id (n\<lparr>nd_attrs := merge_attrs (nd_attrs n) attrs, nd_updated_at := now\<rparr>) (at_nodes S)\<rparr>)"

definition edge_at :: "edge_type \<Rightarrow> uuid \<Rightarrow> uuid \<Rightarrow> edge_row \<Rightarrow> bool" where
  "edge_at t src dst e \<longleftrightarrow> ed_type e = t \<and> ed_src e = src \<and> ed_dst e = dst"

definition upsert_graph_edge :: "uuid \<Rightarrow> edge_type \<Rightarrow> uuid \<Rightarrow> uuid \<Rightarrow> attrs \<Rightarrow> time \<Rightarrow> attr_store \<Rightarrow> attr_store" where
  "upsert_graph_edge new_id t src dst attrs now S =
     (case find (edge_at t src dst) (at_edges S) of
        None \<Rightarrow> S\<lparr>at_edges := at_edges S @ [\<lparr>ed_id = new_id, ed_type = t, ed_src = src, ed_dst = dst, ed_attrs = attrs, ed_updated_at = now\<rparr>]\<rparr>
      | Some e \<Rightarrow> S\<lparr>at_edges := tbl_save ed_id (e\<lparr>ed_attrs := merge_attrs (ed_attrs e) attrs, ed_updated_at := now\<rparr>) (at_edges S)\<rparr>)"

definition delete_graph_edge :: "edge_type \<Rightarrow> uuid \<Rightarrow> uuid \<Rightarrow> attr_store \<Rightarrow> attr_store" where
  "delete_graph_edge t src dst S =
     (case find (edge_at t src dst) (at_edges S) of
        None \<Rightarrow> S | Some e \<Rightarrow> S\<lparr>at_edges := tbl_delete ed_id (ed_id e) (at_edges S)\<rparr>)"

definition graph_neighbors :: "uuid \<Rightarrow> edge_type option \<Rightarrow> attr_store \<Rightarrow> (uuid \<times> edge_type \<times> attrs) list" where
  "graph_neighbors i t S = map (\<lambda>e. (ed_dst e, ed_type e, ed_attrs e))
     (filter (\<lambda>e. ed_src e = i \<and> (case t of None \<Rightarrow> True | Some x \<Rightarrow> ed_type e = x)) (at_edges S))"

definition graph_neighbor_edges :: "uuid \<Rightarrow> nat \<Rightarrow> nat \<Rightarrow> attr_store \<Rightarrow> edge_row list" where
  "graph_neighbor_edges i limit offset S = page offset limit (order_asc ed_id (filter (\<lambda>e. ed_src e = i) (at_edges S)))"

definition count_graph_neighbors :: "uuid \<Rightarrow> attr_store \<Rightarrow> nat" where
  "count_graph_neighbors i S = length (filter (\<lambda>e. ed_src e = i) (at_edges S))"

definition graph_edges_by_type :: "edge_type \<Rightarrow> uuid option \<Rightarrow> uuid option \<Rightarrow> attr_store \<Rightarrow> (uuid \<times> uuid \<times> attrs) list" where
  "graph_edges_by_type t src dst S = map (\<lambda>e. (ed_src e, ed_dst e, ed_attrs e))
     (filter (\<lambda>e. ed_type e = t \<and> (case src of None \<Rightarrow> True | Some x \<Rightarrow> ed_src e = x)
        \<and> (case dst of None \<Rightarrow> True | Some x \<Rightarrow> ed_dst e = x)) (at_edges S))"

definition graph_stats :: "attr_store \<Rightarrow> nat \<times> nat \<times> nat \<times> nat" where
  "graph_stats S = (length (filter (\<lambda>n. nd_type n = Node_ACTOR) (at_nodes S)), length (filter (\<lambda>n. nd_type n = Node_PERSONA) (at_nodes S)),
     length (filter (\<lambda>e. ed_type e = Edge_LINKED_TO) (at_edges S)), length (filter (\<lambda>e. ed_type e = Edge_BELONGS_TO_PERSONA) (at_edges S)))"

section \<open>Graph service\<close>

text \<open>\<open>graph_ids\<close>: the fresh ids one message may need, in order of use.\<close>

record graph_ids =
  gi_node_a :: uuid
  gi_node_b :: uuid
  gi_edge :: uuid
  gi_persona :: uuid
  gi_persona_node :: uuid
  gi_member_edge :: "uuid \<Rightarrow> uuid"
  gi_audit :: uuid

definition on_profile_current :: "graph_ids \<Rightarrow> profile_env \<Rightarrow> time \<Rightarrow> attr_store \<Rightarrow> attr_store" where
  "on_profile_current ids env now S =
     upsert_graph_node (gi_node_a ids) Node_ACTOR (pv_actor_id env)
       [(''role_signal'', case pv_role_signal env of None \<Rightarrow> At_NONE | Some r \<Rightarrow> At_STR r), (''role_confidence'', At_REAL (pv_role_confidence env)),
        (''derived_at'', At_TIME (pv_derived_at env)), (''profile_version'', At_INT (pv_version env))] now S"

text \<open>The \<open>ValueError\<close> of an illegal transition is logged.\<close>

definition apply_linkage_state ::
  "uuid \<Rightarrow> linkage_state \<Rightarrow> string \<Rightarrow> string option \<Rightarrow> time \<Rightarrow> attr_store \<Rightarrow> attr_store" where
  "apply_linkage_state i target decided_by notes now S = snd (transition_linkage i target decided_by notes now S)"

definition handle_proposed :: "graph_ids \<Rightarrow> uuid \<Rightarrow> uuid \<Rightarrow> uuid \<Rightarrow> string \<Rightarrow> real \<Rightarrow> time \<Rightarrow> attr_store \<Rightarrow> attr_store" where
  "handle_proposed ids i a b method score now S =
     upsert_graph_edge (gi_edge ids) Edge_LINKED_TO a b
       [(''state'', At_STR ''proposed''), (''method'', At_STR method), (''score'', At_REAL score), (''linkage_id'', At_UUID i), (''updated_at'', At_TIME now)] now
       (upsert_graph_node (gi_node_b ids) Node_ACTOR b [] now (upsert_graph_node (gi_node_a ids) Node_ACTOR a [] now S))"

definition decided_edge :: "graph_ids \<Rightarrow> linkage_state \<Rightarrow> uuid \<Rightarrow> uuid \<Rightarrow> uuid \<Rightarrow> string \<Rightarrow> time \<Rightarrow> attr_store \<Rightarrow> attr_store" where
  "decided_edge ids st i a b decided_by now S =
     upsert_graph_edge (gi_edge ids) Edge_LINKED_TO a b
       [(''state'', At_STR (linkage_state_value st)), (''decided_by'', At_STR decided_by), (''linkage_id'', At_UUID i), (''updated_at'', At_TIME now)] now S"

definition handle_suspected :: "graph_ids \<Rightarrow> uuid \<Rightarrow> uuid \<Rightarrow> uuid \<Rightarrow> string \<Rightarrow> string option \<Rightarrow> time \<Rightarrow> attr_store \<Rightarrow> attr_store" where
  "handle_suspected ids i a b decided_by notes now S =
     decided_edge ids Lnk_SUSPECTED i a b decided_by now (apply_linkage_state i Lnk_SUSPECTED decided_by notes now S)"

definition handle_rejected :: "graph_ids \<Rightarrow> uuid \<Rightarrow> uuid \<Rightarrow> uuid \<Rightarrow> string \<Rightarrow> string option \<Rightarrow> time \<Rightarrow> attr_store \<Rightarrow> attr_store" where
  "handle_rejected ids i a b decided_by notes now S =
     decided_edge ids Lnk_REJECTED i a b decided_by now (apply_linkage_state i Lnk_REJECTED decided_by notes now S)"

text \<open>The persona node and the edges of its members.\<close>

definition sync_persona :: "graph_ids \<Rightarrow> uuid \<Rightarrow> uuid list \<Rightarrow> time \<Rightarrow> attr_store \<Rightarrow> attr_store" where
  "sync_persona ids p members now S =
     fold (\<lambda>x. upsert_graph_edge (gi_member_edge ids x) Edge_BELONGS_TO_PERSONA x p [(''joined_at'', At_TIME now)] now) members
       (upsert_graph_node (gi_persona_node ids) Node_PERSONA p [(''member_count'', At_INT (int (length members))), (''updated_at'', At_TIME now)] now S)"

definition handle_confirmed ::
  "attr_env \<Rightarrow> graph_ids \<Rightarrow> uuid \<Rightarrow> uuid \<Rightarrow> uuid \<Rightarrow> string \<Rightarrow> string option \<Rightarrow> time \<Rightarrow> attr_store \<Rightarrow> (unit, attr_store) outcome" where
  "handle_confirmed M ids i a b decided_by notes now S =
     (let S1 = decided_edge ids Lnk_CONFIRMED i a b decided_by now (apply_linkage_state i Lnk_CONFIRMED decided_by notes now S)
      in and_then (merge_actors_into_persona (gi_persona ids) a b (Some i) now S1) (\<lambda>p S2.
           let members = pe_members p; S3 = sync_persona ids (pe_id p) members now S2;
               kind = (if length members > 2 then Chg_MEMBERS_ADDED else Chg_CREATED)
           in and_then (publish_attr M (Ev_PERSONA_UPDATED (pe_id p) members kind (Some i) now) None S3) (\<lambda>_ S4.
                emit_attr M None (gi_audit ids) ''persona.merged'' ''persona'' (Some (pe_id p))
                  [(''member_actor_ids'', JList (map JUuid members)), (''via_linkage_id'', JUuid i)] now S4)))"

definition sync_and_emit_persona ::
  "attr_env \<Rightarrow> graph_ids \<Rightarrow> persona_row \<Rightarrow> persona_change \<Rightarrow> string \<Rightarrow> time \<Rightarrow> attr_store \<Rightarrow> (unit, attr_store) outcome" where
  "sync_and_emit_persona M ids p kind kind_value now S =
     and_then (publish_attr M (Ev_PERSONA_UPDATED (pe_id p) (pe_members p) kind None now) None (sync_persona ids (pe_id p) (pe_members p) now S)) (\<lambda>_ S1.
       emit_attr M None (gi_audit ids) (if kind = Chg_MERGED_WITH then ''persona.merged'' else ''persona.split'') ''persona'' (Some (pe_id p))
         [(''member_actor_ids'', JList (map JUuid (pe_members p))), (''change_kind'', JStr kind_value)] now S1)"

definition handle_persona_merge :: "attr_env \<Rightarrow> graph_ids \<Rightarrow> uuid \<Rightarrow> uuid \<Rightarrow> time \<Rightarrow> attr_store \<Rightarrow> (unit, attr_store) outcome" where
  "handle_persona_merge M ids p other now S =
     (case (persona_members p S, persona_members other S) of
        (x # _, y # _) \<Rightarrow>
          and_then (merge_actors_into_persona (gi_persona ids) x y None now S) (\<lambda>r S1.
            sync_and_emit_persona M ids r Chg_MERGED_WITH ''merged_with'' now S1)
      | _ \<Rightarrow> (Inr (), S))"

definition handle_persona_split :: "attr_env \<Rightarrow> graph_ids \<Rightarrow> uuid \<Rightarrow> time \<Rightarrow> attr_store \<Rightarrow> (unit, attr_store) outcome" where
  "handle_persona_split M ids actor now S =
     (case split_actor_from_persona actor now S of
        (None, S1) \<Rightarrow> (Inr (), S1)
      | (Some r, S1) \<Rightarrow> sync_and_emit_persona M ids r Chg_MEMBERS_REMOVED ''members_removed'' now S1)"

text \<open>One delivered message.\<close>

definition graph_deliver :: "attr_env \<Rightarrow> graph_ids \<Rightarrow> attr_event \<Rightarrow> time \<Rightarrow> attr_store \<Rightarrow> (unit, attr_store) outcome" where
  "graph_deliver M ids ev now S =
     (case ev of
        Ev_PROPOSED i a b method score _ _ \<Rightarrow> (Inr (), handle_proposed ids i a b method score now S)
      | Ev_DECIDED st i a b by _ notes \<Rightarrow>
          (case st of
             Lnk_SUSPECTED \<Rightarrow> (Inr (), handle_suspected ids i a b by notes now S)
           | Lnk_CONFIRMED \<Rightarrow> handle_confirmed M ids i a b by notes now S
           | Lnk_REJECTED \<Rightarrow> (Inr (), handle_rejected ids i a b by notes now S)
           | _ \<Rightarrow> (Inr (), S))
      | Ev_PERSONA_UPDATED p members _ _ _ \<Rightarrow> (Inr (), sync_persona ids p members now S)
      | Ev_PERSONA_MERGE p other _ \<Rightarrow> handle_persona_merge M ids p other now S
      | Ev_PERSONA_SPLIT p actor _ \<Rightarrow> handle_persona_split M ids actor now S)"

section \<open>Operator writes\<close>

record write_ids =
  wi_event :: uuid
  wi_audit :: uuid

record write_accepted =
  wa_subject :: string
  wa_event_id :: uuid
  wa_applied :: bool
  wa_poll :: string

text \<open>The durable sequence: audit row, event log, publish. A publish error of the network is logged.\<close>

definition operator_write ::
  "attr_env \<Rightarrow> write_ids \<Rightarrow> string \<Rightarrow> uuid option \<Rightarrow> uuid option \<Rightarrow> (string \<times> jval) list \<Rightarrow> string \<Rightarrow> string
   \<Rightarrow> (attr_store \<Rightarrow> attr_store) \<Rightarrow> (attr_store \<Rightarrow> (unit, attr_store) outcome) \<Rightarrow> time \<Rightarrow> attr_store \<Rightarrow> (write_accepted, attr_store) outcome" where
  "operator_write M ids kind i user payload subject poll persist send now S =
     (case emit_attr M user (wi_audit ids) ''eyenet.audit.operator_action'' kind i
         (payload @ [(''event_id'', JUuid (wi_event ids)), (''subject'', JStr subject)]) now S of
        (Inl (RuntimeError m), S1) \<Rightarrow> (Inl (RuntimeError m), S1)
      | (Inl _, S1) \<Rightarrow> (Inl (ServiceUnavailableError ''audit log unavailable; operator write refused''), S1)
      | (Inr _, S1) \<Rightarrow>
          (case send (persist S1) of
             (Inl e, S2) \<Rightarrow> if e = OSError then (Inr \<lparr>wa_subject = subject, wa_event_id = wi_event ids, wa_applied = False, wa_poll = poll\<rparr>, S2)
                           else (Inl e, S2)
           | (Inr _, S2) \<Rightarrow> (Inr \<lparr>wa_subject = subject, wa_event_id = wi_event ids, wa_applied = False, wa_poll = poll\<rparr>, S2)))"

record operator_ref =
  or_user_id :: uuid
  or_username :: string

definition decision_subject :: "linkage_state \<Rightarrow> string" where
  "decision_subject st = ''attribution.linkage.'' @ linkage_state_value st"

text \<open>\<open>linkages_confirm\<close>, \<open>linkages_reject\<close> and \<open>linkages_suspect\<close> are this with their state.\<close>

definition decide_linkage ::
  "attr_env \<Rightarrow> write_ids \<Rightarrow> operator_ref \<Rightarrow> uuid \<Rightarrow> string \<Rightarrow> string option \<Rightarrow> linkage_state \<Rightarrow> time \<Rightarrow> attr_store \<Rightarrow> (write_accepted, attr_store) outcome" where
  "decide_linkage M ids op i reason note st now S =
     (case get_linkage i S of
        None \<Rightarrow> (Inl (ResourceNotFound ''linkage''), S)
      | Some r \<Rightarrow>
          operator_write M ids ''linkage'' (Some i) (Some (or_user_id op))
            [(''decision'', JStr (linkage_state_value st)), (''reason'', JStr reason), (''note'', jopt JStr note),
             (''actor_a_id'', JUuid (lk_actor_a r)), (''actor_b_id'', JUuid (lk_actor_b r))]
            (decision_subject st) (''/v1/linkages/'' @ uuid_str i)
            (\<lambda>S1. S1\<lparr>at_linkage_events := append_event i (decision_subject st) (wi_event ids) (Some (uuid_str (or_user_id op))) now (at_linkage_events S1)\<rparr>)
            (\<lambda>S2. case decided_envelope st i (lk_actor_a r) (lk_actor_b r) (or_username op) now note of
                     Inl e \<Rightarrow> (Inl e, S2) | Inr ev \<Rightarrow> publish_attr M ev (Some (wi_event ids)) S2) now S)"

definition merge_personas ::
  "attr_env \<Rightarrow> write_ids \<Rightarrow> operator_ref \<Rightarrow> uuid \<Rightarrow> uuid \<Rightarrow> string \<Rightarrow> string list \<Rightarrow> time \<Rightarrow> attr_store \<Rightarrow> (write_accepted, attr_store) outcome" where
  "merge_personas M ids op p other reason case_refs now S =
     (if get_persona p S = None then (Inl (ResourceNotFound ''persona''), S)
      else if other = p \<or> get_persona other S = None
      then (Inl (UnprocessableError ''other_persona_id must be a distinct, existing persona''), S)
      else operator_write M ids ''persona'' (Some p) (Some (or_user_id op))
             [(''action'', JStr ''merge''), (''other_persona_id'', JUuid other), (''reason'', JStr reason), (''case_refs'', JList (map JStr case_refs))]
             ''attribution.persona.merge'' (''/v1/personas/'' @ uuid_str p)
             (\<lambda>S1. S1\<lparr>at_persona_events := append_event p ''attribution.persona.merge'' (wi_event ids) (Some (uuid_str (or_user_id op))) now (at_persona_events S1)\<rparr>)
             (\<lambda>S2. publish_attr M (Ev_PERSONA_MERGE p other (or_username op)) (Some (wi_event ids)) S2) now S)"

definition split_persona ::
  "attr_env \<Rightarrow> write_ids \<Rightarrow> operator_ref \<Rightarrow> uuid \<Rightarrow> uuid \<Rightarrow> string \<Rightarrow> string list \<Rightarrow> time \<Rightarrow> attr_store \<Rightarrow> (write_accepted, attr_store) outcome" where
  "split_persona M ids op p actor reason case_refs now S =
     (case get_persona p S of
        None \<Rightarrow> (Inl (ResourceNotFound ''persona''), S)
      | Some r \<Rightarrow>
          if actor \<notin> set (pe_members r) then (Inl (UnprocessableError ''actor_id is not a member of this persona''), S)
          else operator_write M ids ''persona'' (Some p) (Some (or_user_id op))
             [(''action'', JStr ''split''), (''actor_id'', JUuid actor), (''reason'', JStr reason), (''case_refs'', JList (map JStr case_refs))]
             ''attribution.persona.split'' (''/v1/personas/'' @ uuid_str p)
             (\<lambda>S1. S1\<lparr>at_persona_events := append_event p ''attribution.persona.split'' (wi_event ids) (Some (uuid_str (or_user_id op))) now (at_persona_events S1)\<rparr>)
             (\<lambda>S2. publish_attr M (Ev_PERSONA_SPLIT p actor (or_username op)) (Some (wi_event ids)) S2) now S)"

end
