(* ===== verification/Simhash.thy ===== *)
theory Simhash
  imports Graph_Service
begin

text \<open>
  The three renderings of a 64-bit simhash agree: the hexadecimal text of the profile, the signed column of the
  vector table and the distance computed on either side.
\<close>

section \<open>Hexadecimal digits\<close>

lemma hex_digit_range: "d < 16 \<Longrightarrow> d \<in> {0,1,2,3,4,5,6,7,8,9,10,11,12,13,14,15::nat}"
  unfolding insert_iff empty_iff by presburger

lemma lower_hex_digit_val: "d < 16 \<Longrightarrow> hex_digit_val (lower_hex_digit d) = Some d"
  by (drule hex_digit_range) (auto simp: lower_hex_digit_def hex_digit_val_def Let_def)

definition is_lower_hex :: "string \<Rightarrow> bool" where
  "is_lower_hex s \<longleftrightarrow> set s \<subseteq> lower_hex_digit ` {..<16}"

lemma is_lower_hex_simps [simp]:
  "is_lower_hex []" "is_lower_hex (c # cs) \<longleftrightarrow> c \<in> lower_hex_digit ` {..<16} \<and> is_lower_hex cs"
  "is_lower_hex (xs @ ys) \<longleftrightarrow> is_lower_hex xs \<and> is_lower_hex ys"
  by (auto simp: is_lower_hex_def)

lemma hex_of_lower: "is_lower_hex (hex_of n)"
  by (induction n rule: hex_of.induct) (subst hex_of.simps, auto)

lemma length_hex_of: "n < 16 ^ Suc k \<Longrightarrow> length (hex_of n) \<le> Suc k"
proof (induction k arbitrary: n)
  case 0
  then show ?case by (subst hex_of.simps) simp
next
  case (Suc k)
  have "n div 16 < 16 ^ Suc k" using Suc.prems by (simp add: less_mult_imp_div_less mult.commute)
  then show ?case using Suc.IH [of "n div 16"] by (subst hex_of.simps) simp
qed

text \<open>The value of a digit string.\<close>

lemma hex_val_append:
  "is_lower_hex xs \<Longrightarrow> hex_val acc ok (xs @ ys) =
     (if xs = [] then hex_val acc ok ys else hex_val (fold (\<lambda>c a. 16 * a + the (hex_digit_val c)) xs acc) True ys)"
proof (induction xs arbitrary: acc ok)
  case (Cons c cs)
  then obtain d where "d < 16" "c = lower_hex_digit d" by auto
  then show ?case using Cons by (simp add: lower_hex_digit_val)
qed simp

lemma fold_hex_of: "fold (\<lambda>c a. 16 * a + the (hex_digit_val c)) (hex_of n) 0 = n"
proof (induction n rule: hex_of.induct)
  case (1 n)
  show ?case
  proof (cases "n < 16")
    case True
    then show ?thesis by (subst hex_of.simps) (simp add: lower_hex_digit_val)
  next
    case False
    then show ?thesis using 1 by (subst hex_of.simps) (simp add: lower_hex_digit_val)
  qed
qed

lemma zero_digit: "CHR ''0'' = lower_hex_digit 0"
  by code_simp

lemma fold_zeros: "fold (\<lambda>c a. 16 * a + the (hex_digit_val c)) (replicate k CHR ''0'' @ xs) 0
    = fold (\<lambda>c a. 16 * a + the (hex_digit_val c)) xs 0"
proof (induction k)
  case (Suc k)
  then show ?case by (simp del: fold_replicate add: zero_digit lower_hex_digit_val)
qed simp

lemma hex_val_padded: "hex_val 0 False (replicate k CHR ''0'' @ hex_of n) = Some n"
proof -
  have lower: "is_lower_hex (replicate k CHR ''0'' @ hex_of n)"
    using hex_of_lower [of n] by (auto simp: is_lower_hex_def zero_digit)
  have ne: "replicate k CHR ''0'' @ hex_of n \<noteq> []" by (subst hex_of.simps) simp
  show ?thesis
    using hex_val_append [OF lower, of 0 False "[]"] ne unfolding fold_zeros fold_hex_of by simp
qed


text \<open>A string of lower-case digits is read as its digits.\<close>

lemma lower_hex_char:
  assumes "c \<in> lower_hex_digit ` {..<16}"
  shows "\<not> is_space c \<and> c \<noteq> CHR ''-'' \<and> c \<noteq> CHR ''+'' \<and> c \<noteq> CHR ''x'' \<and> c \<noteq> CHR ''X''"
proof -
  obtain d where "d < 16" and c: "c = lower_hex_digit d" using assms by auto
  then have code: "of_char c = (if d < 10 then 48 + d else 87 + d)" by (simp add: lower_hex_digit_def)
  have "48 \<le> (of_char c :: nat) \<and> (of_char c :: nat) < 58 \<or> 97 \<le> (of_char c :: nat) \<and> (of_char c :: nat) < 103"
    using code \<open>d < 16\<close> by (auto split: if_splits)
  then show ?thesis by (auto simp: is_space_def Let_def)
qed

lemma py_strip_no_space:
  assumes "\<forall>c\<in>set s. \<not> is_space c"
  shows "py_strip s = s"
proof -
  have drop: "dropWhile is_space xs = xs" if "\<forall>c\<in>set xs. \<not> is_space c" for xs using that by (cases xs) auto
  show ?thesis using assms by (simp add: py_strip_def drop)
qed

lemma py_int16_lower:
  assumes "is_lower_hex s" and "s \<noteq> []"
  shows "py_int16 s = map_option int (hex_val 0 False s)"
proof -
  have char: "\<not> is_space c \<and> c \<noteq> CHR ''-'' \<and> c \<noteq> CHR ''+'' \<and> c \<noteq> CHR ''x'' \<and> c \<noteq> CHR ''X''" if "c \<in> set s" for c
    using lower_hex_char that assms(1) unfolding is_lower_hex_def by blast
  obtain c cs where s: "s = c # cs" using assms(2) by (cases s) auto
  have "take 2 s \<noteq> ''0x'' \<and> take 2 s \<noteq> ''0X''" using char by (cases cs) (auto simp: s)
  then have "hex_magnitude s = hex_val 0 False s" by (simp only: hex_magnitude_def simp_thms if_False)
  moreover have "py_strip s = s" using char by (intro py_strip_no_space ballI) blast
  moreover have "c \<noteq> CHR ''-''" "c \<noteq> CHR ''+''" using char [of c] by (simp_all add: s)
  ultimately show ?thesis by (simp add: py_int16_def s)
qed


section \<open>Signed columns\<close>

definition signed64 :: "int \<Rightarrow> bool" where
  "signed64 n \<longleftrightarrow> - (2 ^ 63) \<le> n \<and> n < 2 ^ 63"

lemma sqlite_int_signed64: "sqlite_int n = (if signed64 n then Inr n else Inl OverflowError)"
  by (simp add: sqlite_int_def signed64_def)

lemma unsigned_signed64:
  assumes "signed64 n"
  shows "(if n < 0 then n + 2 ^ 64 else n) = take_bit 64 n"
proof (cases "n < 0")
  case True
  have "take_bit 64 n = (n + 2 ^ 64) mod 2 ^ 64" by (simp add: take_bit_eq_mod)
  also have "\<dots> = n + 2 ^ 64" using assms True by (intro mod_pos_pos_trivial) (simp_all add: signed64_def)
  finally show ?thesis using True by simp
next
  case False
  then have "take_bit 64 n = n" using assms unfolding take_bit_eq_mod by (intro mod_pos_pos_trivial) (simp_all add: signed64_def)
  then show ?thesis using False by simp
qed

lemma hex_of_digits:
  assumes "signed64 n"
  shows "int_to_hex n = replicate (16 - length (hex_of (nat (take_bit 64 n)))) CHR ''0'' @ hex_of (nat (take_bit 64 n))"
    "length (int_to_hex n) = 16" "is_lower_hex (int_to_hex n)"
proof -
  have b: "take_bit 64 n < 2 ^ 64" by (rule take_bit_int_less_exp)
  have "nat (take_bit 64 n) < 16 ^ Suc 15" using b by (simp add: nat_less_iff)
  then have l: "length (hex_of (nat (take_bit 64 n))) \<le> 16" using length_hex_of by fastforce
  show eq: "int_to_hex n = replicate (16 - length (hex_of (nat (take_bit 64 n)))) CHR ''0'' @ hex_of (nat (take_bit 64 n))"
    unfolding int_to_hex_def unsigned_signed64 [OF assms] Let_def ..
  show "length (int_to_hex n) = 16" using l by (simp add: eq)
  show "is_lower_hex (int_to_hex n)" unfolding eq using hex_of_lower by (auto simp: is_lower_hex_def zero_digit)
qed

lemma py_int16_int_to_hex:
  assumes "signed64 n"
  shows "py_int16 (int_to_hex n) = Some (take_bit 64 n)"
proof -
  have "int_to_hex n \<noteq> []" using hex_of_digits(2) [OF assms] by auto
  from py_int16_lower [OF hex_of_digits(3) [OF assms] this] have "py_int16 (int_to_hex n) = map_option int (hex_val 0 False (int_to_hex n))" .
  also have "hex_val 0 False (int_to_hex n) = Some (nat (take_bit 64 n))" unfolding hex_of_digits(1) [OF assms] by (rule hex_val_padded)
  finally show ?thesis by simp
qed

lemma hex_to_int_int_to_hex:
  assumes "signed64 n"
  shows "hex_to_int (int_to_hex n) = Inr n"
  using assms unfolding hex_to_int_def py_int16_int_to_hex [OF assms] option.case unsigned_signed64 [OF assms, symmetric]
  by (auto simp: signed64_def)

lemma hex_to_int_signed:
  assumes "hex_to_int h = Inr u"
  obtains x where "py_int16 h = Some x" "u = (if x \<ge> 2 ^ 63 then x - 2 ^ 64 else x)" "take_bit 64 u = take_bit 64 x"
proof -
  obtain x where x: "py_int16 h = Some x" using assms by (auto simp: hex_to_int_def split: option.splits)
  moreover have u: "u = (if x \<ge> 2 ^ 63 then x - 2 ^ 64 else x)" using assms x by (simp add: hex_to_int_def)
  moreover have "take_bit 64 (x - 2 ^ 64) = take_bit 64 x" by (simp add: take_bit_eq_mod)
  ultimately show thesis using that by simp
qed

text \<open>For texts of 64-bit numbers the comparator and the SQL function compute the same distance.\<close>

lemma distances_agree:
  assumes "length h = 16" and "py_int16 h = Some x" and "0 \<le> x" and "x < 2 ^ 64" and "hex_to_int h = Inr q" and "signed64 n"
  shows "hamming64 h (int_to_hex n) = Inr (sql_hamming64 q n)"
proof -
  obtain y where "py_int16 h = Some y" "take_bit 64 q = take_bit 64 y" by (rule hex_to_int_signed [OF assms(5)])
  moreover have "take_bit 64 x = x" using assms(3,4) by (simp add: take_bit_int_eq_self)
  ultimately have q: "take_bit 64 q = x" using assms(2) by simp
  have "(q XOR n) AND mask 64 = take_bit 64 q XOR take_bit 64 n" by (simp add: take_bit_eq_mask [symmetric])
  moreover have "\<bar>x XOR take_bit 64 n\<bar> = x XOR take_bit 64 n" using assms(3) by simp
  ultimately show ?thesis
    using assms(1,2) hex_of_digits(2) [OF assms(6)] py_int16_int_to_hex [OF assms(6)] by (simp add: hamming64_def sql_hamming64_def q)
qed

section \<open>The search\<close>

definition near :: "string \<Rightarrow> int \<Rightarrow> nat \<Rightarrow> uuid option \<Rightarrow> vector_row \<Rightarrow> bool" where
  "near primitive q d exclude r \<longleftrightarrow> vs_primitive r = primitive \<and> Some (vs_actor_id r) \<noteq> exclude \<and> sql_hamming64 q (vs_simhash r) \<le> d"

definition match_of :: "int \<Rightarrow> vector_row \<Rightarrow> vector_match" where
  "match_of q r = \<lparr>vm_actor_id = vs_actor_id r, vm_distance = sql_hamming64 q (vs_simhash r), vm_simhash_hex = int_to_hex (vs_simhash r)\<rparr>"

lemma nearest_simhashes_rows:
  assumes "hex_to_int h = Inr q" and "signed64 q"
  shows "nearest_simhashes primitive h d limit exclude S =
    Inr (map (match_of q) (take limit (order_asc (\<lambda>r. sql_hamming64 q (vs_simhash r)) (filter (near primitive q d exclude) (at_vectors S)))))"
  by (simp add: nearest_simhashes_def assms sqlite_int_signed64 match_of_def near_def [abs_def] cong: conj_cong)

lemma upsert_simhash_vectors:
  assumes "upsert_simhash a primitive h S = (Inr (), T)" and "\<forall>v\<in>set (at_vectors S). signed64 (vs_simhash v)"
  shows "\<forall>v\<in>set (at_vectors T). signed64 (vs_simhash v)" "\<exists>q. hex_to_int h = Inr q \<and> signed64 q"
proof -
  obtain q where q: "hex_to_int h = Inr q" "signed64 q"
    using assms(1) by (auto simp: upsert_simhash_def sqlite_int_signed64 split: sum.splits if_splits)
  then show "\<exists>q. hex_to_int h = Inr q \<and> signed64 q" by blast
  show "\<forall>v\<in>set (at_vectors T). signed64 (vs_simhash v)"
    using assms q by (auto simp: upsert_simhash_def sqlite_int_signed64 Let_def dest!: set_tbl_save_sub split: if_splits)
qed

lemma upsert_simhash_typed:
  "\<forall>v\<in>set (at_vectors S). signed64 (vs_simhash v) \<Longrightarrow> \<forall>v\<in>set (at_vectors (snd (upsert_simhash a primitive h S))). signed64 (vs_simhash v)"
  by (auto simp: upsert_simhash_def sqlite_int_signed64 Let_def dest!: set_tbl_save_sub split: sum.splits)

end
