(* ===== verification/Linkage_Steps.thy ===== *)
theory Linkage_Steps
  imports Simhash
begin

text \<open>
  How the linkage table may change: rows are proposed, re-scored while proposed, and decided along the legal
  transitions. Every operation of the attribution services is a sequence of these steps, so what they preserve holds
  in every reachable store.
\<close>

section \<open>Steps of the table\<close>

definition lk_key :: "linkage_row \<Rightarrow> uuid \<times> uuid \<times> string" where
  "lk_key r = (lk_actor_a r, lk_actor_b r, lk_method r)"

inductive lk_step :: "linkage_row list \<Rightarrow> linkage_row list \<Rightarrow> bool" where
  propose: "lk_actor_a r < lk_actor_b r \<Longrightarrow> \<not> tbl_has lk_id (lk_id r) L \<Longrightarrow> \<not> tbl_has lk_key (lk_key r) L \<Longrightarrow>
    lk_state r = Lnk_PROPOSED \<Longrightarrow> lk_decided_at r = None \<Longrightarrow> lk_decided_by r = None \<Longrightarrow> lk_step L (L @ [r])"
| rescore: "r \<in> set L \<Longrightarrow> lk_state r = Lnk_PROPOSED \<Longrightarrow> lk_score r \<le> s \<Longrightarrow>
    lk_step L (tbl_save lk_id (r\<lparr>lk_score := s, lk_evidence := e\<rparr>) L)"
| decide: "r \<in> set L \<Longrightarrow> t \<in> LEGAL_TRANSITIONS (lk_state r) \<Longrightarrow>
    lk_step L (tbl_save lk_id (r\<lparr>lk_state := t, lk_decided_at := Some now, lk_decided_by := Some by_whom, lk_notes := nt\<rparr>) L)"

abbreviation lk_steps :: "linkage_row list \<Rightarrow> linkage_row list \<Rightarrow> bool" where
  "lk_steps \<equiv> lk_step\<^sup>*\<^sup>*"

definition lk_row_ok :: "linkage_row \<Rightarrow> bool" where
  "lk_row_ok r \<longleftrightarrow> lk_actor_a r < lk_actor_b r \<and> (lk_state r = Lnk_PROPOSED \<longleftrightarrow> lk_decided_at r = None)
     \<and> (lk_state r = Lnk_PROPOSED \<longleftrightarrow> lk_decided_by r = None)"

definition lk_wf :: "linkage_row list \<Rightarrow> bool" where
  "lk_wf L \<longleftrightarrow> keyed lk_id L \<and> keyed lk_key L \<and> (\<forall>r\<in>set L. lk_row_ok r)"

lemma saved_key:
  assumes "keyed lk_id L" and "r \<in> set L" and "lk_id r' = lk_id r" and "lk_key r' = lk_key r"
  shows "map lk_key (tbl_save lk_id r' L) = map lk_key L"
proof -
  have "lk_key (if lk_id x = lk_id r' then r' else x) = lk_key x" if "x \<in> set L" for x
    using assms that keyed_eq [OF assms(1) that assms(2)] by auto
  then show ?thesis by (simp add: tbl_save_def comp_def)
qed

lemma lk_wf_save:
  assumes "lk_wf L" and "r \<in> set L" and "lk_id r' = lk_id r" and "lk_key r' = lk_key r" and "lk_row_ok r'"
  shows "lk_wf (tbl_save lk_id r' L)"
  using assms saved_key [of L r r'] by (auto simp: lk_wf_def keyed_def dest: set_tbl_save_sub)

lemma not_proposed: "t \<in> LEGAL_TRANSITIONS s \<Longrightarrow> t \<noteq> Lnk_PROPOSED"
  by (cases s) auto

lemma lk_step_wf: "lk_step L L' \<Longrightarrow> lk_wf L \<Longrightarrow> lk_wf L'"
proof (induction rule: lk_step.induct)
  case (propose r L)
  then show ?case by (auto simp: lk_wf_def lk_row_ok_def)
next
  case (rescore r L s e)
  then have "lk_row_ok r" by (simp add: lk_wf_def)
  then show ?case using rescore by (intro lk_wf_save [of L r]) (auto simp: lk_key_def lk_row_ok_def)
next
  case (decide r L t now by_whom nt)
  then have "lk_row_ok r" by (simp add: lk_wf_def)
  then show ?case using decide not_proposed by (intro lk_wf_save [of L r]) (auto simp: lk_key_def lk_row_ok_def)
qed

lemma lk_steps_wf: "lk_steps L L' \<Longrightarrow> lk_wf L \<Longrightarrow> lk_wf L'"
  by (induction rule: rtranclp_induct) (auto intro: lk_step_wf)

text \<open>A row keeps its identity, pair and method; its state moves along the transitions; a final row stays.\<close>

definition lk_path :: "linkage_state \<Rightarrow> linkage_state \<Rightarrow> bool" where
  "lk_path = (\<lambda>s t. t \<in> LEGAL_TRANSITIONS s)\<^sup>*\<^sup>*"

definition lk_moves :: "linkage_row \<Rightarrow> linkage_row \<Rightarrow> bool" where
  "lk_moves r r' \<longleftrightarrow> lk_id r' = lk_id r \<and> lk_key r' = lk_key r \<and> lk_path (lk_state r) (lk_state r')
     \<and> (lk_state r \<noteq> Lnk_PROPOSED \<longrightarrow> lk_score r' = lk_score r \<and> lk_evidence r' = lk_evidence r) \<and> lk_score r \<le> lk_score r'
     \<and> (LEGAL_TRANSITIONS (lk_state r) = {} \<longrightarrow> r' = r)"

lemma lk_path_refl [simp]: "lk_path s s"
  by (simp add: lk_path_def)

lemma lk_path_step: "t \<in> LEGAL_TRANSITIONS s \<Longrightarrow> lk_path s t"
  unfolding lk_path_def by (rule r_into_rtranclp)

lemma lk_path_trans: "lk_path s t \<Longrightarrow> lk_path t u \<Longrightarrow> lk_path s u"
  unfolding lk_path_def by (rule rtranclp_trans)

lemma lk_path_from_proposed: "lk_path s Lnk_PROPOSED \<Longrightarrow> s = Lnk_PROPOSED"
  unfolding lk_path_def using not_proposed by (auto elim: rtranclp.cases)

lemma lk_moves_refl [simp]: "lk_moves r r"
  by (simp add: lk_moves_def)

lemma lk_moves_trans:
  assumes "lk_moves r s" and "lk_moves s t"
  shows "lk_moves r t"
proof -
  have "lk_state r \<noteq> Lnk_PROPOSED \<Longrightarrow> lk_state s \<noteq> Lnk_PROPOSED"
    using assms(1) lk_path_from_proposed unfolding lk_moves_def by metis
  then show ?thesis using assms lk_path_trans [of "lk_state r" "lk_state s" "lk_state t"] by (auto simp: lk_moves_def)
qed

lemma moved_save:
  assumes "keyed lk_id L" and "x \<in> set L" and "lk_moves x x'" and "r \<in> set L"
  shows "\<exists>r'\<in>set (tbl_save lk_id x' L). lk_moves r r'"
proof (cases "lk_id r = lk_id x")
  case True
  have "r = x" by (rule keyed_eq [OF assms(1,4,2) True])
  moreover have "x' \<in> set (tbl_save lk_id x' L)" using assms(2,3) by (auto simp: set_tbl_save tbl_has_def lk_moves_def)
  ultimately show ?thesis using assms(3) by blast
next
  case False
  then have "r \<in> set (tbl_save lk_id x' L)" using assms(3,4) by (simp add: set_tbl_save lk_moves_def)
  then show ?thesis using lk_moves_refl by blast
qed

lemma lk_step_moves: "lk_step L L' \<Longrightarrow> lk_wf L \<Longrightarrow> r \<in> set L \<Longrightarrow> \<exists>r'\<in>set L'. lk_moves r r'"
proof (induction rule: lk_step.induct)
  case (propose x L)
  then have "r \<in> set (L @ [x])" by simp
  then show ?case using lk_moves_refl by blast
next
  case (rescore x L s e)
  then show ?case by (intro moved_save [of L x]) (auto simp: lk_wf_def lk_moves_def lk_key_def)
next
  case (decide x L t now by_whom nt)
  then show ?case by (intro moved_save [of L x]) (auto simp: lk_wf_def lk_moves_def lk_key_def lk_path_step)
qed

lemma lk_steps_moves:
  assumes "lk_steps L L'" and "lk_wf L" and "r \<in> set L"
  shows "\<exists>r'\<in>set L'. lk_moves r r'"
  using assms
proof (induction rule: rtranclp_induct)
  case base
  then show ?case using lk_moves_refl by blast
next
  case (step L1 L2)
  then obtain r1 where "r1 \<in> set L1" "lk_moves r r1" by blast
  moreover have "lk_wf L1" using step lk_steps_wf by blast
  ultimately show ?case using lk_step_moves [OF step(2)] lk_moves_trans by blast
qed

section \<open>The storage operations are steps\<close>

lemma find_proposed:
  assumes "find (\<lambda>r. lk_actor_a r = a \<and> lk_actor_b r = b \<and> lk_method r = m \<and> lk_state r = Lnk_PROPOSED) L = Some r"
  shows "r \<in> set L \<and> lk_key r = (a, b, m) \<and> lk_state r = Lnk_PROPOSED"
  using find_SomeD [OF assms] by (simp add: lk_key_def)

lemma insert_linkage_step:
  assumes "lk_state r = Lnk_PROPOSED" and "lk_decided_at r = None" and "lk_decided_by r = None"
  shows "lk_steps (at_linkages S) (at_linkages (snd (insert_linkage r S)))"
  using assms lk_step.propose [of r "at_linkages S"]
  by (auto simp: insert_linkage_def lk_key_def [abs_def])

lemma insert_proposed_step:
  "lk_steps (at_linkages S) (at_linkages (snd (insert_proposed_linkage i x y m s e now S)))"
proof (cases "find (\<lambda>r. lk_actor_a r = fst (sorted_pair x y) \<and> lk_actor_b r = snd (sorted_pair x y) \<and> lk_method r = m \<and> lk_state r = Lnk_PROPOSED) (at_linkages S)")
  case None
  then show ?thesis
    by (cases "sorted_pair x y") (auto simp: insert_proposed_linkage_def intro!: insert_linkage_step)
next
  case (Some r)
  have "lk_step (at_linkages S) (tbl_save lk_id (r\<lparr>lk_score := max (lk_score r) s, lk_evidence := e\<rparr>) (at_linkages S))"
    using find_proposed [OF Some] by (intro lk_step.rescore) auto
  then show ?thesis using Some
    by (cases "sorted_pair x y") (simp add: insert_proposed_linkage_def Let_def r_into_rtranclp)
qed

lemma transition_step:
  "lk_steps (at_linkages S) (at_linkages (snd (transition_linkage i t d n now S)))"
proof (cases "tbl_get lk_id i (at_linkages S)")
  case None
  then show ?thesis by (simp add: transition_linkage_def)
next
  case (Some r)
  then have "r \<in> set (at_linkages S)" using tbl_get_SomeD by fastforce
  then show ?thesis using Some lk_step.decide [where r = r and L = "at_linkages S" and t = t and now = now and by_whom = d and nt = n]
    by (auto simp: transition_linkage_def Let_def intro: r_into_rtranclp)
qed

end
