(* ===== verification/Attr_Service.thy ===== *)
theory Attr_Service
  imports Linkage_Steps
begin

text \<open>
  What the linker, the verifier, the graph service and the operator routes rely on is the storage interface alone.
  The locale states it for a relation between stores: the relation is a preorder that every storage primitive obeys.
  Its lemmas carry the relation through every handler, error paths included.
\<close>

text \<open>What the envelope validators promise of a message.\<close>

definition event_ok :: "attr_event \<Rightarrow> bool" where
  "event_ok ev = (case ev of
      Ev_PROPOSED i a b m s e t \<Rightarrow> a < b \<and> 0 \<le> s \<and> s \<le> 1
    | Ev_DECIDED st i a b d t n \<Rightarrow> a < b
    | Ev_PERSONA_MERGE p q d \<Rightarrow> p \<noteq> q
    | _ \<Rightarrow> True)"

lemma event_ok_simps [simp]:
  "event_ok (Ev_PROPOSED i a b m s e t) \<longleftrightarrow> a < b \<and> 0 \<le> s \<and> s \<le> 1"
  "event_ok (Ev_DECIDED st i a b d t n) \<longleftrightarrow> a < b"
  "event_ok (Ev_PERSONA_MERGE p q d) \<longleftrightarrow> p \<noteq> q"
  "event_ok (Ev_PERSONA_UPDATED p ms k v t)" "event_ok (Ev_PERSONA_SPLIT p a d)"
  by (simp_all add: event_ok_def)

lemma proposed_envelope_ok: "proposed_envelope i x y m s e now = Inr ev \<Longrightarrow> event_ok ev \<and> 0 \<le> s \<and> s \<le> 1 \<and> x \<noteq> y"
  by (auto simp: proposed_envelope_def sorted_pair_def split: if_splits prod.splits)

lemma decided_envelope_ok: "decided_envelope st i x y d now n = Inr ev \<Longrightarrow> event_ok ev"
  by (auto simp: decided_envelope_def sorted_pair_def split: if_splits prod.splits)

text \<open>The fields a primitive leaves alone.\<close>

lemma personas_frame [simp]:
  "at_personas (snd (transition_linkage i t d n now S)) = at_personas S"
  "at_personas (upsert_graph_node j nt x at' now S) = at_personas S"
  "at_personas (upsert_graph_edge j et x y at' now S) = at_personas S"
  "at_members (snd (transition_linkage i t d n now S)) = at_members S"
  "at_members (upsert_graph_node j nt x at' now S) = at_members S"
  "at_members (upsert_graph_edge j et x y at' now S) = at_members S"
  by (simp_all add: transition_linkage_def upsert_graph_node_def upsert_graph_edge_def Let_def split: option.split)

lemma members_of_two_personas:
  assumes "persona_wf S" and "p \<noteq> q" and "x \<in> set (persona_members p S)" and "y \<in> set (persona_members q S)"
  shows "x \<noteq> y"
  using assms keyed_eq [of pm_actor_id "at_members S"] by (auto simp: persona_wf_def persona_members_def)

text \<open>A score of the infrastructure linker is a weighted overlap, so it lies in the unit interval.\<close>

lemma idf_pos: "df \<le> n \<Longrightarrow> idf df n > 0"
proof -
  assume "df \<le> n"
  then have "1 \<le> real (n + 1) / real (df + 1)" by simp
  then have "0 \<le> ln (real (n + 1) / real (df + 1))" by (rule ln_ge_zero)
  then show ?thesis unfolding idf_def by linarith
qed

lemma infra_score_unit:
  assumes "\<And>x. 0 \<le> x \<Longrightarrow> x \<le> 1 \<Longrightarrow> 0 \<le> rnd x \<and> rnd x \<le> 1" and "finite (\<Union> (snd ` set ai))"
  shows "0 \<le> infra_score rnd m ai a b \<and> infra_score rnd m ai a b \<le> 1"
proof -
  let ?L = "linkable m ai"
  let ?A = "indicators_of ai a \<inter> ?L" and ?B = "indicators_of ai b \<inter> ?L"
  let ?w = "\<lambda>v. idf (doc_freq ai v) (length ai)"
  have fin: "finite (?A \<union> ?B)" using assms(2) by (rule rev_finite_subset) (auto simp: linkable_def)
  have pos: "0 \<le> ?w v" for v using idf_pos [of "doc_freq ai v" "length ai"] by (simp add: doc_freq_def)
  have "sum ?w (?A \<inter> ?B) \<le> sum ?w (?A \<union> ?B)" using fin pos by (intro sum_mono2) auto
  moreover have "0 \<le> sum ?w (?A \<inter> ?B)" using pos by (intro sum_nonneg) auto
  ultimately show ?thesis
    using assms(1) [of "sum ?w (?A \<inter> ?B) / sum ?w (?A \<union> ?B)"] by (auto simp: infra_score_def Let_def)
qed

lemma proposed_edges_unit:
  assumes "\<And>x. 0 \<le> x \<Longrightarrow> x \<le> 1 \<Longrightarrow> 0 \<le> rnd x \<and> rnd x \<le> 1" and "finite (\<Union> (snd ` set ai))"
    and "e \<in> set (propose_infra_edges rnd m fl ai)"
  shows "0 \<le> ie_score e \<and> ie_score e \<le> 1"
  using assms(3) infra_score_unit [of rnd ai, OF assms(1,2)] by (auto simp: propose_infra_edges_def split: if_splits)

locale attr_service =
  fixes R :: "attr_store \<Rightarrow> attr_store \<Rightarrow> bool"
  assumes same: "R S S"
    and join: "R S T \<Longrightarrow> R T U \<Longrightarrow> R S U"
    and vector: "R S (snd (upsert_simhash a prim h S))"
    and propose: "0 \<le> s \<Longrightarrow> s \<le> 1 \<Longrightarrow> R S (snd (insert_proposed_linkage i a b m s e now S))"
    and transition: "R S (snd (transition_linkage i t d n now S))"
    and settle: "st = (if fl \<le> c then ''suspected'' else ''below_floor'') \<Longrightarrow> R S (snd (record_verifier_result i j c fl st rs now S))"
    and send: "event_ok ev \<Longrightarrow> R S (snd (publish_attr M ev eid S))"
    and audit: "R S (snd (emit_attr M u i k sk si p now S))"
    and node: "R S (upsert_graph_node i nt x at' now S)"
    and edge: "R S (upsert_graph_edge i et x y at' now S)"
    and merge: "\<not> tbl_has pe_id np (at_personas S) \<Longrightarrow> (persona_wf S \<Longrightarrow> a \<noteq> b) \<Longrightarrow> R S (snd (merge_actors_into_persona np a b via now S))"
    and split_off: "R S (snd (split_actor_from_persona a now S))"
    and linkage_log: "R S (S\<lparr>at_linkage_events := append_event prn sub ei who now (at_linkage_events S)\<rparr>)"
    and persona_log: "R S (S\<lparr>at_persona_events := append_event prn sub ei who now (at_persona_events S)\<rparr>)"
    and message: "R S (S\<lparr>at_messages := ms\<rparr>)"
    and feedback: "R S (snd (record_feedback_pair f i a b tr d now n S))"
begin

lemma then_R:
  assumes "R S (snd m)" and "\<And>x T. m = (Inr x, T) \<Longrightarrow> R T (snd (f x T))"
  shows "R S (snd (and_then m f))"
proof (cases m)
  case (Pair r T)
  show ?thesis
  proof (cases r)
    case (Inl e)
    then show ?thesis using assms(1) Pair by (simp add: and_then_def)
  next
    case (Inr x)
    then show ?thesis using assms(1) assms(2) [of x T] join [of S T] Pair by (simp add: and_then_def)
  qed
qed

lemma emit_proposal_R: "R S (snd (emit_proposal M i ai env other m r lang now S))"
proof -
  define e where "e = (case lang of None \<Rightarrow> cmp_evidence r | Some l \<Rightarrow> dict_set ''language'' (Ev_STR l) (cmp_evidence r))"
  show ?thesis
  proof (cases "proposed_envelope i (pv_actor_id env) other m (cmp_score r) e now")
    case (Inl x)
    then show ?thesis by (simp add: emit_proposal_def Let_def e_def [symmetric] same)
  next
    case (Inr ev)
    note ok = proposed_envelope_ok [OF Inr]
    show ?thesis using ok
      by (auto simp: emit_proposal_def Let_def e_def [symmetric] Inr intro!: then_R propose send audit)
  qed
qed

lemma propose_matches_R: "R S (snd (propose_matches M env cp v th lang now ms S))"
proof (induction ms arbitrary: S)
  case Nil
  then show ?case by (simp add: same)
next
  case (Cons m ms)
  then show ?case by (cases m) (auto simp: same split: sum.split intro!: then_R emit_proposal_R)
qed

lemma run_comparator_R: "R S (snd (run_comparator M T fresh env now cp S))"
  unfolding run_comparator_def
  by (auto simp: same split: option.split sum.split intro!: then_R vector propose_matches_R)

lemma fold_R: "(\<And>x S. R S (f x S)) \<Longrightarrow> R S (fold f xs S)"
proof (induction xs arbitrary: S)
  case (Cons x xs)
  show ?case using join [OF Cons.prems [of S x] Cons.IH [OF Cons.prems]] by simp
qed (simp add: same)

lemma process_profile_R: "R S (process_profile M T fresh env now S)"
  unfolding process_profile_def by (rule fold_R run_comparator_R)+

lemma persist_edges_R: "\<forall>(e, i)\<in>set es. 0 \<le> ie_score e \<and> ie_score e \<le> 1 \<Longrightarrow> R S (snd (persist_edges es now S))"
proof (induction es arbitrary: S)
  case Nil
  then show ?case by (simp add: same)
next
  case (Cons x es)
  then show ?case by (cases x) (auto intro!: then_R propose)
qed

lemma run_verifiers_R: "R S (snd (run_verifiers M T lang i ca cb now vs S))"
proof (induction vs arbitrary: S)
  case Nil
  then show ?case by (simp add: same)
next
  case (Cons x vs)
  then show ?case by (cases x) (auto simp: same split: sum.split intro!: then_R audit)
qed

lemma promote_R: "R S (snd (promote_to_suspected M i a b c sc ai now S))"
proof -
  define nt where "nt = Some (''composite='' @ an_fmt3 M c)"
  obtain o1 S1 where p: "transition_linkage i Lnk_SUSPECTED ''verifier'' nt now S = (o1, S1)" by fastforce
  have S1: "R S S1" using transition [of S i Lnk_SUSPECTED "''verifier''" nt now] p by simp
  have eq: "promote_to_suspected M i a b c sc ai now S =
      (case (o1, S1) of (Inl (ValueError _), S1) \<Rightarrow> (Inr (), S1) | (Inl e, S1) \<Rightarrow> (Inl e, S1)
       | (Inr _, S1) \<Rightarrow> (case decided_envelope Lnk_SUSPECTED i a b ''verifier'' now nt of Inl e \<Rightarrow> (Inl e, S1)
          | Inr ev \<Rightarrow> and_then (publish_attr M ev None S1) (\<lambda>_ S2. emit_attr M None ai ''linkage.suspected'' ''linkage'' (Some i)
                   [(''actor_a'', JUuid a), (''actor_b'', JUuid b), (''composite'', JNum (an_repr M c)),
                    (''verifier_scores'', JObj (fold (\<lambda>r. dict_set (vr_method r) (JNum (an_repr M (vr_score r)))) sc [])),
                    (''promoted_by'', JStr ''verifier'')] now S2)))"
    unfolding promote_to_suspected_def nt_def [symmetric] Let_def p ..
  show ?thesis
  proof (cases o1)
    case (Inl e)
    then show ?thesis using S1 unfolding eq by (cases e) simp_all
  next
    case (Inr r)
    then show ?thesis using S1 decided_envelope_ok unfolding eq
      by (auto split: sum.split intro!: join [OF S1] then_R send audit)
  qed
qed

lemma evaluate_pair_R: "R S (snd (evaluate_pair M T vs ids i a b ev now S))"
  unfolding evaluate_pair_def Let_def
  by (auto simp: same intro!: then_R run_verifiers_R settle promote_R)

lemma on_profile_R: "R S (on_profile_current ids env now S)"
  by (simp add: on_profile_current_def node)

lemma decided_edge_R: "R S (decided_edge ids t i a b d now (apply_linkage_state i t' d' n now' S))"
  unfolding decided_edge_def apply_linkage_state_def by (rule join [OF transition edge])

lemma sync_persona_R: "R S (sync_persona ids p ms now S)"
  unfolding sync_persona_def by (rule join [OF node fold_R]) (rule edge)

lemma sync_and_emit_R: "R S (snd (sync_and_emit_persona M ids p k kv now S))"
proof -
  have "R S (snd (publish_attr M (Ev_PERSONA_UPDATED (pe_id p) (pe_members p) k None now) None (sync_persona ids (pe_id p) (pe_members p) now S)))"
    by (rule join [OF sync_persona_R send]) simp
  then show ?thesis unfolding sync_and_emit_persona_def by (rule then_R) (rule audit)
qed

lemma handle_confirmed_R:
  assumes "a < b" and "\<not> tbl_has pe_id (gi_persona ids) (at_personas S)"
  shows "R S (snd (handle_confirmed M ids i a b d n now S))"
proof -
  let ?S1 = "decided_edge ids Lnk_CONFIRMED i a b d now (apply_linkage_state i Lnk_CONFIRMED d n now S)"
  have "\<not> tbl_has pe_id (gi_persona ids) (at_personas ?S1)"
    using assms(2) by (simp add: decided_edge_def apply_linkage_state_def)
  then have "R ?S1 (snd (merge_actors_into_persona (gi_persona ids) a b (Some i) now ?S1))"
    using assms(1) by (intro merge) auto
  then have "R S (snd (merge_actors_into_persona (gi_persona ids) a b (Some i) now ?S1))" by (rule join [OF decided_edge_R])
  then show ?thesis unfolding handle_confirmed_def Let_def
  proof (rule then_R)
    fix p S2
    have "R S2 (snd (publish_attr M (Ev_PERSONA_UPDATED (pe_id p) (pe_members p) k (Some i) now) None (sync_persona ids (pe_id p) (pe_members p) now S2)))" for k
      by (rule join [OF sync_persona_R send]) simp
    then show "R S2 (snd (and_then (publish_attr M (Ev_PERSONA_UPDATED (pe_id p) (pe_members p)
        (if 2 < length (pe_members p) then Chg_MEMBERS_ADDED else Chg_CREATED) (Some i) now) None (sync_persona ids (pe_id p) (pe_members p) now S2))
        (\<lambda>_ S4. emit_attr M None (gi_audit ids) ''persona.merged'' ''persona'' (Some (pe_id p))
           [(''member_actor_ids'', JList (map JUuid (pe_members p))), (''via_linkage_id'', JUuid i)] now S4)))"
      by (rule then_R) (rule audit)
  qed
qed

lemma handle_persona_merge_R:
  assumes "p \<noteq> q" and "\<not> tbl_has pe_id (gi_persona ids) (at_personas S)"
  shows "R S (snd (handle_persona_merge M ids p q now S))"
proof (cases "persona_members p S")
  case Nil
  then show ?thesis by (simp add: handle_persona_merge_def same)
next
  case x: (Cons x xs)
  show ?thesis
  proof (cases "persona_members q S")
    case Nil
    then show ?thesis by (simp add: handle_persona_merge_def same x)
  next
    case (Cons y ys)
    have "persona_wf S \<Longrightarrow> x \<noteq> y" using members_of_two_personas [OF _ assms(1), of S x y] by (simp add: x Cons)
    then show ?thesis using assms(2) by (auto simp: handle_persona_merge_def x Cons intro!: then_R merge sync_and_emit_R)
  qed
qed

lemma handle_persona_split_R: "R S (snd (handle_persona_split M ids a now S))"
proof -
  obtain r S1 where eq: "split_actor_from_persona a now S = (r, S1)" by fastforce
  have "R S S1" using split_off [of S a now] eq by simp
  then show ?thesis using join [OF _ sync_and_emit_R] by (auto simp: handle_persona_split_def eq split: option.split)
qed

lemma graph_deliver_R:
  assumes "event_ok ev" and "\<not> tbl_has pe_id (gi_persona ids) (at_personas S)"
  shows "R S (snd (graph_deliver M ids ev now S))"
proof (cases ev)
  case (Ev_PROPOSED i a b m s e t)
  then show ?thesis by (auto simp: graph_deliver_def handle_proposed_def intro!: join [OF join [OF node node] edge])
next
  case (Ev_DECIDED st i a b d t n)
  then show ?thesis using assms handle_confirmed_R [of a b ids S]
    by (cases st) (simp_all add: graph_deliver_def handle_suspected_def handle_rejected_def decided_edge_R same)
next
  case (Ev_PERSONA_UPDATED p ms k v t)
  then show ?thesis by (simp add: graph_deliver_def sync_persona_R)
next
  case (Ev_PERSONA_MERGE p q d)
  then show ?thesis using assms handle_persona_merge_R by (simp add: graph_deliver_def)
next
  case (Ev_PERSONA_SPLIT p a d)
  then show ?thesis by (simp add: graph_deliver_def handle_persona_split_R)
qed

lemma operator_write_R:
  assumes "\<And>S. R S (persist S)" and "\<And>S. R S (snd (sendit S))"
  shows "R S (snd (operator_write M ids kind i user payload subject poll persist sendit now S))"
proof -
  obtain r S1 where eq: "emit_attr M user (wi_audit ids) ''eyenet.audit.operator_action'' kind i
         (payload @ [(''event_id'', JUuid (wi_event ids)), (''subject'', JStr subject)]) now S = (r, S1)" by fastforce
  have S1: "R S S1" using audit [of S M user "wi_audit ids"] eq by (metis snd_conv)
  have S2: "R S (snd (sendit (persist S1)))" by (rule join [OF join [OF S1 assms(1)] assms(2)])
  show ?thesis
  proof (cases r)
    case (Inl e)
    then show ?thesis using S1 unfolding operator_write_def eq by (cases e) simp_all
  next
    case (Inr x)
    then show ?thesis using S2 unfolding operator_write_def eq
      by (cases "sendit (persist S1)") (auto split: sum.split)
  qed
qed

lemma decide_linkage_R: "R S (snd (decide_linkage M ids op i reason note st now S))"
proof (cases "get_linkage i S")
  case None
  then show ?thesis by (simp add: decide_linkage_def same)
next
  case (Some r)
  show ?thesis unfolding decide_linkage_def Some option.case
    by (rule operator_write_R) (auto simp: same decided_envelope_ok linkage_log split: sum.split intro: send)
qed

lemma merge_personas_R: "R S (snd (merge_personas M ids op p q reason refs now S))"
  unfolding merge_personas_def by (auto simp: same intro!: operator_write_R persona_log send)

lemma split_persona_R: "R S (snd (split_persona M ids op p a reason refs now S))"
  unfolding split_persona_def by (auto simp: same intro!: operator_write_R persona_log send split: option.split)

end

section \<open>Reachable stores\<close>

text \<open>
  The services run concurrently: any of them may take any message that was published, in any order and any number of
  times. Fresh ids are new; the rounding keeps the unit interval.
\<close>

inductive attr_step :: "attr_store \<Rightarrow> attr_store \<Rightarrow> bool" where
  profile: "attr_step S (process_profile M T fresh env now S)"
| infra: "(\<And>x. 0 \<le> x \<Longrightarrow> x \<le> 1 \<Longrightarrow> 0 \<le> rnd x \<and> rnd x \<le> 1) \<Longrightarrow> finite (\<Union> (snd ` set ai)) \<Longrightarrow>
    attr_step S (snd (persist_edges (zip (propose_infra_edges rnd m fl ai) ids) now S))"
| verify: "(Ev_PROPOSED i a b m s e t, h) \<in> set (at_bus S) \<Longrightarrow> attr_step S (snd (evaluate_pair M V vs vids i a b e now S))"
| profile_node: "attr_step S (on_profile_current gids env now S)"
| deliver: "(ev, h) \<in> set (at_bus S) \<Longrightarrow> \<not> tbl_has pe_id (gi_persona gids) (at_personas S) \<Longrightarrow>
    attr_step S (snd (graph_deliver M gids ev now S))"
| decide: "attr_step S (snd (decide_linkage M wids op i reason nt st now S))"
| merge: "attr_step S (snd (merge_personas M wids op p q reason refs now S))"
| split_off: "attr_step S (snd (split_persona M wids op p a reason refs now S))"
| feedback: "attr_step S (snd (record_feedback_pair f i a b tr d now n S))"
| message: "attr_step S (S\<lparr>at_messages := ms\<rparr>)"

abbreviation attr_run :: "attr_store \<Rightarrow> attr_store \<Rightarrow> bool" where
  "attr_run \<equiv> attr_step\<^sup>*\<^sup>*"

definition bus_ok :: "attr_store \<Rightarrow> bool" where
  "bus_ok S \<longleftrightarrow> (\<forall>(ev, h)\<in>set (at_bus S). event_ok ev)"

context attr_service
begin

lemma step_R: "attr_step S T \<Longrightarrow> bus_ok S \<Longrightarrow> R S T"
proof (induction rule: attr_step.induct)
  case (infra rnd ai S m fl ids now)
  then show ?case using proposed_edges_unit [of rnd ai] by (intro persist_edges_R) (auto dest!: set_zip_leftD)
next
  case (deliver ev h S gids M now)
  then show ?case by (intro graph_deliver_R) (auto simp: bus_ok_def)
qed (simp_all add: process_profile_R evaluate_pair_R on_profile_R decide_linkage_R merge_personas_R split_persona_R feedback message)

end

end
