(* ===== verification/Attribution_Properties.thy ===== *)
theory Attribution_Properties
  imports Attr_Service
begin

text \<open>
  The contract of the storage primitives interpreted: linkage steps, typed stores, personas, the audit log and the
  event logs; then the properties of the attribution services in every reachable store.
\<close>

section \<open>Linkages\<close>

lemma linkage_frame [simp]:
  "at_linkages (snd (upsert_simhash a p h S)) = at_linkages S"
  "at_linkages (snd (record_verifier_result i j c fl st rs now S)) = at_linkages S"
  "at_linkages (snd (publish_attr M ev e S)) = at_linkages S"
  "at_linkages (snd (emit_attr M u k sk si sj pl now S)) = at_linkages S"
  "at_linkages (upsert_graph_node k nt x at' now S) = at_linkages S"
  "at_linkages (upsert_graph_edge k et x y at' now S) = at_linkages S"
  "at_linkages (snd (split_actor_from_persona a now S)) = at_linkages S"
  "at_linkages (snd (record_feedback_pair f i a b tr d now n S)) = at_linkages S"
  by (simp_all add: upsert_simhash_def record_verifier_result_def publish_attr_def emit_attr_def upsert_graph_node_def
      upsert_graph_edge_def split_actor_from_persona_def record_feedback_pair_def Let_def
      split: option.split sum.split prod.split publish_result.split)

lemma insert_persona_member_frame [simp]:
  "at_linkages (snd (insert_persona_member m S)) = at_linkages S"
  "at_audit (snd (insert_persona_member m S)) = at_audit S"
  "at_vectors (snd (insert_persona_member m S)) = at_vectors S"
  "at_settled (snd (insert_persona_member m S)) = at_settled S"
  "at_bus (snd (insert_persona_member m S)) = at_bus S"
  "at_linkage_events (snd (insert_persona_member m S)) = at_linkage_events S"
  "at_persona_events (snd (insert_persona_member m S)) = at_persona_events S"
  by (simp_all add: insert_persona_member_def)

lemma merge_only_personas:
  "\<exists>ps ms. snd (merge_actors_into_persona n a b via now S) = S\<lparr>at_personas := ps, at_members := ms\<rparr>"
proof -
  have same: "\<exists>ps ms. S = S\<lparr>at_personas := ps, at_members := ms\<rparr>"
    by (intro exI [of _ "at_personas S"] exI [of _ "at_members S"]) simp
  have add: "\<exists>ps ms. snd (add_persona_member p x via now S) = S\<lparr>at_personas := ps, at_members := ms\<rparr>" for p x
    by (auto simp: add_persona_member_def insert_persona_member_def Let_def same)
  have make: "\<exists>ps ms. snd (create_persona n a b via now S) = S\<lparr>at_personas := ps, at_members := ms\<rparr>"
    by (auto simp: create_persona_def insert_persona_member_def Let_def same)
  have absorb: "\<exists>ps ms. snd (absorb_persona k d now S) = S\<lparr>at_personas := ps, at_members := ms\<rparr>" for k d
    by (auto simp: absorb_persona_def Let_def same split: option.split)
  show ?thesis
    by (simp add: merge_actors_into_persona_def add make absorb same split: option.split)
qed

lemma merge_frame [simp]:
  "at_linkages (snd (merge_actors_into_persona n a b via now S)) = at_linkages S"
  "at_vectors (snd (merge_actors_into_persona n a b via now S)) = at_vectors S"
  "at_bus (snd (merge_actors_into_persona n a b via now S)) = at_bus S"
  "at_settled (snd (merge_actors_into_persona n a b via now S)) = at_settled S"
  "at_feedback (snd (merge_actors_into_persona n a b via now S)) = at_feedback S"
  "at_linkage_events (snd (merge_actors_into_persona n a b via now S)) = at_linkage_events S"
  "at_persona_events (snd (merge_actors_into_persona n a b via now S)) = at_persona_events S"
  using merge_only_personas [of n a b via now S] by auto

text \<open>Under the attribution contract the linkage table takes legal steps only.\<close>

interpretation links: attr_service "\<lambda>S T. lk_steps (at_linkages S) (at_linkages T)"
  by unfold_locales (auto intro: rtranclp_trans insert_proposed_step transition_step)


lemma attr_run_links: "attr_step S T \<Longrightarrow> bus_ok S \<Longrightarrow> lk_steps (at_linkages S) (at_linkages T)"
  by (rule links.step_R)

section \<open>Typed stores\<close>

text \<open>The ranges of the stored values.\<close>

definition attr_typed :: "attr_store \<Rightarrow> bool" where
  "attr_typed S \<longleftrightarrow> (\<forall>r\<in>set (at_linkages S). 0 \<le> lk_score r \<and> lk_score r \<le> 1)
     \<and> (\<forall>v\<in>set (at_vectors S). signed64 (vs_simhash v)) \<and> bus_ok S
     \<and> (\<forall>r\<in>set (at_settled S). st_state r = (if st_floor r \<le> st_composite r then ''suspected'' else ''below_floor''))
     \<and> (\<forall>r\<in>set (at_feedback S). fb_ground_truth r \<in> VALID_GROUND_TRUTHS \<and> fb_actor_a r < fb_actor_b r)"

lemma typed_fields:
  "attr_typed S \<Longrightarrow> at_linkages T = at_linkages S \<Longrightarrow> at_vectors T = at_vectors S \<Longrightarrow> at_bus T = at_bus S \<Longrightarrow>
   at_settled T = at_settled S \<Longrightarrow> at_feedback T = at_feedback S \<Longrightarrow> attr_typed T"
  by (simp add: attr_typed_def bus_ok_def)

lemma insert_linkage_typed:
  "attr_typed S \<Longrightarrow> 0 \<le> lk_score r \<Longrightarrow> lk_score r \<le> 1 \<Longrightarrow> attr_typed (snd (insert_linkage r S))"
  by (auto simp: insert_linkage_def attr_typed_def bus_ok_def)

lemma insert_proposed_typed:
  assumes "attr_typed S" and "0 \<le> s" and "s \<le> 1"
  shows "attr_typed (snd (insert_proposed_linkage i x y m s e now S))"
proof -
  obtain a b where ab: "sorted_pair x y = (a, b)" by fastforce
  show ?thesis
  proof (cases "find (\<lambda>r. lk_actor_a r = a \<and> lk_actor_b r = b \<and> lk_method r = m \<and> lk_state r = Lnk_PROPOSED) (at_linkages S)")
    case None
    then show ?thesis using assms by (auto simp: insert_proposed_linkage_def ab intro!: insert_linkage_typed)
  next
    case (Some r)
    then have "r \<in> set (at_linkages S)" using find_SomeD by fast
    then show ?thesis using assms Some
      by (auto simp: insert_proposed_linkage_def ab Let_def attr_typed_def bus_ok_def dest!: set_tbl_save_sub)
  qed
qed

lemma transition_typed: "attr_typed S \<Longrightarrow> attr_typed (snd (transition_linkage i t d n now S))"
  by (auto simp: transition_linkage_def Let_def attr_typed_def bus_ok_def dest!: set_tbl_save_sub tbl_get_SomeD split: option.split)

lemma settle_typed:
  assumes "attr_typed S" and "st = (if fl \<le> c then ''suspected'' else ''below_floor'')"
  shows "attr_typed (snd (record_verifier_result i j c fl st rs now S))"
proof -
  have "\<exists>l. snd (record_verifier_result i j c fl st rs now S) = S\<lparr>at_settled := l\<rparr>
      \<and> (\<forall>r\<in>set l. r \<in> set (at_settled S) \<or> st_state r = st \<and> st_floor r = fl \<and> st_composite r = c)"
  proof (cases "find (\<lambda>r. st_linkage_id r = j) (at_settled S)")
    case None
    then show ?thesis
      by (cases "\<not> tbl_has lk_id j (at_linkages S) \<or> tbl_has st_id i (at_settled S)")
        (auto simp: record_verifier_result_def intro: exI [of _ "at_settled S"])
  next
    case (Some r)
    let ?r = "r\<lparr>st_composite := c, st_floor := fl, st_state := st, st_results := rs, st_computed_at := now\<rparr>"
    have "x \<in> set (at_settled S) \<or> st_state x = st \<and> st_floor x = fl \<and> st_composite x = c"
      if "x \<in> set (tbl_save st_id ?r (at_settled S))" for x
      using set_tbl_save_sub [OF that] by auto
    then show ?thesis using Some by (intro exI [of _ "tbl_save st_id ?r (at_settled S)"]) (simp add: record_verifier_result_def)
  qed
  then obtain l where l: "snd (record_verifier_result i j c fl st rs now S) = S\<lparr>at_settled := l\<rparr>"
    "\<forall>r\<in>set l. r \<in> set (at_settled S) \<or> st_state r = st \<and> st_floor r = fl \<and> st_composite r = c" by blast
  have "st_state r = (if st_floor r \<le> st_composite r then ''suspected'' else ''below_floor'')" if "r \<in> set l" for r
    using l(2) that assms unfolding attr_typed_def by metis
  then show ?thesis using assms(1) unfolding l(1) by (simp add: attr_typed_def bus_ok_def)
qed

lemma feedback_typed:
  assumes "attr_typed S"
  shows "attr_typed (snd (record_feedback_pair f i x y tr d now n S))"
proof -
  let ?ok = "\<lambda>r. fb_ground_truth r \<in> VALID_GROUND_TRUTHS \<and> fb_actor_a r < fb_actor_b r"
  have old: "\<forall>r\<in>set (at_feedback S). ?ok r" using assms by (simp add: attr_typed_def)
  have S: "\<exists>l. S = S\<lparr>at_feedback := l\<rparr> \<and> (\<forall>r\<in>set l. ?ok r)" using old by (intro exI [of _ "at_feedback S"]) simp
  obtain a b where ab: "sorted_pair x y = (a, b)" by fastforce
  have "\<exists>l. snd (record_feedback_pair f i x y tr d now n S) = S\<lparr>at_feedback := l\<rparr> \<and> (\<forall>r\<in>set l. ?ok r)"
  proof (cases "tr \<in> VALID_GROUND_TRUTHS")
    case False
    then show ?thesis using S by (simp add: record_feedback_pair_def)
  next
    case valid: True
    show ?thesis
    proof (cases "find (\<lambda>r. fb_linkage_id r = i) (at_feedback S)")
      case None
      show ?thesis
      proof (cases "\<not> a < b \<or> \<not> tbl_has lk_id i (at_linkages S) \<or> tbl_has fb_id f (at_feedback S)")
        case True
        then show ?thesis using S None valid by (simp add: record_feedback_pair_def ab)
      next
        case False
        let ?r = "\<lparr>fb_id = f, fb_linkage_id = i, fb_actor_a = a, fb_actor_b = b, fb_ground_truth = tr,
            fb_decided_by = d, fb_decided_at = now, fb_notes = n\<rparr>"
        have "\<forall>r\<in>set (at_feedback S @ [?r]). ?ok r" using False old valid by simp
        then show ?thesis using False None valid
          by (intro exI [of _ "at_feedback S @ [?r]"]) (simp add: record_feedback_pair_def ab Let_def)
      qed
    next
      case (Some r)
      then have "?ok r" using old find_SomeD by fast
      let ?l = "tbl_save fb_id (r\<lparr>fb_ground_truth := tr, fb_decided_by := d, fb_decided_at := now, fb_notes := n\<rparr>) (at_feedback S)"
      have "?ok z" if "z \<in> set ?l" for z using set_tbl_save_sub [OF that] old valid \<open>?ok r\<close> by auto
      then show ?thesis using Some valid by (intro exI [of _ ?l]) (simp add: record_feedback_pair_def ab Let_def)
    qed
  qed
  then show ?thesis using assms by (auto simp: attr_typed_def bus_ok_def)
qed

lemma send_typed: "attr_typed S \<Longrightarrow> event_ok ev \<Longrightarrow> attr_typed (snd (publish_attr M ev eid S))"
  by (auto simp: publish_attr_def attr_typed_def bus_ok_def split: publish_result.split)

lemma vector_only: "\<exists>l. snd (upsert_simhash a p h S) = S\<lparr>at_vectors := l\<rparr>"
proof -
  have S: "\<exists>l. S = S\<lparr>at_vectors := l\<rparr>" by (rule exI [of _ "at_vectors S"]) simp
  show ?thesis
  proof (cases "hex_to_int h")
    case (Inr u)
    then show ?thesis using S by (cases "sqlite_int u") (auto simp: upsert_simhash_def Let_def)
  qed (use S in \<open>simp add: upsert_simhash_def\<close>)
qed

lemma vector_typed:
  assumes "attr_typed S"
  shows "attr_typed (snd (upsert_simhash a p h S))"
proof -
  obtain l where l: "snd (upsert_simhash a p h S) = S\<lparr>at_vectors := l\<rparr>" using vector_only by blast
  have "\<forall>v\<in>set l. signed64 (vs_simhash v)"
    using upsert_simhash_typed [of S a p h] assms unfolding l by (simp add: attr_typed_def)
  then show ?thesis using assms unfolding l by (simp add: attr_typed_def bus_ok_def)
qed

lemma other_frame [simp]:
  "at_vectors (snd (emit_attr M u k sk si sj pl now S)) = at_vectors S" "at_bus (snd (emit_attr M u k sk si sj pl now S)) = at_bus S"
  "at_settled (snd (emit_attr M u k sk si sj pl now S)) = at_settled S" "at_feedback (snd (emit_attr M u k sk si sj pl now S)) = at_feedback S"
  "at_vectors (upsert_graph_node k nt x at' now S) = at_vectors S" "at_bus (upsert_graph_node k nt x at' now S) = at_bus S"
  "at_settled (upsert_graph_node k nt x at' now S) = at_settled S" "at_feedback (upsert_graph_node k nt x at' now S) = at_feedback S"
  "at_vectors (upsert_graph_edge k et x y at' now S) = at_vectors S" "at_bus (upsert_graph_edge k et x y at' now S) = at_bus S"
  "at_settled (upsert_graph_edge k et x y at' now S) = at_settled S" "at_feedback (upsert_graph_edge k et x y at' now S) = at_feedback S"
  "at_vectors (snd (split_actor_from_persona a now S)) = at_vectors S" "at_bus (snd (split_actor_from_persona a now S)) = at_bus S"
  "at_settled (snd (split_actor_from_persona a now S)) = at_settled S" "at_feedback (snd (split_actor_from_persona a now S)) = at_feedback S"
  by (simp_all add: emit_attr_def upsert_graph_node_def upsert_graph_edge_def split_actor_from_persona_def Let_def
      split: option.split sum.split prod.split)

lemma merge_typed: "attr_typed S \<Longrightarrow> attr_typed (snd (merge_actors_into_persona n a b via now S))"
  and audit_typed: "attr_typed S \<Longrightarrow> attr_typed (snd (emit_attr M u k sk si sj pl now S))"
  and node_typed: "attr_typed S \<Longrightarrow> attr_typed (upsert_graph_node k nt x at' now S)"
  and edge_typed: "attr_typed S \<Longrightarrow> attr_typed (upsert_graph_edge k et x y at' now S)"
  and split_typed: "attr_typed S \<Longrightarrow> attr_typed (snd (split_actor_from_persona a now S))"
  and log_typed: "attr_typed S \<Longrightarrow> attr_typed (S\<lparr>at_linkage_events := l\<rparr>)" "attr_typed S \<Longrightarrow> attr_typed (S\<lparr>at_persona_events := l\<rparr>)"
    "attr_typed S \<Longrightarrow> attr_typed (S\<lparr>at_messages := ms\<rparr>)"
  by (erule typed_fields; simp)+

interpretation typed: attr_service "\<lambda>S T. attr_typed S \<longrightarrow> attr_typed T"
  by unfold_locales (simp_all add: insert_proposed_typed transition_typed settle_typed feedback_typed send_typed vector_typed
      merge_typed audit_typed node_typed edge_typed split_typed log_typed)

lemma attr_typed_bus: "attr_typed S \<Longrightarrow> bus_ok S"
  by (simp add: attr_typed_def)

lemma attr_run_typed: "attr_run S T \<Longrightarrow> attr_typed S \<Longrightarrow> attr_typed T"
  by (induction rule: rtranclp_induct) (use typed.step_R attr_typed_bus in blast)+

section \<open>Personas\<close>

lemma insert_only_linkages: "\<exists>l. snd (insert_linkage r S) = S\<lparr>at_linkages := l\<rparr>"
proof -
  have "\<exists>l. S = S\<lparr>at_linkages := l\<rparr>" by (rule exI [of _ "at_linkages S"]) simp
  then show ?thesis by (auto simp: insert_linkage_def)
qed

lemma insert_proposed_only: "\<exists>l. snd (insert_proposed_linkage i x y m s e now S) = S\<lparr>at_linkages := l\<rparr>"
  by (cases "sorted_pair x y") (auto simp: insert_proposed_linkage_def insert_only_linkages Let_def split: option.split)

lemma feedback_only: "\<exists>l. snd (record_feedback_pair f i x y tr d now n S) = S\<lparr>at_feedback := l\<rparr>"
proof -
  have "\<exists>l. S = S\<lparr>at_feedback := l\<rparr>" by (rule exI [of _ "at_feedback S"]) simp
  then show ?thesis by (cases "sorted_pair x y") (auto simp: record_feedback_pair_def Let_def split: option.split)
qed

lemma settle_only: "\<exists>l. snd (record_verifier_result i j c fl st rs now S) = S\<lparr>at_settled := l\<rparr>"
proof -
  have "\<exists>l. S = S\<lparr>at_settled := l\<rparr>" by (rule exI [of _ "at_settled S"]) simp
  then show ?thesis by (auto simp: record_verifier_result_def split: option.split)
qed

lemma rows_frame [simp]:
  "persona_rows (snd (upsert_simhash a p h S)) = persona_rows S"
  "persona_rows (snd (insert_proposed_linkage i x y m s e now S)) = persona_rows S"
  "persona_rows (snd (record_verifier_result i j c fl st rs now S)) = persona_rows S"
  "persona_rows (snd (record_feedback_pair f i x y tr d now n S)) = persona_rows S"
  "persona_rows (snd (transition_linkage i t d n now S)) = persona_rows S"
  "persona_rows (snd (publish_attr M ev eid S)) = persona_rows S"
  "persona_rows (snd (emit_attr M u k sk si sj pl now S)) = persona_rows S"
  "persona_rows (upsert_graph_node k nt x at' now S) = persona_rows S"
  "persona_rows (upsert_graph_edge k et x y at' now S) = persona_rows S"
  using vector_only [of a p h S] insert_proposed_only [of i x y m s e now S] settle_only [of i j c fl st rs now S]
    feedback_only [of f i x y tr d now n S]
  by (auto simp: persona_rows_def publish_attr_def emit_attr_def Let_def split: publish_result.split sum.split prod.split)

lemma rows_logs [simp]:
  "persona_rows (S\<lparr>at_linkage_events := l\<rparr>) = persona_rows S" "persona_rows (S\<lparr>at_persona_events := l\<rparr>) = persona_rows S"
  "persona_rows (S\<lparr>at_messages := ms\<rparr>) = persona_rows S"
  by (simp_all add: persona_rows_def)

lemma merge_wf:
  assumes "persona_wf S" and "\<not> tbl_has pe_id n (at_personas S)" and "a \<noteq> b"
  shows "persona_wf (snd (merge_actors_into_persona n a b via now S))"
  using merge_actors_correct [OF assms(1,3,2), of via now] by auto

interpretation personas: attr_service "\<lambda>S T. persona_wf S \<longrightarrow> persona_wf T"
  by unfold_locales (simp_all add: merge_wf split_actor_correct wf_rows [OF rows_frame(1)] wf_rows [OF rows_frame(2)] wf_rows [OF rows_frame(3)]
      wf_rows [OF rows_frame(4)] wf_rows [OF rows_frame(5)] wf_rows [OF rows_frame(6)] wf_rows [OF rows_frame(7)] wf_rows [OF rows_frame(8)]
      wf_rows [OF rows_frame(9)] wf_rows [OF rows_logs(1)] wf_rows [OF rows_logs(2)] wf_rows [OF rows_logs(3)])

lemma rows_then:
  assumes "persona_rows (snd m) = persona_rows S" and "\<And>x T. m = (Inr x, T) \<Longrightarrow> persona_rows (snd (k x T)) = persona_rows T"
  shows "persona_rows (snd (and_then m k)) = persona_rows S"
  using assms by (cases m) (auto simp: and_then_def split: sum.split)

lemma rows_sync [simp]: "persona_rows (sync_persona ids p ms now S) = persona_rows S"
proof -
  have "persona_rows (fold (\<lambda>x. upsert_graph_edge (gi_member_edge ids x) Edge_BELONGS_TO_PERSONA x p [(''joined_at'', At_TIME now)] now) ms S)
      = persona_rows S" for S by (induction ms arbitrary: S) simp_all
  then show ?thesis by (simp add: sync_persona_def)
qed

lemma rows_sync_emit [simp]: "persona_rows (snd (sync_and_emit_persona M ids p k kv now S)) = persona_rows S"
  unfolding sync_and_emit_persona_def by (rule rows_then) simp_all

lemma rows_decided_edge [simp]: "persona_rows (decided_edge ids st i a b d now S) = persona_rows S"
  by (simp add: decided_edge_def)

lemma rows_apply [simp]: "persona_rows (apply_linkage_state i st d n now S) = persona_rows S"
  by (simp add: apply_linkage_state_def)

lemma handle_confirmed_block:
  assumes "persona_wf S" and "a \<noteq> b" and "\<not> tbl_has pe_id (gi_persona ids) (at_personas S)"
  shows "persona_block (snd (handle_confirmed M ids i a b d n now S)) = merge_blocks a b (persona_block S)"
proof -
  define S1 where "S1 = decided_edge ids Lnk_CONFIRMED i a b d now (apply_linkage_state i Lnk_CONFIRMED d n now S)"
  have rows: "persona_rows S1 = persona_rows S" unfolding S1_def by simp
  then have wf: "persona_wf S1" using assms(1) wf_rows by metis
  have fresh: "\<not> tbl_has pe_id (gi_persona ids) (at_personas S1)" using rows assms(3) by (simp add: persona_rows_def)
  have block: "persona_block S1 = persona_block S" by (rule block_rows [OF rows])
  obtain p T where T: "merge_actors_into_persona (gi_persona ids) a b (Some i) now S1 = (Inr p, T)"
      "persona_block T = merge_blocks a b (persona_block S1)"
    using merge_actors_correct [OF wf assms(2) fresh, of "Some i" now] by (elim exE conjE) (rule that)
  have "persona_rows (snd (handle_confirmed M ids i a b d n now S)) = persona_rows T"
    unfolding handle_confirmed_def Let_def S1_def [symmetric] T(1) and_then_def [of "(Inr p, T)"] prod.case sum.case
    by (intro rows_then rows_frame(7)) (simp only: rows_frame rows_sync)
  from block_rows [OF this] show ?thesis unfolding T(2) block .
qed

text \<open>What a message does to the partition of the actors: everything else leaves it alone.\<close>

definition abs_deliver :: "attr_event \<Rightarrow> attr_store \<Rightarrow> (uuid \<Rightarrow> uuid set) \<Rightarrow> uuid \<Rightarrow> uuid set" where
  "abs_deliver ev S f = (case ev of
      Ev_DECIDED Lnk_CONFIRMED i a b d t n \<Rightarrow> merge_blocks a b f
    | Ev_PERSONA_MERGE p q d \<Rightarrow>
        (case (persona_members p S, persona_members q S) of (x # _, y # _) \<Rightarrow> merge_blocks x y f | _ \<Rightarrow> f)
    | Ev_PERSONA_SPLIT p a d \<Rightarrow> split_block a f
    | _ \<Rightarrow> f)"

lemma deliver_block:
  assumes "persona_wf S" and "event_ok ev" and "\<not> tbl_has pe_id (gi_persona ids) (at_personas S)"
  shows "persona_block (snd (graph_deliver M ids ev now S)) = abs_deliver ev S (persona_block S)"
proof (cases ev)
  case (Ev_PROPOSED i a b m s e t)
  then show ?thesis by (simp add: graph_deliver_def abs_deliver_def handle_proposed_def block_rows [OF rows_frame(8)] block_rows [OF rows_frame(9)])
next
  case (Ev_DECIDED st i a b d t n)
  have r: "persona_block (decided_edge ids st i a b d now (apply_linkage_state i st d n now S)) = persona_block S"
    by (rule block_rows) simp
  show ?thesis
  proof (cases "st = Lnk_CONFIRMED")
    case True
    then show ?thesis using assms Ev_DECIDED handle_confirmed_block [of S a b ids M i d n now] by (simp add: graph_deliver_def abs_deliver_def)
  next
    case False
    then show ?thesis using r Ev_DECIDED by (cases st) (simp_all add: graph_deliver_def abs_deliver_def handle_suspected_def handle_rejected_def)
  qed
next
  case (Ev_PERSONA_UPDATED p ms k v t)
  then show ?thesis by (simp add: graph_deliver_def abs_deliver_def block_rows [OF rows_sync])
next
  case (Ev_PERSONA_MERGE p q d)
  show ?thesis
  proof (cases "persona_members p S")
    case Nil
    then show ?thesis by (simp add: Ev_PERSONA_MERGE graph_deliver_def abs_deliver_def handle_persona_merge_def)
  next
    case x: (Cons x xs)
    show ?thesis
    proof (cases "persona_members q S")
      case Nil
      then show ?thesis by (simp add: Ev_PERSONA_MERGE graph_deliver_def abs_deliver_def handle_persona_merge_def x)
    next
      case y: (Cons y ys)
      have "x \<noteq> y" using members_of_two_personas [OF assms(1), of p q x y] assms(2) by (simp add: Ev_PERSONA_MERGE x y)
      from merge_actors_correct [OF assms(1) this assms(3), of None now]
      show ?thesis
        by (auto simp: Ev_PERSONA_MERGE graph_deliver_def abs_deliver_def handle_persona_merge_def x y and_then_def block_rows [OF rows_sync_emit])
    qed
  qed
next
  case (Ev_PERSONA_SPLIT p a d)
  obtain r T where T: "split_actor_from_persona a now S = (r, T)" by fastforce
  have "persona_block T = split_block a (persona_block S)" using split_actor_correct [OF assms(1), of a now] T by simp
  then show ?thesis
    by (simp add: Ev_PERSONA_SPLIT graph_deliver_def abs_deliver_def handle_persona_split_def T block_rows [OF rows_sync_emit] split: option.split)
qed

section \<open>Event logs\<close>

definition seq_ok :: "event_row list \<Rightarrow> bool" where
  "seq_ok evs \<longleftrightarrow> (\<forall>p. let l = filter (\<lambda>r. el_parent_id r = p) evs in map el_event_seq l = [1..<Suc (length l)])"

lemma fold_max_upt: "fold max [1..<Suc n] (0::nat) = n"
  by (induction n) simp_all

lemma append_event_seq: "seq_ok evs \<Longrightarrow> seq_ok (append_event p s e w t evs)"
proof -
  assume ok: "seq_ok evs"
  let ?l = "filter (\<lambda>r. el_parent_id r = p) evs"
  have l: "map el_event_seq ?l = [1..<Suc (length ?l)]" using ok by (simp add: seq_ok_def Let_def)
  have "next_event_seq p evs = Suc (length ?l)" unfolding next_event_seq_def l fold_max_upt ..
  then show ?thesis using ok l by (simp add: seq_ok_def append_event_def Let_def)
qed

definition logs_ok :: "attr_store \<Rightarrow> bool" where
  "logs_ok S \<longleftrightarrow> seq_ok (at_linkage_events S) \<and> seq_ok (at_persona_events S)"

definition attr_logs :: "attr_store \<Rightarrow> event_row list \<times> event_row list" where
  "attr_logs S = (at_linkage_events S, at_persona_events S)"

lemma logs_same: "attr_logs S = attr_logs T \<Longrightarrow> logs_ok S = logs_ok T"
  by (simp add: logs_ok_def attr_logs_def)

lemma split_logs: "attr_logs (snd (split_actor_from_persona a now S)) = attr_logs S"
  by (simp add: attr_logs_def split_actor_from_persona_def Let_def split: option.split)

lemma merge_logs: "attr_logs (snd (merge_actors_into_persona n a b via now S)) = attr_logs S"
  by (simp add: attr_logs_def)

lemma logs_frame:
  "attr_logs (snd (upsert_simhash a p h S)) = attr_logs S"
  "attr_logs (snd (insert_proposed_linkage i x y m s e now S)) = attr_logs S"
  "attr_logs (snd (record_verifier_result i j c fl st rs now S)) = attr_logs S"
  "attr_logs (snd (record_feedback_pair f i x y tr d now n S)) = attr_logs S"
  "attr_logs (snd (transition_linkage i t d n now S)) = attr_logs S"
  "attr_logs (snd (publish_attr M ev eid S)) = attr_logs S"
  "attr_logs (snd (emit_attr M u k sk si sj pl now S)) = attr_logs S"
  "attr_logs (upsert_graph_node k nt x at' now S) = attr_logs S"
  "attr_logs (upsert_graph_edge k et x y at' now S) = attr_logs S"
  using vector_only [of a p h S] insert_proposed_only [of i x y m s e now S] settle_only [of i j c fl st rs now S]
    feedback_only [of f i x y tr d now n S]
  by (auto simp: attr_logs_def transition_linkage_def upsert_graph_node_def upsert_graph_edge_def publish_attr_def emit_attr_def Let_def
      split: publish_result.split sum.split prod.split option.split)

lemmas logs_rules = logs_same [OF logs_frame(1)] logs_same [OF logs_frame(2)] logs_same [OF logs_frame(3)] logs_same [OF logs_frame(4)]
  logs_same [OF logs_frame(5)] logs_same [OF logs_frame(6)] logs_same [OF logs_frame(7)] logs_same [OF logs_frame(8)]
  logs_same [OF logs_frame(9)] logs_same [OF split_logs] logs_same [OF merge_logs]

lemma logs_append:
  "logs_ok S \<Longrightarrow> logs_ok (S\<lparr>at_linkage_events := append_event p s e w t (at_linkage_events S)\<rparr>)"
  "logs_ok S \<Longrightarrow> logs_ok (S\<lparr>at_persona_events := append_event p s e w t (at_persona_events S)\<rparr>)"
  "logs_ok S \<Longrightarrow> logs_ok (S\<lparr>at_messages := ms\<rparr>)"
  by (simp_all add: logs_ok_def append_event_seq)

interpretation event_logs: attr_service "\<lambda>S T. logs_ok S \<longrightarrow> logs_ok T"
  by unfold_locales (simp_all add: logs_rules logs_append)

section \<open>The invariant of every reachable store\<close>

definition attr_inv :: "attr_store \<Rightarrow> bool" where
  "attr_inv S \<longleftrightarrow> lk_wf (at_linkages S) \<and> attr_typed S \<and> persona_wf S \<and> logs_ok S"

lemma attr_step_inv: "attr_step S T \<Longrightarrow> attr_inv S \<Longrightarrow> attr_inv T"
  unfolding attr_inv_def
  using typed.step_R personas.step_R event_logs.step_R links.step_R attr_typed_bus lk_steps_wf by blast

lemma attr_run_inv: "attr_run S T \<Longrightarrow> attr_inv S \<Longrightarrow> attr_inv T"
  by (induction rule: rtranclp_induct) (auto intro: attr_step_inv)

lemma attr_run_steps: "attr_run S T \<Longrightarrow> attr_inv S \<Longrightarrow> lk_steps (at_linkages S) (at_linkages T)"
proof (induction rule: rtranclp_induct)
  case (step T U)
  then have "bus_ok T" using attr_run_inv attr_typed_bus unfolding attr_inv_def by blast
  then show ?case using step links.step_R by (meson rtranclp_trans)
qed simp

text \<open>A store before the first message.\<close>

definition attr_empty :: "audit_store \<Rightarrow> attr_store" where
  "attr_empty A = \<lparr>at_linkages = [], at_feedback = [], at_settled = [], at_linkage_events = [], at_persona_events = [],
     at_vectors = [], at_personas = [], at_members = [], at_nodes = [], at_edges = [], at_messages = [], at_audit = A, at_bus = []\<rparr>"

lemma attr_empty_inv: "attr_inv (attr_empty A)"
  by (simp add: attr_inv_def attr_empty_def lk_wf_def attr_typed_def bus_ok_def persona_wf_def logs_ok_def seq_ok_def)

section \<open>Search and comparison\<close>

lemma near_match:
  assumes "length h = 16" and "py_int16 h = Some x" and "0 \<le> x" and "x < 2 ^ 64" and "hex_to_int h = Inr q"
    and "signed64 (vs_simhash v)" and "sql_hamming64 q (vs_simhash v) \<le> d"
  shows "\<exists>r. compare_simhash rnd name h (vm_simhash_hex (match_of q v)) d = Inr r
    \<and> cmp_distance r = vm_distance (match_of q v) \<and> cmp_within r"
proof -
  have "hamming64 h (vm_simhash_hex (match_of q v)) = Inr (vm_distance (match_of q v))"
    using distances_agree [OF assms(1-6)] by (simp add: match_of_def)
  moreover have "vm_distance (match_of q v) \<le> d" using assms(7) by (simp add: match_of_def)
  ultimately show ?thesis by (simp only: compare_simhash_def sum.case Let_def) simp
qed

lemma nearest_within:
  assumes "\<forall>v\<in>set (at_vectors S). signed64 (vs_simhash v)"
    and "length h = 16" and "py_int16 h = Some x" and "0 \<le> x" and "x < 2 ^ 64"
  shows "\<exists>ms. nearest_simhashes primitive h d limit exclude S = Inr ms \<and>
    (\<forall>m\<in>set ms. \<exists>r. compare_simhash rnd name h (vm_simhash_hex m) d = Inr r \<and> cmp_distance r = vm_distance m \<and> cmp_within r)"
proof -
  define q where "q = (if x \<ge> 2 ^ 63 then x - 2 ^ 64 else x)"
  have hq: "hex_to_int h = Inr q" unfolding hex_to_int_def assms(3) q_def by simp
  have sq: "signed64 q" using assms(4,5) unfolding q_def signed64_def by auto
  define rows where "rows = take limit (order_asc (\<lambda>r. sql_hamming64 q (vs_simhash r)) (filter (near primitive q d exclude) (at_vectors S)))"
  have "\<exists>r. compare_simhash rnd name h (vm_simhash_hex (match_of q v)) d = Inr r
      \<and> cmp_distance r = vm_distance (match_of q v) \<and> cmp_within r" if v: "v \<in> set rows" for v
  proof -
    have "v \<in> set (filter (near primitive q d exclude) (at_vectors S))"
      using v unfolding rows_def by (metis in_set_takeD set_order_asc)
    then show ?thesis using assms(1) near_match [OF assms(2-5) hq] by (simp add: near_def)
  qed
  then have "\<forall>m\<in>set (map (match_of q) rows). \<exists>r. compare_simhash rnd name h (vm_simhash_hex m) d = Inr r
      \<and> cmp_distance r = vm_distance m \<and> cmp_within r" unfolding set_map by blast
  then show ?thesis using nearest_simhashes_rows [OF hq sq] unfolding rows_def by (intro exI conjI)
qed

section \<open>Properties\<close>

text \<open>C20: whatever the linker, the verifier, the graph service and the operators do, in any order and with any
  failure, the store stays consistent: pairs are ordered and unique per method, a linkage is undecided exactly when
  it is proposed, scores lie in the unit interval, the membership rows and the persona lists agree and no actor is in
  two personas, and the events of a linkage or persona are numbered 1, 2, 3 and so on.\<close>

theorem attribution_invariant:
  assumes "attr_run (attr_empty A) T"
  shows "attr_inv T"
  using attr_run_inv [OF assms attr_empty_inv] .

text \<open>C21: a decision is final. Over any later run a linkage keeps its pair and method, its state only moves along the
  legal transitions, its score never falls, and a confirmed, rejected or superseded row never changes again.\<close>

theorem decided_linkage_final:
  assumes "attr_inv S" and "attr_run S T" and "r \<in> set (at_linkages S)"
  shows "\<exists>r'\<in>set (at_linkages T). lk_moves r r'"
  using lk_steps_moves [OF attr_run_steps [OF assms(2,1)] _ assms(3)] assms(1) by (simp add: attr_inv_def)

text \<open>C22: the personas refine a partition of the actors. Delivering a message changes the partition exactly as the
  message says: a confirmation unites the blocks of its pair, a merge command the blocks of the two personas, a split
  isolates the actor, and nothing else has an effect. This holds for a confirmation of any linkage, also of one that
  is already rejected.\<close>

theorem personas_refine_partition:
  assumes "attr_run (attr_empty A) S" and "(ev, h) \<in> set (at_bus S)" and "\<not> tbl_has pe_id (gi_persona ids) (at_personas S)"
  shows "persona_block (snd (graph_deliver M ids ev now S)) = abs_deliver ev S (persona_block S)"
proof -
  have inv: "attr_inv S" by (rule attr_run_inv [OF assms(1) attr_empty_inv])
  then have "bus_ok S" by (simp add: attr_inv_def attr_typed_def)
  then have "event_ok ev" using assms(2) by (auto simp: bus_ok_def)
  then show ?thesis using inv deliver_block [OF _ _ assms(3)] by (simp add: attr_inv_def)
qed

text \<open>Type soundness of the simhash pipeline. In every reachable store, for a profile value that is the text of a
  64-bit number, the search does not fail and no comparison with one of its matches raises: the comparator finds the
  distance the database computed, and it is within the threshold.\<close>

lemma comparator_never_stuck:
  assumes "attr_run (attr_empty A) S" and "length h = 16" and "py_int16 h = Some x" and "0 \<le> x" and "x < 2 ^ 64"
  shows "\<exists>ms. nearest_simhashes primitive h d limit exclude S = Inr ms \<and>
    (\<forall>m\<in>set ms. \<exists>r. compare_simhash rnd name h (vm_simhash_hex m) d = Inr r \<and> cmp_distance r = vm_distance m \<and> cmp_within r)"
proof -
  have inv: "attr_inv S" by (rule attr_run_inv [OF assms(1) attr_empty_inv])
  then have vec: "\<forall>v\<in>set (at_vectors S). signed64 (vs_simhash v)" by (simp add: attr_inv_def attr_typed_def)
  show ?thesis by (rule nearest_within [OF vec assms(2-5)])
qed

text \<open>C23: what a proposal may answer. In every reachable store it raises \<open>IntegrityError\<close> exactly when the two actors
  are one, when the pair was already decided under this method, or when the pair is new and the fresh id is taken: the
  unique constraint counts decided rows, the lookup before the insert only proposed ones.\<close>

theorem proposal_refused_iff:
  assumes "attr_run (attr_empty A) S"
  shows "fst (insert_proposed_linkage i x y m s e now S) = Inl (IntegrityError ''linkage'') \<longleftrightarrow>
    x = y \<or> (\<exists>r\<in>set (at_linkages S). lk_key r = (min x y, max x y, m) \<and> lk_state r \<noteq> Lnk_PROPOSED)
    \<or> tbl_has lk_id i (at_linkages S) \<and> \<not> tbl_has lk_key (min x y, max x y, m) (at_linkages S)"
proof -
  have wf: "lk_wf (at_linkages S)" using attr_run_inv [OF assms attr_empty_inv] by (simp add: attr_inv_def)
  have pair: "sorted_pair x y = (min x y, max x y)" by (simp add: sorted_pair_def min_def max_def)
  let ?f = "find (\<lambda>r. lk_actor_a r = min x y \<and> lk_actor_b r = max x y \<and> lk_method r = m \<and> lk_state r = Lnk_PROPOSED) (at_linkages S)"
  show ?thesis
  proof (cases ?f)
    case None
    then have no: "lk_key r = (min x y, max x y, m) \<Longrightarrow> r \<in> set (at_linkages S) \<Longrightarrow> lk_state r \<noteq> Lnk_PROPOSED" for r
      by (auto simp: find_None_iff_all lk_key_def)
    have lt: "min x y < max x y \<longleftrightarrow> x \<noteq> y" by auto
    have has: "tbl_has lk_key (min x y, max x y, m) (at_linkages S) \<longleftrightarrow>
        (\<exists>r\<in>set (at_linkages S). lk_key r = (min x y, max x y, m) \<and> lk_state r \<noteq> Lnk_PROPOSED)"
      unfolding tbl_has_def image_iff using no by metis
    show ?thesis using has lt None
      by (auto simp: insert_proposed_linkage_def pair insert_linkage_def lk_key_def [abs_def])
  next
    case (Some r)
    then have r: "r \<in> set (at_linkages S)" "lk_key r = (min x y, max x y, m)" "lk_state r = Lnk_PROPOSED"
      using find_proposed by blast+
    have only: "r' = r" if "r' \<in> set (at_linkages S)" "lk_key r' = lk_key r" for r'
      using keyed_eq [of lk_key "at_linkages S" r' r] wf that r(1) by (simp add: lk_wf_def)
    have "lk_actor_a r < lk_actor_b r" using wf r(1) by (simp add: lk_wf_def lk_row_ok_def)
    then have "x \<noteq> y" using r(2) by (auto simp: lk_key_def)
    moreover have "tbl_has lk_key (min x y, max x y, m) (at_linkages S)" using r(1,2) by (force simp: tbl_has_def)
    moreover have "fst (insert_proposed_linkage i x y m s e now S) \<noteq> Inl (IntegrityError ''linkage'')"
      using Some by (simp add: insert_proposed_linkage_def pair Let_def)
    ultimately show ?thesis using only r(2,3) by metis
  qed
qed

text \<open>A proposal for a pair that is still proposed keeps the old row and its id, and is published and audited under
  the fresh id all the same. No linkage has that id, so the verifier that takes the message fails on the foreign key.\<close>

lemma reproposal_names_no_row:
  assumes "r \<in> set (at_linkages S)" and "lk_key r = (min (pv_actor_id env) other, max (pv_actor_id env) other, m)"
    and "lk_state r = Lnk_PROPOSED" and "\<not> tbl_has lk_id i (at_linkages S)" and "get_verifier_result i S = None"
    and "emit_proposal M i ai env other m res lang now S = (Inr (), T)"
  shows "(\<exists>a b s e h. (Ev_PROPOSED i a b m s e now, h) \<in> set (at_bus T)) \<and> get_linkage i T = None
    \<and> fst (record_verifier_result v i c fl st rs now' T) = Inl (IntegrityError ''linkage_verifier_result'')"
proof -
  define e where "e = (case lang of None \<Rightarrow> cmp_evidence res | Some l \<Rightarrow> dict_set ''language'' (Ev_STR l) (cmp_evidence res))"
  let ?x = "pv_actor_id env"
  have pair: "sorted_pair ?x other = (min ?x other, max ?x other)" by (simp add: sorted_pair_def min_def max_def)
  obtain ev where ev: "proposed_envelope i ?x other m (cmp_score res) e now = Inr ev"
    using assms(6) by (cases "proposed_envelope i ?x other m (cmp_score res) e now") (auto simp: emit_proposal_def Let_def e_def [symmetric])
  have ev_eq: "ev = Ev_PROPOSED i (min ?x other) (max ?x other) m (cmp_score res) e now"
    using ev by (simp add: proposed_envelope_def pair split: if_splits)
  obtain r0 where r0: "find (\<lambda>r. lk_actor_a r = min ?x other \<and> lk_actor_b r = max ?x other \<and> lk_method r = m \<and> lk_state r = Lnk_PROPOSED)
      (at_linkages S) = Some r0"
    using assms(1-3) find_None_iff_all [of _ "at_linkages S"] by (fastforce simp: lk_key_def)
  define S1 where "S1 = S\<lparr>at_linkages := tbl_save lk_id (r0\<lparr>lk_score := max (lk_score r0) (cmp_score res), lk_evidence := e\<rparr>) (at_linkages S)\<rparr>"
  have ins: "insert_proposed_linkage i ?x other m (cmp_score res) e now S
      = (Inr (r0\<lparr>lk_score := max (lk_score r0) (cmp_score res), lk_evidence := e\<rparr>), S1)"
    by (simp add: insert_proposed_linkage_def pair r0 Let_def S1_def)
  obtain u S2 where pub: "publish_attr M ev None S1 = (u, S2)" by fastforce
  have u: "u = Inr ()" and em: "emit_attr M None ai ''linkage.proposed'' ''linkage'' (Some i)
         [(''actor_a'', JUuid ?x), (''actor_b'', JUuid other), (''method'', JStr m),
          (''score'', JNum (an_repr M (cmp_score res))), (''distance'', JInt (int (cmp_distance res)))] now S2 = (Inr (), T)"
    using assms(6) by (cases u; simp add: emit_proposal_def Let_def e_def [symmetric] ev ins pub and_then_def)+
  have S2: "S2 = S1\<lparr>at_bus := at_bus S1 @ [(ev, None)]\<rparr>" using pub u by (auto simp: publish_attr_def split: publish_result.splits)
  have T: "at_bus T = at_bus S2" "at_linkages T = at_linkages S2" "at_settled T = at_settled S2"
    using arg_cong [OF em, of snd] other_frame(2,3) linkage_frame(4) by (metis snd_conv)+
  have none: "\<not> tbl_has lk_id i (at_linkages T)" using assms(4) unfolding T(2) S2 S1_def by simp
  have "find (\<lambda>r. st_linkage_id r = i) (at_settled T) = None" using assms(5) by (simp add: T(3) S2 S1_def get_verifier_result_def)
  then have "fst (record_verifier_result v i c fl st rs now' T) = Inl (IntegrityError ''linkage_verifier_result'')"
    using none by (simp add: record_verifier_result_def)
  moreover have "(Ev_PROPOSED i (min ?x other) (max ?x other) m (cmp_score res) e now, None) \<in> set (at_bus T)"
    by (simp add: T(1) S2 ev_eq)
  moreover have "get_linkage i T = None" using none by (simp add: get_linkage_def tbl_get_None_iff)
  ultimately show ?thesis by blast
qed

text \<open>What the verifiers leave alone.\<close>

lemma run_verifiers_linkages: "at_linkages (snd (run_verifiers M V lang i ca cb now vs S)) = at_linkages S"
proof (induction vs arbitrary: S)
  case (Cons x vs)
  obtain v ai where x: "x = (v, ai)" by fastforce
  show ?case
  proof (cases "for_verifier V (vf_name v) lang = None \<or> (vf_requires_language v \<and> lang = None)")
    case True
    then show ?thesis using Cons by (simp add: x)
  next
    case False
    show ?thesis
    proof (cases "vf_verify v ca cb lang")
      case (Inl e)
      then show ?thesis using False Cons by (simp add: x)
    next
      case (Inr r)
      obtain o1 S1 where em: "emit_attr M None ai ''verifier.evaluated'' ''linkage'' (Some i) (evaluated_payload M lang r) now S = (o1, S1)" by fastforce
      then have "at_linkages S1 = at_linkages S" using linkage_frame(4) by (metis snd_conv)
      then show ?thesis using False Inr Cons [of S1]
        by (cases o1; cases "run_verifiers M V lang i ca cb now vs S1") (auto simp: x em and_then_def split: sum.split)
    qed
  qed
qed simp

lemma promote_linkages:
  "at_linkages (snd (promote_to_suspected M i a b c sc ai now S)) = at_linkages (snd (transition_linkage i Lnk_SUSPECTED ''verifier'' (Some (''composite='' @ an_fmt3 M c)) now S))"
proof -
  define nt where "nt = Some (''composite='' @ an_fmt3 M c)"
  obtain o1 S1 where t: "transition_linkage i Lnk_SUSPECTED ''verifier'' nt now S = (o1, S1)" by fastforce
  have rest: "at_linkages (snd (and_then (publish_attr M ev None S1) (\<lambda>_ S2. emit_attr M None k ek sk si pl now S2))) = at_linkages S1" for ev k ek sk si pl
    using linkage_frame(3) [of M ev None S1] by (cases "publish_attr M ev None S1") (auto simp: and_then_def split: sum.split)
  show ?thesis
    unfolding promote_to_suspected_def nt_def [symmetric] Let_def t
    by (cases o1) (auto simp: rest split: exn.split sum.split)
qed

lemma transition_changes:
  assumes "at_linkages (snd (transition_linkage i t d n now S)) \<noteq> at_linkages S"
  shows "\<exists>r. r \<in> set (at_linkages S) \<and> lk_id r = i \<and> t \<in> LEGAL_TRANSITIONS (lk_state r)"
  using assms by (auto simp: transition_linkage_def Let_def dest: tbl_get_SomeD split: option.splits if_splits)

text \<open>The verifier promotes on evidence only. If its evaluation of a proposal changes the linkage table, then the
  verifiers that gave an opinion reached the composite floor on average, the linkage was still proposed, and the
  change is its promotion.\<close>

lemma promotion_needs_floor:
  assumes "at_linkages (snd (evaluate_pair M V vs ids i a b ev now S)) \<noteq> at_linkages S"
  shows "\<exists>results S1 scored r. run_verifiers M V (extract_language ev) i (recent_message_bodies_for_actor a (vt_window_messages V) S)
        (recent_message_bodies_for_actor b (vt_window_messages V) S) now (zip vs (vi_audits ids)) S = (Inr results, S1)
    \<and> scored = filter (\<lambda>r. \<not> vr_skipped r \<and> vr_confidence r > 0) results \<and> scored \<noteq> []
    \<and> vt_composite_floor V \<le> sum_list (map vr_score scored) / real (length scored)
    \<and> r \<in> set (at_linkages S) \<and> lk_id r = i \<and> lk_state r = Lnk_PROPOSED"
proof -
  let ?run = "run_verifiers M V (extract_language ev) i (recent_message_bodies_for_actor a (vt_window_messages V) S)
        (recent_message_bodies_for_actor b (vt_window_messages V) S) now (zip vs (vi_audits ids)) S"
  obtain o1 S1 where run: "?run = (o1, S1)" by fastforce
  have S1: "at_linkages S1 = at_linkages S" using run_verifiers_linkages run by (metis snd_conv)
  show ?thesis
  proof (cases o1)
    case (Inl e)
    then show ?thesis using assms S1 by (simp add: evaluate_pair_def Let_def run and_then_def)
  next
    case (Inr results)
    define scored where "scored = filter (\<lambda>r. \<not> vr_skipped r \<and> vr_confidence r > 0) results"
    define c where "c = sum_list (map vr_score scored) / real (length scored)"
    define st where "st = (if vt_composite_floor V \<le> c then ''suspected'' else ''below_floor'')"
    obtain o2 S2 where rec: "record_verifier_result (vi_result ids) i c (vt_composite_floor V) st results now S1 = (o2, S2)" by fastforce
    have S2: "at_linkages S2 = at_linkages S" using linkage_frame(2) rec S1 by (metis snd_conv)
    have eq: "evaluate_pair M V vs ids i a b ev now S = (if scored = [] then (Inr (), S1) else
        and_then (o2, S2) (\<lambda>_ S2. if \<not> vt_composite_floor V \<le> c then (Inr (), S2) else promote_to_suspected M i a b c scored (vi_promotion ids) now S2))"
      unfolding evaluate_pair_def Let_def run Inr and_then_def prod.case sum.case scored_def [symmetric] c_def [symmetric] st_def [symmetric] rec ..
    have ne: "scored \<noteq> []" using assms S1 unfolding eq by auto
    have "vt_composite_floor V \<le> c" using assms S1 S2 ne unfolding eq by (cases o2) (auto simp: and_then_def split: if_splits)
    moreover have "at_linkages (snd (promote_to_suspected M i a b c scored (vi_promotion ids) now S2)) \<noteq> at_linkages S2"
      using assms ne S2 calculation unfolding eq by (cases o2) (auto simp: and_then_def)
    then obtain r where "r \<in> set (at_linkages S)" "lk_id r = i" "Lnk_SUSPECTED \<in> LEGAL_TRANSITIONS (lk_state r)"
      using transition_changes unfolding promote_linkages S2 by (metis S2)
    moreover from this(3) have "lk_state r = Lnk_PROPOSED" by (cases "lk_state r") auto
    ultimately show ?thesis using run Inr ne unfolding c_def scored_def by blast
  qed
qed

text \<open>One decision request, every outcome.\<close>

lemma decide_linkage_effect:
  assumes "decide_linkage M ids op i reason nt st now S = (x, T)"
  shows "at_linkages T = at_linkages S \<and> persona_rows T = persona_rows S \<and>
    (at_bus T \<noteq> at_bus S \<or> at_linkage_events T \<noteq> at_linkage_events S \<longrightarrow>
    (\<exists>payload entry. {(''decision'', JStr (linkage_state_value st)), (''reason'', JStr reason)} \<subseteq> set payload \<and>
      append_audit (em_env (an_emit M)) (build_audit_row (wi_audit ids) ''eyenet.audit.operator_action''
        (Some (or_user_id op)) ''linkage'' (Some i) payload now (em_ctx (an_emit M))) (at_audit S) = (Inr entry, at_audit T)))"
proof (cases "get_linkage i S")
  case None
  then show ?thesis using assms by (simp add: decide_linkage_def)
next
  case r: (Some r)
  define payload where "payload = [(''decision'', JStr (linkage_state_value st)), (''reason'', JStr reason), (''note'', jopt JStr nt),
             (''actor_a_id'', JUuid (lk_actor_a r)), (''actor_b_id'', JUuid (lk_actor_b r))]
             @ [(''event_id'', JUuid (wi_event ids)), (''subject'', JStr (decision_subject st))]"
  define row where "row = build_audit_row (wi_audit ids) ''eyenet.audit.operator_action'' (Some (or_user_id op)) ''linkage'' (Some i)
      payload now (em_ctx (an_emit M))"
  let ?emit = "emit_attr M (Some (or_user_id op)) (wi_audit ids) ''eyenet.audit.operator_action'' ''linkage'' (Some i) payload now S"
  define persist where "persist = (\<lambda>S1 :: attr_store. S1\<lparr>at_linkage_events := append_event i (decision_subject st) (wi_event ids)
      (Some (uuid_str (or_user_id op))) now (at_linkage_events S1)\<rparr>)"
  define sendit where "sendit = (\<lambda>S2. case decided_envelope st i (lk_actor_a r) (lk_actor_b r) (or_username op) now nt of
      Inl e \<Rightarrow> (Inl e, S2) | Inr ev \<Rightarrow> publish_attr M ev (Some (wi_event ids)) S2)"
  obtain o1 S1 where em: "?emit = (o1, S1)" by fastforce
  obtain o2 S2 where snd_eq: "sendit (persist S1) = (o2, S2)" by fastforce
  have S1: "at_linkages S1 = at_linkages S" "persona_rows S1 = persona_rows S" "at_bus S1 = at_bus S" "attr_logs S1 = attr_logs S"
    using em linkage_frame(4) rows_frame(7) other_frame(2) logs_frame(7) by (metis snd_conv)+
  have S2: "at_linkages S2 = at_linkages S1" "persona_rows S2 = persona_rows S1" "at_audit S2 = at_audit S1"
    using arg_cong [OF snd_eq, of snd]
    by (auto simp: sendit_def persist_def publish_attr_def persona_rows_def split: sum.splits publish_result.splits)
  have T: "T = (if isl o1 then S1 else S2)"
    using assms em snd_eq [unfolded sendit_def]
    unfolding decide_linkage_def r option.case operator_write_def payload_def [symmetric] persist_def [symmetric]
    by (cases o1; cases o2) (auto simp: append_assoc [symmetric] split: exn.splits if_splits)
  show ?thesis
  proof (cases o1)
    case (Inl e)
    then show ?thesis using T S1 by (simp add: attr_logs_def)
  next
    case (Inr u)
    then have "\<exists>entry. append_audit (em_env (an_emit M)) row (at_audit S) = (Inr entry, at_audit S1)"
      using em unfolding emit_attr_def Let_def row_def [symmetric]
      by (auto split: if_splits sum.splits prod.splits)
    moreover have "{(''decision'', JStr (linkage_state_value st)), (''reason'', JStr reason)} \<subseteq> set payload" by (simp add: payload_def)
    ultimately show ?thesis using T S1 S2 Inr unfolding row_def by auto
  qed
qed

text \<open>C24: an operator decision is audited first. No decision request, whether it succeeds, is refused or fails half way,
  touches a linkage or a persona itself; and if it adds an event or publishes anything, then the same call appended to the
  audit log the row that names the operator, the linkage, the decision and the reason.\<close>

theorem decision_is_audited_first:
  assumes "decide_linkage M ids op i reason nt st now S = (x, T)"
  shows "at_linkages T = at_linkages S \<and> persona_rows T = persona_rows S \<and>
    (at_bus T = at_bus S \<and> at_linkage_events T = at_linkage_events S \<or>
     (\<exists>t. audit_log (at_audit T) = audit_log (at_audit S) @ [t]
        \<and> ar_event (al_row (at_log t)) = ''eyenet.audit.operator_action'' \<and> ar_system_user_id (al_row (at_log t)) = Some (or_user_id op)
        \<and> ar_subject_kind (al_row (at_log t)) = ''linkage'' \<and> ar_subject_id (al_row (at_log t)) = Some i \<and> ar_at (al_row (at_log t)) = now
        \<and> {(''decision'', JStr (linkage_state_value st)), (''reason'', JStr reason)} \<subseteq> set (ar_payload (al_row (at_log t)))))"
  using decide_linkage_effect [OF assms] append_audit_row by (fastforce simp: build_audit_row_def)

end
