(* ===== verification/Attribution_Witnesses.thy ===== *)
theory Attribution_Witnesses
  imports Attribution_Properties
begin

text \<open>The properties of the attribution services at concrete runs.\<close>

definition ex_attr :: attr_env where
  "ex_attr = \<lparr>an_emit = \<lparr>em_env = example_env, em_bus_ok = True, em_ctx = example_ctx\<rparr>, an_publish = Pub_OK,
     an_round = (\<lambda>x. x), an_repr = (\<lambda>_. ''1.0''), an_fmt3 = (\<lambda>_. ''1.000'')\<rparr>"

text \<open>Two actors share an indicator; an operator confirms the linkage proposed for it.\<close>

definition ex_indicators :: indicators where
  "ex_indicators = [(2, {''x''}), (3, {''x''})]"

definition ex_proposed :: attr_store where
  "ex_proposed = snd (persist_edges (zip (propose_infra_edges (\<lambda>_. 1) 15 0 ex_indicators) [10]) 5 (attr_empty example_audit0))"

definition ex_row :: linkage_row where
  "ex_row = \<lparr>lk_id = 10, lk_actor_a = 2, lk_actor_b = 3, lk_state = Lnk_PROPOSED, lk_method = ''shared_infra'', lk_score = 1,
     lk_evidence = [(''shared'', Ev_LIST [''x'']), (''shared_count'', Ev_INT 1)], lk_proposed_at = 5,
     lk_decided_at = None, lk_decided_by = None, lk_notes = None\<rparr>"

lemma ex_linkable: "linkable 15 ex_indicators = {''x''}"
  by (auto simp: linkable_def ex_indicators_def doc_freq_def MIN_DF_def)

lemma ex_pairs: "candidate_pairs 15 ex_indicators = [(2, 3)]"
  unfolding candidate_pairs_def ex_linkable by (simp add: ex_indicators_def indicators_of_def Let_def)

lemma ex_score: "infra_score (\<lambda>_. 1) 15 ex_indicators 2 3 = 1"
proof -
  have "0 < idf n n" for n by (rule idf_pos) simp
  then show ?thesis unfolding infra_score_def ex_linkable Let_def by (simp add: ex_indicators_def indicators_of_def doc_freq_def)
qed

lemma ex_edges: "propose_infra_edges (\<lambda>_. 1) 15 0 ex_indicators = [\<lparr>ie_actor_a = 2, ie_actor_b = 3, ie_score = 1, ie_shared = [''x'']\<rparr>]"
  unfolding propose_infra_edges_def ex_pairs ex_linkable
  by (simp add: ex_score) (simp add: ex_indicators_def indicators_of_def MIN_DF_def order_desc_def)

lemma ex_proposed_store: "ex_proposed = attr_empty example_audit0\<lparr>at_linkages := [ex_row]\<rparr>"
  unfolding ex_proposed_def ex_edges
  by (simp add: insert_proposed_linkage_def sorted_pair_def insert_linkage_def attr_empty_def ex_row_def tbl_has_def and_then_def)

lemma ex_proposed_run: "attr_run (attr_empty example_audit0) ex_proposed"
  unfolding ex_proposed_def by (intro r_into_rtranclp attr_step.infra) (auto simp: ex_indicators_def)

definition ex_decided :: attr_store where
  "ex_decided = snd (decide_linkage ex_attr \<lparr>wi_event = 20, wi_audit = 21\<rparr> \<lparr>or_user_id = 7, or_username = ''op''\<rparr> 10 ''reason'' None Lnk_CONFIRMED 6 ex_proposed)"

lemma ex_decided_run: "attr_run (attr_empty example_audit0) ex_decided"
  unfolding ex_decided_def by (rule rtranclp.rtrancl_into_rtrancl [OF ex_proposed_run attr_step.decide])

lemma ex_emit: "\<exists>A. emit_attr ex_attr (Some 7) 21 ''eyenet.audit.operator_action'' ''linkage'' (Some 10) payload 6 ex_proposed = (Inr (), ex_proposed\<lparr>at_audit := A\<rparr>)"
  by (simp add: emit_attr_def ex_attr_def ex_proposed_store attr_empty_def append_audit_def example_audit0_def Let_def tbl_has_def)

lemma ex_decided_bus: "(Ev_DECIDED Lnk_CONFIRMED 10 2 3 ''op'' 6 None, Some 20) \<in> set (at_bus ex_decided)"
proof -
  have g: "get_linkage 10 ex_proposed = Some ex_row" by (simp add: get_linkage_def ex_proposed_store ex_row_def)
  obtain A where A: "emit_attr ex_attr (Some 7) 21 ''eyenet.audit.operator_action'' ''linkage'' (Some 10)
      ([(''decision'', JStr (linkage_state_value Lnk_CONFIRMED)), (''reason'', JStr ''reason''), (''note'', jopt JStr None),
             (''actor_a_id'', JUuid (lk_actor_a ex_row)), (''actor_b_id'', JUuid (lk_actor_b ex_row))]
       @ [(''event_id'', JUuid 20), (''subject'', JStr (decision_subject Lnk_CONFIRMED))]) 6 ex_proposed = (Inr (), ex_proposed\<lparr>at_audit := A\<rparr>)"
    using ex_emit by blast
  have pub: "publish_attr ex_attr ev e S = (Inr (), S\<lparr>at_bus := at_bus S @ [(ev, e)]\<rparr>)" for ev e S
    by (simp add: publish_attr_def ex_attr_def)
  show ?thesis
    unfolding ex_decided_def decide_linkage_def g option.case operator_write_def write_ids.simps operator_ref.simps A prod.case sum.case
    by (simp add: decided_envelope_def sorted_pair_def ex_row_def pub)
qed

definition ex_ids :: graph_ids where
  "ex_ids = \<lparr>gi_node_a = 30, gi_node_b = 31, gi_edge = 32, gi_persona = 33, gi_persona_node = 34, gi_member_edge = (\<lambda>x. 100 + x), gi_audit = 35\<rparr>"

theorem attribution_invariant_witness: "attr_inv ex_decided"
  by (rule attribution_invariant [OF ex_decided_run])

lemma ex_decided_rows: "at_linkages ex_decided = [ex_row] \<and> persona_rows ex_decided = ([], [])"
proof -
  obtain x where x: "decide_linkage ex_attr \<lparr>wi_event = 20, wi_audit = 21\<rparr> \<lparr>or_user_id = 7, or_username = ''op''\<rparr> 10 ''reason'' None
      Lnk_CONFIRMED 6 ex_proposed = (x, ex_decided)"
    unfolding ex_decided_def by (metis prod.collapse)
  show ?thesis
    using decide_linkage_effect [OF x] by (simp add: ex_proposed_store attr_empty_def persona_rows_def)
qed

theorem decision_is_audited_first_witness:
  "at_linkages ex_decided = at_linkages ex_proposed \<and> (\<exists>t. audit_log (at_audit ex_decided) = audit_log example_audit0 @ [t]
     \<and> ar_system_user_id (al_row (at_log t)) = Some 7 \<and> ar_subject_id (al_row (at_log t)) = Some 10)"
proof -
  obtain x where x: "decide_linkage ex_attr \<lparr>wi_event = 20, wi_audit = 21\<rparr> \<lparr>or_user_id = 7, or_username = ''op''\<rparr> 10 ''reason'' None
      Lnk_CONFIRMED 6 ex_proposed = (x, ex_decided)"
    unfolding ex_decided_def by (metis prod.collapse)
  have "at_bus ex_decided \<noteq> at_bus ex_proposed" using ex_decided_bus by (auto simp: ex_proposed_store attr_empty_def)
  moreover have "at_audit ex_proposed = example_audit0" by (simp add: ex_proposed_store attr_empty_def)
  ultimately show ?thesis using decision_is_audited_first [OF x] by fastforce
qed

theorem personas_refine_partition_witness:
  "persona_block (snd (graph_deliver ex_attr ex_ids (Ev_DECIDED Lnk_CONFIRMED 10 2 3 ''op'' 6 None) 8 ex_decided)) 2 = {2, 3}"
proof -
  have p: "at_personas ex_decided = []" using ex_decided_rows by (simp add: persona_rows_def)
  then have "\<not> tbl_has pe_id (gi_persona ex_ids) (at_personas ex_decided)" by (simp add: tbl_has_def)
  from personas_refine_partition [OF ex_decided_run ex_decided_bus this, of ex_attr 8] show ?thesis
    by (simp add: abs_deliver_def merge_blocks_def persona_block_def p insert_commute)
qed

theorem decided_linkage_final_witness:
  "\<exists>r'\<in>set (at_linkages (snd (graph_deliver ex_attr ex_ids (Ev_DECIDED Lnk_CONFIRMED 10 2 3 ''op'' 6 None) 8 ex_decided))).
     lk_id r' = 10 \<and> lk_path Lnk_PROPOSED (lk_state r')"
proof -
  have "\<not> tbl_has pe_id (gi_persona ex_ids) (at_personas ex_decided)" using ex_decided_rows by (simp add: persona_rows_def tbl_has_def)
  then have "attr_step ex_decided (snd (graph_deliver ex_attr ex_ids (Ev_DECIDED Lnk_CONFIRMED 10 2 3 ''op'' 6 None) 8 ex_decided))"
    by (rule attr_step.deliver [OF ex_decided_bus])
  moreover have "ex_row \<in> set (at_linkages ex_decided)" using ex_decided_rows by simp
  moreover have "attr_inv ex_decided" by (rule attr_run_inv [OF ex_decided_run attr_empty_inv])
  ultimately show ?thesis
    using decided_linkage_final [OF _ r_into_rtranclp] by (fastforce simp: lk_moves_def ex_row_def)
qed

theorem proposal_refused_iff_witness:
  "fst (insert_proposed_linkage 5 9 9 ''m'' 1 [] 0 ex_decided) = Inl (IntegrityError ''linkage'')"
  using proposal_refused_iff [OF ex_decided_run] by simp

definition ex_profile :: profile_env where
  "ex_profile = \<lparr>pv_actor_id = 2, pv_version = 1, pv_role_signal = None, pv_role_confidence = 0, pv_stylometric = [],
     pv_lexical = [], pv_derived_at = 3\<rparr>"

definition ex_comparison :: comparison where
  "ex_comparison = \<lparr>cmp_method = ''shared_infra'', cmp_distance = 0, cmp_score = 1, cmp_within = True, cmp_evidence = []\<rparr>"

lemma ex_reproposal: "\<exists>T. emit_proposal ex_attr 11 40 ex_profile 3 ''shared_infra'' ex_comparison None 9 ex_proposed = (Inr (), T)"
  by (simp add: emit_proposal_def ex_profile_def ex_comparison_def proposed_envelope_def sorted_pair_def insert_proposed_linkage_def
      ex_proposed_store attr_empty_def ex_row_def and_then_def publish_attr_def ex_attr_def emit_attr_def append_audit_def
      example_audit0_def tbl_has_def Let_def)

text \<open>A verifier that is sure of itself.\<close>

definition ex_verifier :: verifier where
  "ex_verifier = \<lparr>vf_name = ''general_impostors'', vf_requires_language = False,
     vf_verify = (\<lambda>_ _ _. Inr \<lparr>vr_method = ''general_impostors'', vr_score = 1, vr_confidence = 1, vr_skipped = False, vr_skip_reason = None\<rparr>)\<rparr>"

definition ex_verify_ids :: verify_ids where
  "ex_verify_ids = \<lparr>vi_result = 50, vi_promotion = 51, vi_audits = [52]\<rparr>"

lemma ex_run_verifiers:
  "\<exists>A. run_verifiers ex_attr VerifierThresholds None 10 ca cb 9 [(ex_verifier, 52)] ex_proposed
     = (Inr [\<lparr>vr_method = ''general_impostors'', vr_score = 1, vr_confidence = 1, vr_skipped = False, vr_skip_reason = None\<rparr>], ex_proposed\<lparr>at_audit := A\<rparr>)"
  by (simp add: for_verifier_def VerifierThresholds_def ex_verifier_def ex_proposed_store attr_empty_def and_then_def ex_attr_def emit_attr_def
      append_audit_def example_audit0_def tbl_has_def Let_def)

lemma ex_promoted: "at_linkages (snd (evaluate_pair ex_attr VerifierThresholds [ex_verifier] ex_verify_ids 10 2 3 [] 9 ex_proposed)) \<noteq> at_linkages ex_proposed"
proof -
  let ?r = "\<lparr>vr_method = ''general_impostors'', vr_score = 1, vr_confidence = 1, vr_skipped = False, vr_skip_reason = None\<rparr>"
  have lang: "extract_language [] = None" by (simp add: extract_language_def)
  have zip: "zip [ex_verifier] (vi_audits ex_verify_ids) = [(ex_verifier, 52)]" by (simp add: ex_verify_ids_def)
  obtain A where A: "run_verifiers ex_attr VerifierThresholds None 10 (recent_message_bodies_for_actor 2 (vt_window_messages VerifierThresholds) ex_proposed)
      (recent_message_bodies_for_actor 3 (vt_window_messages VerifierThresholds) ex_proposed) 9 [(ex_verifier, 52)] ex_proposed
      = (Inr [?r], ex_proposed\<lparr>at_audit := A\<rparr>)"
    using ex_run_verifiers by metis
  define S1 where "S1 = ex_proposed\<lparr>at_audit := A\<rparr>"
  have rec: "\<exists>l. record_verifier_result 50 10 1 (3 / 5) ''suspected'' [?r] 9 S1 = (Inr (), S1\<lparr>at_settled := l\<rparr>)"
    by (simp add: record_verifier_result_def S1_def ex_proposed_store attr_empty_def ex_row_def tbl_has_def)
  then obtain l where l: "record_verifier_result 50 10 1 (3 / 5) ''suspected'' [?r] 9 S1 = (Inr (), S1\<lparr>at_settled := l\<rparr>)" by blast
  have eq: "evaluate_pair ex_attr VerifierThresholds [ex_verifier] ex_verify_ids 10 2 3 [] 9 ex_proposed
      = promote_to_suspected ex_attr 10 2 3 1 [?r] 51 9 (S1\<lparr>at_settled := l\<rparr>)"
    unfolding evaluate_pair_def Let_def lang zip A S1_def [symmetric]
    by (simp add: and_then_def l ex_verify_ids_def VerifierThresholds_def)
  have "map lk_state (at_linkages (snd (promote_to_suspected ex_attr 10 2 3 1 [?r] 51 9 (S1\<lparr>at_settled := l\<rparr>)))) = [Lnk_SUSPECTED]"
    unfolding promote_linkages by (simp add: transition_linkage_def S1_def ex_proposed_store attr_empty_def ex_row_def tbl_save_def Let_def)
  moreover have "map lk_state (at_linkages ex_proposed) = [Lnk_PROPOSED]" by (simp add: ex_proposed_store ex_row_def)
  ultimately show ?thesis unfolding eq by (metis linkage_state.distinct(1) list.inject)
qed

end
