(* ===== verification/Auth_Tokens.thy ===== *)
theory Auth_Tokens
  imports Operator_Actions Crews
begin

text \<open>
  Bearer credentials of the API: roles and scopes (\<open>api/auth/_permissions.py\<close>), access and stream tokens
  (\<open>api/auth/_jwt.py\<close>), personal access tokens (\<open>api/auth/_pat.py\<close>) and one-time codes
  (\<open>api/auth/_mfa.py\<close>). PyJWT, pyotp, HMAC and SHA-256 are parameters.
\<close>

section \<open>Roles and scopes\<close>

primrec ROLE_BASELINE :: "system_user_role \<Rightarrow> string set" where
  "ROLE_BASELINE User_ADMIN = {''read:actors'', ''read:personas'', ''read:linkages'', ''read:observations'', ''read:audit'',
     ''read:graph'', ''read:metrics'', ''read:cases'', ''write:actors'', ''write:linkage_decision'', ''write:persona_decision'',
     ''write:identity'', ''write:cases'', ''write:documents'', ''read:sources'', ''write:sources'', ''read:collectors'',
     ''write:collectors'', ''admin:collectors'', ''read:candidates'', ''write:candidates'', ''read:groups'', ''write:groups'',
     ''stream:linkages'', ''stream:personas'', ''stream:audit'', ''stream:control'', ''read:incidents'', ''write:incidents'',
     ''stream:incidents'', ''admin:incident_rules'', ''admin:users'', ''admin:tokens''}"
| "ROLE_BASELINE User_ANALYST = {''read:actors'', ''read:personas'', ''read:linkages'', ''read:observations'', ''read:audit'',
     ''read:graph'', ''read:cases'', ''write:actors'', ''write:linkage_decision'', ''write:persona_decision'',
     ''write:identity'', ''write:cases'', ''write:documents'', ''read:sources'', ''write:sources'', ''read:collectors'',
     ''write:collectors'', ''read:candidates'', ''write:candidates'', ''read:groups'', ''write:groups'',
     ''stream:linkages'', ''stream:personas'', ''read:incidents'', ''write:incidents'', ''stream:incidents''}"
| "ROLE_BASELINE User_VIEWER = {''read:actors'', ''read:personas'', ''read:linkages'', ''read:graph'', ''read:incidents''}"

record user_row =
  us_id :: uuid
  us_username :: string
  us_display_name :: string
  us_email :: "string option"
  us_role :: system_user_role
  us_is_active :: bool
  us_last_login_at :: "time option"
  us_created_at :: time
  us_notes :: "string option"

record scope_row =
  sc_user_id :: uuid
  sc_scope :: string
  sc_granted_at :: time
  sc_granted_by :: uuid

definition resolve_effective_scopes :: "user_row \<Rightarrow> scope_row list \<Rightarrow> grant_row list \<Rightarrow> string set" where
  "resolve_effective_scopes user explicit_grants active_clearance =
     ROLE_BASELINE (us_role user) \<union> sc_scope ` set explicit_grants \<union> (\<lambda>g. clearance_scope_value (gr_scope g)) ` set active_clearance"

text \<open>The request principal; its first two fields are those of the clearance gate.\<close>

record principal = current_user +
  pr_username :: string
  pr_role :: system_user_role
  pr_token_expires_at :: "time option"
  pr_jti :: "uuid option"
  pr_pat_id :: "uuid option"

record stream_principal =
  sp_user_id :: uuid
  sp_username :: string
  sp_role :: system_user_role
  sp_topics :: "string set"
  sp_expires_at :: time

datatype stream_topic = Topic_ATTRIBUTION_LINKAGE | Topic_ATTRIBUTION_PERSONA | Topic_EYENET_AUDIT | Topic_EYENET_CONTROL | Topic_INCIDENT

primrec stream_topic_value :: "stream_topic \<Rightarrow> string" where
  "stream_topic_value Topic_ATTRIBUTION_LINKAGE = ''attribution.linkage''"
| "stream_topic_value Topic_ATTRIBUTION_PERSONA = ''attribution.persona''"
| "stream_topic_value Topic_EYENET_AUDIT = ''eyenet.audit''"
| "stream_topic_value Topic_EYENET_CONTROL = ''eyenet.control''"
| "stream_topic_value Topic_INCIDENT = ''incident.detected''"

primrec STREAM_TOPIC_SCOPE :: "stream_topic \<Rightarrow> string" where
  "STREAM_TOPIC_SCOPE Topic_ATTRIBUTION_LINKAGE = ''stream:linkages''"
| "STREAM_TOPIC_SCOPE Topic_ATTRIBUTION_PERSONA = ''stream:personas''"
| "STREAM_TOPIC_SCOPE Topic_EYENET_AUDIT = ''stream:audit''"
| "STREAM_TOPIC_SCOPE Topic_EYENET_CONTROL = ''stream:control''"
| "STREAM_TOPIC_SCOPE Topic_INCIDENT = ''stream:incidents''"

section \<open>JSON web tokens\<close>

definition ACCESS_TTL :: int where "ACCESS_TTL = seconds 900"
definition REFRESH_TTL :: int where "REFRESH_TTL = days 30"
definition STREAM_TTL :: int where "STREAM_TTL = seconds 900"

record signing_key =
  sk_kid :: string
  sk_private :: bytes

record access_claims =
  ac_user_id :: uuid
  ac_jti :: uuid
  ac_issued_at :: time
  ac_expires_at :: time

record stream_claims =
  sm_user_id :: uuid
  sm_topics :: "string list"
  sm_jti :: uuid
  sm_issued_at :: time
  sm_expires_at :: time

text \<open>
  PyJWT: \<open>encode\<close>; the \<open>kid\<close> of the unverified header (\<open>None\<close> when the token is malformed,
  \<open>Some None\<close> without a string there); \<open>decode\<close> with the algorithm, issuer and required claims of the code,
  at the current time. A claim that \<open>UUID\<close> parses is a \<open>JUuid\<close>.
\<close>

datatype decoded = Dec_EXPIRED | Dec_INVALID | Dec_PAYLOAD "(string \<times> jval) list"

record jwt_lib =
  jl_encode :: "bytes \<Rightarrow> string \<Rightarrow> (string \<times> jval) list \<Rightarrow> string"
  jl_header_kid :: "string \<Rightarrow> string option option"
  jl_decode :: "bytes \<Rightarrow> time \<Rightarrow> string \<Rightarrow> decoded"

text \<open>\<open>int(moment.timestamp())\<close> and \<open>datetime.fromtimestamp\<close>.\<close>

definition unix :: "time \<Rightarrow> int" where
  "unix t = (if t \<ge> 0 then t div 1000000 else - ((- t) div 1000000))"

definition from_unix :: "int \<Rightarrow> time" where
  "from_unix n = seconds n"

definition access_payload :: "uuid \<Rightarrow> uuid \<Rightarrow> time \<Rightarrow> (string \<times> jval) list" where
  "access_payload user_id jti now =
        [(''iss'', JStr ''eyenet''), (''sub'', JUuid user_id), (''jti'', JUuid jti), (''typ'', JStr ''access''),
         (''iat'', JInt (unix now)), (''exp'', JInt (unix (now + ACCESS_TTL)))]"

definition stream_payload :: "uuid \<Rightarrow> string list \<Rightarrow> int \<Rightarrow> uuid \<Rightarrow> time \<Rightarrow> (string \<times> jval) list" where
  "stream_payload user_id topics ttl jti now =
        [(''iss'', JStr ''eyenet''), (''sub'', JUuid user_id), (''jti'', JUuid jti), (''typ'', JStr ''stream''),
         (''topics'', JList (map JStr topics)), (''iat'', JInt (unix now)), (''exp'', JInt (unix (now + ttl)))]"

definition mint_access_token :: "jwt_lib \<Rightarrow> signing_key \<Rightarrow> uuid \<Rightarrow> uuid \<Rightarrow> time \<Rightarrow> string \<times> access_claims" where
  "mint_access_token L sk user_id jti now =
     (jl_encode L (sk_private sk) (sk_kid sk)
        (access_payload user_id jti now),
      \<lparr>ac_user_id = user_id, ac_jti = jti, ac_issued_at = now, ac_expires_at = now + ACCESS_TTL\<rparr>)"

definition mint_stream_token ::
  "jwt_lib \<Rightarrow> signing_key \<Rightarrow> uuid \<Rightarrow> string list \<Rightarrow> int \<Rightarrow> uuid \<Rightarrow> time \<Rightarrow> string \<times> stream_claims" where
  "mint_stream_token L sk user_id topics ttl jti now =
     (jl_encode L (sk_private sk) (sk_kid sk)
        (stream_payload user_id topics ttl jti now),
      \<lparr>sm_user_id = user_id, sm_topics = topics, sm_jti = jti, sm_issued_at = now, sm_expires_at = now + ttl\<rparr>)"

text \<open>The signature half that both decoders share: the key the header names, then \<open>jwt.decode\<close>.\<close>

definition verified_payload :: "jwt_lib \<Rightarrow> (string \<rightharpoonup> bytes) \<Rightarrow> time \<Rightarrow> string \<Rightarrow> exn + (string \<times> jval) list" where
  "verified_payload L verifying_keys now token =
     (case jl_header_kid L token of
        None \<Rightarrow> Inl (JwtError ''malformed_token'')
      | Some None \<Rightarrow> Inl (JwtError ''unknown_kid'')
      | Some (Some kid) \<Rightarrow>
          (case verifying_keys kid of
             None \<Rightarrow> Inl (JwtError ''unknown_kid'')
           | Some pem \<Rightarrow>
               (case jl_decode L pem now token of
                  Dec_EXPIRED \<Rightarrow> Inl (JwtError ''expired_token'')
                | Dec_INVALID \<Rightarrow> Inl (JwtError ''invalid_token'')
                | Dec_PAYLOAD p \<Rightarrow> Inr p)))"

definition claim_uuid :: "(string \<times> jval) list \<Rightarrow> string \<Rightarrow> uuid option" where
  "claim_uuid p k = (case map_of p k of Some (JUuid u) \<Rightarrow> Some u | _ \<Rightarrow> None)"

text \<open>The library has checked that the times are numbers.\<close>

definition claim_time :: "(string \<times> jval) list \<Rightarrow> string \<Rightarrow> time" where
  "claim_time p k = (case map_of p k of Some (JInt n) \<Rightarrow> from_unix n | _ \<Rightarrow> 0)"

definition decode_access_token :: "jwt_lib \<Rightarrow> (string \<rightharpoonup> bytes) \<Rightarrow> time \<Rightarrow> string \<Rightarrow> exn + access_claims" where
  "decode_access_token L verifying_keys now token =
     (case verified_payload L verifying_keys now token of
        Inl e \<Rightarrow> Inl e
      | Inr p \<Rightarrow>
          if map_of p ''typ'' \<noteq> Some (JStr ''access'') then Inl (JwtError ''wrong_token_type'')
          else (case (claim_uuid p ''sub'', claim_uuid p ''jti'') of
                  (Some user_id, Some jti) \<Rightarrow> Inr \<lparr>ac_user_id = user_id, ac_jti = jti,
                     ac_issued_at = claim_time p ''iat'', ac_expires_at = claim_time p ''exp''\<rparr>
                | _ \<Rightarrow> Inl (JwtError ''invalid_token'')))"

definition is_jstr :: "jval \<Rightarrow> bool" where
  "is_jstr v = (case v of JStr s \<Rightarrow> True | _ \<Rightarrow> False)"

definition jstrs :: "jval list \<Rightarrow> string list option" where
  "jstrs vs = (if list_all is_jstr vs then Some (map (\<lambda>v. case v of JStr s \<Rightarrow> s | _ \<Rightarrow> []) vs) else None)"

definition claim_topics :: "(string \<times> jval) list \<Rightarrow> string list option" where
  "claim_topics p = (case map_of p ''topics'' of Some (JList vs) \<Rightarrow> jstrs vs | _ \<Rightarrow> None)"

definition decode_stream_token :: "jwt_lib \<Rightarrow> (string \<rightharpoonup> bytes) \<Rightarrow> time \<Rightarrow> string \<Rightarrow> exn + stream_claims" where
  "decode_stream_token L verifying_keys now token =
     (case verified_payload L verifying_keys now token of
        Inl e \<Rightarrow> Inl e
      | Inr p \<Rightarrow>
          if map_of p ''typ'' \<noteq> Some (JStr ''stream'') then Inl (JwtError ''wrong_token_type'')
          else (case claim_topics p of
                  None \<Rightarrow> Inl (JwtError ''invalid_token'')
                | Some topics \<Rightarrow>
                    (case (claim_uuid p ''sub'', claim_uuid p ''jti'') of
                       (Some user_id, Some jti) \<Rightarrow> Inr \<lparr>sm_user_id = user_id, sm_topics = topics, sm_jti = jti,
                          sm_issued_at = claim_time p ''iat'', sm_expires_at = claim_time p ''exp''\<rparr>
                     | _ \<Rightarrow> Inl (JwtError ''invalid_token''))))"

section \<open>Personal access tokens\<close>

definition TOKEN_PREFIX :: string where "TOKEN_PREFIX = ''eyenet_pat_''"
definition PREFIX_LEN :: nat where "PREFIX_LEN = 22"
definition SECRET_LEN :: nat where "SECRET_LEN = 32"

definition startswith :: "string \<Rightarrow> string \<Rightarrow> bool" where
  "startswith s p \<longleftrightarrow> take (length p) s = p"

text \<open>\<open>_rand\<close> cuts the output of \<open>secrets.token_urlsafe\<close>, given here, to its width.\<close>

definition rand_chars :: "nat \<Rightarrow> string \<Rightarrow> string" where
  "rand_chars n raw = take n raw"

definition mint_pat :: "(bytes \<Rightarrow> string \<Rightarrow> string) \<Rightarrow> bytes \<Rightarrow> string \<Rightarrow> string \<Rightarrow> string \<times> string \<times> string" where
  "mint_pat hmac pepper raw_prefix raw_secret =
     (let prefix = rand_chars PREFIX_LEN raw_prefix; secret = rand_chars SECRET_LEN raw_secret
      in (TOKEN_PREFIX @ prefix @ ''_'' @ secret, prefix, hmac pepper secret))"

definition is_pat :: "string \<Rightarrow> bool" where
  "is_pat token = startswith token TOKEN_PREFIX"

definition parse_pat :: "string \<Rightarrow> (string \<times> string) option" where
  "parse_pat token =
     (if \<not> startswith token TOKEN_PREFIX then None
      else let body = drop (length TOKEN_PREFIX) token in
        if length body \<noteq> PREFIX_LEN + 1 + SECRET_LEN then None
        else if body ! PREFIX_LEN \<noteq> CHR ''_'' then None
        else Some (take PREFIX_LEN body, drop (PREFIX_LEN + 1) body))"

section \<open>One-time codes\<close>

definition is_ascii_digit :: "char \<Rightarrow> bool" where
  "is_ascii_digit c \<longleftrightarrow> (let n = of_char c :: nat in 48 \<le> n \<and> n \<le> 57)"

definition verify_code :: "(string \<Rightarrow> string \<Rightarrow> time \<Rightarrow> bool) \<Rightarrow> string \<Rightarrow> string \<Rightarrow> time \<Rightarrow> bool" where
  "verify_code totp secret code now \<longleftrightarrow> length code = 6 \<and> list_all is_ascii_digit code \<and> totp secret code now"

section \<open>Laws\<close>

text \<open>
  What the documentation of PyJWT promises of a key pair and a payload: the token is no personal access token, names the
  key under \<open>kid\<close> and decodes to the payload until it expires, when the issuer agrees, the required claims
  are there and it was not issued in the future.
\<close>

definition claims_present :: "(string \<times> jval) list \<Rightarrow> bool" where
  "claims_present p \<longleftrightarrow> map_of p ''iss'' = Some (JStr ''eyenet'') \<and> claim_uuid p ''sub'' \<noteq> None \<and> claim_uuid p ''jti'' \<noteq> None"

definition jwt_pair :: "jwt_lib \<Rightarrow> signing_key \<Rightarrow> bytes \<Rightarrow> (string \<times> jval) list \<Rightarrow> bool" where
  "jwt_pair L sk pem p \<longleftrightarrow> (let tok = jl_encode L (sk_private sk) (sk_kid sk) p in
     \<not> is_pat tok \<and> jl_header_kid L tok = Some (Some (sk_kid sk)) \<and>
     (\<forall>now i e. claims_present p \<and> map_of p ''iat'' = Some (JInt i) \<and> map_of p ''exp'' = Some (JInt e) \<and> i \<le> unix now \<longrightarrow>
        jl_decode L pem now tok = (if e \<le> unix now then Dec_EXPIRED else Dec_PAYLOAD p)))"

definition whole_second :: "time \<Rightarrow> time" where
  "whole_second t = from_unix (unix t)"

lemma jwt_payload:
  assumes "jwt_pair L sk pem p" and "keys (sk_kid sk) = Some pem" and "claims_present p"
    and "map_of p ''iat'' = Some (JInt i)" and "map_of p ''exp'' = Some (JInt e)" and "i \<le> unix now"
  shows "verified_payload L keys now (jl_encode L (sk_private sk) (sk_kid sk) p) = (if e \<le> unix now then Inl (JwtError ''expired_token'') else Inr p)"
  using assms by (simp add: jwt_pair_def verified_payload_def Let_def)

lemma jstrs_map [simp]: "jstrs (map JStr xs) = Some xs"
  by (simp add: jstrs_def is_jstr_def list_all_iff comp_def)


lemma unix_mono: "s \<le> t \<Longrightarrow> unix s \<le> unix t"
  by (auto simp: unix_def zdiv_mono1 intro: order_trans [of _ 0])

text \<open>A token is read back as it was minted, its times cut to whole seconds, while its last whole second is ahead.\<close>

lemma access_token_read:
  assumes "jwt_pair L sk pem (access_payload u jti t0)" and "keys (sk_kid sk) = Some pem"
    and "mint_access_token L sk u jti t0 = (tok, c)" and "t0 \<le> now"
  shows "decode_access_token L keys now tok =
    (if unix (t0 + ACCESS_TTL) \<le> unix now then Inl (JwtError ''expired_token'')
     else Inr (c\<lparr>ac_issued_at := whole_second t0, ac_expires_at := whole_second (t0 + ACCESS_TTL)\<rparr>))"
    "decode_stream_token L keys now tok =
    (if unix (t0 + ACCESS_TTL) \<le> unix now then Inl (JwtError ''expired_token'') else Inl (JwtError ''wrong_token_type''))"
    "\<not> is_pat tok"
proof -
  have c: "c = \<lparr>ac_user_id = u, ac_jti = jti, ac_issued_at = t0, ac_expires_at = t0 + ACCESS_TTL\<rparr>"
    and tok: "tok = jl_encode L (sk_private sk) (sk_kid sk) (access_payload u jti t0)"
    using assms(3) by (simp_all add: mint_access_token_def)
  have v: "verified_payload L keys now tok =
      (if unix (t0 + ACCESS_TTL) \<le> unix now then Inl (JwtError ''expired_token'') else Inr (access_payload u jti t0))"
    unfolding tok using unix_mono [OF assms(4)]
    by (intro jwt_payload [where pem = pem, OF assms(1)] assms(2)) (simp_all add: claims_present_def claim_uuid_def access_payload_def)
  show "decode_access_token L keys now tok =
    (if unix (t0 + ACCESS_TTL) \<le> unix now then Inl (JwtError ''expired_token'')
     else Inr (c\<lparr>ac_issued_at := whole_second t0, ac_expires_at := whole_second (t0 + ACCESS_TTL)\<rparr>))"
    by (simp add: decode_access_token_def v c claim_uuid_def claim_time_def whole_second_def access_payload_def)
  show "decode_stream_token L keys now tok =
    (if unix (t0 + ACCESS_TTL) \<le> unix now then Inl (JwtError ''expired_token'') else Inl (JwtError ''wrong_token_type''))"
    by (simp add: decode_stream_token_def v access_payload_def)
  show "\<not> is_pat tok" using assms(1) by (simp add: tok jwt_pair_def Let_def)
qed

lemma stream_token_read:
  assumes "jwt_pair L sk pem (stream_payload u topics ttl jti t0)" and "keys (sk_kid sk) = Some pem"
    and "mint_stream_token L sk u topics ttl jti t0 = (tok, c)" and "t0 \<le> now"
  shows "decode_stream_token L keys now tok =
    (if unix (t0 + ttl) \<le> unix now then Inl (JwtError ''expired_token'')
     else Inr (c\<lparr>sm_issued_at := whole_second t0, sm_expires_at := whole_second (t0 + ttl)\<rparr>))"
    "decode_access_token L keys now tok =
    (if unix (t0 + ttl) \<le> unix now then Inl (JwtError ''expired_token'') else Inl (JwtError ''wrong_token_type''))"
    "\<not> is_pat tok"
proof -
  have c: "c = \<lparr>sm_user_id = u, sm_topics = topics, sm_jti = jti, sm_issued_at = t0, sm_expires_at = t0 + ttl\<rparr>"
    and tok: "tok = jl_encode L (sk_private sk) (sk_kid sk) (stream_payload u topics ttl jti t0)"
    using assms(3) by (simp_all add: mint_stream_token_def)
  have v: "verified_payload L keys now tok =
      (if unix (t0 + ttl) \<le> unix now then Inl (JwtError ''expired_token'') else Inr (stream_payload u topics ttl jti t0))"
    unfolding tok using unix_mono [OF assms(4)]
    by (intro jwt_payload [where pem = pem, OF assms(1)] assms(2)) (simp_all add: claims_present_def claim_uuid_def stream_payload_def)
  show "decode_stream_token L keys now tok =
    (if unix (t0 + ttl) \<le> unix now then Inl (JwtError ''expired_token'')
     else Inr (c\<lparr>sm_issued_at := whole_second t0, sm_expires_at := whole_second (t0 + ttl)\<rparr>))"
    by (simp add: decode_stream_token_def v c claim_uuid_def claim_time_def claim_topics_def whole_second_def stream_payload_def)
  show "decode_access_token L keys now tok =
    (if unix (t0 + ttl) \<le> unix now then Inl (JwtError ''expired_token'') else Inl (JwtError ''wrong_token_type''))"
    by (simp add: decode_access_token_def v stream_payload_def)
  show "\<not> is_pat tok" using assms(1) by (simp add: tok jwt_pair_def Let_def)
qed

lemma parse_mint_pat:
  assumes "PREFIX_LEN \<le> length rp" and "SECRET_LEN \<le> length rs"
  shows "parse_pat (fst (mint_pat hmac pepper rp rs)) = Some (take PREFIX_LEN rp, take SECRET_LEN rs)"
  using assms by (simp add: mint_pat_def parse_pat_def startswith_def rand_chars_def Let_def nth_append)

end
