(* ===== verification/Auth_Store.thy ===== *)
theory Auth_Store
  imports Auth_Tokens
begin

text \<open>
  Accounts, credentials, refresh tokens, the denylist, scopes, one-time challenges and personal access tokens
  (\<open>sqlmodel_repo/auth.py\<close>, \<open>sqlmodel_repo/users.py\<close>) and the cache of resolved authority
  (\<open>api/auth/_cache.py\<close>). Every operation is one transaction; foreign keys are enforced.
\<close>

section \<open>Rows\<close>

record cred_row =
  cd_user_id :: uuid
  cd_password_hash :: string
  cd_password_updated_at :: time
  cd_mfa_secret :: "string option"

record refresh_row =
  rf_token_id :: uuid
  rf_user_id :: uuid
  rf_hash :: string
  rf_issued_at :: time
  rf_expires_at :: time
  rf_revoked_at :: "time option"
  rf_replaced_by :: "uuid option"

record deny_row =
  dn_jti :: uuid
  dn_user_id :: uuid
  dn_denied_at :: time
  dn_expires_at :: time

record mfa_row =
  mf_challenge_id :: uuid
  mf_user_id :: uuid
  mf_issued_at :: time
  mf_expires_at :: time
  mf_consumed_at :: "time option"
  mf_failed_attempts :: nat

record pat_row =
  pt_token_id :: uuid
  pt_user_id :: uuid
  pt_name :: string
  pt_prefix :: string
  pt_hash :: string
  pt_scopes :: "string list"
  pt_created_at :: time
  pt_last_used_at :: "time option"
  pt_expires_at :: "time option"
  pt_revoked_at :: "time option"

text \<open>A cached context with the reading of the monotonic clock at its insertion.\<close>

record auth_context =
  cx_user :: user_row
  cx_scopes :: "string set"
  cx_loaded_at :: time
  cx_cached_at :: time

record auth_store =
  au_users :: "user_row list"
  au_credentials :: "cred_row list"
  au_refresh :: "refresh_row list"
  au_denied :: "deny_row list"
  au_scopes :: "scope_row list"
  au_mfa :: "mfa_row list"
  au_pats :: "pat_row list"
  au_clearance :: clearance_store
  au_cache :: "uuid \<rightharpoonup> auth_context"

definition user_known :: "uuid \<Rightarrow> auth_store \<Rightarrow> bool" where
  "user_known i S = tbl_has us_id i (au_users S)"

section \<open>Accounts\<close>

definition put_system_user ::
  "uuid \<Rightarrow> string \<Rightarrow> string \<Rightarrow> system_user_role \<Rightarrow> time \<Rightarrow> string option \<Rightarrow> bool \<Rightarrow> string option \<Rightarrow> auth_store
   \<Rightarrow> (user_row, auth_store) outcome" where
  "put_system_user i username display_name role created_at email active notes' S =
     (let clash = (\<exists>u\<in>set (au_users S). us_username u = username \<and> us_id u \<noteq> i) in
      case tbl_get us_id i (au_users S) of
        None \<Rightarrow>
          let u = \<lparr>us_id = i, us_username = username, us_display_name = display_name, us_email = email, us_role = role,
                   us_is_active = active, us_last_login_at = None, us_created_at = created_at, us_notes = notes'\<rparr>
          in if clash then (Inl (IntegrityError ''system_user''), S) else (Inr u, S\<lparr>au_users := au_users S @ [u]\<rparr>)
      | Some u0 \<Rightarrow>
          let u = u0\<lparr>us_username := username, us_display_name := display_name, us_role := role, us_email := email,
                    us_is_active := active, us_notes := notes'\<rparr>
          in if clash then (Inl (IntegrityError ''system_user''), S) else (Inr u, S\<lparr>au_users := tbl_save us_id u (au_users S)\<rparr>))"

definition get_system_user_by_id :: "uuid \<Rightarrow> auth_store \<Rightarrow> user_row option" where
  "get_system_user_by_id i S = tbl_get us_id i (au_users S)"

definition get_system_user_by_username :: "string \<Rightarrow> auth_store \<Rightarrow> user_row option" where
  "get_system_user_by_username n S = find (\<lambda>u. us_username u = n) (au_users S)"

definition count_system_users :: "auth_store \<Rightarrow> nat" where
  "count_system_users S = length (au_users S)"

definition record_system_user_login :: "uuid \<Rightarrow> time \<Rightarrow> auth_store \<Rightarrow> (user_row, auth_store) outcome" where
  "record_system_user_login i at' S =
     (case tbl_get us_id i (au_users S) of
        None \<Rightarrow> (Inl (ValueError ''system user not found''), S)
      | Some u \<Rightarrow> let u' = u\<lparr>us_last_login_at := Some at'\<rparr> in (Inr u', S\<lparr>au_users := tbl_save us_id u' (au_users S)\<rparr>))"

section \<open>Credentials\<close>

definition put_credential :: "uuid \<Rightarrow> string \<Rightarrow> time \<Rightarrow> string option \<Rightarrow> auth_store \<Rightarrow> (cred_row, auth_store) outcome" where
  "put_credential i hash updated_at secret S =
     (let c = \<lparr>cd_user_id = i, cd_password_hash = hash, cd_password_updated_at = updated_at, cd_mfa_secret = secret\<rparr> in
      if tbl_has cd_user_id i (au_credentials S) then (Inr c, S\<lparr>au_credentials := tbl_save cd_user_id c (au_credentials S)\<rparr>)
      else if \<not> user_known i S then (Inl (IntegrityError ''system_user_credential''), S)
      else (Inr c, S\<lparr>au_credentials := au_credentials S @ [c]\<rparr>))"

definition get_credential :: "uuid \<Rightarrow> auth_store \<Rightarrow> cred_row option" where
  "get_credential i S = tbl_get cd_user_id i (au_credentials S)"

definition delete_credential :: "uuid \<Rightarrow> auth_store \<Rightarrow> (unit, auth_store) outcome" where
  "delete_credential i S =
     (if \<not> tbl_has cd_user_id i (au_credentials S) then (Inl (ValueError ''credential not found''), S)
      else (Inr (), S\<lparr>au_credentials := tbl_delete cd_user_id i (au_credentials S)\<rparr>))"

section \<open>Refresh tokens\<close>

text \<open>\<open>ck_refresh_token_replaced_implies_revoked\<close> and \<open>ck_refresh_token_revoked_after_issued\<close>.\<close>

definition refresh_checks :: "refresh_row \<Rightarrow> bool" where
  "refresh_checks r \<longleftrightarrow> (rf_replaced_by r = None \<or> rf_revoked_at r \<noteq> None)
     \<and> (case rf_revoked_at r of None \<Rightarrow> True | Some t \<Rightarrow> rf_issued_at r \<le> t)"

definition create_refresh_token :: "uuid \<Rightarrow> uuid \<Rightarrow> string \<Rightarrow> time \<Rightarrow> time \<Rightarrow> auth_store \<Rightarrow> (refresh_row, auth_store) outcome" where
  "create_refresh_token new_id user_id hash issued_at expires_at S =
     (let r = \<lparr>rf_token_id = new_id, rf_user_id = user_id, rf_hash = hash, rf_issued_at = issued_at, rf_expires_at = expires_at,
               rf_revoked_at = None, rf_replaced_by = None\<rparr>
      in if tbl_has rf_token_id new_id (au_refresh S) \<or> tbl_has rf_hash hash (au_refresh S) \<or> \<not> user_known user_id S
         then (Inl (IntegrityError ''refresh_token''), S)
         else (Inr r, S\<lparr>au_refresh := au_refresh S @ [r]\<rparr>))"

definition get_refresh_token :: "uuid \<Rightarrow> auth_store \<Rightarrow> refresh_row option" where
  "get_refresh_token i S = tbl_get rf_token_id i (au_refresh S)"

definition get_refresh_token_by_hash :: "string \<Rightarrow> auth_store \<Rightarrow> refresh_row option" where
  "get_refresh_token_by_hash h S = find (\<lambda>r. rf_hash r = h) (au_refresh S)"

definition revoke_refresh_token :: "uuid \<Rightarrow> time \<Rightarrow> uuid option \<Rightarrow> auth_store \<Rightarrow> (refresh_row, auth_store) outcome" where
  "revoke_refresh_token i revoked_at replaced_by S =
     (case tbl_get rf_token_id i (au_refresh S) of
        None \<Rightarrow> (Inl (ValueError ''refresh_token not found''), S)
      | Some r \<Rightarrow>
          let r' = r\<lparr>rf_revoked_at := Some revoked_at, rf_replaced_by := (case replaced_by of None \<Rightarrow> rf_replaced_by r | Some n \<Rightarrow> Some n)\<rparr>
          in if \<not> refresh_checks r' \<or> (case replaced_by of None \<Rightarrow> False | Some n \<Rightarrow> \<not> tbl_has rf_token_id n (au_refresh S))
             then (Inl (IntegrityError ''refresh_token''), S)
             else (Inr r', S\<lparr>au_refresh := tbl_save rf_token_id r' (au_refresh S)\<rparr>))"

section \<open>Denylist\<close>

definition deny_jwt :: "uuid \<Rightarrow> uuid \<Rightarrow> time \<Rightarrow> time \<Rightarrow> auth_store \<Rightarrow> (deny_row, auth_store) outcome" where
  "deny_jwt jti user_id denied_at expires_at S =
     (case tbl_get dn_jti jti (au_denied S) of
        Some r \<Rightarrow> (Inr r, S)
      | None \<Rightarrow>
          let r = \<lparr>dn_jti = jti, dn_user_id = user_id, dn_denied_at = denied_at, dn_expires_at = expires_at\<rparr>
          in if \<not> user_known user_id S then (Inl (IntegrityError ''jwt_denylist''), S)
             else (Inr r, S\<lparr>au_denied := au_denied S @ [r]\<rparr>))"

definition is_jwt_denylisted :: "uuid \<Rightarrow> auth_store \<Rightarrow> bool" where
  "is_jwt_denylisted jti S = tbl_has dn_jti jti (au_denied S)"

section \<open>Scopes\<close>

definition scope_key :: "scope_row \<Rightarrow> uuid \<times> string" where
  "scope_key r = (sc_user_id r, sc_scope r)"

definition grant_scope :: "uuid \<Rightarrow> string \<Rightarrow> time \<Rightarrow> uuid \<Rightarrow> auth_store \<Rightarrow> (scope_row, auth_store) outcome" where
  "grant_scope user_id scope granted_at granted_by S =
     (case tbl_get scope_key (user_id, scope) (au_scopes S) of
        Some r \<Rightarrow> (Inr r, S)
      | None \<Rightarrow>
          let r = \<lparr>sc_user_id = user_id, sc_scope = scope, sc_granted_at = granted_at, sc_granted_by = granted_by\<rparr>
          in if \<not> user_known user_id S \<or> \<not> user_known granted_by S then (Inl (IntegrityError ''system_user_scope''), S)
             else (Inr r, S\<lparr>au_scopes := au_scopes S @ [r]\<rparr>))"

definition revoke_scope :: "uuid \<Rightarrow> string \<Rightarrow> auth_store \<Rightarrow> (unit, auth_store) outcome" where
  "revoke_scope user_id scope S =
     (if \<not> tbl_has scope_key (user_id, scope) (au_scopes S) then (Inl (ValueError ''scope grant not found''), S)
      else (Inr (), S\<lparr>au_scopes := tbl_delete scope_key (user_id, scope) (au_scopes S)\<rparr>))"

definition list_explicit_scopes :: "uuid \<Rightarrow> auth_store \<Rightarrow> scope_row list" where
  "list_explicit_scopes user_id S = order_asc sc_granted_at (filter (\<lambda>r. sc_user_id r = user_id) (au_scopes S))"

section \<open>One-time challenges\<close>

definition create_mfa_challenge :: "uuid \<Rightarrow> uuid \<Rightarrow> time \<Rightarrow> time \<Rightarrow> auth_store \<Rightarrow> (mfa_row, auth_store) outcome" where
  "create_mfa_challenge new_id user_id issued_at expires_at S =
     (let r = \<lparr>mf_challenge_id = new_id, mf_user_id = user_id, mf_issued_at = issued_at, mf_expires_at = expires_at,
               mf_consumed_at = None, mf_failed_attempts = 0\<rparr>
      in if tbl_has mf_challenge_id new_id (au_mfa S) \<or> \<not> user_known user_id S then (Inl (IntegrityError ''mfa_challenge''), S)
         else (Inr r, S\<lparr>au_mfa := au_mfa S @ [r]\<rparr>))"

definition get_mfa_challenge :: "uuid \<Rightarrow> auth_store \<Rightarrow> mfa_row option" where
  "get_mfa_challenge i S = tbl_get mf_challenge_id i (au_mfa S)"

definition consume_mfa_challenge :: "uuid \<Rightarrow> time \<Rightarrow> auth_store \<Rightarrow> (mfa_row, auth_store) outcome" where
  "consume_mfa_challenge i consumed_at S =
     (case tbl_get mf_challenge_id i (au_mfa S) of
        None \<Rightarrow> (Inl (ValueError ''mfa_challenge not found''), S)
      | Some r \<Rightarrow>
          if mf_consumed_at r \<noteq> None then (Inl (ValueError ''mfa_challenge already consumed''), S)
          else if consumed_at < mf_issued_at r then (Inl (IntegrityError ''mfa_challenge''), S)
          else let r' = r\<lparr>mf_consumed_at := Some consumed_at\<rparr> in (Inr r', S\<lparr>au_mfa := tbl_save mf_challenge_id r' (au_mfa S)\<rparr>))"

definition bump_mfa_challenge_failures :: "uuid \<Rightarrow> auth_store \<Rightarrow> (nat, auth_store) outcome" where
  "bump_mfa_challenge_failures i S =
     (case tbl_get mf_challenge_id i (au_mfa S) of
        None \<Rightarrow> (Inl (ValueError ''mfa_challenge not found''), S)
      | Some r \<Rightarrow> let r' = r\<lparr>mf_failed_attempts := mf_failed_attempts r + 1\<rparr>
                  in (Inr (mf_failed_attempts r'), S\<lparr>au_mfa := tbl_save mf_challenge_id r' (au_mfa S)\<rparr>))"

definition recent_mfa_failure :: "uuid \<Rightarrow> time \<Rightarrow> mfa_row \<Rightarrow> bool" where
  "recent_mfa_failure user_id since r \<longleftrightarrow> mf_user_id r = user_id \<and> since \<le> mf_issued_at r \<and> 0 < mf_failed_attempts r"

definition count_recent_mfa_failures :: "uuid \<Rightarrow> time \<Rightarrow> auth_store \<Rightarrow> nat" where
  "count_recent_mfa_failures user_id since S = length (filter (recent_mfa_failure user_id since) (au_mfa S))"

definition clear_mfa_failures :: "uuid \<Rightarrow> time \<Rightarrow> auth_store \<Rightarrow> nat \<times> auth_store" where
  "clear_mfa_failures user_id since S =
     (rowcount (recent_mfa_failure user_id since) (au_mfa S),
      S\<lparr>au_mfa := tbl_update (recent_mfa_failure user_id since) (\<lambda>r. r\<lparr>mf_failed_attempts := 0\<rparr>) (au_mfa S)\<rparr>)"

section \<open>Personal access tokens\<close>

definition create_personal_access_token ::
  "uuid \<Rightarrow> uuid \<Rightarrow> string \<Rightarrow> string \<Rightarrow> string \<Rightarrow> string list \<Rightarrow> time \<Rightarrow> time option \<Rightarrow> auth_store \<Rightarrow> (pat_row, auth_store) outcome" where
  "create_personal_access_token new_id user_id name pfx hash scopes created_at expires_at S =
     (let r = \<lparr>pt_token_id = new_id, pt_user_id = user_id, pt_name = name, pt_prefix = pfx, pt_hash = hash, pt_scopes = scopes,
               pt_created_at = created_at, pt_last_used_at = None, pt_expires_at = expires_at, pt_revoked_at = None\<rparr>
      in if tbl_has pt_token_id new_id (au_pats S) \<or> tbl_has pt_prefix pfx (au_pats S) \<or> tbl_has pt_hash hash (au_pats S)
            \<or> \<not> user_known user_id S
         then (Inl (IntegrityError ''personal_access_token''), S)
         else (Inr r, S\<lparr>au_pats := au_pats S @ [r]\<rparr>))"

definition get_personal_access_token :: "uuid \<Rightarrow> auth_store \<Rightarrow> pat_row option" where
  "get_personal_access_token i S = tbl_get pt_token_id i (au_pats S)"

definition get_personal_access_token_by_hash :: "string \<Rightarrow> auth_store \<Rightarrow> pat_row option" where
  "get_personal_access_token_by_hash h S = find (\<lambda>r. pt_hash r = h) (au_pats S)"

definition list_personal_access_tokens :: "uuid \<Rightarrow> nat \<Rightarrow> nat \<Rightarrow> auth_store \<Rightarrow> pat_row list" where
  "list_personal_access_tokens user_id limit offset S =
     page offset limit (order_desc (\<lambda>r. (pt_created_at r, pt_token_id r)) (filter (\<lambda>r. pt_user_id r = user_id) (au_pats S)))"

definition count_personal_access_tokens :: "uuid \<Rightarrow> auth_store \<Rightarrow> nat" where
  "count_personal_access_tokens user_id S = length (filter (\<lambda>r. pt_user_id r = user_id) (au_pats S))"

definition revoke_personal_access_token :: "uuid \<Rightarrow> time \<Rightarrow> auth_store \<Rightarrow> (pat_row, auth_store) outcome" where
  "revoke_personal_access_token i revoked_at S =
     (case tbl_get pt_token_id i (au_pats S) of
        None \<Rightarrow> (Inl (ValueError ''personal_access_token not found''), S)
      | Some r \<Rightarrow>
          if pt_revoked_at r \<noteq> None then (Inr r, S)
          else if revoked_at < pt_created_at r then (Inl (IntegrityError ''personal_access_token''), S)
          else let r' = r\<lparr>pt_revoked_at := Some revoked_at\<rparr> in (Inr r', S\<lparr>au_pats := tbl_save pt_token_id r' (au_pats S)\<rparr>))"

definition pat_touchable :: "uuid \<Rightarrow> time \<Rightarrow> pat_row \<Rightarrow> bool" where
  "pat_touchable i now r \<longleftrightarrow> pt_token_id r = i \<and> pt_revoked_at r = None
     \<and> (case pt_last_used_at r of None \<Rightarrow> True | Some t \<Rightarrow> t < now - seconds 60)"

definition touch_pat_last_used :: "uuid \<Rightarrow> time \<Rightarrow> auth_store \<Rightarrow> auth_store" where
  "touch_pat_last_used i now S =
     S\<lparr>au_pats := tbl_update (pat_touchable i now) (\<lambda>r. r\<lparr>pt_last_used_at := Some now\<rparr>) (au_pats S)\<rparr>"

section \<open>Cached authority\<close>

definition load_context :: "uuid \<Rightarrow> time \<Rightarrow> time \<Rightarrow> auth_store \<Rightarrow> auth_context option" where
  "load_context user_id now clk S =
     (case get_system_user_by_id user_id S of
        None \<Rightarrow> None
      | Some u \<Rightarrow>
          if \<not> us_is_active u then None
          else Some \<lparr>cx_user = u, cx_scopes = resolve_effective_scopes u (list_explicit_scopes user_id S)
                       (active_clearance_grants_for user_id now (au_clearance S)), cx_loaded_at = now, cx_cached_at = clk\<rparr>)"

text \<open>
  The cache of \<open>cachetools\<close> returns an entry until its time to live has passed; it may drop any entry earlier. The
  locks only keep concurrent misses from loading twice.
\<close>

definition cache_get :: "int \<Rightarrow> time \<Rightarrow> uuid \<Rightarrow> auth_store \<Rightarrow> auth_context option" where
  "cache_get ttl clk user_id S =
     (case au_cache S user_id of None \<Rightarrow> None | Some c \<Rightarrow> if clk < cx_cached_at c + ttl then Some c else None)"

definition get_or_load :: "int \<Rightarrow> time \<Rightarrow> time \<Rightarrow> uuid \<Rightarrow> auth_store \<Rightarrow> auth_context option \<times> auth_store" where
  "get_or_load ttl now clk user_id S =
     (if ttl \<le> 0 then (load_context user_id now clk S, S)
      else (case cache_get ttl clk user_id S of
              Some c \<Rightarrow> (Some c, S)
            | None \<Rightarrow>
                (case load_context user_id now clk S of
                   None \<Rightarrow> (None, S)
                 | Some c \<Rightarrow> (Some c, S\<lparr>au_cache := (au_cache S)(user_id \<mapsto> c)\<rparr>))))"

definition invalidate :: "uuid \<Rightarrow> auth_store \<Rightarrow> auth_store" where
  "invalidate user_id S = S\<lparr>au_cache := (au_cache S)(user_id := None)\<rparr>"

end
