(* ===== verification/Ed25519_Keys.thy ===== *)
theory Ed25519_Keys
  imports File_Access
begin

text \<open>
  The gate on submitted Ed25519 keys (\<open>crypto/_file_access_signing.py\<close>): point decompression and the
  small-order test, in the integer arithmetic of the code. What the backend rejects after the gate is a parameter.
\<close>

section \<open>The curve\<close>

definition ED25519_P :: int where "ED25519_P = 2 ^ 255 - 19"

text \<open>\<open>pow(b, e, m)\<close>.\<close>

fun pow_mod :: "int \<Rightarrow> nat \<Rightarrow> int \<Rightarrow> int" where
  "pow_mod b e m =
     (if e = 0 then 1 mod m
      else let r = pow_mod (b * b mod m) (e div 2) m in if even e then r else b * r mod m)"

declare pow_mod.simps [simp del]

definition ED25519_D :: int where
  "ED25519_D = (- 121665 * pow_mod 121666 (nat (ED25519_P - 2)) ED25519_P) mod ED25519_P"

definition ED25519_SQRT_M1 :: int where
  "ED25519_SQRT_M1 = pow_mod 2 (nat ((ED25519_P - 1) div 4)) ED25519_P"

text \<open>\<open>int.from_bytes(raw, "little")\<close>.\<close>

fun le_int :: "bytes \<Rightarrow> int" where
  "le_int [] = 0"
| "le_int (b # bs) = uint b + 256 * le_int bs"

definition decode_ed25519_point :: "bytes \<Rightarrow> (int \<times> int) option" where
  "decode_ed25519_point raw =
     (let p = ED25519_P; n = le_int raw; sign = (n div 2 ^ 255) mod 2; y = n mod 2 ^ 255 in
      if p \<le> y then None
      else
        let y2 = y * y mod p; u = (y2 - 1) mod p; v = (ED25519_D * y2 + 1) mod p;
            x2 = u * pow_mod v (nat (p - 2)) p mod p;
            x0 = pow_mod x2 (nat ((p + 3) div 8)) p;
            x1 = (if (x0 * x0 - x2) mod p \<noteq> 0 then x0 * ED25519_SQRT_M1 mod p else x0)
        in if (x1 * x1 - x2) mod p \<noteq> 0 then None
           else if x1 = 0 \<and> sign = 1 then None
           else Some (if x1 mod 2 \<noteq> sign then (p - x1) mod p else x1, y))"

type_synonym extended_point = "int \<times> int \<times> int \<times> int"

definition ed_double :: "extended_point \<Rightarrow> extended_point" where
  "ed_double pt =
     (case pt of (x1, y1, z1, t1) \<Rightarrow>
        let p = ED25519_P; d2 = 2 * ED25519_D mod p;
            a = (y1 - x1) * (y1 - x1) mod p; b = (y1 + x1) * (y1 + x1) mod p; c = t1 * d2 * t1 mod p; e0 = 2 * z1 * z1 mod p;
            e = (b - a) mod p; f = (e0 - c) mod p; g = (e0 + c) mod p; h = (b + a) mod p
        in (e * f mod p, g * h mod p, f * g mod p, e * h mod p))"

definition ed25519_is_small_order :: "int \<times> int \<Rightarrow> bool" where
  "ed25519_is_small_order point =
     (let p = ED25519_P; (x, y) = point; (X, Y, Z, T) = ed_double (ed_double (ed_double (x mod p, y mod p, 1, x * y mod p)))
      in X mod p = 0 \<and> (Y - Z) mod p = 0)"

definition load_ed25519_public_key :: "(bytes \<Rightarrow> bool) \<Rightarrow> bytes \<Rightarrow> bytes option" where
  "load_ed25519_public_key backend_accepts raw =
     (if length raw \<noteq> 32 then None
      else (case decode_ed25519_point raw of
              None \<Rightarrow> None
            | Some point \<Rightarrow> if ed25519_is_small_order point then None else if backend_accepts raw then Some raw else None))"

section \<open>Arithmetic of the gate\<close>

lemma pow_mod_power: "pow_mod b e m = b ^ e mod m"
proof (induction b e m rule: pow_mod.induct)
  case (1 b e m)
  show ?case
  proof (cases "e = 0")
    case True
    then show ?thesis by (simp add: pow_mod.simps)
  next
    case False
    have IH: "pow_mod (b * b mod m) (e div 2) m = (b * b) ^ (e div 2) mod m"
      using 1 [OF False] by (simp add: power_mod)
    have sq: "(b * b) ^ (e div 2) = b ^ (2 * (e div 2))" by (simp add: power_mult power2_eq_square)
    show ?thesis
    proof (cases "even e")
      case True
      then show ?thesis using False IH sq by (simp add: pow_mod.simps [of b e])
    next
      case odd: False
      then have "b ^ e = b * b ^ (2 * (e div 2))"
        by (metis odd_two_times_div_two_succ power_Suc Suc_eq_plus1)
      then show ?thesis using False odd IH sq by (simp add: pow_mod.simps [of b e] mod_mult_right_eq)
    qed
  qed
qed

text \<open>Congruence modulo the field prime.\<close>

definition cong_p :: "int \<Rightarrow> int \<Rightarrow> bool" where
  "cong_p a b \<longleftrightarrow> a mod ED25519_P = b mod ED25519_P"

lemma cong_p_dvd: "cong_p a b \<longleftrightarrow> ED25519_P dvd a - b"
  by (simp add: cong_p_def mod_eq_dvd_iff)

lemma cong_p_mod [simp]: "cong_p (a mod ED25519_P) b \<longleftrightarrow> cong_p a b" "cong_p a (b mod ED25519_P) \<longleftrightarrow> cong_p a b"
  by (simp_all add: cong_p_def)

lemma cong_p_refl [simp]: "cong_p a a"
  by (simp add: cong_p_def)

lemma cong_p_sym: "cong_p a b \<Longrightarrow> cong_p b a"
  by (simp add: cong_p_def)

lemma cong_p_trans [trans]: "cong_p a b \<Longrightarrow> cong_p b c \<Longrightarrow> cong_p a c"
  by (simp add: cong_p_def)

lemma cong_p_mult: "cong_p a b \<Longrightarrow> cong_p c d \<Longrightarrow> cong_p (a * c) (b * d)"
  unfolding cong_p_def by (rule mod_mult_cong)

lemma cong_p_add: "cong_p a b \<Longrightarrow> cong_p c d \<Longrightarrow> cong_p (a + c) (b + d)"
  unfolding cong_p_def by (rule mod_add_cong)

lemma cong_p_diff: "cong_p a b \<Longrightarrow> cong_p c d \<Longrightarrow> cong_p (a - c) (b - d)"
  unfolding cong_p_def by (rule mod_diff_cong)

text \<open>
  The extended coordinates of an affine point, and doubling on the twisted Edwards curve of RFC 8032 stated without
  division: \<open>x' (1 + d x y x y) = 2 x y\<close> and \<open>y' (1 - d x y x y) = x x + y y\<close>.
\<close>

definition represents :: "extended_point \<Rightarrow> int \<times> int \<Rightarrow> bool" where
  "represents pt a = (case pt of (X, Y, Z, T) \<Rightarrow> case a of (x, y) \<Rightarrow>
     cong_p X (x * Z) \<and> cong_p Y (y * Z) \<and> cong_p T (x * y * Z))"

definition doubled :: "int \<times> int \<Rightarrow> int \<times> int \<Rightarrow> bool" where
  "doubled a b = (case a of (x, y) \<Rightarrow> case b of (x', y') \<Rightarrow>
     cong_p (x' * (1 + ED25519_D * (x * y) * (x * y))) (2 * (x * y))
     \<and> cong_p (y' * (1 - ED25519_D * (x * y) * (x * y))) (x * x + y * y))"

lemma ed_double_cong:
  fixes X Y Z T :: int
  defines "b \<equiv> (Y + X) * (Y + X)" and "a \<equiv> (Y - X) * (Y - X)" and "c \<equiv> T * (2 * ED25519_D) * T" and "e0 \<equiv> 2 * Z * Z"
  obtains X3 Y3 Z3 T3 where "ed_double (X, Y, Z, T) = (X3, Y3, Z3, T3)"
    and "cong_p X3 ((b - a) * (e0 - c))" and "cong_p Y3 ((e0 + c) * (b + a))"
    and "cong_p Z3 ((e0 - c) * (e0 + c))" and "cong_p T3 ((b - a) * (b + a))"
proof
  show "ed_double (X, Y, Z, T) = (fst (ed_double (X, Y, Z, T)), fst (snd (ed_double (X, Y, Z, T))),
      fst (snd (snd (ed_double (X, Y, Z, T)))), snd (snd (snd (ed_double (X, Y, Z, T)))))" by simp
  have c: "cong_p (T * (2 * ED25519_D mod ED25519_P) * T mod ED25519_P) c"
    unfolding c_def cong_p_mod by (intro cong_p_mult cong_p_refl) simp
  have a: "cong_p ((Y - X) * (Y - X) mod ED25519_P) a" and b: "cong_p ((Y + X) * (Y + X) mod ED25519_P) b"
    and e: "cong_p (2 * Z * Z mod ED25519_P) e0" by (simp_all add: a_def b_def e0_def)
  show "cong_p (fst (ed_double (X, Y, Z, T))) ((b - a) * (e0 - c))"
    "cong_p (fst (snd (ed_double (X, Y, Z, T)))) ((e0 + c) * (b + a))"
    "cong_p (fst (snd (snd (ed_double (X, Y, Z, T))))) ((e0 - c) * (e0 + c))"
    "cong_p (snd (snd (snd (ed_double (X, Y, Z, T))))) ((b - a) * (b + a))"
    unfolding ed_double_def Let_def prod.case fst_conv snd_conv cong_p_mod
    by (intro cong_p_mult cong_p_diff [OF b a] cong_p_diff [OF e c] cong_p_add [OF b a] cong_p_add [OF e c]; simp add: cong_p_diff [OF b a] cong_p_diff [OF e c] cong_p_add [OF b a] cong_p_add [OF e c])+
qed

lemma ed_double_doubled:
  assumes r: "represents (X, Y, Z, T) (x, y)" and d: "doubled (x, y) (x', y')"
  shows "represents (ed_double (X, Y, Z, T)) (x', y')"
proof -
  define k where "k = ED25519_D * (x * y) * (x * y)"
  define W where "W = Z * Z"
  have X: "cong_p X (x * Z)" and Y: "cong_p Y (y * Z)" and T: "cong_p T (x * y * Z)"
    using r by (simp_all add: represents_def)
  have x': "cong_p (x' * (1 + k)) (2 * (x * y))" and y': "cong_p (y' * (1 - k)) (x * x + y * y)"
    using d by (simp_all add: doubled_def k_def)
  let ?a = "(Y - X) * (Y - X)" and ?b = "(Y + X) * (Y + X)" and ?c = "T * (2 * ED25519_D) * T" and ?e0 = "2 * Z * Z"
  have "cong_p (?b - ?a) ((y * Z + x * Z) * (y * Z + x * Z) - (y * Z - x * Z) * (y * Z - x * Z))"
    by (intro cong_p_diff cong_p_mult cong_p_add X Y)
  then have e: "cong_p (?b - ?a) (4 * (x * y) * W)" by (simp add: W_def algebra_simps)
  have "cong_p (?b + ?a) ((y * Z + x * Z) * (y * Z + x * Z) + (y * Z - x * Z) * (y * Z - x * Z))"
    by (intro cong_p_diff cong_p_mult cong_p_add X Y)
  then have h: "cong_p (?b + ?a) (2 * (x * x + y * y) * W)" by (simp add: W_def algebra_simps)
  have c: "cong_p ?c ((x * y * Z) * (2 * ED25519_D) * (x * y * Z))"
    by (intro cong_p_mult T cong_p_refl)
  have "cong_p (?e0 - ?c) (2 * Z * Z - (x * y * Z) * (2 * ED25519_D) * (x * y * Z))"
    by (intro cong_p_diff c cong_p_refl)
  then have f: "cong_p (?e0 - ?c) (2 * W * (1 - k))" by (simp add: W_def k_def algebra_simps)
  have "cong_p (?e0 + ?c) (2 * Z * Z + (x * y * Z) * (2 * ED25519_D) * (x * y * Z))"
    by (intro cong_p_add c cong_p_refl)
  then have g: "cong_p (?e0 + ?c) (2 * W * (1 + k))" by (simp add: W_def k_def algebra_simps)
  have fg: "cong_p ((?e0 - ?c) * (?e0 + ?c)) (2 * W * (1 - k) * (2 * W * (1 + k)))" by (intro cong_p_mult f g)
  have "cong_p ((?b - ?a) * (?e0 - ?c)) (4 * (x * y) * W * (2 * W * (1 - k)))" by (intro cong_p_mult e f)
  also have "4 * (x * y) * W * (2 * W * (1 - k)) = 2 * (x * y) * (4 * W * W * (1 - k))" by (simp add: algebra_simps)
  also have "cong_p \<dots> (x' * (1 + k) * (4 * W * W * (1 - k)))" by (intro cong_p_mult cong_p_refl cong_p_sym [OF x'])
  also have "x' * (1 + k) * (4 * W * W * (1 - k)) = x' * (2 * W * (1 - k) * (2 * W * (1 + k)))" by (simp add: algebra_simps)
  also have "cong_p \<dots> (x' * ((?e0 - ?c) * (?e0 + ?c)))" by (intro cong_p_mult cong_p_refl cong_p_sym [OF fg])
  finally have X3: "cong_p ((?b - ?a) * (?e0 - ?c)) (x' * ((?e0 - ?c) * (?e0 + ?c)))" .
  have "cong_p ((?e0 + ?c) * (?b + ?a)) (2 * W * (1 + k) * (2 * (x * x + y * y) * W))" by (intro cong_p_mult g h)
  also have "2 * W * (1 + k) * (2 * (x * x + y * y) * W) = (x * x + y * y) * (4 * W * W * (1 + k))" by (simp add: algebra_simps)
  also have "cong_p \<dots> (y' * (1 - k) * (4 * W * W * (1 + k)))" by (intro cong_p_mult cong_p_refl cong_p_sym [OF y'])
  also have "y' * (1 - k) * (4 * W * W * (1 + k)) = y' * (2 * W * (1 - k) * (2 * W * (1 + k)))" by (simp add: algebra_simps)
  also have "cong_p \<dots> (y' * ((?e0 - ?c) * (?e0 + ?c)))" by (intro cong_p_mult cong_p_refl cong_p_sym [OF fg])
  finally have Y3: "cong_p ((?e0 + ?c) * (?b + ?a)) (y' * ((?e0 - ?c) * (?e0 + ?c)))" .
  have "cong_p ((?b - ?a) * (?b + ?a)) (4 * (x * y) * W * (2 * (x * x + y * y) * W))" by (intro cong_p_mult e h)
  also have "4 * (x * y) * W * (2 * (x * x + y * y) * W) = 2 * (x * y) * ((x * x + y * y) * (4 * W * W))" by (simp add: algebra_simps)
  also have "cong_p \<dots> (x' * (1 + k) * (y' * (1 - k) * (4 * W * W)))"
    by (intro cong_p_mult cong_p_refl cong_p_sym [OF x'] cong_p_sym [OF y'])
  also have "x' * (1 + k) * (y' * (1 - k) * (4 * W * W)) = x' * y' * (2 * W * (1 - k) * (2 * W * (1 + k)))" by (simp add: algebra_simps)
  also have "cong_p \<dots> (x' * y' * ((?e0 - ?c) * (?e0 + ?c)))" by (intro cong_p_mult cong_p_refl cong_p_sym [OF fg])
  finally have T3: "cong_p ((?b - ?a) * (?b + ?a)) (x' * y' * ((?e0 - ?c) * (?e0 + ?c)))" .
  obtain X3 Y3 Z3 T3 where eq: "ed_double (X, Y, Z, T) = (X3, Y3, Z3, T3)"
    and cX: "cong_p X3 ((?b - ?a) * (?e0 - ?c))" and cY: "cong_p Y3 ((?e0 + ?c) * (?b + ?a))"
    and cZ: "cong_p Z3 ((?e0 - ?c) * (?e0 + ?c))" and cT: "cong_p T3 ((?b - ?a) * (?b + ?a))"
    by (rule ed_double_cong)
  have Z: "cong_p (q * ((?e0 - ?c) * (?e0 + ?c))) (q * Z3)" for q by (intro cong_p_mult cong_p_refl cong_p_sym [OF cZ])
  show ?thesis
    unfolding eq represents_def prod.case
    using cong_p_trans [OF cX cong_p_trans [OF X3 Z]] cong_p_trans [OF cY cong_p_trans [OF Y3 Z]]
      cong_p_trans [OF cT cong_p_trans [OF T3 Z]] by simp
qed

lemma represents_affine: "represents (x mod ED25519_P, y mod ED25519_P, 1, x * y mod ED25519_P) (x, y)"
  by (simp add: represents_def)

lemma eightfold_small_order:
  assumes "doubled P P2" and "doubled P2 P4" and "doubled P4 (x8, y8)" and x8: "cong_p x8 0" and y8: "cong_p y8 1"
  shows "ed25519_is_small_order P"
proof -
  obtain x y where P: "P = (x, y)" by (cases P)
  have step: "represents (ed_double pt) b" if "represents pt a" and "doubled a b" for pt a b
    using that ed_double_doubled by (cases pt, cases a, cases b) blast
  let ?pt = "ed_double (ed_double (ed_double (x mod ED25519_P, y mod ED25519_P, 1, x * y mod ED25519_P)))"
  obtain X Y Z T where pt: "?pt = (X, Y, Z, T)" by (cases ?pt) auto
  have "represents ?pt (x8, y8)"
    using assms(1-3) unfolding P by (intro step [OF step [OF step [OF represents_affine]]])
  then have X: "cong_p X (x8 * Z)" and Y: "cong_p Y (y8 * Z)" unfolding pt by (simp_all add: represents_def)
  have "cong_p (x8 * Z) (0 * Z)" and "cong_p (y8 * Z) (1 * Z)" by (intro cong_p_mult x8 y8 cong_p_refl)+
  then have "cong_p X 0" and "cong_p Y Z" using X Y cong_p_trans by fastforce+
  then show ?thesis
    unfolding P ed25519_is_small_order_def Let_def prod.case pt by (auto simp: cong_p_def mod_eq_dvd_iff)
qed

text \<open>Decompression accepts one encoding of a point only.\<close>

lemma le_int_bound: "0 \<le> le_int bs \<and> le_int bs < 256 ^ length bs"
proof (induction bs)
  case (Cons b bs)
  have "0 \<le> uint b" and "uint b < 256" using uint_bounded [of b] by simp_all
  with Cons show ?case by auto
qed simp

lemma le_int_inj: "length bs = length cs \<Longrightarrow> le_int bs = le_int cs \<Longrightarrow> bs = cs"
proof (induction bs cs rule: list_induct2)
  case (Cons b bs c cs)
  have "uint b + 256 * le_int bs = uint c + 256 * le_int cs" using Cons.prems by simp
  moreover have "0 \<le> uint b" "uint b < 256" "0 \<le> uint c" "uint c < 256" using uint_bounded [of b] uint_bounded [of c] by simp_all
  moreover have "(x + 256 * m) mod 256 = x" if "0 \<le> x" "x < 256" for x m :: int using that by simp
  ultimately have "uint b = uint c" by metis
  moreover from this have "le_int bs = le_int cs" using \<open>uint b + 256 * le_int bs = uint c + 256 * le_int cs\<close> by simp
  ultimately show ?case using Cons.IH by (simp add: word_uint_eq_iff)
qed simp

lemma decode_canonical:
  assumes "length raw = 32" and "decode_ed25519_point raw = Some (x, y)"
  shows "le_int raw = y + 2 ^ 255 * (x mod 2) \<and> 0 \<le> x \<and> x < ED25519_P \<and> 0 \<le> y \<and> y < ED25519_P"
proof -
  let ?n = "le_int raw"
  have b: "0 \<le> ?n" "?n < 2 ^ 256" using le_int_bound [of raw] assms(1) by simp_all
  have "?n div 2 ^ 255 < 2" using b(2) by (simp add: div_less_iff_less_mult)
  moreover have "0 \<le> ?n div 2 ^ 255" using b(1) by (simp add: pos_imp_zdiv_nonneg_iff)
  ultimately have sg: "?n div 2 ^ 255 mod 2 = ?n div 2 ^ 255" by simp
  have p: "ED25519_P > 0" "odd ED25519_P" by (simp_all add: ED25519_P_def)
  obtain x1 where x1: "0 \<le> x1" "x1 < ED25519_P" and y: "y = ?n mod 2 ^ 255" "y < ED25519_P"
    and z: "\<not> (x1 = 0 \<and> ?n div 2 ^ 255 = 1)"
    and x: "x = (if x1 mod 2 \<noteq> ?n div 2 ^ 255 then (ED25519_P - x1) mod ED25519_P else x1)"
  proof -
    define x2 where "x2 = ((?n mod 2 ^ 255 * (?n mod 2 ^ 255) mod ED25519_P - 1) mod ED25519_P) *
      pow_mod ((ED25519_D * (?n mod 2 ^ 255 * (?n mod 2 ^ 255) mod ED25519_P) + 1) mod ED25519_P) (nat (ED25519_P - 2)) ED25519_P mod ED25519_P"
    define x0 where "x0 = pow_mod x2 (nat ((ED25519_P + 3) div 8)) ED25519_P"
    define x1 where "x1 = (if (x0 * x0 - x2) mod ED25519_P \<noteq> 0 then x0 * ED25519_SQRT_M1 mod ED25519_P else x0)"
    have "0 \<le> x1" "x1 < ED25519_P" using p(1) by (auto simp: x1_def x0_def pow_mod_power)
    moreover have "(if ED25519_P \<le> ?n mod 2 ^ 255 then None
      else if (x1 * x1 - x2) mod ED25519_P \<noteq> 0 then None
      else if x1 = 0 \<and> ?n div 2 ^ 255 = 1 then None
      else Some (if x1 mod 2 \<noteq> ?n div 2 ^ 255 then (ED25519_P - x1) mod ED25519_P else x1, ?n mod 2 ^ 255)) = Some (x, y)"
      using assms(2) unfolding decode_ed25519_point_def Let_def sg x1_def x0_def x2_def .
    ultimately show thesis by (intro that) (auto split: if_splits)
  qed
  have bit: "?n div 2 ^ 255 = 0 \<or> ?n div 2 ^ 255 = 1"
    using \<open>?n div 2 ^ 255 < 2\<close> \<open>0 \<le> ?n div 2 ^ 255\<close> by linarith
  have "x mod 2 = ?n div 2 ^ 255"
  proof (cases "x1 mod 2 = ?n div 2 ^ 255")
    case False
    then have "x1 \<noteq> 0" using z bit by auto
    then have "(ED25519_P - x1) mod ED25519_P = ED25519_P - x1" using x1 by (intro mod_pos_pos_trivial) simp_all
    then show ?thesis using False x p(2) bit by (auto simp: mod_2_eq_odd split: if_splits)
  qed (simp add: x)
  then have "?n = y + 2 ^ 255 * (x mod 2)" unfolding y(1) by (simp only: mod_mult_div_eq)
  moreover have "0 \<le> x" "x < ED25519_P"
  proof -
    have "0 \<le> (ED25519_P - x1) mod ED25519_P" "(ED25519_P - x1) mod ED25519_P < ED25519_P"
      using p(1) by (rule pos_mod_sign, intro pos_mod_bound)
    then show "0 \<le> x" "x < ED25519_P" using x1 by (cases "x1 mod 2 \<noteq> ?n div 2 ^ 255"; simp only: x if_True if_False simp_thms)+
  qed
  moreover have "0 \<le> y" unfolding y(1) by (rule pos_mod_sign) simp
  ultimately show ?thesis using y(2) by blast
qed

section \<open>Properties\<close>

text \<open>A submitted key whose point has order dividing eight is refused, whatever the backend would say: if three
  doublings on the curve of RFC 8032 lead from the decoded point to the neutral element, no key is loaded.\<close>

lemma small_order_key_refused:
  assumes "decode_ed25519_point raw = Some P" and "doubled P P2" and "doubled P2 P4" and "doubled P4 (x8, y8)"
    and "cong_p x8 0" and "cong_p y8 1"
  shows "load_ed25519_public_key backend_accepts raw = None"
  using eightfold_small_order [OF assms(2-6)] assms(1) by (simp add: load_ed25519_public_key_def)

definition example_torsion_key :: bytes where
  "example_torsion_key = 0xEC # replicate 30 0xFF @ [0x7F]"

lemma le_int_ff: "le_int (replicate n 0xFF @ cs) = 256 ^ n - 1 + 256 ^ n * le_int cs"
  proof (induction n)
    case (Suc n)
    have "uint (0xFF :: byte) = 255" by simp
    with Suc show ?case by (simp add: algebra_simps del: uint_bintrunc)
  qed simp

lemma torsion_tail: "le_int (replicate 30 0xFF @ [0x7F]) = 256 ^ 30 - 1 + 256 ^ 30 * 127" unfolding le_int_ff by simp

lemma torsion_int: "le_int example_torsion_key = ED25519_P - 1" unfolding example_torsion_key_def le_int.simps ED25519_P_def torsion_tail by simp

lemma minus_one_sq: "(ED25519_P - 1) * (ED25519_P - 1) mod ED25519_P = 1" by (simp add: ED25519_P_def)

lemma minus_one_split: "(ED25519_P - 1) div 2 ^ 255 = 0" "(ED25519_P - 1) mod 2 ^ 255 = ED25519_P - 1" by (simp_all add: ED25519_P_def)

lemma sqrt_exp_pos: "nat ((ED25519_P + 3) div 8) \<noteq> 0" by (simp add: ED25519_P_def)

lemma zero_sqrt_exp: "(0 :: int) ^ nat ((ED25519_P + 3) div 8) = 0" using sqrt_exp_pos by (cases "nat ((ED25519_P + 3) div 8)") simp_all

lemma minus_one_small: "(ED25519_P \<le> ED25519_P - 1) = False" by simp

lemma example_torsion: "decode_ed25519_point example_torsion_key = Some (0, ED25519_P - 1)"
 unfolding decode_ed25519_point_def Let_def torsion_int minus_one_split minus_one_sq pow_mod_power
 by (simp only: diff_self mod_0 mult_zero_left zero_sqrt_exp minus_one_small if_False simp_thms zero_neq_one)

text \<open>Decompression accepts only the canonical encoding: the 32 bytes are the coordinate \<open>y\<close> below the field
  prime with the parity of \<open>x\<close> in the top bit, so no two encodings decode to one point.\<close>

lemma one_encoding_per_point:
  assumes "length raw = 32" and "length raw' = 32"
    and "decode_ed25519_point raw = Some P" and "decode_ed25519_point raw' = Some P"
  shows "raw' = raw \<and> le_int raw = snd P + 2 ^ 255 * (fst P mod 2) \<and> 0 \<le> snd P \<and> snd P < ED25519_P"
proof -
  obtain x y where P: "P = (x, y)" by (cases P)
  have "le_int raw' = le_int raw" using decode_canonical assms unfolding P by metis
  then have "raw' = raw" using assms(1,2) by (intro le_int_inj) simp_all
  then show ?thesis using decode_canonical [of raw x y] assms unfolding P by simp
qed

end
