(* ===== verification/Auth_Handlers.thy ===== *)
theory Auth_Handlers
  imports Auth_Store Ed25519_Keys
begin

text \<open>
  Authentication of a request (\<open>api/deps.py\<close>) and the handlers under \<open>api/v1/auth\<close>: login with its
  second factor, refresh, logout, personal access tokens, stream tokens, enrolment and signing keys. A handler reads the
  clock once here; the delay that pads a refusal is left out. Argon2, TOTP, Fernet, HMAC, SHA-256 and PyJWT are fields
  of the environment.
\<close>

section \<open>Environment\<close>

record auth_env =
  ae_emit :: emit_env
  ae_jwt :: jwt_lib
  ae_signing :: signing_key
  ae_verifying :: "string \<rightharpoonup> bytes"
  ae_hmac :: "bytes \<Rightarrow> string \<Rightarrow> string"
  ae_pepper :: bytes
  ae_sha256_hex :: "string \<Rightarrow> string"
  ae_verify_password :: "string \<Rightarrow> string \<Rightarrow> bool"
  ae_totp :: "string \<Rightarrow> string \<Rightarrow> time \<Rightarrow> bool"
  ae_encrypt :: "string \<Rightarrow> string"
  ae_decrypt :: "string \<Rightarrow> string option"
  ae_cache_ttl :: int

text \<open>One request: both clocks, the ids it draws and the output of \<open>secrets.token_urlsafe\<close>.\<close>

record auth_req =
  aq_now :: time
  aq_clock :: time
  aq_audit_id :: uuid
  aq_jti :: uuid
  aq_new_id :: uuid
  aq_secret :: string
  aq_prefix :: string

record token_pair =
  tp_access :: string
  tp_access_expires_at :: time
  tp_refresh :: string
  tp_refresh_expires_at :: time

datatype login_response = Token_Pair token_pair | Mfa_Required uuid

text \<open>\<open>AuditEmitter.emit\<close>: published first, then appended.\<close>

definition emit_auth ::
  "auth_env \<Rightarrow> auth_req \<Rightarrow> string \<Rightarrow> uuid option \<Rightarrow> uuid option \<Rightarrow> (string \<times> jval) list \<Rightarrow> auth_store
   \<Rightarrow> (unit, auth_store) outcome" where
  "emit_auth V q event subject user payload S =
     (if \<not> em_bus_ok (ae_emit V) then (Inl (RuntimeError ''audit publish failed''), S)
      else (case append_audit (em_env (ae_emit V))
               (build_audit_row (aq_audit_id q) event user ''system_user'' subject payload (aq_now q) (em_ctx (ae_emit V)))
               (cl_audit (au_clearance S)) of
              (Inl e, A) \<Rightarrow> (Inl e, S\<lparr>au_clearance := (au_clearance S)\<lparr>cl_audit := A\<rparr>\<rparr>)
            | (Inr _, A) \<Rightarrow> (Inr (), S\<lparr>au_clearance := (au_clearance S)\<lparr>cl_audit := A\<rparr>\<rparr>)))"

section \<open>Resolving the caller\<close>

definition bearer_token :: "string option \<Rightarrow> exn + string" where
  "bearer_token authorization =
     (case authorization of
        None \<Rightarrow> Inl (AuthError ''missing_bearer'')
      | Some h \<Rightarrow>
          if \<not> startswith h ''Bearer '' then Inl (AuthError ''missing_bearer'')
          else let token = py_strip (drop 7 h) in if token = [] then Inl (AuthError ''missing_bearer'') else Inr token)"

definition resolve_pat :: "auth_env \<Rightarrow> auth_req \<Rightarrow> string \<Rightarrow> auth_store \<Rightarrow> (principal, auth_store) outcome" where
  "resolve_pat V q token S =
     (case parse_pat token of
        None \<Rightarrow> (Inl (AuthError ''malformed_pat''), S)
      | Some (pfx, secret) \<Rightarrow>
          (case get_personal_access_token_by_hash (ae_hmac V (ae_pepper V) secret) S of
             None \<Rightarrow> (Inl (AuthError ''invalid_pat''), S)
           | Some row \<Rightarrow>
               if pt_prefix row \<noteq> pfx then (Inl (AuthError ''pat_prefix_mismatch''), S)
               else if pt_revoked_at row \<noteq> None then (Inl (AuthError ''pat_revoked''), S)
               else if (case pt_expires_at row of None \<Rightarrow> False | Some t \<Rightarrow> t \<le> aq_now q) then (Inl (AuthError ''pat_expired''), S)
               else (case get_or_load (ae_cache_ttl V) (aq_now q) (aq_clock q) (pt_user_id row) S of
                       (None, S1) \<Rightarrow> (Inl (AuthError ''user_not_found_or_inactive''), S1)
                     | (Some cx, S1) \<Rightarrow>
                         (Inr \<lparr>cu_user_id = us_id (cx_user cx), cu_effective_scopes = set (pt_scopes row),
                               pr_username = us_username (cx_user cx), pr_role = us_role (cx_user cx),
                               pr_token_expires_at = pt_expires_at row, pr_jti = None, pr_pat_id = Some (pt_token_id row)\<rparr>,
                          touch_pat_last_used (pt_token_id row) (aq_now q) S1))))"

definition get_current_user :: "auth_env \<Rightarrow> auth_req \<Rightarrow> string \<Rightarrow> auth_store \<Rightarrow> (principal, auth_store) outcome" where
  "get_current_user V q token S =
     (if is_pat token then resolve_pat V q token S
      else (case decode_access_token (ae_jwt V) (ae_verifying V) (aq_now q) token of
              Inl (JwtError m) \<Rightarrow> (Inl (AuthError m), S)
            | Inl e \<Rightarrow> (Inl e, S)
            | Inr claims \<Rightarrow>
                if is_jwt_denylisted (ac_jti claims) S then (Inl (AuthError ''denylisted''), S)
                else (case get_or_load (ae_cache_ttl V) (aq_now q) (aq_clock q) (ac_user_id claims) S of
                        (None, S1) \<Rightarrow> (Inl (AuthError ''user_not_found_or_inactive''), S1)
                      | (Some cx, S1) \<Rightarrow>
                          (Inr \<lparr>cu_user_id = us_id (cx_user cx), cu_effective_scopes = cx_scopes cx,
                                pr_username = us_username (cx_user cx), pr_role = us_role (cx_user cx),
                                pr_token_expires_at = Some (ac_expires_at claims), pr_jti = Some (ac_jti claims),
                                pr_pat_id = None\<rparr>, S1))))"

definition get_stream_principal ::
  "auth_env \<Rightarrow> auth_req \<Rightarrow> string option \<Rightarrow> auth_store \<Rightarrow> (stream_principal, auth_store) outcome" where
  "get_stream_principal V q token S =
     (if token = None \<or> token = Some [] then (Inl (AuthError ''missing_stream_token''), S)
      else (case decode_stream_token (ae_jwt V) (ae_verifying V) (aq_now q) (the token) of
              Inl (JwtError m) \<Rightarrow> (Inl (AuthError m), S)
            | Inl e \<Rightarrow> (Inl e, S)
            | Inr claims \<Rightarrow>
                (case get_or_load (ae_cache_ttl V) (aq_now q) (aq_clock q) (sm_user_id claims) S of
                   (None, S1) \<Rightarrow> (Inl (AuthError ''user_not_found_or_inactive''), S1)
                 | (Some cx, S1) \<Rightarrow>
                     (Inr \<lparr>sp_user_id = us_id (cx_user cx), sp_username = us_username (cx_user cx), sp_role = us_role (cx_user cx),
                           sp_topics = set (sm_topics claims), sp_expires_at = sm_expires_at claims\<rparr>, S1))))"

definition RequireScope :: "string \<Rightarrow> principal \<Rightarrow> exn + principal" where
  "RequireScope scope p = (if scope \<notin> cu_effective_scopes p then Inl (ScopeForbidden scope) else Inr p)"

section \<open>Login\<close>

text \<open>The tail that login and its second factor share: access token, refresh row, login time.\<close>

definition issue_token_pair ::
  "auth_env \<Rightarrow> auth_req \<Rightarrow> uuid \<Rightarrow> auth_store \<Rightarrow> (token_pair \<times> access_claims \<times> refresh_row, auth_store) outcome" where
  "issue_token_pair V q user_id S =
     (let (access, claims) = mint_access_token (ae_jwt V) (ae_signing V) user_id (aq_jti q) (aq_now q);
          refresh_expires_at = aq_now q + REFRESH_TTL
      in and_then (create_refresh_token (aq_new_id q) user_id (ae_sha256_hex V (aq_secret q)) (aq_now q) refresh_expires_at S) (\<lambda>row S1.
         and_then (record_system_user_login user_id (aq_now q) S1) (\<lambda>_ S2.
           (Inr (\<lparr>tp_access = access, tp_access_expires_at = ac_expires_at claims, tp_refresh = aq_secret q,
                  tp_refresh_expires_at = refresh_expires_at\<rparr>, claims, row), S2))))"

definition reject_login :: "auth_env \<Rightarrow> auth_req \<Rightarrow> string \<Rightarrow> uuid option \<Rightarrow> string \<Rightarrow> auth_store \<Rightarrow> ('a, auth_store) outcome" where
  "reject_login V q reason user_id username S =
     and_then (emit_auth V q ''eyenet.audit.auth.login.failure'' user_id user_id
                 [(''username'', JStr username), (''reason'', JStr reason)] S)
       (\<lambda>_ S1. (Inl (AuthError ''login_failed''), S1))"

definition auth_login :: "auth_env \<Rightarrow> auth_req \<Rightarrow> string \<Rightarrow> string \<Rightarrow> auth_store \<Rightarrow> (login_response, auth_store) outcome" where
  "auth_login V q username pw S =
     (case get_system_user_by_username username S of
        None \<Rightarrow> reject_login V q ''unknown_or_inactive'' None username S
      | Some user \<Rightarrow>
          (case get_credential (us_id user) S of
             None \<Rightarrow> reject_login V q ''unknown_or_inactive'' (Some (us_id user)) username S
           | Some credential \<Rightarrow>
               if \<not> us_is_active user then reject_login V q ''unknown_or_inactive'' (Some (us_id user)) username S
               else if \<not> ae_verify_password V pw (cd_password_hash credential)
               then reject_login V q ''wrong_password'' (Some (us_id user)) username S
               else if cd_mfa_secret credential \<noteq> None
               then and_then (create_mfa_challenge (aq_new_id q) (us_id user) (aq_now q) (aq_now q + seconds 90) S) (\<lambda>ch S1.
                    and_then (emit_auth V q ''eyenet.audit.auth.mfa.challenge_issued'' (Some (us_id user)) (Some (us_id user))
                       [(''username'', JStr username), (''mfa_challenge_id'', JUuid (mf_challenge_id ch))] S1) (\<lambda>_ S2.
                      (Inr (Mfa_Required (mf_challenge_id ch)), S2)))
               else and_then (issue_token_pair V q (us_id user) S) (\<lambda>(pair, claims, row) S1.
                    and_then (emit_auth V q ''eyenet.audit.auth.login.success'' (Some (us_id user)) (Some (us_id user))
                       [(''username'', JStr username), (''jti'', JUuid (ac_jti claims)), (''refresh_token_id'', JUuid (rf_token_id row))] S1)
                      (\<lambda>_ S2. (Inr (Token_Pair pair), S2)))))"

definition LOCKOUT_THRESHOLD :: nat where "LOCKOUT_THRESHOLD = 5"
definition LOCKOUT_WINDOW :: int where "LOCKOUT_WINDOW = seconds 900"

definition mfa_audit :: "auth_env \<Rightarrow> auth_req \<Rightarrow> string \<Rightarrow> uuid \<Rightarrow> (string \<times> jval) list \<Rightarrow> string \<Rightarrow> auth_store \<Rightarrow> ('a, auth_store) outcome" where
  "mfa_audit V q event user_id payload reason S =
     and_then (emit_auth V q event (Some user_id) (Some user_id) payload S) (\<lambda>_ S1. (Inl (AuthError reason), S1))"

definition auth_login_verify :: "auth_env \<Rightarrow> auth_req \<Rightarrow> uuid \<Rightarrow> string \<Rightarrow> auth_store \<Rightarrow> (token_pair, auth_store) outcome" where
  "auth_login_verify V q challenge_id code S =
     (case get_mfa_challenge challenge_id S of
        None \<Rightarrow> (Inl (AuthError ''mfa_unknown_challenge''), S)
      | Some challenge \<Rightarrow>
          let user_id = mf_user_id challenge; failures = count_recent_mfa_failures user_id (aq_now q - LOCKOUT_WINDOW) S;
              about = [(''mfa_challenge_id'', JUuid challenge_id)]
          in if LOCKOUT_THRESHOLD \<le> failures
             then mfa_audit V q ''eyenet.audit.auth.mfa.locked_out'' user_id (about @ [(''recent_failures'', JInt (int failures))])
                    ''mfa_locked_out'' S
             else if mf_consumed_at challenge \<noteq> None
             then mfa_audit V q ''eyenet.audit.auth.mfa.replay_attempt'' user_id about ''mfa_challenge_replayed'' S
             else if mf_expires_at challenge < aq_now q then (Inl (AuthError ''mfa_challenge_expired''), S)
             else (case Option.bind (get_credential user_id S) cd_mfa_secret of
                     None \<Rightarrow> (Inl (AuthError ''mfa_not_enrolled''), S)
                   | Some ciphertext \<Rightarrow>
                       (case ae_decrypt V ciphertext of
                          None \<Rightarrow> (Inl (AuthError ''mfa_secret_unreadable''), S)
                        | Some secret \<Rightarrow>
                            if \<not> verify_code (ae_totp V) secret code (aq_now q)
                            then and_then (bump_mfa_challenge_failures challenge_id S) (\<lambda>_ S1.
                                 mfa_audit V q ''eyenet.audit.auth.mfa.verify_failed'' user_id about ''mfa_bad_code'' S1)
                            else and_then (consume_mfa_challenge challenge_id (aq_now q) S) (\<lambda>_ S1.
                                 and_then (issue_token_pair V q user_id S1) (\<lambda>(pair, claims, row) S2.
                                 and_then (emit_auth V q ''eyenet.audit.auth.mfa.verified'' (Some user_id) (Some user_id)
                                    (about @ [(''jti'', JUuid (ac_jti claims)), (''refresh_token_id'', JUuid (rf_token_id row))]) S2)
                                   (\<lambda>_ S3. (Inr pair, S3)))))))"

section \<open>Sessions\<close>

definition auth_refresh :: "auth_env \<Rightarrow> auth_req \<Rightarrow> string \<Rightarrow> auth_store \<Rightarrow> (token_pair, auth_store) outcome" where
  "auth_refresh V q refresh_token S =
     (case get_refresh_token_by_hash (ae_sha256_hex V refresh_token) S of
        None \<Rightarrow> (Inl (AuthError ''invalid_refresh''), S)
      | Some existing \<Rightarrow>
          if rf_revoked_at existing \<noteq> None \<or> rf_expires_at existing \<le> aq_now q then (Inl (AuthError ''invalid_refresh''), S)
          else (case get_system_user_by_id (rf_user_id existing) S of
                  None \<Rightarrow> (Inl (AuthError ''user_inactive''), S)
                | Some user \<Rightarrow>
                    if \<not> us_is_active user then (Inl (AuthError ''user_inactive''), S)
                    else let (access, claims) = mint_access_token (ae_jwt V) (ae_signing V) (us_id user) (aq_jti q) (aq_now q);
                             refresh_expires_at = aq_now q + REFRESH_TTL
                         in and_then (create_refresh_token (aq_new_id q) (us_id user) (ae_sha256_hex V (aq_secret q)) (aq_now q)
                              refresh_expires_at S) (\<lambda>row S1.
                            and_then (revoke_refresh_token (rf_token_id existing) (aq_now q) (Some (rf_token_id row)) S1) (\<lambda>_ S2.
                            and_then (emit_auth V q ''eyenet.audit.auth.refresh'' (Some (us_id user)) (Some (us_id user))
                               [(''previous_refresh_token_id'', JUuid (rf_token_id existing)), (''refresh_token_id'', JUuid (rf_token_id row)),
                                (''jti'', JUuid (ac_jti claims))] S2) (\<lambda>_ S3.
                              (Inr \<lparr>tp_access = access, tp_access_expires_at = ac_expires_at claims, tp_refresh = aq_secret q,
                                    tp_refresh_expires_at = refresh_expires_at\<rparr>, S3))))))"

definition auth_logout :: "auth_env \<Rightarrow> auth_req \<Rightarrow> principal \<Rightarrow> string option \<Rightarrow> auth_store \<Rightarrow> (unit, auth_store) outcome" where
  "auth_logout V q p refresh_token S =
     (case (pr_jti p, pr_token_expires_at p) of
        (Some jti, Some expires_at) \<Rightarrow>
          and_then (deny_jwt jti (cu_user_id p) (aq_now q) expires_at S) (\<lambda>_ S1.
            let existing = Option.bind refresh_token (\<lambda>t. get_refresh_token_by_hash (ae_sha256_hex V t) S1) in
            and_then
              (case existing of
                 None \<Rightarrow> (Inr None, S1)
               | Some r \<Rightarrow>
                   if rf_revoked_at r = None \<and> rf_user_id r = cu_user_id p
                   then and_then (revoke_refresh_token (rf_token_id r) (aq_now q) None S1) (\<lambda>_ S2. (Inr (Some (rf_token_id r)), S2))
                   else (Inr None, S1))
              (\<lambda>revoked S2.
                 emit_auth V q ''eyenet.audit.auth.logout'' (Some (cu_user_id p)) (Some (cu_user_id p))
                   [(''jti'', JUuid jti), (''refresh_token_id'', case revoked of None \<Rightarrow> JNull | Some i \<Rightarrow> JUuid i)]
                   (invalidate (cu_user_id p) S2)))
      | _ \<Rightarrow> (Inl (AuthError ''pat_cannot_logout''), S))"

definition auth_me :: "principal \<Rightarrow> uuid \<times> string \<times> system_user_role \<times> string list" where
  "auth_me p = (cu_user_id p, pr_username p, pr_role p, sorted_list_of_set (cu_effective_scopes p))"

section \<open>Personal access tokens\<close>

text \<open>The row and, once, the plaintext token.\<close>

definition auth_mint_token ::
  "auth_env \<Rightarrow> auth_req \<Rightarrow> principal \<Rightarrow> string \<Rightarrow> string list \<Rightarrow> time option \<Rightarrow> string option \<Rightarrow> auth_store
   \<Rightarrow> (pat_row \<times> string, auth_store) outcome" where
  "auth_mint_token V q p name scopes expires_at idempotency_key S =
     (if \<not> set scopes \<subseteq> cu_effective_scopes p then (Inl (RequestValidationError ''cannot grant scopes you do not currently hold''), S)
      else
        let (full_token, pfx, hash_hex) = mint_pat (ae_hmac V) (ae_pepper V) (aq_prefix q) (aq_secret q) in
        and_then (create_personal_access_token (aq_new_id q) (cu_user_id p) name pfx hash_hex (sorted_list_of_set (set scopes))
                    (aq_now q) expires_at S) (\<lambda>row S1.
        and_then (emit_auth V q ''eyenet.audit.auth.token.minted'' (Some (cu_user_id p)) (Some (cu_user_id p))
           [(''token_id'', JUuid (pt_token_id row)), (''name'', JStr (pt_name row)), (''scopes'', JList (map JStr (pt_scopes row))),
            (''expires_at'', case pt_expires_at row of None \<Rightarrow> JNull | Some t \<Rightarrow> JTime t),
            (''idempotency_key'', case idempotency_key of None \<Rightarrow> JNull | Some k \<Rightarrow> JStr k)] S1) (\<lambda>_ S2.
          (Inr (row, full_token), S2))))"

definition auth_revoke_token :: "auth_env \<Rightarrow> auth_req \<Rightarrow> principal \<Rightarrow> uuid \<Rightarrow> auth_store \<Rightarrow> (unit, auth_store) outcome" where
  "auth_revoke_token V q p token_id S =
     (let row = get_personal_access_token token_id S;
          is_owner = (case row of None \<Rightarrow> False | Some r \<Rightarrow> pt_user_id r = cu_user_id p);
          is_admin = ''admin:tokens'' \<in> cu_effective_scopes p
      in case row of
           None \<Rightarrow> (Inl (ResourceNotFound ''personal_access_token''), S)
         | Some r \<Rightarrow>
             if \<not> (is_owner \<or> is_admin) then (Inl (ResourceNotFound ''personal_access_token''), S)
             else and_then (revoke_personal_access_token token_id (aq_now q) S) (\<lambda>_ S1.
                  emit_auth V q ''eyenet.audit.auth.token.revoked'' (Some (pt_user_id r)) (Some (cu_user_id p))
                    [(''token_id'', JUuid token_id), (''by_admin'', JBool (is_admin \<and> \<not> is_owner))] S1))"

section \<open>Second factor\<close>

definition auth_mfa_verify_enroll ::
  "auth_env \<Rightarrow> auth_req \<Rightarrow> principal \<Rightarrow> string \<Rightarrow> string \<Rightarrow> auth_store \<Rightarrow> (unit, auth_store) outcome" where
  "auth_mfa_verify_enroll V q p secret_b32 code S =
     (if \<not> verify_code (ae_totp V) secret_b32 code (aq_now q)
      then mfa_audit V q ''eyenet.audit.auth.mfa.enroll_failed'' (cu_user_id p) [(''username'', JStr (pr_username p))]
             ''mfa_enroll_bad_code'' S
      else (case get_credential (cu_user_id p) S of
              None \<Rightarrow> (Inl (AuthError ''credential_missing''), S)
            | Some c \<Rightarrow>
                and_then (put_credential (cu_user_id p) (cd_password_hash c) (cd_password_updated_at c)
                            (Some (ae_encrypt V secret_b32)) S) (\<lambda>_ S1.
                  emit_auth V q ''eyenet.audit.auth.mfa.enrolled'' (Some (cu_user_id p)) (Some (cu_user_id p))
                    [(''username'', JStr (pr_username p))] S1)))"

definition auth_mfa_disable :: "auth_env \<Rightarrow> auth_req \<Rightarrow> principal \<Rightarrow> string \<Rightarrow> auth_store \<Rightarrow> (unit, auth_store) outcome" where
  "auth_mfa_disable V q p current_password S =
     (case get_credential (cu_user_id p) S of
        None \<Rightarrow> (Inl (AuthError ''credential_missing''), S)
      | Some c \<Rightarrow>
          if \<not> ae_verify_password V current_password (cd_password_hash c)
          then mfa_audit V q ''eyenet.audit.auth.mfa.disable_failed'' (cu_user_id p)
                 [(''username'', JStr (pr_username p)), (''reason'', JStr ''wrong_password'')] ''mfa_disable_wrong_password'' S
          else and_then (put_credential (cu_user_id p) (cd_password_hash c) (cd_password_updated_at c) None S) (\<lambda>_ S1.
                 emit_auth V q ''eyenet.audit.auth.mfa.disabled'' (Some (cu_user_id p)) (Some (cu_user_id p))
                   [(''username'', JStr (pr_username p))] S1))"

section \<open>Stream tokens\<close>

definition auth_mint_stream_token ::
  "auth_env \<Rightarrow> auth_req \<Rightarrow> principal \<Rightarrow> stream_topic list \<Rightarrow> int \<Rightarrow> auth_store \<Rightarrow> (string \<times> time, auth_store) outcome" where
  "auth_mint_stream_token V q p topics ttl_seconds S =
     (case find (\<lambda>t. STREAM_TOPIC_SCOPE t \<notin> cu_effective_scopes p) topics of
        Some t \<Rightarrow> (Inl (ScopeForbidden (STREAM_TOPIC_SCOPE t)), S)
      | None \<Rightarrow>
          let ttl = min (seconds ttl_seconds) STREAM_TTL;
              (token, claims) = mint_stream_token (ae_jwt V) (ae_signing V) (cu_user_id p) (map stream_topic_value topics) ttl
                                  (aq_jti q) (aq_now q)
          in and_then (emit_auth V q ''eyenet.audit.auth.stream_token.minted'' (Some (cu_user_id p)) (Some (cu_user_id p))
                [(''jti'', JUuid (sm_jti claims)), (''topics'', JList (map JStr (sm_topics claims))),
                 (''expires_at'', JTime (sm_expires_at claims))] S)
               (\<lambda>_ S1. (Inr (token, sm_expires_at claims), S1)))"

section \<open>Operator signing keys\<close>

definition register_operator_signing_key ::
  "fa_env \<Rightarrow> (bytes \<Rightarrow> bool) \<Rightarrow> uuid \<Rightarrow> uuid \<Rightarrow> bytes \<Rightarrow> uuid \<Rightarrow> bytes \<Rightarrow> time \<Rightarrow> fa_store \<Rightarrow> (string, fa_store) outcome" where
  "register_operator_signing_key E backend new_id user_id key nonce signature now F =
     (case load_ed25519_public_key backend key of
        None \<Rightarrow> (Inl (SigningKeyRegistrationError ''malformed_public_key''), F)
      | Some public_key \<Rightarrow>
          (case build_signing_key_challenge_canonical (uuid_str nonce) key of
             None \<Rightarrow> (Inl OverflowError, F)
           | Some canonical \<Rightarrow>
               if \<not> fe_verify E public_key canonical signature
               then (Inl (SigningKeyRegistrationError ''proof_of_possession_failed''), F)
               else (case consume_signing_key_challenge nonce user_id now F of
                       (False, F1) \<Rightarrow> (Inl (SigningKeyRegistrationError ''challenge_unusable''), F1)
                     | (True, F1) \<Rightarrow> record_signing_key E new_id user_id key now F1)))"

definition auth_signing_key_challenge :: "auth_req \<Rightarrow> principal \<Rightarrow> fa_store \<Rightarrow> (uuid \<times> time, fa_store) outcome" where
  "auth_signing_key_challenge q p F =
     and_then (mint_signing_key_challenge (aq_new_id q) (cu_user_id p) (aq_now q) F)
       (\<lambda>nonce F1. (Inr (nonce, aq_now q + seconds 60), F1))"

definition auth_register_signing_key ::
  "auth_env \<Rightarrow> fa_env \<Rightarrow> (bytes \<Rightarrow> bool) \<Rightarrow> auth_req \<Rightarrow> principal \<Rightarrow> bytes \<Rightarrow> uuid \<Rightarrow> bytes \<Rightarrow> fa_store \<times> auth_store
   \<Rightarrow> (string \<times> time, fa_store \<times> auth_store) outcome" where
  "auth_register_signing_key V E backend q p key nonce signature FS =
     (case register_operator_signing_key E backend (aq_new_id q) (cu_user_id p) key nonce signature (aq_now q) (fst FS) of
        (Inl (SigningKeyRegistrationError reason), F1) \<Rightarrow>
          (case emit_auth V q ''eyenet.audit.auth.signing_key_registration_failed'' (Some (cu_user_id p)) (Some (cu_user_id p))
                  [(''username'', JStr (pr_username p)), (''reason'', JStr reason)] (snd FS) of
             (Inl e, S1) \<Rightarrow> (Inl e, F1, S1)
           | (Inr _, S1) \<Rightarrow> (Inl (AuthError ''signing_key_registration_failed''), F1, S1))
      | (Inl e, F1) \<Rightarrow> (Inl e, F1, snd FS)
      | (Inr fp, F1) \<Rightarrow>
          (case emit_auth V q ''eyenet.audit.auth.signing_key_registered'' (Some (cu_user_id p)) (Some (cu_user_id p))
                  [(''username'', JStr (pr_username p)), (''fingerprint'', JStr fp)] (snd FS) of
             (Inl e, S1) \<Rightarrow> (Inl e, F1, S1)
           | (Inr _, S1) \<Rightarrow> (Inr (fp, aq_now q), F1, S1)))"

end
