(* ===== verification/Auth_Service.thy ===== *)
theory Auth_Service
  imports Auth_Handlers
begin

text \<open>
  The handlers of \<open>api/v1/auth\<close> reach their tables through the repository only. The locale takes a preorder on
  stores that every repository operation obeys; its lemmas carry it through the handlers, refusals and failures
  included. A second locale adds the one operation that fills the cache.
\<close>

locale auth_storage =
  fixes R :: "auth_store \<Rightarrow> auth_store \<Rightarrow> bool"
  assumes same: "R S S"
    and join: "R S T \<Longrightarrow> R T U \<Longrightarrow> R S U"
    and account: "R S (snd (put_system_user i un dn ro at' em act nt S))"
    and logged_in: "R S (snd (record_system_user_login i at' S))"
    and credential: "R S (snd (put_credential i h at' sec S))"
    and no_credential: "R S (snd (delete_credential i S))"
    and refresh_new: "R S (snd (create_refresh_token i u h at' until S))"
    and refresh_end: "R S (snd (revoke_refresh_token i at' nxt S))"
    and deny: "R S (snd (deny_jwt j u at' until S))"
    and scope_new: "R S (snd (grant_scope u sc at' by' S))"
    and scope_end: "R S (snd (revoke_scope u sc S))"
    and challenge_new: "R S (snd (create_mfa_challenge i u at' until S))"
    and challenge_used: "R S (snd (consume_mfa_challenge i at' S))"
    and challenge_failed: "R S (snd (bump_mfa_challenge_failures i S))"
    and failures_cleared: "R S (snd (clear_mfa_failures u at' S))"
    and pat_new: "R S (snd (create_personal_access_token i u nm pf h scs at' ends S))"
    and pat_end: "R S (snd (revoke_personal_access_token i at' S))"
    and pat_used: "R S (touch_pat_last_used i at' S)"
    and forget: "R S (invalidate u S)"
    and audit: "R S (snd (emit_auth V q ev su us pl S))"
begin

lemma then_R:
  assumes "R S (snd m)" and "\<And>x T. m = (Inr x, T) \<Longrightarrow> R T (snd (f x T))"
  shows "R S (snd (and_then m f))"
proof (cases m)
  case (Pair r T)
  show ?thesis
  proof (cases r)
    case (Inl e)
    then show ?thesis using assms(1) Pair by (simp add: and_then_def)
  next
    case (Inr x)
    then show ?thesis using assms(1) assms(2) [of x T] join [of S T] Pair by (simp add: and_then_def)
  qed
qed

lemma mfa_audit_R: "R S (snd (mfa_audit V q ev u pl reason S))"
  unfolding mfa_audit_def by (rule then_R [OF audit]) (simp add: same)

lemma reject_login_R: "R S (snd (reject_login V q reason u n S))"
  unfolding reject_login_def by (rule then_R [OF audit]) (simp add: same)

lemma issue_R: "R S (snd (issue_token_pair V q u S))"
  unfolding issue_token_pair_def Let_def split_beta
  by (intro then_R refresh_new logged_in) (simp add: same)

lemma login_R: "R S (snd (auth_login V q n pw S))"
  unfolding auth_login_def
  by (auto simp: same split: option.split intro!: then_R reject_login_R issue_R challenge_new audit)

lemma login_verify_R: "R S (snd (auth_login_verify V q i code S))"
  unfolding auth_login_verify_def Let_def
  by (auto simp: same split: option.split intro!: then_R mfa_audit_R issue_R challenge_failed challenge_used audit)

lemma refresh_R: "R S (snd (auth_refresh V q tok S))"
  unfolding auth_refresh_def Let_def
  by (auto simp: same split: option.split prod.split intro!: then_R refresh_new refresh_end audit)

lemma logout_R: "R S (snd (auth_logout V q p tok S))"
proof (cases "pr_jti p")
  case None
  then show ?thesis by (simp add: auth_logout_def same)
next
  case (Some j)
  show ?thesis
  proof (cases "pr_token_expires_at p")
    case None
    then show ?thesis by (simp add: auth_logout_def same Some)
  next
    case e: (Some e)
    have "R T (snd (emit_auth V q ev su us pl (invalidate u T)))" for T ev su us pl u by (rule join [OF forget audit])
    then show ?thesis unfolding auth_logout_def Some e prod.case option.case Let_def
      by (auto simp: same split: option.split intro!: then_R deny refresh_end)
  qed
qed

lemma mint_R: "R S (snd (auth_mint_token V q p nm scs ends key S))"
  unfolding auth_mint_token_def Let_def split_beta by (auto simp: same intro!: then_R pat_new audit)

lemma revoke_R: "R S (snd (auth_revoke_token V q p i S))"
  unfolding auth_revoke_token_def Let_def by (auto simp: same split: option.split intro!: then_R pat_end audit)

lemma enroll_R: "R S (snd (auth_mfa_verify_enroll V q p sec code S))"
  unfolding auth_mfa_verify_enroll_def by (auto simp: same split: option.split intro!: then_R mfa_audit_R credential audit)

lemma disable_R: "R S (snd (auth_mfa_disable V q p pw S))"
  unfolding auth_mfa_disable_def by (auto simp: same split: option.split intro!: then_R mfa_audit_R credential audit)

lemma stream_R: "R S (snd (auth_mint_stream_token V q p ts ttl S))"
  unfolding auth_mint_stream_token_def Let_def split_beta by (auto simp: same split: option.split intro!: then_R audit)

lemma registered_R: "R (snd FS) (snd (snd (auth_register_signing_key V E b q p k n sig FS)))"
  unfolding auth_register_signing_key_def
  by (auto simp: same split: prod.split sum.split exn.split intro: audit [THEN subst [where P = "R (snd FS)", rotated]])
     (metis audit snd_conv)+

end

locale auth_loading = auth_storage +
  assumes load: "R S (snd (get_or_load ttl now clk u S))"
begin

lemma resolve_pat_R: "R S (snd (resolve_pat V q tok S))"
proof -
  have "R S (touch_pat_last_used i (aq_now q) T)" if "get_or_load (ae_cache_ttl V) (aq_now q) (aq_clock q) u S = (r, T)" for r T i u
    using join [OF load [of S "ae_cache_ttl V" "aq_now q" "aq_clock q" u] pat_used] that by simp
  then show ?thesis unfolding resolve_pat_def
    using load [of S "ae_cache_ttl V" "aq_now q" "aq_clock q"]
    by (auto simp: same split: option.split prod.split) (metis snd_conv)+
qed

lemma current_user_R: "R S (snd (get_current_user V q tok S))"
  unfolding get_current_user_def using load [of S "ae_cache_ttl V" "aq_now q" "aq_clock q"]
  by (auto simp: same resolve_pat_R split: option.split prod.split sum.split exn.split) (metis snd_conv)+

lemma stream_principal_R: "R S (snd (get_stream_principal V q tok S))"
  unfolding get_stream_principal_def using load [of S "ae_cache_ttl V" "aq_now q" "aq_clock q"]
  by (auto simp: same split: option.split prod.split sum.split exn.split) (metis snd_conv)+

end

end
