(* ===== verification/Auth_Runs.thy ===== *)
theory Auth_Runs
  imports Auth_Service
begin

text \<open>
  Runs of the authentication handlers over one store, in any order and with any arguments, beside account
  administration and clearance changes. What such a run can never undo: revocations, consumed challenges, denied
  tokens and the scopes of a personal access token.
\<close>

section \<open>Tables that only grow\<close>

definition grows :: "('r \<Rightarrow> 'r \<Rightarrow> bool) \<Rightarrow> 'r list \<Rightarrow> 'r list \<Rightarrow> bool" where
  "grows le xs ys \<longleftrightarrow> list_all2 le xs (take (length xs) ys)"

lemma grows_refl: "(\<And>x. le x x) \<Longrightarrow> grows le xs xs"
  by (simp add: grows_def list_all2_refl)

lemma grows_snoc: "(\<And>x. le x x) \<Longrightarrow> grows le xs (xs @ [y])"
  by (simp add: grows_def list_all2_refl)

lemma grows_length: "grows le xs ys \<Longrightarrow> length xs \<le> length ys"
  unfolding grows_def by (drule list_all2_lengthD) simp

lemma grows_nth: "grows le xs ys \<longleftrightarrow> length xs \<le> length ys \<and> (\<forall>i < length xs. le (xs ! i) (ys ! i))"
  by (auto simp: grows_def list_all2_conv_all_nth)

lemma grows_trans: "(\<And>x y z. le x y \<Longrightarrow> le y z \<Longrightarrow> le x z) \<Longrightarrow> grows le xs ys \<Longrightarrow> grows le ys zs \<Longrightarrow> grows le xs zs"
  unfolding grows_nth by (meson le_trans less_le_trans)

lemma grows_map: "(\<And>x. x \<in> set xs \<Longrightarrow> le x (f x)) \<Longrightarrow> grows le xs (map f xs)"
  by (simp add: grows_nth)

lemma grows_save: "(\<And>x. le x x) \<Longrightarrow> (\<And>x. x \<in> set xs \<Longrightarrow> pk x = pk y \<Longrightarrow> le x y) \<Longrightarrow> grows le xs (tbl_save pk y xs)"
  unfolding tbl_save_def by (rule grows_map) simp

lemma grows_update: "(\<And>x. le x x) \<Longrightarrow> (\<And>x. P x \<Longrightarrow> le x (f x)) \<Longrightarrow> grows le xs (tbl_update P f xs)"
  unfolding tbl_update_def by (rule grows_map) simp

lemma grows_row: "grows le xs ys \<Longrightarrow> x \<in> set xs \<Longrightarrow> \<exists>y\<in>set ys. le x y"
  unfolding grows_nth in_set_conv_nth by (metis less_le_trans nth_mem)

section \<open>What a row keeps\<close>

definition refresh_le :: "refresh_row \<Rightarrow> refresh_row \<Rightarrow> bool" where
  "refresh_le r s \<longleftrightarrow> rf_token_id s = rf_token_id r \<and> rf_user_id s = rf_user_id r \<and> rf_hash s = rf_hash r
     \<and> rf_expires_at s = rf_expires_at r \<and> (rf_revoked_at r \<noteq> None \<longrightarrow> rf_revoked_at s \<noteq> None)"

definition mfa_le :: "mfa_row \<Rightarrow> mfa_row \<Rightarrow> bool" where
  "mfa_le r s \<longleftrightarrow> mf_challenge_id s = mf_challenge_id r \<and> mf_user_id s = mf_user_id r \<and> mf_issued_at s = mf_issued_at r
     \<and> (mf_consumed_at r \<noteq> None \<longrightarrow> mf_consumed_at s = mf_consumed_at r)"

definition pat_le :: "pat_row \<Rightarrow> pat_row \<Rightarrow> bool" where
  "pat_le r s \<longleftrightarrow> pt_token_id s = pt_token_id r \<and> pt_user_id s = pt_user_id r \<and> pt_prefix s = pt_prefix r \<and> pt_hash s = pt_hash r
     \<and> pt_scopes s = pt_scopes r \<and> pt_expires_at s = pt_expires_at r \<and> (pt_revoked_at r \<noteq> None \<longrightarrow> pt_revoked_at s = pt_revoked_at r)"

lemmas row_le_defs = refresh_le_def mfa_le_def pat_le_def

definition auth_le :: "auth_store \<Rightarrow> auth_store \<Rightarrow> bool" where
  "auth_le S T \<longleftrightarrow> grows refresh_le (au_refresh S) (au_refresh T) \<and> grows (=) (au_denied S) (au_denied T)
     \<and> grows mfa_le (au_mfa S) (au_mfa T) \<and> grows pat_le (au_pats S) (au_pats T)"

definition auth_wf :: "auth_store \<Rightarrow> bool" where
  "auth_wf S \<longleftrightarrow> keyed us_id (au_users S) \<and> keyed cd_user_id (au_credentials S)
     \<and> keyed rf_token_id (au_refresh S) \<and> keyed rf_hash (au_refresh S) \<and> list_all refresh_checks (au_refresh S)
     \<and> keyed dn_jti (au_denied S) \<and> keyed mf_challenge_id (au_mfa S)
     \<and> keyed pt_token_id (au_pats S) \<and> keyed pt_hash (au_pats S)
     \<and> (\<forall>u c. au_cache S u = Some c \<longrightarrow> us_id (cx_user c) = u)"

definition keeps :: "auth_store \<Rightarrow> auth_store \<Rightarrow> bool" where
  "keeps S T \<longleftrightarrow> (auth_wf S \<longrightarrow> auth_wf T \<and> auth_le S T)"

lemma grows_refls [simp]: "grows refresh_le xs xs" "grows mfa_le ms ms" "grows pat_le ps ps" "grows (=) ds ds"
  "grows refresh_le xs (xs @ [x])" "grows mfa_le ms (ms @ [m])" "grows pat_le ps (ps @ [p])" "grows (=) ds (ds @ [d])"
  by (simp_all add: grows_refl grows_snoc row_le_defs)

lemma keyed_save_same:
  assumes "keyed f xs" and "keyed pk xs" and "\<And>x. x \<in> set xs \<Longrightarrow> pk x = pk y \<Longrightarrow> f x = f y"
  shows "keyed f (tbl_save pk y xs)"
proof -
  have "map f (tbl_save pk y xs) = map f xs" using assms(3) by (simp add: tbl_save_def)
  then show ?thesis using assms(1) by (simp add: keyed_def)
qed

lemma emit_auth_only: "\<exists>C. snd (emit_auth V q ev su us pl S) = S\<lparr>au_clearance := C\<rparr>"
proof -
  have "\<exists>C. S = S\<lparr>au_clearance := C\<rparr>" by (rule exI [of _ "au_clearance S"]) simp
  then show ?thesis by (auto simp: emit_auth_def split: prod.split sum.split)
qed

lemma keeps_refl: "keeps S S"
  by (simp add: keeps_def auth_le_def)

lemma auth_le_trans: "auth_le S T \<Longrightarrow> auth_le T U \<Longrightarrow> auth_le S U"
  unfolding auth_le_def
  using grows_trans [of refresh_le "au_refresh S" "au_refresh T" "au_refresh U"] grows_trans [of mfa_le "au_mfa S" "au_mfa T" "au_mfa U"]
    grows_trans [of pat_le "au_pats S" "au_pats T" "au_pats U"] grows_trans [of "(=)" "au_denied S" "au_denied T" "au_denied U"]
  by (auto simp: row_le_defs)

lemma keeps_trans: "keeps S T \<Longrightarrow> keeps T U \<Longrightarrow> keeps S U"
  unfolding keeps_def using auth_le_trans by blast

section \<open>Every repository operation keeps\<close>

lemma keeps_frame:
  assumes "au_users T = au_users S" "au_credentials T = au_credentials S" "au_refresh T = au_refresh S" "au_denied T = au_denied S"
    "au_mfa T = au_mfa S" "au_pats T = au_pats S" "au_cache T = au_cache S"
  shows "keeps S T"
  using assms by (simp add: keeps_def auth_le_def auth_wf_def)

lemma account_keeps: "keeps S (snd (put_system_user i un dn ro at' em act nt S))"
  by (auto simp: put_system_user_def Let_def keeps_def auth_le_def auth_wf_def tbl_get_None_iff split: option.split)

lemma logged_in_keeps: "keeps S (snd (record_system_user_login i at' S))"
  by (auto simp: record_system_user_login_def Let_def keeps_def auth_le_def auth_wf_def split: option.split)

lemma credential_keeps: "keeps S (snd (put_credential i h at' sec S))"
  by (auto simp: put_credential_def Let_def keeps_def auth_le_def auth_wf_def)

lemma no_credential_keeps: "keeps S (snd (delete_credential i S))"
  by (auto simp: delete_credential_def keeps_def auth_le_def auth_wf_def)

lemma refresh_new_keeps: "keeps S (snd (create_refresh_token i u h at' until S))"
  by (auto simp: create_refresh_token_def Let_def keeps_def auth_le_def auth_wf_def refresh_checks_def)

text \<open>Saving a row under its key: what the other columns must satisfy.\<close>

lemma save_grows:
  assumes "keyed pk xs" and "tbl_get pk i xs = Some r" and "le r r'" and "\<And>x. le x x" and "pk r' = i"
  shows "grows le xs (tbl_save pk r' xs)"
proof (rule grows_save)
  fix x assume "x \<in> set xs" and "pk x = pk r'"
  then have "tbl_get pk i xs = Some x" using tbl_get_keyed [OF assms(1), of x] assms(5) by simp
  then show "le x r'" using assms(2,3) by simp
qed (rule assms(4))

lemma save_keyed:
  assumes "keyed pk xs" and "keyed f xs" and "tbl_get pk i xs = Some r" and "f r' = f r" and "pk r' = i"
  shows "keyed f (tbl_save pk r' xs)"
proof (rule keyed_save_same [OF assms(2,1)])
  fix x assume "x \<in> set xs" and "pk x = pk r'"
  then have "tbl_get pk i xs = Some x" using tbl_get_keyed [OF assms(1), of x] assms(5) by simp
  then show "f x = f r'" using assms(3,4) by simp
qed

lemma refresh_end_keeps: "keeps S (snd (revoke_refresh_token i at' nxt S))"
proof (cases "tbl_get rf_token_id i (au_refresh S)")
  case None
  then show ?thesis by (simp add: revoke_refresh_token_def keeps_refl)
next
  case (Some r)
  define r' where "r' = r\<lparr>rf_revoked_at := Some at', rf_replaced_by := (case nxt of None \<Rightarrow> rf_replaced_by r | Some n \<Rightarrow> Some n)\<rparr>"
  have id: "rf_token_id r' = i" "rf_hash r' = rf_hash r" "refresh_le r r'"
    using tbl_get_SomeD [OF Some] by (simp_all add: r'_def refresh_le_def)
  have "auth_wf (S\<lparr>au_refresh := tbl_save rf_token_id r' (au_refresh S)\<rparr>) \<and> auth_le S (S\<lparr>au_refresh := tbl_save rf_token_id r' (au_refresh S)\<rparr>)"
    if ok: "refresh_checks r'" and wf: "auth_wf S"
  proof -
    have k: "keyed rf_token_id (au_refresh S)" "keyed rf_hash (au_refresh S)" "list_all refresh_checks (au_refresh S)"
      using wf by (simp_all add: auth_wf_def)
    have g: "grows refresh_le (au_refresh S) (tbl_save rf_token_id r' (au_refresh S))"
      by (rule save_grows [where le = refresh_le, OF k(1) Some]) (simp_all add: id, simp add: refresh_le_def)
    have h: "keyed rf_hash (tbl_save rf_token_id r' (au_refresh S))" by (rule save_keyed [OF k(1,2) Some]) (simp_all add: id)
    have c: "list_all refresh_checks (tbl_save rf_token_id r' (au_refresh S))"
      using ok k(3) by (auto simp: list_all_iff dest: set_tbl_save_sub)
    show ?thesis using wf g h c by (simp add: auth_wf_def auth_le_def)
  qed
  then show ?thesis
    by (simp add: revoke_refresh_token_def Some Let_def r'_def [symmetric] keeps_refl) (simp add: keeps_def)
qed

lemma deny_keeps: "keeps S (snd (deny_jwt j u at' until S))"
  by (auto simp: deny_jwt_def Let_def keeps_def auth_le_def auth_wf_def tbl_get_None_iff split: option.split)

lemma scope_keeps: "keeps S (snd (grant_scope u sc at' by' S))" "keeps S (snd (revoke_scope u sc S))"
  by (auto simp: grant_scope_def revoke_scope_def Let_def keeps_def auth_le_def auth_wf_def split: option.split)

lemma challenge_new_keeps: "keeps S (snd (create_mfa_challenge i u at' until S))"
  by (auto simp: create_mfa_challenge_def Let_def keeps_def auth_le_def auth_wf_def)

lemma mfa_save_keeps:
  assumes "tbl_get mf_challenge_id i (au_mfa S) = Some r" and "mfa_le r r'"
  shows "keeps S (S\<lparr>au_mfa := tbl_save mf_challenge_id r' (au_mfa S)\<rparr>)"
proof -
  have "grows mfa_le (au_mfa S) (tbl_save mf_challenge_id r' (au_mfa S))" if "keyed mf_challenge_id (au_mfa S)"
    by (rule save_grows [where le = mfa_le, OF that assms(1)]) (use assms tbl_get_SomeD [OF assms(1)] in \<open>simp_all add: mfa_le_def\<close>)
  then show ?thesis by (simp add: keeps_def auth_le_def auth_wf_def)
qed

lemma challenge_used_keeps: "keeps S (snd (consume_mfa_challenge i at' S))"
  by (auto simp: consume_mfa_challenge_def Let_def keeps_refl mfa_le_def intro!: mfa_save_keeps split: option.split)

lemma challenge_failed_keeps: "keeps S (snd (bump_mfa_challenge_failures i S))"
  by (auto simp: bump_mfa_challenge_failures_def Let_def keeps_refl mfa_le_def intro!: mfa_save_keeps split: option.split)

lemma failures_cleared_keeps: "keeps S (snd (clear_mfa_failures u at' S))"
  by (auto simp: clear_mfa_failures_def keeps_def auth_le_def auth_wf_def mfa_le_def intro!: grows_update)

lemma pat_new_keeps: "keeps S (snd (create_personal_access_token i u nm pf h scs at' ends S))"
  by (auto simp: create_personal_access_token_def Let_def keeps_def auth_le_def auth_wf_def)

lemma pat_end_keeps: "keeps S (snd (revoke_personal_access_token i at' S))"
proof (cases "tbl_get pt_token_id i (au_pats S)")
  case None
  then show ?thesis by (simp add: revoke_personal_access_token_def keeps_refl)
next
  case (Some r)
  define r' where "r' = r\<lparr>pt_revoked_at := Some at'\<rparr>"
  have "keeps S (S\<lparr>au_pats := tbl_save pt_token_id r' (au_pats S)\<rparr>)" if "pt_revoked_at r = None"
  proof -
    have id: "pt_token_id r' = i" "pt_hash r' = pt_hash r" "pat_le r r'"
      using tbl_get_SomeD [OF Some] that by (simp_all add: r'_def pat_le_def)
    have "grows pat_le (au_pats S) (tbl_save pt_token_id r' (au_pats S))" "keyed pt_hash (tbl_save pt_token_id r' (au_pats S))"
      if "keyed pt_token_id (au_pats S)" "keyed pt_hash (au_pats S)"
      by (rule save_grows [where le = pat_le, OF that(1) Some], simp_all add: id, simp add: pat_le_def)
        (rule save_keyed [OF that Some id(2,1)])
    then show ?thesis by (simp add: keeps_def auth_le_def auth_wf_def)
  qed
  then show ?thesis by (simp add: revoke_personal_access_token_def Some Let_def r'_def [symmetric] keeps_refl)
qed

lemma pat_used_keeps: "keeps S (touch_pat_last_used i at' S)"
  by (auto simp: touch_pat_last_used_def keeps_def auth_le_def auth_wf_def pat_le_def intro!: grows_update)

lemma forget_keeps: "keeps S (invalidate u S)"
  by (auto simp: invalidate_def keeps_def auth_le_def auth_wf_def)

lemma audit_keeps: "keeps S (snd (emit_auth V q ev su us pl S))"
proof -
  obtain C where "snd (emit_auth V q ev su us pl S) = S\<lparr>au_clearance := C\<rparr>" using emit_auth_only by blast
  then show ?thesis by (simp add: keeps_frame)
qed

lemma load_context_user: "load_context u now clk S = Some c \<Longrightarrow> us_id (cx_user c) = u"
  by (auto simp: load_context_def get_system_user_by_id_def split: option.splits if_splits dest: tbl_get_SomeD)

lemma load_keeps: "keeps S (snd (get_or_load ttl now clk u S))"
  using load_context_user [of u now clk S]
  by (auto simp: get_or_load_def keeps_def auth_le_def auth_wf_def split: option.split)

interpretation sessions: auth_loading keeps
  by (unfold_locales; (rule keeps_refl account_keeps logged_in_keeps credential_keeps no_credential_keeps refresh_new_keeps
    refresh_end_keeps deny_keeps scope_keeps challenge_new_keeps challenge_used_keeps challenge_failed_keeps failures_cleared_keeps
    pat_new_keeps pat_end_keeps pat_used_keeps forget_keeps audit_keeps load_keeps | erule (1) keeps_trans))

section \<open>Runs\<close>

definition auth_empty :: "audit_store \<Rightarrow> auth_store" where
  "auth_empty A = \<lparr>au_users = [], au_credentials = [], au_refresh = [], au_denied = [], au_scopes = [], au_mfa = [], au_pats = [],
     au_clearance = \<lparr>grants = [], cl_audit = A\<rparr>, au_cache = (\<lambda>_. None)\<rparr>"

text \<open>The administration of accounts happens at the command line, beside the API.\<close>

inductive auth_step :: "auth_store \<Rightarrow> auth_store \<Rightarrow> bool" where
  login: "auth_step S (snd (auth_login V q n pw S))"
| login_verify: "auth_step S (snd (auth_login_verify V q i code S))"
| refresh: "auth_step S (snd (auth_refresh V q tok S))"
| logout: "auth_step S (snd (auth_logout V q p rtok S))"
| mint: "auth_step S (snd (auth_mint_token V q p nm scs ends key S))"
| revoke: "auth_step S (snd (auth_revoke_token V q p i S))"
| enroll: "auth_step S (snd (auth_mfa_verify_enroll V q p b32 code S))"
| disable: "auth_step S (snd (auth_mfa_disable V q p pw S))"
| stream: "auth_step S (snd (auth_mint_stream_token V q p ts ttl S))"
| authenticate: "auth_step S (snd (get_current_user V q tok S))"
| connect: "auth_step S (snd (get_stream_principal V q rtok S))"
| account: "auth_step S (snd (put_system_user i un dn ro at' em act nt S))"
| credential: "auth_step S (snd (put_credential i h at' sec S))"
| no_credential: "auth_step S (snd (delete_credential i S))"
| scope_new: "auth_step S (snd (grant_scope u sc at' by' S))"
| scope_end: "auth_step S (snd (revoke_scope u sc S))"
| failures_cleared: "auth_step S (snd (clear_mfa_failures u at' S))"
| evict: "auth_step S (invalidate u S)"
| clearance: "auth_step S (S\<lparr>au_clearance := clearance_exec E op (au_clearance S)\<rparr>)"

abbreviation auth_run :: "auth_store \<Rightarrow> auth_store \<Rightarrow> bool" where
  "auth_run \<equiv> auth_step\<^sup>*\<^sup>*"

lemma step_keeps: "auth_step S T \<Longrightarrow> keeps S T"
  by (induction rule: auth_step.induct)
    (rule sessions.login_R sessions.login_verify_R sessions.refresh_R sessions.logout_R sessions.mint_R sessions.revoke_R
      sessions.enroll_R sessions.disable_R sessions.stream_R sessions.current_user_R sessions.stream_principal_R
      account_keeps credential_keeps no_credential_keeps scope_keeps failures_cleared_keeps forget_keeps | simp add: keeps_frame)+

lemma run_keeps: "auth_run S T \<Longrightarrow> keeps S T"
  by (induction rule: rtranclp_induct) (auto intro: keeps_refl keeps_trans dest: step_keeps)

lemma empty_wf: "auth_wf (auth_empty A)"
  by (simp add: auth_wf_def auth_empty_def)

lemma reachable_wf: "auth_run (auth_empty A) S \<Longrightarrow> auth_wf S"
  using run_keeps empty_wf unfolding keeps_def by blast

lemma run_le: "auth_wf S \<Longrightarrow> auth_run S T \<Longrightarrow> auth_wf T \<and> auth_le S T"
  using run_keeps unfolding keeps_def by blast

section \<open>What a success says\<close>

lemma and_then_Inr: "and_then r k = (Inr v, T) \<longleftrightarrow> (\<exists>x U. r = (Inr x, U) \<and> k x U = (Inr v, T))"
  by (auto simp: and_then_def split: prod.split sum.split)

lemma find_keyed: "keyed f xs \<Longrightarrow> x \<in> set xs \<Longrightarrow> find (\<lambda>r. f r = f x) xs = Some x"
  using tbl_get_keyed [of f xs x] by (simp add: tbl_get_def)

text \<open>A refresh row is found again under its hash, still revoked if it was.\<close>

lemma hash_found_later:
  assumes "auth_wf T" and "auth_le S T" and "r \<in> set (au_refresh S)"
  obtains r' where "get_refresh_token_by_hash (rf_hash r) T = Some r'" and "refresh_le r r'"
proof -
  obtain r' where r': "r' \<in> set (au_refresh T)" "refresh_le r r'"
    using grows_row [of refresh_le "au_refresh S" "au_refresh T" r] assms(2,3) by (auto simp: auth_le_def)
  then have "rf_hash r' = rf_hash r" by (simp add: refresh_le_def)
  then have "get_refresh_token_by_hash (rf_hash r) T = Some r'"
    using find_keyed [of rf_hash "au_refresh T" r'] assms(1) r' by (simp add: get_refresh_token_by_hash_def auth_wf_def)
  then show thesis using that r'(2) by blast
qed

lemma pat_found_later:
  assumes "auth_wf T" and "auth_le S T" and "r \<in> set (au_pats S)"
  obtains r' where "get_personal_access_token_by_hash (pt_hash r) T = Some r'" and "pat_le r r'"
proof -
  obtain r' where r': "r' \<in> set (au_pats T)" "pat_le r r'"
    using grows_row [of pat_le "au_pats S" "au_pats T" r] assms(2,3) by (auto simp: auth_le_def)
  then have "pt_hash r' = pt_hash r" by (simp add: pat_le_def)
  then have "get_personal_access_token_by_hash (pt_hash r) T = Some r'"
    using find_keyed [of pt_hash "au_pats T" r'] assms(1) r' by (simp add: get_personal_access_token_by_hash_def auth_wf_def)
  then show thesis using that r'(2) by blast
qed

lemma denied_later: "auth_le S T \<Longrightarrow> is_jwt_denylisted j S \<Longrightarrow> is_jwt_denylisted j T"
  unfolding auth_le_def is_jwt_denylisted_def tbl_has_def using grows_row [of "(=)" "au_denied S" "au_denied T"] by fastforce

lemma challenge_found_later:
  assumes "auth_wf T" and "auth_le S T" and "get_mfa_challenge i S = Some r"
  obtains r' where "get_mfa_challenge i T = Some r'" and "mfa_le r r'"
proof -
  have r: "r \<in> set (au_mfa S)" "mf_challenge_id r = i" using tbl_get_SomeD [OF assms(3) [unfolded get_mfa_challenge_def]] by simp_all
  then obtain r' where r': "r' \<in> set (au_mfa T)" "mfa_le r r'"
    using grows_row [of mfa_le "au_mfa S" "au_mfa T" r] assms(2) by (auto simp: auth_le_def)
  then have "get_mfa_challenge i T = Some r'"
    using tbl_get_keyed [of mf_challenge_id "au_mfa T" r'] assms(1) r by (simp add: get_mfa_challenge_def auth_wf_def mfa_le_def)
  then show thesis using that r'(2) by blast
qed

end
