(* ===== verification/Auth_Properties.thy ===== *)
theory Auth_Properties
  imports Auth_Runs
begin

text \<open>
  What the authentication layer guarantees over any run of its handlers, and where it does less than its documents say.
\<close>

section \<open>The effect of a success\<close>

lemma emit_auth_tables:
  "au_refresh (snd (emit_auth V q ev su us pl S)) = au_refresh S" "au_mfa (snd (emit_auth V q ev su us pl S)) = au_mfa S"
  "au_pats (snd (emit_auth V q ev su us pl S)) = au_pats S" "au_denied (snd (emit_auth V q ev su us pl S)) = au_denied S"
proof -
  obtain C where "snd (emit_auth V q ev su us pl S) = S\<lparr>au_clearance := C\<rparr>" using emit_auth_only by blast
  then show "au_refresh (snd (emit_auth V q ev su us pl S)) = au_refresh S" "au_mfa (snd (emit_auth V q ev su us pl S)) = au_mfa S"
    "au_pats (snd (emit_auth V q ev su us pl S)) = au_pats S" "au_denied (snd (emit_auth V q ev su us pl S)) = au_denied S"
    by simp_all
qed

lemma emit_auth_tables_eq:
  "emit_auth V q ev su us pl S = (r, T) \<Longrightarrow> au_refresh T = au_refresh S \<and> au_mfa T = au_mfa S \<and> au_pats T = au_pats S \<and> au_denied T = au_denied S"
  using emit_auth_tables [of V q ev su us pl S] by simp

lemma refresh_spends:
  assumes "auth_wf S" and "auth_refresh V q tok S = (Inr pair, T)"
  shows "\<exists>r\<in>set (au_refresh T). rf_hash r = ae_sha256_hex V tok \<and> rf_revoked_at r \<noteq> None"
proof -
  obtain x where x: "get_refresh_token_by_hash (ae_sha256_hex V tok) S = Some x"
    using assms(2) by (auto simp: auth_refresh_def split: option.splits)
  then have xs: "x \<in> set (au_refresh S)" "rf_hash x = ae_sha256_hex V tok"
    using find_SomeD unfolding get_refresh_token_by_hash_def by fastforce+
  obtain row :: refresh_row and T1 and T2 and e :: refresh_row
    where c: "create_refresh_token (aq_new_id q) (rf_user_id x) (ae_sha256_hex V (aq_secret q)) (aq_now q)
       (aq_now q + REFRESH_TTL) S = (Inr row, T1)"
    and rv: "revoke_refresh_token (rf_token_id x) (aq_now q) (Some (rf_token_id row)) T1 = (Inr e, T2)"
    and T: "au_refresh T = au_refresh T2"
  proof -
    obtain u where u: "get_system_user_by_id (rf_user_id x) S = Some u"
      using assms(2) x by (auto simp: auth_refresh_def split: option.splits if_splits)
    then have "us_id u = rf_user_id x" by (auto simp: get_system_user_by_id_def dest: tbl_get_SomeD)
    then show thesis
      using assms(2) that emit_auth_tables_eq unfolding auth_refresh_def x u option.case Let_def split_beta
      by (auto simp: and_then_Inr split: if_splits)
  qed
  have T1: "au_refresh T1 = au_refresh S @ [row]"
    using c by (auto simp: create_refresh_token_def Let_def split: if_splits)
  have "tbl_get rf_token_id (rf_token_id x) (au_refresh T1) = Some x"
    using tbl_get_keyed [of rf_token_id "au_refresh S" x] assms(1) xs(1) by (simp add: T1 tbl_get_append auth_wf_def)
  then have "au_refresh T2 = tbl_save rf_token_id e (au_refresh T1)" and e: "rf_token_id e = rf_token_id x" "rf_hash e = rf_hash x"
      "rf_revoked_at e \<noteq> None"
    using rv by (auto simp: revoke_refresh_token_def Let_def split: if_splits)
  moreover have "tbl_has rf_token_id (rf_token_id x) (au_refresh T1)" using xs(1) by (auto simp: tbl_has_def T1)
  ultimately have "e \<in> set (au_refresh T)" by (simp add: T set_tbl_save)
  then show ?thesis using e xs(2) by auto
qed

text \<open>C25: A refresh token is exchanged at most once: after an exchange that returned, and whatever requests,
  administration and other handlers follow in any order, presenting the same token again is refused.\<close>

theorem refresh_token_single_use:
  assumes "auth_run (auth_empty A) S" and "auth_refresh V q tok S = (Inr pair, S1)" and "auth_run S1 T"
  shows "fst (auth_refresh V q' tok T) = Inl (AuthError ''invalid_refresh'')"
proof -
  have wf: "auth_wf S" using reachable_wf [OF assms(1)] .
  have "auth_run (auth_empty A) S1" using assms(1) auth_step.refresh [of S V q tok] assms(2) by (simp add: rtranclp.rtrancl_into_rtrancl)
  then have T: "auth_wf T \<and> auth_le S1 T" using run_le [OF reachable_wf assms(3)] by blast
  obtain r where r: "r \<in> set (au_refresh S1)" "rf_hash r = ae_sha256_hex V tok" "rf_revoked_at r \<noteq> None"
    using refresh_spends [OF wf assms(2)] by blast
  obtain r' where "get_refresh_token_by_hash (ae_sha256_hex V tok) T = Some r'" and "refresh_le r r'"
    using hash_found_later [of T S1 r] T r by auto
  then show ?thesis using r(3) by (simp add: auth_refresh_def refresh_le_def)
qed

lemma run_snoc: "auth_run (auth_empty A) S \<Longrightarrow> auth_step S T \<Longrightarrow> auth_run (auth_empty A) T"
  by (rule rtranclp.rtrancl_into_rtrancl)

lemma logout_denies:
  assumes "auth_logout V q p rtok S = (Inr u, T)"
  shows "\<exists>j. pr_jti p = Some j \<and> is_jwt_denylisted j T"
proof -
  obtain j e where p: "pr_jti p = Some j" "pr_token_expires_at p = Some e"
    using assms by (auto simp: auth_logout_def split: option.splits)
  obtain d S1 where d: "deny_jwt j (cu_user_id p) (aq_now q) e S = (Inr d, S1)"
    using assms by (auto simp: auth_logout_def p and_then_Inr)
  have "is_jwt_denylisted j S1"
    using d tbl_get_Some_has [of dn_jti j "au_denied S"]
    by (auto simp: deny_jwt_def is_jwt_denylisted_def tbl_has_def Let_def split: option.splits if_splits)
  moreover have "au_denied T = au_denied S1"
  proof -
    have rv: "au_denied (snd (revoke_refresh_token i t n S')) = au_denied S'" for i t n S'
      by (simp add: revoke_refresh_token_def Let_def split: option.split)
    have inv: "au_denied (invalidate u S') = au_denied S'" for u S' by (simp add: invalidate_def)
    show ?thesis
      using assms emit_auth_tables_eq rv unfolding auth_logout_def p d prod.case option.case Let_def
      by (auto simp: and_then_def inv split: option.splits if_splits prod.splits sum.splits) (metis snd_conv)+
  qed
  ultimately show ?thesis using p(1) by (auto simp: is_jwt_denylisted_def)
qed

lemma denied_refused:
  assumes "is_jwt_denylisted j S" and "get_current_user V q tok S = (Inr p, T)"
  shows "pr_jti p \<noteq> Some j"
  using assms by (auto simp: get_current_user_def resolve_pat_def split: if_splits sum.splits exn.splits option.splits prod.splits)

text \<open>C26: A session that was logged out stays out: after a logout that returned, no later request of any run
  authenticates with an access token carrying its id, before or after any other change.\<close>

theorem logged_out_stays_out:
  assumes "auth_run (auth_empty A) S" and "auth_logout V q p rtok S = (Inr u, S1)" and "auth_run S1 T"
    and "get_current_user V' q' tok T = (Inr p', T')"
  shows "pr_jti p' = None \<or> pr_jti p' \<noteq> pr_jti p"
proof -
  obtain j where j: "pr_jti p = Some j" "is_jwt_denylisted j S1" using logout_denies [OF assms(2)] by blast
  have "auth_run (auth_empty A) S1" using run_snoc [OF assms(1) auth_step.logout [of S V q p rtok]] assms(2) by simp
  then have "auth_le S1 T" using run_le [OF reachable_wf assms(3)] by blast
  then have "is_jwt_denylisted j T" using denied_later j(2) by blast
  then show ?thesis using denied_refused [OF _ assms(4)] j(1) by auto
qed

lemma get_or_load_user:
  assumes "auth_wf S" and "get_or_load ttl now clk u S = (Some c, T)"
  shows "us_id (cx_user c) = u"
  using assms load_context_user by (auto simp: get_or_load_def auth_wf_def cache_get_def split: if_splits option.splits)

lemma mint_inserts:
  assumes "auth_mint_token V q p nm scs ends key S = (Inr (row, tok), T)"
  shows "set scs \<subseteq> cu_effective_scopes p \<and> row \<in> set (au_pats T) \<and> pt_user_id row = cu_user_id p
    \<and> pt_scopes row = sorted_list_of_set (set scs) \<and> pt_hash row = ae_hmac V (ae_pepper V) (take SECRET_LEN (aq_secret q))
    \<and> tok = fst (mint_pat (ae_hmac V) (ae_pepper V) (aq_prefix q) (aq_secret q))"
  using assms emit_auth_tables_eq
  by (auto simp: auth_mint_token_def Let_def split_beta and_then_Inr mint_pat_def rand_chars_def create_personal_access_token_def
      split: if_splits)

lemma mint_pat_is_pat: "is_pat (fst (mint_pat h pe rp rs))"
  by (simp add: is_pat_def startswith_def mint_pat_def Let_def)

text \<open>C27: A personal access token carries exactly the scopes it was minted with, all of them held by the principal that
  minted it, and acts for that principal's account: however roles, grants and clearances change afterwards, every later
  request that the token authenticates has these scopes and this account.\<close>

theorem pat_scopes_frozen:
  assumes "auth_run (auth_empty A) S" and "auth_mint_token V q p nm scs ends key S = (Inr (row, tok), S1)" and "auth_run S1 T"
    and "PREFIX_LEN \<le> length (aq_prefix q)" and "SECRET_LEN \<le> length (aq_secret q)"
    and "get_current_user V q' tok T = (Inr p', T')"
  shows "cu_effective_scopes p' = set scs \<and> set scs \<subseteq> cu_effective_scopes p \<and> cu_user_id p' = cu_user_id p"
proof -
  note m = mint_inserts [OF assms(2)]
  have "auth_run (auth_empty A) S1" using run_snoc [OF assms(1) auth_step.mint [of S V q p nm scs ends key]] assms(2) by simp
  then have T: "auth_wf T" "auth_le S1 T" using run_le [OF reachable_wf assms(3)] by blast+
  obtain r' where r': "get_personal_access_token_by_hash (pt_hash row) T = Some r'" "pat_le row r'"
    using pat_found_later [OF T, of row] m by blast
  have pp: "parse_pat tok = Some (take PREFIX_LEN (aq_prefix q), take SECRET_LEN (aq_secret q))" and ip: "is_pat tok"
    using m parse_mint_pat [OF assms(4,5)] mint_pat_is_pat by simp_all
  have h: "get_personal_access_token_by_hash (ae_hmac V (ae_pepper V) (take SECRET_LEN (aq_secret q))) T = Some r'"
    using r'(1) m by simp
  have "cu_effective_scopes p' = set (pt_scopes r') \<and> cu_user_id p' = pt_user_id r'"
    using assms(6) get_or_load_user [OF T(1)]
    by (auto simp: get_current_user_def resolve_pat_def ip pp h split: if_splits option.splits prod.splits)
  then show ?thesis using m r'(2) by (simp add: pat_le_def)
qed

section \<open>The second factor\<close>

lemma issue_mfa: "au_mfa (snd (issue_token_pair V q u S)) = au_mfa S"
  by (auto simp: issue_token_pair_def Let_def split_beta and_then_def create_refresh_token_def record_system_user_login_def
      split: option.split sum.split prod.split)

text \<open>What one verification does to the challenges: nothing, a failure counted or the challenge consumed.\<close>

lemma verify_mfa:
  "au_mfa (snd (auth_login_verify V q i code S)) = au_mfa S
   \<or> au_mfa (snd (auth_login_verify V q i code S)) = au_mfa (snd (bump_mfa_challenge_failures i S))
   \<or> au_mfa (snd (auth_login_verify V q i code S)) = au_mfa (snd (consume_mfa_challenge i (aq_now q) S))"
proof -
  have e: "au_mfa (snd (mfa_audit V q ev u pl rs S')) = au_mfa S'" for ev u pl rs S'
    using emit_auth_tables(2) [of V q ev "Some u" "Some u" pl S']
    by (auto simp: mfa_audit_def and_then_def split: prod.splits sum.splits)
  have t: "au_mfa (snd (and_then r k)) = au_mfa (snd r)" if "\<And>x S'. au_mfa (snd (k x S')) = au_mfa S'" for r k
    using that by (auto simp: and_then_def split: prod.split sum.split)
  have inner: "au_mfa (snd (and_then (issue_token_pair V q u S') (\<lambda>(pr, cl, rw) S2.
      and_then (emit_auth V q ev su us (pl cl rw) S2) (\<lambda>_ S3. (Inr pr, S3))))) = au_mfa S'" for u S' ev su us pl
  proof (subst t)
    fix x :: "token_pair \<times> access_claims \<times> refresh_row" and S2
    show "au_mfa (snd ((case x of (pr, cl, rw) \<Rightarrow> \<lambda>S2. and_then (emit_auth V q ev su us (pl cl rw) S2) (\<lambda>_ S3. (Inr pr, S3))) S2)) = au_mfa S2"
      by (cases x) (simp add: t emit_auth_tables)
  qed (rule issue_mfa)
  have ok: "au_mfa (snd (and_then (consume_mfa_challenge i (aq_now q) S) (\<lambda>_ S1. and_then (issue_token_pair V q u S1) (\<lambda>(pr, cl, rw) S2.
      and_then (emit_auth V q ev su us (pl cl rw) S2) (\<lambda>_ S3. (Inr pr, S3)))))) = au_mfa (snd (consume_mfa_challenge i (aq_now q) S))"
    for u ev su us pl by (rule t) (rule inner)
  show ?thesis
    unfolding auth_login_verify_def Let_def
    by (auto simp: e t ok split: option.split)
qed

lemma verify_consumes:
  assumes "auth_login_verify V q i code S = (Inr pair, T)"
  shows "\<exists>r. get_mfa_challenge i S = Some r \<and> mf_consumed_at r = None \<and> au_mfa T = tbl_save mf_challenge_id (r\<lparr>mf_consumed_at := Some (aq_now q)\<rparr>) (au_mfa S)"
proof -
  obtain r where r: "get_mfa_challenge i S = Some r" using assms by (auto simp: auth_login_verify_def split: option.splits)
  obtain x S1 where c: "consume_mfa_challenge i (aq_now q) S = (Inr x, S1)" and T: "au_mfa T = au_mfa S1"
    using assms emit_auth_tables_eq issue_mfa unfolding auth_login_verify_def r option.case Let_def mfa_audit_def
    by (auto simp: and_then_Inr split: if_splits option.splits) (metis snd_conv)
  from c r show ?thesis
    by (auto simp: consume_mfa_challenge_def get_mfa_challenge_def Let_def T split: if_splits)
qed

text \<open>A challenge completes one login at most: once a verification returned a token pair, no later verification of
  the same challenge returns one, in any run.\<close>

lemma challenge_completes_once:
  assumes "auth_run (auth_empty A) S" and "auth_login_verify V q i code S = (Inr pair, S1)" and "auth_run S1 T"
  shows "\<exists>e. fst (auth_login_verify V' q' i code' T) = Inl e"
proof -
  obtain r where r: "get_mfa_challenge i S = Some r" "au_mfa S1 = tbl_save mf_challenge_id (r\<lparr>mf_consumed_at := Some (aq_now q)\<rparr>) (au_mfa S)"
    using verify_consumes [OF assms(2)] by blast
  have i: "mf_challenge_id r = i" "tbl_has mf_challenge_id i (au_mfa S)"
    using r(1) tbl_get_SomeD tbl_get_Some_has unfolding get_mfa_challenge_def by fastforce+
  have g: "get_mfa_challenge i S1 = Some (r\<lparr>mf_consumed_at := Some (aq_now q)\<rparr>)"
    using i by (simp add: get_mfa_challenge_def r(2) tbl_get_tbl_save)
  have "auth_run (auth_empty A) S1" using run_snoc [OF assms(1) auth_step.login_verify [of S V q i code]] assms(2) by simp
  then have T: "auth_wf T" "auth_le S1 T" using run_le [OF reachable_wf assms(3)] by blast+
  obtain r' where r': "get_mfa_challenge i T = Some r'" "mf_consumed_at r' \<noteq> None"
    by (rule challenge_found_later [OF T g]) (simp add: mfa_le_def)
  show ?thesis
  proof (cases "auth_login_verify V' q' i code' T")
    case (Pair res T')
    then show ?thesis using verify_consumes [of V' q' i code' T _ T'] r' by (cases res) auto
  qed
qed

primrec verify_attempts :: "auth_env \<Rightarrow> uuid \<Rightarrow> (auth_req \<times> string) list \<Rightarrow> auth_store \<Rightarrow> auth_store" where
  "verify_attempts V i [] S = S"
| "verify_attempts V i (a # as) S = verify_attempts V i as (snd (auth_login_verify V (fst a) i (snd a) S))"

lemma others_kept:
  "filter (\<lambda>r. mf_challenge_id r \<noteq> i) (au_mfa (verify_attempts V i as S)) = filter (\<lambda>r. mf_challenge_id r \<noteq> i) (au_mfa S)"
proof (induction as arbitrary: S)
  case (Cons a as)
  have sv: "filter (\<lambda>r. mf_challenge_id r \<noteq> i) (tbl_save mf_challenge_id y xs) = filter (\<lambda>r. mf_challenge_id r \<noteq> i) xs"
    if "mf_challenge_id y = i" for i and y :: mfa_row and xs
    using that by (induction xs) (auto simp: tbl_save_def)
  have "filter (\<lambda>r. mf_challenge_id r \<noteq> i) (au_mfa (snd (auth_login_verify V (fst a) i (snd a) S))) = filter (\<lambda>r. mf_challenge_id r \<noteq> i) (au_mfa S)"
    using verify_mfa [of V "fst a" i "snd a" S]
    by (auto simp: bump_mfa_challenge_failures_def consume_mfa_challenge_def Let_def sv dest!: tbl_get_SomeD split: option.splits if_splits)
  then show ?case using Cons.IH by simp
qed simp

lemma attempts_wf: "auth_wf S \<Longrightarrow> auth_wf (verify_attempts V i as S)"
  by (induction as arbitrary: S) (use sessions.login_verify_R in \<open>auto simp: keeps_def\<close>)

lemma one_row: "keyed pk xs \<Longrightarrow> length (filter (\<lambda>r. pk r = k \<and> Q r) xs) \<le> 1"
  using rowcount_keyed [of pk xs k Q] by (auto simp: rowcount_def split: option.splits if_splits)

lemma length_filter_split: "length (filter P xs) = length (filter P (filter Q xs)) + length (filter (\<lambda>x. \<not> Q x \<and> P x) xs)"
  by (induction xs) auto

text \<open>C30: The lockout counts challenges and not attempts: any number of wrong codes against one challenge, at any
  times, raises the count of recent failures of any account by at most one, so it alone never reaches the
  threshold of five.\<close>

theorem guessing_one_challenge_counts_once:
  assumes "auth_run (auth_empty A) S"
  shows "count_recent_mfa_failures u since (verify_attempts V i as S) \<le> count_recent_mfa_failures u since S + 1"
proof -
  let ?P = "recent_mfa_failure u since" and ?o = "filter (\<lambda>r. mf_challenge_id r \<noteq> i)"
  let ?T = "verify_attempts V i as S"
  have k: "keyed mf_challenge_id (au_mfa ?T)" using attempts_wf [OF reachable_wf [OF assms]] by (simp add: auth_wf_def)
  have "count_recent_mfa_failures u since ?T = length (filter ?P (?o (au_mfa ?T))) + length (filter (\<lambda>r. mf_challenge_id r = i \<and> ?P r) (au_mfa ?T))"
    unfolding count_recent_mfa_failures_def by (subst length_filter_split [where Q = "\<lambda>r. mf_challenge_id r \<noteq> i"]) simp
  also have "\<dots> \<le> length (filter ?P (?o (au_mfa S))) + 1" using one_row [OF k] by (simp add: others_kept)
  also have "\<dots> \<le> count_recent_mfa_failures u since S + 1"
    unfolding count_recent_mfa_failures_def by (subst (2) length_filter_split [where Q = "\<lambda>r. mf_challenge_id r \<noteq> i"]) simp
  finally show ?thesis .
qed

section \<open>How old cached authority can be\<close>

text \<open>Every operation but loading leaves the cache alone or drops entries.\<close>

definition forgets :: "auth_store \<Rightarrow> auth_store \<Rightarrow> bool" where
  "forgets S T \<longleftrightarrow> (\<forall>u c. au_cache T u = Some c \<longrightarrow> au_cache S u = Some c)"

lemma cache_frame [simp]: "au_cache T = au_cache S \<Longrightarrow> forgets S T"
  by (simp add: forgets_def)

interpretation caches: auth_storage forgets
proof (unfold_locales, goal_cases)
  case 2
  then show ?case by (simp add: forgets_def)
next
  case (19 S u)
  then show ?case by (simp add: forgets_def invalidate_def)
next
  case (20 S V q ev su us pl)
  obtain C where "snd (emit_auth V q ev su us pl S) = S\<lparr>au_clearance := C\<rparr>" using emit_auth_only by blast
  then show ?case by simp
qed (auto simp: put_system_user_def record_system_user_login_def put_credential_def delete_credential_def create_refresh_token_def
    revoke_refresh_token_def deny_jwt_def grant_scope_def revoke_scope_def create_mfa_challenge_def consume_mfa_challenge_def
    bump_mfa_challenge_failures_def clear_mfa_failures_def create_personal_access_token_def revoke_personal_access_token_def
    touch_pat_last_used_def Let_def intro!: cache_frame split: option.split)

definition loaded_from :: "time \<Rightarrow> time \<Rightarrow> auth_store \<Rightarrow> auth_store \<Rightarrow> bool" where
  "loaded_from now clk S T \<longleftrightarrow> (\<forall>u c. au_cache T u = Some c \<longrightarrow> au_cache S u = Some c \<or> load_context u now clk S = Some c)"

lemma load_context_Some:
  "load_context u now clk S = Some c \<Longrightarrow> get_system_user_by_id u S = Some (cx_user c) \<and> us_is_active (cx_user c)
    \<and> cx_scopes c = resolve_effective_scopes (cx_user c) (list_explicit_scopes u S) (active_clearance_grants_for u now (au_clearance S))
    \<and> cx_cached_at c = clk"
  by (auto simp: load_context_def split: option.splits if_splits)

lemma get_or_load_from: "loaded_from now clk S (snd (get_or_load ttl now clk u S))"
  by (auto simp: loaded_from_def get_or_load_def split: option.split)

lemma get_or_load_from': "get_or_load ttl now clk u S = (r, T) \<Longrightarrow> loaded_from now clk S T"
  using get_or_load_from [of now clk S ttl u] by simp

lemma touched_from: "loaded_from now clk S T \<Longrightarrow> loaded_from now clk S (touch_pat_last_used i at' T)"
  by (simp add: loaded_from_def touch_pat_last_used_def)

lemma same_from: "loaded_from now clk S S"
  by (simp add: loaded_from_def)

lemma current_user_from: "loaded_from (aq_now q) (aq_clock q) S (snd (get_current_user V q tok S))"
  unfolding get_current_user_def resolve_pat_def
  by (auto simp: same_from intro!: touched_from split: option.split prod.split sum.split exn.split dest: get_or_load_from')

lemma stream_principal_from: "loaded_from (aq_now q) (aq_clock q) S (snd (get_stream_principal V q tok S))"
  unfolding get_stream_principal_def
  by (auto simp: same_from split: option.split prod.split sum.split exn.split dest: get_or_load_from')

text \<open>A request that authenticated, by bearer or by stream token.\<close>

definition authenticates :: "auth_req \<Rightarrow> auth_store \<Rightarrow> auth_store \<Rightarrow> bool" where
  "authenticates q S T \<longleftrightarrow> (\<exists>V tok. T = snd (get_current_user V q tok S)) \<or> (\<exists>V rtok. T = snd (get_stream_principal V q rtok S))"

lemma step_from: "auth_step S T \<Longrightarrow> forgets S T \<or> (\<exists>q. authenticates q S T \<and> loaded_from (aq_now q) (aq_clock q) S T)"
proof (induction rule: auth_step.induct)
  case (authenticate S V q tok)
  then show ?case using current_user_from authenticates_def by blast
next
  case (connect S V q rtok)
  then show ?case using stream_principal_from authenticates_def by blast
next
  case (clearance S E op)
  then show ?case by simp
qed (rule disjI1, rule caches.login_R caches.login_verify_R caches.refresh_R caches.logout_R
      caches.mint_R caches.revoke_R caches.enroll_R caches.disable_R caches.stream_R caches.account caches.credential
      caches.no_credential caches.scope_new caches.scope_end caches.failures_cleared caches.forget)+

text \<open>An entry of the cache was written by a request of the run that read the account at that moment, and bears its clock.\<close>

definition cached_by :: "auth_req \<Rightarrow> uuid \<Rightarrow> auth_context \<Rightarrow> auth_store \<Rightarrow> auth_store \<Rightarrow> bool" where
  "cached_by q u c S T \<longleftrightarrow> au_cache S u \<noteq> Some c \<and> au_cache T u = Some c
     \<and> ((\<exists>V tok. T = snd (get_current_user V q tok S)) \<or> (\<exists>V rtok. T = snd (get_stream_principal V q rtok S)))"

lemma cached_was_loaded:
  assumes "auth_run (auth_empty A) S" and "au_cache S u = Some c"
  shows "\<exists>T q T'. auth_run (auth_empty A) T \<and> cached_by q u c T T' \<and> auth_run T' S \<and> load_context u (aq_now q) (aq_clock q) T = Some c"
  using assms
proof (induction rule: rtranclp_induct)
  case base
  then show ?case by (simp add: auth_empty_def)
next
  case (step S S')
  show ?case
  proof (cases "au_cache S u = Some c")
    case True
    with step.IH step.hyps(2) show ?thesis by (meson rtranclp.rtrancl_into_rtrancl)
  next
    case False
    then obtain q where "authenticates q S S'" and "load_context u (aq_now q) (aq_clock q) S = Some c"
      using step_from [OF step.hyps(2)] step.prems unfolding loaded_from_def forgets_def by blast
    moreover from this(1) have "cached_by q u c S S'" using False step.prems by (simp add: cached_by_def authenticates_def)
    ultimately show ?thesis using step.hyps(1) by blast
  qed
qed

text \<open>C28: Authority is never older than the cache's time to live. Whoever authenticates with an access token is resolved
  either from the store of this very request, or from the cache entry of its account. That entry bears the clock reading at
  which it was written, this request's clock reads less than the time to live after it, and it was written by a request of
  the run with that clock reading. In either case the account existed and was active in the store that was read and had exactly
  these effective scopes there.\<close>

theorem authority_bounded_stale:
  assumes "auth_run (auth_empty A) S" and "get_current_user V q tok S = (Inr p, S')" and "pr_pat_id p = None"
  shows "(\<exists>u. get_system_user_by_id (cu_user_id p) S = Some u \<and> us_is_active u
      \<and> cu_effective_scopes p = resolve_effective_scopes u (list_explicit_scopes (cu_user_id p) S)
          (active_clearance_grants_for (cu_user_id p) (aq_now q) (au_clearance S)))
    \<or> (\<exists>c q' T T' u. au_cache S (cu_user_id p) = Some c \<and> aq_clock q < cx_cached_at c + ae_cache_ttl V \<and> cx_cached_at c = aq_clock q'
        \<and> auth_run (auth_empty A) T \<and> cached_by q' (cu_user_id p) c T T' \<and> auth_run T' S
        \<and> get_system_user_by_id (cu_user_id p) T = Some u \<and> us_is_active u
        \<and> cu_effective_scopes p = resolve_effective_scopes u (list_explicit_scopes (cu_user_id p) T)
            (active_clearance_grants_for (cu_user_id p) (aq_now q') (au_clearance T)))"
proof -
  have "\<not> is_pat tok" using assms(2,3) by (auto simp: get_current_user_def resolve_pat_def split: if_splits option.splits prod.splits)
  then obtain i c where g: "get_or_load (ae_cache_ttl V) (aq_now q) (aq_clock q) i S = (Some c, S')"
    and p: "cu_user_id p = us_id (cx_user c)" "cu_effective_scopes p = cx_scopes c"
    using assms(2) by (auto simp: get_current_user_def split: if_splits option.splits prod.splits sum.splits exn.splits)
  have i: "cu_user_id p = i" using get_or_load_user [OF reachable_wf [OF assms(1)] g] p by simp
  show ?thesis
  proof (cases "load_context i (aq_now q) (aq_clock q) S = Some c")
    case True
    then show ?thesis using load_context_Some [OF True] i p(2) by blast
  next
    case False
    then have c: "au_cache S i = Some c" and age: "aq_clock q < cx_cached_at c + ae_cache_ttl V"
      using g by (auto simp: get_or_load_def cache_get_def split: if_splits option.splits)
    then obtain T q' T' where T: "auth_run (auth_empty A) T" "cached_by q' i c T T'" "auth_run T' S"
      "load_context i (aq_now q') (aq_clock q') T = Some c" using cached_was_loaded [OF assms(1)] by blast
    show ?thesis
      using c age T(1-3) load_context_Some [OF T(4)] i p(2)
      by (intro disjI2 exI [of _ c] exI [of _ q'] exI [of _ T] exI [of _ T'] exI [of _ "cx_user c"]) simp
  qed
qed

section \<open>Tokens\<close>

text \<open>C29: The two kinds of token are not interchangeable. In a reachable store that can load an account, an access token
  minted for the account authenticates exactly this account, with its own id and the account's scopes, until its last whole
  second, as long as its id is not denylisted, and is refused on a stream; a stream token minted for the account opens a
  stream for exactly this account with exactly its topics, until its last whole second, and is refused everywhere else.\<close>

theorem token_kinds_isolated:
  assumes "auth_run (auth_empty A) S"
    and "jwt_pair L sk pem (access_payload u jti t0)" and "jwt_pair L sk pem (stream_payload u topics ttl j2 t0)"
    and "L = ae_jwt V" and "ae_verifying V (sk_kid sk) = Some pem" and "t0 \<le> aq_now q"
    and "unix (aq_now q) < unix (t0 + ACCESS_TTL)" and "unix (aq_now q) < unix (t0 + ttl)" and "\<not> is_jwt_denylisted jti S"
    and "get_or_load (ae_cache_ttl V) (aq_now q) (aq_clock q) u S = (Some cx, S1)"
    and "acc = fst (mint_access_token L sk u jti t0)" and "str = fst (mint_stream_token L sk u topics ttl j2 t0)" and "str \<noteq> []"
  shows "(\<exists>p. fst (get_current_user V q acc S) = Inr p \<and> cu_user_id p = u \<and> pr_jti p = Some jti \<and> pr_pat_id p = None
        \<and> cu_effective_scopes p = cx_scopes cx)
    \<and> fst (get_stream_principal V q (Some acc) S) \<in> {Inl (AuthError ''wrong_token_type''), Inl (AuthError ''missing_stream_token'')}
    \<and> (\<exists>s. fst (get_stream_principal V q (Some str) S) = Inr s \<and> sp_user_id s = u \<and> sp_topics s = set topics)
    \<and> fst (get_current_user V q str S) = Inl (AuthError ''wrong_token_type'')"
proof -
  obtain c where c: "mint_access_token L sk u jti t0 = (acc, c)" using assms(11) by (metis prod.collapse)
  obtain d where d: "mint_stream_token L sk u topics ttl j2 t0 = (str, d)" using assms(12) by (metis prod.collapse)
  note a = access_token_read [where keys = "ae_verifying V", OF assms(2,5) c assms(6)]
  note s = stream_token_read [where keys = "ae_verifying V", OF assms(3,5) d assms(6)]
  have c': "ac_user_id c = u" "ac_jti c = jti" using c by (auto simp: mint_access_token_def)
  have d': "sm_user_id d = u" "sm_topics d = topics" using d by (auto simp: mint_stream_token_def)
  have u: "us_id (cx_user cx) = u" by (rule get_or_load_user [OF reachable_wf [OF assms(1)] assms(10)])
  have "fst (get_stream_principal V q (Some acc) S) \<in> {Inl (AuthError ''wrong_token_type''), Inl (AuthError ''missing_stream_token'')}"
    using a(2) assms(7) by (cases "acc = []") (simp_all add: get_stream_principal_def assms(4) [symmetric] not_le [symmetric])
  moreover have "\<exists>p. fst (get_current_user V q acc S) = Inr p \<and> cu_user_id p = u \<and> pr_jti p = Some jti \<and> pr_pat_id p = None
        \<and> cu_effective_scopes p = cx_scopes cx"
    using a(1,3) assms(7,9,10) u by (simp add: get_current_user_def assms(4) [symmetric] c' not_le [symmetric])
  moreover have "\<exists>s. fst (get_stream_principal V q (Some str) S) = Inr s \<and> sp_user_id s = u \<and> sp_topics s = set topics"
    using s(1) assms(8,10,13) u by (simp add: get_stream_principal_def assms(4) [symmetric] d' not_le [symmetric])
  moreover have "fst (get_current_user V q str S) = Inl (AuthError ''wrong_token_type'')"
    using s(2,3) assms(8) by (simp add: get_current_user_def assms(4) [symmetric] not_le [symmetric])
  ultimately show ?thesis by blast
qed

section \<open>Signing keys\<close>

text \<open>No operator key is registered without proof of possession: unless the signature verifies under the submitted
  key over this nonce and this key, and the nonce is an unspent, unexpired challenge of this operator, registration fails
  and the signing keys stay as they were.\<close>

lemma registration_needs_proof:
  assumes "\<not> (\<exists>c r. build_signing_key_challenge_canonical (uuid_str nonce) key = Some c \<and> fe_verify E key c sig
    \<and> r \<in> set (challenges F) \<and> challenge_live nonce u now r)"
  shows "(\<exists>e. fst (register_operator_signing_key E backend new_id u key nonce sig now F) = Inl e)
    \<and> signing_keys (snd (register_operator_signing_key E backend new_id u key nonce sig now F)) = signing_keys F"
proof (cases "load_ed25519_public_key backend key")
  case None
  then show ?thesis by (simp add: register_operator_signing_key_def)
next
  case (Some k)
  then have k: "k = key" by (auto simp: load_ed25519_public_key_def split: if_splits option.splits)
  show ?thesis
  proof (cases "build_signing_key_challenge_canonical (uuid_str nonce) key")
    case None
    then show ?thesis by (simp add: register_operator_signing_key_def Some)
  next
    case c: (Some c)
    show ?thesis
    proof (cases "fe_verify E key c sig")
      case True
      then have "filter (challenge_live nonce u now) (challenges F) = []" using assms c by (auto simp: filter_empty_conv)
      then show ?thesis using True
        by (simp add: register_operator_signing_key_def Some k c consume_signing_key_challenge_def rowcount_def)
    qed (simp add: register_operator_signing_key_def Some k c)
  qed
qed

lemma registered_key_active:
  assumes "register_operator_signing_key E backend new_id u key nonce sig now F = (Inr fp, F')"
  shows "fp = fingerprint E key \<and> (\<exists>r\<in>set (signing_keys F'). kh_user_id r = u \<and> kh_verifying_key r = key \<and> kh_retired_at r = None)"
  using assms unfolding register_operator_signing_key_def
  by (auto simp: record_signing_key_def fingerprint_of_def Let_def split: option.splits if_splits prod.splits bool.splits)

end
