(* ===== verification/Auth_Witnesses.thy ===== *)
theory Auth_Witnesses
  imports Auth_Properties
begin

text \<open>The authentication properties at concrete inputs: one account, its sessions, a token and a second factor.\<close>

definition example_jwt :: jwt_lib where
  "example_jwt = \<lparr>jl_encode = (\<lambda>k kid p. case map_of p ''typ'' of Some (JStr s) \<Rightarrow> s | _ \<Rightarrow> []),
     jl_header_kid = (\<lambda>tok. Some (Some ''k1'')),
     jl_decode = (\<lambda>pem now tok.
       let p = (if tok = ''access'' then access_payload 7 90 1000000 else stream_payload 7 [''attribution.linkage''] 60000000 91 1000000)
       in case map_of p ''exp'' of Some (JInt e) \<Rightarrow> if e \<le> unix now then Dec_EXPIRED else Dec_PAYLOAD p | _ \<Rightarrow> Dec_INVALID)\<rparr>"

definition example_auth_env :: auth_env where
  "example_auth_env = \<lparr>ae_emit = \<lparr>em_env = example_env, em_bus_ok = True, em_ctx = example_ctx\<rparr>, ae_jwt = example_jwt,
     ae_signing = \<lparr>sk_kid = ''k1'', sk_private = []\<rparr>, ae_verifying = [''k1'' \<mapsto> []], ae_hmac = (\<lambda>k s. s), ae_pepper = [],
     ae_sha256_hex = (\<lambda>s. s), ae_verify_password = (=), ae_totp = (\<lambda>s c t. c = ''123456''), ae_encrypt = (\<lambda>s. s),
     ae_decrypt = Some, ae_cache_ttl = 30000000\<rparr>"

definition example_req :: "nat \<Rightarrow> time \<Rightarrow> string \<Rightarrow> auth_req" where
  "example_req n t s = \<lparr>aq_now = t, aq_clock = t, aq_audit_id = n, aq_jti = n + 1, aq_new_id = n + 2, aq_secret = s,
     aq_prefix = ''abcdefghijklmnopqrstuv''\<rparr>"

definition example_s2 :: "string option \<Rightarrow> auth_store" where
  "example_s2 mfa = snd (put_credential 7 ''pw'' 1 mfa
     (snd (put_system_user 7 ''ana'' ''Ana'' User_ANALYST 1 None True None (auth_empty example_audit0))))"

definition example_s3 :: auth_store where
  "example_s3 = snd (auth_login example_auth_env (example_req 100 1000000 ''first'') ''ana'' ''pw'' (example_s2 None))"

lemma example_s2_run: "auth_run (auth_empty example_audit0) (example_s2 mfa)"
  unfolding example_s2_def
  by (rule run_snoc [OF run_snoc [OF rtranclp.rtrancl_refl auth_step.account] auth_step.credential])

lemma example_s3_run: "auth_run (auth_empty example_audit0) example_s3"
  unfolding example_s3_def by (rule run_snoc [OF example_s2_run auth_step.login])

lemma not_isl_pair: "\<not> isl (fst r) \<Longrightarrow> \<exists>x. r = (Inr x, snd r)"
  by (cases r; cases "fst r") auto

definition example_refreshed :: "(token_pair, auth_store) outcome" where
  "example_refreshed = auth_refresh example_auth_env (example_req 200 2000000 ''second'') ''first'' example_s3"

lemma example_refreshed_ok: "\<not> isl (fst example_refreshed)"
  by code_simp

theorem refresh_token_single_use_witness:
  "fst (auth_refresh example_auth_env (example_req 300 3000000 ''third'') ''first'' (snd example_refreshed)) = Inl (AuthError ''invalid_refresh'')"
proof -
  obtain x where x: "example_refreshed = (Inr x, snd example_refreshed)" using not_isl_pair [OF example_refreshed_ok] by blast
  show ?thesis by (rule refresh_token_single_use [OF example_s3_run x [unfolded example_refreshed_def] rtranclp.rtrancl_refl, folded example_refreshed_def])
qed

definition example_principal :: principal where
  "example_principal = \<lparr>cu_user_id = 7, cu_effective_scopes = {''read:cases'', ''write:cases''}, pr_username = ''ana'',
     pr_role = User_ANALYST, pr_token_expires_at = Some 901000000, pr_jti = Some 90, pr_pat_id = None\<rparr>"

definition example_logout :: "(unit, auth_store) outcome" where
  "example_logout = auth_logout example_auth_env (example_req 400 4000000 []) (example_principal\<lparr>pr_jti := Some 89\<rparr>) (Some ''first'') example_s3"

definition example_admitted :: "auth_store \<Rightarrow> (principal, auth_store) outcome" where
  "example_admitted S = get_current_user example_auth_env (example_req 500 5000000 []) ''access'' S"

lemma example_logout_ok: "\<not> isl (fst example_logout)"
  by code_simp

lemma example_admitted_ok: "\<not> isl (fst (example_admitted (snd example_logout)))" "\<not> isl (fst (example_admitted example_s3))"
  by code_simp+

theorem logged_out_stays_out_witness:
  "\<exists>p. fst (example_admitted (snd example_logout)) = Inr p \<and> (pr_jti p = None \<or> pr_jti p \<noteq> Some 89)"
proof -
  obtain u where u: "example_logout = (Inr u, snd example_logout)" using not_isl_pair [OF example_logout_ok] by blast
  obtain p where p: "example_admitted (snd example_logout) = (Inr p, snd (example_admitted (snd example_logout)))"
    using not_isl_pair [OF example_admitted_ok(1)] by blast
  have "pr_jti p = None \<or> pr_jti p \<noteq> pr_jti (example_principal\<lparr>pr_jti := Some 89\<rparr>)"
    by (rule logged_out_stays_out [OF example_s3_run u [unfolded example_logout_def] _ p [unfolded example_admitted_def]])
       (simp add: example_logout_def)
  then show ?thesis using p by (intro exI [of _ p]) (simp add: prod_eq_iff)
qed

definition example_mint :: "(pat_row \<times> string, auth_store) outcome" where
  "example_mint = auth_mint_token example_auth_env (example_req 600 6000000 ''ABCDEFGHIJKLMNOPQRSTUVWXYZ012345'') example_principal ''ci''
     [''write:cases''] None None example_s3"

definition example_pat :: string where
  "example_pat = ''eyenet_pat_abcdefghijklmnopqrstuv_ABCDEFGHIJKLMNOPQRSTUVWXYZ012345''"

definition example_pat_request :: "(principal, auth_store) outcome" where
  "example_pat_request = get_current_user example_auth_env (example_req 700 7000000 []) example_pat (snd example_mint)"

lemma map_sum_Inr: "map_sum f snd r = Inr t \<Longrightarrow> \<exists>x. r = Inr (x, t)"
  by (cases r) auto

lemma example_mint_ok: "map_sum (\<lambda>_. ()) snd (fst example_mint) = Inr example_pat" "\<not> isl (fst example_pat_request)"
  by code_simp+

theorem pat_scopes_frozen_witness:
  "\<exists>p. fst example_pat_request = Inr p \<and> cu_effective_scopes p = {''write:cases''} \<and> cu_user_id p = 7"
proof -
  obtain row where m: "example_mint = (Inr (row, example_pat), snd example_mint)"
    using map_sum_Inr [OF example_mint_ok(1)] by (metis prod.collapse)
  obtain p where p: "example_pat_request = (Inr p, snd example_pat_request)" using not_isl_pair [OF example_mint_ok(2)] by blast
  have "cu_effective_scopes p = set [''write:cases''] \<and> set [''write:cases''] \<subseteq> cu_effective_scopes example_principal
      \<and> cu_user_id p = cu_user_id example_principal"
    by (rule pat_scopes_frozen [OF example_s3_run m [unfolded example_mint_def] _ _ _ p [unfolded example_pat_request_def]])
       (simp_all add: example_mint_def example_req_def PREFIX_LEN_def SECRET_LEN_def)
  then show ?thesis using p by (intro exI [of _ p]) (simp add: prod_eq_iff example_principal_def)
qed

definition example_challenged :: auth_store where
  "example_challenged = snd (auth_login example_auth_env (example_req 100 1000000 []) ''ana'' ''pw'' (example_s2 (Some ''S'')))"

lemma example_challenged_run: "auth_run (auth_empty example_audit0) example_challenged"
  unfolding example_challenged_def by (rule run_snoc [OF example_s2_run auth_step.login])

definition example_guesses :: "(auth_req \<times> string) list" where
  "example_guesses = map (\<lambda>n. (example_req n 2000000 [], ''000000'')) [200, 210, 220, 230, 240, 250]"

text \<open>Six wrong codes in one second are one failure; the right code then still opens the session.\<close>

lemma example_guesses_count: "count_recent_mfa_failures 7 0 (verify_attempts example_auth_env 102 example_guesses example_challenged) = 1"
  by code_simp

lemma example_not_locked:
  "\<not> isl (fst (auth_login_verify example_auth_env (example_req 300 3000000 ''third'') 102 ''123456''
     (verify_attempts example_auth_env 102 example_guesses example_challenged)))"
  by code_simp

theorem guessing_one_challenge_counts_once_witness:
  "count_recent_mfa_failures 7 0 (verify_attempts example_auth_env 102 example_guesses example_challenged) < LOCKOUT_THRESHOLD"
proof -
  have "count_recent_mfa_failures 7 0 example_challenged = 0" by code_simp
  then show ?thesis using guessing_one_challenge_counts_once [OF example_challenged_run, of 7 0 example_auth_env 102 example_guesses]
    by (simp add: LOCKOUT_THRESHOLD_def)
qed

theorem authority_bounded_stale_witness:
  "\<exists>p T u. fst (example_admitted example_s3) = Inr p \<and> get_system_user_by_id (cu_user_id p) T = Some u \<and> us_is_active u"
proof -
  obtain p where p: "example_admitted example_s3 = (Inr p, snd (example_admitted example_s3))"
    using not_isl_pair [OF example_admitted_ok(2)] by blast
  then have f: "fst (example_admitted example_s3) = Inr p" by (metis fst_conv)
  have "map_sum (\<lambda>_. ()) pr_pat_id (fst (example_admitted example_s3)) = Inr None" by code_simp
  then have "pr_pat_id p = None" by (simp add: f)
  from authority_bounded_stale [OF example_s3_run p [unfolded example_admitted_def] this]
  show ?thesis using f by (elim disjE exE conjE) blast+
qed

lemma example_jwt_pairs: "jwt_pair example_jwt \<lparr>sk_kid = ''k1'', sk_private = []\<rparr> [] (access_payload 7 90 1000000)"
  "jwt_pair example_jwt \<lparr>sk_kid = ''k1'', sk_private = []\<rparr> [] (stream_payload 7 [''attribution.linkage''] 60000000 91 1000000)"
  by (simp_all add: jwt_pair_def example_jwt_def access_payload_def stream_payload_def Let_def is_pat_def startswith_def TOKEN_PREFIX_def)

theorem token_kinds_isolated_witness:
  "\<exists>s. fst (get_stream_principal example_auth_env (example_req 500 5000000 []) (Some ''stream'') example_s3) = Inr s
     \<and> sp_user_id s = 7 \<and> sp_topics s = {''attribution.linkage''}"
proof -
  let ?q = "example_req 500 5000000 []"
  have l: "fst (get_or_load 30000000 5000000 5000000 7 example_s3) \<noteq> None" by code_simp
  then obtain cx S1 where g: "get_or_load 30000000 5000000 5000000 7 example_s3 = (Some cx, S1)"
    by (cases "get_or_load 30000000 5000000 5000000 7 example_s3") auto
  have d: "\<not> is_jwt_denylisted 90 example_s3" by code_simp
  have ar: "''access'' = fst (mint_access_token example_jwt \<lparr>sk_kid = ''k1'', sk_private = []\<rparr> 7 90 1000000)"
    "''stream'' = fst (mint_stream_token example_jwt \<lparr>sk_kid = ''k1'', sk_private = []\<rparr> 7 [''attribution.linkage''] 60000000 91 1000000)"
    by (simp_all add: mint_access_token_def mint_stream_token_def example_jwt_def access_payload_def stream_payload_def)
  have "\<exists>s. fst (get_stream_principal example_auth_env ?q (Some ''stream'') example_s3) = Inr s \<and> sp_user_id s = 7 \<and> sp_topics s = set [''attribution.linkage'']"
    by (rule token_kinds_isolated [THEN conjunct2, THEN conjunct2, THEN conjunct1, OF example_s3_run example_jwt_pairs _ _ _ _ _ d _ ar])
       (simp_all add: example_auth_env_def example_req_def g unix_def ACCESS_TTL_def seconds_def)
  then show ?thesis by simp
qed

end
