(* ===== verification/Api_Guards.thy ===== *)
theory Api_Guards
  imports Join_Flow
begin

text \<open>
  The middleware of the API (\<open>api/middleware\<close>), outermost first: the forwarded client address, the rate limit, the
  idempotency guard over its table (\<open>sqlmodel_repo/idempotency.py\<close>) and the audit of evidence reads. Then the
  cursors of the listings (\<open>api/deps_paging.py\<close>). SHA-256, base64 and the JSON decoder are parameters.
\<close>

section \<open>Requests\<close>

text \<open>What the middleware reads of an ASGI scope; header names are lower case.\<close>

record http_request =
  hq_method :: string
  hq_path :: string
  hq_query :: string
  hq_headers :: "(string \<times> string) list"
  hq_body :: bytes
  hq_client :: "string option"

record http_response =
  hr_status :: nat
  hr_body :: bytes

definition is_ascii_space :: "char \<Rightarrow> bool" where
  "is_ascii_space c \<longleftrightarrow> (let n = of_char c :: nat in (9 \<le> n \<and> n \<le> 13) \<or> n = 32)"

definition bytes_strip :: "string \<Rightarrow> string" where
  "bytes_strip s = rev (dropWhile is_ascii_space (rev (dropWhile is_ascii_space s)))"

definition ascii_lower :: "string \<Rightarrow> string" where
  "ascii_lower s = map (\<lambda>c. let n = of_char c :: nat in if 65 \<le> n \<and> n \<le> 90 then char_of (n + 32) else c) s"

section \<open>Forwarded address\<close>

fun leftmost_xff :: "(string \<times> string) list \<Rightarrow> string option" where
  "leftmost_xff [] = None"
| "leftmost_xff ((name, v) # hs) =
     (let first = bytes_strip (takeWhile (\<lambda>c. c \<noteq> CHR '','') v)
      in if name = ''x-forwarded-for'' \<and> first \<noteq> [] then Some first else leftmost_xff hs)"

definition forwarded :: "http_request \<Rightarrow> http_request" where
  "forwarded q = (case leftmost_xff (hq_headers q) of None \<Rightarrow> q | Some ip \<Rightarrow> q\<lparr>hq_client := Some ip\<rparr>)"

section \<open>Rate limit\<close>

fun bearer_bucket :: "(string \<Rightarrow> string) \<Rightarrow> (string \<times> string) list \<Rightarrow> string option" where
  "bearer_bucket sha [] = None"
| "bearer_bucket sha ((name, v) # hs) =
     (if name = ''authorization'' \<and> ascii_lower (take 7 v) = ''bearer '' \<and> bytes_strip (drop 7 v) \<noteq> []
      then Some (''t:'' @ take 16 (sha (bytes_strip (drop 7 v)))) else bearer_bucket sha hs)"

definition rate_key :: "(string \<Rightarrow> string) \<Rightarrow> http_request \<Rightarrow> string" where
  "rate_key sha q = (case bearer_bucket sha (hq_headers q) of
      Some k \<Rightarrow> k
    | None \<Rightarrow> ''ip:'' @ (case hq_client q of None \<Rightarrow> ''unknown'' | Some ip \<Rightarrow> ip))"

type_synonym buckets = "string \<Rightarrow> time list"

definition admit :: "nat \<Rightarrow> int \<Rightarrow> time \<Rightarrow> string \<Rightarrow> buckets \<Rightarrow> nat option \<times> buckets" where
  "admit limit window now key B =
     (let bucket = dropWhile (\<lambda>t. t \<le> now - window) (B key) in
      if limit \<le> length bucket then (None, B(key := bucket))
      else let bucket' = bucket @ [now] in (Some (limit - length bucket'), B(key := bucket')))"

section \<open>Idempotency records\<close>

record idem_row =
  ir_key :: string
  ir_request_hash :: string
  ir_response_status :: "nat option"
  ir_response_body :: "(string \<times> jval) list option"
  ir_bus_state :: string
  ir_user :: "uuid option"
  ir_created_at :: time
  ir_expires_at :: time

definition IDEMPOTENCY_TTL :: int where "IDEMPOTENCY_TTL = seconds 604800"

definition idem_expired :: "time \<Rightarrow> idem_row \<Rightarrow> bool" where
  "idem_expired now r \<longleftrightarrow> ir_expires_at r \<le> now"

definition get_idempotency_record :: "string \<Rightarrow> time \<Rightarrow> idem_row list \<Rightarrow> idem_row option" where
  "get_idempotency_record key now rows =
     (case tbl_get ir_key key rows of None \<Rightarrow> None | Some r \<Rightarrow> if idem_expired now r then None else Some r)"

text \<open>
  \<open>won\<close>, or the row that is there. The reservation is not one transaction: each attempt inserts in one, and on a
  conflict reads the row in another, in which an expired row is deleted by its key. Requests interleave between these
  statements, so a reservation is a record of its arguments and of where it stands, and \<open>reserve_step\<close> runs one statement.
  \<open>rv_left\<close> counts the attempts that are left: the loop makes two.
\<close>

datatype reserve_result = Won | Lost "idem_row option"

datatype reserve_phase = Inserting | Reading | Reclaiming | GivingUp

record reservation =
  rv_key :: string
  rv_hash :: string
  rv_user :: "uuid option"
  rv_ttl :: int
  rv_stamp :: time
  rv_left :: nat
  rv_phase :: reserve_phase

definition start_reservation :: "string \<Rightarrow> string \<Rightarrow> uuid option \<Rightarrow> int \<Rightarrow> time \<Rightarrow> reservation" where
  "start_reservation key h user ttl stamp =
     \<lparr>rv_key = key, rv_hash = h, rv_user = user, rv_ttl = ttl, rv_stamp = stamp, rv_left = 1, rv_phase = Inserting\<rparr>"

definition next_attempt :: "reservation \<Rightarrow> reservation" where
  "next_attempt p = (case rv_left p of 0 \<Rightarrow> p\<lparr>rv_phase := GivingUp\<rparr> | Suc n \<Rightarrow> p\<lparr>rv_left := n, rv_phase := Inserting\<rparr>)"

definition pending_row :: "reservation \<Rightarrow> idem_row" where
  "pending_row p = \<lparr>ir_key = rv_key p, ir_request_hash = rv_hash p, ir_response_status = None, ir_response_body = None,
     ir_bus_state = ''pending'', ir_user = rv_user p, ir_created_at = rv_stamp p, ir_expires_at = rv_stamp p + rv_ttl p\<rparr>"

definition reserve_step :: "reservation \<Rightarrow> idem_row list \<Rightarrow> (reservation + reserve_result) \<times> idem_row list" where
  "reserve_step p rows =
     (case rv_phase p of
        Inserting \<Rightarrow>
          if tbl_has ir_key (rv_key p) rows then (Inl (p\<lparr>rv_phase := Reading\<rparr>), rows)
          else (Inr Won, rows @ [pending_row p])
      | Reading \<Rightarrow>
          (case tbl_get ir_key (rv_key p) rows of
             None \<Rightarrow> (Inl (next_attempt p), rows)
           | Some r \<Rightarrow> if idem_expired (rv_stamp p) r then (Inl (p\<lparr>rv_phase := Reclaiming\<rparr>), rows)
                       else (Inr (Lost (Some r)), rows))
      | Reclaiming \<Rightarrow> (Inl (next_attempt p), tbl_delete ir_key (rv_key p) rows)
      | GivingUp \<Rightarrow> (Inr (Lost None), rows))"

text \<open>The statements of one reservation with nothing in between.\<close>

fun reserve_loop :: "nat \<Rightarrow> reservation \<Rightarrow> idem_row list \<Rightarrow> (reserve_result \<times> idem_row list) option" where
  "reserve_loop 0 p rows = None"
| "reserve_loop (Suc n) p rows =
     (case reserve_step p rows of
        (Inl p', rows') \<Rightarrow> reserve_loop n p' rows'
      | (Inr res, rows') \<Rightarrow> Some (res, rows'))"

text \<open>Whatever runs in between, a reservation ends after at most seven statements.\<close>

definition reserve_effort :: "reservation \<Rightarrow> nat" where
  "reserve_effort p = (case rv_phase p of Inserting \<Rightarrow> 3 | Reading \<Rightarrow> 2 | Reclaiming \<Rightarrow> 1 | GivingUp \<Rightarrow> 0) + 3 * rv_left p"

lemma reserve_step_effort: "reserve_step p rows = (Inl p', rows') \<Longrightarrow> reserve_effort p' < reserve_effort p"
  by (auto simp: reserve_step_def reserve_effort_def next_attempt_def split: reserve_phase.splits if_splits option.splits nat.splits)

lemma reserve_undisturbed:
  "reserve_loop 4 (start_reservation k h u ttl t) rows =
    (case tbl_get ir_key k rows of
       None \<Rightarrow> Some (Won, rows @ [pending_row (start_reservation k h u ttl t)])
     | Some r \<Rightarrow> if idem_expired t r then Some (Won, tbl_delete ir_key k rows @ [pending_row (start_reservation k h u ttl t)])
                else Some (Lost (Some r), rows))"
proof -
  have four: "(4::nat) = Suc (Suc (Suc (Suc 0)))" by simp
  have gone: "\<not> tbl_has ir_key k (tbl_delete ir_key k rows)" by (auto simp: tbl_has_def tbl_delete_def)
  show ?thesis
    unfolding four
    by (auto simp: reserve_step_def start_reservation_def next_attempt_def pending_row_def tbl_get_None_iff gone
        split: option.split dest: tbl_get_Some_has)
qed

definition finalize_idempotency_record ::
  "string \<Rightarrow> nat \<Rightarrow> (string \<times> jval) list \<Rightarrow> string \<Rightarrow> idem_row list \<Rightarrow> idem_row list" where
  "finalize_idempotency_record key status body bus_state rows =
     (case tbl_get ir_key key rows of
        None \<Rightarrow> rows
      | Some r \<Rightarrow> tbl_save ir_key (r\<lparr>ir_response_status := Some status, ir_response_body := Some body, ir_bus_state := bus_state\<rparr>) rows)"

definition delete_idempotency_record :: "string \<Rightarrow> idem_row list \<Rightarrow> idem_row list" where
  "delete_idempotency_record key rows = tbl_delete ir_key key rows"

text \<open>The purge selects the expired rows and then deletes each by its key.\<close>

definition expired_keys :: "time \<Rightarrow> idem_row list \<Rightarrow> string list" where
  "expired_keys now rows = map ir_key (filter (idem_expired now) rows)"

definition purge_expired_idempotency :: "time \<Rightarrow> idem_row list \<Rightarrow> nat \<times> idem_row list" where
  "purge_expired_idempotency now rows =
     (let doomed = expired_keys now rows in (length doomed, fold delete_idempotency_record doomed rows))"

section \<open>The idempotency guard\<close>

fun header_value :: "string \<Rightarrow> (string \<times> string) list \<Rightarrow> string option" where
  "header_value n [] = None"
| "header_value n ((m, v) # hs) = (if m = n then Some (take 128 v) else header_value n hs)"

text \<open>The key of a guarded request; \<open>None\<close> passes through.\<close>

definition guarded_key :: "http_request \<Rightarrow> string option" where
  "guarded_key q =
     (if hq_method q \<noteq> ''POST'' \<or> take 4 (hq_path q) \<noteq> ''/v1/'' then None
      else (case header_value ''idempotency-key'' (hq_headers q) of None \<Rightarrow> None | Some k \<Rightarrow> if k = [] then None else Some k))"

definition request_bytes :: "http_request \<Rightarrow> bytes" where
  "request_bytes q = utf8 (hq_method q) @ utf8 '' '' @ utf8 (hq_path q) @ [10] @ hq_body q"

definition request_hash :: "(bytes \<Rightarrow> string) \<Rightarrow> http_request \<Rightarrow> string" where
  "request_hash sha_hex q = sha_hex (request_bytes q)"

datatype arrival =
    Invoke
  | Conflict string
  | Replay nat "(string \<times> jval) list"

definition handle_contended :: "idem_row option \<Rightarrow> string \<Rightarrow> arrival" where
  "handle_contended existing h =
     (case existing of
        None \<Rightarrow> Conflict ''idempotency reservation contended; retry''
      | Some r \<Rightarrow>
          if ir_request_hash r \<noteq> h then Conflict ''Idempotency-Key reused with a different request body''
          else (case ir_response_status r of
                  None \<Rightarrow> Conflict ''a request with this Idempotency-Key is still in progress''
                | Some status \<Rightarrow> Replay status (case ir_response_body r of None \<Rightarrow> [] | Some b \<Rightarrow> b)))"

text \<open>What becomes of a request whose reservation has ended: its handler runs, or it is answered at once.\<close>

definition idem_answer :: "(bytes \<Rightarrow> string) \<Rightarrow> http_request \<Rightarrow> reserve_result \<Rightarrow> arrival" where
  "idem_answer sha_hex q res = (case res of Won \<Rightarrow> Invoke | Lost existing \<Rightarrow> handle_contended existing (request_hash sha_hex q))"

definition idem_arrive :: "(bytes \<Rightarrow> string) \<Rightarrow> string \<Rightarrow> http_request \<Rightarrow> time \<Rightarrow> reservation" where
  "idem_arrive sha_hex key q stamp = start_reservation key (request_hash sha_hex q) None IDEMPOTENCY_TTL stamp"

text \<open>\<open>outcome\<close>: the response of the handler, or \<open>None\<close> when it raised.\<close>

definition is_2xx :: "nat \<Rightarrow> bool" where
  "is_2xx status \<longleftrightarrow> 200 \<le> status \<and> status < 300"

definition idem_finish ::
  "(bytes \<Rightarrow> (string \<times> jval) list) \<Rightarrow> string \<Rightarrow> http_response option \<Rightarrow> idem_row list \<Rightarrow> idem_row list" where
  "idem_finish decode_json key result rows =
     (case result of
        None \<Rightarrow> delete_idempotency_record key rows
      | Some r \<Rightarrow> if is_2xx (hr_status r) then finalize_idempotency_record key (hr_status r) (decode_json (hr_body r)) ''delivered'' rows
                  else delete_idempotency_record key rows)"

section \<open>Evidence reads\<close>

definition EVIDENCE_FAMILIES :: "string \<Rightarrow> string option" where
  "EVIDENCE_FAMILIES = map_of [(''actors'', ''actor''), (''personas'', ''persona''), (''linkages'', ''linkage''),
     (''graph'', ''graph''), (''audit'', ''audit'')]"

definition evidence_kind :: "string \<Rightarrow> string option" where
  "evidence_kind path =
     (if take 4 path \<noteq> ''/v1/'' then None else EVIDENCE_FAMILIES (takeWhile (\<lambda>c. c \<noteq> CHR ''/'') (drop 4 path)))"

fun subject_id :: "(string \<Rightarrow> uuid option) \<Rightarrow> string list \<Rightarrow> uuid option" where
  "subject_id parse [] = None"
| "subject_id parse (v # vs) = (case parse v of Some u \<Rightarrow> Some u | None \<Rightarrow> subject_id parse vs)"

text \<open>
  \<open>params\<close>: the path parameters of the matched route; \<open>user\<close>: who \<open>RequireScope\<close> recorded. A failed append becomes the
  503 that withholds the body; a failed publish is raised and serves no body either.
\<close>

definition maybe_audit ::
  "emit_env \<Rightarrow> (string \<Rightarrow> uuid option) \<Rightarrow> uuid \<Rightarrow> time \<Rightarrow> uuid option \<Rightarrow> string list \<Rightarrow> string \<Rightarrow> http_request \<Rightarrow> http_response
   \<Rightarrow> audit_store \<Rightarrow> (http_response, audit_store) outcome" where
  "maybe_audit M parse audit_id now user params request_id q response A =
     (case evidence_kind (hq_path q) of
        None \<Rightarrow> (Inr response, A)
      | Some kind \<Rightarrow>
          if hq_method q \<noteq> ''GET'' \<or> 300 \<le> hr_status response then (Inr response, A)
          else if \<not> em_bus_ok M then (Inl (RuntimeError ''audit publish failed''), A)
          else (case append_audit (em_env M) (build_audit_row audit_id ''eyenet.audit.evidence_access'' user kind
                       (subject_id parse params)
                       [(''path'', JStr (hq_path q)), (''query'', JStr (hq_query q)), (''request_id'', JStr request_id)] now (em_ctx M)) A of
                  (Inl e, A') \<Rightarrow> (Inr \<lparr>hr_status = 503, hr_body = utf8 ''audit log unavailable; evidence withheld''\<rparr>, A')
                | (Inr _, A') \<Rightarrow> (Inr response, A')))"

section \<open>Cursors\<close>

definition encode_cursor :: "(string \<Rightarrow> string) \<Rightarrow> nat \<Rightarrow> string" where
  "encode_cursor b64 offset = b64 (nat_str offset)"

definition malformed_cursor :: exn where
  "malformed_cursor = RequestValidationError ''malformed cursor''"

definition decode_cursor :: "(string \<Rightarrow> string option) \<Rightarrow> string option \<Rightarrow> exn + nat" where
  "decode_cursor unb64 cursor =
     (case cursor of
        None \<Rightarrow> Inr 0
      | Some c \<Rightarrow> (case Option.bind (unb64 c) py_int of
                     None \<Rightarrow> Inl malformed_cursor
                   | Some offset \<Rightarrow> if offset < 0 then Inl malformed_cursor else Inr (nat offset)))"

text \<open>One page of a listing: fetch one row more than asked for, and name the next page if it is there.\<close>

definition next_cursor :: "(string \<Rightarrow> string) \<Rightarrow> nat \<Rightarrow> nat \<Rightarrow> nat \<Rightarrow> string option" where
  "next_cursor b64 offset limit fetched = (if fetched > limit then Some (encode_cursor b64 (offset + limit)) else None)"

definition list_page ::
  "(string \<Rightarrow> string) \<Rightarrow> (string \<Rightarrow> string option) \<Rightarrow> nat \<Rightarrow> string option \<Rightarrow> 'r list \<Rightarrow> exn + 'r list \<times> string option" where
  "list_page b64 unb64 limit cursor rows =
     (case decode_cursor unb64 cursor of
        Inl e \<Rightarrow> Inl e
      | Inr offset \<Rightarrow> let fetched = page offset (limit + 1) rows
                      in Inr (take limit fetched, next_cursor b64 offset limit (length fetched)))"

end
