(* ===== verification/Guard_Properties.thy ===== *)
theory Guard_Properties
  imports Api_Guards
begin

text \<open>
  What the middleware guarantees over a run of requests: the rate limit over every window, one run of a handler per
  idempotency key, the audit before the evidence, and listings that follow their cursors to the end.
\<close>

section \<open>Rate limit\<close>

definition admission_step :: "nat \<Rightarrow> int \<Rightarrow> time \<times> string \<Rightarrow> buckets \<times> (time \<times> string) list \<Rightarrow> buckets \<times> (time \<times> string) list" where
  "admission_step limit window q s =
     (case admit limit window (fst q) (snd q) (fst s) of
        (None, B) \<Rightarrow> (B, snd s)
      | (Some n, B) \<Rightarrow> (B, snd s @ [q]))"

text \<open>The requests admitted, from an empty window, in the order they arrive.\<close>

definition admitted :: "nat \<Rightarrow> int \<Rightarrow> (time \<times> string) list \<Rightarrow> (time \<times> string) list" where
  "admitted limit window qs = snd (fold (admission_step limit window) qs (\<lambda>_. [], []))"

definition times_of :: "string \<Rightarrow> (time \<times> string) list \<Rightarrow> time list" where
  "times_of k h = map fst (filter (\<lambda>x. snd x = k) h)"

definition in_window :: "int \<Rightarrow> time \<Rightarrow> string \<Rightarrow> (time \<times> string) list \<Rightarrow> nat" where
  "in_window window t k h = length (filter (\<lambda>s. t - window < s \<and> s \<le> t) (times_of k h))"

definition admission_inv :: "nat \<Rightarrow> int \<Rightarrow> time \<Rightarrow> buckets \<times> (time \<times> string) list \<Rightarrow> bool" where
  "admission_inv limit window now s \<longleftrightarrow>
     (\<forall>k. sorted (times_of k (snd s)) \<and> (\<forall>x\<in>set (times_of k (snd s)). x \<le> now)
        \<and> (\<exists>c \<le> now - window. fst s k = filter (\<lambda>x. c < x) (times_of k (snd s)))
        \<and> (\<forall>t. in_window window t k (snd s) \<le> limit))"

lemma filter_le_mono: "(\<And>x. P x \<Longrightarrow> Q x) \<Longrightarrow> length (filter P xs) \<le> length (filter Q xs)"
  by (induction xs) auto

lemma times_of_snoc: "times_of k (h @ [q]) = times_of k h @ (if snd q = k then [fst q] else [])"
  by (simp add: times_of_def)

lemma dropWhile_sorted: "sorted xs \<Longrightarrow> dropWhile (\<lambda>x. x \<le> c) xs = filter (\<lambda>x. c < x) (xs :: int list)"
proof (induction xs)
  case (Cons x xs)
  show ?case
  proof (cases "x \<le> c")
    case False
    then have "filter (\<lambda>x. c < x) xs = xs" using Cons.prems by (intro filter_True) auto
    then show ?thesis using False by simp
  qed (use Cons in simp)
qed simp

lemma dropWhile_filter: "sorted xs \<Longrightarrow> c \<le> d \<Longrightarrow> dropWhile (\<lambda>x. x \<le> d) (filter (\<lambda>x. c < x) xs) = filter (\<lambda>x. d < x) (xs :: int list)"
proof -
  assume s: "sorted xs" and cd: "c \<le> d"
  have "dropWhile (\<lambda>x. x \<le> d) (filter (\<lambda>x. c < x) xs) = filter (\<lambda>x. d < x) (filter (\<lambda>x. c < x) xs)"
    using s by (intro dropWhile_sorted) (use sorted_filter [of "\<lambda>x. x" xs] in simp)
  also have "\<dots> = filter (\<lambda>x. d < x) xs" using cd by (auto intro: filter_cong)
  finally show ?thesis .
qed

lemma admission_step_inv:
  assumes inv: "admission_inv limit window now s" and later: "now \<le> fst q" and W: "0 < window"
  shows "admission_inv limit window (fst q) (admission_step limit window q s)"
proof -
  obtain B h where s: "s = (B, h)" by (cases s)
  obtain t0 k0 where q: "q = (t0, k0)" by (cases q)
  have I: "sorted (times_of k h)" "\<forall>x\<in>set (times_of k h). x \<le> now" "\<exists>c \<le> now - window. B k = filter (\<lambda>x. c < x) (times_of k h)"
    "in_window window t k h \<le> limit" for k t
    using inv unfolding admission_inv_def s by auto
  let ?b = "filter (\<lambda>x. t0 - window < x) (times_of k0 h)"
  have bucket: "dropWhile (\<lambda>x. x \<le> t0 - window) (B k0) = ?b"
  proof -
    obtain c where "c \<le> now - window" and "B k0 = filter (\<lambda>x. c < x) (times_of k0 h)" using I(3) by blast
    then show ?thesis using dropWhile_filter [OF I(1), of c "t0 - window" k0] later q by simp
  qed
  have old: "\<exists>c \<le> t0 - window. B k = filter (\<lambda>x. c < x) (times_of k h)" for k
    using I(3) [of k] later q by (metis diff_right_mono fst_conv order_trans)
  have le: "\<forall>x\<in>set (times_of k h). x \<le> t0" for k using I(2) later q by fastforce
  show ?thesis
  proof (cases "limit \<le> length ?b")
    case True
    then have "admission_step limit window q s = (B(k0 := ?b), h)" by (simp add: admission_step_def admit_def bucket s q Let_def)
    then show ?thesis unfolding admission_inv_def using I(1,4) le old by (auto simp: q)
  next
    case False
    then have eq: "admission_step limit window q s = (B(k0 := ?b @ [t0]), h @ [(t0, k0)])"
      by (simp add: admission_step_def admit_def bucket s q Let_def)
    have cnt: "in_window window t k (h @ [(t0, k0)]) \<le> limit" for t k
    proof (cases "k = k0 \<and> t - window < t0 \<and> t0 \<le> t")
      case True
      have "length (filter (\<lambda>s. t - window < s \<and> s \<le> t) (times_of k0 h)) \<le> length ?b"
        using True by (intro filter_le_mono) auto
      then show ?thesis using True False by (simp add: in_window_def times_of_snoc)
    next
      case False
      then show ?thesis using I(4) [where t = t and k = k] by (auto simp: in_window_def times_of_snoc)
    qed
    have srt: "sorted (times_of k (h @ [(t0, k0)]))" for k using I(1) le by (simp add: times_of_snoc sorted_append)
    have "\<exists>c \<le> t0 - window. (B(k0 := ?b @ [t0])) k = filter (\<lambda>x. c < x) (times_of k (h @ [(t0, k0)]))" for k
      using old [of k] W by (cases "k = k0") (auto simp: times_of_snoc intro!: exI [of _ "t0 - window"])
    then show ?thesis unfolding eq admission_inv_def using srt le cnt by (auto simp: q times_of_snoc)
  qed
qed

lemma admission_fold_inv:
  assumes "sorted (map fst qs)" and "\<forall>q\<in>set qs. now \<le> fst q" and "admission_inv limit window now s" and "0 < window"
  shows "\<exists>n. admission_inv limit window n (fold (admission_step limit window) qs s)"
  using assms
proof (induction qs arbitrary: now s)
  case (Cons q qs)
  have "admission_inv limit window (fst q) (admission_step limit window q s)"
    using Cons.prems by (intro admission_step_inv) auto
  then show ?case using Cons.IH [of "fst q"] Cons.prems by simp
qed auto

text \<open>C33: The rate limit holds over every window: whatever requests arrive, under whatever keys, the requests of one key
  admitted within any span of the window's length are at most the limit.\<close>

theorem rate_window_bound:
  assumes "sorted (map fst qs)" and "0 < window"
  shows "in_window window t k (admitted limit window qs) \<le> limit"
proof -
  have "admission_inv limit window (case qs of [] \<Rightarrow> 0 | q # _ \<Rightarrow> fst q) (\<lambda>_. [], [])"
    by (auto simp: admission_inv_def times_of_def in_window_def)
  moreover have "\<forall>q\<in>set qs. (case qs of [] \<Rightarrow> 0 | q # _ \<Rightarrow> fst q) \<le> fst q" using assms(1) by (cases qs) auto
  ultimately obtain n where "admission_inv limit window n (fold (admission_step limit window) qs (\<lambda>_. [], []))"
    using admission_fold_inv [OF assms(1)] assms(2) by blast
  then show ?thesis by (simp add: admission_inv_def admitted_def)
qed

theorem rate_window_bound_witness:
  "in_window 60 70 ''ip:a'' (admitted 2 60 [(10, ''ip:a''), (20, ''ip:b''), (30, ''ip:a''), (40, ''ip:a''), (70, ''ip:a'')]) \<le> 2"
  by (rule rate_window_bound) simp_all

section \<open>Idempotency over a run\<close>

text \<open>
  Requests interleave between the statements of a reservation, while handlers run and while a purge is between its
  selection and its deletions. The record keeps the reservations under way with their requests, the keys whose handler
  is running, the keys a purge has selected, and a trace. An invocation in the trace carries the stamp its reservation
  took when it started and the time at which its handler runs; \<open>Lapse\<close> is the deletion by key of a record that has not
  expired; a request that raises or is cancelled before its handler leaves nothing (\<open>give_up\<close>), and a process that dies, or
  whose last write fails, leaves its record (\<open>crash\<close>).
\<close>

datatype guard_event =
    Invoked string http_request time time
  | Released string "http_response option"
  | Lapse string
  | Completed string nat
  | Answered string http_request arrival

record guard_state =
  gs_rows :: "idem_row list"
  gs_pending :: "(reservation \<times> http_request) list"
  gs_flight :: "string list"
  gs_doomed :: "string list"
  gs_events :: "guard_event list"
  gs_now :: time

definition guard_empty :: guard_state where
  "guard_empty = \<lparr>gs_rows = [], gs_pending = [], gs_flight = [], gs_doomed = [], gs_events = [], gs_now = 0\<rparr>"

text \<open>What the deletion of a key by name does to the trace: a record that has not expired is lost.\<close>

definition lapses :: "time \<Rightarrow> string \<Rightarrow> idem_row list \<Rightarrow> guard_event list" where
  "lapses now k rows = (case tbl_get ir_key k rows of None \<Rightarrow> [] | Some r \<Rightarrow> if idem_expired now r then [] else [Lapse k])"

definition advanced ::
  "(bytes \<Rightarrow> string) \<Rightarrow> (reservation \<times> http_request) list \<Rightarrow> reservation \<Rightarrow> http_request \<Rightarrow> (reservation \<times> http_request) list \<Rightarrow> guard_state \<Rightarrow> guard_state" where
  "advanced sha ps p q qs S = (case reserve_step p (gs_rows S) of
      (Inl p', rows) \<Rightarrow> S\<lparr>gs_rows := rows, gs_pending := ps @ (p', q) # qs,
         gs_events := gs_events S @ (if rv_phase p = Reclaiming then lapses (gs_now S) (rv_key p) (gs_rows S) else [])\<rparr>
    | (Inr res, rows) \<Rightarrow> (case idem_answer sha q res of
          Invoke \<Rightarrow> S\<lparr>gs_rows := rows, gs_pending := ps @ qs, gs_flight := rv_key p # gs_flight S,
            gs_events := gs_events S @ [Invoked (rv_key p) q (rv_stamp p) (gs_now S)]\<rparr>
        | a \<Rightarrow> S\<lparr>gs_rows := rows, gs_pending := ps @ qs, gs_events := gs_events S @ [Answered (rv_key p) q a]\<rparr>))"

definition finished :: "(bytes \<Rightarrow> (string \<times> jval) list) \<Rightarrow> string \<Rightarrow> http_response option \<Rightarrow> guard_state \<Rightarrow> guard_state" where
  "finished dec k res S = S\<lparr>gs_rows := idem_finish dec k res (gs_rows S), gs_flight := remove1 k (gs_flight S),
     gs_events := gs_events S @ [case res of None \<Rightarrow> Released k None
        | Some r \<Rightarrow> if is_2xx (hr_status r) then Completed k (hr_status r) else Released k (Some r)]\<rparr>"

inductive guard_step :: "(bytes \<Rightarrow> string) \<Rightarrow> (bytes \<Rightarrow> (string \<times> jval) list) \<Rightarrow> guard_state \<Rightarrow> guard_state \<Rightarrow> bool" for sha dec where
  tick: "gs_now S \<le> t \<Longrightarrow> guard_step sha dec S (S\<lparr>gs_now := t\<rparr>)"
| arrive: "guarded_key q = Some k \<Longrightarrow> guard_step sha dec S (S\<lparr>gs_pending := (idem_arrive sha k q (gs_now S), q) # gs_pending S\<rparr>)"
| advance: "gs_pending S = ps @ (p, q) # qs \<Longrightarrow> guard_step sha dec S (advanced sha ps p q qs S)"
| give_up: "gs_pending S = ps @ (p, q) # qs \<Longrightarrow> guard_step sha dec S (S\<lparr>gs_pending := ps @ qs\<rparr>)"
| finish: "k \<in> set (gs_flight S) \<Longrightarrow> guard_step sha dec S (finished dec k res S)"
| crash: "guard_step sha dec S (S\<lparr>gs_flight := remove1 k (gs_flight S)\<rparr>)"
| select: "guard_step sha dec S (S\<lparr>gs_doomed := expired_keys (gs_now S) (gs_rows S) @ gs_doomed S\<rparr>)"
| sweep: "k \<in> set (gs_doomed S) \<Longrightarrow> guard_step sha dec S (S\<lparr>gs_rows := delete_idempotency_record k (gs_rows S),
    gs_doomed := remove1 k (gs_doomed S), gs_events := gs_events S @ lapses (gs_now S) k (gs_rows S)\<rparr>)"

abbreviation guard_run :: "(bytes \<Rightarrow> string) \<Rightarrow> (bytes \<Rightarrow> (string \<times> jval) list) \<Rightarrow> guard_state \<Rightarrow> guard_state \<Rightarrow> bool" where
  "guard_run sha dec \<equiv> (guard_step sha dec)\<^sup>*\<^sup>*"

text \<open>Invocations of a key that are not followed by a deletion of its record, by their stamps.\<close>

definition clears :: "string \<Rightarrow> guard_event \<Rightarrow> bool" where
  "clears k e \<longleftrightarrow> (case e of Released k' out \<Rightarrow> k' = k | Lapse k' \<Rightarrow> k' = k | _ \<Rightarrow> False)"

definition invocation :: "string \<Rightarrow> guard_event \<Rightarrow> time list" where
  "invocation k e = (case e of Invoked k' q s a \<Rightarrow> if k' = k then [s] else [] | _ \<Rightarrow> [])"

fun live_invocations :: "string \<Rightarrow> guard_event list \<Rightarrow> time list" where
  "live_invocations k [] = []"
| "live_invocations k (e # es) = (if \<exists>x\<in>set es. clears k x then [] else invocation k e) @ live_invocations k es"

lemma live_snoc: "live_invocations k (es @ [e]) = (if clears k e then [] else live_invocations k es) @ invocation k e"
  by (induction es) auto

lemma clears_simps [simp]:
  "clears k (Invoked k' q s a) = False" "clears k (Released k' out) = (k' = k)" "clears k (Lapse k') = (k' = k)"
  "clears k (Completed k' st) = False" "clears k (Answered k' q ans) = False"
  by (simp_all add: clears_def)

lemma invocation_simps [simp]:
  "invocation k (Invoked k' q s a) = (if k' = k then [s] else [])" "invocation k (Released k' out) = []" "invocation k (Lapse k') = []"
  "invocation k (Completed k' st) = []" "invocation k (Answered k' q ans) = []"
  by (simp_all add: invocation_def)

text \<open>An invocation stamped \<open>s\<close> is covered: its time to live has passed or its key's row outlives it. A key has lapsed when one
  of its invocations has run out of its time to live.\<close>

definition covered :: "time \<Rightarrow> idem_row list \<Rightarrow> string \<Rightarrow> time \<Rightarrow> bool" where
  "covered now rows k s \<longleftrightarrow> s + IDEMPOTENCY_TTL \<le> now
     \<or> (case tbl_get ir_key k rows of None \<Rightarrow> False | Some r \<Rightarrow> s + IDEMPOTENCY_TTL \<le> ir_expires_at r)"

definition lapsed :: "string \<Rightarrow> time \<Rightarrow> guard_event list \<Rightarrow> bool" where
  "lapsed k now es \<longleftrightarrow> (\<exists>q s a. Invoked k q s a \<in> set es \<and> s + IDEMPOTENCY_TTL \<le> now)"

definition row_known :: "(bytes \<Rightarrow> string) \<Rightarrow> guard_event list \<Rightarrow> idem_row \<Rightarrow> bool" where
  "row_known sha es r \<longleftrightarrow> (\<exists>q s a. Invoked (ir_key r) q s a \<in> set es \<and> ir_expires_at r = s + IDEMPOTENCY_TTL
     \<and> ir_request_hash r = request_hash sha q \<and> guarded_key q = Some (ir_key r))"

definition pending_ok :: "(bytes \<Rightarrow> string) \<Rightarrow> time \<Rightarrow> guard_event list \<Rightarrow> reservation \<times> http_request \<Rightarrow> bool" where
  "pending_ok sha now es x \<longleftrightarrow> (case x of (p, q) \<Rightarrow> rv_stamp p \<le> now \<and> rv_ttl p = IDEMPOTENCY_TTL \<and> rv_hash p = request_hash sha q
     \<and> guarded_key q = Some (rv_key p) \<and> (rv_phase p = Reclaiming \<longrightarrow> lapsed (rv_key p) now es))"

definition guard_inv :: "(bytes \<Rightarrow> string) \<Rightarrow> guard_state \<Rightarrow> bool" where
  "guard_inv sha S \<longleftrightarrow> keyed ir_key (gs_rows S)
     \<and> (\<forall>k. \<forall>s\<in>set (live_invocations k (gs_events S)). covered (gs_now S) (gs_rows S) k s)
     \<and> list_all (row_known sha (gs_events S)) (gs_rows S)
     \<and> list_all (pending_ok sha (gs_now S) (gs_events S)) (gs_pending S)
     \<and> list_all (\<lambda>k. lapsed k (gs_now S) (gs_events S)) (gs_doomed S)
     \<and> (\<forall>k. Lapse k \<in> set (gs_events S) \<longrightarrow> lapsed k (gs_now S) (gs_events S))"

lemma lapsed_mono: "lapsed k now es \<Longrightarrow> now \<le> t \<Longrightarrow> set es \<subseteq> set es' \<Longrightarrow> lapsed k t es'"
  by (fastforce simp: lapsed_def)

lemma row_known_mono: "row_known sha es r \<Longrightarrow> set es \<subseteq> set es' \<Longrightarrow> row_known sha es' r"
  by (auto simp: row_known_def)

lemma pending_ok_mono: "pending_ok sha now es x \<Longrightarrow> now \<le> t \<Longrightarrow> set es \<subseteq> set es' \<Longrightarrow> pending_ok sha t es' x"
  by (auto simp: pending_ok_def intro: lapsed_mono)

lemma expired_lapsed: "row_known sha es r \<Longrightarrow> idem_expired t r \<Longrightarrow> t \<le> now \<Longrightarrow> lapsed (ir_key r) now es"
  by (fastforce simp: row_known_def idem_expired_def lapsed_def)

lemma lapses_cases: "lapses now k rows = [] \<or> lapses now k rows = [Lapse k]"
  by (auto simp: lapses_def split: option.split)

lemma covered_delete:
  assumes "covered now rows k' s" and "k' = k \<Longrightarrow> lapses now k rows = []"
  shows "covered now (tbl_delete ir_key k rows) k' s"
  using assms by (cases "tbl_get ir_key k rows") (auto simp: covered_def tbl_get_tbl_delete lapses_def idem_expired_def split: if_splits option.splits)

text \<open>What every step has to show: the rows, the reservations and the selections it adds, and that what was covered is.\<close>

lemma guard_invI:
  assumes inv: "guard_inv sha S" and now: "gs_now S \<le> gs_now T" and ev: "gs_events T = gs_events S @ es"
    and keyed: "keyed ir_key (gs_rows T)"
    and live: "\<And>k s. s \<in> set (live_invocations k (gs_events T)) \<Longrightarrow> covered (gs_now T) (gs_rows T) k s"
    and rows: "\<And>r. r \<in> set (gs_rows T) \<Longrightarrow> r \<in> set (gs_rows S) \<or> row_known sha (gs_events T) r"
    and pend: "\<And>x. x \<in> set (gs_pending T) \<Longrightarrow> x \<in> set (gs_pending S) \<or> pending_ok sha (gs_now T) (gs_events T) x"
    and doom: "\<And>k. k \<in> set (gs_doomed T) \<Longrightarrow> k \<in> set (gs_doomed S) \<or> lapsed k (gs_now T) (gs_events T)"
    and lap: "\<And>k. Lapse k \<in> set es \<Longrightarrow> lapsed k (gs_now S) (gs_events S)"
  shows "guard_inv sha T"
proof -
  have sub: "set (gs_events S) \<subseteq> set (gs_events T)" by (simp add: ev)
  have "row_known sha (gs_events T) r" if "r \<in> set (gs_rows T)" for r
    using rows [OF that] inv sub by (auto simp: guard_inv_def list_all_iff intro: row_known_mono)
  moreover have "pending_ok sha (gs_now T) (gs_events T) x" if "x \<in> set (gs_pending T)" for x
    using pend [OF that] inv now sub by (auto simp: guard_inv_def list_all_iff intro: pending_ok_mono)
  moreover have "lapsed k (gs_now T) (gs_events T)" if "k \<in> set (gs_doomed T)" for k
    using doom [OF that] inv now sub by (auto simp: guard_inv_def list_all_iff intro: lapsed_mono)
  moreover have "lapsed k (gs_now T) (gs_events T)" if "Lapse k \<in> set (gs_events T)" for k
    using that lap [of k] inv now sub by (auto simp: guard_inv_def ev intro: lapsed_mono)
  ultimately show ?thesis using keyed live by (simp add: guard_inv_def list_all_iff)
qed

lemma guard_invD:
  assumes "guard_inv sha S"
  shows "keyed ir_key (gs_rows S)" and "s \<in> set (live_invocations k (gs_events S)) \<Longrightarrow> covered (gs_now S) (gs_rows S) k s"
    and "r \<in> set (gs_rows S) \<Longrightarrow> row_known sha (gs_events S) r" and "x \<in> set (gs_pending S) \<Longrightarrow> pending_ok sha (gs_now S) (gs_events S) x"
    and "k \<in> set (gs_doomed S) \<Longrightarrow> lapsed k (gs_now S) (gs_events S)" and "Lapse k \<in> set (gs_events S) \<Longrightarrow> lapsed k (gs_now S) (gs_events S)"
  using assms by (simp_all add: guard_inv_def list_all_iff)

text \<open>A deletion by key, with what it does to the trace.\<close>

lemma deletion_inv:
  assumes inv: "guard_inv sha S" and T: "gs_rows T = tbl_delete ir_key k (gs_rows S)" "gs_now T = gs_now S" "gs_events T = gs_events S @ es"
    and es: "es = lapses (gs_now S) k (gs_rows S) \<and> lapsed k (gs_now S) (gs_events S) \<or> es = [Released k out]"
    and pend: "\<And>x. x \<in> set (gs_pending T) \<Longrightarrow> x \<in> set (gs_pending S) \<or> pending_ok sha (gs_now S) (gs_events T) x"
    and doom: "set (gs_doomed T) \<subseteq> set (gs_doomed S)"
  shows "guard_inv sha T"
proof (rule guard_invI [OF inv _ T(3)])
  note I = guard_invD [OF inv]
  show "keyed ir_key (gs_rows T)" using I(1) by (simp add: T(1))
  show "covered (gs_now T) (gs_rows T) k' s" if s: "s \<in> set (live_invocations k' (gs_events T))" for k' s
  proof -
    have old: "s \<in> set (live_invocations k' (gs_events S))" and clear: "k' = k \<Longrightarrow> lapses (gs_now S) k (gs_rows S) = []"
      using s es lapses_cases [of "gs_now S" k "gs_rows S"] by (auto simp: T(3) live_snoc split: if_splits)
    show ?thesis unfolding T by (rule covered_delete [OF I(2) [OF old] clear])
  qed
  show "Lapse k' \<in> set es \<Longrightarrow> lapsed k' (gs_now S) (gs_events S)" for k'
    using es lapses_cases [of "gs_now S" k "gs_rows S"] by auto
  show "r \<in> set (gs_rows S) \<or> row_known sha (gs_events T) r" if "r \<in> set (gs_rows T)" for r using that by (simp add: T(1) tbl_delete_def)
qed (use T pend doom in auto)

text \<open>The cases of one statement of a reservation.\<close>

definition same_reservation :: "reservation \<Rightarrow> reservation \<Rightarrow> bool" where
  "same_reservation p p' \<longleftrightarrow> rv_key p' = rv_key p \<and> rv_hash p' = rv_hash p \<and> rv_ttl p' = rv_ttl p \<and> rv_stamp p' = rv_stamp p"

lemma next_attempt_same: "same_reservation p (next_attempt p)" "rv_phase (next_attempt p) \<in> {Inserting, GivingUp}"
  by (auto simp: same_reservation_def next_attempt_def split: nat.split)

lemma contended_not_invoke: "handle_contended e h \<noteq> Invoke"
  by (auto simp: handle_contended_def split: option.split)

lemma advanced_cases:
  obtains (moved) p' where "advanced sha ps p q qs S = S\<lparr>gs_pending := ps @ (p', q) # qs\<rparr>" and "same_reservation p p'"
      and "rv_phase p' = Reclaiming \<Longrightarrow> \<exists>r. tbl_get ir_key (rv_key p) (gs_rows S) = Some r \<and> idem_expired (rv_stamp p) r"
      and "rv_phase p' = GivingUp \<Longrightarrow> tbl_get ir_key (rv_key p) (gs_rows S) = None"
    | (reclaimed) "rv_phase p = Reclaiming" and "advanced sha ps p q qs S = S\<lparr>gs_rows := tbl_delete ir_key (rv_key p) (gs_rows S),
        gs_pending := ps @ (next_attempt p, q) # qs, gs_events := gs_events S @ lapses (gs_now S) (rv_key p) (gs_rows S)\<rparr>"
    | (won) "tbl_get ir_key (rv_key p) (gs_rows S) = None" and "advanced sha ps p q qs S = S\<lparr>gs_rows := gs_rows S @ [pending_row p],
        gs_pending := ps @ qs, gs_flight := rv_key p # gs_flight S, gs_events := gs_events S @ [Invoked (rv_key p) q (rv_stamp p) (gs_now S)]\<rparr>"
    | (lost) e where "rv_phase p = Reading \<and> (\<exists>r. e = Some r \<and> tbl_get ir_key (rv_key p) (gs_rows S) = Some r) \<or> rv_phase p = GivingUp"
      and "advanced sha ps p q qs S = S\<lparr>gs_pending := ps @ qs,
        gs_events := gs_events S @ [Answered (rv_key p) q (handle_contended e (request_hash sha q))]\<rparr>"
proof (cases "rv_phase p")
  case Inserting
  show ?thesis
  proof (cases "tbl_has ir_key (rv_key p) (gs_rows S)")
    case True
    show ?thesis
      by (rule moved [of "p\<lparr>rv_phase := Reading\<rparr>"]) (simp_all add: advanced_def reserve_step_def Inserting True same_reservation_def)
  next
    case False
    show ?thesis
      by (rule won) (simp_all add: advanced_def reserve_step_def Inserting False tbl_get_None_iff idem_answer_def)
  qed
next
  case Reading
  have lost_eq: "(case a of Invoke \<Rightarrow> x | Conflict m \<Rightarrow> f a | Replay st b \<Rightarrow> f a) = f a" if "a \<noteq> Invoke" for a and x :: guard_state and f
    using that by (cases a) simp_all
  show ?thesis
  proof (cases "tbl_get ir_key (rv_key p) (gs_rows S)")
    case None
    show ?thesis
      by (rule moved [of "next_attempt p"]) (use next_attempt_same [of p] in \<open>auto simp: advanced_def reserve_step_def Reading None\<close>)
  next
    case (Some r)
    show ?thesis
    proof (cases "idem_expired (rv_stamp p) r")
      case True
      show ?thesis
        by (rule moved [of "p\<lparr>rv_phase := Reclaiming\<rparr>"])
          (simp_all add: advanced_def reserve_step_def Reading Some True same_reservation_def)
    next
      case False
      show ?thesis
        by (rule lost [of "Some r"])
          (use contended_not_invoke [of "Some r" "request_hash sha q"] in
            \<open>auto simp: advanced_def reserve_step_def Reading Some False idem_answer_def split: arrival.split\<close>)
    qed
  qed
next
  case Reclaiming
  show ?thesis by (rule reclaimed) (simp_all add: advanced_def reserve_step_def Reclaiming)
next
  case GivingUp
  show ?thesis
    by (rule lost [of None]) (simp_all add: advanced_def reserve_step_def GivingUp idem_answer_def handle_contended_def)
qed

lemma pending_moved: "pending_ok sha now es (p, q) \<Longrightarrow> same_reservation p p' \<Longrightarrow> (rv_phase p' = Reclaiming \<Longrightarrow> lapsed (rv_key p) now es)
    \<Longrightarrow> pending_ok sha now es (p', q)"
  by (simp add: pending_ok_def same_reservation_def)

lemma advanced_inv:
  assumes inv: "guard_inv sha S" and at: "gs_pending S = ps @ (p, q) # qs"
  shows "guard_inv sha (advanced sha ps p q qs S)"
proof -
  note I = guard_invD [OF inv]
  have ok: "pending_ok sha (gs_now S) (gs_events S) (p, q)" using I(4) at by simp
  show ?thesis
  proof (cases rule: advanced_cases [of sha ps p q qs S])
    case (moved p')
    have "lapsed (rv_key p) (gs_now S) (gs_events S)" if ph: "rv_phase p' = Reclaiming"
    proof -
      obtain r where r: "tbl_get ir_key (rv_key p) (gs_rows S) = Some r" "idem_expired (rv_stamp p) r" using moved(3) [OF ph] by blast
      then show ?thesis using expired_lapsed [OF I(3) r(2), of "gs_now S"] ok tbl_get_SomeD [OF r(1)] by (simp add: pending_ok_def)
    qed
    then have "pending_ok sha (gs_now S) (gs_events S) (p', q)" using pending_moved [OF ok moved(2)] by blast
    then show ?thesis using I(1,2) by (intro guard_invI [OF inv, of _ "[]"]) (auto simp: moved(1) at)
  next
    case reclaimed
    have lap: "lapsed (rv_key p) (gs_now S) (gs_events S)" using ok reclaimed(1) by (simp add: pending_ok_def)
    have "rv_phase (next_attempt p) \<noteq> Reclaiming" using next_attempt_same(2) [of p] by auto
    then have "pending_ok sha (gs_now S) (gs_events S) (next_attempt p, q)" using pending_moved [OF ok next_attempt_same(1)] by blast
    then have "pending_ok sha (gs_now S) (gs_events S @ es) (next_attempt p, q)" for es by (rule pending_ok_mono) auto
    then show ?thesis unfolding reclaimed(2) using lap at
      by (intro deletion_inv [OF inv, where k = "rv_key p" and es = "lapses (gs_now S) (rv_key p) (gs_rows S)"]) auto
  next
    case won
    let ?T = "advanced sha ps p q qs S"
    have p: "rv_ttl p = IDEMPOTENCY_TTL" "rv_hash p = request_hash sha q" "guarded_key q = Some (rv_key p)" using ok by (simp_all add: pending_ok_def)
    have get: "tbl_get ir_key k (gs_rows ?T) = (if k = rv_key p then Some (pending_row p) else tbl_get ir_key k (gs_rows S))" for k
      using won(1) by (auto simp: won(2) tbl_get_append pending_row_def split: option.split)
    show ?thesis
    proof (rule guard_invI [OF inv, of _ "[Invoked (rv_key p) q (rv_stamp p) (gs_now S)]"])
      show "keyed ir_key (gs_rows ?T)" using I(1) won(1) by (simp add: won(2) tbl_get_None_iff pending_row_def)
      show "covered (gs_now ?T) (gs_rows ?T) k s" if s: "s \<in> set (live_invocations k (gs_events ?T))" for k s
      proof (cases "k = rv_key p")
        case True
        show ?thesis
        proof (cases "s \<in> set (live_invocations k (gs_events S))")
          case old: True
          have "s + IDEMPOTENCY_TTL \<le> gs_now S" using I(2) [OF old] won(1) True by (simp add: covered_def)
          then show ?thesis by (simp add: covered_def won(2))
        next
          case False
          then have "s = rv_stamp p" using s True by (simp add: won(2) live_snoc)
          then show ?thesis unfolding covered_def get using True by (simp add: pending_row_def p(1))
        qed
      next
        case False
        then have "s \<in> set (live_invocations k (gs_events S))" using s by (simp add: won(2) live_snoc)
        then show ?thesis using I(2) False unfolding covered_def get by (simp add: won(2))
      qed
      show "r \<in> set (gs_rows S) \<or> row_known sha (gs_events ?T) r" if "r \<in> set (gs_rows ?T)" for r
      proof (cases "r = pending_row p")
        case True
        have "row_known sha (gs_events ?T) (pending_row p)" unfolding row_known_def
          by (rule exI [of _ q], rule exI [of _ "rv_stamp p"], rule exI [of _ "gs_now S"]) (simp add: won(2) pending_row_def p)
        then show ?thesis using True by simp
      qed (use that in \<open>simp add: won(2)\<close>)
    qed (auto simp: won(2) at)
  next
    case (lost e)
    show ?thesis
      by (rule guard_invI [OF inv, of _ "[Answered (rv_key p) q (handle_contended e (request_hash sha q))]"])
        (use I(1,2) in \<open>auto simp: lost(2) at live_snoc\<close>)
  qed
qed

lemma finalize_same_key:
  "tbl_get ir_key k (finalize_idempotency_record k st b bs rows) = map_option (\<lambda>r. r\<lparr>ir_response_status := Some st,
     ir_response_body := Some b, ir_bus_state := bs\<rparr>) (tbl_get ir_key k rows)"
  by (auto simp: finalize_idempotency_record_def tbl_get_tbl_save tbl_get_Some_has split: option.splits dest: tbl_get_SomeD)

lemma finalize_other: "k' \<noteq> k \<Longrightarrow> tbl_get ir_key k' (finalize_idempotency_record k st b bs rows) = tbl_get ir_key k' rows"
  by (auto simp: finalize_idempotency_record_def tbl_get_tbl_save split: option.splits dest: tbl_get_SomeD)

lemma finalize_keyed: "keyed ir_key (finalize_idempotency_record k st b bs rows) = keyed ir_key rows"
  by (auto simp: finalize_idempotency_record_def split: option.split)

lemma finalize_known:
  assumes "r \<in> set (finalize_idempotency_record k st b bs rows)"
  shows "\<exists>r0\<in>set rows. ir_key r = ir_key r0 \<and> ir_request_hash r = ir_request_hash r0 \<and> ir_expires_at r = ir_expires_at r0"
  using assms by (auto simp: finalize_idempotency_record_def split: option.splits dest!: set_tbl_save_sub tbl_get_SomeD)

lemma finished_cases:
  obtains (completed) st b where "is_2xx st" and "res = Some \<lparr>hr_status = st, hr_body = b\<rparr>"
      and "finished dec k res S = S\<lparr>gs_rows := finalize_idempotency_record k st (dec b) ''delivered'' (gs_rows S),
        gs_flight := remove1 k (gs_flight S), gs_events := gs_events S @ [Completed k st]\<rparr>"
    | (released) "res = None \<or> (\<exists>r. res = Some r \<and> \<not> is_2xx (hr_status r))"
      and "finished dec k res S = S\<lparr>gs_rows := tbl_delete ir_key k (gs_rows S), gs_flight := remove1 k (gs_flight S),
        gs_events := gs_events S @ [Released k res]\<rparr>"
proof (cases res)
  case None
  then show ?thesis by (intro released) (simp_all add: finished_def idem_finish_def delete_idempotency_record_def)
next
  case (Some r)
  show ?thesis
  proof (cases "is_2xx (hr_status r)")
    case True
    then show ?thesis by (intro completed [of "hr_status r" "hr_body r"]) (simp_all add: Some finished_def idem_finish_def)
  next
    case False
    then show ?thesis by (intro released) (simp_all add: Some finished_def idem_finish_def delete_idempotency_record_def)
  qed
qed

lemma finished_inv:
  assumes inv: "guard_inv sha S"
  shows "guard_inv sha (finished dec k res S)"
proof (cases rule: finished_cases [of res dec k S])
  case released
  show ?thesis unfolding released(2)
    by (rule deletion_inv [OF inv, where k = k and es = "[Released k res]" and out = res]) auto
next
  case (completed st b)
  note I = guard_invD [OF inv]
  let ?T = "finished dec k res S"
  have same: "covered now (finalize_idempotency_record k st b' bs rows) k' s = covered now rows k' s" for now b' bs rows k' s
    by (cases "k' = k") (auto simp: covered_def finalize_same_key finalize_other split: option.splits)
  show ?thesis
  proof (rule guard_invI [OF inv, of _ "[Completed k st]"])
    show "covered (gs_now ?T) (gs_rows ?T) k' s" if "s \<in> set (live_invocations k' (gs_events ?T))" for k' s
      using that I(2) by (simp add: completed(3) live_snoc same)
    show "r \<in> set (gs_rows S) \<or> row_known sha (gs_events ?T) r" if r: "r \<in> set (gs_rows ?T)" for r
    proof -
      obtain r0 where r0: "r0 \<in> set (gs_rows S)" "ir_key r = ir_key r0" "ir_request_hash r = ir_request_hash r0" "ir_expires_at r = ir_expires_at r0"
        using finalize_known r unfolding completed(3) by fastforce
      have "row_known sha (gs_events S) r" using I(3) [OF r0(1)] by (simp add: row_known_def r0(2-4))
      then show ?thesis by (auto simp: completed(3) intro: row_known_mono)
    qed
  qed (use I(1) in \<open>auto simp: completed(3) finalize_keyed\<close>)
qed

lemma guard_step_inv:
  assumes step: "guard_step sha dec S T" and inv: "guard_inv sha S"
  shows "guard_inv sha T"
  using step
proof cases
  note I = guard_invD [OF inv]
  case (tick t)
  then have "covered t (gs_rows S) k s" if "covered (gs_now S) (gs_rows S) k s" for k s using that by (auto simp: covered_def)
  then show ?thesis unfolding tick(1) using I(1,2) tick(2) by (intro guard_invI [OF inv, of _ "[]"]) auto
next
  note I = guard_invD [OF inv]
  case (arrive q k)
  then show ?thesis using I(1,2)
    by (intro guard_invI [OF inv, of _ "[]"]) (auto simp: pending_ok_def idem_arrive_def start_reservation_def)
next
  case (advance ps p q qs)
  then show ?thesis using advanced_inv [OF inv] by blast
next
  note I = guard_invD [OF inv]
  case (give_up ps p q qs)
  then show ?thesis using I(1,2) by (intro guard_invI [OF inv, of _ "[]"]) auto
next
  case (finish k res)
  then show ?thesis using finished_inv [OF inv] by blast
next
  note I = guard_invD [OF inv]
  case (crash k)
  then show ?thesis using I(1,2) by (intro guard_invI [OF inv, of _ "[]"]) auto
next
  note I = guard_invD [OF inv]
  case select
  have "lapsed k (gs_now S) (gs_events S)" if "k \<in> set (expired_keys (gs_now S) (gs_rows S))" for k
    using that expired_lapsed [OF I(3)] by (auto simp: expired_keys_def)
  then show ?thesis unfolding select using I(1,2) by (intro guard_invI [OF inv, of _ "[]"]) auto
next
  note I = guard_invD [OF inv]
  case (sweep k)
  show ?thesis unfolding sweep(1) delete_idempotency_record_def using I(5) [OF sweep(2)]
    by (intro deletion_inv [OF inv, where k = k and es = "lapses (gs_now S) k (gs_rows S)"]) (auto dest: set_remove1_subset [THEN subsetD])
qed

lemma guard_run_inv: "guard_run sha dec guard_empty S \<Longrightarrow> guard_inv sha S"
proof (induction rule: rtranclp_induct)
  case base
  show ?case by (simp add: guard_inv_def guard_empty_def)
next
  case (step S T)
  then show ?case using guard_step_inv by blast
qed

lemma live_mem: "\<not> (\<exists>x\<in>set ys. clears k x) \<Longrightarrow> s \<in> set (live_invocations k (xs @ Invoked k q s a # ys))"
  by (induction xs) auto

text \<open>What a step adds to the trace, and what is there when it adds an invocation.\<close>

lemma step_events:
  assumes "guard_step sha dec S T"
  shows "gs_events T = gs_events S \<or> (\<exists>e. gs_events T = gs_events S @ [e]
    \<and> (\<forall>k q s a. e = Invoked k q s a \<longrightarrow> a = gs_now S \<and> tbl_get ir_key k (gs_rows S) = None)
    \<and> (\<forall>k out. e = Released k out \<longrightarrow> out = None \<or> (\<exists>r. out = Some r \<and> \<not> is_2xx (hr_status r))))"
proof -
  have lap: "lapses now k rows = [] \<or> (\<exists>e. lapses now k rows = [e] \<and> e = Lapse k)" for now k rows by (auto simp: lapses_def split: option.split)
  show ?thesis using assms
  proof cases
    case (advance ps p q qs)
    show ?thesis unfolding advance(1)
      by (cases rule: advanced_cases [of sha ps p q qs S]) (use lap [of "gs_now S" "rv_key p" "gs_rows S"] in auto)
  next
    case (finish k res)
    show ?thesis unfolding finish(1) by (cases rule: finished_cases [of res dec k S]) auto
  next
    case (sweep k)
    show ?thesis unfolding sweep(1) using lap [of "gs_now S" k "gs_rows S"] by auto
  qed simp_all
qed

lemma released_failed:
  "guard_run sha dec guard_empty S \<Longrightarrow> Released k out \<in> set (gs_events S) \<Longrightarrow> out = None \<or> (\<exists>r. out = Some r \<and> \<not> is_2xx (hr_status r))"
proof (induction rule: rtranclp_induct)
  case base
  then show ?case by (simp add: guard_empty_def)
next
  case (step S T)
  show ?case
  proof (cases "Released k out \<in> set (gs_events S)")
    case False
    then show ?thesis using step_events [OF step.hyps(2)] step.prems by auto
  qed (use step.IH in blast)
qed

lemma second_invocation:
  assumes inv: "guard_inv sha S" and ev: "gs_events S = xs @ Invoked k q s a # ys" and none: "tbl_get ir_key k (gs_rows S) = None"
    and soon: "gs_now S < s + IDEMPOTENCY_TTL"
  shows "(\<exists>out. Released k out \<in> set ys)
    \<or> Lapse k \<in> set ys \<and> (\<exists>q0 s0 a0. Invoked k q0 s0 a0 \<in> set xs \<union> set ys \<and> s0 + IDEMPOTENCY_TTL \<le> gs_now S)"
proof (cases "\<exists>x\<in>set ys. clears k x")
  case True
  then obtain x where x: "x \<in> set ys" "clears k x" by blast
  show ?thesis
  proof (cases "x = Lapse k")
    case True
    then have "Lapse k \<in> set (gs_events S)" using x(1) ev by simp
    then obtain q0 s0 a0 where w: "Invoked k q0 s0 a0 \<in> set (gs_events S)" "s0 + IDEMPOTENCY_TTL \<le> gs_now S"
      using guard_invD(6) [OF inv] unfolding lapsed_def by blast
    then have "Invoked k q0 s0 a0 \<in> set xs \<union> set ys" using soon ev by auto
    then show ?thesis using w(2) True x(1) by blast
  next
    case False
    then show ?thesis using x by (cases x) auto
  qed
next
  case False
  then have "covered (gs_now S) (gs_rows S) k s" using guard_invD(2) [OF inv] live_mem ev by simp
  then show ?thesis using soon none by (simp add: covered_def)
qed

text \<open>C31: The handler behind an idempotency key runs once per time to live, over any interleaving of the statements of the
  reservations with handlers that finish, requests that die, and purges: of two invocations under one key of which the
  second runs before the seven days that the first one's record lasts are over, either the key was released in between
  (and a release follows a handler that raised or answered outside 2xx), or a record that had not expired was
  deleted in between by a request or a purge that had read an expired one, and then an even earlier
  record of the same key has outlived its seven days. So a key whose records have not expired yet runs its handler once.\<close>

theorem handler_runs_once:
  assumes "guard_run sha dec guard_empty S"
    and "gs_events S = xs @ Invoked k q s a # ys @ Invoked k q' s' a' # zs" and "a' < s + IDEMPOTENCY_TTL"
  shows "(\<exists>out. Released k out \<in> set ys \<and> (out = None \<or> (\<exists>r. out = Some r \<and> \<not> is_2xx (hr_status r))))
    \<or> Lapse k \<in> set ys \<and> (\<exists>q0 s0 a0. Invoked k q0 s0 a0 \<in> set xs \<union> set ys \<and> s0 + IDEMPOTENCY_TTL \<le> a')"
  using assms
proof (induction arbitrary: zs rule: rtranclp_induct)
  case base
  then show ?case by (simp add: guard_empty_def)
next
  case (step S T)
  note inv = guard_run_inv [OF step.hyps(1)]
  have ev: "gs_events T = (xs @ Invoked k q s a # ys) @ Invoked k q' s' a' # zs" using step.prems(1) by simp
  from step_events [OF step.hyps(2)] show ?case
  proof (elim disjE exE conjE)
    assume "gs_events T = gs_events S"
    then have "gs_events S = xs @ Invoked k q s a # ys @ Invoked k q' s' a' # zs" using step.prems(1) by simp
    then show ?thesis by (rule step.IH [OF _ step.prems(2)])
  next
    fix e assume e: "gs_events T = gs_events S @ [e]"
      and new: "\<forall>k q s a. e = Invoked k q s a \<longrightarrow> a = gs_now S \<and> tbl_get ir_key k (gs_rows S) = None"
    show ?thesis
    proof (cases zs rule: rev_cases)
      case (snoc zs' z)
      then have "gs_events S = xs @ Invoked k q s a # ys @ Invoked k q' s' a' # zs'" using e ev by simp
      then show ?thesis by (rule step.IH [OF _ step.prems(2)])
    next
      case Nil
      then have S: "gs_events S = xs @ Invoked k q s a # ys" and "e = Invoked k q' s' a'" using e ev by simp_all
      then have w: "a' = gs_now S" "tbl_get ir_key k (gs_rows S) = None" using new by blast+
      have "out = None \<or> (\<exists>r. out = Some r \<and> \<not> is_2xx (hr_status r))" if "Released k out \<in> set ys" for out
        by (rule released_failed [OF step.hyps(1), where k = k]) (simp add: S that)
      then show ?thesis using second_invocation [OF inv S w(2)] step.prems(2) unfolding w(1) by blast
    qed
  qed
qed

text \<open>A completed record stays as it is until it expires, and every request for its key is answered from it.\<close>

definition settled :: "string \<Rightarrow> idem_row \<Rightarrow> guard_state \<Rightarrow> bool" where
  "settled k r S \<longleftrightarrow> tbl_get ir_key k (gs_rows S) = Some r \<and> k \<notin> set (gs_flight S) \<and> k \<notin> set (gs_doomed S)
     \<and> (\<forall>x\<in>set (gs_pending S). rv_key (fst x) = k \<longrightarrow> rv_phase (fst x) \<in> {Inserting, Reading})"

fun event_key :: "guard_event \<Rightarrow> string" where
  "event_key (Invoked k q s a) = k"
| "event_key (Released k out) = k"
| "event_key (Lapse k) = k"
| "event_key (Completed k st) = k"
| "event_key (Answered k q ans) = k"

definition answered_from :: "(bytes \<Rightarrow> string) \<Rightarrow> string \<Rightarrow> idem_row \<Rightarrow> guard_event list \<Rightarrow> bool" where
  "answered_from sha k r es \<longleftrightarrow> (\<forall>e\<in>set es. event_key e = k \<longrightarrow>
     (\<exists>q. guarded_key q = Some k \<and> e = Answered k q (handle_contended (Some r) (request_hash sha q))))"

lemma lapses_key: "x \<in> set (lapses now k rows) \<Longrightarrow> event_key x = k"
  using lapses_cases [of now k rows] by auto

lemma settled_step:
  assumes step: "guard_step sha dec S T" and inv: "guard_inv sha S" and st: "settled k r S" and live: "gs_now T < ir_expires_at r"
  shows "settled k r T \<and> (\<exists>es. gs_events T = gs_events S @ es \<and> answered_from sha k r es)"
  using step
proof cases
  note S = st [unfolded settled_def]
  case (advance ps p q qs)
  have ok: "pending_ok sha (gs_now S) (gs_events S) (p, q)" using guard_invD(4) [OF inv] advance(2) by simp
  show ?thesis unfolding advance(1)
  proof (cases rule: advanced_cases [of sha ps p q qs S])
    case (moved p')
    have now: "gs_now S < ir_expires_at r" using live by (simp add: advance(1) moved(1))
    have "rv_phase p' \<in> {Inserting, Reading}" if k: "rv_key p' = k"
    proof -
      have pk: "rv_key p = k" using k moved(2) by (simp add: same_reservation_def)
      have "rv_phase p' \<noteq> Reclaiming" using moved(3) S now ok by (auto simp: pk pending_ok_def idem_expired_def)
      moreover have "rv_phase p' \<noteq> GivingUp" using moved(4) S by (auto simp: pk)
      ultimately show ?thesis by (cases "rv_phase p'") simp_all
    qed
    then show "settled k r (advanced sha ps p q qs S) \<and> (\<exists>es. gs_events (advanced sha ps p q qs S) = gs_events S @ es \<and> answered_from sha k r es)"
      using S by (auto simp: moved(1) settled_def answered_from_def advance(2))
  next
    case reclaimed
    have "rv_key p \<noteq> k" using S advance(2) reclaimed(1) by auto
    then show "settled k r (advanced sha ps p q qs S) \<and> (\<exists>es. gs_events (advanced sha ps p q qs S) = gs_events S @ es \<and> answered_from sha k r es)"
      using S next_attempt_same(1) [of p]
      by (auto simp: reclaimed(2) settled_def answered_from_def advance(2) tbl_get_tbl_delete same_reservation_def dest: lapses_key)
  next
    case won
    have "rv_key p \<noteq> k" using S won(1) by auto
    then show "settled k r (advanced sha ps p q qs S) \<and> (\<exists>es. gs_events (advanced sha ps p q qs S) = gs_events S @ es \<and> answered_from sha k r es)"
      using S by (auto simp: won(2) settled_def answered_from_def advance(2) tbl_get_append)
  next
    case (lost e)
    have "e = Some r \<and> guarded_key q = Some k" if "rv_key p = k"
      using lost(1) S ok that advance(2) by (auto simp: pending_ok_def)
    then show "settled k r (advanced sha ps p q qs S) \<and> (\<exists>es. gs_events (advanced sha ps p q qs S) = gs_events S @ es \<and> answered_from sha k r es)"
      using S by (auto simp: lost(2) settled_def answered_from_def advance(2))
  qed
next
  note S = st [unfolded settled_def]
  case (finish k' res)
  have "k' \<noteq> k" using S finish(2) by auto
  then show ?thesis unfolding finish(1) using S
    by (cases rule: finished_cases [of res dec k' S])
       (auto simp: settled_def answered_from_def tbl_get_tbl_delete finalize_other dest: set_remove1_subset [THEN subsetD])
next
  note S = st [unfolded settled_def]
  case select
  have "k \<notin> set (expired_keys (gs_now S) (gs_rows S))"
  proof
    assume "k \<in> set (expired_keys (gs_now S) (gs_rows S))"
    then obtain r' where r': "r' \<in> set (gs_rows S)" "ir_key r' = k" "ir_expires_at r' \<le> gs_now S"
      by (auto simp: expired_keys_def idem_expired_def)
    then have "r' = r" using S tbl_get_keyed [OF guard_invD(1) [OF inv] r'(1)] by simp
    then show False using r'(3) live by (simp add: select)
  qed
  then show ?thesis using S by (simp add: select settled_def answered_from_def)
next
  note S = st [unfolded settled_def]
  case (sweep k')
  have "k' \<noteq> k" using S sweep(2) by auto
  then show ?thesis using S
    by (auto simp: sweep(1) settled_def answered_from_def delete_idempotency_record_def tbl_get_tbl_delete
        dest: lapses_key set_remove1_subset [THEN subsetD])
qed (use st in \<open>auto simp: settled_def answered_from_def idem_arrive_def start_reservation_def dest: set_remove1_subset [THEN subsetD]\<close>)

lemma now_step: "guard_step sha dec S T \<Longrightarrow> gs_now S \<le> gs_now T"
proof (induction rule: guard_step.induct)
  case (advance S ps p q qs)
  show ?case by (cases rule: advanced_cases [of sha ps p q qs S]) simp_all
qed (simp_all add: finished_def)

lemma settled_run:
  assumes "guard_run sha dec S T" and "guard_inv sha S" and "settled k r S" and "gs_now T < ir_expires_at r"
  shows "guard_inv sha T \<and> settled k r T \<and> (\<exists>es. gs_events T = gs_events S @ es \<and> answered_from sha k r es)"
  using assms(1,4)
proof (induction rule: rtranclp_induct)
  case base
  then show ?case using assms(2,3) by (simp add: answered_from_def)
next
  case (step T U)
  have "gs_now T < ir_expires_at r" using now_step [OF step.hyps(2)] step.prems by simp
  then obtain es where T: "guard_inv sha T" "settled k r T" "gs_events T = gs_events S @ es" "answered_from sha k r es"
    using step.IH by blast
  obtain es' where "settled k r U" "gs_events U = gs_events T @ es'" "answered_from sha k r es'"
    using settled_step [OF step.hyps(2) T(1,2) step.prems] by blast
  then show ?case using guard_step_inv [OF step.hyps(2) T(1)] T(3,4)
    by (intro conjI exI [of _ "es @ es'"]) (auto simp: answered_from_def)
qed

text \<open>What the hash binds: the method, the path up to the line feed that ends it, and the body.\<close>

lemma utf8_LF: "10 \<in> set (utf8 s) \<longleftrightarrow> CHR 0x0A \<in> set s"
proof -
  have "10 \<in> set (the (utf8_char c)) \<longleftrightarrow> c = CHR 0x0A" for c
  proof -
    let ?n = "of_char c :: nat"
    have ten: "(10 :: byte) = byte_of 10" by (simp add: byte_of_def)
    have LF: "of_char (CHR 0x0A) = (10 :: nat)" by code_simp
    have char: "?n = 10 \<longleftrightarrow> c = CHR 0x0A" using LF by (metis char_of_char)
    have n: "?n < 256" by (rule of_char_nat_less)
    then have "?n div 64 < 4" "?n mod 64 < 64" by (simp_all add: less_mult_imp_div_less)
    then show ?thesis using n char unfolding ten utf8_char_def by (cases "?n < 128") (auto simp: Let_def)
  qed
  then show ?thesis by (auto simp: utf8_def)
qed

lemma split_first: "xs @ x # b = ys @ x # b' \<Longrightarrow> x \<notin> set xs \<Longrightarrow> x \<notin> set ys \<Longrightarrow> xs = ys \<and> b = b'"
  by (induction xs arbitrary: ys) (auto simp: Cons_eq_append_conv append_eq_Cons_conv)

lemma guarded_post: "guarded_key q = Some k \<Longrightarrow> hq_method q = ''POST''"
  by (simp add: guarded_key_def split: if_splits)

lemma request_bytes_eq:
  assumes "guarded_key q = Some k" and "guarded_key q' = Some k" and "CHR 0x0A \<notin> set (hq_path q)" and "CHR 0x0A \<notin> set (hq_path q')"
  shows "request_bytes q = request_bytes q' \<longleftrightarrow> hq_path q = hq_path q' \<and> hq_body q = hq_body q'"
proof
  assume "request_bytes q = request_bytes q'"
  then have "utf8 (hq_path q) @ 10 # hq_body q = utf8 (hq_path q') @ 10 # hq_body q'"
    using assms(1,2)[THEN guarded_post] by (simp add: request_bytes_def)
  then show "hq_path q = hq_path q' \<and> hq_body q = hq_body q'" using split_first utf8_inj assms(3,4) by (metis utf8_LF)
qed (simp add: request_bytes_def guarded_post [OF assms(1)] guarded_post [OF assms(2)])

text \<open>The bytes hashed by the requests of a trace under one key.\<close>

definition hashed_bytes :: "string \<Rightarrow> guard_event list \<Rightarrow> bytes set" where
  "hashed_bytes k es = request_bytes ` {q. (\<exists>s a. Invoked k q s a \<in> set es) \<or> (\<exists>ans. Answered k q ans \<in> set es)}"

text \<open>C32: A completed request is answered from its record until the record expires. When a key has a completed record, no
  handler runs under the key, and no request and no purge is past reading an expired record of it, then until that record
  expires nothing under the key happens but answers: a request whose hash is that of the request that ran gets the stored
  status and body, any other is refused, and no handler runs. If SHA-256 has no collision among the requests of the key,
  and for paths without a line feed, the hashes agree exactly when path and body do (every guarded
  request is a POST). Who sends a request plays no part in this. A request that arrives at the end and is not disturbed
  finds the record in four statements.\<close>

theorem stored_response_replayed:
  assumes "guard_run sha dec guard_empty S" and "tbl_get ir_key k (gs_rows S) = Some r" and "ir_response_status r = Some st"
    and "k \<notin> set (gs_flight S)" and "k \<notin> set (gs_doomed S)"
    and "\<forall>x\<in>set (gs_pending S). rv_key (fst x) = k \<longrightarrow> rv_phase (fst x) \<in> {Inserting, Reading}"
    and "guard_run sha dec S T" and "gs_now T < ir_expires_at r" and "inj_on sha (hashed_bytes k (gs_events T))"
  shows "\<exists>q0 s0 a0 es. Invoked k q0 s0 a0 \<in> set (gs_events S) \<and> ir_expires_at r = s0 + IDEMPOTENCY_TTL
    \<and> gs_events T = gs_events S @ es \<and> tbl_get ir_key k (gs_rows T) = Some r
    \<and> (\<forall>e\<in>set es. event_key e = k \<longrightarrow> (\<exists>q. guarded_key q = Some k
        \<and> e = Answered k q (if request_hash sha q = request_hash sha q0 then Replay st (case ir_response_body r of None \<Rightarrow> [] | Some b \<Rightarrow> b)
                            else Conflict ''Idempotency-Key reused with a different request body'')
        \<and> (CHR 0x0A \<notin> set (hq_path q) \<and> CHR 0x0A \<notin> set (hq_path q0) \<longrightarrow>
             (request_hash sha q = request_hash sha q0 \<longleftrightarrow> hq_path q = hq_path q0 \<and> hq_body q = hq_body q0))))
    \<and> (\<forall>q. reserve_loop 4 (idem_arrive sha k q (gs_now T)) (gs_rows T) = Some (Lost (Some r), gs_rows T))"
proof -
  have inv: "guard_inv sha S" by (rule guard_run_inv [OF assms(1)])
  have "settled k r S" using assms(2,4-6) by (simp add: settled_def)
  then obtain es where T: "settled k r T" "gs_events T = gs_events S @ es" "answered_from sha k r es"
    using settled_run [OF assms(7) inv _ assms(8)] by blast
  have row: "ir_key r = k" "r \<in> set (gs_rows S)" using tbl_get_SomeD [OF assms(2)] by simp_all
  obtain q0 s0 a0 where q0: "Invoked k q0 s0 a0 \<in> set (gs_events S)" "ir_expires_at r = s0 + IDEMPOTENCY_TTL"
      "ir_request_hash r = request_hash sha q0" "guarded_key q0 = Some k"
    using guard_invD(3) [OF inv row(2)] unfolding row_known_def row(1) by blast
  have hash: "request_hash sha q = request_hash sha q0 \<longleftrightarrow> hq_path q = hq_path q0 \<and> hq_body q = hq_body q0"
    if q: "Answered k q ans \<in> set es" "guarded_key q = Some k" "CHR 0x0A \<notin> set (hq_path q)" "CHR 0x0A \<notin> set (hq_path q0)" for q ans
  proof -
    have "request_bytes q \<in> hashed_bytes k (gs_events T)" "request_bytes q0 \<in> hashed_bytes k (gs_events T)"
      using q(1) q0(1) unfolding hashed_bytes_def T(2) by auto
    then have "request_hash sha q = request_hash sha q0 \<longleftrightarrow> request_bytes q = request_bytes q0"
      unfolding request_hash_def using inj_onD [OF assms(9)] by metis
    then show ?thesis using request_bytes_eq [OF q(2) q0(4) q(3,4)] by simp
  qed
  have ans: "handle_contended (Some r) (request_hash sha q) =
      (if request_hash sha q = request_hash sha q0 then Replay st (case ir_response_body r of None \<Rightarrow> [] | Some b \<Rightarrow> b)
       else Conflict ''Idempotency-Key reused with a different request body'')" for q
    by (simp add: handle_contended_def q0(3) assms(3))
  have loop: "reserve_loop 4 (idem_arrive sha k q (gs_now T)) (gs_rows T) = Some (Lost (Some r), gs_rows T)" for q
    unfolding idem_arrive_def reserve_undisturbed using T(1) assms(8) by (simp add: settled_def idem_expired_def)
  have "\<exists>q. guarded_key q = Some k
        \<and> e = Answered k q (if request_hash sha q = request_hash sha q0 then Replay st (case ir_response_body r of None \<Rightarrow> [] | Some b \<Rightarrow> b)
                            else Conflict ''Idempotency-Key reused with a different request body'')
        \<and> (CHR 0x0A \<notin> set (hq_path q) \<and> CHR 0x0A \<notin> set (hq_path q0) \<longrightarrow>
             (request_hash sha q = request_hash sha q0 \<longleftrightarrow> hq_path q = hq_path q0 \<and> hq_body q = hq_body q0))"
    if e: "e \<in> set es" "event_key e = k" for e
  proof -
    obtain q where q: "guarded_key q = Some k" "e = Answered k q (handle_contended (Some r) (request_hash sha q))"
      using T(3) e unfolding answered_from_def by blast
    show ?thesis
      by (intro exI [of _ q] conjI impI q(1)) (use hash [OF _ q(1)] e(1) in \<open>auto simp: q(2) ans [of q]\<close>)
  qed
  then show ?thesis using q0(1,2) T(1,2) loop unfolding settled_def by blast
qed

text \<open>A run given by its moves: the index of the reservation that takes its next statement, for instance.\<close>

datatype guard_move = Tick time | Arrive string http_request | Advance nat | Finish string "http_response option"

definition perform ::
  "(bytes \<Rightarrow> string) \<Rightarrow> (bytes \<Rightarrow> (string \<times> jval) list) \<Rightarrow> guard_move \<Rightarrow> guard_state \<Rightarrow> guard_state option" where
  "perform sha dec m S = (case m of
      Tick t \<Rightarrow> if gs_now S \<le> t then Some (S\<lparr>gs_now := t\<rparr>) else None
    | Arrive k q \<Rightarrow> if guarded_key q = Some k then Some (S\<lparr>gs_pending := (idem_arrive sha k q (gs_now S), q) # gs_pending S\<rparr>) else None
    | Advance n \<Rightarrow> (case drop n (gs_pending S) of [] \<Rightarrow> None | (p, q) # qs \<Rightarrow> Some (advanced sha (take n (gs_pending S)) p q qs S))
    | Finish k res \<Rightarrow> if k \<in> set (gs_flight S) then Some (finished dec k res S) else None)"

fun perform_all ::
  "(bytes \<Rightarrow> string) \<Rightarrow> (bytes \<Rightarrow> (string \<times> jval) list) \<Rightarrow> guard_move list \<Rightarrow> guard_state \<Rightarrow> guard_state option" where
  "perform_all sha dec [] S = Some S"
| "perform_all sha dec (m # ms) S = Option.bind (perform sha dec m S) (perform_all sha dec ms)"

lemma perform_step: "perform sha dec m S = Some T \<Longrightarrow> guard_step sha dec S T"
proof (cases m)
  case (Advance n)
  assume a: "perform sha dec m S = Some T"
  obtain p q qs where d: "drop n (gs_pending S) = (p, q) # qs" and T: "T = advanced sha (take n (gs_pending S)) p q qs S"
    using a by (auto simp: Advance perform_def split: list.splits)
  have "gs_pending S = take n (gs_pending S) @ (p, q) # qs" using append_take_drop_id [of n "gs_pending S"] d by simp
  then show ?thesis unfolding T by (rule guard_step.advance)
qed (auto simp: perform_def split: if_splits intro: guard_step.intros)

lemma perform_run: "perform_all sha dec ms S = Some T \<Longrightarrow> guard_run sha dec S T"
proof (induction ms arbitrary: S)
  case (Cons m ms)
  then obtain S' where "perform sha dec m S = Some S'" and rest: "perform_all sha dec ms S' = Some T" by (auto simp: bind_eq_Some_conv)
  then have "guard_step sha dec S S'" using perform_step by blast
  then show ?case using Cons.IH [OF rest] by (rule converse_rtranclp_into_rtranclp)
qed simp

lemmas guard_eval = perform_def advanced_def finished_def reserve_step_def idem_answer_def idem_arrive_def start_reservation_def next_attempt_def
  pending_row_def lapses_def idem_expired_def idem_finish_def finalize_idempotency_record_def is_2xx_def tbl_save_def tbl_has_def tbl_delete_def
  delete_idempotency_record_def guard_empty_def IDEMPOTENCY_TTL_def seconds_def

text \<open>The residual case of the theorem happens. Two requests find the expired record of their key; the first deletes and
  inserts, the second then deletes what the first inserted, by its key, and inserts too. Both handlers run and no handler
  has failed.\<close>

lemma reclaim_race:
  assumes "guarded_key q = Some k"
  shows "\<exists>S. guard_run sha dec guard_empty S \<and> gs_events S = [Invoked k q 0 0, Completed k 201,
    Invoked k q IDEMPOTENCY_TTL IDEMPOTENCY_TTL, Lapse k, Invoked k q IDEMPOTENCY_TTL IDEMPOTENCY_TTL]"
proof -
  let ?first = "[Arrive k q, Advance 0, Finish k (Some \<lparr>hr_status = 201, hr_body = []\<rparr>), Tick IDEMPOTENCY_TTL]"
  let ?read = "[Arrive k q, Arrive k q, Advance 0, Advance 0, Advance 1, Advance 1]"
  let ?win = "[Advance 0, Advance 0, Advance 0, Advance 0]"
  have "map_option gs_events (perform_all sha dec (?first @ ?read @ ?win) guard_empty) = Some [Invoked k q 0 0, Completed k 201,
      Invoked k q IDEMPOTENCY_TTL IDEMPOTENCY_TTL, Lapse k, Invoked k q IDEMPOTENCY_TTL IDEMPOTENCY_TTL]"
    by (simp add: guard_eval assms)
  then obtain S where "perform_all sha dec (?first @ ?read @ ?win) guard_empty = Some S" and ev: "gs_events S = [Invoked k q 0 0,
      Completed k 201, Invoked k q IDEMPOTENCY_TTL IDEMPOTENCY_TTL, Lapse k, Invoked k q IDEMPOTENCY_TTL IDEMPOTENCY_TTL]"
    by (auto simp only: map_option_eq_Some)
  then show ?thesis using perform_run by blast
qed

section \<open>Evidence\<close>






section \<open>Listings\<close>

lemma digit_char: "d < 10 \<Longrightarrow> is_digit (char_of (48 + d :: nat)) \<and> \<not> is_space (char_of (48 + d :: nat)) \<and> of_char (char_of (48 + d :: nat) :: char) = 48 + d"
  by (simp add: is_digit_def is_space_def Let_def of_char_of take_bit_eq_mod)


lemma digits_val_snoc: "list_all is_digit xs \<Longrightarrow> is_digit c \<Longrightarrow> xs \<noteq> [] \<or> ok \<Longrightarrow>
    digits_val acc ok (xs @ [c]) = map_option (\<lambda>n. 10 * n + (of_char c - 48)) (digits_val acc ok xs)"
  by (induction acc ok xs rule: digits_val.induct) auto

lemma nat_str_read: "list_all is_digit (nat_str n) \<and> digits_val 0 False (nat_str n) = Some n"
proof (induction n rule: nat_str.induct)
  case (1 n)
  show ?case
  proof (cases "n < 10")
    case True
    then show ?thesis using digit_char [of n] by (simp add: nat_str.simps [of n])
  next
    case False
    have d: "n mod 10 < 10" by simp
    note IH = 1 [OF False]
    then show ?thesis
      using digits_val_snoc [of "nat_str (n div 10)" "char_of (48 + n mod 10)" False 0] digit_char [OF d] False
      by (simp add: nat_str.simps [of n])
  qed
qed

lemma digit_not_space: "is_digit c \<Longrightarrow> \<not> is_space c"
  by (auto simp: is_digit_def is_space_def Let_def)

lemma py_int_nat_str: "py_int (nat_str n) = Some (int n)"
proof -
  have dg: "\<forall>c\<in>set (nat_str n). is_digit c" using nat_str_read [of n] by (simp add: list_all_iff)
  have "dropWhile is_space xs = xs" if "\<forall>c\<in>set xs. is_digit c" for xs
    using that digit_not_space by (cases xs) auto
  then have st: "py_strip (nat_str n) = nat_str n" using dg by (simp add: py_strip_def)
  obtain c cs where c: "nat_str n = c # cs" by (cases "nat_str n") auto
  have "c \<noteq> CHR ''-''" "c \<noteq> CHR ''+''" using dg by (auto simp: c is_digit_def)
  then show ?thesis using nat_str_read [of n] by (auto simp: py_int_def st [unfolded c] c)
qed

text \<open>Following the cursors from the first page to the last.\<close>

fun follow :: "nat \<Rightarrow> (string \<Rightarrow> string) \<Rightarrow> (string \<Rightarrow> string option) \<Rightarrow> nat \<Rightarrow> string option \<Rightarrow> 'r list \<Rightarrow> 'r list option" where
  "follow 0 b64 unb64 limit cursor rows = None"
| "follow (Suc n) b64 unb64 limit cursor rows =
     (case list_page b64 unb64 limit cursor rows of
        Inl e \<Rightarrow> None
      | Inr (items, None) \<Rightarrow> Some items
      | Inr (items, Some c) \<Rightarrow> map_option ((@) items) (follow n b64 unb64 limit (Some c) rows))"

lemma follow_from:
  assumes "\<And>s. unb64 (b64 s) = Some s" and "0 < limit" and "decode_cursor unb64 cursor = Inr off" and "length rows - off < n"
  shows "follow n b64 unb64 limit cursor rows = Some (drop off rows)"
  using assms(3,4)
proof (induction n arbitrary: cursor off)
  case (Suc n)
  show ?case
  proof (cases "length (page off (limit + 1) rows) > limit")
    case True
    then have len: "limit < length rows - off" by (simp add: length_page_eq)
    have dec: "decode_cursor unb64 (Some (encode_cursor b64 (off + limit))) = Inr (off + limit)"
      using assms(1) by (simp add: decode_cursor_def encode_cursor_def py_int_nat_str)
    have "follow n b64 unb64 limit (Some (encode_cursor b64 (off + limit))) rows = Some (drop (off + limit) rows)"
      by (rule Suc.IH [OF dec]) (use Suc.prems(2) len assms(2) in simp)
    moreover have "take limit (page off (limit + 1) rows) @ drop (off + limit) rows = drop off rows"
      by (simp add: page_def add.commute append_take_drop_id flip: drop_drop)
    ultimately show ?thesis using True Suc.prems(1) by (simp add: list_page_def next_cursor_def Let_def)
  next
    case False
    then have "length rows - off \<le> limit" by (simp add: length_page_eq)
    then show ?thesis using False Suc.prems(1) by (simp add: list_page_def next_cursor_def Let_def page_def)
  qed
qed simp

text \<open>A client that follows the cursors gets the whole listing, each row once and in order, after at most one page per
  row and one more, whatever the page size.\<close>

lemma listing_complete:
  assumes "\<And>s. unb64 (b64 s) = Some s" and "0 < limit"
  shows "follow (length rows + 1) b64 unb64 limit None rows = Some rows"
  using follow_from [of unb64 b64 limit None 0 rows "length rows + 1"] assms by (simp add: decode_cursor_def)

section \<open>Witnesses\<close>

definition example_post :: "bytes \<Rightarrow> http_request" where
  "example_post body = \<lparr>hq_method = ''POST'', hq_path = ''/v1/auth/tokens'', hq_query = [], hq_headers = [(''idempotency-key'', ''k'')],
     hq_body = body, hq_client = None\<rparr>"

definition example_dec :: "bytes \<Rightarrow> (string \<times> jval) list" where
  "example_dec b = [(''secret'', JInt 7)]"

text \<open>A first attempt that fails, a second that succeeds, and a repetition of it.\<close>

definition example_moves :: "guard_move list" where
  "example_moves = [Tick 10, Arrive ''k'' (example_post [1]), Advance 0, Finish ''k'' None, Tick 30, Arrive ''k'' (example_post [1]),
     Advance 0, Finish ''k'' (Some \<lparr>hr_status = 201, hr_body = []\<rparr>)]"

definition example_repeat :: "guard_move list" where
  "example_repeat = [Tick 40, Arrive ''k'' (example_post [1]), Advance 0, Advance 0]"

definition example_done :: guard_state where
  "example_done = \<lparr>gs_rows = [\<lparr>ir_key = ''k'', ir_request_hash = request_hash example_hash (example_post [1]), ir_response_status = Some 201,
       ir_response_body = Some [(''secret'', JInt 7)], ir_bus_state = ''delivered'', ir_user = None, ir_created_at = 30,
       ir_expires_at = 30 + IDEMPOTENCY_TTL\<rparr>], gs_pending = [], gs_flight = [], gs_doomed = [],
     gs_events = [Invoked ''k'' (example_post [1]) 10 10, Released ''k'' None, Invoked ''k'' (example_post [1]) 30 30, Completed ''k'' 201], gs_now = 30\<rparr>"

definition example_repeated :: guard_state where
  "example_repeated = example_done\<lparr>gs_now := 40, gs_events := gs_events example_done @ [Answered ''k'' (example_post [1]) (Replay 201 [(''secret'', JInt 7)])]\<rparr>"

lemma example_guarded: "guarded_key (example_post b) = Some ''k''"
  by (simp add: guarded_key_def example_post_def)

lemma example_run: "guard_run example_hash example_dec guard_empty example_done"
  by (rule perform_run [of _ _ example_moves]) (simp add: example_moves_def example_done_def guard_eval example_guarded example_dec_def)

lemma example_repeat_run: "guard_run example_hash example_dec example_done example_repeated"
  by (rule perform_run [of _ _ example_repeat])
    (simp add: example_repeat_def example_repeated_def example_done_def guard_eval example_guarded handle_contended_def)

theorem handler_runs_once_witness:
  "(\<exists>out. Released ''k'' out \<in> set [Released ''k'' None] \<and> (out = None \<or> (\<exists>r. out = Some r \<and> \<not> is_2xx (hr_status r))))
    \<or> Lapse ''k'' \<in> set [Released ''k'' None] \<and> (\<exists>q0 s0 a0. Invoked ''k'' q0 s0 a0 \<in> set [] \<union> set [Released ''k'' None] \<and> s0 + IDEMPOTENCY_TTL \<le> 30)"
  by (rule handler_runs_once [OF example_run, of "[]" "''k''" "example_post [1]" 10 10 _ "example_post [1]" 30 30 "[Completed ''k'' 201]"])
    (simp_all add: example_done_def IDEMPOTENCY_TTL_def seconds_def)

text \<open>The secret comes back to a request that carries no credential at all.\<close>

theorem stored_response_replayed_witness:
  "\<exists>es. gs_events example_repeated = gs_events example_done @ es \<and> es \<noteq> []
    \<and> (\<forall>e\<in>set es. \<exists>q. hq_body q = [1] \<and> e = Answered ''k'' q (Replay 201 [(''secret'', JInt 7)]))"
proof -
  let ?r = "hd (gs_rows example_done)"
  have "tbl_get ir_key ''k'' (gs_rows example_done) = Some ?r" "ir_response_status ?r = Some 201" "''k'' \<notin> set (gs_flight example_done)"
    "''k'' \<notin> set (gs_doomed example_done)" "\<forall>x\<in>set (gs_pending example_done). rv_key (fst x) = ''k'' \<longrightarrow> rv_phase (fst x) \<in> {Inserting, Reading}"
    "gs_now example_repeated < ir_expires_at ?r" "inj_on example_hash (hashed_bytes ''k'' (gs_events example_repeated))"
    using inj_on_subset [OF example_hash_inj] by (simp_all add: example_done_def example_repeated_def IDEMPOTENCY_TTL_def seconds_def)
  note H = this
  obtain q0 s0 a0 es where w: "Invoked ''k'' q0 s0 a0 \<in> set (gs_events example_done)" "gs_events example_repeated = gs_events example_done @ es"
    "\<forall>e\<in>set es. event_key e = ''k'' \<longrightarrow> (\<exists>q. guarded_key q = Some ''k''
        \<and> e = Answered ''k'' q (if request_hash example_hash q = request_hash example_hash q0
             then Replay 201 (case ir_response_body ?r of None \<Rightarrow> [] | Some b \<Rightarrow> b)
             else Conflict ''Idempotency-Key reused with a different request body'')
        \<and> (CHR 0x0A \<notin> set (hq_path q) \<and> CHR 0x0A \<notin> set (hq_path q0) \<longrightarrow>
             (request_hash example_hash q = request_hash example_hash q0 \<longleftrightarrow> hq_path q = hq_path q0 \<and> hq_body q = hq_body q0)))"
    using stored_response_replayed [OF example_run H(1-5) example_repeat_run H(6,7)] by blast
  have q0: "q0 = example_post [1]" using w(1) by (auto simp: example_done_def)
  have es: "es = [Answered ''k'' (example_post [1]) (Replay 201 [(''secret'', JInt 7)])]" using w(2) by (simp add: example_repeated_def)
  show ?thesis using w(2,3) by (auto simp: es example_post_def)
qed



end
