(* ===== verification/Bus.thy ===== *)
theory Bus
  imports Auth_Tokens "HOL-Library.AList"
begin

text \<open>
  The message bus: subject patterns (\<open>bus/subjects.py\<close>), the in-process bus with its fan-out and its queue groups
  (\<open>bus/memory.py\<close>) and the envelope publisher (\<open>bus/publisher.py\<close>). A handler is a value of the type parameter;
  what running it does to the rest of the program is the argument \<open>run\<close>. The tracing spans are left out.
\<close>

section \<open>Subjects\<close>

text \<open>\<open>str.split\<close> at a character and \<open>str.join\<close>.\<close>

fun split_at :: "char \<Rightarrow> string \<Rightarrow> string list" where
  "split_at c [] = [[]]"
| "split_at c (x # xs) =
     (if x = c then [] # split_at c xs
      else (case split_at c xs of [] \<Rightarrow> [[x]] | t # ts \<Rightarrow> (x # t) # ts))"

fun join_with :: "string \<Rightarrow> string list \<Rightarrow> string" where
  "join_with sep [] = []"
| "join_with sep [t] = t"
| "join_with sep (t # ts) = t @ sep @ join_with sep ts"

definition subject_tokens :: "string \<Rightarrow> string list" where
  "subject_tokens s = (if s = [] then [] else split_at CHR ''.'' s)"

text \<open>The loop over the tokens of the pattern, \<open>i\<close> the position in the subject.\<close>

fun match_tokens :: "string list \<Rightarrow> string list \<Rightarrow> nat \<Rightarrow> bool" where
  "match_tokens [] s i = (i = length s)"
| "match_tokens (tok # p) s i =
     (if tok = ''>'' then i < length s
      else if length s \<le> i then False
      else if tok = ''*'' then match_tokens p s (i + 1)
      else if tok \<noteq> s ! i then False
      else match_tokens p s (i + 1))"

definition subject_matches :: "string \<Rightarrow> string \<Rightarrow> bool" where
  "subject_matches pattern subject = match_tokens (subject_tokens pattern) (subject_tokens subject) 0"

fun valid_tokens :: "string list \<Rightarrow> bool" where
  "valid_tokens [] = True"
| "valid_tokens (t # ts) = (if t = [] then False else if t = ''>'' \<and> ts \<noteq> [] then False else valid_tokens ts)"

definition is_valid_pattern :: "string \<Rightarrow> bool" where
  "is_valid_pattern pattern = (if pattern = [] then False else valid_tokens (split_at CHR ''.'' pattern))"

section \<open>The in-process bus\<close>

record 'h bus_sub =
  bu_pattern :: string
  bu_handler :: 'h
  bu_queue_group :: "string option"
  bu_sid :: string
  bu_cancelled :: bool

record 'h memory_bus =
  mb_subs :: "'h bus_sub list"
  mb_rr :: "string \<rightharpoonup> nat"
  mb_closed :: bool

record bus_message =
  bm_subject :: string
  bm_payload :: bytes
  bm_headers :: "(string \<times> string) list"

definition new_bus :: "'h memory_bus" where
  "new_bus = \<lparr>mb_subs = [], mb_rr = Map.empty, mb_closed = False\<rparr>"

definition bus_subscribe :: "string \<Rightarrow> string \<Rightarrow> 'h \<Rightarrow> string option \<Rightarrow> 'h memory_bus \<Rightarrow> ('h bus_sub, 'h memory_bus) outcome" where
  "bus_subscribe sid subject handler qg B =
     (if \<not> is_valid_pattern subject then (Inl (ValueError ''invalid subject pattern''), B)
      else let s = \<lparr>bu_pattern = subject, bu_handler = handler, bu_queue_group = qg, bu_sid = sid, bu_cancelled = False\<rparr>
           in (Inr s, B\<lparr>mb_subs := mb_subs B @ [s]\<rparr>))"

text \<open>\<open>unsubscribe\<close> cancels the subscription object and removes it; the object is known by its \<open>sid\<close>.\<close>

definition bus_unsubscribe :: "string \<Rightarrow> 'h memory_bus \<Rightarrow> 'h memory_bus" where
  "bus_unsubscribe sid B = B\<lparr>mb_subs := filter (\<lambda>s. bu_sid s \<noteq> sid) (mb_subs B)\<rparr>"

definition bus_close :: "'h memory_bus \<Rightarrow> 'h memory_bus" where
  "bus_close B = B\<lparr>mb_closed := True, mb_subs := [], mb_rr := Map.empty\<rparr>"

text \<open>\<open>groups.setdefault(name, []).append(sub)\<close> on a dictionary in insertion order.\<close>

fun group_append :: "string \<Rightarrow> 'a \<Rightarrow> (string \<times> 'a list) list \<Rightarrow> (string \<times> 'a list) list" where
  "group_append g x [] = [(g, [x])]"
| "group_append g x ((h, xs) # r) = (if h = g then (h, xs @ [x]) # r else (h, xs) # group_append g x r)"

fun collect_subs ::
  "string \<Rightarrow> 'h bus_sub list \<Rightarrow> 'h bus_sub list \<Rightarrow> (string \<times> 'h bus_sub list) list
   \<Rightarrow> 'h bus_sub list \<times> (string \<times> 'h bus_sub list) list" where
  "collect_subs subject [] broadcast groups = (broadcast, groups)"
| "collect_subs subject (s # ss) broadcast groups =
     (if bu_cancelled s \<or> \<not> subject_matches (bu_pattern s) subject then collect_subs subject ss broadcast groups
      else (case bu_queue_group s of
              None \<Rightarrow> collect_subs subject ss (broadcast @ [s]) groups
            | Some g \<Rightarrow> collect_subs subject ss broadcast (group_append g s groups)))"

definition pick_round_robin :: "string \<Rightarrow> 'h bus_sub list \<Rightarrow> (string \<rightharpoonup> nat) \<Rightarrow> 'h bus_sub option \<times> (string \<rightharpoonup> nat)" where
  "pick_round_robin g members rr =
     (if members = [] then (None, rr)
      else let ordered = sort_key bu_sid members;
               idx = (case rr g of None \<Rightarrow> 0 | Some n \<Rightarrow> n) mod length ordered
           in (Some (ordered ! idx), rr(g \<mapsto> idx + 1)))"

fun pick_groups ::
  "(string \<times> 'h bus_sub list) list \<Rightarrow> 'h bus_sub list \<Rightarrow> (string \<rightharpoonup> nat) \<Rightarrow> 'h bus_sub list \<times> (string \<rightharpoonup> nat)" where
  "pick_groups [] targets rr = (targets, rr)"
| "pick_groups ((g, members) # r) targets rr =
     (case pick_round_robin g members rr of
        (None, rr') \<Rightarrow> pick_groups r targets rr'
      | (Some chosen, rr') \<Rightarrow> pick_groups r (targets @ [chosen]) rr')"

definition fanout_targets :: "string \<Rightarrow> 'h memory_bus \<Rightarrow> 'h bus_sub list \<times> 'h memory_bus" where
  "fanout_targets subject B =
     (case collect_subs subject (mb_subs B) [] [] of
        (broadcast, groups) \<Rightarrow>
          (case pick_groups groups broadcast (mb_rr B) of
             (targets, rr) \<Rightarrow> (targets, B\<lparr>mb_rr := rr\<rparr>)))"

text \<open>\<open>gather(..., return_exceptions=True)\<close>: every handler is run, what one raises is kept as its result.\<close>

fun gather_handlers :: "('h \<Rightarrow> bus_message \<Rightarrow> 'w \<Rightarrow> (unit, 'w) outcome) \<Rightarrow> 'h bus_sub list \<Rightarrow> bus_message \<Rightarrow> 'w
   \<Rightarrow> (exn + unit) list \<times> 'w" where
  "gather_handlers run [] m w = ([], w)"
| "gather_handlers run (s # ss) m w =
     (let (r, w') = run (bu_handler s) m w; (rs, w'') = gather_handlers run ss m w' in (r # rs, w''))"

definition bus_publish ::
  "('h \<Rightarrow> bus_message \<Rightarrow> 'w \<Rightarrow> (unit, 'w) outcome) \<Rightarrow> bus_message \<Rightarrow> 'h memory_bus \<times> 'w \<Rightarrow> (unit, 'h memory_bus \<times> 'w) outcome" where
  "bus_publish run m BW =
     (case BW of (B, w) \<Rightarrow>
        if mb_closed B then (Inl (RuntimeError ''MemoryBus is closed''), (B, w))
        else (case fanout_targets (bm_subject m) B of
                (targets, B') \<Rightarrow> (Inr (), (B', snd (gather_handlers run targets m w)))))"

text \<open>
  \<open>request\<close>: \<open>replies w\<close> are the bodies that reached the inbox before the timeout; the first one resolves the future.
\<close>

definition bus_request ::
  "('h \<Rightarrow> bus_message \<Rightarrow> 'w \<Rightarrow> (unit, 'w) outcome) \<Rightarrow> ('w \<Rightarrow> (bytes \<times> (string \<times> string) list) list) \<Rightarrow> string \<Rightarrow> string \<Rightarrow> 'h
   \<Rightarrow> bus_message \<Rightarrow> 'h memory_bus \<times> 'w \<Rightarrow> (bytes \<times> (string \<times> string) list, 'h memory_bus \<times> 'w) outcome" where
  "bus_request run replies inbox_hex sid on_reply m BW =
     (case BW of (B, w) \<Rightarrow>
        let inbox = ''_INBOX.'' @ inbox_hex
        in case bus_subscribe sid inbox on_reply None B of
             (Inl e, B1) \<Rightarrow> (Inl e, (B1, w))
           | (Inr s, B1) \<Rightarrow>
               (case bus_publish run (m\<lparr>bm_headers := AList.update ''__reply_to__'' inbox (bm_headers m)\<rparr>) (B1, w) of
                  (Inl e, (B2, w2)) \<Rightarrow> (Inl e, (bus_unsubscribe sid B2, w2))
                | (Inr _, (B2, w2)) \<Rightarrow>
                    ((case replies w2 of [] \<Rightarrow> Inl (RuntimeError ''TimeoutError'') | r # _ \<Rightarrow> Inr r), (bus_unsubscribe sid B2, w2))))"

section \<open>The envelope publisher\<close>

definition ALLOWED_PREFIXES :: "string list" where
  "ALLOWED_PREFIXES =
     [''raw.message.'', ''actor.observation.text.'', ''identity.label.applied'', ''identity.engagement.authorized'',
      ''attribution.profile.candidate'', ''attribution.profile.current'', ''attribution.linkage.proposed'',
      ''attribution.linkage.suspected'', ''attribution.linkage.confirmed'', ''attribution.linkage.rejected'',
      ''attribution.persona.updated'', ''attribution.persona.merge'', ''attribution.persona.split'',
      ''classify.document.uploaded'', ''classify.attachment.stored'', ''incident.detected'', ''eyenet.audit.'',
      ''eyenet.control.'', ''eyenet.identity.'']"

definition is_known_subject :: "string \<Rightarrow> bool" where
  "is_known_subject subject \<longleftrightarrow> (\<exists>p\<in>set ALLOWED_PREFIXES. subject = p \<or> startswith subject p)"

record bus_envelope =
  be_traceparent :: string
  be_tracestate :: "string option"
  be_schema_version :: string
  be_json :: bytes

definition envelope_headers :: "bus_envelope \<Rightarrow> string option \<Rightarrow> (string \<times> string) list" where
  "envelope_headers env event_id =
     [(''traceparent'', be_traceparent env), (''schema-version'', be_schema_version env)]
     @ (case be_tracestate env of None \<Rightarrow> [] | Some [] \<Rightarrow> [] | Some t \<Rightarrow> [(''tracestate'', t)])
     @ (case event_id of None \<Rightarrow> [] | Some i \<Rightarrow> [(''eyenet-event-id'', i)])"

definition publisher_publish ::
  "('h \<Rightarrow> bus_message \<Rightarrow> 'w \<Rightarrow> (unit, 'w) outcome) \<Rightarrow> string \<Rightarrow> bus_envelope \<Rightarrow> string option \<Rightarrow> 'h memory_bus \<times> 'w
   \<Rightarrow> (unit, 'h memory_bus \<times> 'w) outcome" where
  "publisher_publish run subject env event_id BW =
     (if \<not> is_known_subject subject then (Inl (ValueError ''refusing to publish on unknown subject''), BW)
      else if be_traceparent env = [] then (Inl (ValueError ''BusEnvelope.trace_context.traceparent must be set''), BW)
      else bus_publish run \<lparr>bm_subject = subject, bm_payload = be_json env, bm_headers = envelope_headers env event_id\<rparr> BW)"

text \<open>An observation carries no trace context of its own; the current one, when there is one, rides in the headers.\<close>

definition publish_observation ::
  "('h \<Rightarrow> bus_message \<Rightarrow> 'w \<Rightarrow> (unit, 'w) outcome) \<Rightarrow> string \<Rightarrow> string option \<Rightarrow> string \<Rightarrow> bytes \<Rightarrow> 'h memory_bus \<times> 'w
   \<Rightarrow> (unit, 'h memory_bus \<times> 'w) outcome" where
  "publish_observation run topic traceparent version json BW =
     (if \<not> is_known_subject topic then (Inl (ValueError ''refusing to publish observation on unknown subject''), BW)
      else bus_publish run \<lparr>bm_subject = topic, bm_payload = json,
             bm_headers = (''schema-version'', version)
               # (case traceparent of None \<Rightarrow> [] | Some [] \<Rightarrow> [] | Some t \<Rightarrow> [(''traceparent'', t)])\<rparr> BW)"


section \<open>Subjects: the loop implements the rule\<close>

lemma split_at_nonempty [simp]: "split_at c s \<noteq> []"
  by (induction s) (auto split: list.splits)

lemma split_at_Cons: "x \<noteq> c \<Longrightarrow> split_at c (x # xs) = (x # hd (split_at c xs)) # tl (split_at c xs)"
  by (cases "split_at c xs") simp_all

lemma join_split: "join_with [c] (split_at c s) = s"
proof (induction s)
  case (Cons x xs)
  obtain t ts where t: "split_at c xs = t # ts" by (meson neq_Nil_conv split_at_nonempty)
  show ?case using Cons t by (cases ts) auto
qed simp

lemma split_at_tokens: "t \<in> set (split_at c s) \<Longrightarrow> c \<notin> set t"
proof (induction s arbitrary: t)
  case (Cons x xs)
  obtain u us where u: "split_at c xs = u # us" by (meson neq_Nil_conv split_at_nonempty)
  show ?case using Cons.prems Cons.IH u by (auto split: if_splits)
qed simp

definition token_ok :: "string \<Rightarrow> string \<Rightarrow> bool" where
  "token_ok t u \<longleftrightarrow> t = ''*'' \<or> t = u"

definition nats_matches :: "string list \<Rightarrow> string list \<Rightarrow> bool" where
  "nats_matches p s \<longleftrightarrow> ''>'' \<notin> set p \<and> list_all2 token_ok p s
     \<or> (\<exists>q r u. p = q @ [''>''] \<and> s = r @ u \<and> u \<noteq> [] \<and> list_all2 token_ok q r)"

lemma nats_matches_Nil [simp]: "nats_matches [] s \<longleftrightarrow> s = []"
  by (auto simp: nats_matches_def)

lemma nats_matches_rest [simp]: "nats_matches [''>''] s \<longleftrightarrow> s \<noteq> []"
  by (auto simp: nats_matches_def Cons_eq_append_conv)

lemma nats_matches_Cons:
  assumes "t \<noteq> ''>''"
  shows "nats_matches (t # p) s \<longleftrightarrow> (case s of [] \<Rightarrow> False | u # us \<Rightarrow> token_ok t u \<and> nats_matches p us)"
proof (cases s)
  case Nil
  then show ?thesis using assms by (auto simp: nats_matches_def Cons_eq_append_conv)
next
  case (Cons u us)
  have "(\<exists>q r v. t # p = q @ [''>''] \<and> u # us = r @ v \<and> v \<noteq> [] \<and> list_all2 token_ok q r)
      \<longleftrightarrow> token_ok t u \<and> (\<exists>q r v. p = q @ [''>''] \<and> us = r @ v \<and> v \<noteq> [] \<and> list_all2 token_ok q r)" (is "?L \<longleftrightarrow> ?R")
  proof
    assume ?L
    then obtain q r v where h: "t # p = q @ [''>'']" "u # us = r @ v" "v \<noteq> []" "list_all2 token_ok q r" by blast
    then obtain q' where q: "q = t # q'" "p = q' @ [''>'']" using assms by (cases q) auto
    then obtain r' where r: "r = u # r'" "us = r' @ v" "token_ok t u" "list_all2 token_ok q' r'"
      using h by (cases r) auto
    then show ?R using q h by blast
  next
    assume ?R
    then obtain q r v where h: "token_ok t u" "p = q @ [''>'']" "us = r @ v" "v \<noteq> []" "list_all2 token_ok q r" by blast
    then show ?L by (intro exI [of _ "t # q"] exI [of _ "u # r"] exI [of _ v]) simp
  qed
  then show ?thesis using assms Cons by (auto simp: nats_matches_def)
qed

lemma match_tokens_iff:
  "valid_tokens p \<Longrightarrow> i \<le> length s \<Longrightarrow> match_tokens p s i = nats_matches p (drop i s)"
proof (induction p arbitrary: i)
  case (Cons t p)
  show ?case
  proof (cases "t = ''>''")
    case True
    then have "p = []" using Cons.prems by (auto split: if_splits)
    then show ?thesis using True Cons.prems by (auto simp: nats_matches_rest)
  next
    case False
    show ?thesis
    proof (cases "i < length s")
      case True
      then have d: "drop i s = s ! i # drop (Suc i) s" by (simp add: Cons_nth_drop_Suc)
      have "valid_tokens p" using Cons.prems by (auto split: if_splits)
      then have "match_tokens p s (Suc i) = nats_matches p (drop (Suc i) s)" using True Cons.IH by simp
      then show ?thesis using False True by (auto simp: nats_matches_Cons d token_ok_def)
    next
      case False
      then show ?thesis using \<open>t \<noteq> ''>''\<close> by (simp add: nats_matches_Cons)
    qed
  qed
qed auto

lemma subject_matches_spec:
  assumes "is_valid_pattern p"
  shows "subject_matches p s = nats_matches (split_at CHR ''.'' p) (subject_tokens s)"
  using assms by (simp add: subject_matches_def is_valid_pattern_def subject_tokens_def match_tokens_iff split: if_splits)

section \<open>Queue groups\<close>

lemma group_append_lookup:
  "map_of (group_append g x gs) h = (if h = g then Some (case map_of gs g of None \<Rightarrow> [x] | Some xs \<Rightarrow> xs @ [x]) else map_of gs h)"
  by (induction gs) auto

lemma group_append_dom: "fst ` set (group_append g x gs) = insert g (fst ` set gs)"
  by (induction g x gs rule: group_append.induct) (simp_all add: insert_commute)

lemma group_append_keys: "distinct (map fst gs) \<Longrightarrow> distinct (map fst (group_append g x gs))"
  by (induction g x gs rule: group_append.induct) (auto simp: group_append_dom)

definition hears :: "string \<Rightarrow> string option \<Rightarrow> 'h bus_sub \<Rightarrow> bool" where
  "hears subject g s \<longleftrightarrow> \<not> bu_cancelled s \<and> subject_matches (bu_pattern s) subject \<and> bu_queue_group s = g"

lemma collect_broadcast: "fst (collect_subs subject ss bs gs) = bs @ filter (hears subject None) ss"
  by (induction ss arbitrary: bs gs) (simp_all add: hears_def split: option.split)

lemma collect_keys: "distinct (map fst gs) \<Longrightarrow> distinct (map fst (snd (collect_subs subject ss bs gs)))"
  by (induction ss arbitrary: bs gs) (simp_all add: group_append_keys split: option.split)

definition group_add :: "'a list \<Rightarrow> 'a list option \<Rightarrow> 'a list option" where
  "group_add ms xs = (if ms = [] then xs else Some (case xs of None \<Rightarrow> ms | Some ys \<Rightarrow> ys @ ms))"

lemma collect_groups:
  "map_of (snd (collect_subs subject ss bs gs)) g = group_add (filter (hears subject (Some g)) ss) (map_of gs g)"
proof (induction ss arbitrary: bs gs)
  case (Cons s ss)
  show ?case
  proof (cases "bu_cancelled s \<or> \<not> subject_matches (bu_pattern s) subject")
    case True
    then show ?thesis using Cons by (auto simp: hears_def)
  next
    case False
    then show ?thesis using Cons
      by (cases "bu_queue_group s"; cases "map_of gs g") (auto simp: hears_def group_append_lookup group_add_def)
  qed
qed (simp add: group_add_def)


text \<open>The member a group's pointer names, and the pointer after the pick.\<close>

definition group_pick :: "'h bus_sub list \<Rightarrow> nat option \<Rightarrow> 'h bus_sub" where
  "group_pick ms r = sort_key bu_sid ms ! ((case r of None \<Rightarrow> 0 | Some n \<Rightarrow> n) mod length ms)"

definition group_next :: "'h bus_sub list \<Rightarrow> nat option \<Rightarrow> nat" where
  "group_next ms r = (case r of None \<Rightarrow> 0 | Some n \<Rightarrow> n) mod length ms + 1"

lemma pick_round_robin_simps [simp]:
  "pick_round_robin g [] rr = (None, rr)"
  "ms \<noteq> [] \<Longrightarrow> pick_round_robin g ms rr = (Some (group_pick ms (rr g)), rr(g \<mapsto> group_next ms (rr g)))"
  by (simp_all add: pick_round_robin_def group_pick_def group_next_def Let_def)

lemma pick_groups_result:
  "distinct (map fst gs) \<Longrightarrow> (\<And>g ms. (g, ms) \<in> set gs \<Longrightarrow> ms \<noteq> []) \<Longrightarrow>
   pick_groups gs ts rr =
     (ts @ map (\<lambda>(g, ms). group_pick ms (rr g)) gs,
      \<lambda>g. case map_of gs g of None \<Rightarrow> rr g | Some ms \<Rightarrow> Some (group_next ms (rr g)))"
proof (induction gs arbitrary: ts rr)
  case (Cons p gs)
  obtain g ms where p: "p = (g, ms)" by (cases p)
  have n: "ms \<noteq> []" using Cons.prems(2) [of g ms] p by simp
  have fresh: "g \<notin> fst ` set gs" using Cons.prems(1) p by simp
  have "pick_groups (p # gs) ts rr = pick_groups gs (ts @ [group_pick ms (rr g)]) (rr(g \<mapsto> group_next ms (rr g)))"
    using n p by simp
  also have "\<dots> = (ts @ [group_pick ms (rr g)] @ map (\<lambda>(h, xs). group_pick xs ((rr(g \<mapsto> group_next ms (rr g))) h)) gs,
      \<lambda>h. case map_of gs h of None \<Rightarrow> (rr(g \<mapsto> group_next ms (rr g))) h | Some xs \<Rightarrow> Some (group_next xs ((rr(g \<mapsto> group_next ms (rr g))) h)))"
    by (subst Cons.IH) (use Cons.prems in \<open>auto simp del: fun_upd_apply\<close>)
  also have "map (\<lambda>(h, xs). group_pick xs ((rr(g \<mapsto> group_next ms (rr g))) h)) gs = map (\<lambda>(h, ms). group_pick ms (rr h)) gs"
    using fresh by (intro map_cong) force+
  also have "(\<lambda>h. case map_of gs h of None \<Rightarrow> (rr(g \<mapsto> group_next ms (rr g))) h | Some xs \<Rightarrow> Some (group_next xs ((rr(g \<mapsto> group_next ms (rr g))) h)))
      = (\<lambda>h. case map_of (p # gs) h of None \<Rightarrow> rr h | Some xs \<Rightarrow> Some (group_next xs (rr h)))"
  proof (rule ext)
    fix h
    have "map_of gs g = None" using fresh by (simp add: map_of_eq_None_iff)
    then show "(case map_of gs h of None \<Rightarrow> (rr(g \<mapsto> group_next ms (rr g))) h | Some xs \<Rightarrow> Some (group_next xs ((rr(g \<mapsto> group_next ms (rr g))) h)))
        = (case map_of (p # gs) h of None \<Rightarrow> rr h | Some xs \<Rightarrow> Some (group_next xs (rr h)))"
      using p by (cases "h = g") (simp_all split: option.split)
  qed
  finally show ?case using p by simp
qed simp

lemma group_pick_member: "ms \<noteq> [] \<Longrightarrow> group_pick ms r \<in> set ms"
  unfolding group_pick_def
  by (metis length_greater_0_conv length_sort mod_less_divisor nth_mem set_sort)

section \<open>Who receives a message\<close>

definition heard_by :: "string \<Rightarrow> string option \<Rightarrow> 'h memory_bus \<Rightarrow> 'h bus_sub list" where
  "heard_by subject g B = filter (hears subject g) (mb_subs B)"

lemma collect_nonempty: "(g, ms) \<in> set (snd (collect_subs subject ss [] [])) \<Longrightarrow>
   ms = filter (hears subject (Some g)) ss \<and> ms \<noteq> []"
  using collect_keys [of "[]" subject ss "[]"] collect_groups [of subject ss "[]" "[]" g]
  by (auto simp: group_add_def split: if_splits dest: map_of_is_SomeI)

lemma fanout_result:
  obtains gs where "fst (fanout_targets subject B) = heard_by subject None B
      @ map (\<lambda>g. group_pick (heard_by subject (Some g) B) (mb_rr B g)) gs"
    and "distinct gs" and "set gs = {g. heard_by subject (Some g) B \<noteq> []}"
    and "mb_rr (snd (fanout_targets subject B)) =
      (\<lambda>g. if heard_by subject (Some g) B = [] then mb_rr B g else Some (group_next (heard_by subject (Some g) B) (mb_rr B g)))"
    and "mb_subs (snd (fanout_targets subject B)) = mb_subs B" and "mb_closed (snd (fanout_targets subject B)) = mb_closed B"
proof -
  let ?gs = "snd (collect_subs subject (mb_subs B) [] [])"
  note ms = collect_nonempty [of _ _ subject "mb_subs B", folded heard_by_def]
  have k: "distinct (map fst ?gs)" by (simp add: collect_keys)
  have look: "map_of ?gs g = (if heard_by subject (Some g) B = [] then None else Some (heard_by subject (Some g) B))" for g
    by (simp add: collect_groups group_add_def heard_by_def)
  have e: "fanout_targets subject B =
     (heard_by subject None B @ map (\<lambda>(g, ms). group_pick ms (mb_rr B g)) ?gs,
      B\<lparr>mb_rr := \<lambda>g. case map_of ?gs g of None \<Rightarrow> mb_rr B g | Some ms \<Rightarrow> Some (group_next ms (mb_rr B g))\<rparr>)"
    using pick_groups_result [OF k, of "heard_by subject None B" "mb_rr B"] ms
    by (simp add: fanout_targets_def split_beta collect_broadcast heard_by_def)
  show thesis
  proof (rule that [of "map fst ?gs"])
    show "fst (fanout_targets subject B) = heard_by subject None B
        @ map (\<lambda>g. group_pick (heard_by subject (Some g) B) (mb_rr B g)) (map fst ?gs)"
      using ms by (auto simp: e)
    have "fst ` set ?gs = dom (map_of ?gs)" by (simp add: dom_map_of_conv_image_fst)
    then show "set (map fst ?gs) = {g. heard_by subject (Some g) B \<noteq> []}" by (auto simp: look split: if_splits)
  qed (use k in \<open>auto simp: e look fun_eq_iff\<close>)
qed


lemma fanout_group:
  assumes "distinct (map bu_sid (mb_subs B))"
  shows "filter (\<lambda>s. bu_queue_group s = Some g) (fst (fanout_targets subject B))
    = (if heard_by subject (Some g) B = [] then [] else [group_pick (heard_by subject (Some g) B) (mb_rr B g)])"
proof -
  obtain gs where t: "fst (fanout_targets subject B) = heard_by subject None B
      @ map (\<lambda>g. group_pick (heard_by subject (Some g) B) (mb_rr B g)) gs"
    and d: "distinct gs" and s: "set gs = {g. heard_by subject (Some g) B \<noteq> []}"
    by (rule fanout_result)
  have q: "bu_queue_group (group_pick (heard_by subject (Some h) B) (mb_rr B h)) = Some h" if "h \<in> set gs" for h
    using group_pick_member [of "heard_by subject (Some h) B"] that s by (auto simp: heard_by_def hears_def)
  have "filter (\<lambda>s. bu_queue_group s = Some g) (map (\<lambda>g. group_pick (heard_by subject (Some g) B) (mb_rr B g)) gs)
      = map (\<lambda>g. group_pick (heard_by subject (Some g) B) (mb_rr B g)) (filter (\<lambda>h. h = g) gs)"
    using q by (auto simp: filter_map o_def intro!: arg_cong [where f = "map _"] filter_cong)
  moreover have "filter (\<lambda>h. h = g) gs = (if g \<in> set gs then [g] else [])"
    using d by (induction gs) auto
  moreover have "filter (\<lambda>s. bu_queue_group s = Some g) (heard_by subject None B) = []"
    by (auto simp: heard_by_def hears_def filter_empty_conv)
  ultimately show ?thesis using s by (simp add: t)
qed

text \<open>Successive publishes of one subject on a bus whose subscriptions do not change.\<close>

fun fanout_seq :: "nat \<Rightarrow> string \<Rightarrow> 'h memory_bus \<Rightarrow> 'h bus_sub list list" where
  "fanout_seq 0 subject B = []"
| "fanout_seq (Suc k) subject B =
     (case fanout_targets subject B of (ts, B') \<Rightarrow> ts # fanout_seq k subject B')"

lemma window_onto: "0 < n \<Longrightarrow> (\<lambda>j. (r + j) mod n) ` {..<n} = {..<n :: nat}"
proof (intro equalityI subsetI)
  fix i assume i: "i \<in> {..<n}" and n: "0 < n"
  define a where "a = r mod n"
  define q where "q = r div n"
  have r: "r = n * q + a" and a: "a < n" using n by (simp_all add: a_def q_def)
  have "(r + ((n - a) + i)) mod n = (n * q + (i + n)) mod n" using a by (intro arg_cong2 [where f = modulo]) (simp_all add: r)
  also have "\<dots> = i" using i by simp
  finally have "(r + ((n - a) + i) mod n) mod n = i" by (simp add: mod_add_right_eq)
  then show "i \<in> (\<lambda>j. (r + j) mod n) ` {..<n}"
    using n by (intro image_eqI [of _ _ "((n - a) + i) mod n"]) auto
qed auto

lemma window_count: "i < n \<Longrightarrow> card {j. j < n \<and> (r + j) mod n = (i :: nat)} = 1"
proof -
  assume i: "i < n"
  have inj: "inj_on (\<lambda>j. (r + j) mod n) {..<n}"
    by (rule eq_card_imp_inj_on) (use i in \<open>simp_all add: window_onto\<close>)
  have "i \<in> (\<lambda>j. (r + j) mod n) ` {..<n}" using i by (simp add: window_onto)
  then obtain j where j: "j < n" "(r + j) mod n = i" by auto
  have u: "k = j" if "k < n" "(r + k) mod n = i" for k
  proof (rule inj_onD [OF inj])
    show "(r + k) mod n = (r + j) mod n" using that(2) j(2) by (rule trans [OF _ sym])
  qed (use that(1) j(1) in simp_all)
  have "{j. j < n \<and> (r + j) mod n = i} = {j}" using j u by blast
  then show ?thesis by simp
qed

lemma windows_count:
  assumes "i < n"
  shows "card {j. j < k * n \<and> (r + j) mod n = (i :: nat)} = k"
proof (induction k)
  case (Suc k)
  let ?A = "{j. j < k * n \<and> (r + j) mod n = i}" and ?B = "(\<lambda>j. k * n + j) ` {j. j < n \<and> ((r + k * n) + j) mod n = i}"
  have "{j. j < Suc k * n \<and> (r + j) mod n = i} = ?A \<union> ?B"
  proof (intro equalityI subsetI)
    fix j assume j: "j \<in> {j. j < Suc k * n \<and> (r + j) mod n = i}"
    show "j \<in> ?A \<union> ?B"
    proof (cases "j < k * n")
      case False
      then show ?thesis by (intro UnI2 image_eqI [of _ _ "j - k * n"]) (use j False in \<open>simp_all add: add.commute less_diff_conv2\<close>)
    qed (use j in simp)
  qed (auto simp: ac_simps)
  moreover have "?A \<inter> ?B = {}" by auto
  moreover have "card ?B = 1" using window_count [OF assms, of "r + k * n"] by (simp add: card_image)
  moreover have "finite ?A" "finite ?B" by simp_all
  ultimately show ?case using Suc by (simp add: card_Un_disjoint)
qed simp

definition group_pointer :: "string \<Rightarrow> string \<Rightarrow> 'h memory_bus \<Rightarrow> nat" where
  "group_pointer subject g B = (case mb_rr B g of None \<Rightarrow> 0 | Some v \<Rightarrow> v) mod length (heard_by subject (Some g) B)"

lemma fanout_keeps [simp]:
  "mb_subs (snd (fanout_targets subject B)) = mb_subs B"
  "heard_by subject g (snd (fanout_targets subject B)) = heard_by subject g B"
  by (rule fanout_result [of subject B]; simp add: heard_by_def)+

lemma fanout_pointer:
  assumes "heard_by subject (Some g) B \<noteq> []"
  shows "group_pointer subject g (snd (fanout_targets subject B)) = (group_pointer subject g B + 1) mod length (heard_by subject (Some g) B)"
proof -
  have "mb_rr (snd (fanout_targets subject B)) g = Some (group_next (heard_by subject (Some g) B) (mb_rr B g))"
    by (rule fanout_result [of subject B]) (simp add: assms)
  then show ?thesis by (simp add: group_pointer_def group_next_def)
qed

lemma fanout_seq_nth:
  assumes "distinct (map bu_sid (mb_subs B))" and "heard_by subject (Some g) B \<noteq> []" and "j < k"
  shows "filter (\<lambda>s. bu_queue_group s = Some g) (fanout_seq k subject B ! j)
    = [sort_key bu_sid (heard_by subject (Some g) B) ! ((group_pointer subject g B + j) mod length (heard_by subject (Some g) B))]"
  using assms
proof (induction k arbitrary: B j)
  case (Suc k)
  let ?ms = "heard_by subject (Some g) B"
  show ?case
  proof (cases j)
    case 0
    then show ?thesis using Suc.prems fanout_group [of B g subject]
      by (simp add: split_beta group_pick_def group_pointer_def)
  next
    case (Suc i)
    let ?B = "snd (fanout_targets subject B)"
    have "filter (\<lambda>s. bu_queue_group s = Some g) (fanout_seq k subject ?B ! i)
        = [sort_key bu_sid ?ms ! ((group_pointer subject g ?B + i) mod length ?ms)]"
      using Suc.IH [of ?B i] Suc.prems Suc by simp
    moreover have "(group_pointer subject g ?B + i) mod length ?ms = (group_pointer subject g B + j) mod length ?ms"
      using fanout_pointer [OF Suc.prems(2)] Suc by (simp add: mod_add_left_eq)
    ultimately show ?thesis using Suc by (simp add: split_beta)
  qed
qed simp

text \<open>Every member of a queue group gets its share, whatever the pointer was.\<close>

lemma queue_group_shares:
  assumes "distinct (map bu_sid (mb_subs B))" and "m \<in> set (heard_by subject (Some g) B)"
    and "n = length (heard_by subject (Some g) B)"
  shows "card {j. j < k * n \<and> m \<in> set (fanout_seq (k * n) subject B ! j)} = k"
proof -
  let ?ms = "heard_by subject (Some g) B"
  let ?o = "sort_key bu_sid ?ms"
  have d: "distinct ?o" using assms(1) by (simp add: heard_by_def distinct_map)
  have "m \<in> set ?o" using assms(2) by simp
  then obtain i where i: "i < n" "?o ! i = m" using assms(3) by (metis in_set_conv_nth length_sort)
  have ne: "?ms \<noteq> []" using assms(2) by auto
  have mg: "bu_queue_group m = Some g" using assms(2) by (simp add: heard_by_def hears_def)
  have "m \<in> set (fanout_seq (k * n) subject B ! j) \<longleftrightarrow> (group_pointer subject g B + j) mod n = i" if "j < k * n" for j
  proof -
    have "m \<in> set (fanout_seq (k * n) subject B ! j)
        \<longleftrightarrow> m \<in> set (filter (\<lambda>s. bu_queue_group s = Some g) (fanout_seq (k * n) subject B ! j))" using mg by simp
    also have "\<dots> \<longleftrightarrow> m = ?o ! ((group_pointer subject g B + j) mod n)"
      using fanout_seq_nth [OF assms(1) ne that] assms(3) by simp
    also have "\<dots> \<longleftrightarrow> (group_pointer subject g B + j) mod n = i"
      using i nth_eq_iff_index_eq [OF d, of i "(group_pointer subject g B + j) mod n"] assms(3) mod_less_divisor [of n "group_pointer subject g B + j"]
      by (metis gr_implies_not0 length_sort neq0_conv)
    finally show ?thesis .
  qed
  then have "{j. j < k * n \<and> m \<in> set (fanout_seq (k * n) subject B ! j)} = {j. j < k * n \<and> (group_pointer subject g B + j) mod n = i}"
    by auto
  then show ?thesis using windows_count [OF i(1)] by simp
qed

end
