(* ===== verification/Uuid_Text.thy ===== *)
theory Uuid_Text
  imports Simhash Operator_Actions
begin

text \<open>
  The text of a UUID: \<open>str(UUID)\<close> orders like the number, and \<open>UUID(text)\<close> reads it back. The event streams sort
  and deduplicate events by this text and take it back from the client as the reconnect cursor.
\<close>

section \<open>Reading a UUID\<close>

text \<open>\<open>s.replace(t, '')\<close> for a non-empty \<open>t\<close>: the occurrences from the left.\<close>

function remove_sub :: "string \<Rightarrow> string \<Rightarrow> string" where
  "remove_sub t [] = []"
| "remove_sub t (c # cs) =
     (if t \<noteq> [] \<and> take (length t) (c # cs) = t then remove_sub t (drop (length t) (c # cs)) else c # remove_sub t cs)"
  by pat_completeness auto
termination
  by (relation "measure (\<lambda>(t, s). length s)") auto

definition strip_braces :: "string \<Rightarrow> string" where
  "strip_braces s = (let b = (\<lambda>c. c = CHR ''{'' \<or> c = CHR ''}'') in rev (dropWhile b (rev (dropWhile b s))))"

definition py_uuid :: "string \<Rightarrow> uuid option" where
  "py_uuid s =
     (let h = remove_sub ''-'' (strip_braces (remove_sub ''uuid:'' (remove_sub ''urn:'' s)))
      in if length h \<noteq> 32 then None
         else (case py_int16 h of None \<Rightarrow> None | Some n \<Rightarrow> if 0 \<le> n \<and> n < 2 ^ 128 then Some (nat n) else None))"

section \<open>The text orders like the number\<close>

lemma append_less_iff:
  fixes a b c d :: string
  assumes "length a = length b"
  shows "a @ c < b @ d \<longleftrightarrow> a < b \<or> a = b \<and> c < d"
  using assms by (induction a b rule: list_induct2) auto

lemma same_split_less:
  fixes a b c d s :: string
  assumes "length a = length b"
  shows "a @ s @ c < b @ s @ d \<longleftrightarrow> a @ c < b @ d"
  using assms by (simp add: append_less_iff)

lemma length_hex_digits' [simp]: "length (hex_digits k n) = k"
  by (induction k arbitrary: n) auto

lemma hex_digit_less: "m < 16 \<Longrightarrow> n < 16 \<Longrightarrow> hex_digit m < hex_digit n \<longleftrightarrow> m < n"
  by (auto simp: hex_digit_def less_char_def take_bit_eq_mod)

lemma div_less_or: "(m :: nat) < n \<longleftrightarrow> m div 16 < n div 16 \<or> m div 16 = n div 16 \<and> m mod 16 < n mod 16"
proof -
  have "m = 16 * (m div 16) + m mod 16" "n = 16 * (n div 16) + n mod 16" by simp_all
  moreover have "m mod 16 < 16" "n mod 16 < 16" by simp_all
  ultimately show ?thesis by linarith
qed

lemma hex_digits_inj: "m < 16 ^ k \<Longrightarrow> n < 16 ^ k \<Longrightarrow> hex_digits k m = hex_digits k n \<longleftrightarrow> m = n"
proof (induction k arbitrary: m n)
  case (Suc k)
  have "m div 16 < 16 ^ k" "n div 16 < 16 ^ k" using Suc.prems by (simp_all add: less_mult_imp_div_less mult.commute)
  then have "hex_digits (Suc k) m = hex_digits (Suc k) n \<longleftrightarrow> m div 16 = n div 16 \<and> m mod 16 = n mod 16"
    using Suc.IH [of "m div 16" "n div 16"] hex_digit_inj [of "m mod 16" "n mod 16"] by auto
  then show ?case by (metis div_mult_mod_eq)
qed simp

lemma hex_digits_less: "m < 16 ^ k \<Longrightarrow> n < 16 ^ k \<Longrightarrow> hex_digits k m < hex_digits k n \<longleftrightarrow> m < n"
proof (induction k arbitrary: m n)
  case (Suc k)
  have b: "m div 16 < 16 ^ k" "n div 16 < 16 ^ k" using Suc.prems by (simp_all add: less_mult_imp_div_less mult.commute)
  show ?case
    using Suc.IH [OF b] hex_digits_inj [OF b] hex_digit_less [of "m mod 16" "n mod 16"]
    by (simp add: append_less_iff div_less_or [of m n])
qed simp

lemma uuid_str_split: "uuid_str u = (let h = hex_digits 32 u in
    take 8 h @ ''-'' @ (take 4 (drop 8 h) @ ''-'' @ (take 4 (drop 12 h) @ ''-'' @ (take 4 (drop 16 h) @ ''-'' @ drop 20 h))))"
  by (simp add: uuid_str_def Let_def)

lemma hex_blocks: "length h = 32 \<Longrightarrow>
    h = take 8 h @ (take 4 (drop 8 h) @ (take 4 (drop 12 h) @ (take 4 (drop 16 h) @ drop 20 h)))"
proof -
  have d: "drop n h = take 4 (drop n h) @ drop (n + 4) h" for n
    by (metis add.commute append_take_drop_id drop_drop)
  show ?thesis using d [of 8] d [of 12] d [of 16] by (simp del: append_take_drop_id) (metis append_take_drop_id)
qed

lemma uuid_str_less:
  assumes "u < 2 ^ 128" and "v < 2 ^ 128"
  shows "uuid_str u < uuid_str v \<longleftrightarrow> u < v"
proof -
  let ?h = "hex_digits 32 u" and ?k = "hex_digits 32 v"
  have len: "length ?h = length ?k" by simp
  have "uuid_str u < uuid_str v \<longleftrightarrow>
      take 8 ?h @ (take 4 (drop 8 ?h) @ (take 4 (drop 12 ?h) @ (take 4 (drop 16 ?h) @ drop 20 ?h)))
        < take 8 ?k @ (take 4 (drop 8 ?k) @ (take 4 (drop 12 ?k) @ (take 4 (drop 16 ?k) @ drop 20 ?k)))"
    unfolding uuid_str_split Let_def by (simp add: append_less_iff)
  also have "\<dots> \<longleftrightarrow> ?h < ?k" using hex_blocks [of ?h] hex_blocks [of ?k] by simp
  also have "\<dots> \<longleftrightarrow> u < v" using assms by (intro hex_digits_less) simp_all
  finally show ?thesis .
qed

lemma uuid_str_inj: "u < 2 ^ 128 \<Longrightarrow> v < 2 ^ 128 \<Longrightarrow> uuid_str u = uuid_str v \<Longrightarrow> u = v"
  using uuid_str_less [of u v] uuid_str_less [of v u] by (metis linorder_neqE_nat order_less_irrefl)


section \<open>The text is read back\<close>

lemma hex_digit_lower: "hex_digit d = lower_hex_digit d"
  by (simp add: hex_digit_def lower_hex_digit_def)

lemma hex_digits_lower: "is_lower_hex (hex_digits k n)"
  by (induction k arbitrary: n) (auto simp: hex_digit_lower)

lemma hex_val_digits: "n < 16 ^ k \<Longrightarrow> fold (\<lambda>c a. 16 * a + the (hex_digit_val c)) (hex_digits k n) 0 = n"
proof (induction k arbitrary: n)
  case (Suc k)
  have "n div 16 < 16 ^ k" using Suc.prems by (simp add: less_mult_imp_div_less mult.commute)
  then show ?case using Suc.IH [of "n div 16"] by (simp add: hex_digit_lower lower_hex_digit_val)
qed simp

lemma remove_sub_char: "remove_sub [x] s = filter (\<lambda>c. c \<noteq> x) s"
  by (induction s) auto

lemma remove_sub_absent: "x \<notin> set s \<Longrightarrow> remove_sub (x # t) s = s"
  by (induction s) auto

lemma lower_hex_plain:
  assumes "c \<in> lower_hex_digit ` {..<16}"
  shows "c \<noteq> CHR ''u'' \<and> c \<noteq> CHR ''{'' \<and> c \<noteq> CHR ''}'' \<and> c \<noteq> CHR ''-''"
proof -
  obtain d where "d < 16" and c: "c = lower_hex_digit d" using assms by auto
  then have code: "of_char c = (if d < 10 then 48 + d else 87 + d)" by (simp add: lower_hex_digit_def)
  have "48 \<le> (of_char c :: nat) \<and> (of_char c :: nat) < 58 \<or> 97 \<le> (of_char c :: nat) \<and> (of_char c :: nat) < 103"
    using code \<open>d < 16\<close> by (auto split: if_splits)
  then show ?thesis by auto
qed

lemma uuid_str_chars: "c \<in> set (uuid_str u) \<Longrightarrow> c = CHR ''-'' \<or> c \<in> lower_hex_digit ` {..<16}"
  using hex_digits_lower [of 32 u] unfolding is_lower_hex_def uuid_str_def Let_def
  by (auto dest!: in_set_takeD in_set_dropD)

lemma uuid_str_digits: "filter (\<lambda>c. c \<noteq> CHR ''-'') (uuid_str u) = hex_digits 32 u"
proof -
  have keep: "filter (\<lambda>c. c \<noteq> CHR ''-'') xs = xs" if "set xs \<subseteq> set (hex_digits 32 u)" for xs
    using that hex_digits_lower [of 32 u] lower_hex_plain unfolding is_lower_hex_def by (intro filter_True ballI) blast
  show ?thesis
    using hex_blocks [of "hex_digits 32 u", symmetric]
    by (simp add: uuid_str_def Let_def keep set_take_subset order_trans [OF set_take_subset set_drop_subset] set_drop_subset)
qed

lemma dropWhile_none: "\<forall>c\<in>set s. \<not> P c \<Longrightarrow> dropWhile P s = s"
  by (cases s) auto

lemma strip_braces_plain: "\<forall>c\<in>set s. c \<noteq> CHR ''{'' \<and> c \<noteq> CHR ''}'' \<Longrightarrow> strip_braces s = s"
  unfolding strip_braces_def Let_def by (subst (2) dropWhile_none; (subst dropWhile_none)?; simp)

lemma py_uuid_str: 
  assumes "u < 2 ^ 128"
  shows "py_uuid (uuid_str u) = Some u"
proof -
  have plain: "\<forall>c\<in>set (uuid_str u). c \<noteq> CHR ''u'' \<and> c \<noteq> CHR ''{'' \<and> c \<noteq> CHR ''}''"
    using uuid_str_chars lower_hex_plain by blast
  then have "remove_sub ''urn:'' (uuid_str u) = uuid_str u" "remove_sub ''uuid:'' (uuid_str u) = uuid_str u"
    by (auto intro!: remove_sub_absent)
  then have h: "remove_sub ''-'' (strip_braces (remove_sub ''uuid:'' (remove_sub ''urn:'' (uuid_str u)))) = hex_digits 32 u"
    using plain by (simp add: strip_braces_plain remove_sub_char uuid_str_digits)
  have "hex_digits 32 u \<noteq> []" using length_hex_digits' [of 32 u] by (metis list.size(3) zero_neq_numeral)
  then have "py_int16 (hex_digits 32 u) = Some (int u)"
    using hex_digits_lower [of 32 u] hex_val_append [of "hex_digits 32 u" 0 False "[]"] hex_val_digits [of u 32] assms
    by (simp add: py_int16_lower)
  then show ?thesis using assms by (simp add: py_uuid_def h)
qed

text \<open>A number that is a UUID.\<close>

definition is_uuid :: "nat \<Rightarrow> bool" where
  "is_uuid u \<longleftrightarrow> u < 2 ^ 128"

lemma uuid_text_less: "is_uuid u \<Longrightarrow> is_uuid v \<Longrightarrow> uuid_str u < uuid_str v \<longleftrightarrow> u < v"
  unfolding is_uuid_def by (rule uuid_str_less)

lemma uuid_text_inj: "is_uuid u \<Longrightarrow> is_uuid v \<Longrightarrow> uuid_str u = uuid_str v \<Longrightarrow> u = v"
  unfolding is_uuid_def by (rule uuid_str_inj)

end
