(* ===== verification/Event_Stream.thy ===== *)
theory Event_Stream
  imports Bus Uuid_Text
begin

text \<open>
  Server-sent event streams: the readers of the event logs (\<open>sqlmodel_repo/event_logs.py\<close>), the replay
  (\<open>api/streaming/replay.py\<close>), the generator behind every stream endpoint (\<open>api/streaming/sse.py\<close>) and the endpoints
  (\<open>api/v1/stream\<close>). A connection subscribes on the bus first, then replays the logs page by page, then tails its
  bounded queue. One turn of the live loop is split at its only wait. Spans and metrics are left out.
\<close>

section \<open>Topics and authority\<close>

definition TOPIC_SUBJECTS :: "string \<Rightarrow> string list option" where
  "TOPIC_SUBJECTS = map_of
     [(''attribution.linkage'', [''attribution.linkage.>'']),
      (''attribution.persona'', [''attribution.persona.>'']),
      (''eyenet.audit'', [''eyenet.audit.>'']),
      (''eyenet.control'', [''eyenet.control.>'', ''eyenet.identity.freeze_all'', ''eyenet.identity.released'']),
      (''incident.detected'', [''incident.detected''])]"

definition topic_patterns :: "string \<Rightarrow> string list" where
  "topic_patterns t = (case TOPIC_SUBJECTS t of None \<Rightarrow> [] | Some ps \<Rightarrow> ps)"

definition require_topic :: "stream_principal \<Rightarrow> string \<Rightarrow> exn + unit" where
  "require_topic p topic = (if topic \<notin> sp_topics p then Inl (AuthError ''topic_not_in_token'') else Inr ())"

definition require_topic_set :: "stream_principal \<Rightarrow> string list \<Rightarrow> exn + unit" where
  "require_topic_set p topics = (if set topics \<noteq> sp_topics p then Inl (AuthError ''topic_set_mismatch'') else Inr ())"

definition sse_subjects :: "string list \<Rightarrow> string list" where
  "sse_subjects topics = sorted_list_of_set (set (concat (map topic_patterns topics)))"

text \<open>The endpoints: five of one topic, and the multiplex. Each returns the topics of the stream it opens.\<close>

definition stream_audit :: "stream_principal \<Rightarrow> exn + string list" where
  "stream_audit p = (case require_topic p (stream_topic_value Topic_EYENET_AUDIT) of
     Inl e \<Rightarrow> Inl e | Inr _ \<Rightarrow> Inr [stream_topic_value Topic_EYENET_AUDIT])"

definition stream_control :: "stream_principal \<Rightarrow> exn + string list" where
  "stream_control p = (case require_topic p (stream_topic_value Topic_EYENET_CONTROL) of
     Inl e \<Rightarrow> Inl e | Inr _ \<Rightarrow> Inr [stream_topic_value Topic_EYENET_CONTROL])"

definition stream_incidents :: "stream_principal \<Rightarrow> exn + string list" where
  "stream_incidents p = (case require_topic p (stream_topic_value Topic_INCIDENT) of
     Inl e \<Rightarrow> Inl e | Inr _ \<Rightarrow> Inr [stream_topic_value Topic_INCIDENT])"

definition stream_linkages :: "stream_principal \<Rightarrow> exn + string list" where
  "stream_linkages p = (case require_topic p (stream_topic_value Topic_ATTRIBUTION_LINKAGE) of
     Inl e \<Rightarrow> Inl e | Inr _ \<Rightarrow> Inr [stream_topic_value Topic_ATTRIBUTION_LINKAGE])"

definition stream_personas :: "stream_principal \<Rightarrow> exn + string list" where
  "stream_personas p = (case require_topic p (stream_topic_value Topic_ATTRIBUTION_PERSONA) of
     Inl e \<Rightarrow> Inl e | Inr _ \<Rightarrow> Inr [stream_topic_value Topic_ATTRIBUTION_PERSONA])"

definition stream_all :: "stream_principal \<Rightarrow> stream_topic list \<Rightarrow> exn + string list" where
  "stream_all p topics = (case require_topic_set p (map stream_topic_value topics) of
     Inl e \<Rightarrow> Inl e | Inr _ \<Rightarrow> Inr (map stream_topic_value topics))"

section \<open>Frames\<close>

record sse_frame =
  fr_event :: "string option"
  fr_data :: string
  fr_event_id :: "string option"
  fr_comment :: "string option"

definition LF :: char where "LF = CHR 0x0A"
definition CR :: char where "CR = CHR 0x0D"

definition render_frame :: "sse_frame \<Rightarrow> string" where
  "render_frame f =
     (case fr_comment f of
        Some c \<Rightarrow> '': '' @ c @ [LF, LF]
      | None \<Rightarrow>
          let lines = (case fr_event_id f of None \<Rightarrow> [] | Some i \<Rightarrow> [''id: '' @ i])
                @ (case fr_event f of None \<Rightarrow> [] | Some e \<Rightarrow> [''event: '' @ e])
                @ map (\<lambda>dl. ''data: '' @ dl) (split_at LF (fr_data f))
          in join_with [LF] lines @ [LF, LF])"

definition topic_of :: "string \<Rightarrow> string" where
  "topic_of subject = join_with ''.'' (take 2 (split_at CHR ''.'' subject))"

definition event_name :: "string \<Rightarrow> string" where
  "event_name subject =
     (let parts = split_at CHR ''.'' subject in if 1 < length parts then join_with ''.'' (drop 1 parts) else subject)"

section \<open>Replay\<close>

record stream_logs =
  lg_linkage :: "event_row list"
  lg_persona :: "event_row list"
  lg_identity :: "event_row list"

definition linkage_events_since :: "uuid option \<Rightarrow> nat \<Rightarrow> stream_logs \<Rightarrow> event_row list" where
  "linkage_events_since after limit L = events_since after limit (lg_linkage L)"

definition persona_events_since :: "uuid option \<Rightarrow> nat \<Rightarrow> stream_logs \<Rightarrow> event_row list" where
  "persona_events_since after limit L = events_since after limit (lg_persona L)"

definition identity_events_since :: "uuid option \<Rightarrow> nat \<Rightarrow> stream_logs \<Rightarrow> event_row list" where
  "identity_events_since after limit L = events_since after limit (lg_identity L)"

definition CONTROL_IDENTITY_SUBJECTS :: "string set" where
  "CONTROL_IDENTITY_SUBJECTS = {''eyenet.identity.released''}"

definition replay_events :: "string set \<Rightarrow> uuid option \<Rightarrow> nat \<Rightarrow> stream_logs \<Rightarrow> event_row list" where
  "replay_events topics after limit L =
     (let rows = (if ''attribution.linkage'' \<in> topics then linkage_events_since after limit L else [])
            @ (if ''attribution.persona'' \<in> topics then persona_events_since after limit L else [])
            @ (if ''eyenet.control'' \<in> topics
               then filter (\<lambda>r. el_subject r \<in> CONTROL_IDENTITY_SUBJECTS) (identity_events_since after limit L) else [])
      in take limit (sort_key (\<lambda>r. uuid_str (el_event_id r)) rows))"

definition parse_cursor :: "string \<Rightarrow> uuid option" where
  "parse_cursor last_event_id = py_uuid last_event_id"

section \<open>One connection\<close>

text \<open>
  What a stream yields, by where it came from. \<open>json\<close> is \<open>json.dumps\<close>, \<open>digest\<close> the digest column of a logged event,
  \<open>decode\<close> the UTF-8 decoding of a payload, \<open>lag_fails\<close> holds of a payload on which the lag computation raises
  something that it does not catch.
\<close>

datatype sse_item =
    Replayed event_row
  | Delivered bus_message
  | Heartbeat
  | Backpressure
  | Expired string

record sse_env =
  se_json :: "(string \<times> jval) list \<Rightarrow> string"
  se_digest :: "event_row \<Rightarrow> string option"
  se_decode :: "bytes \<Rightarrow> string option"
  se_lag_fails :: "bytes \<Rightarrow> bool"
  se_hwm :: int
  se_replay_page :: nat

definition message_id :: "bus_message \<Rightarrow> string option" where
  "message_id m = map_of (bm_headers m) ''eyenet-event-id''"

definition replay_data :: "sse_env \<Rightarrow> event_row \<Rightarrow> string" where
  "replay_data V r = se_json V
     [(''event_id'', JUuid (el_event_id r)), (''parent_id'', JUuid (el_parent_id r)), (''subject'', JStr (el_subject r)),
      (''ts'', JTime (el_ts r)), (''actor'', jopt JStr (el_actor r)), (''payload_digest'', jopt JStr (se_digest V r)),
      (''_replay'', JBool True)]"

definition item_frame :: "sse_env \<Rightarrow> sse_item \<Rightarrow> sse_frame" where
  "item_frame V x = (case x of
       Replayed r \<Rightarrow> \<lparr>fr_event = Some (event_name (el_subject r)), fr_data = replay_data V r,
                     fr_event_id = Some (uuid_str (el_event_id r)), fr_comment = None\<rparr>
     | Delivered m \<Rightarrow> \<lparr>fr_event = Some (event_name (bm_subject m)), fr_data = the (se_decode V (bm_payload m)),
                      fr_event_id = message_id m, fr_comment = None\<rparr>
     | Heartbeat \<Rightarrow> \<lparr>fr_event = None, fr_data = [], fr_event_id = None, fr_comment = Some ''heartbeat''\<rparr>
     | Backpressure \<Rightarrow> \<lparr>fr_event = Some ''stream.backpressure'', fr_data = se_json V [(''hwm'', JInt (se_hwm V))],
                       fr_event_id = None, fr_comment = None\<rparr>
     | Expired reason \<Rightarrow> \<lparr>fr_event = Some ''stream.expired'', fr_data = se_json V [(''reason'', JStr reason)],
                         fr_event_id = None, fr_comment = None\<rparr>)"

datatype sse_phase =
    Replaying "uuid option"
  | Checking
  | Waiting
  | Stopped string

record sse_conn =
  sc_phase :: sse_phase
  sc_queue :: "bus_message list"
  sc_overflow :: bool
  sc_seen :: "string set"
  sc_yielded :: "sse_item list"

text \<open>\<open>put_nowait\<close> on a queue of at most \<open>HWM\<close> items; a bound that is not positive is no bound.\<close>

definition on_msg :: "sse_env \<Rightarrow> bus_message \<Rightarrow> sse_conn \<Rightarrow> sse_conn" where
  "on_msg V m c =
     (if 0 < se_hwm V \<and> se_hwm V \<le> int (length (sc_queue c)) then c\<lparr>sc_overflow := True\<rparr>
      else c\<lparr>sc_queue := sc_queue c @ [m]\<rparr>)"

definition open_conn :: "string option \<Rightarrow> sse_conn" where
  "open_conn last_event_id =
     \<lparr>sc_phase = (case last_event_id of None \<Rightarrow> Checking | Some l \<Rightarrow> Replaying (parse_cursor l)),
      sc_queue = [], sc_overflow = False, sc_seen = {}, sc_yielded = []\<rparr>"

text \<open>One turn of the replay loop.\<close>

definition replay_turn :: "sse_env \<Rightarrow> string set \<Rightarrow> stream_logs \<Rightarrow> uuid option \<Rightarrow> sse_conn \<Rightarrow> sse_conn" where
  "replay_turn V topics L cursor c =
     (let page = replay_events topics cursor (se_replay_page V) L
      in if page = [] then c\<lparr>sc_phase := Checking\<rparr>
         else c\<lparr>sc_seen := sc_seen c \<union> (\<lambda>r. uuid_str (el_event_id r)) ` set page,
                sc_yielded := sc_yielded c @ map Replayed page,
                sc_phase := (if length page < se_replay_page V then Checking else Replaying (Some (el_event_id (last page))))\<rparr>)"

text \<open>The top of the live loop.\<close>

definition live_check :: "bool \<Rightarrow> time \<Rightarrow> stream_principal \<Rightarrow> sse_conn \<Rightarrow> sse_conn" where
  "live_check disconnected now p c =
     (if disconnected then c\<lparr>sc_phase := Stopped ''client_disconnect''\<rparr>
      else if sp_expires_at p \<le> now
      then c\<lparr>sc_yielded := sc_yielded c @ [Expired ''token_expired''], sc_phase := Stopped ''token_expired''\<rparr>
      else if sc_overflow c
      then c\<lparr>sc_yielded := sc_yielded c @ [Backpressure, Expired ''audit_backpressure''],
             sc_phase := Stopped ''audit_backpressure''\<rparr>
      else c\<lparr>sc_phase := Waiting\<rparr>)"

text \<open>What the wait ends with: a message, or the heartbeat when the queue stayed empty.\<close>

definition live_wait :: "sse_env \<Rightarrow> sse_conn \<Rightarrow> sse_conn" where
  "live_wait V c =
     (case sc_queue c of
        [] \<Rightarrow> c\<lparr>sc_yielded := sc_yielded c @ [Heartbeat], sc_phase := Checking\<rparr>
      | m # rest \<Rightarrow>
          if (case message_id m of None \<Rightarrow> False | Some i \<Rightarrow> i \<in> sc_seen c)
          then c\<lparr>sc_queue := rest, sc_phase := Checking\<rparr>
          else if se_decode V (bm_payload m) = None \<or> se_lag_fails V (bm_payload m)
          then c\<lparr>sc_queue := rest, sc_phase := Stopped ''shutdown''\<rparr>
          else c\<lparr>sc_queue := rest, sc_yielded := sc_yielded c @ [Delivered m], sc_phase := Checking\<rparr>)"

section \<open>The connection on the bus\<close>

text \<open>
  \<open>me\<close> names the handler of this connection among those on the bus. \<open>sids\<close> are the fresh subscription ids.
\<close>

definition stream_patterns :: "string list \<Rightarrow> string list" where
  "stream_patterns topics = concat (map topic_patterns (remdups topics))"

fun subscribe_all :: "string list \<Rightarrow> string list \<Rightarrow> 'h \<Rightarrow> 'h memory_bus \<Rightarrow> 'h memory_bus" where
  "subscribe_all (pat # pats) (sid # sids) h B = subscribe_all pats sids h (snd (bus_subscribe sid pat h None B))"
| "subscribe_all _ _ h B = B"

definition close_stream :: "string list \<Rightarrow> 'h memory_bus \<Rightarrow> 'h memory_bus" where
  "close_stream sids B = fold bus_unsubscribe sids B"

definition conn_handler :: "sse_env \<Rightarrow> 'h \<Rightarrow> 'h \<Rightarrow> bus_message \<Rightarrow> sse_conn \<Rightarrow> (unit, sse_conn) outcome" where
  "conn_handler V me h m c = (Inr (), if h = me then on_msg V m c else c)"

text \<open>The logs, the bus, the connection, and the messages published since it was opened.\<close>

record 'h stream_world =
  sw_logs :: stream_logs
  sw_bus :: "'h memory_bus"
  sw_conn :: sse_conn
  sw_published :: "bus_message list"

definition sse_open :: "'h \<Rightarrow> string list \<Rightarrow> string list \<Rightarrow> string option \<Rightarrow> stream_logs \<Rightarrow> 'h memory_bus \<Rightarrow> 'h stream_world" where
  "sse_open me sids topics last_event_id L B =
     \<lparr>sw_logs = L, sw_bus = subscribe_all (stream_patterns topics) sids me B, sw_conn = open_conn last_event_id, sw_published = []\<rparr>"

definition own_subs :: "'h \<Rightarrow> 'h memory_bus \<Rightarrow> 'h bus_sub list" where
  "own_subs me B = filter (\<lambda>s. bu_handler s = me) (mb_subs B)"

definition log_ids :: "stream_logs \<Rightarrow> uuid set" where
  "log_ids L = el_event_id ` (set (lg_linkage L) \<union> set (lg_persona L) \<union> set (lg_identity L))"

text \<open>Any event of the rest of the program, and every move of the generator.\<close>

inductive stream_step :: "sse_env \<Rightarrow> stream_principal \<Rightarrow> 'h \<Rightarrow> string list \<Rightarrow> string list \<Rightarrow> 'h stream_world \<Rightarrow> 'h stream_world \<Rightarrow> bool"
  for V :: sse_env and p :: stream_principal and me :: 'h and sids :: "string list" and topics :: "string list" where
  linkage_logged: "el_event_id r \<notin> log_ids (sw_logs W) \<Longrightarrow> is_uuid (el_event_id r) \<Longrightarrow>
    stream_step V p me sids topics W (W\<lparr>sw_logs := (sw_logs W)\<lparr>lg_linkage := lg_linkage (sw_logs W) @ [r]\<rparr>\<rparr>)"
| persona_logged: "el_event_id r \<notin> log_ids (sw_logs W) \<Longrightarrow> is_uuid (el_event_id r) \<Longrightarrow>
    stream_step V p me sids topics W (W\<lparr>sw_logs := (sw_logs W)\<lparr>lg_persona := lg_persona (sw_logs W) @ [r]\<rparr>\<rparr>)"
| identity_logged: "el_event_id r \<notin> log_ids (sw_logs W) \<Longrightarrow> is_uuid (el_event_id r) \<Longrightarrow>
    stream_step V p me sids topics W (W\<lparr>sw_logs := (sw_logs W)\<lparr>lg_identity := lg_identity (sw_logs W) @ [r]\<rparr>\<rparr>)"
| published: "message_id m = None \<or> message_id m \<notin> message_id ` set (sw_published W) \<Longrightarrow>
    bus_publish (conn_handler V me) m (sw_bus W, sw_conn W) = (Inr u, (B, c)) \<Longrightarrow>
    stream_step V p me sids topics W (W\<lparr>sw_bus := B, sw_conn := c, sw_published := sw_published W @ [m]\<rparr>)"
| others: "own_subs me B = own_subs me (sw_bus W) \<Longrightarrow> stream_step V p me sids topics W (W\<lparr>sw_bus := B\<rparr>)"
| replayed: "sc_phase (sw_conn W) = Replaying cursor \<Longrightarrow>
    stream_step V p me sids topics W (W\<lparr>sw_conn := replay_turn V (set topics) (sw_logs W) cursor (sw_conn W)\<rparr>)"
| checked: "sc_phase (sw_conn W) = Checking \<Longrightarrow>
    stream_step V p me sids topics W (W\<lparr>sw_conn := live_check disconnected now p (sw_conn W)\<rparr>)"
| waited: "sc_phase (sw_conn W) = Waiting \<Longrightarrow>
    stream_step V p me sids topics W (W\<lparr>sw_conn := live_wait V (sw_conn W)\<rparr>)"
| cancelled: "stream_step V p me sids topics W (W\<lparr>sw_conn := (sw_conn W)\<lparr>sc_phase := Stopped ''shutdown''\<rparr>\<rparr>)"
| released: "sc_phase (sw_conn W) = Stopped reason \<Longrightarrow>
    stream_step V p me sids topics W (W\<lparr>sw_bus := close_stream sids (sw_bus W)\<rparr>)"

text \<open>An opened connection: fresh ids, nothing of its handler on the bus before.\<close>

definition stream_init :: "sse_env \<Rightarrow> 'h \<Rightarrow> string list \<Rightarrow> string list \<Rightarrow> 'h stream_world \<Rightarrow> bool" where
  "stream_init V me sids topics W \<longleftrightarrow>
     (\<exists>last L B. W = sse_open me sids topics last L B \<and> own_subs me B = [] \<and> length sids = length (stream_patterns topics)
        \<and> distinct (map el_event_id (lg_linkage L @ lg_persona L @ lg_identity L)) \<and> (\<forall>i\<in>log_ids L. is_uuid i))"

definition stream_reach :: "sse_env \<Rightarrow> stream_principal \<Rightarrow> 'h \<Rightarrow> string list \<Rightarrow> string list \<Rightarrow> 'h stream_world \<Rightarrow> bool" where
  "stream_reach V p me sids topics W \<longleftrightarrow> (\<exists>W0. stream_init V me sids topics W0 \<and> (stream_step V p me sids topics)\<^sup>*\<^sup>* W0 W)"

section \<open>One subscription hears a message\<close>

lemma topic_patterns_eqs:
  "topic_patterns ''attribution.linkage'' = [''attribution.linkage.>'']"
  "topic_patterns ''attribution.persona'' = [''attribution.persona.>'']"
  "topic_patterns ''eyenet.audit'' = [''eyenet.audit.>'']"
  "topic_patterns ''eyenet.control'' = [''eyenet.control.>'', ''eyenet.identity.freeze_all'', ''eyenet.identity.released'']"
  "topic_patterns ''incident.detected'' = [''incident.detected'']"
  by (simp_all add: topic_patterns_def TOPIC_SUBJECTS_def)

lemma topic_patterns_other:
  assumes "t \<noteq> ''attribution.linkage''" "t \<noteq> ''attribution.persona''" "t \<noteq> ''eyenet.audit''" "t \<noteq> ''eyenet.control''" "t \<noteq> ''incident.detected''"
  shows "topic_patterns t = []"
  using assms by (simp only: topic_patterns_def TOPIC_SUBJECTS_def map_of.simps fun_upd_other option.simps not_False_eq_True fst_conv)

lemma topic_patterns_cases:
  assumes "P ''attribution.linkage'' [''attribution.linkage.>'']" and "P ''attribution.persona'' [''attribution.persona.>'']"
    and "P ''eyenet.audit'' [''eyenet.audit.>'']"
    and "P ''eyenet.control'' [''eyenet.control.>'', ''eyenet.identity.freeze_all'', ''eyenet.identity.released'']"
    and "P ''incident.detected'' [''incident.detected'']" and "P t []"
  shows "P t (topic_patterns t)"
proof -
  have other: "P t (topic_patterns t)"
    if "t \<noteq> ''attribution.linkage''" "t \<noteq> ''attribution.persona''" "t \<noteq> ''eyenet.audit''" "t \<noteq> ''eyenet.control''" "t \<noteq> ''incident.detected''"
    unfolding topic_patterns_other [OF that] by (rule assms(6))
  show ?thesis
    by (cases "t = ''attribution.linkage''"; cases "t = ''attribution.persona''"; cases "t = ''eyenet.audit''";
        cases "t = ''eyenet.control''"; cases "t = ''incident.detected''";
        ((rule other; assumption) | (hypsubst, unfold topic_patterns_eqs, rule assms)))
qed

definition live_patterns :: "string set" where
  "live_patterns = {''attribution.linkage.>'', ''attribution.persona.>'', ''eyenet.audit.>'', ''eyenet.control.>'',
     ''eyenet.identity.freeze_all'', ''eyenet.identity.released'', ''incident.detected''}"

lemma all_patterns: "pat \<in> set (stream_patterns topics) \<Longrightarrow> pat \<in> live_patterns"
proof -
  have "set (topic_patterns t) \<subseteq> live_patterns" for t by (rule topic_patterns_cases) (simp_all add: live_patterns_def)
  then show "pat \<in> set (stream_patterns topics) \<Longrightarrow> pat \<in> live_patterns" unfolding stream_patterns_def by auto
qed

lemma pattern_tokens:
  "subject_tokens ''attribution.linkage.>'' = [''attribution'', ''linkage'', ''>'']"
  "subject_tokens ''attribution.persona.>'' = [''attribution'', ''persona'', ''>'']"
  "subject_tokens ''eyenet.audit.>'' = [''eyenet'', ''audit'', ''>'']"
  "subject_tokens ''eyenet.control.>'' = [''eyenet'', ''control'', ''>'']"
  "subject_tokens ''eyenet.identity.freeze_all'' = [''eyenet'', ''identity'', ''freeze_all'']"
  "subject_tokens ''eyenet.identity.released'' = [''eyenet'', ''identity'', ''released'']"
  "subject_tokens ''incident.detected'' = [''incident'', ''detected'']"
  by (code_simp)+

text \<open>The pattern that the tokens of a subject decide.\<close>

definition pattern_of :: "string list \<Rightarrow> string" where
  "pattern_of ts =
     (if ts ! 0 = ''incident'' then ''incident.detected''
      else if ts ! 0 = ''attribution'' then (if ts ! 1 = ''linkage'' then ''attribution.linkage.>'' else ''attribution.persona.>'')
      else if ts ! 1 = ''audit'' then ''eyenet.audit.>''
      else if ts ! 1 = ''control'' then ''eyenet.control.>''
      else if ts ! 2 = ''freeze_all'' then ''eyenet.identity.freeze_all'' else ''eyenet.identity.released'')"

lemma match_three: "match_tokens [a, b, c] ts 0 \<Longrightarrow> a \<noteq> ''>'' \<Longrightarrow> a \<noteq> ''*'' \<Longrightarrow> b \<noteq> ''>'' \<Longrightarrow> b \<noteq> ''*'' \<Longrightarrow>
    ts ! 0 = a \<and> ts ! 1 = b \<and> (c = ''>'' \<or> c = ''*'' \<or> ts ! 2 = c)"
  by (auto simp: numeral_2_eq_2 split: if_splits)

lemma match_two: "match_tokens [a, b] ts 0 \<Longrightarrow> a \<noteq> ''>'' \<Longrightarrow> a \<noteq> ''*'' \<Longrightarrow> ts ! 0 = a"
  by (simp split: if_splits)

lemma pattern_decided:
  assumes "pat \<in> set (stream_patterns topics)" and "subject_matches pat s"
  shows "pattern_of (subject_tokens s) = pat"
proof -
  have m: "match_tokens (subject_tokens pat) (subject_tokens s) 0" using assms(2) by (simp add: subject_matches_def)
  from all_patterns [OF assms(1)] show ?thesis
    unfolding live_patterns_def insert_iff empty_iff
  proof (elim disjE FalseE)
    assume e: "pat = ''attribution.linkage.>''"
    show ?thesis using match_three [OF m [unfolded e pattern_tokens]] unfolding e by (simp add: pattern_of_def)
  next
    assume e: "pat = ''attribution.persona.>''"
    show ?thesis using match_three [OF m [unfolded e pattern_tokens]] unfolding e by (simp add: pattern_of_def)
  next
    assume e: "pat = ''eyenet.audit.>''"
    show ?thesis using match_three [OF m [unfolded e pattern_tokens]] unfolding e by (simp add: pattern_of_def)
  next
    assume e: "pat = ''eyenet.control.>''"
    show ?thesis using match_three [OF m [unfolded e pattern_tokens]] unfolding e by (simp add: pattern_of_def)
  next
    assume e: "pat = ''eyenet.identity.freeze_all''"
    show ?thesis using match_three [OF m [unfolded e pattern_tokens]] unfolding e by (simp add: pattern_of_def)
  next
    assume e: "pat = ''eyenet.identity.released''"
    show ?thesis using match_three [OF m [unfolded e pattern_tokens]] unfolding e by (simp add: pattern_of_def)
  next
    assume e: "pat = ''incident.detected''"
    show ?thesis using match_two [OF m [unfolded e pattern_tokens]] unfolding e by (simp add: pattern_of_def)
  qed
qed

lemma distinct_filter_one: "distinct xs \<Longrightarrow> (\<And>x. x \<in> set xs \<Longrightarrow> P x \<Longrightarrow> x = y) \<Longrightarrow> length (filter P xs) \<le> 1"
  by (induction xs) (auto simp: filter_empty_conv)

definition topic_of_pattern :: "string \<Rightarrow> string" where
  "topic_of_pattern pat =
     (if pat = ''attribution.linkage.>'' then ''attribution.linkage'' else if pat = ''attribution.persona.>'' then ''attribution.persona''
      else if pat = ''eyenet.audit.>'' then ''eyenet.audit'' else if pat = ''incident.detected'' then ''incident.detected'' else ''eyenet.control'')"

lemma topic_patterns_key: "\<forall>pat\<in>set (topic_patterns t). topic_of_pattern pat = t"
  by (rule topic_patterns_cases) (simp_all add: topic_of_pattern_def)

lemma distinct_topic_patterns: "distinct (topic_patterns t)"
  by (rule topic_patterns_cases) simp_all

lemma distinct_stream_patterns: "distinct (stream_patterns topics)"
proof -
  have "distinct (concat (map topic_patterns ts))" if "distinct ts" for ts
    using that
  proof (induction ts)
    case (Cons t ts)
    have "set (topic_patterns t) \<inter> set (topic_patterns u) = {}" if "u \<in> set ts" for u
      using Cons.prems that topic_patterns_key [of t] topic_patterns_key [of u] by auto
    then show ?case using Cons distinct_topic_patterns by auto
  qed simp
  then show ?thesis by (simp add: stream_patterns_def)
qed

definition stream_hears :: "string list \<Rightarrow> bus_message \<Rightarrow> bool" where
  "stream_hears topics m \<longleftrightarrow> (\<exists>pat\<in>set (stream_patterns topics). subject_matches pat (bm_subject m))"

lemma heard_once:
  "length (filter (\<lambda>pat. subject_matches pat (bm_subject m)) (stream_patterns topics)) = (if stream_hears topics m then 1 else 0)"
proof -
  let ?F = "filter (\<lambda>pat. subject_matches pat (bm_subject m)) (stream_patterns topics)"
  have "length ?F \<le> 1"
  proof (rule distinct_filter_one [OF distinct_stream_patterns])
    fix pat assume "pat \<in> set (stream_patterns topics)" "subject_matches pat (bm_subject m)"
    then show "pat = pattern_of (subject_tokens (bm_subject m))" by (rule pattern_decided [symmetric])
  qed
  moreover have "?F = [] \<longleftrightarrow> \<not> stream_hears topics m"
    unfolding filter_empty_conv stream_hears_def by blast
  ultimately show ?thesis by (cases ?F) simp_all
qed

section \<open>What the bus hands the connection\<close>

lemma own_subs_simps [simp]:
  "own_subs me (B\<lparr>mb_rr := rr\<rparr>) = own_subs me B"
  "own_subs me (snd (fanout_targets subject B)) = own_subs me B"
  by (simp_all add: own_subs_def)

definition subscribed :: "'h \<Rightarrow> string list \<Rightarrow> 'h memory_bus \<Rightarrow> bool" where
  "subscribed me topics B \<longleftrightarrow> map bu_pattern (own_subs me B) = stream_patterns topics
     \<and> (\<forall>s\<in>set (own_subs me B). bu_queue_group s = None \<and> \<not> bu_cancelled s)"

lemma live_pattern_valid: "pat \<in> live_patterns \<Longrightarrow> is_valid_pattern pat"
  unfolding live_patterns_def insert_iff empty_iff by (elim disjE FalseE) (hypsubst, code_simp)+

lemma subscribe_all_own:
  "length sids = length pats \<Longrightarrow> \<forall>pat\<in>set pats. is_valid_pattern pat \<Longrightarrow>
   own_subs me (subscribe_all pats sids me B) = own_subs me B
     @ map (\<lambda>(pat, sid). \<lparr>bu_pattern = pat, bu_handler = me, bu_queue_group = None, bu_sid = sid, bu_cancelled = False\<rparr>) (zip pats sids)"
proof (induction pats sids me B rule: subscribe_all.induct)
  case (1 pat pats sid sids h B)
  then show ?case by (simp add: bus_subscribe_def own_subs_def Let_def)
qed auto

lemma open_subscribed:
  assumes "own_subs me B = []" and "length sids = length (stream_patterns topics)"
  shows "subscribed me topics (subscribe_all (stream_patterns topics) sids me B)"
proof -
  have "\<forall>pat\<in>set (stream_patterns topics). is_valid_pattern pat" using all_patterns live_pattern_valid by blast
  then have "own_subs me (subscribe_all (stream_patterns topics) sids me B)
      = map (\<lambda>(pat, sid). \<lparr>bu_pattern = pat, bu_handler = me, bu_queue_group = None, bu_sid = sid, bu_cancelled = False\<rparr>)
          (zip (stream_patterns topics) sids)"
    using subscribe_all_own [of sids "stream_patterns topics" me B] assms by simp
  then show ?thesis using assms(2) by (auto simp: subscribed_def comp_def split_def)
qed

lemma gather_conn:
  "snd (gather_handlers (conn_handler V me) ts m c) = (on_msg V m ^^ length (filter (\<lambda>s. bu_handler s = me) ts)) c"
  by (induction ts arbitrary: c) (simp_all add: conn_handler_def split_beta funpow_swap1)

lemma length_filter_map: "length (filter P (map f xs)) = length (filter (\<lambda>x. P (f x)) xs)"
  by (induction xs) auto

lemma fanout_own:
  assumes "subscribed me topics B"
  shows "length (filter (\<lambda>s. bu_handler s = me) (fst (fanout_targets (bm_subject m) B))) = (if stream_hears topics m then 1 else 0)"
proof -
  obtain gs where t: "fst (fanout_targets (bm_subject m) B) = heard_by (bm_subject m) None B
      @ map (\<lambda>g. group_pick (heard_by (bm_subject m) (Some g) B) (mb_rr B g)) gs"
    and s: "set gs = {g. heard_by (bm_subject m) (Some g) B \<noteq> []}"
    by (rule fanout_result)
  have none: "bu_handler s \<noteq> me" if "s \<in> set (heard_by (bm_subject m) (Some g) B)" for s g
    using that assms by (force simp: subscribed_def own_subs_def heard_by_def hears_def)
  have "filter (\<lambda>s. bu_handler s = me) (map (\<lambda>g. group_pick (heard_by (bm_subject m) (Some g) B) (mb_rr B g)) gs) = []"
    unfolding filter_empty_conv set_map ball_simps using none group_pick_member s by blast
  moreover have "filter (\<lambda>s. bu_handler s = me) (heard_by (bm_subject m) None B)
      = filter (\<lambda>s. subject_matches (bu_pattern s) (bm_subject m)) (own_subs me B)"
    using assms unfolding heard_by_def own_subs_def subscribed_def filter_filter
    by (intro filter_cong) (auto simp: hears_def)
  moreover have "length (filter (\<lambda>s. subject_matches (bu_pattern s) (bm_subject m)) (own_subs me B))
      = length (filter (\<lambda>pat. subject_matches pat (bm_subject m)) (stream_patterns topics))"
    using assms length_filter_map [of "\<lambda>pat. subject_matches pat (bm_subject m)" bu_pattern "own_subs me B"] by (simp add: subscribed_def)
  ultimately show ?thesis using heard_once [of m topics] by (simp add: t)
qed

lemma publish_conn:
  assumes "bus_publish (conn_handler V me) m (B, c) = (Inr u, (B', c'))" and "subscribed me topics B"
  shows "own_subs me B' = own_subs me B" and "c' = (if stream_hears topics m then on_msg V m c else c)"
  using assms(1) fanout_own [OF assms(2), of m]
  by (auto simp: bus_publish_def split_beta gather_conn split: if_splits)

section \<open>The invariant of a connection\<close>

definition item_id :: "sse_item \<Rightarrow> string option" where
  "item_id x = (case x of Replayed r \<Rightarrow> Some (uuid_str (el_event_id r)) | Delivered m \<Rightarrow> message_id m | _ \<Rightarrow> None)"

definition yielded_ids :: "sse_conn \<Rightarrow> string list" where
  "yielded_ids c = List.map_filter item_id (sc_yielded c)"

definition queued_ids :: "sse_conn \<Rightarrow> string list" where
  "queued_ids c = List.map_filter message_id (sc_queue c)"

definition published_ids :: "'h stream_world \<Rightarrow> string set" where
  "published_ids W = {i. Some i \<in> message_id ` set (sw_published W)}"

definition stream_logs_ok :: "stream_logs \<Rightarrow> bool" where
  "stream_logs_ok L \<longleftrightarrow> distinct (map el_event_id (lg_linkage L @ lg_persona L @ lg_identity L)) \<and> (\<forall>i\<in>log_ids L. is_uuid i)"

definition topic_logs :: "string set \<Rightarrow> stream_logs \<Rightarrow> event_row set" where
  "topic_logs topics L =
     (if ''attribution.linkage'' \<in> topics then set (lg_linkage L) else {})
     \<union> (if ''attribution.persona'' \<in> topics then set (lg_persona L) else {})
     \<union> (if ''eyenet.control'' \<in> topics then {r \<in> set (lg_identity L). el_subject r \<in> CONTROL_IDENTITY_SUBJECTS} else {})"

definition authorised :: "string list \<Rightarrow> stream_logs \<Rightarrow> sse_item \<Rightarrow> bool" where
  "authorised topics L x = (case x of Replayed r \<Rightarrow> r \<in> topic_logs (set topics) L | Delivered m \<Rightarrow> stream_hears topics m | _ \<Rightarrow> True)"


lemma events_since_facts:
  assumes "r \<in> set (events_since after limit evs)"
  shows "r \<in> set evs" and "case after of None \<Rightarrow> True | Some e \<Rightarrow> e < el_event_id r"
  using in_set_takeD [OF assms [unfolded events_since_def]] by (auto simp: order_asc_def split: option.splits)

lemma distinct_ids_since: "distinct (map el_event_id evs) \<Longrightarrow> distinct (map el_event_id (events_since after limit evs))"
proof -
  assume "distinct (map el_event_id evs)"
  then have "distinct (map el_event_id (sort_key el_event_id (filter P evs)))" for P
    by (simp add: distinct_map inj_on_def)
  then show ?thesis unfolding events_since_def order_asc_def
    by (metis distinct_take take_map)
qed

definition replay_rows :: "string set \<Rightarrow> uuid option \<Rightarrow> nat \<Rightarrow> stream_logs \<Rightarrow> event_row list" where
  "replay_rows topics after limit L =
     (if ''attribution.linkage'' \<in> topics then linkage_events_since after limit L else [])
     @ (if ''attribution.persona'' \<in> topics then persona_events_since after limit L else [])
     @ (if ''eyenet.control'' \<in> topics
        then filter (\<lambda>r. el_subject r \<in> CONTROL_IDENTITY_SUBJECTS) (identity_events_since after limit L) else [])"

lemma replay_events_rows: "replay_events topics after limit L = take limit (sort_key (\<lambda>r. uuid_str (el_event_id r)) (replay_rows topics after limit L))"
  by (simp add: replay_events_def replay_rows_def)

lemma replay_rows_facts:
  assumes "r \<in> set (replay_rows topics after limit L)"
  shows "r \<in> topic_logs topics L" and "case after of None \<Rightarrow> True | Some e \<Rightarrow> e < el_event_id r"
  using assms events_since_facts
  by (auto simp: replay_rows_def topic_logs_def linkage_events_since_def persona_events_since_def identity_events_since_def
      split: if_splits)

lemma distinct_pieces:
  "distinct xs \<Longrightarrow> distinct ys \<Longrightarrow> distinct zs \<Longrightarrow> set xs \<subseteq> A \<Longrightarrow> set ys \<subseteq> B \<Longrightarrow> set zs \<subseteq> C \<Longrightarrow>
   A \<inter> B = {} \<Longrightarrow> A \<inter> C = {} \<Longrightarrow> B \<inter> C = {} \<Longrightarrow> distinct (xs @ ys @ zs)"
  unfolding distinct_append set_append by blast

lemma replay_rows_distinct:
  assumes "stream_logs_ok L"
  shows "distinct (map el_event_id (replay_rows topics after limit L))"
proof -
  let ?a = "lg_linkage L" and ?b = "lg_persona L" and ?c = "lg_identity L"
  have d: "distinct (map el_event_id ?a)" "distinct (map el_event_id ?b)" "distinct (map el_event_id ?c)"
    and ab: "el_event_id ` set ?a \<inter> el_event_id ` set ?b = {}" "el_event_id ` set ?a \<inter> el_event_id ` set ?c = {}"
      "el_event_id ` set ?b \<inter> el_event_id ` set ?c = {}"
    using assms by (auto simp: stream_logs_ok_def)
  have sub: "el_event_id ` set (events_since after limit evs) \<subseteq> el_event_id ` set evs" for evs
    using events_since_facts(1) by blast
  have "distinct (map el_event_id (filter P (events_since after limit ?c)))" for P
    using distinct_ids_since [OF d(3)] by (simp add: distinct_map_filter)
  moreover have "el_event_id ` set (filter P (events_since after limit ?c)) \<subseteq> el_event_id ` set ?c" for P
    using sub [of ?c] by auto
  ultimately show ?thesis
    unfolding replay_rows_def linkage_events_since_def persona_events_since_def identity_events_since_def map_append
    by (intro distinct_pieces [OF _ _ _ _ _ _ ab])
      (auto simp: distinct_ids_since d dest: events_since_facts(1))
qed

lemma topic_log_id: "stream_logs_ok L \<Longrightarrow> r \<in> topic_logs topics L \<Longrightarrow> is_uuid (el_event_id r)"
  by (auto simp: topic_logs_def stream_logs_ok_def log_ids_def split: if_splits)

lemma replay_page_facts:
  assumes "stream_logs_ok L" and "pg = replay_events topics cursor limit L"
  shows "r \<in> set pg \<Longrightarrow> r \<in> topic_logs topics L"
    and "r \<in> set pg \<Longrightarrow> is_uuid (el_event_id r)"
    and "r \<in> set pg \<Longrightarrow> case cursor of None \<Rightarrow> True | Some c \<Rightarrow> c < el_event_id r"
    and "distinct (map (\<lambda>r. uuid_str (el_event_id r)) pg)"
    and "r \<in> set pg \<Longrightarrow> el_event_id r \<le> el_event_id (last pg)"
proof -
  let ?f = "\<lambda>r. uuid_str (el_event_id r)"
  have sub: "set pg \<subseteq> set (replay_rows topics cursor limit L)"
    using set_take_subset unfolding assms(2) replay_events_rows by fastforce
  show A: "r \<in> topic_logs topics L" if "r \<in> set pg" for r using that sub replay_rows_facts(1) by blast
  show B: "is_uuid (el_event_id r)" if "r \<in> set pg" for r using topic_log_id [OF assms(1) A [OF that]] .
  show "case cursor of None \<Rightarrow> True | Some c \<Rightarrow> c < el_event_id r" if "r \<in> set pg" for r
    using that sub replay_rows_facts(2) by blast
  have "distinct (map el_event_id pg)"
    using replay_rows_distinct [OF assms(1), of topics cursor limit] unfolding assms(2) replay_events_rows
    by (metis (no_types, lifting) distinct_map distinct_sort distinct_take set_sort set_take_subset inj_on_subset)
  then show "distinct (map ?f pg)"
    unfolding distinct_map
  proof (intro conjI inj_onI)
    fix x y assume "x \<in> set pg" "y \<in> set pg" "?f x = ?f y"
    moreover from this have "el_event_id x = el_event_id y" using B by (intro uuid_text_inj)
    ultimately show "x = y" using \<open>distinct (map el_event_id pg)\<close> unfolding distinct_map by (meson inj_onD)
  qed simp
  have "sorted (map ?f pg)" unfolding assms(2) replay_events_rows by (simp add: take_map [symmetric] sorted_wrt_take)
  then show "el_event_id r \<le> el_event_id (last pg)" if "r \<in> set pg"
  proof -
    have "?f r \<le> ?f (last pg)"
    proof (cases pg rule: rev_cases)
      case (snoc ys y)
      then show ?thesis using \<open>sorted (map ?f pg)\<close> that by (auto simp: sorted_append)
    qed (use that in simp)
    then show ?thesis using uuid_text_less [of "el_event_id (last pg)" "el_event_id r"] B [OF that] B [of "last pg"] that
      by (metis empty_iff last_in_set leD linorder_le_less_linear list.set(1))
  qed
qed


text \<open>What holds of a connection, given the messages published since it was opened.\<close>

definition conn_live :: "string list \<Rightarrow> bus_message list \<Rightarrow> sse_conn \<Rightarrow> bool" where
  "conn_live topics pub c \<longleftrightarrow>
     distinct (queued_ids c) \<and> (\<forall>m\<in>set (sc_queue c). m \<in> set pub \<and> stream_hears topics m)
     \<and> set (yielded_ids c) \<subseteq> sc_seen c \<union> ({i. Some i \<in> message_id ` set pub} - set (queued_ids c))
     \<and> sc_seen c \<subseteq> set (yielded_ids c)
     \<and> (\<forall>m\<in>set pub. \<forall>i. stream_hears topics m \<longrightarrow> message_id m = Some i \<longrightarrow>
          i \<in> set (yielded_ids c) \<or> i \<in> set (queued_ids c) \<or> sc_overflow c)
     \<and> (\<forall>cursor. sc_phase c = Replaying cursor \<longrightarrow> set (yielded_ids c) \<subseteq> sc_seen c
          \<and> (\<forall>i\<in>sc_seen c. \<exists>u. i = uuid_str u \<and> is_uuid u \<and> (\<exists>e. cursor = Some e \<and> u \<le> e)))"

definition conn_ok :: "string list \<Rightarrow> bus_message list \<Rightarrow> sse_conn \<Rightarrow> bool" where
  "conn_ok topics pub c \<longleftrightarrow> distinct (yielded_ids c) \<and> ((\<exists>r. sc_phase c = Stopped r) \<or> conn_live topics pub c)"

lemma yielded_ids_add [simp]:
  "List.map_filter item_id (sc_yielded c) = yielded_ids c" "List.map_filter message_id (sc_queue c) = queued_ids c"
  "yielded_ids (c\<lparr>sc_yielded := ys\<rparr>) = List.map_filter item_id ys" "queued_ids (c\<lparr>sc_queue := q\<rparr>) = List.map_filter message_id q"
  "yielded_ids (c\<lparr>sc_queue := q\<rparr>) = yielded_ids c" "yielded_ids (c\<lparr>sc_overflow := b\<rparr>) = yielded_ids c"
  "yielded_ids (c\<lparr>sc_phase := ph\<rparr>) = yielded_ids c" "yielded_ids (c\<lparr>sc_seen := s\<rparr>) = yielded_ids c"
  "queued_ids (c\<lparr>sc_phase := ph\<rparr>) = queued_ids c" "queued_ids (c\<lparr>sc_overflow := b\<rparr>) = queued_ids c"
  "queued_ids (c\<lparr>sc_yielded := ys\<rparr>) = queued_ids c" "queued_ids (c\<lparr>sc_seen := s\<rparr>) = queued_ids c"
  by (simp_all add: yielded_ids_def queued_ids_def)

lemma map_filter_snoc [simp]: "List.map_filter f (xs @ ys) = List.map_filter f xs @ List.map_filter f ys"
  "List.map_filter f (x # xs) = (case f x of None \<Rightarrow> [] | Some y \<Rightarrow> [y]) @ List.map_filter f xs" "List.map_filter f [] = []"
  by (simp_all add: List.map_filter_def split: option.split)

lemma item_id_simps [simp]:
  "item_id (Replayed r) = Some (uuid_str (el_event_id r))" "item_id (Delivered m) = message_id m"
  "item_id Heartbeat = None" "item_id Backpressure = None" "item_id (Expired s) = None"
  by (simp_all add: item_id_def)

lemma conn_ok_hear:
  assumes "conn_ok topics pub c" and "message_id m = None \<or> message_id m \<notin> message_id ` set pub"
  shows "conn_ok topics (pub @ [m]) (if stream_hears topics m then on_msg V m c else c)"
proof (cases "\<exists>r. sc_phase c = Stopped r")
  case True
  then show ?thesis using assms(1) by (auto simp: conn_ok_def on_msg_def)
next
  case False
  then have live: "conn_live topics pub c" and d: "distinct (yielded_ids c)" using assms(1) by (auto simp: conn_ok_def)
  have fresh: "i \<notin> set (queued_ids c)" if "message_id m = Some i" for i
    using that assms(2) live by (force simp: conn_live_def queued_ids_def List.map_filter_def image_iff)
  have "conn_live topics (pub @ [m]) (if stream_hears topics m then on_msg V m c else c)"
  proof (cases "stream_hears topics m")
    case hears: True
    show ?thesis
    proof (cases "0 < se_hwm V \<and> se_hwm V \<le> int (length (sc_queue c))")
      case True
      then show ?thesis using live hears unfolding conn_live_def on_msg_def by (auto split: option.splits)
    next
      case room: False
      let ?c = "c\<lparr>sc_queue := sc_queue c @ [m]\<rparr>"
      have q: "queued_ids ?c = queued_ids c @ (case message_id m of None \<Rightarrow> [] | Some i \<Rightarrow> [i])"
        by (simp split: option.split)
      have y: "yielded_ids ?c = yielded_ids c" by simp
      have n: "i \<notin> {i. Some i \<in> message_id ` set pub}" if "message_id m = Some i" for i using that assms(2) by auto
      have "conn_live topics (pub @ [m]) ?c"
      proof (cases "message_id m")
        case None
        then have q': "queued_ids ?c = queued_ids c" using q by simp
        show ?thesis using live hears None unfolding conn_live_def q' y by auto
      next
        case (Some i)
        then have q': "queued_ids ?c = queued_ids c @ [i]" using q by simp
        show ?thesis using live hears fresh [OF Some] n [OF Some] Some unfolding conn_live_def q' y
          by (auto split: option.splits)
      qed
      then show ?thesis unfolding on_msg_def if_P [OF hears] if_not_P [OF room] .
    qed
  next
    case deaf: False
    then show ?thesis using live fresh unfolding conn_live_def by auto
  qed
  then show ?thesis using d by (auto simp: conn_ok_def on_msg_def)
qed


lemma conn_ok_replay:
  assumes "conn_ok topics pub c" and ph: "sc_phase c = Replaying cursor" and "stream_logs_ok L"
  shows "conn_ok topics pub (replay_turn V (set topics) L cursor c)"
proof -
  let ?pg = "replay_events (set topics) cursor (se_replay_page V) L"
  let ?f = "\<lambda>r. uuid_str (el_event_id r)"
  note pg = replay_page_facts [OF assms(3) refl [of "replay_events (set topics) cursor (se_replay_page V) L"]]
  have live: "conn_live topics pub c" and d: "distinct (yielded_ids c)" using assms(1) ph by (auto simp: conn_ok_def)
  show ?thesis
  proof (cases "?pg = []")
    case True
    then show ?thesis using live d by (auto simp: conn_ok_def conn_live_def replay_turn_def Let_def)
  next
    case False
    let ?c = "replay_turn V (set topics) L cursor c"
    have s: "sc_seen ?c = sc_seen c \<union> ?f ` set ?pg" and q: "sc_queue ?c = sc_queue c" "queued_ids ?c = queued_ids c"
      and o: "sc_overflow ?c = sc_overflow c"
      using False by (simp_all add: replay_turn_def Let_def)
    have y: "yielded_ids ?c = yielded_ids c @ map ?f ?pg"
      using False by (simp add: replay_turn_def Let_def) (simp add: List.map_filter_def comp_def)
    have old: "i \<in> set (yielded_ids c) \<Longrightarrow> i \<in> sc_seen c"
      and seen: "i \<in> sc_seen c \<Longrightarrow> \<exists>u. i = uuid_str u \<and> is_uuid u \<and> (\<exists>e. cursor = Some e \<and> u \<le> e)" for i
      using live ph unfolding conn_live_def by blast+
    have new: "?f r \<notin> sc_seen c" if r: "r \<in> set ?pg" for r
    proof
      assume "?f r \<in> sc_seen c"
      then obtain u where u: "?f r = uuid_str u" "is_uuid u" "\<exists>e. cursor = Some e \<and> u \<le> e"
        using seen by blast
      then have "el_event_id r = u" using uuid_text_inj pg(2) [OF r] by blast
      then show False using u(3) pg(3) [OF r] by (auto split: option.splits)
    qed
    have "distinct (yielded_ids ?c)"
      using d pg(4) new old unfolding y distinct_append set_map by blast
    moreover have "\<exists>u. i = uuid_str u \<and> is_uuid u \<and> (\<exists>e. cur = Some e \<and> u \<le> e)"
      if ph': "sc_phase ?c = Replaying cur" and i: "i \<in> sc_seen c \<union> ?f ` set ?pg" for cur i
    proof -
      have cur: "cur = Some (el_event_id (last ?pg))"
        using False ph' by (auto simp: replay_turn_def Let_def split: if_splits)
      show ?thesis
      proof (cases "i \<in> sc_seen c")
        case True
        then obtain u e where u: "i = uuid_str u" "is_uuid u" "cursor = Some e" "u \<le> e" using seen by blast
        have "e < el_event_id (last ?pg)" using pg(3) [of "last ?pg"] False u(3) by simp
        then show ?thesis using u by (intro exI [of _ u]) (simp add: cur)
      next
        case False
        then obtain r where r: "r \<in> set ?pg" "i = ?f r" using i by blast
        then show ?thesis using pg(2,5) [OF r(1)] by (intro exI [of _ "el_event_id r"]) (simp add: cur)
      qed
    qed
    moreover have "set (yielded_ids c @ map ?f ?pg) \<subseteq> sc_seen c \<union> ?f ` set ?pg" using old by auto
    moreover note cl = live [unfolded conn_live_def]
    ultimately have "conn_live topics pub ?c"
      unfolding conn_live_def s q o y set_append set_map by (intro conjI) (blast+)
    then show ?thesis using \<open>distinct (yielded_ids ?c)\<close> by (simp add: conn_ok_def)
  qed
qed

lemma conn_ok_check: "conn_ok topics pub c \<Longrightarrow> sc_phase c = Checking \<Longrightarrow> conn_ok topics pub (live_check b now p c)"
  by (auto simp: conn_ok_def conn_live_def live_check_def)

lemma conn_live_skip:
  assumes "conn_live topics pub c" and "sc_queue c = m # rest" and "\<And>i. message_id m = Some i \<Longrightarrow> i \<in> set (yielded_ids c)"
  shows "conn_live topics pub (c\<lparr>sc_queue := rest, sc_phase := Checking\<rparr>)"
proof -
  have q: "queued_ids c = (case message_id m of None \<Rightarrow> [] | Some i \<Rightarrow> [i]) @ List.map_filter message_id rest"
    unfolding queued_ids_def assms(2) by (simp split: option.split)
  have sub: "set (List.map_filter message_id rest) \<subseteq> set (queued_ids c)" and d: "distinct (queued_ids c) \<Longrightarrow> distinct (List.map_filter message_id rest)"
    and bk: "i \<in> set (queued_ids c) \<Longrightarrow> i \<in> set (List.map_filter message_id rest) \<or> i \<in> set (yielded_ids c)" for i
    using assms(3) unfolding q by (auto split: option.splits)
  show ?thesis
    using assms(1,2) sub d bk unfolding conn_live_def
    by (simp del: map_filter_snoc) blast
qed

lemma conn_live_deliver:
  assumes "conn_live topics pub c" and "sc_queue c = m # rest" and "\<And>i. message_id m = Some i \<Longrightarrow> i \<notin> sc_seen c"
  shows "conn_live topics pub (c\<lparr>sc_queue := rest, sc_yielded := sc_yielded c @ [Delivered m], sc_phase := Checking\<rparr>)" (is "conn_live _ _ ?c")
    and "distinct (yielded_ids c) \<Longrightarrow> distinct (yielded_ids (c\<lparr>sc_queue := rest, sc_yielded := sc_yielded c @ [Delivered m], sc_phase := Checking\<rparr>))"
proof -
  let ?i = "case message_id m of None \<Rightarrow> [] | Some i \<Rightarrow> [i]"
  have q: "queued_ids c = ?i @ List.map_filter message_id rest"
    unfolding queued_ids_def assms(2) by (simp split: option.split)
  have q': "queued_ids ?c = List.map_filter message_id rest" and y: "yielded_ids ?c = yielded_ids c @ ?i"
    by (simp_all split: option.split)
  note live = assms(1) [unfolded conn_live_def]
  have new: "i \<notin> set (yielded_ids c)" "Some i \<in> message_id ` set pub" "i \<notin> set (List.map_filter message_id rest)"
    if "message_id m = Some i" for i
  proof -
    have "i \<in> set (queued_ids c)" using that by (simp add: q)
    then show "i \<notin> set (yielded_ids c)" using live assms(3) [OF that] by blast
    show "Some i \<in> message_id ` set pub" using live assms(2) that by (metis imageI list.set_intros(1))
    show "i \<notin> set (List.map_filter message_id rest)" using live that by (simp add: q)
  qed
  show "distinct (yielded_ids c) \<Longrightarrow> distinct (yielded_ids ?c)"
    unfolding y using new(1) by (cases "message_id m") simp_all
  show "conn_live topics pub ?c"
  proof (cases "message_id m")
    case None
    then have e: "queued_ids ?c = queued_ids c" "yielded_ids ?c = yielded_ids c" using q q' y by simp_all
    show ?thesis using live assms(2) unfolding conn_live_def e by simp
  next
    case (Some i)
    then have e: "queued_ids c = i # queued_ids ?c" "yielded_ids ?c = yielded_ids c @ [i]" using q q' y by simp_all
    have "sc_seen ?c = sc_seen c" "sc_overflow ?c = sc_overflow c" "set (sc_queue ?c) \<subseteq> set (sc_queue c)" "sc_phase ?c = Checking"
      using assms(2) by auto
    then show ?thesis using live new(2,3) [OF Some] unfolding conn_live_def e q' [symmetric]
      by (simp del: yielded_ids_add map_filter_snoc) blast
  qed
qed

lemma conn_ok_wait:
  assumes "conn_ok topics pub c" and "sc_phase c = Waiting"
  shows "conn_ok topics pub (live_wait V c)"
proof -
  have live: "conn_live topics pub c" and d: "distinct (yielded_ids c)" using assms by (auto simp: conn_ok_def)
  show ?thesis
  proof (cases "sc_queue c")
    case Nil
    then show ?thesis using live d
      by (auto simp: conn_ok_def conn_live_def live_wait_def)
  next
    case (Cons m rest)
    have seen: "sc_seen c \<subseteq> set (yielded_ids c)" using live by (simp add: conn_live_def)
    show ?thesis
    proof (cases "\<exists>i. message_id m = Some i \<and> i \<in> sc_seen c")
      case True
      then have e: "live_wait V c = c\<lparr>sc_queue := rest, sc_phase := Checking\<rparr>" using Cons by (auto simp: live_wait_def)
      have "conn_live topics pub (c\<lparr>sc_queue := rest, sc_phase := Checking\<rparr>)"
        by (rule conn_live_skip [OF live Cons]) (use True seen in auto)
      then show ?thesis using d by (simp add: conn_ok_def e)
    next
      case False
      then have n: "\<And>i. message_id m = Some i \<Longrightarrow> i \<notin> sc_seen c" by blast
      have k: "\<not> (case message_id m of None \<Rightarrow> False | Some i \<Rightarrow> i \<in> sc_seen c)" using n by (simp split: option.split)
      show ?thesis
      proof (cases "se_decode V (bm_payload m) = None \<or> se_lag_fails V (bm_payload m)")
        case True
        then show ?thesis using Cons k d by (simp add: conn_ok_def live_wait_def)
      next
        case False
        then have e: "live_wait V c = c\<lparr>sc_queue := rest, sc_yielded := sc_yielded c @ [Delivered m], sc_phase := Checking\<rparr>"
          using Cons k by (simp add: live_wait_def)
        show ?thesis unfolding e conn_ok_def using conn_live_deliver [OF live Cons n] d by blast
      qed
    qed
  qed
qed

end
