(* ===== verification/Stream_Properties.thy ===== *)
theory Stream_Properties
  imports Event_Stream
begin

text \<open>
  What holds of every reachable state of a stream connection, whatever the rest of the program logs and publishes;
  what the replay reads of the logs; and what a client reads back from the frames.
\<close>

section \<open>The invariant holds along every run\<close>

definition stopped :: "sse_conn \<Rightarrow> bool" where
  "stopped c \<longleftrightarrow> (\<exists>r. sc_phase c = Stopped r)"

definition stream_inv :: "'h \<Rightarrow> string list \<Rightarrow> 'h stream_world \<Rightarrow> bool" where
  "stream_inv me topics W \<longleftrightarrow> stream_logs_ok (sw_logs W) \<and> conn_ok topics (sw_published W) (sw_conn W)
     \<and> (\<forall>x\<in>set (sc_yielded (sw_conn W)). authorised topics (sw_logs W) x)
     \<and> (stopped (sw_conn W) \<or> subscribed me topics (sw_bus W))"

lemma on_msg_keeps: "sc_phase ((on_msg V m ^^ k) c) = sc_phase c" "sc_yielded ((on_msg V m ^^ k) c) = sc_yielded c"
  by (induction k) (simp_all add: on_msg_def)

lemma publish_keeps:
  assumes "bus_publish (conn_handler V me) m (B, c) = (Inr u, (B', c'))"
  shows "sc_phase c' = sc_phase c" and "sc_yielded c' = sc_yielded c"
  using assms by (auto simp: bus_publish_def split_beta gather_conn on_msg_keeps split: if_splits)

lemma init_inv:
  assumes "stream_init V me sids topics W"
  shows "stream_inv me topics W"
proof -
  obtain lst L B where W: "W = sse_open me sids topics lst L B" and o: "own_subs me B = []" "length sids = length (stream_patterns topics)"
    and l: "distinct (map el_event_id (lg_linkage L @ lg_persona L @ lg_identity L))" "\<forall>i\<in>log_ids L. is_uuid i"
    using assms unfolding stream_init_def by blast
  have "conn_ok topics [] (open_conn lst)"
    by (simp add: conn_ok_def conn_live_def open_conn_def yielded_ids_def queued_ids_def del: yielded_ids_add)
  moreover have "sc_yielded (open_conn lst) = []" by (simp add: open_conn_def)
  ultimately show ?thesis
    using open_subscribed [OF o] l by (simp add: stream_inv_def W sse_open_def stream_logs_ok_def)
qed

lemma topic_logs_grow:
  "topic_logs T L \<subseteq> topic_logs T (L\<lparr>lg_linkage := lg_linkage L @ [r]\<rparr>)"
  "topic_logs T L \<subseteq> topic_logs T (L\<lparr>lg_persona := lg_persona L @ [r]\<rparr>)"
  "topic_logs T L \<subseteq> topic_logs T (L\<lparr>lg_identity := lg_identity L @ [r]\<rparr>)"
  by (auto simp: topic_logs_def)

lemma authorised_mono: "authorised topics L x \<Longrightarrow> topic_logs (set topics) L \<subseteq> topic_logs (set topics) L' \<Longrightarrow> authorised topics L' x"
  by (auto simp: authorised_def split: sse_item.splits)

lemma logs_ok_grow:
  assumes "stream_logs_ok L" and "el_event_id r \<notin> log_ids L" and "is_uuid (el_event_id r)"
  shows "stream_logs_ok (L\<lparr>lg_linkage := lg_linkage L @ [r]\<rparr>)" and "stream_logs_ok (L\<lparr>lg_persona := lg_persona L @ [r]\<rparr>)"
    and "stream_logs_ok (L\<lparr>lg_identity := lg_identity L @ [r]\<rparr>)"
  using assms by (auto simp: stream_logs_ok_def log_ids_def)

lemma yielded_replay: "x \<in> set (sc_yielded (replay_turn V T L cursor c)) \<Longrightarrow>
   x \<in> set (sc_yielded c) \<or> (\<exists>r \<in> set (replay_events T cursor (se_replay_page V) L). x = Replayed r)"
  by (auto simp: replay_turn_def Let_def split: if_splits)

lemma yielded_check: "x \<in> set (sc_yielded (live_check b now p c)) \<Longrightarrow> x \<in> set (sc_yielded c) \<or> authorised topics L x"
  by (auto simp: live_check_def authorised_def split: if_splits)

lemma yielded_wait: "x \<in> set (sc_yielded (live_wait V c)) \<Longrightarrow>
   x \<in> set (sc_yielded c) \<or> x = Heartbeat \<or> (\<exists>m \<in> set (sc_queue c). x = Delivered m)"
  by (auto simp: live_wait_def split: if_splits list.splits)

lemma phase_wait: "\<not> stopped (live_wait V c) \<or> sc_yielded (live_wait V c) = sc_yielded c"
  by (auto simp: live_wait_def stopped_def split: list.splits)

lemma authorised_conn:
  assumes "\<forall>x\<in>set (sc_yielded c). authorised topics L x"
  shows "stream_logs_ok L \<Longrightarrow> \<forall>x\<in>set (sc_yielded (replay_turn V (set topics) L cursor c)). authorised topics L x"
    and "\<forall>x\<in>set (sc_yielded (live_check b now p c)). authorised topics L x"
    and "\<forall>m\<in>set (sc_queue c). stream_hears topics m \<Longrightarrow> \<forall>x\<in>set (sc_yielded (live_wait V c)). authorised topics L x"
proof -
  show "\<forall>x\<in>set (sc_yielded (replay_turn V (set topics) L cursor c)). authorised topics L x" if ok: "stream_logs_ok L"
  proof
    fix x assume "x \<in> set (sc_yielded (replay_turn V (set topics) L cursor c))"
    then consider "x \<in> set (sc_yielded c)"
      | r where "r \<in> set (replay_events (set topics) cursor (se_replay_page V) L)" "x = Replayed r"
      using yielded_replay by blast
    then show "authorised topics L x"
      by cases (use assms replay_page_facts(1) [OF ok refl] in \<open>simp_all add: authorised_def\<close>)
  qed
  show "\<forall>x\<in>set (sc_yielded (live_check b now p c)). authorised topics L x"
    using assms yielded_check by blast
  show "\<forall>x\<in>set (sc_yielded (live_wait V c)). authorised topics L x" if q: "\<forall>m\<in>set (sc_queue c). stream_hears topics m"
  proof
    fix x assume "x \<in> set (sc_yielded (live_wait V c))"
    then consider "x \<in> set (sc_yielded c)" | "x = Heartbeat" | m where "m \<in> set (sc_queue c)" "x = Delivered m"
      using yielded_wait by blast
    then show "authorised topics L x" by cases (use assms q in \<open>simp_all add: authorised_def\<close>)
  qed
qed

lemma step_inv:
  assumes "stream_step V p me sids topics W W'" and "stream_inv me topics W"
  shows "stream_inv me topics W'"
  using assms(1)
proof cases
  case (linkage_logged r)
  then show ?thesis using assms(2) logs_ok_grow(1) authorised_mono [OF _ topic_logs_grow(1)] by (simp add: stream_inv_def)
next
  case (persona_logged r)
  then show ?thesis using assms(2) logs_ok_grow(2) authorised_mono [OF _ topic_logs_grow(2)] by (simp add: stream_inv_def)
next
  case (identity_logged r)
  then show ?thesis using assms(2) logs_ok_grow(3) authorised_mono [OF _ topic_logs_grow(3)] by (simp add: stream_inv_def)
next
  case (published m u B c)
  note k = publish_keeps [OF published(3)]
  show ?thesis
  proof (cases "stopped (sw_conn W)")
    case True
    moreover from this have "stopped c" using k by (simp add: stopped_def)
    moreover have "yielded_ids c = yielded_ids (sw_conn W)" unfolding yielded_ids_def k(2) ..
    ultimately show ?thesis using assms(2) k unfolding published(1) by (simp add: stream_inv_def conn_ok_def stopped_def)
  next
    case False
    then have s: "subscribed me topics (sw_bus W)" using assms(2) by (simp add: stream_inv_def)
    note pc = publish_conn [OF published(3) s]
    have "conn_ok topics (sw_published W @ [m]) c"
      unfolding pc(2) using assms(2) published(2) by (intro conn_ok_hear) (simp_all add: stream_inv_def)
    moreover have "subscribed me topics B" using s pc(1) by (simp add: subscribed_def)
    ultimately show ?thesis using assms(2) k unfolding published(1) by (simp add: stream_inv_def)
  qed
next
  case (others B)
  then show ?thesis using assms(2) by (simp add: stream_inv_def subscribed_def)
next
  case (replayed cursor)
  then have ok: "stream_logs_ok (sw_logs W)" "conn_ok topics (sw_published W) (sw_conn W)" and "subscribed me topics (sw_bus W)"
    using assms(2) by (auto simp: stream_inv_def stopped_def)
  then show ?thesis
    using assms(2) conn_ok_replay [OF ok(2) replayed(2) ok(1), of V] authorised_conn(1) unfolding replayed(1)
    by (simp add: stream_inv_def)
next
  case (checked b now)
  then have ok: "conn_ok topics (sw_published W) (sw_conn W)" "subscribed me topics (sw_bus W)"
    using assms(2) by (auto simp: stream_inv_def stopped_def)
  have "\<forall>x\<in>set (sc_yielded (live_check b now p (sw_conn W))). authorised topics (sw_logs W) x"
    using assms(2) by (intro authorised_conn(2)) (simp add: stream_inv_def)
  then show ?thesis using assms(2) ok conn_ok_check [OF ok(1) checked(2), of b now p] unfolding checked(1) by (simp add: stream_inv_def)
next
  case waited
  then have ok: "conn_ok topics (sw_published W) (sw_conn W)" "subscribed me topics (sw_bus W)"
    and q: "\<forall>m\<in>set (sc_queue (sw_conn W)). stream_hears topics m"
    using assms(2) by (auto simp: stream_inv_def stopped_def conn_ok_def conn_live_def)
  have "\<forall>x\<in>set (sc_yielded (live_wait V (sw_conn W))). authorised topics (sw_logs W) x"
    using assms(2) q by (intro authorised_conn(3)) (simp_all add: stream_inv_def)
  then show ?thesis using assms(2) ok conn_ok_wait [OF ok(1) waited(2)] unfolding waited(1) by (simp add: stream_inv_def)
next
  case cancelled
  then show ?thesis using assms(2) by (simp add: stream_inv_def conn_ok_def stopped_def)
next
  case (released reason)
  then show ?thesis using assms(2) by (simp add: stream_inv_def stopped_def)
qed

lemma reach_inv: "stream_reach V p me sids topics W \<Longrightarrow> stream_inv me topics W"
proof -
  assume "stream_reach V p me sids topics W"
  then obtain W0 where "stream_init V me sids topics W0" "(stream_step V p me sids topics)\<^sup>*\<^sup>* W0 W"
    unfolding stream_reach_def by blast
  from this(2,1) show ?thesis
    by (induction rule: rtranclp_induct) (auto intro: init_inv step_inv)
qed

section \<open>The replay reads the whole log\<close>

lemma take_insort: "take k (insort_key f x l) = take k (insort_key f x (take k l))"
proof (induction l arbitrary: k)
  case (Cons y l)
  then show ?case by (cases k) (auto simp: take_Cons')
qed simp

lemma take_insorts: "take k (foldr (insort_key f) ys l) = take k (foldr (insort_key f) ys (take k l))"
proof (induction ys)
  case (Cons y ys)
  then show ?case by (simp, metis take_insort)
qed simp

lemma sort_key_sorted:
  assumes "distinct (map f ys)" and "sorted (map f ys)" and "mset xs = mset ys"
  shows "sort_key f xs = ys"
  using assms by (intro sort_key_inj_key_eq) (auto simp: distinct_map dest: mset_eq_setD)

lemma take_sort_append:
  assumes "distinct (map f (ys @ xs))"
  shows "take k (sort_key f (ys @ take k (sort_key f xs))) = take k (sort_key f (ys @ xs))"
proof -
  let ?t = "take k (sort_key f xs)"
  have "distinct (map f (sort_key f xs))" using assms by (simp add: distinct_map)
  then have "distinct (map f ?t)" by (metis distinct_take take_map)
  moreover have "sorted (map f ?t)" by (metis sorted_sort_key sorted_wrt_take take_map)
  ultimately have "foldr (insort_key f) ?t [] = ?t" using sort_key_sorted [of f ?t ?t] by (simp add: sort_key_def)
  then have "take k (sort_key f (ys @ ?t)) = take k (foldr (insort_key f) ys ?t)" by (simp add: sort_key_def)
  also have "\<dots> = take k (sort_key f (ys @ xs))" using take_insorts [of k f ys "sort_key f xs"] by (simp add: sort_key_def)
  finally show ?thesis .
qed

lemma sort_key_perm:
  assumes "mset xs = mset ys" and "distinct (map f xs)"
  shows "sort_key f xs = sort_key f ys"
proof (rule sort_key_sorted)
  have "mset (map f (sort_key f ys)) = mset (map f xs)" using assms(1) by simp
  then show "distinct (map f (sort_key f ys))" using assms(2) by (metis mset_eq_imp_distinct_iff)
qed (use assms(1) in simp_all)

text \<open>All the rows a reconnect asks for, without a limit.\<close>

definition after_cursor :: "uuid option \<Rightarrow> event_row list \<Rightarrow> event_row list" where
  "after_cursor cursor evs = filter (\<lambda>r. case cursor of None \<Rightarrow> True | Some e \<Rightarrow> e < el_event_id r) evs"

definition topic_rows :: "string set \<Rightarrow> uuid option \<Rightarrow> stream_logs \<Rightarrow> event_row list" where
  "topic_rows topics cursor L = after_cursor cursor
     ((if ''attribution.linkage'' \<in> topics then lg_linkage L else [])
      @ (if ''attribution.persona'' \<in> topics then lg_persona L else [])
      @ (if ''eyenet.control'' \<in> topics then filter (\<lambda>r. el_subject r \<in> CONTROL_IDENTITY_SUBJECTS) (lg_identity L) else []))"

definition one_page_of_identities :: "string set \<Rightarrow> uuid option \<Rightarrow> nat \<Rightarrow> stream_logs \<Rightarrow> bool" where
  "one_page_of_identities topics cursor limit L \<longleftrightarrow>
     ''eyenet.control'' \<in> topics \<longrightarrow> length (after_cursor cursor (lg_identity L)) \<le> limit"

lemma three_pages:
  assumes "distinct (map f (as @ bs @ cs))"
  shows "take k (sort_key f (take k (sort_key f as) @ take k (sort_key f bs) @ cs)) = take k (sort_key f (as @ bs @ cs))"
proof -
  let ?a = "take k (sort_key f as)" and ?b = "take k (sort_key f bs)"
  have sub: "distinct (map f (take k (sort_key f xs)))" "f ` set (take k (sort_key f xs)) \<subseteq> f ` set xs" if "distinct (map f xs)" for xs
  proof -
    have "distinct (map f (sort_key f xs))" using that by (simp add: distinct_map)
    then show "distinct (map f (take k (sort_key f xs)))" by (metis distinct_take take_map)
    show "f ` set (take k (sort_key f xs)) \<subseteq> f ` set xs" by (metis image_mono set_sort set_take_subset)
  qed
  have d: "distinct (map f as)" "distinct (map f bs)" "distinct (map f cs)" "f ` set as \<inter> f ` set bs = {}"
      "f ` set as \<inter> f ` set cs = {}" "f ` set bs \<inter> f ` set cs = {}"
    using assms by auto
  have d2: "distinct (map f (?a @ ?b @ cs))"
    unfolding map_append by (rule distinct_pieces [OF _ _ _ _ _ _ d(4,5,6)]) (use d sub in simp_all)
  have d1: "distinct (map f (cs @ ?b @ as))"
    unfolding map_append by (rule distinct_pieces [where A = "f ` set cs" and B = "f ` set bs" and C = "f ` set as"])
      (use d sub in \<open>auto simp: Int_commute\<close>)
  have "take k (sort_key f (?a @ ?b @ cs)) = take k (sort_key f ((cs @ ?b) @ ?a))"
    by (intro arg_cong [where f = "take k"] sort_key_perm d2) simp
  also have "\<dots> = take k (sort_key f ((cs @ ?b) @ as))" using d1 by (intro take_sort_append) simp
  also have "\<dots> = take k (sort_key f ((cs @ as) @ ?b))"
    using d1 by (intro arg_cong [where f = "take k"] sort_key_perm) simp_all
  also have "\<dots> = take k (sort_key f ((cs @ as) @ bs))" using assms by (intro take_sort_append) auto
  also have "\<dots> = take k (sort_key f (as @ bs @ cs))"
    using assms by (intro arg_cong [where f = "take k"] sort_key_perm) auto
  finally show ?thesis .
qed

lemma uuid_sort:
  assumes "distinct (map el_event_id rows)" and "\<forall>r\<in>set rows. is_uuid (el_event_id r)"
  shows "sort_key (\<lambda>r. uuid_str (el_event_id r)) rows = sort_key el_event_id rows"
proof (rule sort_key_sorted)
  let ?s = "sort_key el_event_id rows"
  have u: "is_uuid (el_event_id r)" if "r \<in> set ?s" for r using assms(2) that by simp
  have d: "distinct (map el_event_id ?s)" using assms(1) by (simp add: distinct_map)
  have "inj_on (\<lambda>r. uuid_str (el_event_id r)) (set ?s)"
  proof (rule inj_onI)
    fix x y assume xy: "x \<in> set ?s" "y \<in> set ?s" "uuid_str (el_event_id x) = uuid_str (el_event_id y)"
    then have "el_event_id x = el_event_id y" using u by (intro uuid_text_inj) simp_all
    then show "x = y" using d xy(1,2) unfolding distinct_map by (meson inj_onD)
  qed
  then show "distinct (map (\<lambda>r. uuid_str (el_event_id r)) ?s)" using d by (simp add: distinct_map)
  have "sorted_wrt (\<lambda>x y. el_event_id x \<le> el_event_id y) ?s" using sorted_sort_key [of el_event_id rows] by (simp only: sorted_map)
  then have "sorted_wrt (\<lambda>x y. uuid_str (el_event_id x) \<le> uuid_str (el_event_id y)) ?s"
  proof (rule sorted_wrt_mono_rel [rotated])
    fix x y assume "x \<in> set ?s" "y \<in> set ?s" "el_event_id x \<le> el_event_id y"
    then show "uuid_str (el_event_id x) \<le> uuid_str (el_event_id y)" using u uuid_text_less by (metis linorder_not_le)
  qed
  then show "sorted (map (\<lambda>r. uuid_str (el_event_id r)) ?s)" by (simp only: sorted_map)
qed simp

lemma topic_rows_ok:
  assumes "stream_logs_ok L"
  shows "distinct (map el_event_id (topic_rows topics cursor L))" and "r \<in> set (topic_rows topics cursor L) \<Longrightarrow> is_uuid (el_event_id r)"
proof -
  show "distinct (map el_event_id (topic_rows topics cursor L))"
  proof -
    have "distinct (map el_event_id ((if ''attribution.linkage'' \<in> topics then lg_linkage L else [])
      @ (if ''attribution.persona'' \<in> topics then lg_persona L else [])
      @ (if ''eyenet.control'' \<in> topics then filter (\<lambda>r. el_subject r \<in> CONTROL_IDENTITY_SUBJECTS) (lg_identity L) else [])))"
      unfolding map_append
      by (rule distinct_pieces [where A = "el_event_id ` set (lg_linkage L)" and B = "el_event_id ` set (lg_persona L)" and C = "el_event_id ` set (lg_identity L)"])
        (use assms in \<open>auto simp: stream_logs_ok_def distinct_map_filter\<close>)
    then show ?thesis unfolding topic_rows_def after_cursor_def by (rule distinct_map_filter)
  qed
  show "is_uuid (el_event_id r)" if "r \<in> set (topic_rows topics cursor L)"
    using that assms by (auto simp: topic_rows_def after_cursor_def stream_logs_ok_def log_ids_def split: if_splits)
qed

lemma after_cursor_append [simp]: "after_cursor cursor (xs @ ys) = after_cursor cursor xs @ after_cursor cursor ys"
  by (simp add: after_cursor_def)

lemma replay_reads:
  assumes "stream_logs_ok L" and "one_page_of_identities topics cursor k L"
  shows "replay_events topics cursor k L = take k (sort_key el_event_id (topic_rows topics cursor L))"
proof -
  let ?P = "\<lambda>r. el_subject r \<in> CONTROL_IDENTITY_SUBJECTS"
  let ?a = "after_cursor cursor (if ''attribution.linkage'' \<in> topics then lg_linkage L else [])"
    and ?b = "after_cursor cursor (if ''attribution.persona'' \<in> topics then lg_persona L else [])"
    and ?c = "after_cursor cursor (if ''eyenet.control'' \<in> topics then filter ?P (lg_identity L) else [])"
  have since: "events_since cursor k evs = take k (sort_key el_event_id (after_cursor cursor evs))" for evs
    by (simp add: events_since_def order_asc_def after_cursor_def)
  have ctl: "filter ?P (identity_events_since cursor k L) = sort_key el_event_id ?c" if "''eyenet.control'' \<in> topics"
    using assms(2) that
    by (simp add: one_page_of_identities_def identity_events_since_def since after_cursor_def filter_sort conj_commute)
  have none: "after_cursor cursor [] = []" by (simp add: after_cursor_def)
  have rows: "replay_rows topics cursor k L = take k (sort_key el_event_id ?a) @ take k (sort_key el_event_id ?b) @ sort_key el_event_id ?c"
    unfolding replay_rows_def using ctl
    by (cases "''attribution.linkage'' \<in> topics"; cases "''attribution.persona'' \<in> topics"; cases "''eyenet.control'' \<in> topics")
      (simp_all add: linkage_events_since_def persona_events_since_def since none)
  have tr: "topic_rows topics cursor L = ?a @ ?b @ ?c" by (simp add: topic_rows_def)
  have d: "distinct (map el_event_id (?a @ ?b @ ?c))" using topic_rows_ok(1) [OF assms(1), of topics cursor] unfolding tr .
  have m: "mset (map el_event_id (?a @ ?b @ sort_key el_event_id ?c)) = mset (map el_event_id (?a @ ?b @ ?c))" by simp
  have d': "distinct (map el_event_id (?a @ ?b @ sort_key el_event_id ?c))" using d mset_eq_imp_distinct_iff [OF m] by blast
  have "replay_events topics cursor k L = take k (sort_key el_event_id (replay_rows topics cursor k L))"
    unfolding replay_events_rows
    by (subst uuid_sort)
      (use replay_rows_distinct [OF assms(1)] topic_log_id [OF assms(1)] replay_rows_facts(1) in \<open>blast+\<close>)
  also have "\<dots> = take k (sort_key el_event_id (?a @ ?b @ sort_key el_event_id ?c))"
    unfolding rows by (rule three_pages [OF d'])
  also have "\<dots> = take k (sort_key el_event_id (?a @ ?b @ ?c))"
    by (intro arg_cong [where f = "take k"] sort_key_perm d') simp
  finally show ?thesis unfolding tr .
qed

text \<open>The replay loop on logs that stay as they are.\<close>

fun replay_phase :: "nat \<Rightarrow> sse_env \<Rightarrow> string set \<Rightarrow> stream_logs \<Rightarrow> sse_conn \<Rightarrow> sse_conn" where
  "replay_phase 0 V topics L c = c"
| "replay_phase (Suc n) V topics L c =
     (case sc_phase c of Replaying cursor \<Rightarrow> replay_phase n V topics L (replay_turn V topics L cursor c) | _ \<Rightarrow> c)"

lemma replay_phase_checking: "sc_phase c = Checking \<Longrightarrow> replay_phase n V topics L c = c"
  by (cases n) simp_all

lemma topic_rows_after: "r \<in> set (topic_rows topics cursor L) \<Longrightarrow> case cursor of None \<Rightarrow> True | Some x \<Rightarrow> x < el_event_id r"
  unfolding topic_rows_def after_cursor_def set_filter mem_Collect_eq by (erule conjunct2)

lemma cursor_advances:
  assumes "stream_logs_ok L" and "0 < k" and "k \<le> length (topic_rows topics cursor L)"
    and "e = el_event_id (last (take k (sort_key el_event_id (topic_rows topics cursor L))))"
  shows "sort_key el_event_id (topic_rows topics (Some e) L) = drop k (sort_key el_event_id (topic_rows topics cursor L))"
    and "length (after_cursor (Some e) evs) \<le> length (after_cursor cursor evs)"
proof -
  let ?s = "sort_key el_event_id (topic_rows topics cursor L)"
  have "0 < length (topic_rows topics cursor L)" using assms(2,3) by linarith
  then have "0 < length ?s" by (simp only: length_sort)
  then have "last (take k ?s) \<in> set (take k ?s)" using assms(2) by (intro last_in_set) (metis length_greater_0_conv not_gr_zero take_eq_Nil)
  then have "last (take k ?s) \<in> set (topic_rows topics cursor L)" by (metis in_set_takeD set_sort)
  then have e: "case cursor of None \<Rightarrow> True | Some x \<Rightarrow> x < e" unfolding assms(4) by (rule topic_rows_after)
  have sub: "after_cursor (Some e) xs = filter (\<lambda>r. e < el_event_id r) (after_cursor cursor xs)" for xs
    using e by (auto simp: after_cursor_def intro!: filter_cong split: option.splits)
  show "length (after_cursor (Some e) evs) \<le> length (after_cursor cursor evs)" unfolding sub by simp
  have "topic_rows topics (Some e) L = filter (\<lambda>r. e < el_event_id r) (topic_rows topics cursor L)"
    unfolding topic_rows_def by (rule sub)
  then have "sort_key el_event_id (topic_rows topics (Some e) L) = filter (\<lambda>r. e < el_event_id r) ?s" by (simp add: filter_sort)
  also have "\<dots> = drop k ?s"
    unfolding assms(4) using assms(2,3) topic_rows_ok(1) [OF assms(1)]
    by (intro sorted_split) (simp_all add: distinct_map)
  finally show "sort_key el_event_id (topic_rows topics (Some e) L) = drop k ?s" .
qed

lemma replay_phase_rows:
  assumes "stream_logs_ok L" and "0 < se_replay_page V"
  shows "one_page_of_identities topics cursor (se_replay_page V) L \<Longrightarrow> sc_phase c = Replaying cursor \<Longrightarrow>
    length (topic_rows topics cursor L) < n \<Longrightarrow>
    sc_phase (replay_phase n V topics L c) = Checking
    \<and> sc_yielded (replay_phase n V topics L c) = sc_yielded c @ map Replayed (sort_key el_event_id (topic_rows topics cursor L))"
proof (induction n arbitrary: c cursor)
  case (Suc n)
  let ?k = "se_replay_page V" and ?s = "sort_key el_event_id (topic_rows topics cursor L)"
  let ?c = "replay_turn V topics L cursor c"
  have pg: "replay_events topics cursor ?k L = take ?k ?s" by (rule replay_reads [OF assms(1) Suc.prems(1)])
  have run: "replay_phase (Suc n) V topics L c = replay_phase n V topics L ?c" using Suc.prems(2) by simp
  show ?case
  proof (cases "length ?s < ?k")
    case True
    then have "sc_phase ?c = Checking" "sc_yielded ?c = sc_yielded c @ map Replayed ?s"
      by (auto simp: replay_turn_def Let_def pg)
    then show ?thesis using run replay_phase_checking by metis
  next
    case False
    let ?e = "el_event_id (last (take ?k ?s))"
    have k: "?k \<le> length (topic_rows topics cursor L)" using False by simp
    have "0 < length (topic_rows topics cursor L)" using k assms(2) by linarith
    then have "0 < length ?s" by (simp only: length_sort)
    then have ne: "take ?k ?s \<noteq> []" using assms(2) by (metis length_greater_0_conv not_gr_zero take_eq_Nil)
    have c: "sc_phase ?c = Replaying (Some ?e)" "sc_yielded ?c = sc_yielded c @ map Replayed (take ?k ?s)"
      using ne k by (simp_all add: replay_turn_def Let_def pg)
    note adv = cursor_advances [OF assms(1,2) k refl]
    have "one_page_of_identities topics (Some ?e) ?k L"
      using Suc.prems(1) adv(2) [of "lg_identity L"] by (auto simp: one_page_of_identities_def)
    moreover have "length (topic_rows topics (Some ?e) L) < n"
      using arg_cong [OF adv(1), of length] Suc.prems(3) assms(2) k by simp
    ultimately have "sc_phase (replay_phase n V topics L ?c) = Checking
        \<and> sc_yielded (replay_phase n V topics L ?c) = sc_yielded ?c @ map Replayed (sort_key el_event_id (topic_rows topics (Some ?e) L))"
      using c(1) by (intro Suc.IH)
    then show ?thesis unfolding run adv(1) c(2) append_assoc map_append [symmetric] append_take_drop_id .
  qed
qed simp

section \<open>Properties\<close>

definition stream_endpoints :: "stream_principal \<Rightarrow> (exn + string list) set" where
  "stream_endpoints p = {stream_audit p, stream_control p, stream_incidents p, stream_linkages p, stream_personas p} \<union> range (stream_all p)"

lemma endpoint_topics: "Inr topics \<in> stream_endpoints p \<Longrightarrow> set topics \<subseteq> sp_topics p"
  unfolding stream_endpoints_def
  by (auto simp: stream_audit_def stream_control_def stream_incidents_def stream_linkages_def stream_personas_def stream_all_def
      require_topic_def require_topic_set_def split: if_splits)

text \<open>
  C35: In every state that a stream connection can reach, whatever is logged and published meanwhile and however the bus
  is shared: no durable event was sent to the client twice, neither across the change from replay to live delivery nor
  between two pages; and while the connection is open and its queue has not overflowed, every durable event published on
  one of its topics since it was opened was sent or waits in the queue.
\<close>

theorem stream_exactly_once:
  assumes "stream_reach V p me sids topics W"
  shows "distinct (yielded_ids (sw_conn W))
    \<and> (\<forall>m\<in>set (sw_published W). \<forall>i. \<not> stopped (sw_conn W) \<and> \<not> sc_overflow (sw_conn W) \<and> stream_hears topics m \<and> message_id m = Some i
         \<longrightarrow> i \<in> set (yielded_ids (sw_conn W)) \<union> set (queued_ids (sw_conn W)))"
  using reach_inv [OF assms] unfolding stream_inv_def conn_ok_def conn_live_def stopped_def by blast

text \<open>
  C36: A stream that an endpoint opened for a token sends a bus message only if its subject matches a pattern of a topic
  the token was minted for, and replays only rows of the logs of such topics, of the identity log only released events.
\<close>

theorem stream_within_token:
  assumes "Inr topics \<in> stream_endpoints p" and "stream_reach V p me sids topics W"
    and "x \<in> set (sc_yielded (sw_conn W))"
  shows "case x of
      Delivered m \<Rightarrow> \<exists>t\<in>sp_topics p. \<exists>pat\<in>set (topic_patterns t). subject_matches pat (bm_subject m)
    | Replayed r \<Rightarrow> r \<in> topic_logs (sp_topics p) (sw_logs W)
    | _ \<Rightarrow> True"
proof -
  have a: "authorised topics (sw_logs W) x" using reach_inv [OF assms(2)] assms(3) by (simp add: stream_inv_def)
  have t: "set topics \<subseteq> sp_topics p" by (rule endpoint_topics [OF assms(1)])
  have mono: "topic_logs (set topics) L \<subseteq> topic_logs (sp_topics p) L" for L using t by (auto simp: topic_logs_def)
  show ?thesis
    using a t mono by (cases x) (auto simp: authorised_def stream_hears_def stream_patterns_def)
qed

text \<open>
  C37: While the event logs do not change, a client that reconnects with the id of the last event it saw gets every logged
  event of its topics after that id, in the order of the ids and each once, and the replay ends after at most one round per
  event and one more. For the control topic this needs that the identity events after the cursor, shown or
  not, fit in one page (the premise \<open>one_page_of_identities\<close>, which holds of every other topic); without it the replay can
  stop early. The ids of the logs are distinct UUIDs and a page holds at least one row. The order is that of the ids and not
  that of time stamp and sequence number.
\<close>

theorem replay_complete:
  assumes "stream_logs_ok L" and "0 < se_replay_page V" and "is_uuid e"
    and "one_page_of_identities topics (Some e) (se_replay_page V) L" and "length (topic_rows topics (Some e) L) < n"
  shows "let c = replay_phase n V topics L (open_conn (Some (uuid_str e)))
    in sc_phase c = Checking \<and> sc_yielded c = map Replayed (sort_key el_event_id (topic_rows topics (Some e) L))"
proof -
  have "parse_cursor (uuid_str e) = Some e" using assms(3) by (simp add: parse_cursor_def is_uuid_def py_uuid_str)
  then have "sc_phase (open_conn (Some (uuid_str e))) = Replaying (Some e)" "sc_yielded (open_conn (Some (uuid_str e))) = []"
    by (simp_all add: open_conn_def)
  then show ?thesis using replay_phase_rows [OF assms(1,2,4) _ assms(5), of "open_conn (Some (uuid_str e))"] by (simp add: Let_def)
qed

text \<open>
  C38: The identity log is cut to a page before its released events are picked out: a full page of other identity events
  after the cursor ends the replay of the control topic, and the released events behind it are never replayed.
\<close>

theorem control_replay_gap:
  assumes "lg_identity L = hidden @ shown" and "length hidden = se_replay_page V" and "is_uuid e"
    and "\<forall>r\<in>set hidden. el_subject r \<notin> CONTROL_IDENTITY_SUBJECTS" and "\<forall>r\<in>set shown. el_subject r \<in> CONTROL_IDENTITY_SUBJECTS"
    and "sorted (map el_event_id (hidden @ shown))" and "\<forall>r\<in>set (hidden @ shown). e < el_event_id r"
  shows "let c = replay_phase (Suc n) V {''eyenet.control''} L (open_conn (Some (uuid_str e)))
    in sc_phase c = Checking \<and> sc_yielded c = [] \<and> topic_rows {''eyenet.control''} (Some e) L = shown"
proof -
  have "parse_cursor (uuid_str e) = Some e" using assms(3) by (simp add: parse_cursor_def is_uuid_def py_uuid_str)
  then have c: "sc_phase (open_conn (Some (uuid_str e))) = Replaying (Some e)" "sc_yielded (open_conn (Some (uuid_str e))) = []"
    by (simp_all add: open_conn_def)
  have all: "filter (\<lambda>r. e < el_event_id r) (hidden @ shown) = hidden @ shown" using assms(7) by (intro filter_True) simp
  have "take (se_replay_page V) (sort_key el_event_id (hidden @ shown)) = hidden"
    using sort_key_id_if_sorted [OF assms(6)] assms(2) by simp
  then have "identity_events_since (Some e) (se_replay_page V) L = hidden"
    unfolding identity_events_since_def events_since_def order_asc_def assms(1) option.case all .
  then have "replay_events {''eyenet.control''} (Some e) (se_replay_page V) L = []"
    using assms(4) by (simp add: replay_events_def filter_empty_conv)
  then have "replay_turn V {''eyenet.control''} L (Some e) (open_conn (Some (uuid_str e))) = (open_conn (Some (uuid_str e)))\<lparr>sc_phase := Checking\<rparr>"
    by (simp add: replay_turn_def)
  moreover have "topic_rows {''eyenet.control''} (Some e) L = shown"
  proof -
    have "filter (\<lambda>r. el_subject r \<in> CONTROL_IDENTITY_SUBJECTS) (hidden @ shown) = shown"
      using assms(4,5) by (simp add: filter_empty_conv filter_id_conv)
    then show ?thesis using assms(1,7) by (simp add: topic_rows_def after_cursor_def)
  qed
  ultimately show ?thesis using c by (simp add: Let_def replay_phase_checking)
qed

section \<open>Examples\<close>

definition demo_sse :: sse_env where
  "demo_sse = \<lparr>se_json = (\<lambda>_. ''{}''), se_digest = (\<lambda>_. None), se_decode = (\<lambda>_. Some ''{}''), se_lag_fails = (\<lambda>_. False),
     se_hwm = 2, se_replay_page = 2\<rparr>"

definition demo_row :: "uuid \<Rightarrow> string \<Rightarrow> event_row" where
  "demo_row i s = \<lparr>el_parent_id = 7, el_event_seq = 1, el_subject = s, el_event_id = i, el_ts = 0, el_actor = None\<rparr>"

definition demo_message :: bus_message where
  "demo_message = \<lparr>bm_subject = ''incident.detected'', bm_payload = [], bm_headers = [(''eyenet-event-id'', ''5'')]\<rparr>"

definition demo_token :: stream_principal where
  "demo_token = \<lparr>sp_user_id = 3, sp_username = ''ana'', sp_role = User_ANALYST, sp_topics = {''incident.detected''}, sp_expires_at = 10\<rparr>"

definition no_logs :: stream_logs where
  "no_logs = \<lparr>lg_linkage = [], lg_persona = [], lg_identity = []\<rparr>"

definition demo_open :: "nat stream_world" where
  "demo_open = sse_open 4 [''s''] [''incident.detected''] None no_logs new_bus"

definition demo_published :: "nat stream_world" where
  "demo_published = demo_open\<lparr>sw_conn := on_msg demo_sse demo_message (open_conn None), sw_published := [demo_message]\<rparr>"

definition demo_sent :: "nat stream_world" where
  "demo_sent = demo_published\<lparr>sw_conn := live_wait demo_sse (live_check False 0 demo_token (sw_conn demo_published))\<rparr>"

lemma demo_match: "subject_matches ''incident.detected'' ''incident.detected''"
  by code_simp

lemma demo_patterns: "stream_patterns [''incident.detected''] = [''incident.detected'']" "is_valid_pattern ''incident.detected''"
  by (simp add: stream_patterns_def topic_patterns_eqs) code_simp

lemma demo_publishes: "bus_publish (conn_handler demo_sse 4) demo_message (sw_bus demo_open, sw_conn demo_open)
    = (Inr (), (sw_bus demo_open, on_msg demo_sse demo_message (open_conn None)))"
  using demo_match
  by (simp add: demo_open_def sse_open_def demo_patterns bus_subscribe_def new_bus_def bus_publish_def fanout_targets_def
      demo_message_def conn_handler_def Let_def)

lemma demo_reach: "stream_reach demo_sse demo_token 4 [''s''] [''incident.detected''] demo_sent"
proof -
  let ?step = "stream_step demo_sse demo_token 4 [''s''] [''incident.detected'']"
  have init: "stream_init demo_sse 4 [''s''] [''incident.detected''] demo_open"
    unfolding stream_init_def demo_open_def
    by (intro exI [of _ None] exI [of _ no_logs] exI [of _ new_bus] conjI refl)
      (simp_all add: own_subs_def new_bus_def demo_patterns no_logs_def log_ids_def)
  have 1: "?step demo_open demo_published"
    using stream_step.published [OF _ demo_publishes, of demo_token "[''s'']" "[''incident.detected'']"]
    by (simp add: demo_published_def demo_open_def sse_open_def)
  let ?w = "demo_published\<lparr>sw_conn := live_check False 0 demo_token (sw_conn demo_published)\<rparr>"
  have 2: "?step demo_published ?w"
    by (rule stream_step.checked) (simp add: demo_published_def on_msg_def open_conn_def)
  have "sc_phase (sw_conn ?w) = Waiting"
    by (simp add: demo_published_def on_msg_def open_conn_def live_check_def demo_token_def demo_sse_def)
  then have 3: "?step ?w demo_sent" using stream_step.waited [of ?w demo_sse demo_token 4 "[''s'']" "[''incident.detected'']"]
    by (simp add: demo_sent_def)
  show ?thesis
    unfolding stream_reach_def
    by (rule exI [of _ demo_open], rule conjI [OF init], rule converse_rtranclp_into_rtranclp [of ?step, OF 1],
        rule converse_rtranclp_into_rtranclp [of ?step, OF 2], rule r_into_rtranclp [of ?step, OF 3])
qed

lemma demo_yields: "sc_yielded (sw_conn demo_sent) = [Delivered demo_message]" "sw_published demo_sent = [demo_message]"
  by (simp_all add: demo_sent_def demo_published_def on_msg_def open_conn_def live_check_def live_wait_def demo_token_def
      demo_sse_def demo_message_def message_id_def)

lemma stream_exactly_once_witness: "distinct (yielded_ids (sw_conn demo_sent)) \<and> sc_yielded (sw_conn demo_sent) = [Delivered demo_message]"
  using stream_exactly_once [OF demo_reach] demo_yields by blast

lemma demo_endpoint: "Inr [''incident.detected''] \<in> stream_endpoints demo_token"
  by (simp add: stream_endpoints_def stream_incidents_def require_topic_def demo_token_def)

lemma stream_within_token_witness:
  "\<exists>t\<in>sp_topics demo_token. \<exists>pat\<in>set (topic_patterns t). subject_matches pat (bm_subject demo_message)"
  using stream_within_token [OF demo_endpoint demo_reach, of "Delivered demo_message"] demo_yields by simp

definition demo_logs :: stream_logs where
  "demo_logs = no_logs\<lparr>lg_linkage := [demo_row 9 ''attribution.linkage.confirmed'', demo_row 6 ''attribution.linkage.rejected''],
     lg_persona := [demo_row 8 ''attribution.persona.merge'', demo_row 2 ''attribution.persona.split'']\<rparr>"

lemma replay_complete_witness:
  "sc_yielded (replay_phase 9 demo_sse {''attribution.linkage'', ''attribution.persona''} demo_logs (open_conn (Some (uuid_str 5))))
     = map Replayed (sort_key el_event_id (topic_rows {''attribution.linkage'', ''attribution.persona''} (Some 5) demo_logs))"
proof -
  have "stream_logs_ok demo_logs" by (simp add: stream_logs_ok_def demo_logs_def no_logs_def demo_row_def log_ids_def is_uuid_def)
  moreover have "one_page_of_identities {''attribution.linkage'', ''attribution.persona''} (Some 5) (se_replay_page demo_sse) demo_logs"
    by (simp add: one_page_of_identities_def)
  moreover have "length (topic_rows {''attribution.linkage'', ''attribution.persona''} (Some 5) demo_logs) < 9"
    by (simp add: topic_rows_def demo_logs_def no_logs_def after_cursor_def demo_row_def)
  ultimately show ?thesis
    using replay_complete [of demo_logs demo_sse 5 "{''attribution.linkage'', ''attribution.persona''}" 9]
    by (simp add: demo_sse_def is_uuid_def Let_def)
qed

definition hiding_logs :: stream_logs where
  "hiding_logs = no_logs\<lparr>lg_identity := [demo_row 6 ''eyenet.identity.claimed'', demo_row 8 ''eyenet.identity.frozen'']
     @ [demo_row 9 ''eyenet.identity.released'']\<rparr>"

lemma control_replay_gap_witness:
  "sc_yielded (replay_phase (Suc 3) demo_sse {''eyenet.control''} hiding_logs (open_conn (Some (uuid_str 5)))) = []
   \<and> topic_rows {''eyenet.control''} (Some 5) hiding_logs = [demo_row 9 ''eyenet.identity.released'']"
proof -
  let ?h = "[demo_row 6 ''eyenet.identity.claimed'', demo_row 8 ''eyenet.identity.frozen'']" and ?s = "[demo_row 9 ''eyenet.identity.released'']"
  have "lg_identity hiding_logs = ?h @ ?s" "length ?h = se_replay_page demo_sse" "is_uuid 5"
    by (simp_all add: hiding_logs_def demo_sse_def is_uuid_def)
  moreover have "\<forall>r\<in>set ?h. el_subject r \<notin> CONTROL_IDENTITY_SUBJECTS" "\<forall>r\<in>set ?s. el_subject r \<in> CONTROL_IDENTITY_SUBJECTS"
    "sorted (map el_event_id (?h @ ?s))" "\<forall>r\<in>set (?h @ ?s). 5 < el_event_id r"
    by (simp_all add: demo_row_def CONTROL_IDENTITY_SUBJECTS_def)
  ultimately show ?thesis
    using control_replay_gap [of hiding_logs ?h ?s demo_sse 5 3] unfolding Let_def by blast
qed

end
