(* ===== verification/Incidents.thy ===== *)
theory Incidents
  imports Complex_Main Join_Flow
begin

text \<open>
  Incident detection: the structural prefilter (\<open>incidents/prefilter.py\<close>), operator rules (\<open>incidents/rules.py\<close>), the
  calibrated classifier (\<open>incidents/classifier.py\<close>), the tables and their readers (\<open>sqlmodel_repo/incidents.py\<close>), the
  batching service (\<open>incidents/service.py\<close>), the backfill (\<open>incidents/backfill.py\<close>) and the routes of
  \<open>api/v1/incidents\<close>. A message body is its list of code points. RE2, Unicode normalisation, the full-text search of
  the database and the neural model behind the logits are parameters.
\<close>

section \<open>Text\<close>

type_synonym text_body = "nat list"

definition CONFUSABLE_POINTS :: "(nat \<times> char) list" where
  "CONFUSABLE_POINTS =
     [(0x0430, CHR ''a''), (0x0435, CHR ''e''), (0x043E, CHR ''o''), (0x0440, CHR ''p''), (0x0441, CHR ''c''),
      (0x0445, CHR ''x''), (0x0443, CHR ''y''), (0x0456, CHR ''i''), (0x0458, CHR ''j''), (0x0455, CHR ''s''),
      (0x0410, CHR ''A''), (0x0412, CHR ''B''), (0x0415, CHR ''E''), (0x041A, CHR ''K''), (0x041C, CHR ''M''),
      (0x041D, CHR ''H''), (0x041E, CHR ''O''), (0x0420, CHR ''P''), (0x0421, CHR ''C''), (0x0422, CHR ''T''),
      (0x0425, CHR ''X''), (0x03BF, CHR ''o''), (0x03B1, CHR ''a''), (0x03C1, CHR ''p''), (0x03BD, CHR ''v''),
      (0x039F, CHR ''O''), (0x0391, CHR ''A''), (0x03A1, CHR ''P'')]"

definition translate_confusables :: "text_body \<Rightarrow> text_body" where
  "translate_confusables t = map (\<lambda>c. case map_of CONFUSABLE_POINTS c of None \<Rightarrow> c | Some l \<Rightarrow> of_char l) t"

definition code_points :: "string \<Rightarrow> text_body" where
  "code_points s = map of_char s"

text \<open>\<open>str.isspace\<close> of a code point.\<close>

definition space_point :: "nat \<Rightarrow> bool" where
  "space_point c \<longleftrightarrow> c \<in> {9..13} \<or> c \<in> {28..32} \<or> c \<in> {133, 160, 5760, 8232, 8233, 8239, 8287, 12288} \<or> c \<in> {8192..8202}"

section \<open>The parameters\<close>

text \<open>
  \<open>ie_search p t\<close>: the pattern \<open>p\<close> is found in \<open>t\<close>; \<open>ie_signal n t\<close>: the pattern of the built-in signal \<open>n\<close> is.
  \<open>ie_logits\<close> is the forward pass on one text, \<open>ie_fts\<close> the full-text predicate of the back end.
\<close>

record inc_env =
  ie_compiles :: "string \<Rightarrow> bool"
  ie_search :: "string \<Rightarrow> text_body \<Rightarrow> bool"
  ie_signal :: "string \<Rightarrow> text_body \<Rightarrow> bool"
  ie_nfc :: "text_body \<Rightarrow> text_body"
  ie_heads :: "string list"
  ie_calib :: "string \<rightharpoonup> real \<times> real \<times> real"
  ie_logits :: "text_body \<Rightarrow> real list"
  ie_round4 :: "real \<Rightarrow> real"
  ie_model_version :: string
  ie_fts :: "string \<Rightarrow> text_body \<Rightarrow> bool"
  ie_publish_ok :: "string \<Rightarrow> bool"
  ie_emit :: emit_env

definition normalize_text :: "inc_env \<Rightarrow> text_body \<Rightarrow> text_body" where
  "normalize_text V t = translate_confusables (ie_nfc V t)"

section \<open>Prefilter\<close>

definition ADJUDICATE_THRESHOLD :: nat where "ADJUDICATE_THRESHOLD = 3"

definition SIGNALS :: "(string \<times> nat) list" where
  "SIGNALS =
     [(''deface_banner'', 3), (''onion_url'', 3), (''cred_combo'', 3), (''compromise_confirmed'', 3), (''check_host'', 3),
      (''ddos_command'', 3), (''crew_tag_cluster'', 2), (''leak_label'', 2), (''cloud_pass'', 2), (''cred_label'', 2),
      (''target_dump_file'', 2), (''leak_host'', 2), (''hash_list'', 2), (''sale_marker'', 2), (''access_material'', 2),
      (''tool_sale'', 2), (''telecom_abuse'', 2), (''multi_target'', 2), (''stealer_logs'', 2), (''pii_schema'', 2),
      (''session_id'', 2), (''institutional_target'', 2), (''cve'', 1), (''btc_addr'', 1), (''eth_addr'', 1), (''ipv4'', 1),
      (''tg_target'', 1), (''record_count'', 1), (''dm_contact'', 1)]"

record prefilter_result =
  px_signals :: "string list"
  px_score :: nat
  px_adjudicate :: bool

fun signal_loop :: "inc_env \<Rightarrow> text_body \<Rightarrow> (string \<times> nat) list \<Rightarrow> string list \<Rightarrow> nat \<Rightarrow> string list \<times> nat" where
  "signal_loop V t [] fired score = (fired, score)"
| "signal_loop V t ((name, weight) # sigs) fired score =
     (if ie_signal V name t then signal_loop V t sigs (fired @ [name]) (score + weight) else signal_loop V t sigs fired score)"

definition scan :: "inc_env \<Rightarrow> text_body \<Rightarrow> prefilter_result" where
  "scan V text =
     (case signal_loop V (normalize_text V text) SIGNALS [] 0 of
        (fired, score) \<Rightarrow> \<lparr>px_signals = fired, px_score = score, px_adjudicate = (ADJUDICATE_THRESHOLD \<le> score)\<rparr>)"

section \<open>Operator rules\<close>

definition TAXONOMY_LABELS :: "string set" where
  "TAXONOMY_LABELS =
     {''defacement'', ''ddos_attack'', ''intrusion'', ''breach_dump'', ''credentials'', ''stealer_logs'', ''iab_corporate'',
      ''crimeware_tooling'', ''crime_aas'', ''telecom_abuse'', ''phishing_delivery'', ''fraud_ops'', ''infra_resale'',
      ''recruiting'', ''alliance'', ''crew_ops''}"

definition BUILTIN_SIGNAL_NAMES :: "string set" where
  "BUILTIN_SIGNAL_NAMES = fst ` set SIGNALS"

record rule_row =
  ir_id :: uuid
  ir_name :: string
  ir_pattern :: string
  ir_label :: string
  ir_weight :: int
  ir_enabled :: bool
  ir_description :: "string option"
  ir_created_by :: "string option"
  ir_created_at :: time

record compiled_rule =
  cl_name :: string
  cl_pattern :: string
  cl_label :: string

definition compile_rules :: "inc_env \<Rightarrow> rule_row list \<Rightarrow> compiled_rule list" where
  "compile_rules V rows =
     map (\<lambda>r. \<lparr>cl_name = ir_name r, cl_pattern = ir_pattern r, cl_label = ir_label r\<rparr>)
       (filter (\<lambda>r. ir_enabled r \<and> ie_compiles V (ir_pattern r)) rows)"

definition match_labels :: "inc_env \<Rightarrow> text_body \<Rightarrow> compiled_rule list \<Rightarrow> string set" where
  "match_labels V text compiled =
     (if compiled = [] then {}
      else let norm = normalize_text V text in {l. \<exists>c\<in>set compiled. l = cl_label c \<and> ie_search V (cl_pattern c) norm})"

section \<open>Classifier\<close>

definition SIG2LABEL :: "string \<rightharpoonup> string" where
  "SIG2LABEL = map_of
     [(''deface_banner'', ''defacement''), (''ddos_command'', ''ddos_attack''), (''check_host'', ''ddos_attack''),
      (''compromise_confirmed'', ''intrusion''), (''multi_target'', ''ddos_attack''), (''leak_host'', ''breach_dump''),
      (''leak_label'', ''breach_dump''), (''target_dump_file'', ''breach_dump''), (''pii_schema'', ''breach_dump''),
      (''hash_list'', ''credentials''), (''cred_combo'', ''credentials''), (''cred_label'', ''credentials''),
      (''onion_url'', ''breach_dump''), (''stealer_logs'', ''stealer_logs''), (''cloud_pass'', ''stealer_logs''),
      (''access_material'', ''iab_corporate''), (''tool_sale'', ''crimeware_tooling''), (''telecom_abuse'', ''telecom_abuse'')]"

definition prefilter_labels :: "inc_env \<Rightarrow> text_body \<Rightarrow> string set" where
  "prefilter_labels V text = {l. \<exists>s\<in>set (px_signals (scan V text)). SIG2LABEL s = Some l}"

record head_score =
  hs_label :: string
  hs_prob :: real
  hs_fired :: bool

definition sigmoid :: "real \<Rightarrow> real" where
  "sigmoid x = (if 0 \<le> x then 1 / (1 + exp (- x)) else exp x / (1 + exp x))"

text \<open>A head without a logit is the \<open>IndexError\<close>.\<close>

definition apply_calibration :: "inc_env \<Rightarrow> real list \<Rightarrow> exn + head_score list" where
  "apply_calibration V logits =
     (if length logits < length (ie_heads V) then Inl (RuntimeError ''IndexError'')
      else Inr (map (\<lambda>(k, x).
             let (a, b, thr) = (case ie_calib V k of None \<Rightarrow> (1, 0, 1 / 2) | Some c \<Rightarrow> c);
                 p = sigmoid (a * x + b)
             in \<lparr>hs_label = k, hs_prob = ie_round4 V p, hs_fired = (thr \<le> p)\<rparr>) (zip (ie_heads V) logits)))"

fun classify_batch :: "inc_env \<Rightarrow> text_body list \<Rightarrow> exn + head_score list list" where
  "classify_batch V [] = Inr []"
| "classify_batch V (t # ts) =
     (case apply_calibration V (ie_logits V t) of
        Inl e \<Rightarrow> Inl e
      | Inr s \<Rightarrow> (case classify_batch V ts of Inl e \<Rightarrow> Inl e | Inr ss \<Rightarrow> Inr (s # ss)))"

definition ATT_OPEN :: text_body where "ATT_OPEN = [10, 0x27E8] @ code_points ''att: ''"
definition ATT_SEP :: text_body where "ATT_SEP = [32, 0xB7, 32]"
definition ATT_CLOSE :: text_body where "ATT_CLOSE = [0x27E9]"

fun join_text :: "text_body \<Rightarrow> text_body list \<Rightarrow> text_body" where
  "join_text sep [] = []"
| "join_text sep [t] = t"
| "join_text sep (t # ts) = t @ sep @ join_text sep ts"

definition enrich_text :: "text_body \<Rightarrow> text_body list option \<Rightarrow> text_body" where
  "enrich_text body att =
     (let names = filter (\<lambda>f. \<exists>c\<in>set f. \<not> space_point c) (case att of None \<Rightarrow> [] | Some fs \<Rightarrow> fs)
      in if names = [] then body else body @ ATT_OPEN @ join_text ATT_SEP names @ ATT_CLOSE)"

definition model_fired :: "head_score list \<Rightarrow> string set" where
  "model_fired scores = {l. \<exists>s\<in>set scores. hs_fired s \<and> l = hs_label s}"

definition head_order :: "head_score list \<Rightarrow> string set \<Rightarrow> string list" where
  "head_order scores fired = map hs_label (filter (\<lambda>s. hs_label s \<in> fired) scores)"

definition fired_labels :: "inc_env \<Rightarrow> text_body \<Rightarrow> exn + string list" where
  "fired_labels V text =
     (case classify_batch V [text] of
        Inl e \<Rightarrow> Inl e
      | Inr ss \<Rightarrow> let scores = hd ss in Inr (head_order scores (model_fired scores \<union> prefilter_labels V text)))"

definition fired_labels_batch :: "inc_env \<Rightarrow> text_body list \<Rightarrow> exn + string list list" where
  "fired_labels_batch V texts =
     (case classify_batch V texts of
        Inl e \<Rightarrow> Inl e
      | Inr ss \<Rightarrow> Inr (map (\<lambda>(t, scores). head_order scores (model_fired scores \<union> prefilter_labels V t)) (zip texts ss)))"

section \<open>Tables\<close>

record msg_row =
  mg_id :: uuid
  mg_evidence_ref :: string
  mg_body :: text_body
  mg_group_id :: uuid
  mg_source_id :: uuid

record incident_row =
  in_id :: uuid
  in_message_id :: uuid
  in_labels :: "string list"
  in_scores :: "(string \<times> real) list"
  in_model_version :: string
  in_classified_at :: time

record label_row =
  il_message_id :: uuid
  il_labels :: "string list"
  il_reason :: "string option"
  il_decided_by :: string
  il_decided_at :: time

record geo_row =
  ge_message_id :: uuid
  ge_country :: "string option"
  ge_status :: string
  ge_decided_by :: "string option"
  ge_engine_version :: string
  ge_classified_at :: time

record inc_store =
  ic_messages :: "msg_row list"
  ic_attachments :: "(uuid \<times> text_body option) list"
  ic_groups :: "(uuid \<times> string option \<times> uuid) list"
  ic_sources :: "(uuid \<times> string option) list"
  ic_incidents :: "incident_row list"
  ic_labels :: "label_row list"
  ic_geo :: "geo_row list"
  ic_rules :: "rule_row list"
  ic_audit :: audit_store
  ic_published :: "(string \<times> incident_row) list"

section \<open>Incidents\<close>

text \<open>One transaction: a foreign key or a primary key that fails rolls back every row.\<close>

definition put_incidents_bulk :: "incident_row list \<Rightarrow> inc_store \<Rightarrow> (unit, inc_store) outcome" where
  "put_incidents_bulk rows S =
     (if rows = [] then (Inr (), S)
      else if \<not> list_all (\<lambda>r. tbl_has mg_id (in_message_id r) (ic_messages S)) rows \<or> \<not> keyed in_id (ic_incidents S @ rows)
      then (Inl (IntegrityError ''incident''), S)
      else (Inr (), S\<lparr>ic_incidents := ic_incidents S @ rows\<rparr>))"

definition incidents_for_message :: "uuid \<Rightarrow> nat \<Rightarrow> inc_store \<Rightarrow> incident_row list" where
  "incidents_for_message i limit S = take limit (order_desc in_classified_at (filter (\<lambda>r. in_message_id r = i) (ic_incidents S)))"

record feed_filter =
  ff_labels :: "string list"
  ff_q :: string
  ff_group_ids :: "uuid list"
  ff_source_ids :: "uuid list"
  ff_victim_countries :: "string list"
  ff_exclude_bodyless :: bool

text \<open>
  The filters of the feed. A label is looked for as its quoted token in the JSON text of the array, which for clean
  identifiers is membership. \<open>trim\<close> of the database strips spaces only.
\<close>

definition message_of :: "incident_row \<Rightarrow> inc_store \<Rightarrow> msg_row option" where
  "message_of r S = tbl_get mg_id (in_message_id r) (ic_messages S)"

definition incident_passes :: "inc_env \<Rightarrow> feed_filter \<Rightarrow> inc_store \<Rightarrow> incident_row \<Rightarrow> bool" where
  "incident_passes V F S r \<longleftrightarrow>
     (ff_labels F \<noteq> [] \<longrightarrow> (\<exists>l\<in>set (ff_labels F). l \<in> set (in_labels r)))
     \<and> (ff_q F \<noteq> [] \<or> ff_group_ids F \<noteq> [] \<or> ff_source_ids F \<noteq> [] \<or> ff_exclude_bodyless F \<longrightarrow>
          (case message_of r S of
             None \<Rightarrow> False
           | Some m \<Rightarrow> (ff_q F \<noteq> [] \<longrightarrow> ie_fts V (ff_q F) (mg_body m))
               \<and> (ff_group_ids F \<noteq> [] \<longrightarrow> mg_group_id m \<in> set (ff_group_ids F))
               \<and> (ff_source_ids F \<noteq> [] \<longrightarrow> mg_source_id m \<in> set (ff_source_ids F))
               \<and> (ff_exclude_bodyless F \<longrightarrow> (\<exists>c\<in>set (mg_body m). c \<noteq> 32))))
     \<and> (ff_victim_countries F \<noteq> [] \<longrightarrow>
          (\<exists>g\<in>set (ic_geo S). ge_message_id g = in_message_id r
             \<and> (case ge_country g of None \<Rightarrow> False | Some c \<Rightarrow> c \<in> set (ff_victim_countries F))))"

definition recent_incidents :: "inc_env \<Rightarrow> feed_filter \<Rightarrow> nat \<Rightarrow> nat \<Rightarrow> inc_store \<Rightarrow> incident_row list" where
  "recent_incidents V F limit offset S = page offset limit (order_desc in_classified_at (filter (incident_passes V F S) (ic_incidents S)))"

definition count_incidents :: "inc_env \<Rightarrow> feed_filter \<Rightarrow> inc_store \<Rightarrow> nat" where
  "count_incidents V F S = length (filter (incident_passes V F S) (ic_incidents S))"

text \<open>\<open>GROUP BY\<close> with \<open>COUNT\<close>, noisiest first: the keys that occur, with their number of occurrences.\<close>

definition group_counts :: "'k list \<Rightarrow> ('k \<times> nat) list" where
  "group_counts ks = order_desc snd (map (\<lambda>k. (k, length (filter (\<lambda>x. x = k) ks))) (dedup_first ks))"

definition incident_groups :: "inc_store \<Rightarrow> ((uuid \<times> string option \<times> uuid) \<times> nat) list" where
  "incident_groups S = group_counts (concat (map (\<lambda>r. case message_of r S of
       None \<Rightarrow> [] | Some m \<Rightarrow> filter (\<lambda>g. fst g = mg_group_id m) (ic_groups S)) (ic_incidents S)))"

definition incident_sources :: "inc_store \<Rightarrow> ((uuid \<times> string option) \<times> nat) list" where
  "incident_sources S = group_counts (concat (map (\<lambda>r. case message_of r S of
       None \<Rightarrow> [] | Some m \<Rightarrow> filter (\<lambda>s. fst s = mg_source_id m) (ic_sources S)) (ic_incidents S)))"

definition incident_countries :: "inc_store \<Rightarrow> (string \<times> nat) list" where
  "incident_countries S = group_counts (concat (map (\<lambda>r.
       List.map_filter ge_country (filter (\<lambda>g. ge_message_id g = in_message_id r) (ic_geo S))) (ic_incidents S)))"

definition messages_without_incidents :: "nat \<Rightarrow> uuid option \<Rightarrow> inc_store \<Rightarrow> (uuid \<times> text_body) list" where
  "messages_without_incidents limit after S =
     map (\<lambda>m. (mg_id m, mg_body m)) (take limit (order_asc mg_id
       (filter (\<lambda>m. mg_id m \<notin> in_message_id ` set (ic_incidents S) \<and> (case after of None \<Rightarrow> True | Some a \<Rightarrow> a < mg_id m)) (ic_messages S))))"

section \<open>Victim countries\<close>

definition messages_needing_geo :: "nat \<Rightarrow> inc_store \<Rightarrow> (uuid \<times> text_body \<times> string option) list" where
  "messages_needing_geo limit S =
     take limit (map (\<lambda>m. (mg_id m, mg_body m, (case tbl_get fst (mg_group_id m) (ic_groups S) of None \<Rightarrow> None | Some g \<Rightarrow> fst (snd g))))
       (order_asc mg_id (filter (\<lambda>m. (mg_id m \<in> in_message_id ` set (ic_incidents S)
            \<or> (\<exists>l\<in>set (ic_labels S). il_message_id l = mg_id m \<and> il_labels l \<noteq> []))
          \<and> mg_id m \<notin> ge_message_id ` set (ic_geo S)) (ic_messages S))))"

definition put_message_geo_bulk :: "geo_row list \<Rightarrow> inc_store \<Rightarrow> (unit, inc_store) outcome" where
  "put_message_geo_bulk rows S =
     (if rows = [] then (Inr (), S)
      else if \<not> list_all (\<lambda>r. tbl_has mg_id (ge_message_id r) (ic_messages S)) rows \<or> \<not> keyed ge_message_id (ic_geo S @ rows)
      then (Inl (IntegrityError ''message_geo''), S)
      else (Inr (), S\<lparr>ic_geo := ic_geo S @ rows\<rparr>))"

definition message_geo_by_message_ids :: "uuid list \<Rightarrow> inc_store \<Rightarrow> uuid \<rightharpoonup> geo_row" where
  "message_geo_by_message_ids ids S = (\<lambda>i. if i \<in> set ids then tbl_get ge_message_id i (ic_geo S) else None)"

section \<open>Corrections\<close>

definition set_incident_label ::
  "uuid \<Rightarrow> string list \<Rightarrow> string \<Rightarrow> string option \<Rightarrow> time \<Rightarrow> inc_store \<Rightarrow> (label_row, inc_store) outcome" where
  "set_incident_label i labels decided_by reason decided_at S =
     (let row = \<lparr>il_message_id = i, il_labels = labels, il_reason = reason, il_decided_by = decided_by, il_decided_at = decided_at\<rparr>
      in case tbl_get il_message_id i (ic_labels S) of
           Some _ \<Rightarrow> (Inr row, S\<lparr>ic_labels := tbl_save il_message_id row (ic_labels S)\<rparr>)
         | None \<Rightarrow> if \<not> tbl_has mg_id i (ic_messages S) then (Inl (IntegrityError ''incident_label''), S)
                   else (Inr row, S\<lparr>ic_labels := ic_labels S @ [row]\<rparr>))"

definition incident_labels_by_message_ids :: "uuid list \<Rightarrow> inc_store \<Rightarrow> uuid \<rightharpoonup> label_row" where
  "incident_labels_by_message_ids ids S = (\<lambda>i. if i \<in> set ids then tbl_get il_message_id i (ic_labels S) else None)"

text \<open>The labels of the latest run of each message.\<close>

definition incident_labels_for_messages :: "uuid list \<Rightarrow> inc_store \<Rightarrow> uuid \<rightharpoonup> string list" where
  "incident_labels_for_messages ids S =
     (\<lambda>i. map_option in_labels (find (\<lambda>r. in_message_id r = i)
        (order_desc in_classified_at (filter (\<lambda>r. in_message_id r \<in> set ids) (ic_incidents S)))))"

definition all_incident_labels :: "inc_store \<Rightarrow> label_row list" where
  "all_incident_labels S = ic_labels S"

section \<open>Rules\<close>

definition insert_rule :: "rule_row \<Rightarrow> inc_store \<Rightarrow> (unit, inc_store) outcome" where
  "insert_rule r S =
     (if tbl_has ir_id (ir_id r) (ic_rules S) \<or> tbl_has ir_name (ir_name r) (ic_rules S) then (Inl (IntegrityError ''incident_rule''), S)
      else (Inr (), S\<lparr>ic_rules := ic_rules S @ [r]\<rparr>))"

definition list_rules :: "bool \<Rightarrow> inc_store \<Rightarrow> rule_row list" where
  "list_rules enabled_only S = order_asc ir_name (filter (\<lambda>r. enabled_only \<longrightarrow> ir_enabled r) (ic_rules S))"

definition get_rule :: "uuid \<Rightarrow> inc_store \<Rightarrow> rule_row option" where
  "get_rule i S = tbl_get ir_id i (ic_rules S)"

definition update_rule :: "uuid \<Rightarrow> (rule_row \<Rightarrow> rule_row) \<Rightarrow> inc_store \<Rightarrow> bool \<times> inc_store" where
  "update_rule i f S =
     (case get_rule i S of None \<Rightarrow> (False, S) | Some r \<Rightarrow> (True, S\<lparr>ic_rules := tbl_save ir_id (f r) (ic_rules S)\<rparr>))"

definition delete_rule :: "uuid \<Rightarrow> inc_store \<Rightarrow> bool \<times> inc_store" where
  "delete_rule i S = (case get_rule i S of None \<Rightarrow> (False, S) | Some _ \<Rightarrow> (True, S\<lparr>ic_rules := tbl_delete ir_id i (ic_rules S)\<rparr>))"

section \<open>Message lookups of the service\<close>

definition messages_by_evidence_refs :: "string list \<Rightarrow> inc_store \<Rightarrow> string \<rightharpoonup> uuid \<times> text_body" where
  "messages_by_evidence_refs refs S =
     (\<lambda>ref. if ref \<in> set refs then map_option (\<lambda>m. (mg_id m, mg_body m)) (tbl_get mg_evidence_ref ref (ic_messages S)) else None)"

definition attachment_files :: "uuid list \<Rightarrow> inc_store \<Rightarrow> uuid \<rightharpoonup> text_body list" where
  "attachment_files ids S =
     (\<lambda>i. let fs = List.map_filter snd (filter (\<lambda>(j, f). j = i \<and> i \<in> set ids \<and> f \<noteq> None \<and> f \<noteq> Some []) (ic_attachments S))
          in if fs = [] then None else Some fs)"

definition bodies_by_message_ids :: "uuid list \<Rightarrow> inc_store \<Rightarrow> uuid \<rightharpoonup> text_body" where
  "bodies_by_message_ids ids S = (\<lambda>i. if i \<in> set ids then map_option mg_body (tbl_get mg_id i (ic_messages S)) else None)"

end
