(* ===== verification/Incident_Service.thy ===== *)
theory Incident_Service
  imports Incidents
begin

text \<open>
  The users of the incident tables: the batching service on the bus (\<open>incidents/service.py\<close>), the one-shot backfill
  (\<open>incidents/backfill.py\<close>), the export of corrections (\<open>incidents/export.py\<close>) and the routes of
  \<open>api/v1/incidents\<close>. The parsed envelope of a raw message is its evidence reference.
\<close>

section \<open>The service\<close>

record inc_service =
  sv_batch_size :: nat
  sv_buffer :: "string list"
  sv_rules :: "compiled_rule list"
  sv_rules_loaded_at :: time

definition RULE_REFRESH :: int where "RULE_REFRESH = seconds 30"

text \<open>\<open>list_incident_rules\<close> fails when \<open>db_ok\<close> is false: the rules in force are kept.\<close>

definition refresh_rules :: "inc_env \<Rightarrow> bool \<Rightarrow> time \<Rightarrow> inc_store \<Rightarrow> inc_service \<Rightarrow> inc_service" where
  "refresh_rules V db_ok now S sv =
     (if \<not> db_ok then sv else sv\<lparr>sv_rules := compile_rules V (list_rules True S), sv_rules_loaded_at := now\<rparr>)"

definition maybe_refresh_rules :: "inc_env \<Rightarrow> bool \<Rightarrow> time \<Rightarrow> inc_store \<Rightarrow> inc_service \<Rightarrow> inc_service" where
  "maybe_refresh_rules V db_ok now S sv =
     (if RULE_REFRESH \<le> now - sv_rules_loaded_at sv then refresh_rules V db_ok now S sv else sv)"

definition emit_incident :: "inc_env \<Rightarrow> uuid option \<Rightarrow> uuid \<Rightarrow> string \<Rightarrow> string \<Rightarrow> uuid option \<Rightarrow> (string \<times> jval) list \<Rightarrow> time \<Rightarrow> inc_store
   \<Rightarrow> (unit, inc_store) outcome" where
  "emit_incident V user audit_id event kind subject payload now S =
     (if \<not> em_bus_ok (ie_emit V) then (Inl (RuntimeError ''audit publish failed''), S)
      else (case append_audit (em_env (ie_emit V)) (build_audit_row audit_id event user kind subject payload now (em_ctx (ie_emit V))) (ic_audit S) of
              (Inl e, A) \<Rightarrow> (Inl e, S\<lparr>ic_audit := A\<rparr>)
            | (Inr _, A) \<Rightarrow> (Inr (), S\<lparr>ic_audit := A\<rparr>)))"

definition fired_set :: "inc_env \<Rightarrow> compiled_rule list \<Rightarrow> text_body \<Rightarrow> head_score list \<Rightarrow> string set" where
  "fired_set V rs body scores = model_fired scores \<union> prefilter_labels V body \<union> match_labels V body rs"

definition incident_of :: "inc_env \<Rightarrow> compiled_rule list \<Rightarrow> uuid \<Rightarrow> uuid \<Rightarrow> text_body \<Rightarrow> head_score list \<Rightarrow> time \<Rightarrow> incident_row" where
  "incident_of V rs new_id mid body scores now =
     \<lparr>in_id = new_id, in_message_id = mid, in_labels = head_order scores (fired_set V rs body scores),
      in_scores = map (\<lambda>s. (hs_label s, hs_prob s)) scores, in_model_version = ie_model_version V, in_classified_at = now\<rparr>"

text \<open>
  The loop over the scored messages of a flush: a message on which nothing fired is passed over, the others are
  audited one by one. \<open>ids\<close> and \<open>aids\<close> are the fresh ids by position.
\<close>

fun detect_loop :: "inc_env \<Rightarrow> compiled_rule list \<Rightarrow> time \<Rightarrow> (nat \<Rightarrow> uuid) \<Rightarrow> (nat \<Rightarrow> uuid) \<Rightarrow> nat
   \<Rightarrow> ((string \<times> uuid \<times> text_body) \<times> head_score list) list \<Rightarrow> (string \<times> incident_row) list \<Rightarrow> inc_store
   \<Rightarrow> ((string \<times> incident_row) list, inc_store) outcome" where
  "detect_loop V rs now ids aids k [] rows S = (Inr rows, S)"
| "detect_loop V rs now ids aids k (((ref, mid, body), scores) # rest) rows S =
     (let fired = fired_set V rs body scores in
      if fired = {} then detect_loop V rs now ids aids (Suc k) rest rows S
      else and_then (emit_incident V None (aids k) ''incident_detected'' ''evidence'' None
             [(''evidence_ref'', JStr ref), (''labels'', JList (map JStr (sorted_list_of_set fired))),
              (''reason'', JStr ''incident_classification'')] now S)
           (\<lambda>_ S1. detect_loop V rs now ids aids (Suc k) rest (rows @ [(ref, incident_of V rs (ids k) mid body scores now)]) S1))"

text \<open>A publish that fails is logged and does not undo the stored incident.\<close>

definition publish_incidents :: "inc_env \<Rightarrow> (string \<times> incident_row) list \<Rightarrow> inc_store \<Rightarrow> inc_store" where
  "publish_incidents V rows S = S\<lparr>ic_published := ic_published S @ filter (\<lambda>(ref, r). ie_publish_ok V ref) rows\<rparr>"

definition flush :: "inc_env \<Rightarrow> time \<Rightarrow> (nat \<Rightarrow> uuid) \<Rightarrow> (nat \<Rightarrow> uuid) \<Rightarrow> inc_service \<times> inc_store \<Rightarrow> (unit, inc_service \<times> inc_store) outcome" where
  "flush V now ids aids P =
     (case P of (sv, S) \<Rightarrow>
        if sv_buffer sv = [] then (Inr (), P)
        else
          let refs = dedup_first (sv_buffer sv);
              sv1 = sv\<lparr>sv_buffer := []\<rparr>;
              by_ref = messages_by_evidence_refs refs S;
              ordered = List.map_filter (\<lambda>ref. map_option (\<lambda>m. (ref, m)) (by_ref ref)) refs
          in if ordered = [] then (Inr (), (sv1, S))
             else
               let att = attachment_files (map (\<lambda>(_, mid, _). mid) ordered) S
               in case classify_batch V (map (\<lambda>(_, mid, body). enrich_text body (att mid)) ordered) of
                    Inl e \<Rightarrow> (Inl e, (sv1, S))
                  | Inr scored \<Rightarrow>
                      (case detect_loop V (sv_rules sv) now ids aids 0 (zip ordered scored) [] S of
                         (Inl e, S1) \<Rightarrow> (Inl e, (sv1, S1))
                       | (Inr rows, S1) \<Rightarrow>
                           (case put_incidents_bulk (map snd rows) S1 of
                              (Inl e, S2) \<Rightarrow> (Inl e, (sv1, S2))
                            | (Inr _, S2) \<Rightarrow> (Inr (), (sv1, publish_incidents V rows S2)))))"

text \<open>The bus handler: \<open>None\<close> is an envelope that does not parse.\<close>

definition on_raw_message :: "inc_env \<Rightarrow> string option \<Rightarrow> time \<Rightarrow> (nat \<Rightarrow> uuid) \<Rightarrow> (nat \<Rightarrow> uuid) \<Rightarrow> inc_service \<times> inc_store
   \<Rightarrow> (unit, inc_service \<times> inc_store) outcome" where
  "on_raw_message V env now ids aids P =
     (case P of (sv, S) \<Rightarrow> case env of
        None \<Rightarrow> (Inr (), P)
      | Some ref \<Rightarrow>
          let sv1 = sv\<lparr>sv_buffer := sv_buffer sv @ [ref]\<rparr>
          in if sv_batch_size sv \<le> length (sv_buffer sv1) then flush V now ids aids (sv1, S) else (Inr (), (sv1, S)))"

definition service_tick :: "inc_env \<Rightarrow> bool \<Rightarrow> time \<Rightarrow> (nat \<Rightarrow> uuid) \<Rightarrow> (nat \<Rightarrow> uuid) \<Rightarrow> inc_service \<times> inc_store
   \<Rightarrow> (unit, inc_service \<times> inc_store) outcome" where
  "service_tick V db_ok now ids aids P =
     (case P of (sv, S) \<Rightarrow> flush V now ids aids (maybe_refresh_rules V db_ok now S sv, S))"

definition service_shutdown :: "inc_env \<Rightarrow> time \<Rightarrow> (nat \<Rightarrow> uuid) \<Rightarrow> (nat \<Rightarrow> uuid) \<Rightarrow> inc_service \<times> inc_store
   \<Rightarrow> (unit, inc_service \<times> inc_store) outcome" where
  "service_shutdown V now ids aids P = flush V now ids aids P"

section \<open>Backfill\<close>

text \<open>One page of the backfill loop; \<open>None\<close> ends it. The state is the cursor, the counts and the store.\<close>

record backfill_state =
  bf_after :: "uuid option"
  bf_scanned :: nat
  bf_fired :: nat

definition page_rows :: "inc_env \<Rightarrow> compiled_rule list \<Rightarrow> time \<Rightarrow> (nat \<Rightarrow> uuid) \<Rightarrow> ((uuid \<times> text_body) \<times> head_score list) list \<Rightarrow> incident_row list" where
  "page_rows V rs now ids scored =
     map (\<lambda>(k, (mid, body), scores). incident_of V rs (ids k) mid body scores now)
       (filter (\<lambda>(k, (mid, body), scores). fired_set V rs body scores \<noteq> {}) (enumerate 0 scored))"

fun incident_backfill_loop :: "nat \<Rightarrow> inc_env \<Rightarrow> compiled_rule list \<Rightarrow> nat \<Rightarrow> nat option \<Rightarrow> (nat \<Rightarrow> time) \<Rightarrow> (nat \<Rightarrow> nat \<Rightarrow> uuid) \<Rightarrow> backfill_state \<Rightarrow> inc_store
   \<Rightarrow> (nat \<times> nat, inc_store) outcome option" where
  "incident_backfill_loop 0 V rs batch limit clock ids B S = None"
| "incident_backfill_loop (Suc n) V rs batch limit clock ids B S =
     (let size = (case limit of None \<Rightarrow> batch | Some l \<Rightarrow> min batch (l - bf_scanned B));
          rows = messages_without_incidents size (bf_after B) S
      in if size = 0 \<or> rows = [] then Some (Inr (bf_scanned B, bf_fired B), S)
         else
           let att = attachment_files (map fst rows) S
           in case classify_batch V (map (\<lambda>(mid, body). enrich_text body (att mid)) rows) of
                Inl e \<Rightarrow> Some (Inl e, S)
              | Inr scored \<Rightarrow>
                  let incidents = page_rows V rs (clock n) (ids n) (zip rows scored)
                  in case put_incidents_bulk incidents S of
                       (Inl e, S1) \<Rightarrow> Some (Inl e, S1)
                     | (Inr _, S1) \<Rightarrow> incident_backfill_loop n V rs batch limit clock ids
                         \<lparr>bf_after = Some (fst (last rows)), bf_scanned = bf_scanned B + length rows, bf_fired = bf_fired B + length incidents\<rparr> S1)"

definition run_backfill :: "nat \<Rightarrow> inc_env \<Rightarrow> nat \<Rightarrow> nat option \<Rightarrow> (nat \<Rightarrow> time) \<Rightarrow> (nat \<Rightarrow> nat \<Rightarrow> uuid) \<Rightarrow> inc_store
   \<Rightarrow> (nat \<times> nat, inc_store) outcome option" where
  "run_backfill n V batch limit clock ids S =
     incident_backfill_loop n V (compile_rules V (list_rules True S)) batch limit clock ids \<lparr>bf_after = None, bf_scanned = 0, bf_fired = 0\<rparr> S"

section \<open>Export\<close>

definition export_operator_labels :: "inc_store \<Rightarrow> (text_body \<times> label_row) list" where
  "export_operator_labels S =
     (let rows = all_incident_labels S; bodies = bodies_by_message_ids (map il_message_id rows) S
      in List.map_filter (\<lambda>r. map_option (\<lambda>t. (t, r)) (bodies (il_message_id r))) rows)"

section \<open>Routes\<close>

definition validate_pattern_and_label :: "inc_env \<Rightarrow> string \<Rightarrow> string \<Rightarrow> exn + unit" where
  "validate_pattern_and_label V pattern label =
     (if \<not> ie_compiles V pattern then Inl (UnprocessableError ''invalid RE2 pattern'')
      else if label \<notin> TAXONOMY_LABELS then Inl (UnprocessableError ''label must be a taxonomy label'')
      else Inr ())"

definition validate_name :: "string \<Rightarrow> exn + unit" where
  "validate_name name = (if name \<in> BUILTIN_SIGNAL_NAMES then Inl (ConflictError ''collides with a built-in prefilter signal'') else Inr ())"

definition create_incident_rule :: "inc_env \<Rightarrow> rule_row \<Rightarrow> inc_store \<Rightarrow> (rule_row, inc_store) outcome" where
  "create_incident_rule V r S =
     (case validate_pattern_and_label V (ir_pattern r) (ir_label r) of
        Inl e \<Rightarrow> (Inl e, S)
      | Inr _ \<Rightarrow>
          (case validate_name (ir_name r) of
             Inl e \<Rightarrow> (Inl e, S)
           | Inr _ \<Rightarrow>
               if \<exists>x\<in>set (list_rules False S). ir_name x = ir_name r then (Inl (ConflictError ''rule name already exists''), S)
               else (case insert_rule r S of (Inl e, S1) \<Rightarrow> (Inl e, S1) | (Inr _, S1) \<Rightarrow> (Inr r, S1))))"

record rule_patch =
  rp_pattern :: "string option"
  rp_label :: "string option"
  rp_weight :: "int option"
  rp_enabled :: "bool option"
  rp_description :: "string option"

definition patch_rule :: "rule_patch \<Rightarrow> rule_row \<Rightarrow> rule_row" where
  "patch_rule p r =
     r\<lparr>ir_pattern := (case rp_pattern p of None \<Rightarrow> ir_pattern r | Some x \<Rightarrow> x),
       ir_label := (case rp_label p of None \<Rightarrow> ir_label r | Some x \<Rightarrow> x),
       ir_weight := (case rp_weight p of None \<Rightarrow> ir_weight r | Some x \<Rightarrow> x),
       ir_enabled := (case rp_enabled p of None \<Rightarrow> ir_enabled r | Some x \<Rightarrow> x),
       ir_description := (case rp_description p of None \<Rightarrow> ir_description r | Some x \<Rightarrow> Some x)\<rparr>"

definition update_incident_rule :: "inc_env \<Rightarrow> uuid \<Rightarrow> rule_patch \<Rightarrow> inc_store \<Rightarrow> (rule_row option, inc_store) outcome" where
  "update_incident_rule V i p S =
     (if rp_pattern p = None \<and> rp_label p = None \<and> rp_weight p = None \<and> rp_enabled p = None \<and> rp_description p = None
      then (Inl (UnprocessableError ''no fields to update''), S)
      else if (case rp_pattern p of None \<Rightarrow> False | Some x \<Rightarrow> \<not> ie_compiles V x) then (Inl (UnprocessableError ''invalid RE2 pattern''), S)
      else if (case rp_label p of None \<Rightarrow> False | Some x \<Rightarrow> x \<notin> TAXONOMY_LABELS) then (Inl (UnprocessableError ''label must be a taxonomy label''), S)
      else (case update_rule i (patch_rule p) S of
              (False, S1) \<Rightarrow> (Inl (ResourceNotFound ''incident rule''), S1)
            | (True, S1) \<Rightarrow> (Inr (get_rule i S1), S1)))"

definition delete_incident_rule :: "uuid \<Rightarrow> inc_store \<Rightarrow> (unit, inc_store) outcome" where
  "delete_incident_rule i S =
     (case delete_rule i S of (False, S1) \<Rightarrow> (Inl (ResourceNotFound ''incident rule''), S1) | (True, S1) \<Rightarrow> (Inr (), S1))"

definition list_incident_rules :: "bool \<Rightarrow> inc_store \<Rightarrow> rule_row list" where
  "list_incident_rules enabled_only S = list_rules enabled_only S"

definition relabel_incident :: "inc_env \<Rightarrow> uuid \<Rightarrow> string list \<Rightarrow> string option \<Rightarrow> string \<Rightarrow> uuid \<Rightarrow> uuid \<Rightarrow> time \<Rightarrow> inc_store
   \<Rightarrow> (label_row, inc_store) outcome" where
  "relabel_incident V i labels reason username user audit_id now S =
     (if \<exists>l\<in>set labels. l \<notin> TAXONOMY_LABELS then (Inl (UnprocessableError ''unknown taxonomy label''), S)
      else and_then (set_incident_label i (dedup_first labels) username reason now S) (\<lambda>row S1.
           and_then (emit_incident V (Some user) audit_id ''eyenet.audit.incident.relabeled'' ''message'' (Some i)
               [(''labels'', JList (map JStr (il_labels row))), (''reason'', jopt JStr (il_reason row))] now S1) (\<lambda>_ S2.
             (Inr row, S2))))"

text \<open>One page of the feed: the rows, whether there is a next page, and the total when it is asked for.\<close>

definition list_incidents :: "inc_env \<Rightarrow> feed_filter \<Rightarrow> nat \<Rightarrow> nat \<Rightarrow> bool \<Rightarrow> inc_store \<Rightarrow> incident_row list \<times> nat option \<times> nat option" where
  "list_incidents V F limit offset include_total S =
     (let G = F\<lparr>ff_exclude_bodyless := True\<rparr>; rows = recent_incidents V G (limit + 1) offset S
      in (take limit rows, if limit < length rows then Some (offset + limit) else None,
          if include_total then Some (count_incidents V G S) else None))"

end
