(* ===== verification/Incident_Properties.thy ===== *)
theory Incident_Properties
  imports "HOL-Library.Countable" Incident_Service Discovery_Properties
begin

text \<open>
  What holds of the incident tables over every run of the service, the backfill and the routes; what the backfill
  covers; and where a detection loses its label.
\<close>

section \<open>Frames\<close>

lemma same_audit: "\<exists>A. S = S\<lparr>ic_audit := A\<rparr>"
  by (rule exI [of _ "ic_audit S"]) simp

lemma emit_incident_frame:
  assumes "emit_incident V u a ev k s pl now S = (x, S')"
  shows "\<exists>A. S' = S\<lparr>ic_audit := A\<rparr>"
  using assms same_audit [of S] by (auto simp only: emit_incident_def split: if_splits prod.splits sum.splits)

lemma detect_frame: "detect_loop V rs now ids aids k items rows S = (x, S') \<Longrightarrow> \<exists>A. S' = S\<lparr>ic_audit := A\<rparr>"
proof (induction V rs now ids aids k items rows S rule: detect_loop.induct)
  case (1 V rs now ids aids k rows S)
  then show ?case using same_audit [of S] by simp
next
  case (2 V rs now ids aids k ref mid body scores rest rows S)
  show ?case
  proof (cases "fired_set V rs body scores = {}")
    case True
    then show ?thesis using "2.IH"(1) "2.prems" by (simp add: Let_def)
  next
    case False
    obtain y S1 where e: "emit_incident V None (aids k) ''incident_detected'' ''evidence'' None
             [(''evidence_ref'', JStr ref), (''labels'', JList (map JStr (sorted_list_of_set (fired_set V rs body scores)))),
              (''reason'', JStr ''incident_classification'')] now S = (y, S1)" by fastforce
    then obtain A where A: "S1 = S\<lparr>ic_audit := A\<rparr>" using emit_incident_frame by blast
    show ?thesis
    proof (cases y)
      case (Inl err)
      then have "S' = S1" using "2.prems" False e by (simp add: Let_def and_then_def)
      then show ?thesis using A by blast
    next
      case (Inr u)
      then have "detect_loop V rs now ids aids (Suc k) rest (rows @ [(ref, incident_of V rs (ids k) mid body scores now)]) S1 = (x, S')"
        using "2.prems" False e by (simp add: Let_def and_then_def)
      then obtain B where "S' = S1\<lparr>ic_audit := B\<rparr>" using "2.IH"(2) False by blast
      then show ?thesis using A by auto
    qed
  qed
qed

text \<open>The rows a detection loop collects: from its input, in its order.\<close>

definition from_items :: "(string \<times> incident_row) list \<Rightarrow> ((string \<times> uuid \<times> text_body) \<times> head_score list) list \<Rightarrow> bool" where
  "from_items found items \<longleftrightarrow> (\<forall>p\<in>set found. (fst p, in_message_id (snd p)) \<in> (\<lambda>x. (fst (fst x), fst (snd (fst x)))) ` set items)"

lemma detect_rows:
  "detect_loop V rs now ids aids k items rows S = (Inr out, S') \<Longrightarrow>
   \<exists>found. out = rows @ found \<and> from_items found items"
proof (induction V rs now ids aids k items rows S rule: detect_loop.induct)
  case (2 V rs now ids aids k ref mid body scores rest rows S)
  show ?case
  proof (cases "fired_set V rs body scores = {}")
    case True
    then obtain found where "out = rows @ found" "from_items found rest"
      using "2.IH"(1) "2.prems" by (auto simp: Let_def)
    then show ?thesis by (intro exI [of _ found]) (auto simp: from_items_def)
  next
    case False
    obtain y S1 where e: "emit_incident V None (aids k) ''incident_detected'' ''evidence'' None
             [(''evidence_ref'', JStr ref), (''labels'', JList (map JStr (sorted_list_of_set (fired_set V rs body scores)))),
              (''reason'', JStr ''incident_classification'')] now S = (y, S1)" by fastforce
    then obtain u where y: "y = Inr u" and d: "detect_loop V rs now ids aids (Suc k) rest (rows @ [(ref, incident_of V rs (ids k) mid body scores now)]) S1 = (Inr out, S')"
      using "2.prems" False by (cases y) (auto simp: Let_def and_then_def)
    then obtain found where "out = (rows @ [(ref, incident_of V rs (ids k) mid body scores now)]) @ found"
        "from_items found rest"
      using "2.IH"(2) [OF refl False] by blast
    then show ?thesis
      by (intro exI [of _ "(ref, incident_of V rs (ids k) mid body scores now) # found"]) (auto simp: incident_of_def from_items_def)
  qed
qed (simp add: from_items_def)

section \<open>The invariant\<close>

definition rule_ok :: "inc_env \<Rightarrow> rule_row \<Rightarrow> bool" where
  "rule_ok V r \<longleftrightarrow> ie_compiles V (ir_pattern r) \<and> ir_label r \<in> TAXONOMY_LABELS \<and> ir_name r \<notin> BUILTIN_SIGNAL_NAMES"

definition inc_inv :: "inc_env \<Rightarrow> inc_store \<Rightarrow> bool" where
  "inc_inv V S \<longleftrightarrow>
     (\<forall>(ref, r)\<in>set (ic_published S). r \<in> set (ic_incidents S)
        \<and> (\<exists>m\<in>set (ic_messages S). mg_evidence_ref m = ref \<and> mg_id m = in_message_id r))
     \<and> keyed in_id (ic_incidents S) \<and> (\<forall>r\<in>set (ic_incidents S). tbl_has mg_id (in_message_id r) (ic_messages S))
     \<and> keyed il_message_id (ic_labels S) \<and> (\<forall>l\<in>set (ic_labels S). set (il_labels l) \<subseteq> TAXONOMY_LABELS \<and> distinct (il_labels l))
     \<and> keyed ir_id (ic_rules S) \<and> keyed ir_name (ic_rules S) \<and> (\<forall>r\<in>set (ic_rules S). rule_ok V r)"

text \<open>What an operation may change, besides the audit log.\<close>

definition inc_grows :: "inc_store \<Rightarrow> inc_store \<Rightarrow> bool" where
  "inc_grows S S' \<longleftrightarrow> prefix (ic_incidents S) (ic_incidents S') \<and> prefix (ic_published S) (ic_published S') \<and> prefix (ic_messages S) (ic_messages S')"

lemma inc_grows_refl [simp]: "inc_grows S S" "inc_grows S (S\<lparr>ic_audit := A\<rparr>)" "inc_grows S (S\<lparr>ic_rules := rs\<rparr>)" "inc_grows S (S\<lparr>ic_labels := ls\<rparr>)"
  by (simp_all add: inc_grows_def)

lemma inc_grows_trans: "inc_grows S T \<Longrightarrow> inc_grows T U \<Longrightarrow> inc_grows S U"
  unfolding inc_grows_def by (meson prefix_order.trans)

lemma inc_inv_audit [simp]: "inc_inv V (S\<lparr>ic_audit := A\<rparr>) = inc_inv V S"
  by (simp add: inc_inv_def)

lemma put_incidents_facts:
  assumes "put_incidents_bulk rows S = (x, S')" and "inc_inv V S"
  shows "inc_inv V S'" and "inc_grows S S'" and "x = Inr u \<Longrightarrow> ic_incidents S' = ic_incidents S @ rows"
    and "ic_messages S' = ic_messages S" and "ic_published S' = ic_published S"
  using assms by (auto simp: put_incidents_bulk_def inc_inv_def inc_grows_def list_all_iff split: if_splits)

lemma publish_facts:
  assumes "inc_inv V S" and "\<forall>(ref, r)\<in>set rows. r \<in> set (ic_incidents S) \<and> (\<exists>m\<in>set (ic_messages S). mg_evidence_ref m = ref \<and> mg_id m = in_message_id r)"
  shows "inc_inv V (publish_incidents E rows S)" and "inc_grows S (publish_incidents E rows S)"
  using assms by (auto simp: publish_incidents_def inc_inv_def inc_grows_def)

lemma tbl_get_mem: "tbl_get f k rows = Some r \<Longrightarrow> r \<in> set rows \<and> f r = k"
  by (rule tbl_get_SomeD)

lemma flush_keeps:
  assumes "flush V now ids aids (sv, S) = (x, (sv', S'))" and "inc_inv V S"
  shows "inc_inv V S' \<and> inc_grows S S'"
proof -
  let ?refs = "dedup_first (sv_buffer sv)"
  let ?by = "messages_by_evidence_refs ?refs S"
  let ?ord = "List.map_filter (\<lambda>ref. map_option (\<lambda>m. (ref, m)) (?by ref)) ?refs"
  let ?att = "attachment_files (map (\<lambda>(_, mid, _). mid) ?ord) S"
  let ?cls = "classify_batch V (map (\<lambda>(_, mid, body). enrich_text body (?att mid)) ?ord)"
  consider "S' = S" | scored where "?cls = Inr scored" "sv_buffer sv \<noteq> []" "?ord \<noteq> []"
    using assms(1) by (auto simp: flush_def Let_def split: if_splits sum.splits)
  then show ?thesis
  proof cases
    case 1
    then show ?thesis using assms(2) by simp
  next
    case (2 scored)
    obtain y S1 where d: "detect_loop V (sv_rules sv) now ids aids 0 (zip ?ord scored) [] S = (y, S1)" by fastforce
    obtain A where A: "S1 = S\<lparr>ic_audit := A\<rparr>" using detect_frame [OF d] by blast
    then have i1: "inc_inv V S1" "inc_grows S S1" using assms(2) by simp_all
    show ?thesis
    proof (cases y)
      case (Inl e)
      then have "S' = S1" using assms(1) 2 d by (simp add: flush_def Let_def)
      then show ?thesis using i1 by simp
    next
      case (Inr rows)
      obtain z S2 where p: "put_incidents_bulk (map snd rows) S1 = (z, S2)" by fastforce
      note pf = put_incidents_facts [OF p i1(1)]
      show ?thesis
      proof (cases z)
        case (Inl e)
        then have "S' = S2" using assms(1) 2 d Inr p by (simp add: flush_def Let_def)
        then show ?thesis using pf(1,2) i1(2) inc_grows_trans by blast
      next
        case z: (Inr u)
        then have S': "S' = publish_incidents V rows S2" using assms(1) 2 d Inr p by (simp add: flush_def Let_def)
        obtain found where m: "rows = found" "from_items found (zip ?ord scored)"
          using detect_rows [OF d [unfolded Inr]] by auto
        have "\<exists>m\<in>set (ic_messages S2). mg_evidence_ref m = ref \<and> mg_id m = in_message_id r" if "(ref, r) \<in> set rows" for ref r
        proof -
          have "(ref, in_message_id r) \<in> (\<lambda>x. (fst (fst x), fst (snd (fst x)))) ` set (zip ?ord scored)"
            using bspec [OF m(2) [unfolded from_items_def], of "(ref, r)"] m(1) that by simp
          then obtain body where "(ref, in_message_id r, body) \<in> set ?ord" by (auto dest: set_zip_leftD)
          then have "?by ref = Some (in_message_id r, body)" by (auto simp: List.map_filter_def)
          then obtain m where "tbl_get mg_evidence_ref ref (ic_messages S) = Some m" "mg_id m = in_message_id r"
            by (auto simp: messages_by_evidence_refs_def split: if_splits)
          then show ?thesis using tbl_get_mem pf(4) A by fastforce
        qed
        moreover have "r \<in> set (ic_incidents S2)" if "(ref, r) \<in> set rows" for ref r
          using pf(3) [OF z] that by force
        ultimately have "inc_inv V S'" "inc_grows S2 S'" unfolding S' using publish_facts [OF pf(1)] by blast+
        then show ?thesis using pf(2) i1(2) inc_grows_trans by blast
      qed
    qed
  qed
qed

section \<open>Every operation keeps it\<close>

lemma backfill_keeps: "incident_backfill_loop n V rs batch limit clock ids B S = Some (x, S') \<Longrightarrow> inc_inv W S \<Longrightarrow> inc_inv W S' \<and> inc_grows S S'"
proof (induction n arbitrary: B S)
  case (Suc n)
  let ?size = "case limit of None \<Rightarrow> batch | Some l \<Rightarrow> min batch (l - bf_scanned B)"
  let ?rows = "messages_without_incidents ?size (bf_after B) S"
  let ?cls = "classify_batch V (map (\<lambda>(mid, body). enrich_text body (attachment_files (map fst ?rows) S mid)) ?rows)"
  consider "S' = S" | scored where "?cls = Inr scored" "?size \<noteq> 0" "?rows \<noteq> []"
    using Suc.prems(1) by (auto simp: Let_def split: if_splits sum.splits)
  then show ?case
  proof cases
    case 1
    then show ?thesis using Suc.prems(2) by simp
  next
    case (2 scored)
    let ?inc = "page_rows V rs (clock n) (ids n) (zip ?rows scored)"
    obtain z S1 where p: "put_incidents_bulk ?inc S = (z, S1)" by fastforce
    note pf = put_incidents_facts [OF p Suc.prems(2)]
    show ?thesis
    proof (cases z)
      case (Inl e)
      then have "S' = S1" using Suc.prems(1) 2 p by (simp add: Let_def)
      then show ?thesis using pf by simp
    next
      case (Inr u)
      then have "\<exists>B'. incident_backfill_loop n V rs batch limit clock ids B' S1 = Some (x, S')" using Suc.prems(1) 2 p by (auto simp: Let_def)
      then show ?thesis using Suc.IH pf(1,2) inc_grows_trans by blast
    qed
  qed
qed simp

lemma keyed_save: "keyed k rows \<Longrightarrow> keyed k (tbl_save k x rows)"
proof -
  have "map k (tbl_save k x rows) = map k rows" by (simp add: tbl_save_def)
  then show "keyed k rows \<Longrightarrow> keyed k (tbl_save k x rows)" by (simp add: keyed_def)
qed

lemma dedup_facts: "distinct (dedup_first xs)" "set (dedup_first xs) = set xs"
  by (simp_all add: dedup_first_def)

lemma inc_inv_labels:
  assumes "inc_inv V S" and "keyed il_message_id ls" and "\<forall>l\<in>set ls. set (il_labels l) \<subseteq> TAXONOMY_LABELS \<and> distinct (il_labels l)"
  shows "inc_inv V (S\<lparr>ic_labels := ls\<rparr>)"
  using assms by (simp add: inc_inv_def)

lemma inc_inv_rules:
  assumes "inc_inv V S" and "keyed ir_id rs" and "keyed ir_name rs" and "\<forall>r\<in>set rs. rule_ok V r"
  shows "inc_inv V (S\<lparr>ic_rules := rs\<rparr>)"
  using assms by (simp add: inc_inv_def)

lemma inc_inv_parts:
  assumes "inc_inv V S"
  shows "keyed il_message_id (ic_labels S)" and "l \<in> set (ic_labels S) \<Longrightarrow> set (il_labels l) \<subseteq> TAXONOMY_LABELS \<and> distinct (il_labels l)"
    and "keyed ir_id (ic_rules S)" and "keyed ir_name (ic_rules S)" and "r \<in> set (ic_rules S) \<Longrightarrow> rule_ok V r"
  using assms by (auto simp: inc_inv_def)

lemma inc_saved: "x' \<in> set (tbl_save k x rows) \<Longrightarrow> x' = x \<or> x' \<in> set rows"
  by (auto simp: tbl_save_def)

lemma relabel_keeps:
  assumes "inc_inv V S" and "relabel_incident W i labels reason name user a now S = (x, S')"
  shows "inc_inv V S' \<and> inc_grows S S'"
proof (cases "\<exists>l\<in>set labels. l \<notin> TAXONOMY_LABELS")
  case True
  then show ?thesis using assms by (simp add: relabel_incident_def)
next
  case False
  obtain y S1 where s: "set_incident_label i (dedup_first labels) name reason now S = (y, S1)" by fastforce
  have ls: "set (dedup_first labels) \<subseteq> TAXONOMY_LABELS" "distinct (dedup_first labels)" using False dedup_facts [of labels] by auto
  have 1: "inc_inv V S1 \<and> inc_grows S S1"
  proof (cases "tbl_get il_message_id i (ic_labels S)")
    case None
    let ?r = "\<lparr>il_message_id = i, il_labels = dedup_first labels, il_reason = reason, il_decided_by = name, il_decided_at = now\<rparr>"
    have "S1 = S \<or> S1 = S\<lparr>ic_labels := ic_labels S @ [?r]\<rparr>" using s None by (auto simp: set_incident_label_def Let_def split: if_splits)
    moreover have "inc_inv V (S\<lparr>ic_labels := ic_labels S @ [?r]\<rparr>)"
      using inc_inv_parts [OF assms(1)] ls None by (intro inc_inv_labels [OF assms(1)]) (auto simp: tbl_get_None_iff)
    ultimately show ?thesis using assms(1) by auto
  next
    case (Some old)
    let ?r = "\<lparr>il_message_id = i, il_labels = dedup_first labels, il_reason = reason, il_decided_by = name, il_decided_at = now\<rparr>"
    have "S1 = S\<lparr>ic_labels := tbl_save il_message_id ?r (ic_labels S)\<rparr>" using s Some by (simp add: set_incident_label_def Let_def)
    moreover have "inc_inv V (S\<lparr>ic_labels := tbl_save il_message_id ?r (ic_labels S)\<rparr>)"
      using inc_inv_parts [OF assms(1)] ls inc_saved [of _ il_message_id ?r "ic_labels S"]
      by (intro inc_inv_labels [OF assms(1)] keyed_save) fastforce+
    ultimately show ?thesis by simp
  qed
  show ?thesis
  proof (cases y)
    case (Inl e)
    then show ?thesis using assms(2) False s 1 by (simp add: relabel_incident_def and_then_def)
  next
    case (Inr row)
    obtain z S2 where e: "emit_incident W (Some user) a ''eyenet.audit.incident.relabeled'' ''message'' (Some i)
               [(''labels'', JList (map JStr (il_labels row))), (''reason'', jopt JStr (il_reason row))] now S1 = (z, S2)" by fastforce
    then obtain A where "S2 = S1\<lparr>ic_audit := A\<rparr>" using emit_incident_frame by blast
    moreover have "S' = S2" using assms(2) False s Inr e by (cases z) (simp_all add: relabel_incident_def and_then_def)
    ultimately show ?thesis using 1 inc_grows_trans [OF _ inc_grows_refl(2)] by simp
  qed
qed


lemma rules_keep:
  assumes "inc_inv V S"
  shows "inc_inv V (snd (create_incident_rule V r S)) \<and> inc_grows S (snd (create_incident_rule V r S))"
    and "inc_inv V (snd (update_incident_rule V i p S)) \<and> inc_grows S (snd (update_incident_rule V i p S))"
    and "inc_inv V (snd (delete_incident_rule i S)) \<and> inc_grows S (snd (delete_incident_rule i S))"
proof -
  note P = inc_inv_parts [OF assms]
  show "inc_inv V (snd (create_incident_rule V r S)) \<and> inc_grows S (snd (create_incident_rule V r S))"
  proof (cases "ie_compiles V (ir_pattern r) \<and> ir_label r \<in> TAXONOMY_LABELS \<and> ir_name r \<notin> BUILTIN_SIGNAL_NAMES
      \<and> \<not> tbl_has ir_id (ir_id r) (ic_rules S) \<and> \<not> tbl_has ir_name (ir_name r) (ic_rules S)")
    case True
    then have "inc_inv V (S\<lparr>ic_rules := ic_rules S @ [r]\<rparr>)" using P by (intro inc_inv_rules [OF assms]) (auto simp: rule_ok_def)
    moreover have "snd (create_incident_rule V r S) = S\<lparr>ic_rules := ic_rules S @ [r]\<rparr> \<or> snd (create_incident_rule V r S) = S"
      using True by (simp add: create_incident_rule_def validate_pattern_and_label_def validate_name_def insert_rule_def)
    ultimately show ?thesis using assms by auto
  next
    case False
    then have "snd (create_incident_rule V r S) = S"
      by (auto simp: create_incident_rule_def validate_pattern_and_label_def validate_name_def insert_rule_def)
    then show ?thesis using assms by simp
  qed
  show "inc_inv V (snd (update_incident_rule V i p S)) \<and> inc_grows S (snd (update_incident_rule V i p S))"
  proof (cases "snd (update_incident_rule V i p S) = S")
    case True
    then show ?thesis using assms by simp
  next
    case False
    then obtain r where r: "get_rule i S = Some r" and e: "snd (update_incident_rule V i p S) = S\<lparr>ic_rules := tbl_save ir_id (patch_rule p r) (ic_rules S)\<rparr>"
      and v: "\<And>x. rp_pattern p = Some x \<Longrightarrow> ie_compiles V x" "\<And>x. rp_label p = Some x \<Longrightarrow> x \<in> TAXONOMY_LABELS"
      by (auto simp: update_incident_rule_def update_rule_def split: if_splits option.splits)
    have m: "r \<in> set (ic_rules S)" using r tbl_get_SomeD unfolding get_rule_def by fastforce
    have same: "ir_id (patch_rule p r) = ir_id r" "ir_name (patch_rule p r) = ir_name r" by (simp_all add: patch_rule_def)
    have "rule_ok V (patch_rule p r)" using P(5) [OF m] v by (auto simp: rule_ok_def patch_rule_def split: option.splits)
    moreover have "map ir_name (tbl_save ir_id (patch_rule p r) (ic_rules S)) = map ir_name (ic_rules S)"
    proof -
      have "ir_name (patch_rule p r) = ir_name x" if "x \<in> set (ic_rules S)" "ir_id x = ir_id (patch_rule p r)" for x
      proof -
        have "x = r" using that m P(3) same by (auto simp: keyed_def distinct_map inj_on_def)
        then show ?thesis using same by simp
      qed
      then show ?thesis by (simp add: tbl_save_def)
    qed
    ultimately have "inc_inv V (S\<lparr>ic_rules := tbl_save ir_id (patch_rule p r) (ic_rules S)\<rparr>)"
      using P inc_saved [of _ ir_id "patch_rule p r" "ic_rules S"]
      by (intro inc_inv_rules [OF assms] keyed_save) (auto simp: keyed_def)
    then show ?thesis unfolding e by simp
  qed
  have "keyed ir_name (tbl_delete ir_id i (ic_rules S))" using P(4) by (simp add: keyed_def tbl_delete_def distinct_map_filter)
  moreover have "\<forall>r\<in>set (tbl_delete ir_id i (ic_rules S)). rule_ok V r" using P(5) by (simp add: tbl_delete_def)
  ultimately have "inc_inv V (S\<lparr>ic_rules := tbl_delete ir_id i (ic_rules S)\<rparr>)"
    using P by (intro inc_inv_rules [OF assms] keyed_tbl_delete)
  then show "inc_inv V (snd (delete_incident_rule i S)) \<and> inc_grows S (snd (delete_incident_rule i S))"
    using assms by (simp add: delete_incident_rule_def delete_rule_def split: option.split)
qed


section \<open>Runs\<close>

inductive inc_step :: "inc_env \<Rightarrow> inc_service \<times> inc_store \<Rightarrow> inc_service \<times> inc_store \<Rightarrow> bool" for V :: inc_env where
  heard: "inc_step V P (snd (on_raw_message V env now ids aids P))"
| ticked: "inc_step V P (snd (service_tick V db_ok now ids aids P))"
| shut: "inc_step V P (snd (service_shutdown V now ids aids P))"
| backfilled: "run_backfill n V batch limit clock bids S = Some (x, S') \<Longrightarrow> inc_step V (sv, S) (sv, S')"
| rule_created: "inc_step V (sv, S) (sv, snd (create_incident_rule V r S))"
| rule_updated: "inc_step V (sv, S) (sv, snd (update_incident_rule V i p S))"
| rule_deleted: "inc_step V (sv, S) (sv, snd (delete_incident_rule i S))"
| relabelled: "inc_step V (sv, S) (sv, snd (relabel_incident V i labels reason name user a now S))"
| located: "inc_step V (sv, S) (sv, snd (put_message_geo_bulk gs S))"
| ingested: "\<not> tbl_has mg_id (mg_id m) (ic_messages S) \<Longrightarrow> inc_step V (sv, S) (sv, S\<lparr>ic_messages := ic_messages S @ [m]\<rparr>)"
| attached: "inc_step V (sv, S) (sv, S\<lparr>ic_attachments := atts\<rparr>)"

abbreviation inc_run :: "inc_env \<Rightarrow> inc_service \<times> inc_store \<Rightarrow> inc_service \<times> inc_store \<Rightarrow> bool" where
  "inc_run V \<equiv> (inc_step V)\<^sup>*\<^sup>*"

definition empty_inc :: "inc_store" where
  "empty_inc = \<lparr>ic_messages = [], ic_attachments = [], ic_groups = [], ic_sources = [], ic_incidents = [], ic_labels = [], ic_geo = [],
     ic_rules = [], ic_audit = \<lparr>audit_log = [], syslog = [], ndjson = None, audit_ok = True, syslog_ok = True\<rparr>, ic_published = []\<rparr>"

lemma flush_pair: "inc_inv V (snd P) \<Longrightarrow> inc_inv V (snd (snd (flush V now ids aids P))) \<and> inc_grows (snd P) (snd (snd (flush V now ids aids P)))"
  using flush_keeps [of V now ids aids "fst P" "snd P" _ _ _] by (metis prod.collapse)

lemma inc_step_keeps: "inc_step V P P' \<Longrightarrow> inc_inv V (snd P) \<Longrightarrow> inc_inv V (snd P') \<and> inc_grows (snd P) (snd P')"
proof (induction rule: inc_step.induct)
  case (heard P env now ids aids)
  obtain sv S where P: "P = (sv, S)" by fastforce
  show ?case using heard flush_pair [of V "(sv\<lparr>sv_buffer := sv_buffer sv @ [the env]\<rparr>, S)" now ids aids]
    by (cases env) (simp_all add: P on_raw_message_def Let_def)
next
  case (ticked P db_ok now ids aids)
  obtain sv S where P: "P = (sv, S)" by fastforce
  show ?case using ticked flush_pair [of V "(maybe_refresh_rules V db_ok now S sv, S)" now ids aids]
    by (simp add: P service_tick_def)
next
  case (shut P now ids aids)
  then show ?case using flush_pair by (simp add: service_shutdown_def)
next
  case (backfilled n batch limit clock bids S x S' sv)
  then show ?case using backfill_keeps unfolding run_backfill_def by fastforce
next
  case (relabelled sv S i labels reason name user a now)
  then show ?case using relabel_keeps by (metis prod.collapse snd_conv)
next
  case (located sv S gs)
  have "inc_inv V (S\<lparr>ic_geo := g\<rparr>) = inc_inv V S" "inc_grows S (S\<lparr>ic_geo := g\<rparr>)" for g by (simp_all add: inc_inv_def inc_grows_def)
  then show ?case using located by (simp add: put_message_geo_bulk_def)
next
  case (ingested m S sv)
  then show ?case by (fastforce simp: inc_inv_def inc_grows_def tbl_has_def)
next
  case (attached sv S atts)
  then show ?case by (simp add: inc_inv_def inc_grows_def)
qed (use rules_keep in simp_all)

lemma run_keeps_inc: "inc_run V P P' \<Longrightarrow> inc_inv V (snd P) \<Longrightarrow> inc_inv V (snd P') \<and> inc_grows (snd P) (snd P')"
proof (induction rule: rtranclp_induct)
  case (step Q R)
  then show ?case using inc_step_keeps inc_grows_trans by blast
qed simp

section \<open>The backfill covers every unclassified message\<close>

definition unclassified :: "uuid option \<Rightarrow> inc_store \<Rightarrow> msg_row list" where
  "unclassified after S = order_asc mg_id
     (filter (\<lambda>m. mg_id m \<notin> in_message_id ` set (ic_incidents S) \<and> (case after of None \<Rightarrow> True | Some a \<Rightarrow> a < mg_id m)) (ic_messages S))"

lemma page_unclassified: "messages_without_incidents k after S = map (\<lambda>m. (mg_id m, mg_body m)) (take k (unclassified after S))"
  by (simp add: messages_without_incidents_def unclassified_def)

lemma unclassified_sorted: "keyed mg_id (ic_messages S) \<Longrightarrow> sorted (map mg_id (unclassified after S)) \<and> distinct (map mg_id (unclassified after S))"
  by (simp add: unclassified_def order_asc_def keyed_def distinct_map inj_on_def)

text \<open>The calibrated scores of a text, where the model has a logit for every head.\<close>

definition total_model :: "inc_env \<Rightarrow> bool" where
  "total_model V \<longleftrightarrow> (\<forall>t. length (ie_heads V) \<le> length (ie_logits V t))"

definition scores_of :: "inc_env \<Rightarrow> text_body \<Rightarrow> head_score list" where
  "scores_of V t = (case apply_calibration V (ie_logits V t) of Inr s \<Rightarrow> s | Inl _ \<Rightarrow> [])"

lemma classify_total: "total_model V \<Longrightarrow> classify_batch V ts = Inr (map (scores_of V) ts)"
  by (induction ts) (simp_all add: total_model_def scores_of_def apply_calibration_def not_less [symmetric])

text \<open>What the cascade fires on a stored message.\<close>

definition cascade :: "inc_env \<Rightarrow> compiled_rule list \<Rightarrow> inc_store \<Rightarrow> msg_row \<Rightarrow> string set" where
  "cascade V rs S m = fired_set V rs (mg_body m) (scores_of V (enrich_text (mg_body m) (attachment_files [mg_id m] S (mg_id m))))"

lemma attachment_files_own: "i \<in> set ids \<Longrightarrow> attachment_files ids S i = attachment_files [i] S i"
  by (simp add: attachment_files_def)

lemma page_rows_messages:
  "map in_message_id (page_rows V rs now ids (zip (map (\<lambda>m. (mg_id m, mg_body m)) ms)
      (map (scores_of V) (map (\<lambda>(mid, body). enrich_text body (attachment_files (map fst (map (\<lambda>m. (mg_id m, mg_body m)) ms)) S mid))
         (map (\<lambda>m. (mg_id m, mg_body m)) ms)))))
   = map mg_id (filter (\<lambda>m. cascade V rs S m \<noteq> {}) ms)"
proof -
  let ?s = "\<lambda>m. scores_of V (enrich_text (mg_body m) (attachment_files [mg_id m] S (mg_id m)))"
  have s: "map (scores_of V) (map (\<lambda>(mid, body). enrich_text body (attachment_files (map fst (map (\<lambda>m. (mg_id m, mg_body m)) ms)) S mid))
         (map (\<lambda>m. (mg_id m, mg_body m)) ms)) = map ?s ms"
  proof -
    have "attachment_files (map fst (map (\<lambda>m. (mg_id m, mg_body m)) ms)) S (mg_id m) = attachment_files [mg_id m] S (mg_id m)"
      if "m \<in> set ms" for m by (rule attachment_files_own) (use that in simp)
    then show ?thesis by (simp add: comp_def)
  qed
  have z: "zip (map (\<lambda>m. (mg_id m, mg_body m)) ms) (map ?s ms) = map (\<lambda>m. ((mg_id m, mg_body m), ?s m)) ms"
    by (simp add: zip_map_map zip_same_conv_map)
  have "map in_message_id (map (\<lambda>(k, (mid, body), scores). incident_of V rs (ids k) mid body scores now)
      (filter (\<lambda>(k, (mid, body), scores). fired_set V rs body scores \<noteq> {}) (enumerate j (map (\<lambda>m. ((mg_id m, mg_body m), ?s m)) xs))))
      = map mg_id (filter (\<lambda>m. cascade V rs S m \<noteq> {}) xs)" for j xs
    by (induction xs arbitrary: j) (simp_all add: cascade_def incident_of_def)
  then show ?thesis unfolding page_rows_def s z by blast
qed

lemma page_rows_ids: "in_id ` set (page_rows V rs now ids scored) \<subseteq> range ids"
  by (auto simp: page_rows_def incident_of_def)

lemma page_rows_distinct: "inj ids \<Longrightarrow> distinct (map in_id (page_rows V rs now ids scored))"
proof -
  assume i: "inj ids"
  have "map in_id (page_rows V rs now ids scored)
      = map ids (map fst (filter (\<lambda>(k, (mid, body), scores). fired_set V rs body scores \<noteq> {}) (enumerate 0 scored)))"
    by (auto simp: page_rows_def incident_of_def)
  moreover have d: "distinct (map fst (filter P (enumerate 0 scored)))" for P
    by (rule distinct_map_filter) simp
  moreover have "distinct (map ids (map fst (filter P (enumerate 0 scored))))" for P
    using d [of P] inj_on_subset [OF i] by (subst distinct_map) blast
  ultimately show ?thesis by (simp only:)
qed

lemma unclassified_after: "m \<in> set (unclassified after S) \<Longrightarrow> case after of None \<Rightarrow> True | Some b \<Rightarrow> b < mg_id m"
  by (simp add: unclassified_def)

lemma sorted_last_max: "sorted (map f xs) \<Longrightarrow> x \<in> set xs \<Longrightarrow> f x \<le> f (last xs)"
  by (cases xs rule: rev_cases) (auto simp: sorted_append)

lemma sorted_split_any:
  assumes "sorted (map f s)" and "distinct (map f s)" and "0 < k" and "s \<noteq> []"
  shows "filter (\<lambda>r. f (last (take k s)) < f r) s = drop k s"
proof (cases "k \<le> length s")
  case True
  then show ?thesis by (rule sorted_split [OF assms(1,2,3)])
next
  case False
  then have e: "take k s = take (length s) s" "drop k s = drop (length s) s" by simp_all
  have "0 < length s" using assms(4) by simp
  then show ?thesis unfolding e by (rule sorted_split [OF assms(1,2) _ order_refl])
qed

lemma unclassified_split:
  assumes "keyed mg_id (ic_messages S)" and "0 < k" and "unclassified after S \<noteq> []"
  shows "filter (\<lambda>m. mg_id (last (take k (unclassified after S))) < mg_id m) (unclassified after S) = drop k (unclassified after S)"
  using unclassified_sorted [OF assms(1), of after] by (intro sorted_split_any [OF _ _ assms(2,3)]) blast+

lemma unclassified_last:
  assumes "0 < k" and "unclassified after S \<noteq> []"
  shows "last (take k (unclassified after S)) \<in> set (unclassified after S)"
proof -
  have "take k (unclassified after S) \<noteq> []" using assms by simp
  then show ?thesis by (rule in_set_takeD [OF last_in_set])
qed

lemma unclassified_low:
  assumes "keyed mg_id (ic_messages S)" and "m \<in> set (take k (unclassified after S))"
  shows "mg_id m \<le> mg_id (last (take k (unclassified after S)))"
proof -
  have "sorted (map mg_id (take k (unclassified after S)))"
    using conjunct1 [OF unclassified_sorted [OF assms(1), of after]] by (simp add: take_map [symmetric] sorted_wrt_take)
  then show ?thesis by (rule sorted_last_max [OF _ assms(2)])
qed

lemma unclassified_extend:
  assumes "\<And>i. i \<in> in_message_id ` set new \<Longrightarrow> i \<le> a" and "case after of None \<Rightarrow> True | Some b \<Rightarrow> b < a"
  shows "unclassified (Some a) (S\<lparr>ic_incidents := ic_incidents S @ new\<rparr>) = filter (\<lambda>m. a < mg_id m) (unclassified after S)"
proof -
  have e: "(mg_id m \<notin> in_message_id ` set (ic_incidents S @ new) \<and> a < mg_id m)
      \<longleftrightarrow> a < mg_id m \<and> mg_id m \<notin> in_message_id ` set (ic_incidents S) \<and> (case after of None \<Rightarrow> True | Some b \<Rightarrow> b < mg_id m)" for m
  proof (cases "a < mg_id m")
    case True
    then have "\<not> mg_id m \<le> a" by (simp only: not_le)
    then have "mg_id m \<notin> in_message_id ` set new" using assms(1) by blast
    moreover have "case after of None \<Rightarrow> True | Some b \<Rightarrow> b < mg_id m" using assms(2) True by (cases after) simp_all
    ultimately show ?thesis using True by (simp only: set_append image_Un Un_iff simp_thms)
  next
    case False
    then show ?thesis by (simp only: simp_thms)
  qed
  have u: "ic_incidents (S\<lparr>ic_incidents := ic_incidents S @ new\<rparr>) = ic_incidents S @ new"
    "ic_messages (S\<lparr>ic_incidents := ic_incidents S @ new\<rparr>) = ic_messages S" by simp_all
  show ?thesis unfolding unclassified_def order_asc_def filter_sort filter_filter u option.case e
    by (simp only: conj_commute)
qed

lemma unclassified_next:
  assumes "keyed mg_id (ic_messages S)" and "0 < k" and "unclassified after S \<noteq> []"
    and "a = mg_id (last (take k (unclassified after S)))"
    and "in_message_id ` set new \<subseteq> mg_id ` set (take k (unclassified after S))"
  shows "unclassified (Some a) (S\<lparr>ic_incidents := ic_incidents S @ new\<rparr>) = drop k (unclassified after S)"
proof -
  have "i \<le> a" if "i \<in> in_message_id ` set new" for i
    using subsetD [OF assms(5) that] unclassified_low [OF assms(1)] unfolding assms(4) by (elim imageE) (simp only:)
  moreover have "case after of None \<Rightarrow> True | Some b \<Rightarrow> b < a"
    unfolding assms(4) by (rule unclassified_after [OF unclassified_last [OF assms(2,3)]])
  ultimately have "unclassified (Some a) (S\<lparr>ic_incidents := ic_incidents S @ new\<rparr>) = filter (\<lambda>m. a < mg_id m) (unclassified after S)"
    by (rule unclassified_extend)
  then show ?thesis using unclassified_split [OF assms(1,2,3)] unfolding assms(4) by (rule trans)
qed

lemma put_page:
  assumes "list_all (\<lambda>r. tbl_has mg_id (in_message_id r) (ic_messages S)) rows" and "keyed in_id (ic_incidents S @ rows)"
  shows "put_incidents_bulk rows S = (Inr (), S\<lparr>ic_incidents := ic_incidents S @ rows\<rparr>)"
  using assms by (simp add: put_incidents_bulk_def)

lemma cascade_same: "cascade V rs (S\<lparr>ic_incidents := is\<rparr>) m = cascade V rs S m"
  by (simp add: cascade_def attachment_files_def)

lemma backfill_turn:
  assumes "0 < batch" and "messages_without_incidents batch (bf_after B) S = rows" and "rows \<noteq> []"
    and "classify_batch V (map (\<lambda>(mid, body). enrich_text body (attachment_files (map fst rows) S mid)) rows) = Inr scored"
    and "put_incidents_bulk (page_rows V rs (clock n) (ids n) (zip rows scored)) S = (Inr (), S1)"
  shows "incident_backfill_loop (Suc n) V rs batch None clock ids B S = incident_backfill_loop n V rs batch None clock ids
    \<lparr>bf_after = Some (fst (last rows)), bf_scanned = bf_scanned B + length rows,
      bf_fired = bf_fired B + length (page_rows V rs (clock n) (ids n) (zip rows scored))\<rparr> S1"
  using assms by (simp add: Let_def)

lemma page_rows_stored:
  assumes "inj ids" and "keyed in_id (ic_incidents S)" and "\<And>k. ids k \<notin> in_id ` set (ic_incidents S)"
    and "in_message_id ` set (page_rows V rs now ids scored) \<subseteq> mg_id ` set (ic_messages S)"
  shows "put_incidents_bulk (page_rows V rs now ids scored) S
    = (Inr (), S\<lparr>ic_incidents := ic_incidents S @ page_rows V rs now ids scored\<rparr>)"
    and "keyed in_id (ic_incidents S @ page_rows V rs now ids scored)"
proof -
  have "in_id ` set (ic_incidents S) \<inter> in_id ` set (page_rows V rs now ids scored) = {}"
  proof (rule Int_emptyI)
    fix x assume "x \<in> in_id ` set (ic_incidents S)" "x \<in> in_id ` set (page_rows V rs now ids scored)"
    moreover obtain k where "x = ids k" using subsetD [OF page_rows_ids calculation(2)] by (rule rangeE)
    ultimately show False using assms(3) [of k] by simp
  qed
  then show k: "keyed in_id (ic_incidents S @ page_rows V rs now ids scored)"
    using assms(2) page_rows_distinct [OF assms(1), of V rs now scored] by (simp only: keyed_def map_append distinct_append set_map simp_thms)
  have "list_all (\<lambda>r. tbl_has mg_id (in_message_id r) (ic_messages S)) (page_rows V rs now ids scored)"
    unfolding list_all_iff tbl_has_def using assms(4) by blast
  then show "put_incidents_bulk (page_rows V rs now ids scored) S
    = (Inr (), S\<lparr>ic_incidents := ic_incidents S @ page_rows V rs now ids scored\<rparr>)" by (rule put_page [OF _ k])
qed

text \<open>One turn of the loop: the page is classified and stored, and what remains is the rest of the list.\<close>

lemma backfill_page:
  assumes "total_model V" and "0 < batch" and "inj (ids n)" and "keyed mg_id (ic_messages S)" and "keyed in_id (ic_incidents S)"
    and "\<And>k. ids n k \<notin> in_id ` set (ic_incidents S)" and "unclassified (bf_after B) S \<noteq> []"
  shows "\<exists>new B'. incident_backfill_loop (Suc n) V rs batch None clock ids B S = incident_backfill_loop n V rs batch None clock ids B' (S\<lparr>ic_incidents := ic_incidents S @ new\<rparr>)
    \<and> keyed in_id (ic_incidents S @ new) \<and> in_id ` set new \<subseteq> range (ids n)
    \<and> map in_message_id new = map mg_id (filter (\<lambda>m. cascade V rs S m \<noteq> {}) (take batch (unclassified (bf_after B) S)))
    \<and> unclassified (bf_after B') (S\<lparr>ic_incidents := ic_incidents S @ new\<rparr>) = drop batch (unclassified (bf_after B) S)
    \<and> bf_scanned B' = bf_scanned B + length (take batch (unclassified (bf_after B) S)) \<and> bf_fired B' = bf_fired B + length new"
proof -
  let ?U = "unclassified (bf_after B) S"
  let ?ms = "take batch ?U"
  define rows where "rows = map (\<lambda>m. (mg_id m, mg_body m)) ?ms"
  define scored where "scored = map (scores_of V) (map (\<lambda>(mid, body). enrich_text body (attachment_files (map fst rows) S mid)) rows)"
  define new where "new = page_rows V rs (clock n) (ids n) (zip rows scored)"
  have page: "messages_without_incidents batch (bf_after B) S = rows" unfolding rows_def by (rule page_unclassified)
  have ne: "?ms \<noteq> []" using assms(2,7) by simp
  then have ne': "rows \<noteq> []" unfolding rows_def by simp
  have msgs: "map in_message_id new = map mg_id (filter (\<lambda>m. cascade V rs S m \<noteq> {}) ?ms)"
    unfolding new_def scored_def rows_def by (rule page_rows_messages)
  have "set (map in_message_id new) \<subseteq> mg_id ` set ?ms" unfolding msgs by auto
  then have in_ms: "in_message_id ` set new \<subseteq> mg_id ` set ?ms" by (simp only: set_map)
  have "set ?ms \<subseteq> set (ic_messages S)" using set_take_subset [of batch ?U] by (auto simp: unclassified_def)
  then have "in_message_id ` set new \<subseteq> mg_id ` set (ic_messages S)" using in_ms by (meson image_mono subset_trans)
  note st = page_rows_stored [OF assms(3,5,6), folded new_def, OF this [unfolded new_def], folded new_def]
  have cls: "classify_batch V (map (\<lambda>(mid, body). enrich_text body (attachment_files (map fst rows) S mid)) rows) = Inr scored"
    unfolding scored_def by (rule classify_total [OF assms(1)])
  have lst: "fst (last rows) = mg_id (last ?ms)" using ne unfolding rows_def by (subst last_map) simp_all
  have loop: "incident_backfill_loop (Suc n) V rs batch None clock ids B S = incident_backfill_loop n V rs batch None clock ids
      \<lparr>bf_after = Some (mg_id (last ?ms)), bf_scanned = bf_scanned B + length rows, bf_fired = bf_fired B + length new\<rparr>
      (S\<lparr>ic_incidents := ic_incidents S @ new\<rparr>)"
    using backfill_turn [where rs = rs and clock = clock and ids = ids, OF assms(2) page ne' cls st(1) [unfolded new_def]]
    unfolding new_def [symmetric] lst .
  have nxt: "unclassified (Some (mg_id (last ?ms))) (S\<lparr>ic_incidents := ic_incidents S @ new\<rparr>) = drop batch ?U"
    by (rule unclassified_next [OF assms(4,2,7) refl in_ms])
  have ids: "in_id ` set new \<subseteq> range (ids n)" unfolding new_def by (rule page_rows_ids)
  show ?thesis
    by (intro exI conjI, rule loop, rule st(2), rule ids, rule msgs) (simp_all only: backfill_state.select_convs nxt rows_def length_map)
qed

lemma inj_fresh:
  assumes "inj (\<lambda>(n, k). ids n k)"
  shows "inj (ids n)" and "j \<noteq> n \<Longrightarrow> ids j k \<notin> range (ids n)"
proof -
  have e: "ids a b = ids c d \<Longrightarrow> (a, b) = (c, d)" for a b c d by (rule injD [OF assms]) simp
  show "inj (ids n)" by (rule injI) (use e in blast)
  show "j \<noteq> n \<Longrightarrow> ids j k \<notin> range (ids n)" using e by blast
qed

lemma incident_backfill_covers:
  assumes "total_model V" and "0 < batch" and "inj (\<lambda>(n, k). ids n k)"
  shows "keyed mg_id (ic_messages S) \<Longrightarrow> keyed in_id (ic_incidents S) \<Longrightarrow> (\<forall>j<n. \<forall>k. ids j k \<notin> in_id ` set (ic_incidents S)) \<Longrightarrow>
    length (unclassified (bf_after B) S) < n \<Longrightarrow>
    \<exists>new. incident_backfill_loop n V rs batch None clock ids B S
        = Some (Inr (bf_scanned B + length (unclassified (bf_after B) S), bf_fired B + length new), S\<lparr>ic_incidents := ic_incidents S @ new\<rparr>)
      \<and> map in_message_id new = map mg_id (filter (\<lambda>m. cascade V rs S m \<noteq> {}) (unclassified (bf_after B) S))"
proof (induction n arbitrary: B S)
  case (Suc n)
  let ?U = "unclassified (bf_after B) S"
  have inj: "inj (ids n)" by (rule inj_fresh [OF assms(3)])
  show ?case
  proof (cases "?U = []")
    case True
    then have "messages_without_incidents batch (bf_after B) S = []" by (simp add: page_unclassified)
    then have "incident_backfill_loop (Suc n) V rs batch None clock ids B S = Some (Inr (bf_scanned B, bf_fired B), S)" by (simp add: Let_def)
    then show ?thesis using True by (intro exI [of _ "[]"]) simp
  next
    case False
    have new_ids: "ids n k \<notin> in_id ` set (ic_incidents S)" for k by (rule Suc.prems(3) [rule_format, OF lessI])
    obtain new B' where loop: "incident_backfill_loop (Suc n) V rs batch None clock ids B S = incident_backfill_loop n V rs batch None clock ids B' (S\<lparr>ic_incidents := ic_incidents S @ new\<rparr>)"
      and k: "keyed in_id (ic_incidents S @ new)" and ids: "in_id ` set new \<subseteq> range (ids n)"
      and msgs: "map in_message_id new = map mg_id (filter (\<lambda>m. cascade V rs S m \<noteq> {}) (take batch ?U))"
      and U: "unclassified (bf_after B') (S\<lparr>ic_incidents := ic_incidents S @ new\<rparr>) = drop batch ?U"
      and cnt: "bf_scanned B' = bf_scanned B + length (take batch ?U)" "bf_fired B' = bf_fired B + length new"
      using backfill_page [where rs = rs and clock = clock and ids = ids, OF assms(1,2) inj Suc.prems(1,2) new_ids False] by blast
    define T where "T = S\<lparr>ic_incidents := ic_incidents S @ new\<rparr>"
    have T: "ic_incidents T = ic_incidents S @ new" "ic_messages T = ic_messages S" by (simp_all add: T_def)
    have fresh: "\<forall>j<n. \<forall>k. ids j k \<notin> in_id ` set (ic_incidents T)"
    proof (intro allI impI)
      fix j k assume j: "j < n"
      then have "ids j k \<notin> range (ids n)" by (intro inj_fresh(2) [OF assms(3)]) simp
      then show "ids j k \<notin> in_id ` set (ic_incidents T)" unfolding T set_append image_Un using Suc.prems(3) j ids by auto
    qed
    have "0 < length ?U" using False by simp
    then have len: "length (unclassified (bf_after B') T) < n" unfolding U [folded T_def] length_drop using Suc.prems(4) assms(2) by linarith
    obtain rest where r: "incident_backfill_loop n V rs batch None clock ids B' T
        = Some (Inr (bf_scanned B' + length (unclassified (bf_after B') T), bf_fired B' + length rest), T\<lparr>ic_incidents := ic_incidents T @ rest\<rparr>)"
      "map in_message_id rest = map mg_id (filter (\<lambda>m. cascade V rs T m \<noteq> {}) (unclassified (bf_after B') T))"
      using Suc.IH [of T B', unfolded T(2), OF Suc.prems(1) k [folded T(1)] fresh len] by blast
    have "map in_message_id (new @ rest) = map mg_id (filter (\<lambda>m. cascade V rs S m \<noteq> {}) (take batch ?U @ drop batch ?U))"
      unfolding map_append filter_append msgs r(2) T_def cascade_same U ..
    moreover have "incident_backfill_loop (Suc n) V rs batch None clock ids B S
        = Some (Inr (bf_scanned B + length ?U, bf_fired B + length (new @ rest)), S\<lparr>ic_incidents := ic_incidents S @ new @ rest\<rparr>)"
      unfolding loop r(1) [unfolded T_def] cnt U using T by simp
    ultimately show ?thesis by (intro exI [of _ "new @ rest"]) simp
  qed
qed simp

section \<open>The properties\<close>

lemma empty_inc_inv: "inc_inv V empty_inc"
  by (simp add: inc_inv_def empty_inc_def)

text \<open>
  C39: In every run of the bus service, the backfill, the routes and the ingest, whatever fails in between: an incident
  is published only after it was stored and under the evidence reference of its own message; every incident belongs to a
  stored message; a message has at most one correction, of taxonomy labels without repetition; every rule compiles, has
  a taxonomy label and a name of its own that no built-in signal has; and incidents are never changed or removed.
\<close>

theorem incident_invariant:
  assumes "inc_run V (sv0, empty_inc) (sv, S)" and "inc_run V (sv, S) (sv', S')"
  shows "(\<forall>(ref, r)\<in>set (ic_published S'). r \<in> set (ic_incidents S')
        \<and> (\<exists>m\<in>set (ic_messages S'). mg_evidence_ref m = ref \<and> mg_id m = in_message_id r))
     \<and> keyed in_id (ic_incidents S') \<and> (\<forall>r\<in>set (ic_incidents S'). tbl_has mg_id (in_message_id r) (ic_messages S'))
     \<and> keyed il_message_id (ic_labels S') \<and> (\<forall>l\<in>set (ic_labels S'). set (il_labels l) \<subseteq> TAXONOMY_LABELS \<and> distinct (il_labels l))
     \<and> keyed ir_id (ic_rules S') \<and> keyed ir_name (ic_rules S') \<and> (\<forall>r\<in>set (ic_rules S'). rule_ok V r)
     \<and> prefix (ic_incidents S) (ic_incidents S') \<and> prefix (ic_published S) (ic_published S')"
proof -
  have "inc_inv V S" using run_keeps_inc [OF assms(1)] empty_inc_inv by simp
  then have "inc_inv V S'" "inc_grows S S'" using run_keeps_inc [OF assms(2)] by simp_all
  then show ?thesis unfolding inc_inv_def inc_grows_def by (elim conjE) (intro conjI)
qed

text \<open>
  C40: Where the model has a logit for every head, a backfill over any store ends, with as many turns as there are
  unclassified messages and one more: it scans exactly these messages, each once, and stores one incident for each of
  them on which the model, a built-in signal or an enabled rule fires, in the order of their ids, and for no other.
\<close>

theorem backfill_complete:
  assumes "total_model V" and "0 < batch" and "inj (\<lambda>(n, k). ids n k)" and "keyed mg_id (ic_messages S)" and "keyed in_id (ic_incidents S)"
    and "\<forall>j<n. \<forall>k. ids j k \<notin> in_id ` set (ic_incidents S)" and "length (unclassified None S) < n"
  shows "\<exists>new. run_backfill n V batch None clock ids S = Some (Inr (length (unclassified None S), length new), S\<lparr>ic_incidents := ic_incidents S @ new\<rparr>)
    \<and> map in_message_id new = map mg_id (filter (\<lambda>m. cascade V (compile_rules V (list_rules True S)) S m \<noteq> {}) (unclassified None S))"
  using incident_backfill_covers [OF assms(1-3), where S = S and B = "\<lparr>bf_after = None, bf_scanned = 0, bf_fired = 0\<rparr>" and n = n and clock = clock
      and rs = "compile_rules V (list_rules True S)"] assms(4-7) by (simp add: run_backfill_def)

section \<open>A run\<close>

definition demo_inc :: inc_env where
  "demo_inc = \<lparr>ie_compiles = (\<lambda>p. True), ie_search = (\<lambda>p t. False), ie_signal = (\<lambda>n t. n = ''onion_url''), ie_nfc = (\<lambda>t. t),
     ie_heads = [''breach_dump''], ie_calib = (\<lambda>l. None), ie_logits = (\<lambda>t. [0]), ie_round4 = (\<lambda>p. p),
     ie_model_version = ''v1'', ie_fts = (\<lambda>q t. True), ie_publish_ok = (\<lambda>r. True), ie_emit = example_emit\<rparr>"

definition demo_msg :: msg_row where
  "demo_msg = \<lparr>mg_id = 7, mg_evidence_ref = ''e7'', mg_body = [104], mg_group_id = 1, mg_source_id = 2\<rparr>"

definition demo_service :: inc_service where
  "demo_service = \<lparr>sv_batch_size = 1, sv_buffer = [], sv_rules = [], sv_rules_loaded_at = 0\<rparr>"

definition demo_store :: inc_store where
  "demo_store = empty_inc\<lparr>ic_messages := ic_messages empty_inc @ [demo_msg]\<rparr>"

definition demo_heard :: "inc_service \<times> inc_store" where
  "demo_heard = snd (on_raw_message demo_inc (Some ''e7'') 5 (\<lambda>k. 100 + k) (\<lambda>k. 200 + k) (demo_service, demo_store))"

lemma demo_prefilter: "prefilter_labels demo_inc t = {''breach_dump''}"
proof -
  have "px_signals (scan demo_inc t) = [''onion_url'']"
    by (simp add: scan_def SIGNALS_def demo_inc_def)
  then show ?thesis by (simp add: prefilter_labels_def SIG2LABEL_def)
qed

definition demo_scores :: "head_score list" where
  "demo_scores = [\<lparr>hs_label = ''breach_dump'', hs_prob = 1 / 2, hs_fired = True\<rparr>]"

lemma demo_classify: "classify_batch demo_inc [t] = Inr [demo_scores]"
  by (simp add: demo_inc_def apply_calibration_def sigmoid_def demo_scores_def)

lemma demo_fired: "fired_set demo_inc [] b demo_scores = {''breach_dump''}"
  by (simp add: fired_set_def demo_prefilter model_fired_def demo_scores_def match_labels_def)

lemma demo_row: "incident_of demo_inc [] i mid b demo_scores now =
    \<lparr>in_id = i, in_message_id = mid, in_labels = [''breach_dump''], in_scores = [(''breach_dump'', 1 / 2)], in_model_version = ''v1'', in_classified_at = now\<rparr>"
  by (simp add: incident_of_def demo_fired) (simp add: head_order_def demo_scores_def demo_inc_def)

lemma demo_emit: "audit_ok (ic_audit S) \<Longrightarrow> audit_log (ic_audit S) = [] \<Longrightarrow>
    \<exists>A. emit_incident demo_inc u a ev k s pl now S = (Inr (), S\<lparr>ic_audit := A\<rparr>)"
  by (simp add: emit_incident_def demo_inc_def example_emit_def append_audit_def tbl_has_def Let_def) (rule exI, rule refl)

definition demo_incident :: incident_row where
  "demo_incident = \<lparr>in_id = 100, in_message_id = 7, in_labels = [''breach_dump''], in_scores = [(''breach_dump'', 1 / 2)],
     in_model_version = ''v1'', in_classified_at = 5\<rparr>"

lemma demo_get: "tbl_get mg_evidence_ref ''e7'' (ic_messages demo_store) = Some demo_msg"
  by (simp add: demo_store_def empty_inc_def demo_msg_def tbl_get_def)

lemma demo_heard_published: "ic_published (snd demo_heard) = [(''e7'', demo_incident)] \<and> ic_incidents (snd demo_heard) = [demo_incident]"
proof -
  let ?ord = "[(''e7'', 7, [104])]"
  have o: "List.map_filter (\<lambda>ref. map_option (\<lambda>m. (ref, m)) (messages_by_evidence_refs [''e7''] demo_store ref)) [''e7''] = ?ord"
    by (simp add: List.map_filter_def messages_by_evidence_refs_def demo_get) (simp add: demo_msg_def)
  obtain A where A: "emit_incident demo_inc None 200 ''incident_detected'' ''evidence'' None
      [(''evidence_ref'', JStr ''e7''), (''labels'', JList (map JStr (sorted_list_of_set {''breach_dump''}))),
              (''reason'', JStr ''incident_classification'')] 5 demo_store = (Inr (), demo_store\<lparr>ic_audit := A\<rparr>)"
    using demo_emit [of demo_store] by (force simp: demo_store_def empty_inc_def)
  have d: "detect_loop demo_inc [] 5 (\<lambda>k. 100 + k) (\<lambda>k. 200 + k) 0 [((''e7'', 7, [104]), demo_scores)] [] demo_store
      = (Inr [(''e7'', demo_incident)], demo_store\<lparr>ic_audit := A\<rparr>)"
    using A by (simp add: demo_fired and_then_def demo_row demo_incident_def)
  have p: "put_incidents_bulk [demo_incident] (demo_store\<lparr>ic_audit := A\<rparr>) = (Inr (), demo_store\<lparr>ic_audit := A, ic_incidents := [demo_incident]\<rparr>)"
    by (simp add: put_incidents_bulk_def demo_store_def empty_inc_def tbl_has_def demo_msg_def demo_incident_def keyed_def)
  have "flush demo_inc 5 (\<lambda>k. 100 + k) (\<lambda>k. 200 + k) (demo_service\<lparr>sv_buffer := [''e7'']\<rparr>, demo_store)
      = (Inr (), (demo_service, publish_incidents demo_inc [(''e7'', demo_incident)] (demo_store\<lparr>ic_audit := A, ic_incidents := [demo_incident]\<rparr>)))"
    using o d p demo_classify by (simp add: flush_def demo_service_def dedup_first_def)
  then show ?thesis
    by (simp add: demo_heard_def on_raw_message_def demo_service_def publish_incidents_def) (simp add: demo_inc_def demo_store_def empty_inc_def)
qed

lemma demo_inc_run: "inc_run demo_inc (demo_service, empty_inc) (demo_service, demo_store)"
  unfolding demo_store_def by (rule r_into_rtranclp, rule inc_step.ingested) (simp add: empty_inc_def tbl_has_def)

lemma demo_heard_run: "inc_run demo_inc (demo_service, demo_store) (fst demo_heard, snd demo_heard)"
  unfolding prod.collapse demo_heard_def by (rule r_into_rtranclp, rule inc_step.heard)

lemma incident_invariant_witness:
  "ic_published (snd demo_heard) = [(''e7'', demo_incident)] \<and> tbl_has mg_id (in_message_id demo_incident) (ic_messages (snd demo_heard))"
  using incident_invariant [OF demo_inc_run demo_heard_run] demo_heard_published by simp

lemma backfill_complete_witness:
  "\<exists>new. run_backfill 2 demo_inc 64 None (\<lambda>n. 5) (\<lambda>n k. prod_encode (n, k)) demo_store = Some (Inr (1, length new), demo_store\<lparr>ic_incidents := ic_incidents demo_store @ new\<rparr>)
    \<and> map in_message_id new = [7]"
proof -
  have u: "unclassified None demo_store = [demo_msg]" by (simp add: unclassified_def demo_store_def empty_inc_def order_asc_def)
  have r: "compile_rules demo_inc (list_rules True demo_store) = []" by (simp add: compile_rules_def list_rules_def demo_store_def empty_inc_def order_asc_def)
  have c: "cascade demo_inc [] demo_store demo_msg \<noteq> {}" by (simp add: cascade_def fired_set_def demo_prefilter)
  have t: "total_model demo_inc" by (simp add: total_model_def demo_inc_def)
  have k: "keyed mg_id (ic_messages demo_store)" "keyed in_id (ic_incidents demo_store)"
    "\<forall>j<2. \<forall>k. prod_encode (j, k) \<notin> in_id ` set (ic_incidents demo_store)"
    by (simp_all add: demo_store_def empty_inc_def keyed_def)
  have i: "inj (\<lambda>(n, k). prod_encode (n, k))" using inj_prod_encode [of UNIV] by (simp add: case_prod_eta)
  have f: "filter (\<lambda>m. cascade demo_inc [] demo_store m \<noteq> {}) [demo_msg] = [demo_msg]" using c by simp
  have m: "map mg_id [demo_msg] = [7]" by (simp add: demo_msg_def)
  have l: "length [demo_msg] < 2" "length [demo_msg] = 1" by simp_all
  show ?thesis
    using backfill_complete [where batch = 64 and clock = "\<lambda>n. 5", OF t _ i k, unfolded u r f m l(2)] by simp
qed

end
