(* ===== verification/Spec2Isabelle.thy ===== *)
theory Spec2Isabelle
  imports Discovery_Properties Source_Properties Attribution_Witnesses Auth_Witnesses Guard_Properties Stream_Properties Incident_Properties
begin

text \<open>
  EYENET observes sources (forums, Matrix, Telegram), links the accounts it sees to actors and personas, and keeps a
  tamper-evident record of what its operators do. This development models the core of its Python code under
  \<open>src/eyenet\<close> and proves what makes each part correct.

  \<^bold>\<open>The parts and how they interact.\<close> Services (collectors, supervisor, linker, verifier, graph, API) share one SQL
  database behind a repository class and exchange messages over a bus. Operators act through the HTTP API; every
  decision is authenticated, checked against scopes and clearances and written to a hash-chained audit log. The model
  follows that layering: one state record per group of tables, one definition per repository operation, service step or
  request handler, composed as the code composes them.

  \<^bold>\<open>Theories.\<close>
    \<^item> \<open>Eyenet_Prelude\<close>: identifiers, instants, exceptions, table operations (get, save, conditional update,
      rowcount, ordering, paging) and their laws. \<open>Enums\<close>: the enumerations of \<open>contracts/enums.py\<close> and the
      tier order.
    \<^item> \<open>Hash_Chain\<close>: a locale of hash-linked logs with its tamper evidence. \<open>Audit_Chain\<close>
      (\<open>contracts/audit.py\<close>, \<open>models/audit.py\<close>, \<open>sqlite_repo/repository.py\<close>,
      \<open>telemetry/audit.py\<close>): the audit log, its outages and its verifier. \<open>Crypto_Framing\<close> and
      \<open>File_Access\<close> (\<open>crypto/_file_access_signing.py\<close>, \<open>sqlmodel_repo/file_access.py\<close>): framed canonical bytes,
      signing keys, acknowledgments and the signed access journal. \<open>Ed25519_Keys\<close>: point decompression and the
      small-order gate on submitted keys.
    \<^item> \<open>Run_Contracts\<close>: a locale of state machines run by lists of operations. \<open>Clearance\<close>,
      \<open>Reclassify\<close>, \<open>Cases\<close>: clearance grants and the tier gate, evidence tiers, investigation cases.
    \<^item> \<open>Discovery_Store\<close>, \<open>Fleet\<close>, \<open>Memberships\<close>, \<open>Candidates\<close>, \<open>Join_Flow\<close>,
      \<open>Supervisor\<close>, \<open>Operator_Actions\<close>: identities, collectors, groups, candidates, joining, the process
      supervisor and the operator's review. \<open>Discovery_Invariant\<close>, \<open>Discovery_Runs\<close>,
      \<open>Discovery_Properties\<close>: the invariant of that store, its preservation and what follows.
    \<^item> \<open>Host_Patterns\<close>, \<open>Sources\<close>, \<open>Source_Properties\<close> (\<open>util/domain.py\<close>,
      \<open>sqlmodel_repo/sources.py\<close>, \<open>artifacts.py\<close>): host patterns, source domains and infrastructure artifacts. The run
      relation takes the pairs of value and kind that are put; what depends on one kind per value says so (\<open>one_kind\<close>).
    \<^item> \<open>Crews\<close> (\<open>linker/crews.py\<close>): union-find clustering. \<open>Linkages\<close>, \<open>Personas\<close>,
      \<open>Attribution\<close>, \<open>Graph_Service\<close>: linkages and simhash search, personas, comparators and verifier, the graph
      service and the decision routes. \<open>Simhash\<close>, \<open>Linkage_Steps\<close>, \<open>Attr_Service\<close>: the laws they rest on and
      the step relation of the concurrent services. \<open>Attribution_Properties\<close> and
      \<open>Attribution_Witnesses\<close>.
    \<^item> \<open>Auth_Tokens\<close>, \<open>Auth_Store\<close>, \<open>Auth_Handlers\<close> (\<open>api/auth\<close>, \<open>api/deps.py\<close>,
      \<open>api/v1/auth\<close>, \<open>sqlmodel_repo/auth.py\<close>, \<open>users.py\<close>): scopes, tokens, the tables behind them and
      every handler. \<open>Auth_Service\<close>: locales over the storage interface that carry a preorder through the handlers.
      \<open>Auth_Runs\<close>, \<open>Auth_Properties\<close>, \<open>Auth_Witnesses\<close>.
    \<^item> \<open>Api_Guards\<close>, \<open>Guard_Properties\<close> (\<open>api/middleware\<close>, \<open>api/deps_paging.py\<close>,
      \<open>sqlmodel_repo/idempotency.py\<close>): the rate limit, the idempotency guard, the audit of evidence reads and cursors. A
      reservation of an idempotency key is a machine of single statements (\<open>reserve_step\<close>), and the guard a step relation in
      which requests, handlers and purges interleave between them (\<open>guard_step\<close>).
    \<^item> \<open>Bus\<close> (\<open>bus/subjects.py\<close>, \<open>bus/memory.py\<close>, \<open>bus/publisher.py\<close>): subject patterns, fan-out and queue groups,
      the envelope publisher. \<open>Uuid_Text\<close>: the text of a UUID. \<open>Event_Stream\<close>, \<open>Stream_Properties\<close>
      (\<open>api/streaming\<close>, \<open>api/v1/stream\<close>): server-sent events from the durable logs and the live bus, as a step relation of one
      connection against the rest of the program.
    \<^item> \<open>Incidents\<close>, \<open>Incident_Service\<close>, \<open>Incident_Properties\<close> (\<open>incidents/\<close>, \<open>sqlmodel_repo/incidents.py\<close>,
      \<open>api/v1/incidents\<close>): the prefilter, operator rules and calibration, the batching service, the backfill and the
      routes; the properties run over all of them as one step relation. The backfill has one unit of fuel per page, so one
      more than the unclassified messages is enough (\<open>backfill_complete\<close>).

  \<^bold>\<open>Conventions.\<close> A table is the list of its rows in insertion order; a failed constraint is \<open>IntegrityError\<close> and
  leaves the state as it was, because each repository call is one transaction. Calls that the code runs in separate
  transactions are separate state changes here, so an error between them keeps the earlier ones. An operation returns
  the exception or the value, and the new state. The clock and every fresh id are arguments; instants are UTC
  microseconds as \<open>int\<close>; strings are lists of characters below 256; floating-point scores are reals, with their rounding
  a parameter where it is visible. Column widths are not enforced. An outage of the audit log or the journal is a flag of
  the state that fails the next write.

  \<^bold>\<open>Parameters.\<close> Code outside the repository is an argument: canonical JSON and SHA-256 (assumed injective only where a
  theorem says so), Ed25519, PyJWT, argon2, TOTP, Fernet and HMAC, IDNA, URL parsing, the operating system's answer when a
  child process is started, and whether the bus accepts a message.

  \<^bold>\<open>What the lemmas show.\<close> Each stateful component has an invariant kept by all its operations, error paths included,
  and lifted to runs; each handler has its exact effect on success and on refusal; optimised routines (the
  conditional updates that compare and swap, union-find, the signed 64-bit Hamming search, Edwards doubling in extended
  coordinates) are proved equal to their plain descriptions; personas refine a partition of the actors and the join
  writeback refines one atomic step. Interfaces between components are locales, each interpreted on the model's own
  operations. The pointer loops of the union-find are \<open>partial_function\<close>s, proved to return for every list of
  edges; all other recursion is structural or has a measure.

  \<^bold>\<open>Not modelled.\<close> Drivers of remote platforms (Telegram, Matrix and forum clients), the parsers and stylometric
  primitives of the sensor, calibration and corpus tooling, the command line, migrations and the PostgreSQL back end,
  telemetry export and the front end: input and output around third-party libraries, numeric feature
  extraction or operations tooling that decides nothing of the state modelled here. The interleaving of two
  requests inside one handler is not modelled except where a theorem names it; where it matters a finding of the
  manifest says so. Three small simplifications: a failing write of the NDJSON copy after the audit row is
  committed (\<open>append_audit\<close> writes both or none), a JSON number that is not an integer as the depth of automatic joins
  (\<open>max_auto_join_depth\<close> takes the default), and the pauses between the rows of one page of a replay
  (\<open>replay_turn\<close> sends a page in one step).
\<close>

end
